(* ===== verification/Prelude.thy ===== *)
theory Prelude
  imports Main "HOL-Library.Word" "HOL-Library.Monad_Syntax"
begin

text \<open>
  Shared vocabulary of the development: the fragment of Go's standard library the
  components use (\<open>sort.Search\<close>, slice insertion and removal with their bounds
  panics, decimal rendering of integers, \<open>strings.Split\<close> on one character), and generic
  lemmas on sorted lists, options and maps. A computation that Go aborts with a panic
  (nil dereference, slice index out of range) is \<^term>\<open>None\<close> of an option type.
\<close>

named_theorems slice_simps \<open>slice insertion and removal inside the bounds\<close>

named_theorems option_elims \<open>inversion of option-valued steps\<close>

section \<open>Option-valued steps\<close>

lemma bind_SomeE [option_elims]:
  "Option.bind m f = Some y \<Longrightarrow> (\<And>x. m = Some x \<Longrightarrow> f x = Some y \<Longrightarrow> P) \<Longrightarrow> P"
  by (cases m) auto

lemma bind_Some_iff:
  "Option.bind m f = Some y \<longleftrightarrow> (\<exists>x. m = Some x \<and> f x = Some y)"
  by (cases m) auto

section \<open>Slices\<close>

text \<open>
  \<open>insertAt\<close> of the matcher and of the snapshot code: append a zero, shift the tail with
  \<open>copy\<close>, write the new value. The slice expression \<open>prices[idx+1:]\<close> panics when
  \<open>idx\<close> is past the end.
\<close>

definition slice_insert :: "'a list \<Rightarrow> nat \<Rightarrow> 'a \<Rightarrow> 'a list option" where
  "slice_insert xs i x =
     (if i \<le> length xs then Some (take i xs @ x # drop i xs) else None)"

text \<open>\<open>append(prices[:idx], prices[idx+1:]...)\<close> panics unless \<open>idx\<close> is a valid index.\<close>

definition slice_remove :: "'a list \<Rightarrow> nat \<Rightarrow> 'a list option" where
  "slice_remove xs i =
     (if i < length xs then Some (take i xs @ drop (Suc i) xs) else None)"

lemma slice_insert_in [slice_simps]:
  "i \<le> length xs \<Longrightarrow> slice_insert xs i x = Some (take i xs @ x # drop i xs)"
  by (simp add: slice_insert_def)

lemma slice_remove_in [slice_simps]:
  "i < length xs \<Longrightarrow> slice_remove xs i = Some (take i xs @ drop (Suc i) xs)"
  by (simp add: slice_remove_def)

lemma slice_remove_append [slice_simps]:
  "slice_remove (xs @ y # ys) (length xs) = Some (xs @ ys)"
  by (simp add: slice_remove_def)

lemma slice_insert_append [slice_simps]:
  "slice_insert (xs @ ys) (length xs) y = Some (xs @ y # ys)"
  by (simp add: slice_insert_def)

section \<open>sort.Search\<close>

text \<open>
  Go's \<open>sort.Search(n, f)\<close>: the binary search loop
  \<^verbatim>\<open>i, j := 0, n; for i < j { h := (i+j)/2; if !f(h) { i = h+1 } else { j = h } }; return i\<close>.
\<close>

function go_search :: "(nat \<Rightarrow> bool) \<Rightarrow> nat \<Rightarrow> nat \<Rightarrow> nat" where
  "go_search f i j =
     (if i < j then
        (let h = (i + j) div 2
         in if \<not> f h then go_search f (h + 1) j else go_search f i h)
      else i)"
  by pat_completeness auto
termination
  by (relation "measure (\<lambda>(f, i, j). j - i)") (auto simp: Let_def)

declare go_search.simps [simp del]

definition sort_Search :: "nat \<Rightarrow> (nat \<Rightarrow> bool) \<Rightarrow> nat" where
  "sort_Search n f = go_search f 0 n"

text \<open>
  On a predicate that is false before some index \<open>k\<close> and true from \<open>k\<close> on, the loop
  returns \<open>k\<close>.
\<close>

lemma go_search_eq:
  assumes "i \<le> k" "k \<le> j"
    and "\<And>m. m < k \<Longrightarrow> \<not> f m" and "\<And>m. k \<le> m \<Longrightarrow> m < j \<Longrightarrow> f m"
  shows "go_search f i j = k"
  using assms
proof (induction f i j rule: go_search.induct)
  case (1 f i j)
  show ?case
  proof (cases "i < j")
    case False
    with 1 show ?thesis by (subst go_search.simps) simp
  next
    case True
    let ?h = "(i + j) div 2"
    have h: "i \<le> ?h" "?h < j" using True by auto
    show ?thesis
    proof (cases "f ?h")
      case True
      then have "k \<le> ?h" using "1.prems"(3) not_le by blast
      with "1.IH"(2)[OF \<open>i < j\<close> refl] True "1.prems" h
      have "go_search f i ?h = k" by auto
      with True \<open>i < j\<close> show ?thesis by (subst go_search.simps) (simp add: Let_def)
    next
      case False
      then have "?h < k" using "1.prems"(4) h by (meson not_le)
      with "1.IH"(1)[OF \<open>i < j\<close> refl] False "1.prems" h
      have "go_search f (?h + 1) j = k" by auto
      with False \<open>i < j\<close> show ?thesis by (subst go_search.simps) (simp add: Let_def)
    qed
  qed
qed

lemma sort_Search_append:
  assumes "\<forall>x\<in>set xs. \<not> p x" and "\<forall>y\<in>set ys. p y"
  shows "sort_Search (length (xs @ ys)) (\<lambda>i. p ((xs @ ys) ! i)) = length xs"
  unfolding sort_Search_def
proof (rule go_search_eq)
  fix m assume "m < length xs"
  then show "\<not> p ((xs @ ys) ! m)" using assms(1) by (simp add: nth_append)
next
  fix m assume "length xs \<le> m" "m < length (xs @ ys)"
  then show "p ((xs @ ys) ! m)" using assms(2) by (simp add: nth_append)
qed auto

text \<open>The result is never past the end, whatever the predicate.\<close>

lemma go_search_le: "i \<le> j \<Longrightarrow> go_search f i j \<le> j"
proof (induction f i j rule: go_search.induct)
  case (1 f i j)
  show ?case
  proof (cases "i < j")
    case False
    with 1 show ?thesis by (subst go_search.simps) simp
  next
    case True
    let ?h = "(i + j) div 2"
    from True have h: "i \<le> ?h" "?h < j" by auto
    show ?thesis
    proof (cases "f ?h")
      case True
      with "1.IH"(2)[OF \<open>i < j\<close> refl] h have "go_search f i ?h \<le> ?h" by simp
      with True \<open>i < j\<close> h show ?thesis by (subst go_search.simps) (simp add: Let_def)
    next
      case False
      with "1.IH"(1)[OF \<open>i < j\<close> refl] h have "go_search f (?h + 1) j \<le> j" by simp
      with False \<open>i < j\<close> show ?thesis by (subst go_search.simps) (simp add: Let_def)
    qed
  qed
qed

lemma sort_Search_le: "sort_Search n f \<le> n"
  by (simp add: sort_Search_def go_search_le)

section \<open>Decimal rendering\<close>

text \<open>\<open>%d\<close> of \<open>fmt.Sprintf\<close> on a non-negative integer.\<close>

fun itoa :: "nat \<Rightarrow> string" where
  "itoa n = (if n < 10 then [char_of (48 + n)] else itoa (n div 10) @ [char_of (48 + n mod 10)])"

declare itoa.simps [simp del]

end
