(* ===== verification/Extern.thy ===== *)
theory Extern
  imports Prelude
begin

text \<open>
  The code outside the repository the components call: \<open>shopspring/decimal\<close>,
  \<open>google/uuid\<close> and the textual formats of \<open>time\<close>. Decimals are arbitrary precision and
  exact under addition, subtraction, multiplication and comparison, so their values are
  an arbitrary linearly ordered integral domain \<open>'d\<close>; every other function of these
  packages is a field of the record \<open>'d lib\<close>, which the definitions take as an
  argument. \<open>lib_ok\<close> states the documented behaviour the properties rely on. It is a
  hypothesis of a property, never a fact, and \<open>int_lib\<close> is an instance that meets it.

  A \<open>uuid.UUID\<close> is 16 bytes compared by value, hence a \<^typ>\<open>128 word\<close> with
  \<open>uuid.Nil = 0\<close>. A \<open>time.Time\<close> is its instant in nanoseconds, the zero time being \<open>0\<close>.
\<close>

type_synonym uuid = "128 word"
type_synonym time = int

record 'd lib =
  d_String :: "'d \<Rightarrow> string"                  \<comment> \<open>decimal.Decimal.String\<close>
  d_NewFromString :: "string \<Rightarrow> 'd option"    \<comment> \<open>decimal.NewFromString, None for an error\<close>
  d_Mod :: "'d \<Rightarrow> 'd \<Rightarrow> 'd"                    \<comment> \<open>decimal.Decimal.Mod\<close>
  u_String :: "uuid \<Rightarrow> string"                \<comment> \<open>uuid.UUID.String\<close>
  u_Parse :: "string \<Rightarrow> uuid option"          \<comment> \<open>uuid.Parse\<close>
  u_NewSHA1_DNS :: "string \<Rightarrow> uuid"           \<comment> \<open>uuid.NewSHA1(uuid.NameSpaceDNS, data)\<close>
  t_FormatNano :: "time \<Rightarrow> string"            \<comment> \<open>Time.Format(time.RFC3339Nano)\<close>
  t_ParseNano :: "string \<Rightarrow> time option"      \<comment> \<open>time.Parse(time.RFC3339Nano, s)\<close>

text \<open>The instants RFC 3339 can write: years 1 to 9999, below \<open>3.2 * 10^20\<close> nanoseconds.\<close>

definition t_rfc3339 :: "time \<Rightarrow> bool" where
  "t_rfc3339 t \<longleftrightarrow> 0 \<le> t \<and> t < 315537897600000000000"

text \<open>
  Documented behaviour: printing and parsing are inverse on decimals, UUIDs and RFC 3339
  instants, and \<open>Mod\<close> by a positive divisor is zero exactly on its integer multiples.
\<close>

definition lib_ok :: "('d::linordered_idom) lib \<Rightarrow> bool" where
  "lib_ok L \<longleftrightarrow>
     (\<forall>x. d_NewFromString L (d_String L x) = Some x) \<and>
     (\<forall>u. u_Parse L (u_String L u) = Some u) \<and>
     (\<forall>t. t_rfc3339 t \<longrightarrow> t_ParseNano L (t_FormatNano L t) = Some t) \<and>
     (\<forall>x m. 0 < m \<longrightarrow> (d_Mod L x m = 0 \<longleftrightarrow> (\<exists>k::int. x = of_int k * m)))"

lemma lib_okD:
  assumes "lib_ok L"
  shows "d_NewFromString L (d_String L x) = Some x"
    and "u_Parse L (u_String L u) = Some u"
    and "t_rfc3339 t \<Longrightarrow> t_ParseNano L (t_FormatNano L t) = Some t"
    and "0 < m \<Longrightarrow> d_Mod L x m = 0 \<longleftrightarrow> (\<exists>k::int. x = of_int k * m)"
  using assms by (auto simp: lib_ok_def)

text \<open>Distinct decimals print differently: what the level maps keyed by \<open>String()\<close> need.\<close>

lemma lib_ok_inj: "lib_ok L \<Longrightarrow> d_String L x = d_String L y \<longleftrightarrow> x = y"
  by (metis lib_okD(1) option.inject)

section \<open>An instance on the integers\<close>

text \<open>Integers written in unary, with a leading minus sign for negative ones.\<close>

definition show_unary :: "int \<Rightarrow> string" where
  "show_unary i =
     (if i < 0 then CHR ''-'' # replicate (nat (- i)) CHR ''1''
      else replicate (nat i) CHR ''1'')"

fun read_unary :: "string \<Rightarrow> int option" where
  "read_unary [] = Some 0"
| "read_unary (c # cs) =
     (if c = CHR ''-'' then (if \<forall>x\<in>set cs. x = CHR ''1'' then Some (- int (length cs)) else None)
      else if \<forall>x\<in>set (c # cs). x = CHR ''1'' then Some (int (Suc (length cs))) else None)"

lemma read_show_unary: "read_unary (show_unary i) = Some i"
proof (cases "i < 0")
  case True
  then show ?thesis by (simp add: show_unary_def)
next
  case False
  then show ?thesis by (cases "nat i") (auto simp: show_unary_def)
qed

definition go_rem :: "int \<Rightarrow> int \<Rightarrow> int" where
  "go_rem a b = sgn a * (\<bar>a\<bar> mod \<bar>b\<bar>)"

lemma go_rem_zero: "0 < m \<Longrightarrow> go_rem x m = 0 \<longleftrightarrow> (\<exists>k. x = k * m)"
proof -
  assume "0 < m"
  then have "go_rem x m = 0 \<longleftrightarrow> m dvd x"
    by (auto simp: go_rem_def sgn_if mod_eq_0_iff_dvd)
  then show ?thesis by (auto simp: dvd_def mult.commute)
qed

definition int_lib :: "int lib" where
  "int_lib = \<lparr>d_String = show_unary, d_NewFromString = read_unary, d_Mod = go_rem,
     u_String = (\<lambda>u. show_unary (uint u)),
     u_Parse = (\<lambda>s. map_option word_of_int (read_unary s)),
     u_NewSHA1_DNS = (\<lambda>s. word_of_int (int (length s))),
     t_FormatNano = show_unary, t_ParseNano = read_unary\<rparr>"

lemma int_lib_ok: "lib_ok int_lib"
  by (simp add: lib_ok_def int_lib_def read_show_unary go_rem_zero)

end
