(* ===== verification/OrderBook.thy ===== *)
theory OrderBook
  imports Extern
begin

text \<open>
  The in-memory order book of the matching engine
  (\<open>services/matching-engine/internal/orderbook\<close>) and the operations of
  \<open>services/matching-engine/internal/matcher/matcher.go\<close> on it, except the matching loop:
  insertion, cancellation, the peek at the best order, fills and the depth view.

  A \<open>*OrderNode\<close> is named by its order ID: the index is the store that holds the nodes,
  and the FIFO list of a price level holds the IDs, so an update of a node is seen
  through the index and through the list, as it is through the shared pointer. The
  operations refuse a second node with the same ID, which makes the ID a pointer. The
  back-pointer \<open>Element\<close> is the occurrence of the ID in its level's list. A pointer to one
  of the two sides is the side's name. A step that panics returns \<^term>\<open>None\<close>.
\<close>

section \<open>Data\<close>

datatype side_type = SideBuy | SideSell
datatype order_type = OrderTypeLimit | OrderTypeMarket

record 'd order_node =
  n_OrderID :: uuid
  n_UserID :: uuid
  n_MarketID :: string
  n_Side :: side_type
  n_OrderType :: order_type
  n_Price :: 'd
  n_OriginalQty :: 'd
  n_RemainingQty :: 'd
  n_Timestamp :: time
  n_ClientOrderID :: string

record 'd price_level =
  l_Price :: 'd
  l_Orders :: "uuid list"
  l_TotalQty :: 'd

record 'd side =
  s_SortedPrices :: "'d list"
  s_PriceLevels :: "string \<rightharpoonup> 'd price_level"
  s_IsBid :: bool

record 'd order_book =
  b_MarketID :: string
  b_Sequence :: "64 word"
  b_Bids :: "'d side"
  b_Asks :: "'d side"
  b_OrderIndex :: "uuid \<rightharpoonup> 'd order_node"

datatype cancel_status = RemovedFromBook | AlreadyAbsent | UserMismatch | InvalidRequest

record 'd cancel_outcome =
  o_Status :: cancel_status
  o_OrderID :: uuid
  o_UserID :: uuid
  o_MarketID :: string
  o_RemainingQuantity :: 'd

record 'd depth_level =
  dl_Price :: 'd
  dl_Quantity :: 'd

record 'd depth_snapshot =
  ds_MarketID :: string
  ds_Sequence :: "64 word"
  ds_Bids :: "'d depth_level list"
  ds_Asks :: "'d depth_level list"
  ds_SnapshotAt :: time

definition NewOrderBook :: "string \<Rightarrow> ('d::linordered_idom) order_book" where
  "NewOrderBook marketID =
     \<lparr>b_MarketID = marketID, b_Sequence = 0,
      b_Bids = \<lparr>s_SortedPrices = [], s_PriceLevels = Map.empty, s_IsBid = True\<rparr>,
      b_Asks = \<lparr>s_SortedPrices = [], s_PriceLevels = Map.empty, s_IsBid = False\<rparr>,
      b_OrderIndex = Map.empty\<rparr>"

section \<open>Helpers\<close>

fun getSide :: "'d order_book \<Rightarrow> side_type \<Rightarrow> 'd side" where
  "getSide bk SideBuy = b_Bids bk"
| "getSide bk SideSell = b_Asks bk"

text \<open>Writing through the pointer \<open>getSide\<close> returns.\<close>

fun setSide :: "'d order_book \<Rightarrow> side_type \<Rightarrow> 'd side \<Rightarrow> 'd order_book" where
  "setSide bk SideBuy sd = bk\<lparr>b_Bids := sd\<rparr>"
| "setSide bk SideSell sd = bk\<lparr>b_Asks := sd\<rparr>"

text \<open>The side \<open>getOppositeSide\<close> points to.\<close>

fun opposite :: "side_type \<Rightarrow> side_type" where
  "opposite SideBuy = SideSell"
| "opposite SideSell = SideBuy"

definition binarySearchInsertIndex :: "('d::linordered_idom) side \<Rightarrow> 'd \<Rightarrow> nat" where
  "binarySearchInsertIndex sd price =
     (let ps = s_SortedPrices sd in
      if s_IsBid sd then sort_Search (length ps) (\<lambda>i. ps ! i < price)
      else sort_Search (length ps) (\<lambda>i. ps ! i > price))"

definition findPriceIndex :: "('d::linordered_idom) side \<Rightarrow> 'd \<Rightarrow> nat" where
  "findPriceIndex sd price =
     (let ps = s_SortedPrices sd in
      if s_IsBid sd then sort_Search (length ps) (\<lambda>i. ps ! i \<le> price)
      else sort_Search (length ps) (\<lambda>i. ps ! i \<ge> price))"

section \<open>Operations\<close>

text \<open>The new price level of \<open>Insert\<close>: an empty queue and a new entry of the sorted slice.\<close>

definition ensureLevel ::
  "('d::linordered_idom) lib \<Rightarrow> 'd side \<Rightarrow> 'd \<Rightarrow> 'd side option" where
  "ensureLevel L sd price =
     (case s_PriceLevels sd (d_String L price) of
        Some _ \<Rightarrow> Some sd
      | None \<Rightarrow> do {
          ps \<leftarrow> slice_insert (s_SortedPrices sd) (binarySearchInsertIndex sd price) price;
          Some (sd\<lparr>s_SortedPrices := ps,
                   s_PriceLevels := (s_PriceLevels sd)
                     (d_String L price \<mapsto> \<lparr>l_Price = price, l_Orders = [], l_TotalQty = 0\<rparr>)\<rparr>)
        })"

definition Insert ::
  "('d::linordered_idom) lib \<Rightarrow> 'd order_book \<Rightarrow> 'd order_node \<Rightarrow> 'd order_book option" where
  "Insert L bk nd =
     (if b_OrderIndex bk (n_OrderID nd) \<noteq> None then Some bk
      else do {
        sd \<leftarrow> ensureLevel L (getSide bk (n_Side nd)) (n_Price nd);
        level \<leftarrow> s_PriceLevels sd (d_String L (n_Price nd));
        Some ((setSide bk (n_Side nd) (sd\<lparr>s_PriceLevels := (s_PriceLevels sd)
                 (d_String L (n_Price nd) \<mapsto>
                    level\<lparr>l_Orders := l_Orders level @ [n_OrderID nd],
                          l_TotalQty := l_TotalQty level + n_RemainingQty nd\<rparr>)\<rparr>))
              \<lparr>b_OrderIndex := (b_OrderIndex bk)(n_OrderID nd \<mapsto> nd)\<rparr>)
      })"

text \<open>
  The removal of a resting order that \<open>Cancel\<close> and \<open>FullFill\<close> share: the level's total,
  the queue element and the index entry, and the level itself when its queue is empty.
\<close>

definition removeResting ::
  "('d::linordered_idom) lib \<Rightarrow> 'd order_book \<Rightarrow> side_type \<Rightarrow> 'd order_node \<Rightarrow> 'd order_book option" where
  "removeResting L bk sp nd =
     (let sd = getSide bk sp; priceKey = d_String L (n_Price nd) in do {
        level \<leftarrow> s_PriceLevels sd priceKey;
        let level' = level\<lparr>l_TotalQty := l_TotalQty level - n_RemainingQty nd,
                           l_Orders := remove1 (n_OrderID nd) (l_Orders level)\<rparr>;
        sd' \<leftarrow> (if l_Orders level' = [] then do {
                   ps \<leftarrow> slice_remove (s_SortedPrices sd) (findPriceIndex sd (n_Price nd));
                   Some (sd\<lparr>s_SortedPrices := ps,
                            s_PriceLevels := (s_PriceLevels sd)(priceKey := None)\<rparr>)
                 }
                 else Some (sd\<lparr>s_PriceLevels := (s_PriceLevels sd)(priceKey \<mapsto> level')\<rparr>));
        Some ((setSide bk sp sd')\<lparr>b_OrderIndex := (b_OrderIndex bk)(n_OrderID nd := None)\<rparr>)
      })"

definition Cancel ::
  "('d::linordered_idom) lib \<Rightarrow> 'd order_book \<Rightarrow> uuid \<Rightarrow> uuid \<Rightarrow>
   ('d order_book \<times> 'd cancel_outcome) option" where
  "Cancel L bk orderID userID =
     (case b_OrderIndex bk orderID of
        None \<Rightarrow> Some (bk, \<lparr>o_Status = AlreadyAbsent, o_OrderID = orderID, o_UserID = 0,
                            o_MarketID = [], o_RemainingQuantity = 0\<rparr>)
      | Some nd \<Rightarrow>
          if n_UserID nd \<noteq> userID then
            Some (bk, \<lparr>o_Status = UserMismatch, o_OrderID = n_OrderID nd, o_UserID = n_UserID nd,
                       o_MarketID = n_MarketID nd, o_RemainingQuantity = n_RemainingQty nd\<rparr>)
          else do {
            bk' \<leftarrow> removeResting L bk (n_Side nd) nd;
            Some (bk', \<lparr>o_Status = RemovedFromBook, o_OrderID = n_OrderID nd, o_UserID = n_UserID nd,
                        o_MarketID = n_MarketID nd, o_RemainingQuantity = n_RemainingQty nd\<rparr>)
          })"

definition ExecuteBest ::
  "('d::linordered_idom) lib \<Rightarrow> 'd order_book \<Rightarrow> side_type \<Rightarrow> 'd order_node option" where
  "ExecuteBest L bk sp =
     (let sd = getSide bk sp in
      case s_SortedPrices sd of
        [] \<Rightarrow> None
      | bestPrice # _ \<Rightarrow>
          (case s_PriceLevels sd (d_String L bestPrice) of
             None \<Rightarrow> None
           | Some level \<Rightarrow>
               (case l_Orders level of
                  [] \<Rightarrow> None
                | front # _ \<Rightarrow> b_OrderIndex bk front)))"

definition PartialFill ::
  "('d::linordered_idom) lib \<Rightarrow> 'd order_book \<Rightarrow> side_type \<Rightarrow> 'd order_node \<Rightarrow> 'd \<Rightarrow>
   'd order_book option" where
  "PartialFill L bk sp nd filledQty =
     (let sd = getSide bk sp; priceKey = d_String L (n_Price nd) in do {
        level \<leftarrow> s_PriceLevels sd priceKey;
        Some ((setSide bk sp (sd\<lparr>s_PriceLevels := (s_PriceLevels sd)
                 (priceKey \<mapsto> level\<lparr>l_TotalQty := l_TotalQty level - filledQty\<rparr>)\<rparr>))
              \<lparr>b_OrderIndex := (b_OrderIndex bk)
                 (n_OrderID nd \<mapsto> nd\<lparr>n_RemainingQty := n_RemainingQty nd - filledQty\<rparr>)\<rparr>)
      })"

definition FullFill ::
  "('d::linordered_idom) lib \<Rightarrow> 'd order_book \<Rightarrow> side_type \<Rightarrow> 'd order_node \<Rightarrow> 'd order_book option" where
  "FullFill L bk sp nd = removeResting L bk sp nd"

definition depthLevels ::
  "('d::linordered_idom) lib \<Rightarrow> 'd side \<Rightarrow> nat \<Rightarrow> 'd depth_level list option" where
  "depthLevels L sd depth =
     those (map (\<lambda>price. map_option (\<lambda>level. \<lparr>dl_Price = price, dl_Quantity = l_TotalQty level\<rparr>)
                    (s_PriceLevels sd (d_String L price)))
                (take depth (s_SortedPrices sd)))"

definition GetDepth ::
  "('d::linordered_idom) lib \<Rightarrow> time \<Rightarrow> 'd order_book \<Rightarrow> nat \<Rightarrow> 'd depth_snapshot option" where
  "GetDepth L now bk depth = do {
     bids \<leftarrow> depthLevels L (b_Bids bk) depth;
     asks \<leftarrow> depthLevels L (b_Asks bk) depth;
     Some \<lparr>ds_MarketID = b_MarketID bk, ds_Sequence = b_Sequence bk,
           ds_Bids = bids, ds_Asks = asks, ds_SnapshotAt = now\<rparr>
   }"

end
