(* ===== verification/Matcher.thy ===== *)
theory Matcher
  imports OrderBook
begin

text \<open>
  The matching loop: \<open>Match\<close> of \<open>services/matching-engine/internal/matcher/matcher.go\<close>.
  The loop of the code has no bound of its own, so it is a \<open>partial_function\<close> into the
  option type, where \<^term>\<open>None\<close> is a panic or a loop that does not end; that it always
  returns on a well-formed book is a theorem (\<open>MatchRefinement\<close>). The two readings of the
  clock are the parameter \<open>now\<close>.
\<close>

datatype match_mode = MatchRecovery | MatchLive

record 'd fill =
  f_TradeID :: uuid
  f_MarketID :: string
  f_Sequence :: "64 word"
  f_MakerOrderID :: uuid
  f_TakerOrderID :: uuid
  f_BuyOrderID :: uuid
  f_SellOrderID :: uuid
  f_BuyerUserID :: uuid
  f_SellerUserID :: uuid
  f_Price :: 'd
  f_Quantity :: 'd
  f_ExecutedAt :: time

definition TradeID :: "'d lib \<Rightarrow> uuid \<Rightarrow> uuid \<Rightarrow> uuid \<Rightarrow> nat \<Rightarrow> uuid" where
  "TradeID L eventID makerID takerID fillIndex =
     u_NewSHA1_DNS L (u_String L eventID @ '':'' @ u_String L makerID @ '':'' @
                      u_String L takerID @ '':'' @ itoa fillIndex)"

definition crossable :: "('d::linordered_idom) order_node \<Rightarrow> 'd order_node \<Rightarrow> bool" where
  "crossable incoming best =
     (if n_OrderType incoming = OrderTypeMarket then
        (if n_Price incoming > 0 then
           (if n_Side incoming = SideBuy then n_Price best \<le> n_Price incoming
            else n_Price best \<ge> n_Price incoming)
         else True)
      else if n_Side incoming = SideBuy then n_Price incoming \<ge> n_Price best
      else n_Price incoming \<le> n_Price best)"

definition buyOrderOf :: "'d order_node \<Rightarrow> 'd order_node \<Rightarrow> uuid" where
  "buyOrderOf incoming best = (if n_Side incoming = SideBuy then n_OrderID incoming else n_OrderID best)"

definition sellOrderOf :: "'d order_node \<Rightarrow> 'd order_node \<Rightarrow> uuid" where
  "sellOrderOf incoming best = (if n_Side incoming = SideSell then n_OrderID incoming else n_OrderID best)"

definition buyUserOf :: "'d order_node \<Rightarrow> 'd order_node \<Rightarrow> uuid" where
  "buyUserOf incoming best = (if n_Side incoming = SideBuy then n_UserID incoming else n_UserID best)"

definition sellUserOf :: "'d order_node \<Rightarrow> 'd order_node \<Rightarrow> uuid" where
  "sellUserOf incoming best = (if n_Side incoming = SideSell then n_UserID incoming else n_UserID best)"

text \<open>The \<open>Fill\<close> of one iteration; \<open>sq\<close> is the sequence after its increment.\<close>

definition makeFill ::
  "'d lib \<Rightarrow> time \<Rightarrow> uuid \<Rightarrow> string \<Rightarrow> 64 word \<Rightarrow> nat \<Rightarrow> 'd order_node \<Rightarrow> 'd order_node \<Rightarrow> 'd \<Rightarrow> 'd fill" where
  "makeFill L now eventID market sq fillIndex incoming best fillQty =
     \<lparr>f_TradeID = TradeID L eventID (n_OrderID best) (n_OrderID incoming) fillIndex,
      f_MarketID = market, f_Sequence = sq,
      f_MakerOrderID = n_OrderID best, f_TakerOrderID = n_OrderID incoming,
      f_BuyOrderID = buyOrderOf incoming best, f_SellOrderID = sellOrderOf incoming best,
      f_BuyerUserID = buyUserOf incoming best, f_SellerUserID = sellUserOf incoming best,
      f_Price = n_Price best, f_Quantity = fillQty,
      f_ExecutedAt = (if n_Timestamp incoming = 0 then now else n_Timestamp incoming)\<rparr>"

partial_function (option) match_loop ::
  "('d::linordered_idom) lib \<Rightarrow> time \<Rightarrow> uuid \<Rightarrow> 'd order_book \<Rightarrow> 'd order_node \<Rightarrow> nat \<Rightarrow> 'd fill list \<Rightarrow>
   ('d order_book \<times> 'd order_node \<times> 'd fill list) option" where
  "match_loop L now eventID bk incoming fillIndex fills =
     (if n_RemainingQty incoming > 0 then
        (case ExecuteBest L bk (opposite (n_Side incoming)) of
           None \<Rightarrow> Some (bk, incoming, fills)
         | Some best \<Rightarrow>
             if \<not> crossable incoming best then Some (bk, incoming, fills)
             else
               (let fillQty = min (n_RemainingQty incoming) (n_RemainingQty best);
                    bk1 = bk\<lparr>b_Sequence := b_Sequence bk + 1\<rparr>;
                    fill = makeFill L now eventID (b_MarketID bk1) (b_Sequence bk1) fillIndex
                             incoming best fillQty
                in Option.bind
                     (if fillQty = n_RemainingQty best
                      then FullFill L bk1 (opposite (n_Side incoming)) best
                      else PartialFill L bk1 (opposite (n_Side incoming)) best fillQty)
                     (\<lambda>bk2. match_loop L now eventID bk2
                        (incoming\<lparr>n_RemainingQty := n_RemainingQty incoming - fillQty\<rparr>)
                        (fillIndex + 1) (fills @ [fill]))))
      else Some (bk, incoming, fills))"

definition Match ::
  "('d::linordered_idom) lib \<Rightarrow> time \<Rightarrow> 'd order_book \<Rightarrow> 'd order_node \<Rightarrow> match_mode \<Rightarrow> uuid \<Rightarrow>
   ('d order_book \<times> 'd order_node \<times> 'd fill list) option" where
  "Match L now bk incoming mode eventID = do {
     (bk1, incoming1, fills) \<leftarrow> match_loop L now eventID bk incoming 0 [];
     bk2 \<leftarrow> (if n_RemainingQty incoming1 > 0 \<and> n_OrderType incoming1 = OrderTypeLimit
             then Insert L (bk1\<lparr>b_Sequence := b_Sequence bk1 + 1\<rparr>) incoming1
             else Some bk1);
     Some (bk2, incoming1, if mode = MatchRecovery then [] else fills)
   }"

end
