(* ===== verification/BookInvariant.thy ===== *)
theory BookInvariant
  imports OrderBook
begin

text \<open>
  The representation invariant of the order book and its abstraction. \<open>book_ok\<close> says what
  the sorted price slices, the level maps, the FIFO queues, the pre-aggregated totals and
  the order index have to do with each other; \<open>resting\<close> is the list of resting orders of
  a side in price-time order. Each operation of the book keeps the invariant and is an
  operation on these lists: insertion behind the orders at the same or a better price,
  removal of one order, and an update of the front.
\<close>

section \<open>Invariant and abstraction\<close>

fun better :: "side_type \<Rightarrow> ('d::linordered_idom) \<Rightarrow> 'd \<Rightarrow> bool" where
  "better SideBuy p q = (p > q)"
| "better SideSell p q = (p < q)"

lemma better_irrefl [simp]: "\<not> better sp p p"
  by (cases sp) auto

lemma better_trans: "better sp p q \<Longrightarrow> better sp q r \<Longrightarrow> better sp p r"
  by (cases sp) auto

lemma better_antisym: "better sp p q \<Longrightarrow> \<not> better sp q p"
  by (cases sp) auto

lemma better_total: "p \<noteq> q \<Longrightarrow> better sp p q \<or> better sp q p"
  by (cases sp) auto

definition level_ok ::
  "(uuid \<rightharpoonup> ('d::linordered_idom) order_node) \<Rightarrow> side_type \<Rightarrow> 'd \<Rightarrow> 'd price_level \<Rightarrow> bool" where
  "level_ok idx sp p lv \<longleftrightarrow>
     l_Price lv = p \<and> l_Orders lv \<noteq> [] \<and> distinct (l_Orders lv) \<and>
     (\<forall>i\<in>set (l_Orders lv). \<exists>n. idx i = Some n \<and> n_Side n = sp \<and> n_Price n = p) \<and>
     l_TotalQty lv = sum_list (map (\<lambda>i. n_RemainingQty (the (idx i))) (l_Orders lv))"

definition side_ok ::
  "('d::linordered_idom) lib \<Rightarrow> side_type \<Rightarrow> (uuid \<rightharpoonup> 'd order_node) \<Rightarrow> 'd side \<Rightarrow> bool" where
  "side_ok L sp idx sd \<longleftrightarrow>
     s_IsBid sd = (sp = SideBuy) \<and>
     sorted_wrt (better sp) (s_SortedPrices sd) \<and>
     dom (s_PriceLevels sd) = d_String L ` set (s_SortedPrices sd) \<and>
     (\<forall>p\<in>set (s_SortedPrices sd). \<exists>lv. s_PriceLevels sd (d_String L p) = Some lv \<and> level_ok idx sp p lv) \<and>
     (\<forall>i n. idx i = Some n \<longrightarrow> n_Side n = sp \<longrightarrow>
        n_Price n \<in> set (s_SortedPrices sd) \<and>
        i \<in> set (l_Orders (the (s_PriceLevels sd (d_String L (n_Price n))))))"

definition index_ok :: "(uuid \<rightharpoonup> ('d::linordered_idom) order_node) \<Rightarrow> bool" where
  "index_ok idx \<longleftrightarrow>
     (\<forall>i n. idx i = Some n \<longrightarrow>
        n_OrderID n = i \<and> 0 < n_RemainingQty n \<and> n_RemainingQty n \<le> n_OriginalQty n \<and>
        n_OrderType n = OrderTypeLimit)"

definition book_ok :: "('d::linordered_idom) lib \<Rightarrow> 'd order_book \<Rightarrow> bool" where
  "book_ok L bk \<longleftrightarrow>
     index_ok (b_OrderIndex bk) \<and>
     side_ok L SideBuy (b_OrderIndex bk) (b_Bids bk) \<and>
     side_ok L SideSell (b_OrderIndex bk) (b_Asks bk)"

definition level_nodes ::
  "('d::linordered_idom) lib \<Rightarrow> (uuid \<rightharpoonup> 'd order_node) \<Rightarrow> (string \<rightharpoonup> 'd price_level) \<Rightarrow> 'd \<Rightarrow> 'd order_node list" where
  "level_nodes L idx lvs p = map (\<lambda>i. the (idx i)) (l_Orders (the (lvs (d_String L p))))"

definition resting_side ::
  "('d::linordered_idom) lib \<Rightarrow> (uuid \<rightharpoonup> 'd order_node) \<Rightarrow> 'd side \<Rightarrow> 'd order_node list" where
  "resting_side L idx sd =
     concat (map (level_nodes L idx (s_PriceLevels sd)) (s_SortedPrices sd))"

definition resting :: "('d::linordered_idom) lib \<Rightarrow> 'd order_book \<Rightarrow> side_type \<Rightarrow> 'd order_node list" where
  "resting L bk sp = resting_side L (b_OrderIndex bk) (getSide bk sp)"

section \<open>Consequences of the invariant\<close>

lemma book_okD:
  assumes "book_ok L bk"
  shows "index_ok (b_OrderIndex bk)" "side_ok L sp (b_OrderIndex bk) (getSide bk sp)"
  using assms by (cases sp; simp add: book_ok_def)+

lemma book_okI:
  assumes "index_ok (b_OrderIndex bk)"
    and "\<And>sp. side_ok L sp (b_OrderIndex bk) (getSide bk sp)"
  shows "book_ok L bk"
  using assms(1) assms(2)[of SideBuy] assms(2)[of SideSell] by (simp add: book_ok_def)

lemma index_okD:
  assumes "index_ok idx" "idx i = Some n"
  shows "n_OrderID n = i" "0 < n_RemainingQty n" "n_RemainingQty n \<le> n_OriginalQty n"
    "n_OrderType n = OrderTypeLimit"
  using assms unfolding index_ok_def by blast+

lemma side_okD:
  assumes "side_ok L sp idx sd"
  shows "s_IsBid sd = (sp = SideBuy)"
    and "sorted_wrt (better sp) (s_SortedPrices sd)"
    and "dom (s_PriceLevels sd) = d_String L ` set (s_SortedPrices sd)"
    and "p \<in> set (s_SortedPrices sd) \<Longrightarrow> \<exists>lv. s_PriceLevels sd (d_String L p) = Some lv \<and> level_ok idx sp p lv"
    and "idx i = Some n \<Longrightarrow> n_Side n = sp \<Longrightarrow> n_Price n \<in> set (s_SortedPrices sd)"
    and "idx i = Some n \<Longrightarrow> n_Side n = sp \<Longrightarrow>
           i \<in> set (l_Orders (the (s_PriceLevels sd (d_String L (n_Price n)))))"
  using assms unfolding side_ok_def by blast+

lemma sorted_better_distinct: "sorted_wrt (better sp) ps \<Longrightarrow> distinct ps"
  by (induction ps) auto

text \<open>An order's level splits the sorted slice.\<close>

lemma side_ok_split:
  assumes "side_ok L sp idx sd" "idx i = Some n" "n_Side n = sp"
  obtains ps1 ps2 lv where
    "s_SortedPrices sd = ps1 @ n_Price n # ps2"
    "s_PriceLevels sd (d_String L (n_Price n)) = Some lv"
    "level_ok idx sp (n_Price n) lv" "i \<in> set (l_Orders lv)"
    "n_Price n \<notin> set ps1" "n_Price n \<notin> set ps2"
proof -
  have p: "n_Price n \<in> set (s_SortedPrices sd)" using side_okD(5)[OF assms] .
  then obtain ps1 ps2 where ps: "s_SortedPrices sd = ps1 @ n_Price n # ps2"
    by (meson split_list)
  obtain lv where lv: "s_PriceLevels sd (d_String L (n_Price n)) = Some lv" "level_ok idx sp (n_Price n) lv"
    using side_okD(4)[OF assms(1) p] by blast
  have "distinct (s_SortedPrices sd)"
    using sorted_better_distinct[OF side_okD(2)[OF assms(1)]] .
  with ps lv side_okD(6)[OF assms] show thesis by (intro that) auto
qed

text \<open>A side only sees the index entries of its own orders.\<close>

definition same_on :: "side_type \<Rightarrow> (uuid \<rightharpoonup> 'd order_node) \<Rightarrow> (uuid \<rightharpoonup> 'd order_node) \<Rightarrow> bool" where
  "same_on sp idx idx' \<longleftrightarrow> (\<forall>i n. n_Side n = sp \<longrightarrow> (idx i = Some n \<longleftrightarrow> idx' i = Some n))"

lemma same_onD: "same_on sp idx idx' \<Longrightarrow> n_Side n = sp \<Longrightarrow> idx i = Some n \<longleftrightarrow> idx' i = Some n"
  by (simp add: same_on_def)

lemma level_ok_lookup:
  assumes "level_ok idx sp p lv" "i \<in> set (l_Orders lv)"
  obtains n where "idx i = Some n" "n_Side n = sp" "n_Price n = p"
  using assms unfolding level_ok_def by blast

lemma level_ok_ex:
  "level_ok idx sp p lv \<Longrightarrow> i \<in> set (l_Orders lv) \<Longrightarrow>
   \<exists>n. idx i = Some n \<and> n_Side n = sp \<and> n_Price n = p"
  unfolding level_ok_def by blast

lemma level_ok_fresh: "level_ok idx sp p lv \<Longrightarrow> idx i = None \<Longrightarrow> i \<notin> set (l_Orders lv)"
  unfolding level_ok_def by force

lemma same_on_level:
  assumes "same_on sp idx idx'" "level_ok idx sp p lv" "i \<in> set (l_Orders lv)"
  shows "idx' i = idx i"
proof -
  obtain n where n: "idx i = Some n" "n_Side n = sp"
    using level_ok_lookup[OF assms(2,3)] by blast
  then have "idx' i = Some n" using same_onD[OF assms(1)] by blast
  with n show ?thesis by simp
qed

lemma level_ok_cong:
  assumes same: "same_on sp idx idx'" and lv: "level_ok idx sp p lv"
  shows "level_ok idx' sp p lv"
proof -
  have eq: "\<forall>i\<in>set (l_Orders lv). idx' i = idx i"
    using same_on_level[OF assms] by blast
  then have tot: "map (\<lambda>i. n_RemainingQty (the (idx' i))) (l_Orders lv) =
             map (\<lambda>i. n_RemainingQty (the (idx i))) (l_Orders lv)"
    by (intro map_cong) auto
  have nodes: "\<forall>i\<in>set (l_Orders lv). \<exists>n. idx' i = Some n \<and> n_Side n = sp \<and> n_Price n = p"
    using lv eq by (metis level_ok_lookup)
  from lv tot nodes show ?thesis unfolding level_ok_def by presburger
qed

lemma side_ok_cong:
  assumes same: "same_on sp idx idx'" and ok: "side_ok L sp idx sd"
  shows "side_ok L sp idx' sd"
  unfolding side_ok_def
proof (intro conjI ballI allI impI)
  fix p assume "p \<in> set (s_SortedPrices sd)"
  from side_okD(4)[OF ok this] obtain lv
    where "s_PriceLevels sd (d_String L p) = Some lv" "level_ok idx sp p lv" by blast
  with level_ok_cong[OF same] show "\<exists>lv. s_PriceLevels sd (d_String L p) = Some lv \<and> level_ok idx' sp p lv"
    by blast
next
  fix i n assume "idx' i = Some n" "n_Side n = sp"
  then have "idx i = Some n" "n_Side n = sp" using same_onD[OF same] by auto
  then show "n_Price n \<in> set (s_SortedPrices sd)"
    and "i \<in> set (l_Orders (the (s_PriceLevels sd (d_String L (n_Price n)))))"
    using side_okD(5,6)[OF ok] by blast+
qed (use side_okD(1-3)[OF ok] in auto)

lemma level_nodes_cong:
  assumes "same_on sp idx idx'" "s_PriceLevels sd (d_String L p) = Some lv" "level_ok idx sp p lv"
  shows "level_nodes L idx' (s_PriceLevels sd) p = level_nodes L idx (s_PriceLevels sd) p"
  using same_on_level[OF assms(1,3)] assms(2) by (simp add: level_nodes_def)

lemma resting_side_cong:
  assumes "same_on sp idx idx'" and ok: "side_ok L sp idx sd"
  shows "resting_side L idx' sd = resting_side L idx sd"
proof -
  have "\<forall>p\<in>set (s_SortedPrices sd).
          level_nodes L idx' (s_PriceLevels sd) p = level_nodes L idx (s_PriceLevels sd) p"
    using side_okD(4)[OF ok] level_nodes_cong[OF assms(1)] by blast
  then have "map (level_nodes L idx' (s_PriceLevels sd)) (s_SortedPrices sd) =
             map (level_nodes L idx (s_PriceLevels sd)) (s_SortedPrices sd)"
    by (intro map_cong) auto
  then show ?thesis by (simp only: resting_side_def)
qed

text \<open>The binary searches land where the sorted slice is split.\<close>

lemma findPriceIndex_split:
  assumes "s_SortedPrices sd = ps1 @ p # ps2" "sorted_wrt (better sp) (s_SortedPrices sd)"
    and "s_IsBid sd = (sp = SideBuy)"
  shows "findPriceIndex sd p = length ps1"
proof (cases sp)
  case SideBuy
  with assms sort_Search_append[of ps1 "\<lambda>x. x \<le> p" "p # ps2"] show ?thesis
    by (force simp: findPriceIndex_def Let_def sorted_wrt_append not_le)
next
  case SideSell
  with assms sort_Search_append[of ps1 "\<lambda>x. x \<ge> p" "p # ps2"] show ?thesis
    by (force simp: findPriceIndex_def Let_def sorted_wrt_append not_le)
qed

lemma binarySearchInsertIndex_split:
  assumes "s_SortedPrices sd = ps1 @ ps2" "s_IsBid sd = (sp = SideBuy)"
    and "\<forall>q\<in>set ps1. better sp q p" "\<forall>q\<in>set ps2. better sp p q"
  shows "binarySearchInsertIndex sd p = length ps1"
proof (cases sp)
  case SideBuy
  with assms sort_Search_append[of ps1 "\<lambda>x. x < p" ps2] show ?thesis
    by (force simp: binarySearchInsertIndex_def Let_def)
next
  case SideSell
  with assms sort_Search_append[of ps1 "\<lambda>x. x > p" ps2] show ?thesis
    by (force simp: binarySearchInsertIndex_def Let_def)
qed

text \<open>A price not in the slice splits it into the better and the worse prices.\<close>

lemma sorted_better_split:
  assumes "sorted_wrt (better sp) ps" "p \<notin> set ps"
  obtains ps1 ps2 where "ps = ps1 @ ps2" "\<forall>q\<in>set ps1. better sp q p" "\<forall>q\<in>set ps2. better sp p q"
  using assms
proof (induction ps arbitrary: thesis)
  case Nil
  then show ?case by auto
next
  case (Cons a ps)
  show ?case
  proof (cases "better sp p a")
    case True
    with Cons.prems(2) have "\<forall>q\<in>set (a # ps). better sp p q"
      by (auto intro: better_trans)
    then show ?thesis using Cons.prems(1)[of "[]" "a # ps"] by simp
  next
    case False
    with Cons.prems(3) have a: "better sp a p" using better_total[of p a sp] by auto
    obtain ps1 ps2 where "ps = ps1 @ ps2" "\<forall>q\<in>set ps1. better sp q p" "\<forall>q\<in>set ps2. better sp p q"
      using Cons.IH Cons.prems(2,3) by auto
    with a show ?thesis using Cons.prems(1)[of "a # ps1" ps2] by simp
  qed
qed

end
