(* ===== verification/BookOps.thy ===== *)
theory BookOps
  imports BookInvariant
begin

text \<open>
  The operations of the order book against its invariant. One lemma,
  \<open>side_ok_splice\<close>, covers every way an operation changes a side: the level at one price is
  created, replaced or dropped, and the rest of the side is untouched. Insertion, removal
  and partial fill are instances, each with the effect on the price-time list.
\<close>

section \<open>Changing one level of a side\<close>

definition same_off_price ::
  "side_type \<Rightarrow> ('d::linordered_idom) \<Rightarrow> (uuid \<rightharpoonup> 'd order_node) \<Rightarrow> (uuid \<rightharpoonup> 'd order_node) \<Rightarrow> bool" where
  "same_off_price sp p idx idx' \<longleftrightarrow>
     (\<forall>i n. n_Side n = sp \<longrightarrow> n_Price n \<noteq> p \<longrightarrow> (idx i = Some n \<longleftrightarrow> idx' i = Some n))"

definition level_covers ::
  "side_type \<Rightarrow> ('d::linordered_idom) \<Rightarrow> (uuid \<rightharpoonup> 'd order_node) \<Rightarrow> 'd price_level option \<Rightarrow> bool" where
  "level_covers sp p idx lvo \<longleftrightarrow>
     (case lvo of None \<Rightarrow> True | Some lv \<Rightarrow> level_ok idx sp p lv) \<and>
     (\<forall>i n. idx i = Some n \<longrightarrow> n_Side n = sp \<longrightarrow> n_Price n = p \<longrightarrow>
        (\<exists>lv. lvo = Some lv \<and> i \<in> set (l_Orders lv)))"

abbreviation price_mid :: "'d \<Rightarrow> 'd price_level option \<Rightarrow> 'd list" where
  "price_mid p lvo \<equiv> (case lvo of None \<Rightarrow> [] | Some _ \<Rightarrow> [p])"

abbreviation level_mid :: "(uuid \<rightharpoonup> 'd order_node) \<Rightarrow> 'd price_level option \<Rightarrow> 'd order_node list" where
  "level_mid idx lvo \<equiv> (case lvo of None \<Rightarrow> [] | Some lv \<Rightarrow> map (\<lambda>i. the (idx i)) (l_Orders lv))"

lemma same_off_level:
  assumes "same_off_price sp p idx idx'" "level_ok idx sp q lv" "q \<noteq> p" "i \<in> set (l_Orders lv)"
  shows "idx' i = idx i"
proof -
  obtain n where "idx i = Some n" "n_Side n = sp" "n_Price n = q"
    using level_ok_lookup[OF assms(2,4)] .
  with assms(1,3) show ?thesis unfolding same_off_price_def by metis
qed

lemma same_off_level_ok:
  assumes same: "same_off_price sp p idx idx'" and lv: "level_ok idx sp q lv" and "q \<noteq> p"
  shows "level_ok idx' sp q lv"
proof -
  have eq: "\<forall>i\<in>set (l_Orders lv). idx' i = idx i"
    using same_off_level[OF assms] by blast
  then have tot: "map (\<lambda>i. n_RemainingQty (the (idx' i))) (l_Orders lv) =
             map (\<lambda>i. n_RemainingQty (the (idx i))) (l_Orders lv)"
    by (intro map_cong) auto
  have "\<forall>i\<in>set (l_Orders lv). \<exists>n. idx' i = Some n \<and> n_Side n = sp \<and> n_Price n = q"
    using lv eq by (metis level_ok_lookup)
  with lv tot show ?thesis unfolding level_ok_def by presburger
qed

lemma side_ok_splice:
  assumes L: "lib_ok L" and ok: "side_ok L sp idx sd"
    and prices: "s_SortedPrices sd = ps1 @ mid @ ps2" "mid = [] \<or> mid = [p]"
    and sorted: "sorted_wrt (better sp) (ps1 @ p # ps2)"
    and same: "same_off_price sp p idx idx'"
    and covers: "level_covers sp p idx' lvo"
  shows "side_ok L sp idx' (sd\<lparr>s_SortedPrices := ps1 @ price_mid p lvo @ ps2,
                               s_PriceLevels := (s_PriceLevels sd)(d_String L p := lvo)\<rparr>)"
proof -
  let ?ps = "ps1 @ price_mid p lvo @ ps2"
  let ?lvs = "(s_PriceLevels sd)(d_String L p := lvo)"
  have dist: "p \<notin> set ps1" "p \<notin> set ps2"
    using sorted_better_distinct[OF sorted] by auto
  have inj: "\<And>q. d_String L q = d_String L p \<longleftrightarrow> q = p" using lib_ok_inj[OF L] .
  have dom: "dom ?lvs = d_String L ` set ?ps"
    using side_okD(3)[OF ok] prices dist inj by (cases lvo) auto
  have srt: "sorted_wrt (better sp) ?ps"
    using sorted by (cases lvo) (auto simp: sorted_wrt_append)
  have other: "\<exists>lv. ?lvs (d_String L q) = Some lv \<and> level_ok idx' sp q lv"
    if "q \<in> set (s_SortedPrices sd)" "q \<noteq> p" for q
    using side_okD(4)[OF ok that(1)] same_off_level_ok[OF same] that(2) inj by auto
  have lev: "\<exists>lv. ?lvs (d_String L q) = Some lv \<and> level_ok idx' sp q lv" if "q \<in> set ?ps" for q
  proof (cases "q = p")
    case True
    with that dist covers show ?thesis by (cases lvo) (auto simp: level_covers_def)
  next
    case False
    with that prices(1) have "q \<in> set (s_SortedPrices sd)" by (auto split: option.splits)
    with False other show ?thesis by blast
  qed
  have idx: "n_Price n \<in> set ?ps \<and> i \<in> set (l_Orders (the (?lvs (d_String L (n_Price n)))))"
    if n: "idx' i = Some n" "n_Side n = sp" for i n
  proof (cases "n_Price n = p")
    case True
    with covers n obtain lv where "lvo = Some lv" "i \<in> set (l_Orders lv)"
      unfolding level_covers_def by blast
    with True show ?thesis by simp
  next
    case False
    with same n have i: "idx i = Some n" by (auto simp: same_off_price_def)
    have "n_Price n \<in> set (s_SortedPrices sd)" using side_okD(5)[OF ok i n(2)] .
    with False prices have "n_Price n \<in> set ?ps" by auto
    with False side_okD(6)[OF ok i n(2)] inj show ?thesis by simp
  qed
  show ?thesis
    unfolding side_ok_def using side_okD(1)[OF ok] srt dom lev idx by simp
qed

lemma resting_side_splice:
  assumes L: "lib_ok L" and ok: "side_ok L sp idx sd"
    and prices: "s_SortedPrices sd = ps1 @ mid @ ps2" "mid = [] \<or> mid = [p]"
    and sorted: "sorted_wrt (better sp) (ps1 @ p # ps2)"
    and same: "same_off_price sp p idx idx'"
  shows "resting_side L idx' (sd\<lparr>s_SortedPrices := ps1 @ price_mid p lvo @ ps2,
                                 s_PriceLevels := (s_PriceLevels sd)(d_String L p := lvo)\<rparr>) =
     concat (map (level_nodes L idx (s_PriceLevels sd)) ps1) @ level_mid idx' lvo @
     concat (map (level_nodes L idx (s_PriceLevels sd)) ps2)"
proof -
  let ?f = "level_nodes L idx' ((s_PriceLevels sd)(d_String L p := lvo))"
  let ?g = "level_nodes L idx (s_PriceLevels sd)"
  have dist: "p \<notin> set ps1" "p \<notin> set ps2"
    using sorted_better_distinct[OF sorted] by auto
  have inj: "\<And>q. d_String L q = d_String L p \<longleftrightarrow> q = p" using lib_ok_inj[OF L] .
  have fg: "?f q = ?g q" if q: "q \<in> set (s_SortedPrices sd)" "q \<noteq> p" for q
  proof -
    obtain lv where lv: "s_PriceLevels sd (d_String L q) = Some lv" "level_ok idx sp q lv"
      using side_okD(4)[OF ok q(1)] by blast
    with same_off_level[OF same lv(2) q(2)] q(2) inj show ?thesis
      by (simp add: level_nodes_def)
  qed
  have p1: "map ?f ps1 = map ?g ps1" and p2: "map ?f ps2 = map ?g ps2"
    using fg prices(1) dist by (auto intro!: map_cong simp del: map_eq_conv)
  have mid: "concat (map ?f (price_mid p lvo)) = level_mid idx' lvo"
    by (cases lvo) (simp_all add: level_nodes_def)
  have "resting_side L idx' (sd\<lparr>s_SortedPrices := ps1 @ price_mid p lvo @ ps2,
                                s_PriceLevels := (s_PriceLevels sd)(d_String L p := lvo)\<rparr>) =
      concat (map ?f ps1) @ concat (map ?f (price_mid p lvo)) @ concat (map ?f ps2)"
    by (simp add: resting_side_def)
  then show ?thesis unfolding p1 p2 mid .
qed

text \<open>The same list before the change.\<close>

lemma resting_side_split:
  "s_SortedPrices sd = ps1 @ p # ps2 \<Longrightarrow> s_PriceLevels sd (d_String L p) = Some lv \<Longrightarrow>
   resting_side L idx sd =
     concat (map (level_nodes L idx (s_PriceLevels sd)) ps1) @ level_mid idx (Some lv) @
     concat (map (level_nodes L idx (s_PriceLevels sd)) ps2)"
  by (simp add: resting_side_def level_nodes_def)

lemma resting_side_split0:
  "s_SortedPrices sd = ps1 @ ps2 \<Longrightarrow>
   resting_side L idx sd =
     concat (map (level_nodes L idx (s_PriceLevels sd)) ps1) @
     concat (map (level_nodes L idx (s_PriceLevels sd)) ps2)"
  by (simp add: resting_side_def)

text \<open>Nodes listed under a price have that price, that side and their own index entry.\<close>

lemma level_nodes_props:
  assumes "side_ok L sp idx sd" "q \<in> set (s_SortedPrices sd)"
    and "n \<in> set (level_nodes L idx (s_PriceLevels sd) q)"
  shows "n_Price n = q" "n_Side n = sp" "\<exists>i. idx i = Some n"
proof -
  obtain lv where lv: "s_PriceLevels sd (d_String L q) = Some lv" "level_ok idx sp q lv"
    using side_okD(4)[OF assms(1,2)] by blast
  with assms(3) obtain i where i: "i \<in> set (l_Orders lv)" "n = the (idx i)"
    by (auto simp: level_nodes_def)
  obtain m where "idx i = Some m" "n_Side m = sp" "n_Price m = q"
    using level_ok_lookup[OF lv(2) i(1)] .
  with i(2) show "n_Price n = q" "n_Side n = sp" "\<exists>i. idx i = Some n" by auto
qed

lemma set_resting_side:
  assumes "side_ok L sp idx sd"
  shows "n \<in> set (resting_side L idx sd) \<longleftrightarrow> (\<exists>i. idx i = Some n \<and> n_Side n = sp)"
proof
  assume "n \<in> set (resting_side L idx sd)"
  then obtain q where "q \<in> set (s_SortedPrices sd)" "n \<in> set (level_nodes L idx (s_PriceLevels sd) q)"
    by (auto simp: resting_side_def)
  from level_nodes_props[OF assms this] show "\<exists>i. idx i = Some n \<and> n_Side n = sp" by blast
next
  assume "\<exists>i. idx i = Some n \<and> n_Side n = sp"
  then obtain i where i: "idx i = Some n" "n_Side n = sp" by blast
  have "n \<in> set (level_nodes L idx (s_PriceLevels sd) (n_Price n))"
    using side_okD(6)[OF assms i] i(1) by (force simp: level_nodes_def)
  with side_okD(5)[OF assms i] show "n \<in> set (resting_side L idx sd)"
    by (auto simp: resting_side_def)
qed

lemma set_resting:
  assumes "book_ok L bk"
  shows "n \<in> set (resting L bk sp) \<longleftrightarrow> b_OrderIndex bk (n_OrderID n) = Some n \<and> n_Side n = sp"
  using set_resting_side[OF book_okD(2)[OF assms, of sp]] index_okD(1)[OF book_okD(1)[OF assms]]
  unfolding resting_def by metis

section \<open>Removing an order\<close>

lemma index_ok_del: "index_ok idx \<Longrightarrow> index_ok (idx(i := None))"
  unfolding index_ok_def by (auto split: if_splits)

lemma level_remove:
  assumes ix: "index_ok idx" and lv: "level_ok idx sp p lv"
  shows "map (\<lambda>j. the ((idx(i := None)) j)) (remove1 i (l_Orders lv)) =
         filter (\<lambda>m. n_OrderID m \<noteq> i) (map (\<lambda>j. the (idx j)) (l_Orders lv))"
proof -
  have d: "distinct (l_Orders lv)" using lv by (simp add: level_ok_def)
  have ids: "n_OrderID (the (idx j)) = j" if j: "j \<in> set (l_Orders lv)" for j
    using level_ok_lookup[OF lv j] index_okD(1)[OF ix] by fastforce
  have "filter (\<lambda>m. n_OrderID m \<noteq> i) (map (\<lambda>j. the (idx j)) (l_Orders lv)) =
        map (\<lambda>j. the (idx j)) (filter (\<lambda>j. j \<noteq> i) (l_Orders lv))"
    unfolding filter_map o_def using ids by (auto intro!: arg_cong[where f = "map _"] filter_cong)
  also have "\<dots> = map (\<lambda>j. the ((idx(i := None)) j)) (filter (\<lambda>j. j \<noteq> i) (l_Orders lv))"
    by (rule map_cong) auto
  finally show ?thesis
    using d by (simp add: distinct_remove1_removeAll removeAll_filter_not_eq eq_commute[of i])
qed

lemma level_ok_remove:
  assumes lv: "level_ok idx sp p lv" and i: "i \<in> set (l_Orders lv)" and n: "idx i = Some n"
    and ne: "remove1 i (l_Orders lv) \<noteq> []"
  shows "level_ok (idx(i := None)) sp p
           (lv\<lparr>l_TotalQty := l_TotalQty lv - n_RemainingQty n, l_Orders := remove1 i (l_Orders lv)\<rparr>)"
proof -
  have d: "distinct (l_Orders lv)" using lv by (simp add: level_ok_def)
  let ?r = "remove1 i (l_Orders lv)"
  have mem: "\<And>j. j \<in> set ?r \<longleftrightarrow> j \<in> set (l_Orders lv) \<and> j \<noteq> i" using d by auto
  have eq: "map (\<lambda>j. n_RemainingQty (the ((idx(i := None)) j))) ?r = map (\<lambda>j. n_RemainingQty (the (idx j))) ?r"
    using mem by (intro map_cong) auto
  have "l_TotalQty lv = n_RemainingQty (the (idx i)) + sum_list (map (\<lambda>j. n_RemainingQty (the (idx j))) ?r)"
    using lv sum_list_map_remove1[OF i, of "\<lambda>j. n_RemainingQty (the (idx j))"] by (simp add: level_ok_def)
  then have tot: "l_TotalQty lv - n_RemainingQty n =
      sum_list (map (\<lambda>j. n_RemainingQty (the ((idx(i := None)) j))) ?r)"
    unfolding eq using n by simp
  have "\<forall>j\<in>set ?r. \<exists>m. (idx(i := None)) j = Some m \<and> n_Side m = sp \<and> n_Price m = p"
    using mem level_ok_lookup[OF lv] by (metis fun_upd_other)
  with tot lv d ne show ?thesis
    unfolding level_ok_def by (simp del: fun_upd_apply)
qed

text \<open>Nodes at other prices are not the one with ID \<open>i\<close>.\<close>

lemma other_prices_id:
  assumes "index_ok idx" "side_ok L sp idx sd" "idx i = Some n"
    and "set ps \<subseteq> set (s_SortedPrices sd)" "n_Price n \<notin> set ps"
    and "m \<in> set (concat (map (level_nodes L idx (s_PriceLevels sd)) ps))"
  shows "n_OrderID m \<noteq> i"
proof -
  obtain q where q: "q \<in> set ps" "m \<in> set (level_nodes L idx (s_PriceLevels sd) q)"
    using assms(6) by auto
  with assms(4) have qs: "q \<in> set (s_SortedPrices sd)" by blast
  obtain j where j: "idx j = Some m" using level_nodes_props(3)[OF assms(2) qs q(2)] by blast
  have "n_Price m = q" using level_nodes_props(1)[OF assms(2) qs q(2)] .
  with q(1) assms(5) have "m \<noteq> n" by blast
  with j assms(3) index_okD(1)[OF assms(1) j] show "n_OrderID m \<noteq> i" by auto
qed

lemma filter_other_prices:
  assumes "index_ok idx" "side_ok L sp idx sd" "idx i = Some n"
    and "set ps \<subseteq> set (s_SortedPrices sd)" "n_Price n \<notin> set ps"
  shows "filter (\<lambda>m. n_OrderID m \<noteq> i) (concat (map (level_nodes L idx (s_PriceLevels sd)) ps)) =
         concat (map (level_nodes L idx (s_PriceLevels sd)) ps)"
  by (rule filter_True, rule ballI, rule other_prices_id[OF assms])

lemma same_off_price_del:
  "idx i = Some n \<Longrightarrow> same_off_price sp (n_Price n) idx (idx(i := None))"
  by (auto simp: same_off_price_def)

lemma same_on_del: "idx i = Some n \<Longrightarrow> n_Side n \<noteq> sp \<Longrightarrow> same_on sp idx (idx(i := None))"
  by (auto simp: same_on_def)

lemma getSide_setSide [simp]:
  "getSide (setSide bk sp sd) sp' = (if sp' = sp then sd else getSide bk sp')"
  "getSide (bk\<lparr>b_OrderIndex := idx\<rparr>) sp = getSide bk sp"
  "b_OrderIndex (setSide bk sp sd) = b_OrderIndex bk"
  "b_Sequence (setSide bk sp sd) = b_Sequence bk"
  "b_MarketID (setSide bk sp sd) = b_MarketID bk"
  "getSide (bk\<lparr>b_Sequence := sq\<rparr>) sp = getSide bk sp"
  by (cases sp; cases sp'; simp)+

text \<open>
  What a step on one side of the book leaves alone: the market, the sequence and the
  resting orders of the other side.
\<close>

definition other_kept :: "('d::linordered_idom) lib \<Rightarrow> side_type \<Rightarrow> 'd order_book \<Rightarrow> 'd order_book \<Rightarrow> bool" where
  "other_kept L sp bk bk' \<longleftrightarrow>
     b_MarketID bk' = b_MarketID bk \<and> b_Sequence bk' = b_Sequence bk \<and>
     (\<forall>sp'. sp' \<noteq> sp \<longrightarrow> resting L bk' sp' = resting L bk sp')"

text \<open>A new index and a new value of one side make a good book if they fit together.\<close>

lemma book_ok_step:
  assumes ok: "book_ok L bk" and ix: "index_ok idx'" and sd: "side_ok L sp idx' sd'"
    and same: "\<forall>sp'. sp' \<noteq> sp \<longrightarrow> same_on sp' (b_OrderIndex bk) idx'"
  shows "book_ok L ((setSide bk sp sd')\<lparr>b_OrderIndex := idx'\<rparr>)"
    and "other_kept L sp bk ((setSide bk sp sd')\<lparr>b_OrderIndex := idx'\<rparr>)"
    and "resting L ((setSide bk sp sd')\<lparr>b_OrderIndex := idx'\<rparr>) sp = resting_side L idx' sd'"
proof -
  let ?bk = "(setSide bk sp sd')\<lparr>b_OrderIndex := idx'\<rparr>"
  show "book_ok L ?bk"
  proof (rule book_okI)
    fix sp'
    show "side_ok L sp' (b_OrderIndex ?bk) (getSide ?bk sp')"
      using sd side_ok_cong[OF same[rule_format] book_okD(2)[OF ok, of sp']] by (cases "sp' = sp") auto
  qed (use ix in simp)
  show "other_kept L sp bk ?bk"
    using resting_side_cong[OF same[rule_format] book_okD(2)[OF ok]] by (simp add: other_kept_def resting_def)
  show "resting L ?bk sp = resting_side L idx' sd'" by (simp add: resting_def)
qed

theorem removeResting_correct:
  assumes L: "lib_ok L" and ok: "book_ok L bk"
    and n: "b_OrderIndex bk i = Some n" and sp: "n_Side n = sp"
  shows "\<exists>bk'. removeResting L bk sp n = Some bk' \<and> book_ok L bk' \<and>
     resting L bk' sp = filter (\<lambda>m. n_OrderID m \<noteq> i) (resting L bk sp) \<and>
     other_kept L sp bk bk' \<and> b_OrderIndex bk' = (b_OrderIndex bk)(i := None)"
proof -
  let ?idx = "b_OrderIndex bk" and ?sd = "getSide bk sp"
  note ix = book_okD(1)[OF ok] and sd = book_okD(2)[OF ok, of sp]
  have id: "n_OrderID n = i" using index_okD(1)[OF ix n] .
  obtain ps1 ps2 lv where s: "s_SortedPrices ?sd = ps1 @ n_Price n # ps2"
    "s_PriceLevels ?sd (d_String L (n_Price n)) = Some lv"
    "level_ok ?idx sp (n_Price n) lv" "i \<in> set (l_Orders lv)"
    "n_Price n \<notin> set ps1" "n_Price n \<notin> set ps2"
    using side_ok_split[OF sd n sp] .
  have sorted: "sorted_wrt (better sp) (ps1 @ n_Price n # ps2)" using side_okD(2)[OF sd] s(1) by simp
  let ?lv' = "lv\<lparr>l_TotalQty := l_TotalQty lv - n_RemainingQty n, l_Orders := remove1 i (l_Orders lv)\<rparr>"
  define lvo where "lvo = (if remove1 i (l_Orders lv) = [] then None else Some ?lv')"
  let ?sd' = "?sd\<lparr>s_SortedPrices := ps1 @ price_mid (n_Price n) lvo @ ps2,
                  s_PriceLevels := (s_PriceLevels ?sd)(d_String L (n_Price n) := lvo)\<rparr>"
  let ?bk' = "(setSide bk sp ?sd')\<lparr>b_OrderIndex := ?idx(i := None)\<rparr>"
  have prices: "s_SortedPrices ?sd = ps1 @ [n_Price n] @ ps2" using s(1) by simp
  have dist: "distinct (l_Orders lv)" using s(3) by (simp add: level_ok_def)
  have in_lv: "j \<in> set (l_Orders lv)"
    if "?idx j = Some m" "n_Side m = sp" "n_Price m = n_Price n" for j m
    using side_okD(6)[OF sd that(1,2)] that(3) s(2) by simp
  have covers: "level_covers sp (n_Price n) (?idx(i := None)) lvo"
  proof (cases "remove1 i (l_Orders lv) = []")
    case True
    then have "\<forall>j\<in>set (l_Orders lv). j = i" using dist by (metis in_set_remove1 list.set(1) empty_iff)
    then have "\<forall>j m. (?idx(i := None)) j = Some m \<longrightarrow> n_Side m = sp \<longrightarrow> n_Price m \<noteq> n_Price n"
      using in_lv by auto
    with True show ?thesis unfolding level_covers_def lvo_def by auto
  next
    case False
    have "\<forall>j m. (?idx(i := None)) j = Some m \<longrightarrow> n_Side m = sp \<longrightarrow> n_Price m = n_Price n \<longrightarrow>
            j \<in> set (remove1 i (l_Orders lv))"
      using in_lv dist by auto
    with False level_ok_remove[OF s(3,4) n False] show ?thesis
      unfolding level_covers_def lvo_def by simp
  qed
  have step: "removeResting L bk sp n = Some ?bk'"
  proof (cases "remove1 i (l_Orders lv) = []")
    case True
    have "findPriceIndex ?sd (n_Price n) = length ps1"
      by (rule findPriceIndex_split[OF s(1) side_okD(2,1)[OF sd]])
    with True s(1,2) id show ?thesis
      by (simp add: removeResting_def Let_def lvo_def slice_simps)
  next
    case False
    with s(1,2) id show ?thesis by (simp add: removeResting_def Let_def lvo_def flip: s(1))
  qed
  have others: "\<forall>sp'. sp' \<noteq> sp \<longrightarrow> same_on sp' ?idx (?idx(i := None))"
    using same_on_del[where idx = ?idx, OF n] sp by metis
  note same = same_off_price_del[where idx = ?idx, OF n, of sp]
  note book = book_ok_step[OF ok index_ok_del[OF ix] side_ok_splice[OF L sd prices disjI2[OF refl] sorted same covers]
      others]
  have mid: "level_mid (?idx(i := None)) lvo = filter (\<lambda>m. n_OrderID m \<noteq> i) (level_mid ?idx (Some lv))"
  proof (cases "remove1 i (l_Orders lv) = []")
    case True
    then show ?thesis using level_remove[OF ix s(3), of i]
      by (simp add: lvo_def del: fun_upd_apply)
  next
    case False
    then show ?thesis using level_remove[OF ix s(3), of i]
      by (simp add: lvo_def del: fun_upd_apply)
  qed
  have f1: "filter (\<lambda>m. n_OrderID m \<noteq> i) (concat (map (level_nodes L ?idx (s_PriceLevels ?sd)) ps1)) =
      concat (map (level_nodes L ?idx (s_PriceLevels ?sd)) ps1)"
    using s(1,5) by (intro filter_other_prices[OF ix sd n]) auto
  have f2: "filter (\<lambda>m. n_OrderID m \<noteq> i) (concat (map (level_nodes L ?idx (s_PriceLevels ?sd)) ps2)) =
      concat (map (level_nodes L ?idx (s_PriceLevels ?sd)) ps2)"
    using s(1,6) by (intro filter_other_prices[OF ix sd n]) auto
  note A = trans[OF book(3) resting_side_splice[OF L sd prices disjI2[OF refl] sorted same]]
  have B: "resting L bk sp = concat (map (level_nodes L ?idx (s_PriceLevels ?sd)) ps1) @
      level_mid ?idx (Some lv) @ concat (map (level_nodes L ?idx (s_PriceLevels ?sd)) ps2)"
    by (simp only: resting_def resting_side_split[OF s(1,2)])
  have "resting L ?bk' sp = filter (\<lambda>m. n_OrderID m \<noteq> i) (resting L bk sp)"
    unfolding A B filter_append mid f1 f2 ..
  with step book(1,2) show ?thesis by auto
qed

section \<open>Reducing an order in place\<close>

lemma index_ok_upd:
  assumes "index_ok idx" "n_OrderID n = i" "0 < n_RemainingQty n"
    "n_RemainingQty n \<le> n_OriginalQty n" "n_OrderType n = OrderTypeLimit"
  shows "index_ok (idx(i \<mapsto> n))"
  using assms unfolding index_ok_def by (auto split: if_splits)

lemma level_ok_reduce:
  assumes lv: "level_ok idx sp p lv" and i: "i \<in> set (l_Orders lv)" and n: "idx i = Some n"
    and m: "n_Side m = n_Side n" "n_Price m = n_Price n" "n_RemainingQty m = n_RemainingQty n - q"
  shows "level_ok (idx(i \<mapsto> m)) sp p (lv\<lparr>l_TotalQty := l_TotalQty lv - q\<rparr>)"
proof -
  let ?r = "remove1 i (l_Orders lv)"
  let ?f = "\<lambda>j. n_RemainingQty (the (idx j))" and ?g = "\<lambda>j. n_RemainingQty (the ((idx(i \<mapsto> m)) j))"
  have d: "distinct (l_Orders lv)" using lv by (simp add: level_ok_def)
  then have eq: "map ?g ?r = map ?f ?r" by (intro map_cong) auto
  have f: "sum_list (map ?f (l_Orders lv)) = ?f i + sum_list (map ?f ?r)"
    by (rule sum_list_map_remove1[OF i])
  have g: "sum_list (map ?g (l_Orders lv)) = ?g i + sum_list (map ?g ?r)"
    by (rule sum_list_map_remove1[OF i])
  have gi: "?g i = n_RemainingQty n - q" and fi: "?f i = n_RemainingQty n" using m(3) n by simp_all
  have "l_TotalQty lv = sum_list (map ?f (l_Orders lv))" using lv by (simp add: level_ok_def)
  then have tot: "l_TotalQty lv - q = sum_list (map ?g (l_Orders lv))"
    unfolding f g eq gi fi by simp
  have "n_Side n = sp" "n_Price n = p" using level_ok_lookup[OF lv i] n by auto
  then have "\<forall>j\<in>set (l_Orders lv). \<exists>k. (idx(i \<mapsto> m)) j = Some k \<and> n_Side k = sp \<and> n_Price k = p"
    using level_ok_lookup[OF lv] m(1,2) by (metis fun_upd_apply)
  with tot lv show ?thesis unfolding level_ok_def by (simp del: fun_upd_apply)
qed

definition reduce_order :: "uuid \<Rightarrow> ('d::linordered_idom) \<Rightarrow> 'd order_node \<Rightarrow> 'd order_node" where
  "reduce_order i q m =
     (if n_OrderID m = i then m\<lparr>n_RemainingQty := n_RemainingQty m - q\<rparr> else m)"

lemma reduce_other_prices:
  assumes "index_ok idx" "side_ok L sp idx sd" "idx i = Some n"
    and "set ps \<subseteq> set (s_SortedPrices sd)" "n_Price n \<notin> set ps"
  shows "map (reduce_order i q) (concat (map (level_nodes L idx (s_PriceLevels sd)) ps)) =
         concat (map (level_nodes L idx (s_PriceLevels sd)) ps)"
  by (rule map_idI) (simp add: reduce_order_def other_prices_id[OF assms])

lemma level_reduce:
  assumes ix: "index_ok idx" and lv: "level_ok idx sp p lv" and n: "idx i = Some n"
  shows "map (\<lambda>j. the ((idx(i \<mapsto> n\<lparr>n_RemainingQty := n_RemainingQty n - q\<rparr>)) j)) (l_Orders lv) =
         map (reduce_order i q) (map (\<lambda>j. the (idx j)) (l_Orders lv))"
  unfolding map_map
proof (rule map_cong[OF refl])
  fix j assume j: "j \<in> set (l_Orders lv)"
  obtain k where k: "idx j = Some k" using level_ok_lookup[OF lv j] .
  then have "n_OrderID k = j" using index_okD(1)[OF ix] by blast
  with k n show "the ((idx(i \<mapsto> n\<lparr>n_RemainingQty := n_RemainingQty n - q\<rparr>)) j) =
      (reduce_order i q \<circ> (\<lambda>j. the (idx j))) j"
    by (auto simp: reduce_order_def)
qed

lemma PartialFill_correct:
  assumes L: "lib_ok L" and ok: "book_ok L bk"
    and n: "b_OrderIndex bk i = Some n" and sp: "n_Side n = sp"
    and q: "0 < q" "q < n_RemainingQty n"
  shows "\<exists>bk'. PartialFill L bk sp n q = Some bk' \<and> book_ok L bk' \<and>
     resting L bk' sp = map (reduce_order i q) (resting L bk sp) \<and> other_kept L sp bk bk' \<and>
     b_OrderIndex bk' = (b_OrderIndex bk)(i \<mapsto> n\<lparr>n_RemainingQty := n_RemainingQty n - q\<rparr>)"
proof -
  let ?idx = "b_OrderIndex bk" and ?sd = "getSide bk sp"
  let ?m = "n\<lparr>n_RemainingQty := n_RemainingQty n - q\<rparr>"
  let ?idx' = "?idx(i \<mapsto> ?m)"
  note ix = book_okD(1)[OF ok] and sd = book_okD(2)[OF ok, of sp]
  have id: "n_OrderID n = i" using index_okD(1)[OF ix n] .
  obtain ps1 ps2 lv where s: "s_SortedPrices ?sd = ps1 @ n_Price n # ps2"
    "s_PriceLevels ?sd (d_String L (n_Price n)) = Some lv"
    "level_ok ?idx sp (n_Price n) lv" "i \<in> set (l_Orders lv)"
    "n_Price n \<notin> set ps1" "n_Price n \<notin> set ps2"
    using side_ok_split[OF sd n sp] .
  have sorted: "sorted_wrt (better sp) (ps1 @ n_Price n # ps2)" using side_okD(2)[OF sd] s(1) by simp
  define lv' where "lv' = lv\<lparr>l_TotalQty := l_TotalQty lv - q\<rparr>"
  let ?sd' = "?sd\<lparr>s_SortedPrices := ps1 @ price_mid (n_Price n) (Some lv') @ ps2,
                  s_PriceLevels := (s_PriceLevels ?sd)(d_String L (n_Price n) := Some lv')\<rparr>"
  let ?bk' = "(setSide bk sp ?sd')\<lparr>b_OrderIndex := ?idx'\<rparr>"
  have prices: "s_SortedPrices ?sd = ps1 @ [n_Price n] @ ps2" using s(1) by simp
  have ix': "index_ok ?idx'"
    using index_okD[OF ix n] q by (intro index_ok_upd[OF ix]) (auto intro: order_trans[rotated])
  have lv_ok: "level_ok ?idx' sp (n_Price n) lv'"
    unfolding lv'_def by (rule level_ok_reduce[OF s(3,4) n]) simp_all
  have in_lv: "j \<in> set (l_Orders lv')"
    if "?idx' j = Some k" "n_Side k = sp" "n_Price k = n_Price n" for j k
    using side_okD(6)[OF sd, of j k] that s(2,4) by (cases "j = i") (auto simp: lv'_def)
  have covers: "level_covers sp (n_Price n) ?idx' (Some lv')"
    using lv_ok in_lv by (simp add: level_covers_def del: fun_upd_apply)
  have step: "PartialFill L bk sp n q = Some ?bk'"
    using s(1,2) id by (simp add: PartialFill_def Let_def lv'_def flip: s(1))
  have others: "\<forall>sp'. sp' \<noteq> sp \<longrightarrow> same_on sp' ?idx ?idx'"
    using n sp by (auto simp: same_on_def)
  have same: "same_off_price sp (n_Price n) ?idx ?idx'"
    using n by (auto simp: same_off_price_def)
  note book = book_ok_step[OF ok ix' side_ok_splice[OF L sd prices disjI2[OF refl] sorted same covers] others]
  note A = trans[OF book(3) resting_side_splice[OF L sd prices disjI2[OF refl] sorted same]]
  have B: "resting L bk sp = concat (map (level_nodes L ?idx (s_PriceLevels ?sd)) ps1) @
      level_mid ?idx (Some lv) @ concat (map (level_nodes L ?idx (s_PriceLevels ?sd)) ps2)"
    by (simp only: resting_def resting_side_split[OF s(1,2)])
  have mid: "level_mid ?idx' (Some lv') = map (reduce_order i q) (level_mid ?idx (Some lv))"
    using level_reduce[OF ix s(3) n, of q] by (simp add: lv'_def del: fun_upd_apply map_map)
  have f1: "map (reduce_order i q) (concat (map (level_nodes L ?idx (s_PriceLevels ?sd)) ps1)) =
      concat (map (level_nodes L ?idx (s_PriceLevels ?sd)) ps1)"
    using s(1,5) by (intro reduce_other_prices[OF ix sd n]) auto
  have f2: "map (reduce_order i q) (concat (map (level_nodes L ?idx (s_PriceLevels ?sd)) ps2)) =
      concat (map (level_nodes L ?idx (s_PriceLevels ?sd)) ps2)"
    using s(1,6) by (intro reduce_other_prices[OF ix sd n]) auto
  have "resting L ?bk' sp = map (reduce_order i q) (resting L bk sp)"
    unfolding A B map_append mid f1 f2 ..
  with step book(1,2) show ?thesis by auto
qed

section \<open>Inserting an order\<close>

text \<open>The place of a new order in price-time order: before the first order it is better than.\<close>

fun place :: "side_type \<Rightarrow> ('d::linordered_idom) order_node \<Rightarrow> 'd order_node list \<Rightarrow> 'd order_node list" where
  "place sp nd [] = [nd]"
| "place sp nd (m # ms) =
     (if better sp (n_Price nd) (n_Price m) then nd # m # ms else m # place sp nd ms)"

lemma place_append:
  "\<forall>m\<in>set xs. \<not> better sp (n_Price nd) (n_Price m) \<Longrightarrow>
   \<forall>m\<in>set ys. better sp (n_Price nd) (n_Price m) \<Longrightarrow>
   place sp nd (xs @ ys) = xs @ nd # ys"
  by (induction xs) (auto, cases ys, auto)

lemma set_place [simp]: "set (place sp nd ms) = insert nd (set ms)"
  by (induction ms) auto

lemma level_ok_snoc:
  assumes lv: "level_ok idx sp p lv" and new: "idx (n_OrderID nd) = None"
    and nd: "n_Side nd = sp" "n_Price nd = p"
  shows "level_ok (idx(n_OrderID nd \<mapsto> nd)) sp p
           (lv\<lparr>l_Orders := l_Orders lv @ [n_OrderID nd], l_TotalQty := l_TotalQty lv + n_RemainingQty nd\<rparr>)"
proof -
  have fresh: "n_OrderID nd \<notin> set (l_Orders lv)" using level_ok_fresh[where idx = idx, OF lv new] .
  then have "map (\<lambda>j. n_RemainingQty (the ((idx(n_OrderID nd \<mapsto> nd)) j))) (l_Orders lv) =
      map (\<lambda>j. n_RemainingQty (the (idx j))) (l_Orders lv)"
    by (intro map_cong) auto
  with lv have tot: "l_TotalQty lv + n_RemainingQty nd =
      sum_list (map (\<lambda>j. n_RemainingQty (the ((idx(n_OrderID nd \<mapsto> nd)) j))) (l_Orders lv @ [n_OrderID nd]))"
    by (simp add: level_ok_def del: fun_upd_apply map_eq_conv) simp
  have "\<forall>j\<in>set (l_Orders lv @ [n_OrderID nd]).
      \<exists>k. (idx(n_OrderID nd \<mapsto> nd)) j = Some k \<and> n_Side k = sp \<and> n_Price k = p"
  proof
    fix j assume j: "j \<in> set (l_Orders lv @ [n_OrderID nd])"
    show "\<exists>k. (idx(n_OrderID nd \<mapsto> nd)) j = Some k \<and> n_Side k = sp \<and> n_Price k = p"
    proof (cases "j = n_OrderID nd")
      case True
      with nd show ?thesis by simp
    next
      case False
      with j have "j \<in> set (l_Orders lv)" by simp
      from level_ok_lookup[OF lv this] False show ?thesis by (metis fun_upd_other)
    qed
  qed
  with tot lv fresh show ?thesis unfolding level_ok_def by (simp del: fun_upd_apply)
qed

lemma level_ok_single:
  assumes "n_Side nd = sp" "n_Price nd = p"
  shows "level_ok (idx(n_OrderID nd \<mapsto> nd)) sp p
           \<lparr>l_Price = p, l_Orders = [n_OrderID nd], l_TotalQty = n_RemainingQty nd\<rparr>"
  using assms by (simp add: level_ok_def)

text \<open>
  Inserting at a price, whether its level exists (\<open>lvo0\<close>) or not: the prices \<open>ps1\<close> are
  better, \<open>ps2\<close> worse, and the new level is \<open>lv'\<close>.
\<close>

lemma insert_splice:
  assumes L: "lib_ok L" and ok: "book_ok L bk" and sp: "n_Side nd = sp"
    and new: "b_OrderIndex bk (n_OrderID nd) = None"
    and nd: "0 < n_RemainingQty nd" "n_RemainingQty nd \<le> n_OriginalQty nd" "n_OrderType nd = OrderTypeLimit"
    and prices: "s_SortedPrices (getSide bk sp) = ps1 @ price_mid (n_Price nd) lvo0 @ ps2"
    and sorted: "sorted_wrt (better sp) (ps1 @ n_Price nd # ps2)"
    and lvo0: "s_PriceLevels (getSide bk sp) (d_String L (n_Price nd)) = lvo0"
    and lv': "level_ok ((b_OrderIndex bk)(n_OrderID nd \<mapsto> nd)) sp (n_Price nd) lv'"
      "l_Orders lv' = (case lvo0 of None \<Rightarrow> [] | Some lv \<Rightarrow> l_Orders lv) @ [n_OrderID nd]"
  defines "bk' \<equiv> (setSide bk sp ((getSide bk sp)
      \<lparr>s_SortedPrices := ps1 @ price_mid (n_Price nd) (Some lv') @ ps2,
       s_PriceLevels := (s_PriceLevels (getSide bk sp))(d_String L (n_Price nd) := Some lv')\<rparr>))
      \<lparr>b_OrderIndex := (b_OrderIndex bk)(n_OrderID nd \<mapsto> nd)\<rparr>"
  shows "book_ok L bk'" "other_kept L sp bk bk'" "resting L bk' sp = place sp nd (resting L bk sp)"
proof -
  let ?idx = "b_OrderIndex bk" and ?sd = "getSide bk sp"
  let ?idx' = "?idx(n_OrderID nd \<mapsto> nd)"
  note ix = book_okD(1)[OF ok] and sd = book_okD(2)[OF ok, of sp]
  have ix': "index_ok ?idx'" using nd by (intro index_ok_upd[OF ix]) auto
  have in_lv: "j \<in> set (l_Orders lv')"
    if j: "?idx' j = Some k" "n_Side k = sp" "n_Price k = n_Price nd" for j k
  proof (cases "j = n_OrderID nd")
    case True
    then show ?thesis using lv'(2) by simp
  next
    case False
    then have "?idx j = Some k" using j(1) by simp
    from side_okD(5,6)[OF sd this j(2)] j(3) lvo0 prices sorted lv'(2)
    show ?thesis by (auto split: option.splits dest!: sorted_better_distinct)
  qed
  have covers: "level_covers sp (n_Price nd) ?idx' (Some lv')"
    using lv'(1) in_lv by (simp add: level_covers_def del: fun_upd_apply)
  have others: "\<forall>sp'. sp' \<noteq> sp \<longrightarrow> same_on sp' ?idx ?idx'" using new sp by (auto simp: same_on_def)
  have same: "same_off_price sp (n_Price nd) ?idx ?idx'" using new by (auto simp: same_off_price_def)
  have mids: "price_mid (n_Price nd) lvo0 = [] \<or> price_mid (n_Price nd) lvo0 = [n_Price nd]"
    by (cases lvo0) auto
  note book = book_ok_step[OF ok ix' side_ok_splice[OF L sd prices mids sorted same covers] others]
  show "book_ok L bk'" "other_kept L sp bk bk'" using book(1,2) by (simp_all only: bk'_def)
  let ?c = "\<lambda>ps. concat (map (level_nodes L ?idx (s_PriceLevels ?sd)) ps)"
  have A: "resting L bk' sp = ?c ps1 @ level_mid ?idx' (Some lv') @ ?c ps2"
    unfolding bk'_def by (rule trans[OF book(3) resting_side_splice[OF L sd prices mids sorted same]])
  have B: "resting L bk sp = ?c ps1 @ level_mid ?idx lvo0 @ ?c ps2"
    unfolding resting_def resting_side_def prices using lvo0
    by (cases lvo0) (simp_all add: level_nodes_def)
  have mid: "level_mid ?idx' (Some lv') = level_mid ?idx lvo0 @ [nd]"
  proof (cases lvo0)
    case None
    then show ?thesis using lv'(2) by simp
  next
    case (Some lv)
    have "level_ok ?idx sp (n_Price nd) lv"
      using side_okD(4)[OF sd, of "n_Price nd"] prices lvo0 Some by auto
    then have "n_OrderID nd \<notin> set (l_Orders lv)" using level_ok_fresh[where idx = ?idx] new by blast
    then have "map (\<lambda>i. the (?idx' i)) (l_Orders lv) = map (\<lambda>i. the (?idx i)) (l_Orders lv)"
      by (intro map_cong) auto
    then show ?thesis using Some lv'(2) by (simp del: map_eq_conv)
  qed
  have price: "n_Price m \<in> set ps" if m: "m \<in> set (?c ps)" "set ps \<subseteq> set (s_SortedPrices ?sd)" for m ps
  proof -
    from m(1) obtain q where q: "q \<in> set ps" "m \<in> set (level_nodes L ?idx (s_PriceLevels ?sd) q)" by auto
    with m(2) level_nodes_props(1)[OF sd _ q(2)] show ?thesis by blast
  qed
  have parts: "set ps1 \<subseteq> set (s_SortedPrices ?sd)" "set ps2 \<subseteq> set (s_SortedPrices ?sd)"
    using prices by auto
  have s12: "\<forall>q\<in>set ps1. better sp q (n_Price nd)" "\<forall>q\<in>set ps2. better sp (n_Price nd) q"
    using sorted by (simp_all add: sorted_wrt_append)
  have better1: "\<forall>m\<in>set (?c ps1). better sp (n_Price m) (n_Price nd)"
    using price[OF _ parts(1)] s12(1) by blast
  have better2: "\<forall>m\<in>set (?c ps2). better sp (n_Price nd) (n_Price m)"
    using price[OF _ parts(2)] s12(2) by blast
  have mid_price: "\<forall>m\<in>set (level_mid ?idx lvo0). n_Price m = n_Price nd"
  proof (cases lvo0)
    case (Some lv)
    have "level_ok ?idx sp (n_Price nd) lv"
      using side_okD(4)[OF sd, of "n_Price nd"] prices lvo0 Some by auto
    from level_ok_ex[OF this] show ?thesis using Some by fastforce
  qed simp
  have nb1: "\<forall>m\<in>set (?c ps1). \<not> better sp (n_Price nd) (n_Price m)"
    using better1 better_antisym by blast
  have nb2: "\<forall>m\<in>set (level_mid ?idx lvo0). \<not> better sp (n_Price nd) (n_Price m)"
    using mid_price by (metis better_irrefl)
  have nb: "\<forall>m\<in>set (?c ps1 @ level_mid ?idx lvo0). \<not> better sp (n_Price nd) (n_Price m)"
    unfolding set_append using nb1 nb2 by blast
  note place_append[where sp = sp, OF nb better2]
  with A B mid show "resting L bk' sp = place sp nd (resting L bk sp)" by simp
qed

lemma Insert_correct:
  assumes L: "lib_ok L" and ok: "book_ok L bk" and sp: "n_Side nd = sp"
    and new: "b_OrderIndex bk (n_OrderID nd) = None"
    and nd: "0 < n_RemainingQty nd" "n_RemainingQty nd \<le> n_OriginalQty nd" "n_OrderType nd = OrderTypeLimit"
  shows "\<exists>bk'. Insert L bk nd = Some bk' \<and> book_ok L bk' \<and>
     resting L bk' sp = place sp nd (resting L bk sp) \<and> other_kept L sp bk bk' \<and>
     b_OrderIndex bk' = (b_OrderIndex bk)(n_OrderID nd \<mapsto> nd)"
proof -
  let ?sd = "getSide bk sp" and ?p = "n_Price nd"
  note sd = book_okD(2)[OF ok, of sp]
  show ?thesis
  proof (cases "s_PriceLevels ?sd (d_String L ?p)")
    case None
    have "?p \<notin> set (s_SortedPrices ?sd)" using side_okD(4)[OF sd] None by fastforce
    then obtain ps1 ps2 where ps: "s_SortedPrices ?sd = ps1 @ ps2"
      "\<forall>q\<in>set ps1. better sp q ?p" "\<forall>q\<in>set ps2. better sp ?p q"
      using sorted_better_split[OF side_okD(2)[OF sd]] by metis
    have sorted: "sorted_wrt (better sp) (ps1 @ ?p # ps2)"
      using side_okD(2)[OF sd] ps by (auto simp: sorted_wrt_append)
    let ?lv' = "\<lparr>l_Price = ?p, l_Orders = [n_OrderID nd], l_TotalQty = n_RemainingQty nd\<rparr>"
    have idx: "binarySearchInsertIndex ?sd ?p = length ps1"
      by (rule binarySearchInsertIndex_split[OF ps(1) side_okD(1)[OF sd] ps(2,3)])
    note R = insert_splice[OF L ok sp new nd _ sorted None level_ok_single[OF sp refl]]
    have step: "Insert L bk nd = Some ((setSide bk sp (?sd
      \<lparr>s_SortedPrices := ps1 @ price_mid ?p (Some ?lv') @ ps2,
       s_PriceLevels := (s_PriceLevels ?sd)(d_String L ?p := Some ?lv')\<rparr>))
      \<lparr>b_OrderIndex := (b_OrderIndex bk)(n_OrderID nd \<mapsto> nd)\<rparr>)"
      using new sp None idx ps(1) by (simp add: Insert_def ensureLevel_def slice_simps)
    show ?thesis unfolding step using R ps(1) by (simp del: fun_upd_apply)
  next
    case (Some lv)
    have "d_String L ?p \<in> d_String L ` set (s_SortedPrices ?sd)"
      using side_okD(3)[OF sd] Some by blast
    then have "?p \<in> set (s_SortedPrices ?sd)" using lib_ok_inj[OF L] by auto
    then obtain ps1 ps2 where ps: "s_SortedPrices ?sd = ps1 @ ?p # ps2" by (meson split_list)
    have sorted: "sorted_wrt (better sp) (ps1 @ ?p # ps2)" using side_okD(2)[OF sd] ps by simp
    have lv: "level_ok (b_OrderIndex bk) sp ?p lv"
      using side_okD(4)[OF sd, of ?p] ps Some by auto
    note R = insert_splice[OF L ok sp new nd _ sorted Some level_ok_snoc[OF lv new sp refl]]
    let ?lv' = "lv\<lparr>l_Orders := l_Orders lv @ [n_OrderID nd], l_TotalQty := l_TotalQty lv + n_RemainingQty nd\<rparr>"
    have step: "Insert L bk nd = Some ((setSide bk sp (?sd
      \<lparr>s_SortedPrices := ps1 @ price_mid ?p (Some ?lv') @ ps2,
       s_PriceLevels := (s_PriceLevels ?sd)(d_String L ?p := Some ?lv')\<rparr>))
      \<lparr>b_OrderIndex := (b_OrderIndex bk)(n_OrderID nd \<mapsto> nd)\<rparr>)"
      using new sp Some ps by (simp add: Insert_def ensureLevel_def flip: ps)
    show ?thesis unfolding step using R ps by (simp del: fun_upd_apply)
  qed
qed

end
