(* ===== verification/BookView.thy ===== *)
theory BookView
  imports BookOps
begin

text \<open>
  What the observers of the book see: the peek at the best order is the head of the
  price-time list, the list is sorted by price with distinct orders, cancellation removes
  exactly the owner's order, and the depth view lists the first price levels with the sum
  of the remaining quantities resting there.
\<close>

section \<open>The price-time list\<close>

lemma NewOrderBook_ok:
  "book_ok L (NewOrderBook m)" "resting L (NewOrderBook m) sp = []"
  by (cases sp; simp add: book_ok_def NewOrderBook_def index_ok_def side_ok_def resting_def resting_side_def)+

lemma distinct_level_nodes:
  assumes ix: "index_ok idx" and lv: "level_ok idx sp p lv"
  shows "distinct (map n_OrderID (map (\<lambda>i. the (idx i)) (l_Orders lv)))"
proof -
  have "map n_OrderID (map (\<lambda>i. the (idx i)) (l_Orders lv)) = map (\<lambda>i. i) (l_Orders lv)"
    unfolding map_map
  proof (rule map_cong[OF refl])
    fix i assume "i \<in> set (l_Orders lv)"
    from level_ok_ex[OF lv this] obtain n where n: "idx i = Some n" by blast
    with index_okD(1)[OF ix n] show "(n_OrderID \<circ> (\<lambda>i. the (idx i))) i = i" by simp
  qed
  then show ?thesis using lv by (simp add: level_ok_def)
qed

lemma sorted_wrt_all: "(\<And>x y. x \<in> set xs \<Longrightarrow> y \<in> set xs \<Longrightarrow> P x y) \<Longrightarrow> sorted_wrt P xs"
  by (induction xs) auto

lemma concat_levels:
  assumes ix: "index_ok idx" and sd: "side_ok L sp idx sd"
  shows "set ps \<subseteq> set (s_SortedPrices sd) \<Longrightarrow> sorted_wrt (better sp) ps \<Longrightarrow>
    distinct (map n_OrderID (concat (map (level_nodes L idx (s_PriceLevels sd)) ps))) \<and>
    sorted_wrt (\<lambda>m n. \<not> better sp (n_Price n) (n_Price m))
      (concat (map (level_nodes L idx (s_PriceLevels sd)) ps))"
proof (induction ps)
  case Nil
  then show ?case by simp
next
  case (Cons p ps)
  let ?g = "level_nodes L idx (s_PriceLevels sd)"
  have p: "p \<in> set (s_SortedPrices sd)" and ps: "set ps \<subseteq> set (s_SortedPrices sd)"
    using Cons.prems(1) by auto
  obtain lv where lv: "s_PriceLevels sd (d_String L p) = Some lv" "level_ok idx sp p lv"
    using side_okD(4)[OF sd p] by blast
  have gp: "distinct (map n_OrderID (?g p))"
    using distinct_level_nodes[OF ix lv(2)] lv(1) by (simp add: level_nodes_def)
  have price_p: "\<forall>m\<in>set (?g p). n_Price m = p" using level_nodes_props(1)[OF sd p] by blast
  have later: "\<forall>m\<in>set (concat (map ?g ps)). better sp p (n_Price m)"
  proof
    fix m assume "m \<in> set (concat (map ?g ps))"
    then obtain q where q: "q \<in> set ps" "m \<in> set (?g q)" by auto
    then have "n_Price m = q" using level_nodes_props(1)[OF sd _ q(2)] ps by blast
    with q(1) Cons.prems(2) show "better sp p (n_Price m)" by simp
  qed
  have disj: "n_OrderID ` set (?g p) \<inter> n_OrderID ` set (concat (map ?g ps)) = {}"
  proof (rule ccontr)
    assume "\<not> ?thesis"
    then obtain m k where mk: "m \<in> set (?g p)" "k \<in> set (concat (map ?g ps))" "n_OrderID m = n_OrderID k"
      by blast
    from mk(2) obtain q where q: "q \<in> set ps" "k \<in> set (?g q)" by auto
    obtain i j where "idx i = Some m" "idx j = Some k"
      using level_nodes_props(3)[OF sd p mk(1)] level_nodes_props(3)[OF sd _ q(2)] q(1) ps by blast
    with mk(3) have "m = k" using index_okD(1)[OF ix] by (metis option.inject)
    with mk(1,2) price_p later show False by fastforce
  qed
  have IH: "distinct (map n_OrderID (concat (map ?g ps)))"
    "sorted_wrt (\<lambda>m n. \<not> better sp (n_Price n) (n_Price m)) (concat (map ?g ps))"
    using Cons.IH[OF ps] Cons.prems(2) by auto
  have srt: "sorted_wrt (\<lambda>m n. \<not> better sp (n_Price n) (n_Price m)) (?g p)"
    using price_p by (intro sorted_wrt_all) (metis better_irrefl)
  have cross: "\<forall>m\<in>set (?g p). \<forall>n\<in>set (concat (map ?g ps)). \<not> better sp (n_Price n) (n_Price m)"
    using price_p later by (metis better_antisym)
  show ?case using gp disj IH srt cross by (simp add: sorted_wrt_append)
qed

lemma resting_sorted:
  assumes "book_ok L bk"
  shows "distinct (map n_OrderID (resting L bk sp))"
    and "sorted_wrt (\<lambda>m n. \<not> better sp (n_Price n) (n_Price m)) (resting L bk sp)"
  using concat_levels[OF book_okD(1)[OF assms] book_okD(2)[OF assms] subset_refl
      side_okD(2)[OF book_okD(2)[OF assms, of sp]]]
  unfolding resting_def resting_side_def by blast+

section \<open>The best order\<close>

lemma ExecuteBest_correct:
  assumes ok: "book_ok L bk"
  shows "ExecuteBest L bk sp = (case resting L bk sp of [] \<Rightarrow> None | n # _ \<Rightarrow> Some n)"
proof (cases "s_SortedPrices (getSide bk sp)")
  case Nil
  then show ?thesis by (simp add: ExecuteBest_def resting_def resting_side_def)
next
  case (Cons p ps)
  note sd = book_okD(2)[OF ok, of sp]
  obtain lv where lv: "s_PriceLevels (getSide bk sp) (d_String L p) = Some lv"
    "level_ok (b_OrderIndex bk) sp p lv"
    using side_okD(4)[OF sd, of p] Cons by auto
  then obtain i rest where i: "l_Orders lv = i # rest" by (cases "l_Orders lv") (auto simp: level_ok_def)
  with lv(2) obtain n where "b_OrderIndex bk i = Some n" using level_ok_ex[OF lv(2), of i] by auto
  with Cons lv(1) i show ?thesis
    by (simp add: ExecuteBest_def resting_def resting_side_def level_nodes_def)
qed

text \<open>The head of a list with distinct IDs, removed or reduced by its ID.\<close>

lemma filter_head_id:
  "distinct (map n_OrderID (n # ns)) \<Longrightarrow> filter (\<lambda>m. n_OrderID m \<noteq> n_OrderID n) (n # ns) = ns"
  by (force simp: filter_id_conv image_iff)

lemma reduce_head_id:
  "distinct (map n_OrderID (n # ns)) \<Longrightarrow>
   map (reduce_order (n_OrderID n) q) (n # ns) = n\<lparr>n_RemainingQty := n_RemainingQty n - q\<rparr> # ns"
  by (force simp: reduce_order_def image_iff intro!: map_idI)

section \<open>Cancellation\<close>

lemma Cancel_total:
  assumes "lib_ok L" "book_ok L bk"
  shows "\<exists>bk' out. Cancel L bk i u = Some (bk', out) \<and> book_ok L bk'"
proof (cases "b_OrderIndex bk i")
  case None
  then show ?thesis using assms by (simp add: Cancel_def)
next
  case (Some n)
  from removeResting_correct[OF assms Some refl] show ?thesis
    using Some assms by (auto simp: Cancel_def)
qed

section \<open>Depth\<close>

lemma those_map_Some: "\<forall>x\<in>set xs. f x = Some (g x) \<Longrightarrow> those (map f xs) = Some (map g xs)"
  by (induction xs) auto

definition qty_at :: "side_type \<Rightarrow> ('d::linordered_idom) order_node list \<Rightarrow> 'd \<Rightarrow> 'd" where
  "qty_at sp ns p = sum_list (map n_RemainingQty (filter (\<lambda>n. n_Price n = p) ns))"

lemma filter_concat_price:
  assumes "side_ok L sp idx sd"
  shows "set ps \<subseteq> set (s_SortedPrices sd) \<Longrightarrow> distinct ps \<Longrightarrow>
    filter (\<lambda>n. n_Price n = p) (concat (map (level_nodes L idx (s_PriceLevels sd)) ps)) =
    (if p \<in> set ps then level_nodes L idx (s_PriceLevels sd) p else [])"
proof (induction ps)
  case Nil
  then show ?case by simp
next
  case (Cons q ps)
  have "\<forall>m\<in>set (level_nodes L idx (s_PriceLevels sd) q). n_Price m = q"
    using level_nodes_props(1)[OF assms, of q] Cons.prems(1) by auto
  then have "filter (\<lambda>n. n_Price n = p) (level_nodes L idx (s_PriceLevels sd) q) =
      (if p = q then level_nodes L idx (s_PriceLevels sd) q else [])"
    by (auto simp: filter_id_conv filter_empty_conv)
  with Cons show ?case by auto
qed

lemma depthLevels_correct:
  assumes sd: "side_ok L sp idx sd"
  shows "depthLevels L sd d =
    Some (map (\<lambda>p. \<lparr>dl_Price = p, dl_Quantity = qty_at sp (resting_side L idx sd) p\<rparr>)
              (take d (s_SortedPrices sd)))"
  unfolding depthLevels_def
proof (rule those_map_Some, rule ballI)
  fix p assume "p \<in> set (take d (s_SortedPrices sd))"
  then have p: "p \<in> set (s_SortedPrices sd)" by (rule in_set_takeD)
  obtain lv where lv: "s_PriceLevels sd (d_String L p) = Some lv" "level_ok idx sp p lv"
    using side_okD(4)[OF sd p] by blast
  have "filter (\<lambda>n. n_Price n = p) (resting_side L idx sd) = level_nodes L idx (s_PriceLevels sd) p"
    using filter_concat_price[OF sd subset_refl sorted_better_distinct[OF side_okD(2)[OF sd]]] p
    by (simp add: resting_side_def)
  then have "qty_at sp (resting_side L idx sd) p = l_TotalQty lv"
    using lv by (simp add: qty_at_def level_nodes_def level_ok_def o_def)
  with lv(1) show "map_option (\<lambda>level. \<lparr>dl_Price = p, dl_Quantity = l_TotalQty level\<rparr>)
        (s_PriceLevels sd (d_String L p)) =
      Some \<lparr>dl_Price = p, dl_Quantity = qty_at sp (resting_side L idx sd) p\<rparr>"
    by simp
qed

lemma GetDepth_total: "book_ok L bk \<Longrightarrow> \<exists>ds. GetDepth L now bk d = Some ds"
  using depthLevels_correct[OF book_okD(2), of L bk SideBuy] depthLevels_correct[OF book_okD(2), of L bk SideSell]
  by (simp add: GetDepth_def)

end
