(* ===== verification/Snapshot.thy ===== *)
theory Snapshot
  imports BookView
begin

text \<open>
  Book snapshots (\<open>services/matching-engine/internal/orderbook/snapshot.go\<close>): the
  serialisation of a book in price-time order and the validating restore. The checksum,
  SHA-256 over the JSON text of the snapshot, is the parameter \<open>ck\<close>
  (\<^term>\<open>None\<close> for a marshalling error). \<open>Restore\<close> returns the live book and the error, if
  any, because it assigns to the book it is given; a panic would be \<^term>\<open>None\<close>.
\<close>

section \<open>Data\<close>

record snapshot_order =
  so_OrderID :: string
  so_UserID :: string
  so_ClientOrderID :: string
  so_Side :: string
  so_OrderType :: string
  so_Price :: string
  so_OriginalQty :: string
  so_RemainingQty :: string
  so_Timestamp :: string

record book_snapshot =
  bs_SchemaVersion :: "32 word"
  bs_MarketID :: string
  bs_Partition :: int
  bs_Offset :: int
  bs_Sequence :: "64 word"
  bs_Orders :: "snapshot_order list"

type_synonym checksum_fun = "book_snapshot \<Rightarrow> string option"

definition CurrentSchemaVersion :: "32 word" where
  "CurrentSchemaVersion = 1"

datatype restore_error =
    ErrSnapshotSchemaMismatch | ErrSnapshotMarketMismatch | ErrSnapshotPartitionMismatch
  | ErrSnapshotBeyondCheckpoint | ErrCalculateChecksum | ErrSnapshotChecksumMismatch
  | InvalidOrderID | InvalidUserID | InvalidTimestamp | InvalidPrice | InvalidOriginalQty
  | InvalidRemainingQty | InvalidSide | UnsupportedOrderType | OriginalQtyNotPositive
  | RemainingQtyNotPositive | RemainingExceedsOriginal | PriceOffTick | OriginalQtyOffLot
  | RemainingQtyOffLot | PriceNotPositive | ZeroTimestamp | FarFutureTimestamp
  | DuplicateOrderID | BuyAfterSell | BidsNotDescending | BidsNotFIFO | AsksNotAscending
  | AsksNotFIFO

text \<open>The string constants of \<open>SideType\<close> and \<open>OrderType\<close>, and their reading back.\<close>

fun side_string :: "side_type \<Rightarrow> string" where
  "side_string SideBuy = ''BUY''"
| "side_string SideSell = ''SELL''"

fun order_type_string :: "order_type \<Rightarrow> string" where
  "order_type_string OrderTypeLimit = ''LIMIT''"
| "order_type_string OrderTypeMarket = ''MARKET''"

definition as_side :: "string \<Rightarrow> side_type option" where
  "as_side s = (if s = ''BUY'' then Some SideBuy else if s = ''SELL'' then Some SideSell else None)"

section \<open>Serialize\<close>

definition snapshotOrder :: "'d lib \<Rightarrow> 'd order_node \<Rightarrow> snapshot_order" where
  "snapshotOrder L node =
     \<lparr>so_OrderID = u_String L (n_OrderID node), so_UserID = u_String L (n_UserID node),
      so_ClientOrderID = n_ClientOrderID node, so_Side = side_string (n_Side node),
      so_OrderType = order_type_string (n_OrderType node), so_Price = d_String L (n_Price node),
      so_OriginalQty = d_String L (n_OriginalQty node),
      so_RemainingQty = d_String L (n_RemainingQty node),
      so_Timestamp = t_FormatNano L (n_Timestamp node)\<rparr>"

definition serializeSide :: "'d lib \<Rightarrow> (uuid \<rightharpoonup> 'd order_node) \<Rightarrow> 'd side \<Rightarrow> snapshot_order list" where
  "serializeSide L idx sd =
     concat (map (\<lambda>price.
       case s_PriceLevels sd (d_String L price) of
         None \<Rightarrow> []
       | Some level \<Rightarrow> map (snapshotOrder L) (List.map_filter idx (l_Orders level))) (s_SortedPrices sd))"

definition Serialize :: "'d lib \<Rightarrow> 'd order_book \<Rightarrow> int \<Rightarrow> int \<Rightarrow> book_snapshot" where
  "Serialize L bk part offset =
     \<lparr>bs_SchemaVersion = CurrentSchemaVersion, bs_MarketID = b_MarketID bk,
      bs_Partition = part, bs_Offset = offset, bs_Sequence = b_Sequence bk,
      bs_Orders = serializeSide L (b_OrderIndex bk) (b_Bids bk) @
                  serializeSide L (b_OrderIndex bk) (b_Asks bk)\<rparr>"

section \<open>InsertRestoredOrder\<close>

text \<open>The linear \<open>binarySearchInsertIndex\<close> of \<open>snapshot.go\<close>.\<close>

fun linearInsertIndex :: "bool \<Rightarrow> ('d::linordered_idom) list \<Rightarrow> 'd \<Rightarrow> nat" where
  "linearInsertIndex isBid [] price = 0"
| "linearInsertIndex isBid (p # ps) price =
     (if (if isBid then p < price else p > price) then 0 else Suc (linearInsertIndex isBid ps price))"

definition InsertRestoredOrder ::
  "('d::linordered_idom) lib \<Rightarrow> 'd order_book \<Rightarrow> 'd order_node \<Rightarrow> 'd order_book option" where
  "InsertRestoredOrder L bk node =
     (let sd = getSide bk (n_Side node); priceKey = d_String L (n_Price node) in do {
        sd' \<leftarrow> (case s_PriceLevels sd priceKey of
                   Some _ \<Rightarrow> Some sd
                 | None \<Rightarrow> do {
                     ps \<leftarrow> slice_insert (s_SortedPrices sd)
                              (linearInsertIndex (s_IsBid sd) (s_SortedPrices sd) (n_Price node)) (n_Price node);
                     Some (sd\<lparr>s_SortedPrices := ps,
                              s_PriceLevels := (s_PriceLevels sd)
                                (priceKey \<mapsto> \<lparr>l_Price = n_Price node, l_Orders = [], l_TotalQty = 0\<rparr>)\<rparr>)
                   });
        level \<leftarrow> s_PriceLevels sd' priceKey;
        Some ((setSide bk (n_Side node) (sd'\<lparr>s_PriceLevels := (s_PriceLevels sd')
                 (priceKey \<mapsto> level\<lparr>l_Orders := l_Orders level @ [n_OrderID node],
                                    l_TotalQty := l_TotalQty level + n_RemainingQty node\<rparr>)\<rparr>))
              \<lparr>b_OrderIndex := (b_OrderIndex bk)(n_OrderID node \<mapsto> node)\<rparr>)
      })"

section \<open>Restore\<close>

record 'd restore_state =
  r_staged :: "'d order_book"
  r_seenAsks :: bool
  r_lastSide :: "side_type option"
  r_lastPrice :: 'd
  r_lastTime :: time

definition hours24 :: time where
  "hours24 = 24 * 60 * 60 * 1000000000"

text \<open>The structural check of one order against the one before it.\<close>

definition checkStructure ::
  "('d::linordered_idom) restore_state \<Rightarrow> side_type \<Rightarrow> 'd \<Rightarrow> time \<Rightarrow> restore_error option" where
  "checkStructure st sd price t =
     (case sd of
        SideBuy \<Rightarrow>
          if r_seenAsks st then Some BuyAfterSell
          else if r_lastSide st = Some SideBuy then
            (if price > r_lastPrice st then Some BidsNotDescending
             else if price = r_lastPrice st \<and> t < r_lastTime st then Some BidsNotFIFO else None)
          else None
      | SideSell \<Rightarrow>
          if r_lastSide st = Some SideSell then
            (if price < r_lastPrice st then Some AsksNotAscending
             else if price = r_lastPrice st \<and> t < r_lastTime st then Some AsksNotFIFO else None)
          else None)"

text \<open>One iteration of the loop over the snapshot's orders.\<close>

definition restoreOrder ::
  "('d::linordered_idom) lib \<Rightarrow> time \<Rightarrow> string \<Rightarrow> 'd \<Rightarrow> 'd \<Rightarrow> 'd restore_state \<Rightarrow> snapshot_order \<Rightarrow>
   (restore_error + 'd restore_state) option" where
  "restoreOrder L now marketID tickSize lotSize st so =
     (case u_Parse L (so_OrderID so) of None \<Rightarrow> Some (Inl InvalidOrderID) | Some oID \<Rightarrow>
      case u_Parse L (so_UserID so) of None \<Rightarrow> Some (Inl InvalidUserID) | Some uID \<Rightarrow>
      case t_ParseNano L (so_Timestamp so) of None \<Rightarrow> Some (Inl InvalidTimestamp) | Some t \<Rightarrow>
      case d_NewFromString L (so_Price so) of None \<Rightarrow> Some (Inl InvalidPrice) | Some price \<Rightarrow>
      case d_NewFromString L (so_OriginalQty so) of None \<Rightarrow> Some (Inl InvalidOriginalQty) | Some origQty \<Rightarrow>
      case d_NewFromString L (so_RemainingQty so) of None \<Rightarrow> Some (Inl InvalidRemainingQty) | Some remQty \<Rightarrow>
      case as_side (so_Side so) of None \<Rightarrow> Some (Inl InvalidSide) | Some sd \<Rightarrow>
      if so_OrderType so \<noteq> ''LIMIT'' then Some (Inl UnsupportedOrderType)
      else if origQty \<le> 0 then Some (Inl OriginalQtyNotPositive)
      else if remQty \<le> 0 then Some (Inl RemainingQtyNotPositive)
      else if remQty > origQty then Some (Inl RemainingExceedsOriginal)
      else if tickSize > 0 \<and> d_Mod L price tickSize \<noteq> 0 then Some (Inl PriceOffTick)
      else if lotSize > 0 \<and> d_Mod L origQty lotSize \<noteq> 0 then Some (Inl OriginalQtyOffLot)
      else if lotSize > 0 \<and> d_Mod L remQty lotSize \<noteq> 0 then Some (Inl RemainingQtyOffLot)
      else if price \<le> 0 then Some (Inl PriceNotPositive)
      else if t = 0 then Some (Inl ZeroTimestamp)
      else if t > now + hours24 then Some (Inl FarFutureTimestamp)
      else if b_OrderIndex (r_staged st) oID \<noteq> None then Some (Inl DuplicateOrderID)
      else (case checkStructure st sd price t of
              Some e \<Rightarrow> Some (Inl e)
            | None \<Rightarrow> do {
                staged \<leftarrow> InsertRestoredOrder L (r_staged st)
                  \<lparr>n_OrderID = oID, n_UserID = uID, n_MarketID = marketID, n_Side = sd,
                   n_OrderType = OrderTypeLimit, n_Price = price, n_OriginalQty = origQty,
                   n_RemainingQty = remQty, n_Timestamp = t, n_ClientOrderID = so_ClientOrderID so\<rparr>;
                Some (Inr \<lparr>r_staged = staged, r_seenAsks = (r_seenAsks st \<or> sd = SideSell),
                           r_lastSide = Some sd, r_lastPrice = price, r_lastTime = t\<rparr>)
              }))"

fun restoreOrders ::
  "('d::linordered_idom) lib \<Rightarrow> time \<Rightarrow> string \<Rightarrow> 'd \<Rightarrow> 'd \<Rightarrow> 'd restore_state \<Rightarrow> snapshot_order list \<Rightarrow>
   (restore_error + 'd restore_state) option" where
  "restoreOrders L now marketID tickSize lotSize st [] = Some (Inr st)"
| "restoreOrders L now marketID tickSize lotSize st (so # sos) =
     Option.bind (restoreOrder L now marketID tickSize lotSize st so)
       (\<lambda>r. case r of Inl e \<Rightarrow> Some (Inl e)
                    | Inr st' \<Rightarrow> restoreOrders L now marketID tickSize lotSize st' sos)"

definition stagedStart :: "('d::linordered_idom) order_book \<Rightarrow> 64 word \<Rightarrow> 'd restore_state" where
  "stagedStart bk sq =
     \<lparr>r_staged = (NewOrderBook (b_MarketID bk))\<lparr>b_Sequence := sq\<rparr>, r_seenAsks = False,
      r_lastSide = None, r_lastPrice = 0, r_lastTime = 0\<rparr>"

definition Restore ::
  "('d::linordered_idom) lib \<Rightarrow> checksum_fun \<Rightarrow> time \<Rightarrow> 'd order_book \<Rightarrow> book_snapshot \<Rightarrow> string \<Rightarrow> int \<Rightarrow> int \<Rightarrow>
   string \<Rightarrow> 'd \<Rightarrow> 'd \<Rightarrow> ('d order_book \<times> restore_error option) option" where
  "Restore L ck now bk snap marketID part checkpoint expectedChecksum tickSize lotSize =
     (if bs_SchemaVersion snap \<noteq> CurrentSchemaVersion then Some (bk, Some ErrSnapshotSchemaMismatch)
      else if bs_MarketID snap \<noteq> marketID then Some (bk, Some ErrSnapshotMarketMismatch)
      else if bs_Partition snap \<noteq> part then Some (bk, Some ErrSnapshotPartitionMismatch)
      else if bs_Offset snap > checkpoint then Some (bk, Some ErrSnapshotBeyondCheckpoint)
      else case ck snap of
        None \<Rightarrow> Some (bk, Some ErrCalculateChecksum)
      | Some computed \<Rightarrow>
          if computed \<noteq> expectedChecksum then Some (bk, Some ErrSnapshotChecksumMismatch)
          else Option.bind
            (restoreOrders L now marketID tickSize lotSize (stagedStart bk (bs_Sequence snap)) (bs_Orders snap))
            (\<lambda>r. case r of
               Inl e \<Rightarrow> Some (bk, Some e)
             | Inr st \<Rightarrow>
                 Some (bk\<lparr>b_Bids := b_Bids (r_staged st), b_Asks := b_Asks (r_staged st),
                          b_OrderIndex := b_OrderIndex (r_staged st),
                          b_Sequence := b_Sequence (r_staged st)\<rparr>, None)))"

end
