(* ===== verification/EventRing.thy ===== *)
theory EventRing
  imports Extern
begin

text \<open>
  The deduplication ring of the event loop
  (\<open>services/matching-engine/internal/market/ring_buffer.go\<close>) and its contract. The
  fixed array is a list of \<open>ringBufferCapacity\<close> slots; the ring holds a window of the
  most recent event IDs in order of arrival.
\<close>

section \<open>The ring buffer\<close>

definition ringBufferCapacity :: nat where
  "ringBufferCapacity = 50000"

record event_ring =
  er_slots :: "uuid list"
  er_head :: nat
  er_count :: nat

definition empty_ring :: event_ring where
  "empty_ring = \<lparr>er_slots = replicate ringBufferCapacity 0, er_head = 0, er_count = 0\<rparr>"

definition ring_add :: "event_ring \<Rightarrow> uuid \<Rightarrow> event_ring \<times> uuid" where
  "ring_add r eid =
     (if er_count r = ringBufferCapacity then
        (r\<lparr>er_slots := (er_slots r)[er_head r := eid],
           er_head := (er_head r + 1) mod ringBufferCapacity\<rparr>,
         er_slots r ! er_head r)
      else
        (r\<lparr>er_slots := (er_slots r)[(er_head r + er_count r) mod ringBufferCapacity := eid],
           er_count := er_count r + 1\<rparr>, 0))"

section \<open>Invariant and contents\<close>

definition ring_ok :: "event_ring \<Rightarrow> bool" where
  "ring_ok r \<longleftrightarrow>
     length (er_slots r) = ringBufferCapacity \<and> er_head r < ringBufferCapacity \<and>
     er_count r \<le> ringBufferCapacity \<and> (er_count r < ringBufferCapacity \<longrightarrow> er_head r = 0)"

definition ring_contents :: "event_ring \<Rightarrow> uuid list" where
  "ring_contents r =
     map (\<lambda>i. er_slots r ! ((er_head r + i) mod ringBufferCapacity)) [0..<er_count r]"

lemma cap_pos: "0 < ringBufferCapacity"
  by (simp add: ringBufferCapacity_def)

lemma empty_ring: "ring_ok empty_ring" "ring_contents empty_ring = []"
  using cap_pos by (simp_all add: ring_ok_def empty_ring_def ring_contents_def)

lemma length_contents: "length (ring_contents r) = er_count r"
  by (simp add: ring_contents_def)

lemma ring_ok_add: "ring_ok r \<Longrightarrow> ring_ok (fst (ring_add r eid))"
  using cap_pos by (auto simp: ring_ok_def ring_add_def)

lemma add_not_full:
  assumes "ring_ok r" "er_count r < ringBufferCapacity"
  shows "ring_contents (fst (ring_add r eid)) = ring_contents r @ [eid]" "snd (ring_add r eid) = 0"
proof -
  have h: "er_head r = 0" "length (er_slots r) = ringBufferCapacity" using assms by (auto simp: ring_ok_def)
  have "map (\<lambda>i. (er_slots r)[er_count r := eid] ! (i mod ringBufferCapacity)) [0..<er_count r] =
      map (\<lambda>i. er_slots r ! (i mod ringBufferCapacity)) [0..<er_count r]"
    using assms(2) by (intro map_cong) auto
  with h assms(2) show "ring_contents (fst (ring_add r eid)) = ring_contents r @ [eid]"
    by (simp add: ring_contents_def ring_add_def)
  show "snd (ring_add r eid) = 0" using assms(2) by (simp add: ring_add_def)
qed

lemma mod_shift_ne:
  fixes h i c :: nat
  assumes "h < c" "0 < i" "i < c"
  shows "(h + i) mod c \<noteq> h"
proof (cases "h + i < c")
  case True
  with assms show ?thesis by simp
next
  case False
  with assms have "(h + i) mod c = h + i - c" by (simp add: mod_if)
  with assms False show ?thesis by simp
qed

lemma add_full:
  assumes "ring_ok r" "er_count r = ringBufferCapacity"
  shows "ring_contents r = snd (ring_add r eid) # tl (ring_contents r)"
    and "ring_contents (fst (ring_add r eid)) = tl (ring_contents r) @ [eid]"
proof -
  let ?c = ringBufferCapacity and ?h = "er_head r"
  have h: "?h < ?c" "length (er_slots r) = ?c" using assms(1) by (simp_all add: ring_ok_def)
  obtain n where n: "?c = Suc n" using cap_pos by (cases ?c) auto
  have up: "[0..<?c] = 0 # map Suc [0..<n]" unfolding n by (simp add: upt_conv_Cons map_Suc_upt del: upt_Suc)
  have c: "ring_contents r = er_slots r ! ?h # map (\<lambda>i. er_slots r ! ((?h + Suc i) mod ?c)) [0..<n]"
    unfolding ring_contents_def assms(2) up using h(1) by (simp add: o_def)
  then show "ring_contents r = snd (ring_add r eid) # tl (ring_contents r)"
    by (simp add: ring_add_def assms(2))
  have keep: "(er_slots r)[?h := eid] ! ((?h + Suc i) mod ?c) = er_slots r ! ((?h + Suc i) mod ?c)"
    if "i < n" for i
    using mod_shift_ne[OF h(1), of "Suc i"] that n by simp
  have s: "((?h + 1) mod ?c + i) mod ?c = (?h + Suc i) mod ?c" for i by (simp add: mod_add_left_eq)
  have last: "(?h + Suc n) mod ?c = ?h" using h(1) n by simp
  have "ring_contents (fst (ring_add r eid)) =
      map (\<lambda>i. (er_slots r)[?h := eid] ! ((?h + Suc i) mod ?c)) ([0..<n] @ [n])"
  proof -
    have "[0..<?c] = [0..<n] @ [n]" unfolding n by simp
    moreover have "fst (ring_add r eid) =
        \<lparr>er_slots = (er_slots r)[?h := eid], er_head = (?h + 1) mod ?c, er_count = ?c\<rparr>"
      using assms(2) by (cases r) (simp add: ring_add_def)
    ultimately show ?thesis unfolding ring_contents_def by (simp only: event_ring.simps s)
  qed
  also have "\<dots> = map (\<lambda>i. er_slots r ! ((?h + Suc i) mod ?c)) [0..<n] @ [eid]"
    using h last keep by (simp add: map_eq_conv)
  finally show "ring_contents (fst (ring_add r eid)) = tl (ring_contents r) @ [eid]" by (simp add: c)
qed

section \<open>The contract of a deduplication window\<close>

text \<open>
  What the event loop relies on: adding an ID appends it to the window, and when the
  window was full the ID reported as evicted is the one that left at the front.
\<close>

locale dedup_window =
  fixes add :: "'r \<Rightarrow> 'a \<Rightarrow> 'r \<times> 'a" and contents :: "'r \<Rightarrow> 'a list" and ok :: "'r \<Rightarrow> bool"
    and cap :: nat and none :: 'a
  assumes add_ok: "ok r \<Longrightarrow> ok (fst (add r x))"
    and add_short: "ok r \<Longrightarrow> length (contents r) < cap \<Longrightarrow>
      contents (fst (add r x)) = contents r @ [x] \<and> snd (add r x) = none"
    and add_evict: "ok r \<Longrightarrow> length (contents r) = cap \<Longrightarrow>
      contents r = snd (add r x) # tl (contents r) \<and> contents (fst (add r x)) = tl (contents r) @ [x]"
    and bounded: "ok r \<Longrightarrow> length (contents r) \<le> cap"
begin

text \<open>
  The client's update of its set of seen IDs after an \<open>add\<close> keeps the set equal to the
  window, as long as the IDs are distinct and are not the null ID.
\<close>

definition remember :: "'a set \<Rightarrow> 'a \<Rightarrow> 'a \<Rightarrow> 'a set" where
  "remember seen evicted x = insert x (if evicted \<noteq> none then seen - {evicted} else seen)"

lemma remember_window:
  assumes ok: "ok r" and seen: "seen = set (contents r)" and d: "distinct (contents r)"
    and new: "x \<notin> seen" "x \<noteq> none" and nn: "none \<notin> seen"
  shows "remember seen (snd (add r x)) x = set (contents (fst (add r x)))"
    and "distinct (contents (fst (add r x)))"
    and "none \<notin> set (contents (fst (add r x)))"
proof -
  consider "length (contents r) < cap" | "length (contents r) = cap"
    using bounded[OF ok] by linarith
  then have all: "remember seen (snd (add r x)) x = set (contents (fst (add r x))) \<and>
      distinct (contents (fst (add r x))) \<and> none \<notin> set (contents (fst (add r x)))"
  proof cases
    case 1
    from add_short[OF ok this, of x] show ?thesis using seen d new nn by (auto simp: remember_def)
  next
    case 2
    obtain e where e: "snd (add r x) = e" by blast
    from add_evict[OF ok 2, of x] e
    have c: "contents r = e # tl (contents r)" "contents (fst (add r x)) = tl (contents r) @ [x]" by auto
    obtain ys where ys: "tl (contents r) = ys" by blast
    from c(1) ys have r: "contents r = e # ys" by simp
    show ?thesis unfolding c(2) e ys using seen d new nn by (auto simp: r remember_def)
  qed
  then show "remember seen (snd (add r x)) x = set (contents (fst (add r x)))"
    "distinct (contents (fst (add r x)))" "none \<notin> set (contents (fst (add r x)))" by blast+
qed

text \<open>An ID leaves the window only when as many others as the window holds have been added.\<close>

lemma still_remembered:
  assumes "ok r" and "contents r = xs @ x # ys" and "length ys + 1 < cap"
  shows "\<exists>xs'. contents (fst (add r y)) = xs' @ x # ys @ [y]"
proof -
  consider "length (contents r) < cap" | "length (contents r) = cap"
    using bounded[OF assms(1)] by linarith
  then show ?thesis
  proof cases
    case 1
    with add_short[OF assms(1), of y] assms(2) show ?thesis by auto
  next
    case 2
    with assms(2,3) obtain z zs where "xs = z # zs" by (cases xs) auto
    with add_evict[OF assms(1) 2, of y] assms(2) show ?thesis by auto
  qed
qed

lemma added_last:
  assumes "ok r"
  shows "\<exists>xs. contents (fst (add r x)) = xs @ [x]"
proof (cases "length (contents r) = cap")
  case True
  with add_evict[OF assms, of x] show ?thesis by auto
next
  case False
  with add_short[OF assms, of x] bounded[OF assms] show ?thesis by auto
qed

end

interpretation ring: dedup_window ring_add ring_contents ring_ok ringBufferCapacity 0
proof
  fix r :: event_ring and x :: uuid
  assume ok: "ring_ok r"
  show "ring_ok (fst (ring_add r x))" by (rule ring_ok_add[OF ok])
  show "length (ring_contents r) \<le> ringBufferCapacity" using ok by (simp add: length_contents ring_ok_def)
  show "ring_contents (fst (ring_add r x)) = ring_contents r @ [x] \<and> snd (ring_add r x) = 0"
    if "length (ring_contents r) < ringBufferCapacity"
    using add_not_full[OF ok] that by (simp add: length_contents)
  show "ring_contents r = snd (ring_add r x) # tl (ring_contents r) \<and>
      ring_contents (fst (ring_add r x)) = tl (ring_contents r) @ [x]"
    if "length (ring_contents r) = ringBufferCapacity"
    using add_full[OF ok] that unfolding length_contents by blast
qed

end
