(* ===== verification/Engine.thy ===== *)
theory Engine
  imports Matcher Snapshot EventRing
begin

text \<open>
  The market engine (\<open>services/matching-engine/internal/market\<close>): its modes, the
  application of one input event to the book, and the event loop \<open>Run\<close>. The input
  channel is the sequence of events a run receives, the output channel the list of results
  it sent. The mode is an atomic the event loop reads; it is read once per event here.
  \<open>now\<close> stands for the readings of the clock while one event is handled. A nil payload of
  an event that needs one panics: \<^term>\<open>None\<close>.
\<close>

section \<open>Data\<close>

datatype engine_mode = ModeRecovery | ModeLive | ModeBlocked | ModeReconciling

record 'd market_config =
  mc_MarketID :: string
  mc_TickSize :: 'd
  mc_LotSize :: 'd
  mc_Partition :: int
  mc_SnapshotInterval :: int
  mc_SnapshotDuration :: int

record 'd order_created_payload =
  oc_OrderID :: uuid
  oc_UserID :: uuid
  oc_MarketID :: string
  oc_Side :: side_type
  oc_OrderType :: order_type
  oc_Price :: 'd
  oc_Quantity :: 'd
  oc_ClientOrderID :: string
  oc_OccurredAt :: time

record order_cancel_payload =
  ol_OrderID :: uuid
  ol_UserID :: uuid
  ol_MarketID :: string

text \<open>\<open>EventUnknown\<close> is any other value of the integer type \<open>EventType\<close>.\<close>

datatype event_type = EventOrderCreated | EventOrderCancel | EventRecoveryBarrier | EventUnknown

record 'd input_event =
  ie_EventID :: uuid
  ie_Type :: event_type
  ie_OrderCreated :: "'d order_created_payload option"
  ie_OrderCancel :: "order_cancel_payload option"
  ie_Topic :: string
  ie_Partition :: int
  ie_Offset :: int

text \<open>The zero value of \<open>CancelStatus\<close> is \<^term>\<open>None\<close>.\<close>

record 'd cancelled_order =
  co_OrderID :: uuid
  co_UserID :: uuid
  co_MarketID :: string
  co_RemainingQuantity :: 'd
  co_Reason :: string
  co_CancelStatus :: "cancel_status option"
  co_CancelledAt :: time
  co_SourceOffset :: int

record kafka_position =
  kp_Topic :: string
  kp_Partition :: int
  kp_Offset :: int

record 'd match_result =
  mr_Fills :: "'d fill list"
  mr_CancelResult :: "'d cancelled_order option"
  mr_DepthSnapshot :: "'d depth_snapshot"
  mr_SourcePosition :: kafka_position
  mr_Snapshot :: "book_snapshot option"
  mr_BarrierReached :: bool
  mr_BarrierOffset :: int

record mm_order_summary =
  mo_OrderID :: string
  mo_ClientOrderID :: string
  mo_LevelID :: string
  mo_Generation :: nat
  mo_Side :: string
  mo_Price :: string
  mo_RemainingQuantity :: string

record market_snapshot =
  ms_MarketID :: string
  ms_State :: string
  ms_Sequence :: "64 word"
  ms_SnapshotAt :: time
  ms_Orders :: "mm_order_summary list option"

text \<open>\<open>e_haltCallbacks\<close> counts the calls of \<open>HaltCallback\<close>, which leaves the program.\<close>

record 'd market_engine =
  e_MarketID :: string
  e_book :: "'d order_book"
  e_config :: "'d market_config"
  e_mode :: engine_mode
  e_blockedReason :: "string option"
  e_processedEvents :: "uuid set"
  e_eventRing :: event_ring
  e_lastAppliedOffset :: int
  e_isFatalHalt :: bool
  e_HaltCallback :: bool
  e_haltCallbacks :: nat
  e_snapshot :: market_snapshot

datatype mode_error = EngineHalted | WrongMode engine_mode

section \<open>Published snapshot\<close>

definition MMUserID :: uuid where
  "MMUserID = 1"

text \<open>\<open>strings.Split(s, "-G")\<close>.\<close>

fun splitG :: "string \<Rightarrow> string \<Rightarrow> string list" where
  "splitG acc [] = [acc]"
| "splitG acc [c] = [acc @ [c]]"
| "splitG acc (c # d # cs) =
     (if c = CHR ''-'' \<and> d = CHR ''G'' then acc # splitG [] cs else splitG (acc @ [c]) (d # cs))"

text \<open>\<open>strconv.ParseUint(s, 10, 64)\<close>: decimal digits only, at least one, in range.\<close>

fun digits_value :: "nat \<Rightarrow> string \<Rightarrow> nat option" where
  "digits_value acc [] = Some acc"
| "digits_value acc (c # cs) =
     (if 48 \<le> (of_char c :: nat) \<and> (of_char c :: nat) \<le> 57
      then digits_value (10 * acc + (of_char c - 48)) cs else None)"

definition ParseUint64 :: "string \<Rightarrow> nat option" where
  "ParseUint64 s =
     (if s = [] then None
      else case digits_value 0 s of None \<Rightarrow> None | Some n \<Rightarrow> if n < 2 ^ 64 then Some n else None)"

definition parseMMClientOrderID :: "string \<Rightarrow> string \<times> nat" where
  "parseMMClientOrderID coid =
     (if coid = [] then ([], 0)
      else case splitG [] coid of
        [lvl, g] \<Rightarrow> (case ParseUint64 g of Some n \<Rightarrow> (lvl, n) | None \<Rightarrow> (coid, 0))
      | _ \<Rightarrow> (coid, 0))"

definition mmOrderSummary :: "'d lib \<Rightarrow> 'd order_node \<Rightarrow> mm_order_summary" where
  "mmOrderSummary L node =
     (let (lvl, gen) = parseMMClientOrderID (n_ClientOrderID node) in
      \<lparr>mo_OrderID = u_String L (n_OrderID node), mo_ClientOrderID = n_ClientOrderID node,
       mo_LevelID = lvl, mo_Generation = gen, mo_Side = side_string (n_Side node),
       mo_Price = d_String L (n_Price node), mo_RemainingQuantity = d_String L (n_RemainingQty node)\<rparr>)"

text \<open>The comparison of \<open>sort.Slice\<close>: level, generation, order ID; Go compares strings by bytes.\<close>

fun str_less :: "string \<Rightarrow> string \<Rightarrow> bool" where
  "str_less _ [] = False"
| "str_less [] (_ # _) = True"
| "str_less (a # as) (b # bs) =
     ((of_char a :: nat) < of_char b \<or> a = b \<and> str_less as bs)"

definition mmLess :: "mm_order_summary \<Rightarrow> mm_order_summary \<Rightarrow> bool" where
  "mmLess a b =
     (if mo_LevelID a \<noteq> mo_LevelID b then str_less (mo_LevelID a) (mo_LevelID b)
      else if mo_Generation a \<noteq> mo_Generation b then mo_Generation a < mo_Generation b
      else str_less (mo_OrderID a) (mo_OrderID b))"

fun mmInsert :: "mm_order_summary \<Rightarrow> mm_order_summary list \<Rightarrow> mm_order_summary list" where
  "mmInsert x [] = [x]"
| "mmInsert x (y # ys) = (if mmLess x y then x # y # ys else y # mmInsert x ys)"

definition mmSort :: "mm_order_summary list \<Rightarrow> mm_order_summary list" where
  "mmSort xs = foldr mmInsert xs []"

text \<open>
  The orders of the market maker. The code ranges over the index in map order; the sort
  that follows fixes the result, so the model ranges over it in the order of the IDs.
\<close>

definition mmOrders :: "'d lib \<Rightarrow> 'd order_book \<Rightarrow> mm_order_summary list" where
  "mmOrders L bk =
     mmSort (map (mmOrderSummary L)
       (filter (\<lambda>node. n_UserID node = MMUserID)
         (List.map_filter (b_OrderIndex bk) (sorted_list_of_set (dom (b_OrderIndex bk))))))"

fun mode_state :: "engine_mode \<Rightarrow> string" where
  "mode_state ModeLive = ''LIVE''"
| "mode_state ModeBlocked = ''BLOCKED''"
| "mode_state ModeReconciling = ''RECONCILING''"
| "mode_state ModeRecovery = ''RECOVERING''"

definition PublishAtomicSnapshot :: "'d lib \<Rightarrow> time \<Rightarrow> 'd market_engine \<Rightarrow> 'd market_engine" where
  "PublishAtomicSnapshot L now m =
     m\<lparr>e_snapshot := \<lparr>ms_MarketID = e_MarketID m, ms_State = mode_state (e_mode m),
         ms_Sequence = b_Sequence (e_book m), ms_SnapshotAt = now,
         ms_Orders = (if e_mode m = ModeLive then Some (mmOrders L (e_book m)) else None)\<rparr>\<rparr>"

section \<open>Construction and modes\<close>

definition NewMarketEngine :: "time \<Rightarrow> ('d::linordered_idom) market_config \<Rightarrow> 'd market_engine" where
  "NewMarketEngine now config =
     \<lparr>e_MarketID = mc_MarketID config, e_book = NewOrderBook (mc_MarketID config), e_config = config,
      e_mode = ModeRecovery, e_blockedReason = None, e_processedEvents = {}, e_eventRing = empty_ring,
      e_lastAppliedOffset = -1, e_isFatalHalt = False, e_HaltCallback = False, e_haltCallbacks = 0,
      e_snapshot = \<lparr>ms_MarketID = mc_MarketID config, ms_State = ''RECOVERING'', ms_Sequence = 0,
                    ms_SnapshotAt = now, ms_Orders = None\<rparr>\<rparr>"

definition TriggerFatalHalt :: "'d market_engine \<Rightarrow> 'd market_engine" where
  "TriggerFatalHalt m =
     (if e_isFatalHalt m then m
      else m\<lparr>e_isFatalHalt := True,
             e_haltCallbacks := e_haltCallbacks m + (if e_HaltCallback m then 1 else 0)\<rparr>)"

definition SetLive :: "'d lib \<Rightarrow> time \<Rightarrow> 'd market_engine \<Rightarrow> 'd market_engine \<times> mode_error option" where
  "SetLive L now m =
     (if e_isFatalHalt m then (m, Some EngineHalted)
      else if e_mode m \<noteq> ModeRecovery then (m, Some (WrongMode (e_mode m)))
      else (PublishAtomicSnapshot L now (m\<lparr>e_mode := ModeLive\<rparr>), None))"

definition SetReconciling ::
  "'d lib \<Rightarrow> time \<Rightarrow> 'd market_engine \<Rightarrow> string \<Rightarrow> 'd market_engine \<times> mode_error option" where
  "SetReconciling L now m reason =
     (if e_isFatalHalt m then (m, Some EngineHalted)
      else
        (let m1 = m\<lparr>e_blockedReason := Some (if reason = [] then
               ''empty-book reset completed; awaiting reconciliation approval'' else reason)\<rparr> in
         if e_mode m1 = ModeReconciling then (m1, None)
         else if e_mode m1 \<noteq> ModeRecovery then (m1, Some (WrongMode (e_mode m1)))
         else (PublishAtomicSnapshot L now (m1\<lparr>e_mode := ModeReconciling\<rparr>), None)))"

definition ApproveReconciliation ::
  "'d lib \<Rightarrow> time \<Rightarrow> 'd market_engine \<Rightarrow> 'd market_engine \<times> mode_error option" where
  "ApproveReconciliation L now m =
     (if e_isFatalHalt m then (m, Some EngineHalted)
      else if e_mode m \<noteq> ModeReconciling then (m, Some (WrongMode (e_mode m)))
      else (PublishAtomicSnapshot L now (m\<lparr>e_mode := ModeLive, e_blockedReason := None\<rparr>), None))"

text \<open>\<open>err\<close> is the text of the error, \<^term>\<open>None\<close> for nil; the compare-and-swap loop ends when the mode is blocked.\<close>

definition SetBlocked :: "'d lib \<Rightarrow> time \<Rightarrow> 'd market_engine \<Rightarrow> string option \<Rightarrow> 'd market_engine" where
  "SetBlocked L now m err =
     PublishAtomicSnapshot L now
       (m\<lparr>e_blockedReason := Some (case err of None \<Rightarrow> ''market blocked due to unrecoverable state'' | Some e \<Rightarrow> e),
          e_mode := ModeBlocked\<rparr>)"

definition SetSequence :: "'d market_engine \<Rightarrow> 64 word \<Rightarrow> 'd market_engine" where
  "SetSequence m sq = m\<lparr>e_book := (e_book m)\<lparr>b_Sequence := sq\<rparr>\<rparr>"

definition SetLastAppliedOffset :: "'d market_engine \<Rightarrow> int \<Rightarrow> 'd market_engine" where
  "SetLastAppliedOffset m off = m\<lparr>e_lastAppliedOffset := off\<rparr>"

definition RestoreFromSnapshot ::
  "('d::linordered_idom) lib \<Rightarrow> checksum_fun \<Rightarrow> time \<Rightarrow> 'd market_engine \<Rightarrow> book_snapshot \<Rightarrow> string \<Rightarrow> int \<Rightarrow>
   ('d market_engine \<times> restore_error option) option" where
  "RestoreFromSnapshot L ck now m snap expectedChecksum checkpoint = do {
     (bk, err) \<leftarrow> Restore L ck now (e_book m) snap (e_MarketID m) (mc_Partition (e_config m)) checkpoint
                    expectedChecksum (mc_TickSize (e_config m)) (mc_LotSize (e_config m));
     (case err of
        Some e \<Rightarrow> Some (m\<lparr>e_book := bk\<rparr>, Some e)
      | None \<Rightarrow> Some (m\<lparr>e_book := bk\<lparr>b_Sequence := bs_Sequence snap\<rparr>,
                       e_lastAppliedOffset := bs_Offset snap\<rparr>, None))
   }"

end
