(* ===== verification/EventLoop.thy ===== *)
theory EventLoop
  imports Engine
begin

text \<open>
  The event loop (\<open>market/event_loop.go\<close>): \<open>applyEvent\<close> with its branches, \<open>Run\<close> as a
  machine whose steps are the iterations of its two loops, and the operations other
  goroutines perform on the engine between them.
\<close>

section \<open>Applying one event\<close>

definition position :: "'d input_event \<Rightarrow> kafka_position" where
  "position ev = \<lparr>kp_Topic = ie_Topic ev, kp_Partition = ie_Partition ev, kp_Offset = ie_Offset ev\<rparr>"

text \<open>A result for an event: the depth of the book after it, with or without a cancellation.\<close>

definition resultOf ::
  "('d::linordered_idom) lib \<Rightarrow> time \<Rightarrow> 'd order_book \<Rightarrow> 'd input_event \<Rightarrow> 'd fill list \<Rightarrow> 'd cancelled_order option \<Rightarrow>
   'd match_result option" where
  "resultOf L now bk ev fills cancel = do {
     depth \<leftarrow> GetDepth L now bk 20;
     Some \<lparr>mr_Fills = fills, mr_CancelResult = cancel, mr_DepthSnapshot = depth,
           mr_SourcePosition = position ev, mr_Snapshot = None, mr_BarrierReached = False,
           mr_BarrierOffset = 0\<rparr>
   }"

definition validTickAndLot :: "('d::linordered_idom) lib \<Rightarrow> 'd order_node \<Rightarrow> 'd market_config \<Rightarrow> bool" where
  "validTickAndLot L node config =
     (if n_OrderType node = OrderTypeLimit \<and> mc_TickSize config > 0 \<and>
         d_Mod L (n_Price node) (mc_TickSize config) \<noteq> 0 then False
      else if n_OrderType node = OrderTypeMarket \<and> n_Price node > 0 \<and> mc_TickSize config > 0 \<and>
         d_Mod L (n_Price node) (mc_TickSize config) \<noteq> 0 then False
      else if mc_LotSize config > 0 \<and> d_Mod L (n_RemainingQty node) (mc_LotSize config) \<noteq> 0 then False
      else True)"

text \<open>A blocked or reconciling market rejects every command (lines 219 to 253).\<close>

definition rejectEvent ::
  "('d::linordered_idom) lib \<Rightarrow> time \<Rightarrow> 'd market_engine \<Rightarrow> 'd input_event \<Rightarrow> 'd match_result option" where
  "rejectEvent L now m ev =
     (let (orderID, userID, qty) =
        (if ie_Type ev = EventOrderCreated then
           (case ie_OrderCreated ev of Some p \<Rightarrow> (oc_OrderID p, oc_UserID p, oc_Quantity p) | None \<Rightarrow> (0, 0, 0))
         else if ie_Type ev = EventOrderCancel then
           (case ie_OrderCancel ev of Some p \<Rightarrow> (ol_OrderID p, ol_UserID p, 0) | None \<Rightarrow> (0, 0, 0))
         else (0, 0, 0))
      in resultOf L now (e_book m) ev []
           (Some \<lparr>co_OrderID = orderID, co_UserID = userID, co_MarketID = e_MarketID m,
                  co_RemainingQuantity = qty,
                  co_Reason = (if e_mode m = ModeReconciling then ''market_reconciling'' else ''market_blocked''),
                  co_CancelStatus = Some InvalidRequest, co_CancelledAt = now,
                  co_SourceOffset = ie_Offset ev\<rparr>))"

definition minutes5 :: time where
  "minutes5 = 5 * 60 * 1000000000"

definition nodeTimestamp :: "time \<Rightarrow> time \<Rightarrow> time" where
  "nodeTimestamp now occurredAt =
     (if occurredAt = 0 then now else if occurredAt > now + minutes5 then now else occurredAt)"

definition nodeOf :: "time \<Rightarrow> 'd order_created_payload \<Rightarrow> 'd order_node" where
  "nodeOf now p =
     \<lparr>n_OrderID = oc_OrderID p, n_UserID = oc_UserID p, n_MarketID = oc_MarketID p,
      n_Side = oc_Side p, n_OrderType = oc_OrderType p, n_Price = oc_Price p,
      n_OriginalQty = oc_Quantity p, n_RemainingQty = oc_Quantity p,
      n_Timestamp = nodeTimestamp now (oc_OccurredAt p), n_ClientOrderID = oc_ClientOrderID p\<rparr>"

definition applyOrderCreated ::
  "('d::linordered_idom) lib \<Rightarrow> time \<Rightarrow> 'd market_engine \<Rightarrow> 'd input_event \<Rightarrow> 'd order_created_payload \<Rightarrow>
   ('d market_engine \<times> 'd match_result) option" where
  "applyOrderCreated L now m ev p =
     (if oc_MarketID p \<noteq> e_MarketID m then do {
        res \<leftarrow> resultOf L now (e_book m) ev []
          (Some \<lparr>co_OrderID = oc_OrderID p, co_UserID = oc_UserID p, co_MarketID = oc_MarketID p,
                 co_RemainingQuantity = oc_Quantity p, co_Reason = ''invalid_market_id'',
                 co_CancelStatus = Some InvalidRequest, co_CancelledAt = now, co_SourceOffset = ie_Offset ev\<rparr>);
        Some (m, res)
      }
      else
        let node = nodeOf now p in
        if b_OrderIndex (e_book m) (n_OrderID node) \<noteq> None then do {
          res \<leftarrow> resultOf L now (e_book m) ev [] None;
          Some (m, res)
        }
        else if \<not> validTickAndLot L node (e_config m) then do {
          res \<leftarrow> resultOf L now (e_book m) ev []
            (Some \<lparr>co_OrderID = n_OrderID node, co_UserID = n_UserID node, co_MarketID = n_MarketID node,
                   co_RemainingQuantity = n_OriginalQty node, co_Reason = ''invalid_order_parameters'',
                   co_CancelStatus = None, co_CancelledAt = now, co_SourceOffset = ie_Offset ev\<rparr>);
          Some (m, res)
        }
        else do {
          (bk, node', fills) \<leftarrow> Match L now (e_book m) node
             (if e_mode m = ModeLive then MatchLive else MatchRecovery) (ie_EventID ev);
          res \<leftarrow> resultOf L now bk ev fills
            (if n_OrderType node' = OrderTypeMarket \<and> n_RemainingQty node' > 0 then
               Some \<lparr>co_OrderID = n_OrderID node', co_UserID = n_UserID node', co_MarketID = n_MarketID node',
                     co_RemainingQuantity = n_RemainingQty node', co_Reason = ''ioc_expired'',
                     co_CancelStatus = None, co_CancelledAt = now, co_SourceOffset = ie_Offset ev\<rparr>
             else None);
          Some (m\<lparr>e_book := bk\<rparr>, res)
        })"

definition applyOrderCancel ::
  "('d::linordered_idom) lib \<Rightarrow> time \<Rightarrow> 'd market_engine \<Rightarrow> 'd input_event \<Rightarrow> order_cancel_payload \<Rightarrow>
   ('d market_engine \<times> 'd match_result) option" where
  "applyOrderCancel L now m ev p =
     (if ol_MarketID p \<noteq> e_MarketID m then do {
        res \<leftarrow> resultOf L now (e_book m) ev []
          (Some \<lparr>co_OrderID = ol_OrderID p, co_UserID = ol_UserID p, co_MarketID = ol_MarketID p,
                 co_RemainingQuantity = 0, co_Reason = ''invalid_market_id'',
                 co_CancelStatus = Some InvalidRequest, co_CancelledAt = now, co_SourceOffset = ie_Offset ev\<rparr>);
        Some (m, res)
      }
      else do {
        (bk, outcome) \<leftarrow> Cancel L (e_book m) (ol_OrderID p) (ol_UserID p);
        let bk' = (if o_Status outcome = RemovedFromBook then bk\<lparr>b_Sequence := b_Sequence bk + 1\<rparr> else bk);
        let reason = (if o_Status outcome = UserMismatch then ''user_mismatch'' else ''user_requested'');
        let outcome' = (if o_Status outcome = RemovedFromBook \<or> o_Status outcome = UserMismatch then outcome
                        else outcome\<lparr>o_UserID := ol_UserID p, o_MarketID := ol_MarketID p\<rparr>);
        res \<leftarrow> resultOf L now bk' ev []
          (Some \<lparr>co_OrderID = o_OrderID outcome', co_UserID = o_UserID outcome', co_MarketID = o_MarketID outcome',
                 co_RemainingQuantity = o_RemainingQuantity outcome', co_Reason = reason,
                 co_CancelStatus = Some (o_Status outcome'), co_CancelledAt = now,
                 co_SourceOffset = ie_Offset ev\<rparr>);
        Some (m\<lparr>e_book := bk'\<rparr>, res)
      })"

datatype apply_error = UnknownEventType

definition applyEvent ::
  "('d::linordered_idom) lib \<Rightarrow> time \<Rightarrow> 'd market_engine \<Rightarrow> 'd input_event \<Rightarrow>
   ('d market_engine \<times> (apply_error + 'd match_result)) option" where
  "applyEvent L now m ev =
     (if e_mode m = ModeBlocked \<or> e_mode m = ModeReconciling then
        map_option (\<lambda>res. (m, Inr res)) (rejectEvent L now m ev)
      else
        (case ie_Type ev of
           EventOrderCreated \<Rightarrow> do {
             p \<leftarrow> ie_OrderCreated ev;
             (m', res) \<leftarrow> applyOrderCreated L now m ev p;
             Some (m', Inr res)
           }
         | EventOrderCancel \<Rightarrow> do {
             p \<leftarrow> ie_OrderCancel ev;
             (m', res) \<leftarrow> applyOrderCancel L now m ev p;
             Some (m', Inr res)
           }
         | _ \<Rightarrow> Some (m, Inl UnknownEventType)))"

section \<open>The loop\<close>

datatype run_phase = Running | Draining | Stopped

record 'd run_state =
  rs_engine :: "'d market_engine"
  rs_phase :: run_phase
  rs_out :: "'d match_result list"
  rs_closed :: bool
  rs_lastSnapshotTime :: time
  rs_eventCount :: nat

definition startRun :: "time \<Rightarrow> 'd market_engine \<Rightarrow> 'd run_state" where
  "startRun now m = \<lparr>rs_engine = m, rs_phase = Running, rs_out = [], rs_closed = False,
                     rs_lastSnapshotTime = now, rs_eventCount = 0\<rparr>"

definition snapshotInterval :: "'d market_config \<Rightarrow> int" where
  "snapshotInterval config = (if mc_SnapshotInterval config \<le> 0 then 10000 else mc_SnapshotInterval config)"

definition snapshotDuration :: "'d market_config \<Rightarrow> int" where
  "snapshotDuration config =
     (if mc_SnapshotDuration config \<le> 0 then 60 * 1000000000 else mc_SnapshotDuration config)"

definition sendResult :: "'d run_state \<Rightarrow> 'd match_result \<Rightarrow> 'd run_state" where
  "sendResult rs res = rs\<lparr>rs_out := rs_out rs @ [res]\<rparr>"

definition closeAndStop :: "'d run_state \<Rightarrow> 'd run_state" where
  "closeAndStop rs = rs\<lparr>rs_phase := Stopped, rs_closed := True\<rparr>"

text \<open>The deduplication caching after a successful mutation (lines 112 to 118).\<close>

definition rememberEvent :: "'d market_engine \<Rightarrow> uuid \<Rightarrow> 'd market_engine" where
  "rememberEvent m eid =
     (if eid \<noteq> 0 then
        (let (r, evicted) = ring_add (e_eventRing m) eid in
         m\<lparr>e_eventRing := r,
           e_processedEvents := insert eid (if evicted \<noteq> 0 then e_processedEvents m - {evicted}
                                            else e_processedEvents m)\<rparr>)
      else m)"

definition barrierResult :: "'d market_engine \<Rightarrow> 'd input_event \<Rightarrow> 'd match_result" where
  "barrierResult m ev =
     \<lparr>mr_Fills = [], mr_CancelResult = None,
      mr_DepthSnapshot = \<lparr>ds_MarketID = e_MarketID m, ds_Sequence = 0, ds_Bids = [], ds_Asks = [], ds_SnapshotAt = 0\<rparr>,
      mr_SourcePosition = position ev, mr_Snapshot = None, mr_BarrierReached = True,
      mr_BarrierOffset = ie_Offset ev\<rparr>"

definition triggerFinalSnapshot :: "('d::linordered_idom) lib \<Rightarrow> time \<Rightarrow> 'd run_state \<Rightarrow> 'd run_state option" where
  "triggerFinalSnapshot L now rs =
     (let m = rs_engine rs in
      if e_lastAppliedOffset m \<ge> 0 then do {
        depth \<leftarrow> GetDepth L now (e_book m) 20;
        Some (sendResult rs
          \<lparr>mr_Fills = [], mr_CancelResult = None, mr_DepthSnapshot = depth,
           mr_SourcePosition = \<lparr>kp_Topic = ''orders.commands'', kp_Partition = mc_Partition (e_config m),
                                kp_Offset = e_lastAppliedOffset m\<rparr>,
           mr_Snapshot = Some (Serialize L (e_book m) (mc_Partition (e_config m)) (e_lastAppliedOffset m)),
           mr_BarrierReached = False, mr_BarrierOffset = 0\<rparr>)
      }
      else Some rs)"

text \<open>The snapshot condition and its effect on a result (lines 123 to 135).\<close>

definition attachSnapshot ::
  "('d::linordered_idom) lib \<Rightarrow> time \<Rightarrow> 'd input_event \<Rightarrow> 'd run_state \<Rightarrow> 'd match_result \<Rightarrow>
   'd run_state \<times> 'd match_result" where
  "attachSnapshot L now ev rs res =
     (let m = rs_engine rs; n = rs_eventCount rs + 1 in
      if b_Sequence (e_book m) = 1 \<or> now - rs_lastSnapshotTime rs \<ge> snapshotDuration (e_config m) \<or>
         int n \<ge> snapshotInterval (e_config m)
      then (rs\<lparr>rs_lastSnapshotTime := now, rs_eventCount := 0\<rparr>,
            res\<lparr>mr_Snapshot := Some (Serialize L (e_book m) (mc_Partition (e_config m)) (ie_Offset ev))\<rparr>)
      else (rs\<lparr>rs_eventCount := n\<rparr>, res))"

text \<open>One event received by the main loop (lines 45 to 141).\<close>

definition runEvent ::
  "('d::linordered_idom) lib \<Rightarrow> time \<Rightarrow> 'd run_state \<Rightarrow> 'd input_event \<Rightarrow> 'd run_state option" where
  "runEvent L now rs ev =
     (let m = rs_engine rs in
      if e_isFatalHalt m then Some (closeAndStop rs)
      else if ie_Type ev = EventRecoveryBarrier then Some (sendResult rs (barrierResult m ev))
      else if ie_Offset ev \<le> e_lastAppliedOffset m then
        map_option (sendResult rs) (resultOf L now (e_book m) ev [] None)
      else if ie_EventID ev \<noteq> 0 \<and> ie_EventID ev \<in> e_processedEvents m then
        map_option (sendResult (rs\<lparr>rs_engine := m\<lparr>e_lastAppliedOffset := ie_Offset ev\<rparr>\<rparr>))
          (resultOf L now (e_book m) ev [] None)
      else do {
        (m1, r) \<leftarrow> applyEvent L now m ev;
        (case r of
           Inl e \<Rightarrow> Some (rs\<lparr>rs_engine := TriggerFatalHalt m1, rs_phase := Stopped\<rparr>)
         | Inr res \<Rightarrow>
             let m2 = (rememberEvent m1 (ie_EventID ev))\<lparr>e_lastAppliedOffset := ie_Offset ev\<rparr>;
                 (rs1, res1) = attachSnapshot L now ev (rs\<lparr>rs_engine := m2\<rparr>) res;
                 rs2 = (if e_mode m2 = ModeLive
                        then rs1\<lparr>rs_engine := PublishAtomicSnapshot L now m2\<rparr> else rs1)
             in Some (sendResult rs2 res1))
      })"

text \<open>One event of the graceful drain (lines 154 to 187).\<close>

definition drainEvent ::
  "('d::linordered_idom) lib \<Rightarrow> time \<Rightarrow> 'd run_state \<Rightarrow> 'd input_event \<Rightarrow> 'd run_state option" where
  "drainEvent L now rs ev =
     (let m = rs_engine rs in
      if ie_Offset ev \<le> e_lastAppliedOffset m then Some rs
      else if ie_EventID ev \<noteq> 0 \<and> ie_EventID ev \<in> e_processedEvents m then
        Some (rs\<lparr>rs_engine := m\<lparr>e_lastAppliedOffset := ie_Offset ev\<rparr>\<rparr>)
      else do {
        (m1, r) \<leftarrow> applyEvent L now m ev;
        (case r of
           Inl e \<Rightarrow> Some (rs\<lparr>rs_engine := TriggerFatalHalt m1, rs_phase := Stopped\<rparr>)
         | Inr res \<Rightarrow>
             Some (sendResult
               (rs\<lparr>rs_engine := (rememberEvent m1 (ie_EventID ev))\<lparr>e_lastAppliedOffset := ie_Offset ev\<rparr>\<rparr>) res))
      })"

text \<open>
  \<open>Run\<close> as a step relation; \<open>halted\<close> is the stop without a drain at the loop head, on a
  closed queue and on a cancelled context. The scheduler chooses what a \<open>select\<close> receives; the other
  goroutines may change the mode or halt the engine between two iterations.
\<close>

inductive run_step :: "('d::linordered_idom) lib \<Rightarrow> 'd run_state \<Rightarrow> 'd run_state \<Rightarrow> bool" for L where
  halted: "rs_phase rs = Running \<Longrightarrow> e_isFatalHalt (rs_engine rs) \<Longrightarrow> run_step L rs (closeAndStop rs)"
| event: "rs_phase rs = Running \<Longrightarrow> runEvent L now rs ev = Some rs' \<Longrightarrow> run_step L rs rs'"
| closed: "rs_phase rs = Running \<Longrightarrow> \<not> e_isFatalHalt (rs_engine rs) \<Longrightarrow>
    triggerFinalSnapshot L now rs = Some rs' \<Longrightarrow> run_step L rs (closeAndStop rs')"
| ctx_done: "rs_phase rs = Running \<Longrightarrow> \<not> e_isFatalHalt (rs_engine rs) \<Longrightarrow>
    run_step L rs (rs\<lparr>rs_phase := Draining\<rparr>)"
| drain: "rs_phase rs = Draining \<Longrightarrow> drainEvent L now rs ev = Some rs' \<Longrightarrow> run_step L rs rs'"
| drained: "rs_phase rs = Draining \<Longrightarrow> triggerFinalSnapshot L now rs = Some rs' \<Longrightarrow>
    run_step L rs (closeAndStop rs')"
| set_live: "SetLive L now (rs_engine rs) = (m, err) \<Longrightarrow> run_step L rs (rs\<lparr>rs_engine := m\<rparr>)"
| set_reconciling: "SetReconciling L now (rs_engine rs) reason = (m, err) \<Longrightarrow> run_step L rs (rs\<lparr>rs_engine := m\<rparr>)"
| approve: "ApproveReconciliation L now (rs_engine rs) = (m, err) \<Longrightarrow> run_step L rs (rs\<lparr>rs_engine := m\<rparr>)"
| set_blocked: "run_step L rs (rs\<lparr>rs_engine := SetBlocked L now (rs_engine rs) reason\<rparr>)"
| halt: "run_step L rs (rs\<lparr>rs_engine := TriggerFatalHalt (rs_engine rs)\<rparr>)"

abbreviation run_steps :: "('d::linordered_idom) lib \<Rightarrow> 'd run_state \<Rightarrow> 'd run_state \<Rightarrow> bool" where
  "run_steps L \<equiv> (run_step L)\<^sup>*\<^sup>*"

end
