(* ===== verification/MatchSpec.thy ===== *)
theory MatchSpec
  imports Matcher BookView
begin

text \<open>
  The specification of matching, on price-time lists: \<open>sweep\<close> lets an incoming order
  consume the resting orders of the other side from the front while their prices cross.
  The lemmas say what such a sweep does: price-time priority, conservation of quantity,
  execution at the makers' prices within the taker's limit, and that it stops only when
  the taker is filled, the side is empty or the prices no longer cross.
\<close>

fun sweep ::
  "('d::linordered_idom) order_node \<Rightarrow> 'd order_node list \<Rightarrow>
   'd order_node \<times> 'd order_node list \<times> ('d order_node \<times> 'd) list" where
  "sweep inc [] = (inc, [], [])"
| "sweep inc (m # ms) =
     (if n_RemainingQty inc > 0 \<and> crossable inc m then
        if n_RemainingQty m \<le> n_RemainingQty inc then
          (let (inc', ms', ts) = sweep (inc\<lparr>n_RemainingQty := n_RemainingQty inc - n_RemainingQty m\<rparr>) ms
           in (inc', ms', (m, n_RemainingQty m) # ts))
        else (inc\<lparr>n_RemainingQty := 0\<rparr>,
              m\<lparr>n_RemainingQty := n_RemainingQty m - n_RemainingQty inc\<rparr> # ms,
              [(m, n_RemainingQty inc)])
      else (inc, m # ms, []))"

fun fills_of ::
  "'d lib \<Rightarrow> time \<Rightarrow> uuid \<Rightarrow> string \<Rightarrow> 64 word \<Rightarrow> nat \<Rightarrow> 'd order_node \<Rightarrow> ('d order_node \<times> 'd) list \<Rightarrow> 'd fill list" where
  "fills_of L now ev mkt sq k inc [] = []"
| "fills_of L now ev mkt sq k inc ((m, q) # ts) =
     makeFill L now ev mkt (sq + 1) k inc m q # fills_of L now ev mkt (sq + 1) (k + 1) inc ts"

section \<open>The fields matching leaves alone\<close>

lemma crossable_rem [simp]:
  "crossable (inc\<lparr>n_RemainingQty := q\<rparr>) m = crossable inc m"
  "crossable inc (m\<lparr>n_RemainingQty := q\<rparr>) = crossable inc m"
  by (simp_all add: crossable_def)

lemma makeFill_rem [simp]:
  "makeFill L now ev mkt sq k (inc\<lparr>n_RemainingQty := r\<rparr>) m q = makeFill L now ev mkt sq k inc m q"
  by (simp add: makeFill_def buyOrderOf_def sellOrderOf_def buyUserOf_def sellUserOf_def)

lemma fills_of_rem [simp]:
  "fills_of L now ev mkt sq k (inc\<lparr>n_RemainingQty := r\<rparr>) ts = fills_of L now ev mkt sq k inc ts"
  by (induction ts arbitrary: sq k) auto

lemma length_fills_of [simp]: "length (fills_of L now ev mkt sq k inc ts) = length ts"
  by (induction ts arbitrary: sq k) auto

lemma sweep_taker:
  "sweep inc ms = (inc', ms', ts) \<Longrightarrow> inc' = inc\<lparr>n_RemainingQty := n_RemainingQty inc'\<rparr>"
proof (induction inc ms arbitrary: inc' ms' ts rule: sweep.induct)
  case (2 inc m ms)
  show ?case
  proof (cases "n_RemainingQty inc > 0 \<and> crossable inc m \<and> n_RemainingQty m \<le> n_RemainingQty inc")
    case True
    let ?inc = "inc\<lparr>n_RemainingQty := n_RemainingQty inc - n_RemainingQty m\<rparr>"
    obtain i' m' t' where s: "sweep ?inc ms = (i', m', t')" by (metis prod_cases3)
    from "2.IH"[OF _ _ s] True have "i' = ?inc\<lparr>n_RemainingQty := n_RemainingQty i'\<rparr>" by blast
    then have "i' = inc\<lparr>n_RemainingQty := n_RemainingQty i'\<rparr>" by simp
    with True s "2.prems" show ?thesis by simp
  next
    case False
    with "2.prems" show ?thesis by (auto split: if_splits)
  qed
qed simp

section \<open>What a sweep does\<close>

text \<open>The premises under which the lemmas hold: resting orders have a positive quantity.\<close>

definition positive :: "('d::linordered_idom) order_node list \<Rightarrow> bool" where
  "positive ms \<longleftrightarrow> (\<forall>m\<in>set ms. 0 < n_RemainingQty m)"

lemma positive_simps [simp]:
  "positive []" "positive (m # ms) \<longleftrightarrow> 0 < n_RemainingQty m \<and> positive ms"
  by (auto simp: positive_def)

text \<open>Induction over a sweep by the three things one step can do.\<close>

lemma sweep_cases [consumes 1]:
  assumes "sweep inc (m # ms) = (inc', ms', ts)"
  obtains (stop) "\<not> (n_RemainingQty inc > 0 \<and> crossable inc m)" "inc' = inc" "ms' = m # ms" "ts = []"
  | (full) ts' where "n_RemainingQty inc > 0" "crossable inc m" "n_RemainingQty m \<le> n_RemainingQty inc"
      "sweep (inc\<lparr>n_RemainingQty := n_RemainingQty inc - n_RemainingQty m\<rparr>) ms = (inc', ms', ts')"
      "ts = (m, n_RemainingQty m) # ts'"
  | (part) "n_RemainingQty inc > 0" "crossable inc m" "n_RemainingQty inc < n_RemainingQty m"
      "inc' = inc\<lparr>n_RemainingQty := 0\<rparr>"
      "ms' = m\<lparr>n_RemainingQty := n_RemainingQty m - n_RemainingQty inc\<rparr> # ms"
      "ts = [(m, n_RemainingQty inc)]"
proof -
  let ?inc = "inc\<lparr>n_RemainingQty := n_RemainingQty inc - n_RemainingQty m\<rparr>"
  obtain i' m' t' where s: "sweep ?inc ms = (i', m', t')" by (metis prod_cases3)
  consider "\<not> (n_RemainingQty inc > 0 \<and> crossable inc m)"
    | "n_RemainingQty inc > 0" "crossable inc m" "n_RemainingQty m \<le> n_RemainingQty inc"
    | "n_RemainingQty inc > 0" "crossable inc m" "n_RemainingQty inc < n_RemainingQty m"
    using not_le by blast
  then show thesis
  proof cases
    case 1
    with assms show thesis by (intro stop) auto
  next
    case 2
    with assms s show thesis by (intro full[of t']) simp_all
  next
    case 3
    with assms show thesis by (intro part) simp_all
  qed
qed

lemma sweep_rem_nonneg:
  "sweep inc ms = (inc', ms', ts) \<Longrightarrow> 0 \<le> n_RemainingQty inc \<Longrightarrow> 0 \<le> n_RemainingQty inc'"
proof (induction ms arbitrary: inc ts)
  case (Cons m ms)
  from Cons.prems(1) show ?case
    by (cases rule: sweep_cases) (use Cons in \<open>auto\<close>)
qed simp

lemma sweep_conserves:
  "sweep inc ms = (inc', ms', ts) \<Longrightarrow>
   n_RemainingQty inc = n_RemainingQty inc' + sum_list (map snd ts) \<and>
   sum_list (map n_RemainingQty ms) = sum_list (map n_RemainingQty ms') + sum_list (map snd ts)"
proof (induction ms arbitrary: inc ts)
  case (Cons m ms)
  from Cons.prems show ?case
  proof (cases rule: sweep_cases)
    case (full ts')
    from Cons.IH[OF full(4)] full(5) show ?thesis by (simp add: algebra_simps)
  qed (auto simp: algebra_simps)
qed simp

lemma sweep_trades:
  "sweep inc ms = (inc', ms', ts) \<Longrightarrow> positive ms \<Longrightarrow>
   \<forall>(m, q)\<in>set ts. crossable inc m \<and> 0 < q \<and> q \<le> n_RemainingQty m"
proof (induction ms arbitrary: inc ts)
  case (Cons m ms)
  from Cons.prems(1) show ?case
  proof (cases rule: sweep_cases)
    case (full ts')
    from Cons.IH[OF full(4)] Cons.prems(2) full show ?thesis by auto
  qed auto
qed simp

text \<open>Priority: the makers are the front of the list, in order, and all but the last are emptied.\<close>

lemma sweep_priority:
  "sweep inc ms = (inc', ms', ts) \<Longrightarrow>
   map fst ts = take (length ts) ms \<and>
   (\<forall>(m, q)\<in>set (butlast ts). q = n_RemainingQty m) \<and>
   (ms' = drop (length ts) ms \<or>
    (\<exists>m q. ts \<noteq> [] \<and> last ts = (m, q) \<and> n_RemainingQty inc' = 0 \<and> q < n_RemainingQty m \<and>
       ms' = m\<lparr>n_RemainingQty := n_RemainingQty m - q\<rparr> # drop (length ts) ms))"
proof (induction ms arbitrary: inc ts)
  case (Cons m ms)
  from Cons.prems show ?case
  proof (cases rule: sweep_cases)
    case (full ts')
    from Cons.IH[OF full(4)] full(5) show ?thesis by (cases "ts' = []") auto
  qed auto
qed simp

lemma sweep_stops:
  "sweep inc ms = (inc', ms', ts) \<Longrightarrow> 0 \<le> n_RemainingQty inc \<Longrightarrow>
   n_RemainingQty inc' = 0 \<or> ms' = [] \<or> \<not> crossable inc (hd ms')"
proof (induction ms arbitrary: inc ts)
  case (Cons m ms)
  from Cons.prems(1) show ?case
  proof (cases rule: sweep_cases)
    case (full ts')
    from Cons.IH[OF full(4)] full(3) show ?thesis by simp
  qed (use Cons.prems(2) in auto)
qed simp

lemma sweep_ids:
  "sweep inc ms = (inc', ms', ts) \<Longrightarrow> n_OrderID ` set ms' \<subseteq> n_OrderID ` set ms"
proof (induction ms arbitrary: inc ts)
  case (Cons m ms)
  from Cons.prems show ?case
    by (cases rule: sweep_cases) (use Cons.IH in \<open>auto\<close>)
qed simp

lemma sweep_prices:
  "sweep inc ms = (inc', ms', ts) \<Longrightarrow> n_Price ` set ms' \<subseteq> n_Price ` set ms"
proof (induction ms arbitrary: inc ts)
  case (Cons m ms)
  from Cons.prems show ?case
    by (cases rule: sweep_cases) (use Cons.IH in \<open>auto\<close>)
qed simp

end
