(* ===== verification/MatchRefinement.thy ===== *)
theory MatchRefinement
  imports MatchSpec
begin

text \<open>
  The matching loop on the book implements \<open>sweep\<close> on the price-time list of the other
  side: it always returns, keeps the book's invariant, leaves the taker's own side alone,
  numbers the fills by the book's sequence, and rests the remainder of a limit order
  behind the orders at the same or a better price. A book that is not crossed stays so.
\<close>

section \<open>One iteration\<close>

definition same_but :: "('d::linordered_idom) lib \<Rightarrow> side_type \<Rightarrow> nat \<Rightarrow> 'd order_book \<Rightarrow> 'd order_book \<Rightarrow> bool" where
  "same_but L sp n bk bk' \<longleftrightarrow>
     b_MarketID bk' = b_MarketID bk \<and> b_Sequence bk' = b_Sequence bk + of_nat n \<and>
     (\<forall>sp'. sp' \<noteq> sp \<longrightarrow> resting L bk' sp' = resting L bk sp') \<and>
     dom (b_OrderIndex bk') \<subseteq> dom (b_OrderIndex bk)"

lemma same_but_refl: "same_but L sp 0 bk bk"
  by (simp add: same_but_def)

lemma same_but_trans:
  "same_but L sp m a b \<Longrightarrow> same_but L sp n b c \<Longrightarrow> same_but L sp (m + n) a c"
  by (fastforce simp: same_but_def)

lemma bump_ok [simp]:
  "book_ok L (bk\<lparr>b_Sequence := sq\<rparr>) = book_ok L bk"
  "resting L (bk\<lparr>b_Sequence := sq\<rparr>) sp = resting L bk sp"
  by (simp_all add: book_ok_def resting_def)

lemma other_kept_bump:
  assumes "other_kept L sp (bk\<lparr>b_Sequence := b_Sequence bk + 1\<rparr>) bk'"
    and "dom (b_OrderIndex bk') \<subseteq> dom (b_OrderIndex bk)"
  shows "same_but L sp 1 bk bk'"
  using assms by (simp add: other_kept_def same_but_def)

text \<open>The front of the list is indexed, so the two fill operations apply to it.\<close>

lemma resting_front:
  assumes "book_ok L bk" "resting L bk sp = m # ms"
  shows "b_OrderIndex bk (n_OrderID m) = Some m" "n_Side m = sp" "0 < n_RemainingQty m"
proof -
  show m: "b_OrderIndex bk (n_OrderID m) = Some m" "n_Side m = sp"
    using set_resting[OF assms(1), of m sp] assms(2) by auto
  show "0 < n_RemainingQty m" using index_okD(2)[OF book_okD(1)[OF assms(1)] m(1)] .
qed

lemma resting_positive: "book_ok L bk \<Longrightarrow> positive (resting L bk sp)"
  unfolding positive_def using set_resting index_okD(2)[OF book_okD(1)] by blast

lemma full_step:
  assumes L: "lib_ok L" and ok: "book_ok L bk" and ms: "resting L bk sp = m # ms"
  defines "bk1 \<equiv> bk\<lparr>b_Sequence := b_Sequence bk + 1\<rparr>"
  shows "\<exists>bk'. FullFill L bk1 sp m = Some bk' \<and> book_ok L bk' \<and> resting L bk' sp = ms \<and>
           same_but L sp 1 bk bk'"
proof -
  note front = resting_front[OF ok ms]
  have "book_ok L bk1" "b_OrderIndex bk1 (n_OrderID m) = Some m"
    using ok front by (simp_all add: bk1_def)
  from removeResting_correct[OF L this front(2)] obtain bk' where bk':
    "removeResting L bk1 sp m = Some bk'" "book_ok L bk'"
    "resting L bk' sp = filter (\<lambda>k. n_OrderID k \<noteq> n_OrderID m) (resting L bk1 sp)"
    "other_kept L sp bk1 bk'" "b_OrderIndex bk' = (b_OrderIndex bk1)(n_OrderID m := None)" by blast
  have "resting L bk' sp = ms"
    unfolding bk'(3) using ms filter_head_id[of m ms] resting_sorted(1)[OF ok, of sp]
    by (simp add: bk1_def)
  moreover have "same_but L sp 1 bk bk'"
    using bk'(4,5) by (intro other_kept_bump) (auto simp: bk1_def)
  ultimately show ?thesis using bk'(1,2) by (auto simp: FullFill_def)
qed

lemma part_step:
  assumes L: "lib_ok L" and ok: "book_ok L bk" and ms: "resting L bk sp = m # ms"
    and q: "0 < q" "q < n_RemainingQty m"
  defines "bk1 \<equiv> bk\<lparr>b_Sequence := b_Sequence bk + 1\<rparr>"
  shows "\<exists>bk'. PartialFill L bk1 sp m q = Some bk' \<and> book_ok L bk' \<and>
           resting L bk' sp = m\<lparr>n_RemainingQty := n_RemainingQty m - q\<rparr> # ms \<and>
           same_but L sp 1 bk bk'"
proof -
  note front = resting_front[OF ok ms]
  have "book_ok L bk1" "b_OrderIndex bk1 (n_OrderID m) = Some m"
    using ok front by (simp_all add: bk1_def)
  from PartialFill_correct[OF L this front(2) q] obtain bk' where bk':
    "PartialFill L bk1 sp m q = Some bk'" "book_ok L bk'"
    "resting L bk' sp = map (reduce_order (n_OrderID m) q) (resting L bk1 sp)"
    "other_kept L sp bk1 bk'"
    "b_OrderIndex bk' = (b_OrderIndex bk1)(n_OrderID m \<mapsto> m\<lparr>n_RemainingQty := n_RemainingQty m - q\<rparr>)"
    by blast
  have "resting L bk' sp = m\<lparr>n_RemainingQty := n_RemainingQty m - q\<rparr> # ms"
    unfolding bk'(3) using ms reduce_head_id[of m ms] resting_sorted(1)[OF ok, of sp]
    by (simp add: bk1_def)
  moreover have "same_but L sp 1 bk bk'"
    using bk'(4,5) front(1) by (intro other_kept_bump) (auto simp: bk1_def)
  ultimately show ?thesis using bk'(1,2) by auto
qed

section \<open>The loop\<close>

lemma match_loop_stop:
  assumes ok: "book_ok L bk" and ms: "resting L bk (opposite (n_Side inc)) = ms"
    and stop: "n_RemainingQty inc \<le> 0 \<or> ms = [] \<or> \<not> crossable inc (hd ms)"
  shows "match_loop L now ev bk inc k fs = Some (bk, inc, fs)"
  using ExecuteBest_correct[OF ok, of "opposite (n_Side inc)"] ms stop
  by (subst match_loop.simps) (cases ms; auto)

lemma match_loop_sweep:
  assumes L: "lib_ok L"
  shows "book_ok L bk \<Longrightarrow> resting L bk (opposite (n_Side inc)) = ms \<Longrightarrow>
    sweep inc ms = (inc', ms', ts) \<Longrightarrow>
    \<exists>bk'. (\<forall>now ev k fs. match_loop L now ev bk inc k fs =
            Some (bk', inc', fs @ fills_of L now ev (b_MarketID bk) (b_Sequence bk) k inc ts)) \<and>
          book_ok L bk' \<and> resting L bk' (opposite (n_Side inc)) = ms' \<and>
          same_but L (opposite (n_Side inc)) (length ts) bk bk'"
proof (induction ms arbitrary: bk inc ts)
  case Nil
  then show ?case using match_loop_stop[OF Nil.prems(1,2)] by (simp add: same_but_refl)
next
  case (Cons m ms)
  let ?sp = "opposite (n_Side inc)" and ?bk1 = "bk\<lparr>b_Sequence := b_Sequence bk + 1\<rparr>"
  have best: "ExecuteBest L bk ?sp = Some m"
    using ExecuteBest_correct[OF Cons.prems(1)] Cons.prems(2) by simp
  from Cons.prems(3) show ?case
  proof (cases rule: sweep_cases)
    case stop
    then show ?thesis using match_loop_stop[OF Cons.prems(1,2)] Cons.prems(2)
      by (auto simp: same_but_refl Cons.prems(1))
  next
    case (full ts')
    obtain bk' where bk': "FullFill L ?bk1 ?sp m = Some bk'" "book_ok L bk'"
      "resting L bk' ?sp = ms" "same_but L ?sp 1 bk bk'"
      using full_step[OF L Cons.prems(1,2)] by blast
    let ?inc = "inc\<lparr>n_RemainingQty := n_RemainingQty inc - n_RemainingQty m\<rparr>"
    have sd: "opposite (n_Side ?inc) = ?sp" by simp
    from Cons.IH[OF bk'(2) _ full(4)] bk'(3)
    obtain bk2 where bk2: "\<And>now ev k fs. match_loop L now ev bk' ?inc k fs =
        Some (bk2, inc', fs @ fills_of L now ev (b_MarketID bk') (b_Sequence bk') k ?inc ts')"
      "book_ok L bk2" "resting L bk2 ?sp = ms'" "same_but L ?sp (length ts') bk' bk2"
      unfolding sd by blast
    have "match_loop L now ev bk inc k fs = match_loop L now ev bk' ?inc (k + 1)
        (fs @ [makeFill L now ev (b_MarketID bk) (b_Sequence bk + 1) k inc m (n_RemainingQty m)])" for now ev k fs
      using full(1-3) best bk'(1) by (subst match_loop.simps) (simp add: Let_def min_absorb2)
    moreover have "same_but L ?sp (length ts) bk bk2"
      using same_but_trans[OF bk'(4) bk2(4)] full(5) by simp
    ultimately show ?thesis
      using bk2 bk'(4) full(5) by (intro exI[of _ bk2]) (simp add: bk2(1) same_but_def)
  next
    case part
    obtain bk' where bk': "PartialFill L ?bk1 ?sp m (n_RemainingQty inc) = Some bk'" "book_ok L bk'"
      "resting L bk' ?sp = ms'" "same_but L ?sp 1 bk bk'"
      using part_step[OF L Cons.prems(1,2) part(1,3)] part(5) by blast
    have "match_loop L now ev bk inc k fs =
        match_loop L now ev bk' inc' (k + 1)
          (fs @ [makeFill L now ev (b_MarketID bk) (b_Sequence bk + 1) k inc m (n_RemainingQty inc)])" for now ev k fs
      using part(1-4) best bk'(1) by (subst match_loop.simps) (simp add: Let_def min_absorb1)
    then have "match_loop L now ev bk inc k fs = Some (bk', inc',
          fs @ [makeFill L now ev (b_MarketID bk) (b_Sequence bk + 1) k inc m (n_RemainingQty inc)])" for now ev k fs
      using match_loop_stop[OF bk'(2) refl] part(4) by simp
    then show ?thesis using bk' part(6) by auto
  qed
qed

section \<open>The whole call\<close>

text \<open>What the engine checks before it hands an order to \<open>Match\<close>.\<close>

definition incoming_ok :: "('d::linordered_idom) order_book \<Rightarrow> 'd order_node \<Rightarrow> bool" where
  "incoming_ok bk inc \<longleftrightarrow>
     b_OrderIndex bk (n_OrderID inc) = None \<and>
     0 < n_RemainingQty inc \<and> n_RemainingQty inc \<le> n_OriginalQty inc"

definition rests :: "('d::linordered_idom) order_node \<Rightarrow> bool" where
  "rests inc \<longleftrightarrow> n_RemainingQty inc > 0 \<and> n_OrderType inc = OrderTypeLimit"

lemma sweep_rem_le:
  assumes "sweep inc ms = (inc', ms', ts)" "positive ms" "0 \<le> n_RemainingQty inc"
  shows "n_RemainingQty inc' \<le> n_RemainingQty inc"
proof -
  have "0 \<le> sum_list (map snd ts)"
    using sweep_trades[OF assms(1,2)] by (intro sum_list_nonneg) auto
  with sweep_conserves[OF assms(1)] show ?thesis by simp
qed

lemma Match_sweep:
  assumes L: "lib_ok L" and ok: "book_ok L bk" and inc: "incoming_ok bk inc"
    and sw: "sweep inc (resting L bk (opposite (n_Side inc))) = (inc', ms', ts)"
  shows "\<exists>bk'. (\<forall>now mode ev. Match L now bk inc mode ev =
      Some (bk', inc', if mode = MatchRecovery then []
                       else fills_of L now ev (b_MarketID bk) (b_Sequence bk) 0 inc ts)) \<and>
    book_ok L bk' \<and> b_MarketID bk' = b_MarketID bk \<and>
    resting L bk' (opposite (n_Side inc)) = ms' \<and>
    resting L bk' (n_Side inc) = (if rests inc' then place (n_Side inc) inc' (resting L bk (n_Side inc))
                                  else resting L bk (n_Side inc)) \<and>
    b_Sequence bk' = b_Sequence bk + of_nat (length ts + (if rests inc' then 1 else 0))"
proof -
  let ?sp = "n_Side inc" and ?op = "opposite (n_Side inc)"
  have ne: "?sp \<noteq> ?op" by (cases ?sp) auto
  from match_loop_sweep[OF L ok refl sw] obtain bk1 where
    "\<And>now ev k fs. match_loop L now ev bk inc k fs =
       Some (bk1, inc', fs @ fills_of L now ev (b_MarketID bk) (b_Sequence bk) k inc ts)"
    and bk1': "book_ok L bk1" "resting L bk1 ?op = ms'" "same_but L ?op (length ts) bk bk1" by blast
  then have "\<And>now ev. match_loop L now ev bk inc 0 [] =
       Some (bk1, inc', fills_of L now ev (b_MarketID bk) (b_Sequence bk) 0 inc ts)" by simp
  note bk1 = this bk1'
  have own: "resting L bk1 ?sp = resting L bk ?sp" using bk1(4) ne by (simp add: same_but_def)
  show ?thesis
  proof (cases "rests inc'")
    case False
    with bk1 own show ?thesis by (auto simp: Match_def rests_def same_but_def)
  next
    case True
    have keep: "inc' = inc\<lparr>n_RemainingQty := n_RemainingQty inc'\<rparr>" using sweep_taker[OF sw] .
    have fields: "n_OrderID inc' = n_OrderID inc" "n_Side inc' = ?sp" "n_OriginalQty inc' = n_OriginalQty inc"
      by (subst keep, simp)+
    let ?bk1 = "bk1\<lparr>b_Sequence := b_Sequence bk1 + 1\<rparr>"
    have new: "b_OrderIndex ?bk1 (n_OrderID inc') = None"
      using inc bk1(4) by (auto simp: incoming_ok_def same_but_def fields)
    have qty: "0 < n_RemainingQty inc'" "n_RemainingQty inc' \<le> n_OriginalQty inc'"
      using True sweep_rem_le[OF sw resting_positive[OF ok]] inc
      by (auto simp: rests_def incoming_ok_def fields)
    have "book_ok L ?bk1" using bk1(2) by simp
    from Insert_correct[OF L this fields(2) new qty] True
    obtain bk' where bk': "Insert L ?bk1 inc' = Some bk'" "book_ok L bk'"
      "resting L bk' ?sp = place ?sp inc' (resting L ?bk1 ?sp)" "other_kept L ?sp ?bk1 bk'"
      by (auto simp: rests_def)
    with True bk1 own ne show ?thesis
      by (auto simp: Match_def rests_def same_but_def other_kept_def)
  qed
qed

end
