(* ===== verification/MatchProps.thy ===== *)
theory MatchProps
  imports MatchRefinement
begin

text \<open>
  The properties of the order book and of matching: refinement of the price-time sweep,
  priority and prices of the fills, conservation of quantity, the uncrossed book, replay
  equivalence, cancellation and the depth view; with a sample book on which each is
  applied.
\<close>

section \<open>The fields of the fills\<close>

lemma makeFill_simps [simp]:
  "f_MakerOrderID (makeFill L now ev mkt sq k inc m q) = n_OrderID m"
  "f_TakerOrderID (makeFill L now ev mkt sq k inc m q) = n_OrderID inc"
  "f_Price (makeFill L now ev mkt sq k inc m q) = n_Price m"
  "f_Quantity (makeFill L now ev mkt sq k inc m q) = q"
  "f_Sequence (makeFill L now ev mkt sq k inc m q) = sq"
  "f_MarketID (makeFill L now ev mkt sq k inc m q) = mkt"
  "f_TradeID (makeFill L now ev mkt sq k inc m q) = TradeID L ev (n_OrderID m) (n_OrderID inc) k"
  by (simp_all add: makeFill_def)

lemma fills_of_fields:
  "map f_MakerOrderID (fills_of L now ev mkt sq k inc ts) = map (n_OrderID \<circ> fst) ts"
  "map f_Price (fills_of L now ev mkt sq k inc ts) = map (n_Price \<circ> fst) ts"
  "map f_Quantity (fills_of L now ev mkt sq k inc ts) = map snd ts"
  "\<forall>f\<in>set (fills_of L now ev mkt sq k inc ts). f_TakerOrderID f = n_OrderID inc \<and> f_MarketID f = mkt"
  by (induction ts arbitrary: sq k) auto

lemma fills_of_each:
  "f \<in> set (fills_of L now ev mkt sq k inc ts) \<Longrightarrow>
   \<exists>m q. (m, q) \<in> set ts \<and> f_Price f = n_Price m \<and> f_Quantity f = q"
  by (induction ts arbitrary: sq k) fastforce+

lemma fills_of_sequence:
  "map f_Sequence (fills_of L now ev mkt sq k inc ts) = map (\<lambda>i. sq + 1 + of_nat i) [0..<length ts]"
proof (induction ts arbitrary: sq k)
  case (Cons t ts)
  obtain m q where t: "t = (m, q)" by (cases t)
  show ?case
    by (simp add: t Cons.IH upt_conv_Cons add_ac del: upt_Suc flip: map_Suc_upt)
qed simp

text \<open>The taker's limit: what \<open>crossable\<close> says of a price that was accepted.\<close>

definition within_limit :: "('d::linordered_idom) order_node \<Rightarrow> 'd \<Rightarrow> bool" where
  "within_limit inc p \<longleftrightarrow>
     (n_OrderType inc = OrderTypeLimit \<or> 0 < n_Price inc \<longrightarrow>
        (if n_Side inc = SideBuy then p \<le> n_Price inc else n_Price inc \<le> p))"

lemma crossable_within: "crossable inc m \<Longrightarrow> within_limit inc (n_Price m)"
  by (auto simp: crossable_def within_limit_def split: if_splits)

text \<open>The result of \<open>Match\<close> decomposed through the sweep.\<close>

lemma Match_SomeE:
  assumes L: "lib_ok L" and ok: "book_ok L bk" and inc: "incoming_ok bk inc"
    and m: "Match L now bk inc mode ev = Some (bk', inc', fills)"
  obtains ms' ts where "sweep inc (resting L bk (opposite (n_Side inc))) = (inc', ms', ts)"
    "fills = (if mode = MatchRecovery then [] else fills_of L now ev (b_MarketID bk) (b_Sequence bk) 0 inc ts)"
    "book_ok L bk'" "resting L bk' (opposite (n_Side inc)) = ms'"
    "resting L bk' (n_Side inc) = (if rests inc' then place (n_Side inc) inc' (resting L bk (n_Side inc))
                                   else resting L bk (n_Side inc))"
    "b_Sequence bk' = b_Sequence bk + of_nat (length ts + (if rests inc' then 1 else 0))"
    "b_MarketID bk' = b_MarketID bk"
proof -
  obtain i ms' ts where sw: "sweep inc (resting L bk (opposite (n_Side inc))) = (i, ms', ts)"
    by (metis prod_cases3)
  from Match_sweep[OF L ok inc sw] m sw show thesis
    by (intro that[of ms' ts]) auto
qed

section \<open>A sample book\<close>

definition sample_order :: "uuid \<Rightarrow> side_type \<Rightarrow> int \<Rightarrow> int \<Rightarrow> int order_node" where
  "sample_order i sd p q =
     \<lparr>n_OrderID = i, n_UserID = i + 100, n_MarketID = ''BTC-USDT'', n_Side = sd,
      n_OrderType = OrderTypeLimit, n_Price = p, n_OriginalQty = q, n_RemainingQty = q,
      n_Timestamp = 5, n_ClientOrderID = []\<rparr>"

definition sample_book :: "int order_book" where
  "sample_book = the (Insert int_lib (the (Insert int_lib (NewOrderBook ''BTC-USDT'')
     (sample_order 1 SideSell 10 4))) (sample_order 2 SideSell 9 3))"

lemma sample_book:
  "book_ok int_lib sample_book"
  "resting int_lib sample_book SideSell = [sample_order 2 SideSell 9 3, sample_order 1 SideSell 10 4]"
  "resting int_lib sample_book SideBuy = []"
  "b_OrderIndex sample_book = [1 \<mapsto> sample_order 1 SideSell 10 4, 2 \<mapsto> sample_order 2 SideSell 9 3]"
  "b_Sequence sample_book = 0" "b_MarketID sample_book = ''BTC-USDT''"
proof -
  let ?b0 = "NewOrderBook ''BTC-USDT'' :: int order_book"
  let ?n1 = "sample_order 1 SideSell 10 4" and ?n2 = "sample_order 2 SideSell 9 3"
  have i0: "b_OrderIndex ?b0 = Map.empty" by (simp add: NewOrderBook_def)
  obtain b1 where b1: "Insert int_lib ?b0 ?n1 = Some b1" "book_ok int_lib b1"
    "resting int_lib b1 SideSell = place SideSell ?n1 (resting int_lib ?b0 SideSell)"
    "other_kept int_lib SideSell ?b0 b1" "b_OrderIndex b1 = [1 \<mapsto> ?n1]"
    using Insert_correct[OF int_lib_ok NewOrderBook_ok(1), of ?n1 SideSell "''BTC-USDT''"] i0
    by (auto simp: sample_order_def)
  obtain b2 where b2: "Insert int_lib b1 ?n2 = Some b2" "book_ok int_lib b2"
    "resting int_lib b2 SideSell = place SideSell ?n2 (resting int_lib b1 SideSell)"
    "other_kept int_lib SideSell b1 b2" "b_OrderIndex b2 = [1 \<mapsto> ?n1, 2 \<mapsto> ?n2]"
    using Insert_correct[OF int_lib_ok b1(2), of ?n2 SideSell] b1(5)
    by (auto simp: sample_order_def)
  have s: "sample_book = b2" using b1(1) b2(1) by (simp add: sample_book_def)
  show "book_ok int_lib sample_book" "b_OrderIndex sample_book = [1 \<mapsto> ?n1, 2 \<mapsto> ?n2]"
    using b2(2,5) by (simp_all add: s)
  show "resting int_lib sample_book SideSell = [?n2, ?n1]"
    unfolding s b2(3) b1(3) NewOrderBook_ok(2) by (simp add: sample_order_def)
  show "resting int_lib sample_book SideBuy = []" "b_Sequence sample_book = 0"
    "b_MarketID sample_book = ''BTC-USDT''"
    using b1(4) b2(4) NewOrderBook_ok(2)[of int_lib "''BTC-USDT''" SideBuy]
    by (auto simp: s other_kept_def NewOrderBook_def)
qed

lemma sample_incoming: "incoming_ok sample_book (sample_order 3 SideBuy 9 5)"
  by (simp add: incoming_ok_def sample_book(4) sample_order_def)


lemma sample_sweep:
  "sweep (sample_order 3 SideBuy 9 5) (resting int_lib sample_book (opposite (n_Side (sample_order 3 SideBuy 9 5)))) =
     ((sample_order 3 SideBuy 9 5)\<lparr>n_RemainingQty := 2\<rparr>, [sample_order 1 SideSell 10 4],
      [(sample_order 2 SideSell 9 3, 3)])"
  by (simp add: sample_book(2) sample_order_def crossable_def)

section \<open>Properties\<close>

text \<open>
  C1. Refinement of the matching loop. On a well-formed book and an admissible order
  \<open>Match\<close> always returns (it neither panics nor loops), keeps the book well-formed, and
  does on the price-time lists what the sweep specification does: the other side is swept
  from the front, the remainder of a limit order rests behind the orders at the same or a
  better price, and the sequence counts the fills and the resting insertion.
\<close>

theorem Match_refines_sweep:
  assumes "lib_ok L" and "book_ok L bk" and "incoming_ok bk inc"
    and "sweep inc (resting L bk (opposite (n_Side inc))) = (inc', ms', ts)"
  shows "\<exists>bk'. Match L now bk inc mode ev =
      Some (bk', inc', if mode = MatchRecovery then []
                       else fills_of L now ev (b_MarketID bk) (b_Sequence bk) 0 inc ts) \<and>
    book_ok L bk' \<and>
    resting L bk' (opposite (n_Side inc)) = ms' \<and>
    resting L bk' (n_Side inc) = (if rests inc' then place (n_Side inc) inc' (resting L bk (n_Side inc))
                                  else resting L bk (n_Side inc)) \<and>
    b_Sequence bk' = b_Sequence bk + of_nat (length ts + (if rests inc' then 1 else 0))"
  using Match_sweep[OF assms] by blast

theorem Match_refines_sweep_witness:
  "\<exists>bk'. Match int_lib 7 sample_book (sample_order 3 SideBuy 9 5) MatchRecovery 8 =
      Some (bk', (sample_order 3 SideBuy 9 5)\<lparr>n_RemainingQty := 2\<rparr>, []) \<and>
    resting int_lib bk' SideSell = [sample_order 1 SideSell 10 4] \<and>
    resting int_lib bk' SideBuy = [(sample_order 3 SideBuy 9 5)\<lparr>n_RemainingQty := 2\<rparr>] \<and>
    b_Sequence bk' = 2"
  using Match_refines_sweep[OF int_lib_ok sample_book(1) sample_incoming sample_sweep, of 7 MatchRecovery 8]
    sample_book(3,5)
  by (auto simp: sample_order_def rests_def)

text \<open>
  C2. Price-time priority, maker prices and conservation. The fills of a live match name,
  in order, the makers at the front of the other side, each at the maker's own price and
  within the taker's limit, with consecutive sequence numbers; their quantities are
  positive and are exactly what the taker and the other side lost; and a taker that still
  has quantity stopped at a price that does not cross.
\<close>

theorem Match_fills_correct:
  assumes L: "lib_ok L" and ok: "book_ok L bk" and inc: "incoming_ok bk inc"
    and m: "Match L now bk inc MatchLive ev = Some (bk', inc', fills)"
  shows "map f_MakerOrderID fills = map n_OrderID (take (length fills) (resting L bk (opposite (n_Side inc))))
    \<and> map f_Price fills = map n_Price (take (length fills) (resting L bk (opposite (n_Side inc))))
    \<and> map f_Sequence fills = map (\<lambda>i. b_Sequence bk + 1 + of_nat i) [0..<length fills]
    \<and> (\<forall>f\<in>set fills. 0 < f_Quantity f \<and> within_limit inc (f_Price f) \<and> f_TakerOrderID f = n_OrderID inc)
    \<and> n_RemainingQty inc = n_RemainingQty inc' + sum_list (map f_Quantity fills)
    \<and> sum_list (map n_RemainingQty (resting L bk (opposite (n_Side inc)))) =
        sum_list (map n_RemainingQty (resting L bk' (opposite (n_Side inc)))) + sum_list (map f_Quantity fills)
    \<and> 0 \<le> n_RemainingQty inc'
    \<and> (0 < n_RemainingQty inc' \<longrightarrow> resting L bk' (opposite (n_Side inc)) \<noteq> [] \<longrightarrow>
         \<not> crossable inc (hd (resting L bk' (opposite (n_Side inc)))))"
proof -
  let ?ms = "resting L bk (opposite (n_Side inc))"
  obtain ms' ts where s:
    "sweep inc ?ms = (inc', ms', ts)"
    "fills = fills_of L now ev (b_MarketID bk) (b_Sequence bk) 0 inc ts"
    "resting L bk' (opposite (n_Side inc)) = ms'"
    by (rule Match_SomeE[OF assms]) (rule that; simp)
  have pos: "positive ?ms" using resting_positive[OF ok] .
  have inc0: "0 \<le> n_RemainingQty inc" using inc by (simp add: incoming_ok_def)
  have makers: "map fst ts = take (length fills) ?ms" using sweep_priority[OF s(1)] s(2) by simp
  then have ids: "map (n_OrderID \<circ> fst) ts = map n_OrderID (take (length fills) ?ms)"
    "map (n_Price \<circ> fst) ts = map n_Price (take (length fills) ?ms)"
    by (metis map_map)+
  have each: "\<forall>f\<in>set fills. 0 < f_Quantity f \<and> within_limit inc (f_Price f) \<and> f_TakerOrderID f = n_OrderID inc"
  proof
    fix f assume f: "f \<in> set fills"
    then obtain k q where k: "(k, q) \<in> set ts" "f_Price f = n_Price k" "f_Quantity f = q"
      using fills_of_each unfolding s(2) by blast
    with sweep_trades[OF s(1) pos] have "crossable inc k" "0 < q" by auto
    moreover have "f_TakerOrderID f = n_OrderID inc" using fills_of_fields(4) f unfolding s(2) by blast
    ultimately show "0 < f_Quantity f \<and> within_limit inc (f_Price f) \<and> f_TakerOrderID f = n_OrderID inc"
      using crossable_within k by metis
  qed
  show ?thesis
    using each ids sweep_conserves[OF s(1)] sweep_rem_nonneg[OF s(1) inc0] sweep_stops[OF s(1) inc0] s(3)
    by (auto simp: s(2) fills_of_fields(1-3) fills_of_sequence)
qed

theorem Match_fills_correct_witness:
  "\<exists>bk' inc' fills. Match int_lib 7 sample_book (sample_order 3 SideBuy 9 5) MatchLive 8 = Some (bk', inc', fills)
     \<and> map f_MakerOrderID fills = [2] \<and> map f_Price fills = [9] \<and> map f_Quantity fills = [3]"
proof -
  obtain bk' inc' fills where m: "Match int_lib 7 sample_book (sample_order 3 SideBuy 9 5) MatchLive 8 =
      Some (bk', inc', fills)" "length fills = 1" "inc' = (sample_order 3 SideBuy 9 5)\<lparr>n_RemainingQty := 2\<rparr>"
    using Match_sweep[OF int_lib_ok sample_book(1) sample_incoming sample_sweep] by auto
  then obtain f where f: "fills = [f]" by (cases fills) auto
  from Match_fills_correct[OF int_lib_ok sample_book(1) sample_incoming m(1)] m f show ?thesis
    by (auto simp: sample_order_def sample_book(2))
qed

text \<open>Every resting bid is below every resting ask.\<close>

definition uncrossed :: "('d::linordered_idom) lib \<Rightarrow> 'd order_book \<Rightarrow> bool" where
  "uncrossed L bk \<longleftrightarrow>
     (\<forall>b\<in>set (resting L bk SideBuy). \<forall>a\<in>set (resting L bk SideSell). n_Price b < n_Price a)"

lemma uncrossed_by_side:
  "uncrossed L bk \<longleftrightarrow>
     (\<forall>m\<in>set (resting L bk sp). \<forall>k\<in>set (resting L bk (opposite sp)). better (opposite sp) (n_Price m) (n_Price k))"
  by (cases sp) (auto simp: uncrossed_def)

lemma not_crossable_better:
  "n_OrderType inc = OrderTypeLimit \<Longrightarrow>
   \<not> crossable inc m \<longleftrightarrow> better (opposite (n_Side inc)) (n_Price inc) (n_Price m)"
  by (cases "n_Side inc") (auto simp: crossable_def)

lemma better_weak_trans:
  "better sp p q \<Longrightarrow> \<not> better sp r q \<Longrightarrow> better sp p r"
  by (cases sp) auto

lemma Match_uncrossed:
  assumes L: "lib_ok L" and ok: "book_ok L bk" and inc: "incoming_ok bk inc"
    and un: "uncrossed L bk" and m: "Match L now bk inc mode ev = Some (bk', inc', fills)"
  shows "uncrossed L bk'"
proof -
  let ?sp = "n_Side inc" and ?op = "opposite (n_Side inc)"
  obtain ms' ts where s:
    "sweep inc (resting L bk ?op) = (inc', ms', ts)" "book_ok L bk'" "resting L bk' ?op = ms'"
    "resting L bk' ?sp = (if rests inc' then place ?sp inc' (resting L bk ?sp) else resting L bk ?sp)"
    by (rule Match_SomeE[OF L ok inc m]) (rule that; assumption)
  have old: "\<forall>m\<in>set (resting L bk ?sp). \<forall>k\<in>set ms'. better ?op (n_Price m) (n_Price k)"
  proof (intro ballI)
    fix m k assume mk: "m \<in> set (resting L bk ?sp)" "k \<in> set ms'"
    then have "n_Price k \<in> n_Price ` set (resting L bk ?op)" using sweep_prices[OF s(1)] by blast
    then obtain k' where k': "k' \<in> set (resting L bk ?op)" "n_Price k = n_Price k'" by blast
    from un[unfolded uncrossed_by_side[of L bk ?sp]] mk(1) k'(1)
    have "better ?op (n_Price m) (n_Price k')" by blast
    then show "better ?op (n_Price m) (n_Price k)" by (simp add: k'(2))
  qed
  have new: "\<forall>k\<in>set ms'. better ?op (n_Price inc') (n_Price k)" if r: "rests inc'"
  proof
    fix k assume k: "k \<in> set ms'"
    then obtain h ms where h: "ms' = h # ms" by (cases ms') auto
    have inc': "n_OrderType inc = n_OrderType inc'" "n_Price inc' = n_Price inc"
      by (subst sweep_taker[OF s(1)], simp)+
    have "0 \<le> n_RemainingQty inc" using inc by (simp add: incoming_ok_def)
    from sweep_stops[OF s(1) this] r h have "\<not> crossable inc h" by (auto simp: rests_def)
    then have "better ?op (n_Price inc) (n_Price h)"
      using not_crossable_better inc'(1) r by (metis rests_def)
    moreover have "\<not> better ?op (n_Price k) (n_Price h)"
      using resting_sorted(2)[OF s(2), of ?op] s(3) h k by auto
    ultimately show "better ?op (n_Price inc') (n_Price k)"
      unfolding inc'(2) by (rule better_weak_trans)
  qed
  show ?thesis unfolding uncrossed_by_side[of L bk' ?sp] s(3,4) using old new by auto
qed

text \<open>
  C3. The book is never crossed. If every resting bid is below every resting ask before
  \<open>Match\<close>, so it is after it: an order rests only at prices the other side does not meet.
\<close>

theorem Match_keeps_uncrossed:
  assumes "lib_ok L" and "book_ok L bk" and "incoming_ok bk inc" and "uncrossed L bk"
    and "Match L now bk inc mode ev = Some (bk', inc', fills)"
  shows "uncrossed L bk'"
  using Match_uncrossed[OF assms] .

theorem Match_keeps_uncrossed_witness:
  "\<exists>bk' inc' fills. Match int_lib 7 sample_book (sample_order 3 SideBuy 9 5) MatchLive 8 = Some (bk', inc', fills)
     \<and> uncrossed int_lib bk'"
proof -
  have un: "uncrossed int_lib sample_book" by (simp add: uncrossed_def sample_book(3))
  obtain bk' inc' fills where m: "Match int_lib 7 sample_book (sample_order 3 SideBuy 9 5) MatchLive 8 =
      Some (bk', inc', fills)"
    using Match_sweep[OF int_lib_ok sample_book(1) sample_incoming sample_sweep] by blast
  from Match_keeps_uncrossed[OF int_lib_ok sample_book(1) sample_incoming un m] m show ?thesis by blast
qed


text \<open>
  C4. Replay equivalence. Processing an order in recovery mode leaves exactly the book and
  the taker that live processing left, whatever the clock and the event ID, and publishes
  no fill; a live re-run of the same event reproduces the same trade IDs.
\<close>

theorem Match_replay_same_book:
  assumes "lib_ok L" and "book_ok L bk" and "incoming_ok bk inc"
    and "Match L now bk inc MatchLive ev = Some (bk', inc', fills)"
  shows "Match L now2 bk inc MatchRecovery ev2 = Some (bk', inc', []) \<and>
    (\<exists>fills2. Match L now2 bk inc MatchLive ev = Some (bk', inc', fills2) \<and>
       map f_TradeID fills2 = map f_TradeID fills)"
proof -
  obtain i ms ts where sw: "sweep inc (resting L bk (opposite (n_Side inc))) = (i, ms, ts)"
    by (metis prod_cases3)
  have ids: "map f_TradeID (fills_of L now2 ev mkt sq k inc ts) = map f_TradeID (fills_of L now ev mkt sq k inc ts)"
    for mkt sq k by (induction ts arbitrary: sq k) auto
  from Match_sweep[OF assms(1-3) sw] obtain b where
    "\<And>now mode ev. Match L now bk inc mode ev = Some (b, i, if mode = MatchRecovery then []
        else fills_of L now ev (b_MarketID bk) (b_Sequence bk) 0 inc ts)" by blast
  with assms(4) ids show ?thesis by auto
qed

theorem Match_replay_same_book_witness:
  "\<exists>bk' inc' fills. Match int_lib 7 sample_book (sample_order 3 SideBuy 9 5) MatchLive 8 = Some (bk', inc', fills)
     \<and> Match int_lib 1000 sample_book (sample_order 3 SideBuy 9 5) MatchRecovery 0 = Some (bk', inc', [])"
proof -
  obtain bk' inc' fills where m: "Match int_lib 7 sample_book (sample_order 3 SideBuy 9 5) MatchLive 8 =
      Some (bk', inc', fills)"
    using Match_sweep[OF int_lib_ok sample_book(1) sample_incoming sample_sweep] by blast
  from Match_replay_same_book[OF int_lib_ok sample_book(1) sample_incoming m, of 1000 0] m
  show ?thesis by blast
qed

text \<open>
  C5. Cancellation. \<open>Cancel\<close> always returns. An order that does not rest is reported absent
  and one that belongs to another user is refused, both without a change of the book;
  otherwise exactly this order leaves its side, the other orders keep their priority, the
  other side and the sequence stay, and the outcome carries its remaining quantity.
\<close>

theorem Cancel_exact:
  assumes "lib_ok L" and "book_ok L bk"
  shows "\<exists>bk' out. Cancel L bk i u = Some (bk', out) \<and> book_ok L bk' \<and> o_OrderID out = i \<and>
    (case b_OrderIndex bk i of
       None \<Rightarrow> bk' = bk \<and> o_Status out = AlreadyAbsent
     | Some n \<Rightarrow>
         o_RemainingQuantity out = n_RemainingQty n \<and>
         (if n_UserID n \<noteq> u then bk' = bk \<and> o_Status out = UserMismatch
          else o_Status out = RemovedFromBook \<and> b_OrderIndex bk' = (b_OrderIndex bk)(i := None) \<and>
            b_Sequence bk' = b_Sequence bk \<and>
            (\<forall>sp. resting L bk' sp = filter (\<lambda>m. n_OrderID m \<noteq> i) (resting L bk sp))))"
proof (cases "b_OrderIndex bk i")
  case None
  then show ?thesis using assms(2) by (simp add: Cancel_def)
next
  case (Some n)
  note ix = book_okD(1)[OF assms(2)]
  have id: "n_OrderID n = i" using index_okD(1)[OF ix Some] .
  show ?thesis
  proof (cases "n_UserID n = u")
    case False
    then show ?thesis using Some assms(2) id by (simp add: Cancel_def)
  next
    case True
    obtain bk' where bk': "removeResting L bk (n_Side n) n = Some bk'" "book_ok L bk'"
      "resting L bk' (n_Side n) = filter (\<lambda>m. n_OrderID m \<noteq> i) (resting L bk (n_Side n))"
      "other_kept L (n_Side n) bk bk'" "b_OrderIndex bk' = (b_OrderIndex bk)(i := None)"
      using removeResting_correct[OF assms Some refl] by blast
    have "resting L bk' sp = filter (\<lambda>m. n_OrderID m \<noteq> i) (resting L bk sp)" for sp
    proof (cases "sp = n_Side n")
      case False
      have "\<forall>m\<in>set (resting L bk sp). n_OrderID m \<noteq> i"
        using set_resting[OF assms(2), of _ sp] False Some by auto
      with False bk'(4) show ?thesis by (simp add: other_kept_def filter_True)
    qed (use bk'(3) in simp)
    with True Some bk' id show ?thesis by (simp add: Cancel_def other_kept_def)
  qed
qed

theorem Cancel_exact_witness:
  "\<exists>bk' out. Cancel int_lib sample_book 2 102 = Some (bk', out) \<and> o_Status out = RemovedFromBook \<and>
     resting int_lib bk' SideSell = [sample_order 1 SideSell 10 4]"
  using Cancel_exact[OF int_lib_ok sample_book(1), of 2 102]
  by (auto simp: sample_book(2,4) sample_order_def)

lemma remdups_block:
  "p \<notin> set xs \<Longrightarrow> 0 < k \<Longrightarrow> remdups (replicate k p @ xs) = p # remdups xs"
  by (induction k) auto

lemma sorted_prices_remdups:
  assumes sd: "side_ok L sp idx sd"
  shows "set ps \<subseteq> set (s_SortedPrices sd) \<Longrightarrow> distinct ps \<Longrightarrow>
    remdups (map n_Price (concat (map (level_nodes L idx (s_PriceLevels sd)) ps))) = ps"
proof (induction ps)
  case (Cons p ps)
  let ?g = "level_nodes L idx (s_PriceLevels sd)"
  have p: "p \<in> set (s_SortedPrices sd)" using Cons.prems by simp
  have "?g p \<noteq> []" using side_okD(4)[OF sd p] by (auto simp: level_nodes_def level_ok_def)
  then have "0 < length (?g p)" by simp
  moreover have block: "map n_Price (?g p) = replicate (length (?g p)) p"
    by (rule replicate_eqI) (use level_nodes_props(1)[OF sd p] in auto)
  moreover have "p \<notin> set (map n_Price (concat (map ?g ps)))"
  proof
    assume "p \<in> set (map n_Price (concat (map ?g ps)))"
    then obtain q m where q: "q \<in> set ps" "m \<in> set (?g q)" "p = n_Price m" by auto
    moreover have "q \<in> set (s_SortedPrices sd)" using q(1) Cons.prems(1) by auto
    ultimately have "p = q" using level_nodes_props(1)[OF sd] by blast
    with q(1) Cons.prems(2) show False by simp
  qed
  ultimately have "remdups (map n_Price (?g p) @ map n_Price (concat (map ?g ps))) =
      p # remdups (map n_Price (concat (map ?g ps)))"
    unfolding block by (intro remdups_block)
  also have "remdups (map n_Price (concat (map ?g ps))) = ps" using Cons by simp
  finally show ?case by simp
qed simp

lemma depthLevels_remdups:
  assumes "book_ok L bk"
  shows "depthLevels L (getSide bk sp) d =
    Some (map (\<lambda>p. \<lparr>dl_Price = p, dl_Quantity = qty_at sp (resting L bk sp) p\<rparr>)
              (take d (remdups (map n_Price (resting L bk sp)))))"
proof -
  note sd = book_okD(2)[OF assms, of sp]
  have "remdups (map n_Price (resting L bk sp)) = s_SortedPrices (getSide bk sp)"
    using sorted_prices_remdups[OF sd subset_refl sorted_better_distinct[OF side_okD(2)[OF sd]]]
    by (simp add: resting_def resting_side_def)
  with depthLevels_correct[OF sd, of d] show ?thesis by (simp add: resting_def)
qed

text \<open>
  The depth view. \<open>GetDepth\<close> always returns: for each side the first distinct prices of
  the price-time list, each with the total remaining quantity that rests at it.
\<close>

theorem GetDepth_correct:
  assumes "book_ok L bk"
  shows "GetDepth L now bk d = Some
    \<lparr>ds_MarketID = b_MarketID bk, ds_Sequence = b_Sequence bk,
     ds_Bids = map (\<lambda>p. \<lparr>dl_Price = p, dl_Quantity = qty_at SideBuy (resting L bk SideBuy) p\<rparr>)
                 (take d (remdups (map n_Price (resting L bk SideBuy)))),
     ds_Asks = map (\<lambda>p. \<lparr>dl_Price = p, dl_Quantity = qty_at SideSell (resting L bk SideSell) p\<rparr>)
                 (take d (remdups (map n_Price (resting L bk SideSell)))),
     ds_SnapshotAt = now\<rparr>"
  using depthLevels_remdups[OF assms, of SideBuy d] depthLevels_remdups[OF assms, of SideSell d]
  by (simp add: GetDepth_def)

theorem GetDepth_correct_witness:
  "map_option ds_Asks (GetDepth int_lib 5 sample_book 1) = Some [\<lparr>dl_Price = 9, dl_Quantity = 3\<rparr>]"
  using GetDepth_correct[OF sample_book(1), of 5 1] by (simp add: sample_book(2) qty_at_def sample_order_def)

text \<open>Every trade of a sweep but the last takes a resting order away.\<close>

lemma sweep_length:
  "sweep inc ms = (inc', ms', ts) \<Longrightarrow> length ts \<le> length ms \<and> length ms' \<le> length ms \<and> length ms' + length ts \<le> Suc (length ms)"
proof (induction ms arbitrary: inc inc' ms' ts)
  case (Cons m ms)
  show ?case using Cons.prems by (cases rule: sweep_cases) (use Cons.IH in fastforce)+
qed simp

text \<open>
  The matching loop terminates. On a well-formed book and an admissible order \<open>Match\<close>
  returns in either mode after at most as many fills as orders rest on the other side: each
  fill but the last takes one of them off the book, so the loop cannot spin.
\<close>

theorem Match_terminates:
  assumes "lib_ok L" and "book_ok L bk" and "incoming_ok bk inc"
  shows "\<exists>bk' inc' fills. Match L now bk inc mode ev = Some (bk', inc', fills) \<and>
    length fills \<le> length (resting L bk (opposite (n_Side inc))) \<and>
    length (resting L bk' (opposite (n_Side inc))) + length fills \<le> Suc (length (resting L bk (opposite (n_Side inc))))"
proof -
  obtain inc' ms' ts where sw: "sweep inc (resting L bk (opposite (n_Side inc))) = (inc', ms', ts)" by (metis prod_cases3)
  from Match_sweep[OF assms sw] obtain bk' where m: "Match L now bk inc mode ev =
      Some (bk', inc', if mode = MatchRecovery then [] else fills_of L now ev (b_MarketID bk) (b_Sequence bk) 0 inc ts)"
    "resting L bk' (opposite (n_Side inc)) = ms'" by blast
  with sweep_length[OF sw] show ?thesis by (intro exI[of _ bk'] exI[of _ inc']) auto
qed

theorem Match_terminates_witness:
  "\<exists>bk' inc' fills. Match int_lib 7 sample_book (sample_order 3 SideBuy 9 5) MatchLive 8 = Some (bk', inc', fills) \<and>
    length fills \<le> length (resting int_lib sample_book SideSell)"
  using Match_terminates[OF int_lib_ok sample_book(1) sample_incoming, of 7 MatchLive 8]
  by (auto simp: sample_order_def)

end
