(* ===== verification/SnapshotProps.thy ===== *)
theory SnapshotProps
  imports Snapshot MatchProps
begin

text \<open>
  Snapshots: a well-formed book is determined by its price-time lists; \<open>Restore\<close> accepts
  only well-formed books, leaves the live book alone when it fails, and inverts
  \<open>Serialize\<close> exactly on the books with admissible orders whose queues are in timestamp order.
\<close>

section \<open>A book is determined by its price-time lists\<close>

lemma level_orders:
  assumes ix: "index_ok idx" and lv: "level_ok idx sp p lv"
  shows "l_Orders lv = map n_OrderID (map (\<lambda>i. the (idx i)) (l_Orders lv))"
  unfolding map_map
proof (rule map_idI[symmetric])
  fix i assume "i \<in> set (l_Orders lv)"
  from level_ok_ex[OF lv this] obtain n where n: "idx i = Some n" by blast
  with index_okD(1)[OF ix n] show "(n_OrderID \<circ> (\<lambda>i. the (idx i))) i = i" by simp
qed

lemma level_of_resting:
  assumes ix: "index_ok idx" and sd: "side_ok L sp idx sd" and p: "p \<in> set (s_SortedPrices sd)"
  shows "s_PriceLevels sd (d_String L p) =
    (let ns = filter (\<lambda>n. n_Price n = p) (resting_side L idx sd)
     in Some \<lparr>l_Price = p, l_Orders = map n_OrderID ns, l_TotalQty = sum_list (map n_RemainingQty ns)\<rparr>)"
proof -
  obtain lv where lv: "s_PriceLevels sd (d_String L p) = Some lv" "level_ok idx sp p lv"
    using side_okD(4)[OF sd p] by blast
  have "filter (\<lambda>n. n_Price n = p) (resting_side L idx sd) = map (\<lambda>i. the (idx i)) (l_Orders lv)"
    using filter_concat_price[OF sd subset_refl sorted_better_distinct[OF side_okD(2)[OF sd]], of p] p lv(1)
    by (simp add: resting_side_def level_nodes_def)
  moreover have "l_Price lv = p"
    "l_TotalQty lv = sum_list (map n_RemainingQty (map (\<lambda>i. the (idx i)) (l_Orders lv)))"
    using lv(2) by (simp_all add: level_ok_def o_def)
  ultimately show ?thesis using level_orders[OF ix lv(2)] lv(1) by (simp add: Let_def)
qed

lemma side_unique:
  assumes ix: "index_ok idx" and a: "side_ok L sp idx sa" and b: "side_ok L sp idx sb"
    and eq: "resting_side L idx sa = resting_side L idx sb"
  shows "sa = sb"
proof (rule side.equality)
  have prices: "s_SortedPrices s = remdups (map n_Price (resting_side L idx s))" if "side_ok L sp idx s" for s
    using sorted_prices_remdups[OF that subset_refl sorted_better_distinct[OF side_okD(2)[OF that]]]
    by (simp add: resting_side_def)
  show ps: "s_SortedPrices sa = s_SortedPrices sb" using prices[OF a] prices[OF b] eq by simp
  show "s_IsBid sa = s_IsBid sb" using side_okD(1)[OF a] side_okD(1)[OF b] by simp
  show "s_PriceLevels sa = s_PriceLevels sb"
  proof
    fix k
    show "s_PriceLevels sa k = s_PriceLevels sb k"
    proof (cases "k \<in> d_String L ` set (s_SortedPrices sa)")
      case True
      then obtain p where "k = d_String L p" "p \<in> set (s_SortedPrices sa)" by blast
      then show ?thesis using level_of_resting[OF ix a] level_of_resting[OF ix b] ps eq by simp
    next
      case False
      then show ?thesis using side_okD(3)[OF a] side_okD(3)[OF b] ps by (metis domIff)
    qed
  qed
qed simp

lemma index_of_resting:
  assumes "book_ok L bk"
  shows "b_OrderIndex bk i = Some n \<longleftrightarrow> n_OrderID n = i \<and> n \<in> set (resting L bk (n_Side n))"
  using set_resting[OF assms, of n] index_okD(1)[OF book_okD(1)[OF assms]] by blast

lemma book_unique:
  assumes a: "book_ok L a" and b: "book_ok L b" and eq: "\<And>sp. resting L a sp = resting L b sp"
    and "b_MarketID a = b_MarketID b" "b_Sequence a = b_Sequence b"
  shows "a = b"
proof -
  have idx: "b_OrderIndex a = b_OrderIndex b"
  proof
    fix i
    have "b_OrderIndex a i = Some n \<longleftrightarrow> b_OrderIndex b i = Some n" for n
      using index_of_resting[OF a, of i n] index_of_resting[OF b, of i n] eq by simp
    then show "b_OrderIndex a i = b_OrderIndex b i" by (metis option.exhaust)
  qed
  have "getSide a sp = getSide b sp" for sp
    using side_unique[OF book_okD(1)[OF a] book_okD(2)[OF a, of sp], of "getSide b sp"]
      book_okD(2)[OF b, of sp] eq[of sp] idx by (simp add: resting_def)
  from this[of SideBuy] this[of SideSell] idx assms(4,5) show ?thesis
    by (intro order_book.equality) simp_all
qed

section \<open>Inserting restored orders\<close>

lemma linearInsertIndex_split:
  "\<forall>q\<in>set ps1. better sp q p \<Longrightarrow> \<forall>q\<in>set ps2. better sp p q \<Longrightarrow>
   linearInsertIndex (sp = SideBuy) (ps1 @ ps2) p = length ps1"
proof (induction ps1)
  case Nil
  then show ?case by (cases ps2; cases sp) auto
next
  case (Cons q ps1)
  then show ?case by (cases sp) auto
qed

lemma InsertRestoredOrder_eq:
  assumes ok: "book_ok L bk" and new: "b_OrderIndex bk (n_OrderID nd) = None"
  shows "InsertRestoredOrder L bk nd = Insert L bk nd"
proof (cases "s_PriceLevels (getSide bk (n_Side nd)) (d_String L (n_Price nd))")
  case (Some lv)
  with new show ?thesis
    by (simp add: InsertRestoredOrder_def Insert_def ensureLevel_def Let_def)
next
  case None
  note sd = book_okD(2)[OF ok, of "n_Side nd"]
  have "n_Price nd \<notin> set (s_SortedPrices (getSide bk (n_Side nd)))"
    using side_okD(4)[OF sd] None by fastforce
  then obtain ps1 ps2 where ps: "s_SortedPrices (getSide bk (n_Side nd)) = ps1 @ ps2"
    "\<forall>q\<in>set ps1. better (n_Side nd) q (n_Price nd)" "\<forall>q\<in>set ps2. better (n_Side nd) (n_Price nd) q"
    using sorted_better_split[OF side_okD(2)[OF sd]] by metis
  have "linearInsertIndex (s_IsBid (getSide bk (n_Side nd))) (s_SortedPrices (getSide bk (n_Side nd))) (n_Price nd) =
      binarySearchInsertIndex (getSide bk (n_Side nd)) (n_Price nd)"
    using binarySearchInsertIndex_split[OF ps(1) side_okD(1)[OF sd] ps(2,3)]
      linearInsertIndex_split[OF ps(2,3)] side_okD(1)[OF sd] ps(1) by simp
  with new None show ?thesis
    by (simp add: InsertRestoredOrder_def Insert_def ensureLevel_def Let_def)
qed

lemma InsertRestoredOrder_correct:
  assumes L: "lib_ok L" and ok: "book_ok L bk" and new: "b_OrderIndex bk (n_OrderID nd) = None"
    and nd: "0 < n_RemainingQty nd" "n_RemainingQty nd \<le> n_OriginalQty nd" "n_OrderType nd = OrderTypeLimit"
  shows "\<exists>bk'. InsertRestoredOrder L bk nd = Some bk' \<and> book_ok L bk' \<and>
     resting L bk' (n_Side nd) = place (n_Side nd) nd (resting L bk (n_Side nd)) \<and>
     other_kept L (n_Side nd) bk bk' \<and> b_OrderIndex bk' = (b_OrderIndex bk)(n_OrderID nd \<mapsto> nd)"
  unfolding InsertRestoredOrder_eq[OF ok new] by (rule Insert_correct[OF L ok refl new nd])

section \<open>Whatever the snapshot: total, and only well-formed books\<close>


definition restorable :: "('d::linordered_idom) order_book \<Rightarrow> 'd order_node \<Rightarrow> bool" where
  "restorable bk nd \<longleftrightarrow>
     b_OrderIndex bk (n_OrderID nd) = None \<and> 0 < n_RemainingQty nd \<and>
     n_RemainingQty nd \<le> n_OriginalQty nd \<and> n_OrderType nd = OrderTypeLimit \<and> 0 < n_Price nd"

lemma restoreOrder_shape:
  "(\<exists>e. restoreOrder L now m tick lot st so = Some (Inl e)) \<or>
   (\<exists>nd. restorable (r_staged st) nd \<and>
      restoreOrder L now m tick lot st so =
        Option.bind (InsertRestoredOrder L (r_staged st) nd)
          (\<lambda>staged. Some (Inr \<lparr>r_staged = staged, r_seenAsks = (r_seenAsks st \<or> n_Side nd = SideSell),
             r_lastSide = Some (n_Side nd), r_lastPrice = n_Price nd, r_lastTime = n_Timestamp nd\<rparr>)))"
  (is "?E \<or> ?A")
proof (cases ?E)
  case False
  obtain oID uID t price origQty remQty sd where p:
    "u_Parse L (so_OrderID so) = Some oID" "u_Parse L (so_UserID so) = Some uID"
    "t_ParseNano L (so_Timestamp so) = Some t" "d_NewFromString L (so_Price so) = Some price"
    "d_NewFromString L (so_OriginalQty so) = Some origQty"
    "d_NewFromString L (so_RemainingQty so) = Some remQty" "as_side (so_Side so) = Some sd"
    using False unfolding restoreOrder_def by (simp split: option.splits)
  have c: "so_OrderType so = ''LIMIT''" "0 < remQty" "remQty \<le> origQty" "0 < price" "\<not> origQty \<le> 0"
    "b_OrderIndex (r_staged st) oID = None" "checkStructure st sd price t = None"
    using False unfolding restoreOrder_def by (auto simp: p split: if_splits option.splits)
  have rest: "\<not> (tick > 0 \<and> d_Mod L price tick \<noteq> 0)" "\<not> (lot > 0 \<and> d_Mod L origQty lot \<noteq> 0)"
    "\<not> (lot > 0 \<and> d_Mod L remQty lot \<noteq> 0)" "t \<noteq> 0" "\<not> t > now + hours24"
    using False c unfolding restoreOrder_def by (auto simp: p split: if_splits option.splits)
  let ?nd = "\<lparr>n_OrderID = oID, n_UserID = uID, n_MarketID = m, n_Side = sd,
     n_OrderType = OrderTypeLimit, n_Price = price, n_OriginalQty = origQty,
     n_RemainingQty = remQty, n_Timestamp = t, n_ClientOrderID = so_ClientOrderID so\<rparr>"
  have "restorable (r_staged st) ?nd \<and>
      restoreOrder L now m tick lot st so =
        Option.bind (InsertRestoredOrder L (r_staged st) ?nd)
          (\<lambda>staged. Some (Inr \<lparr>r_staged = staged, r_seenAsks = (r_seenAsks st \<or> n_Side ?nd = SideSell),
             r_lastSide = Some (n_Side ?nd), r_lastPrice = n_Price ?nd, r_lastTime = n_Timestamp ?nd\<rparr>))"
    using c by (simp add: restoreOrder_def p restorable_def rest not_le)
  then show ?thesis by blast
qed simp

text \<open>What holds of the staged book at every point of the loop.\<close>

definition staged_ok :: "('d::linordered_idom) lib \<Rightarrow> string \<Rightarrow> 64 word \<Rightarrow> nat \<Rightarrow> 'd order_book \<Rightarrow> bool" where
  "staged_ok L m sq k bk \<longleftrightarrow>
     book_ok L bk \<and> b_MarketID bk = m \<and> b_Sequence bk = sq \<and>
     finite (dom (b_OrderIndex bk)) \<and> card (dom (b_OrderIndex bk)) = k"

lemma restoreOrder_step:
  assumes L: "lib_ok L" and ok: "staged_ok L mk sq k (r_staged st)"
  shows "\<exists>r. restoreOrder L now m tick lot st so = Some r \<and>
    (\<forall>st'. r = Inr st' \<longrightarrow> staged_ok L mk sq (Suc k) (r_staged st'))"
  using restoreOrder_shape[of L now m tick lot st so]
proof (elim disjE exE conjE)
  fix nd assume nd: "restorable (r_staged st) nd"
    and eq: "restoreOrder L now m tick lot st so = Option.bind (InsertRestoredOrder L (r_staged st) nd)
      (\<lambda>staged. Some (Inr \<lparr>r_staged = staged, r_seenAsks = (r_seenAsks st \<or> n_Side nd = SideSell),
         r_lastSide = Some (n_Side nd), r_lastPrice = n_Price nd, r_lastTime = n_Timestamp nd\<rparr>))"
  from ok have "book_ok L (r_staged st)" by (simp add: staged_ok_def)
  from InsertRestoredOrder_correct[OF L this, of nd] nd obtain bk' where bk':
    "InsertRestoredOrder L (r_staged st) nd = Some bk'" "book_ok L bk'"
    "other_kept L (n_Side nd) (r_staged st) bk'"
    "b_OrderIndex bk' = (b_OrderIndex (r_staged st))(n_OrderID nd \<mapsto> nd)"
    by (auto simp: restorable_def)
  have "n_OrderID nd \<notin> dom (b_OrderIndex (r_staged st))" using nd by (auto simp: restorable_def)
  with ok bk' have "staged_ok L mk sq (Suc k) bk'"
    by (simp add: staged_ok_def other_kept_def)
  with eq bk'(1) show ?thesis by simp
qed simp

lemma restoreOrders_ok:
  assumes L: "lib_ok L"
  shows "staged_ok L mk sq k (r_staged st) \<Longrightarrow>
    \<exists>r. restoreOrders L now m tick lot st sos = Some r \<and>
      (\<forall>st'. r = Inr st' \<longrightarrow> staged_ok L mk sq (k + length sos) (r_staged st'))"
proof (induction sos arbitrary: st k)
  case (Cons so sos)
  obtain r where r: "restoreOrder L now m tick lot st so = Some r"
    "\<And>st'. r = Inr st' \<Longrightarrow> staged_ok L mk sq (Suc k) (r_staged st')"
    using restoreOrder_step[OF L Cons.prems] by blast
  show ?case
  proof (cases r)
    case (Inr st')
    from Cons.IH[OF r(2)[OF this]] Inr r(1) show ?thesis by auto
  qed (use r(1) in simp)
qed simp

lemma stagedStart_ok: "staged_ok L (b_MarketID bk) sq 0 (r_staged (stagedStart bk sq))"
  using NewOrderBook_ok(1)[of L "b_MarketID bk"]
  by (simp add: staged_ok_def stagedStart_def book_ok_def) (simp add: NewOrderBook_def)

lemma Restore_any:
  assumes L: "lib_ok L"
  shows "\<exists>bk' err. Restore L ck now bk snap m part cp chk tick lot = Some (bk', err) \<and>
    (err \<noteq> None \<longrightarrow> bk' = bk) \<and>
    (err = None \<longrightarrow> book_ok L bk' \<and> b_MarketID bk' = b_MarketID bk \<and> b_Sequence bk' = bs_Sequence snap \<and>
       card (dom (b_OrderIndex bk')) = length (bs_Orders snap) \<and>
       bs_MarketID snap = m \<and> bs_Offset snap \<le> cp \<and> ck snap = Some chk)"
proof -
  let ?st = "stagedStart bk (bs_Sequence snap)"
  obtain r where r: "restoreOrders L now m tick lot ?st (bs_Orders snap) = Some r"
    "\<forall>st'. r = Inr st' \<longrightarrow> staged_ok L (b_MarketID bk) (bs_Sequence snap) (0 + length (bs_Orders snap)) (r_staged st')"
    using restoreOrders_ok[OF L stagedStart_ok] by blast
  show ?thesis
  proof (cases r)
    case (Inl e)
    with r(1) show ?thesis by (auto simp: Restore_def split: option.split)
  next
    case (Inr st')
    with r(2) have st': "staged_ok L (b_MarketID bk) (bs_Sequence snap) (length (bs_Orders snap)) (r_staged st')"
      by simp
    let ?b = "bk\<lparr>b_Bids := b_Bids (r_staged st'), b_Asks := b_Asks (r_staged st'),
      b_OrderIndex := b_OrderIndex (r_staged st'), b_Sequence := b_Sequence (r_staged st')\<rparr>"
    have eq: "?b = r_staged st'" using st' by (intro order_book.equality) (simp_all add: staged_ok_def)
    show ?thesis
      unfolding Restore_def r(1) Inr bind.bind_lunit sum.case eq
      using st' by (auto simp: staged_ok_def split: option.split)
  qed
qed

section \<open>Restoring what was serialised\<close>

definition order_ready :: "('d::linordered_idom) lib \<Rightarrow> time \<Rightarrow> string \<Rightarrow> 'd \<Rightarrow> 'd \<Rightarrow> 'd order_node \<Rightarrow> bool" where
  "order_ready L now m tick lot n \<longleftrightarrow>
     n_MarketID n = m \<and> n_OrderType n = OrderTypeLimit \<and> 0 < n_Price n \<and>
     0 < n_RemainingQty n \<and> n_RemainingQty n \<le> n_OriginalQty n \<and>
     (0 < tick \<longrightarrow> d_Mod L (n_Price n) tick = 0) \<and>
     (0 < lot \<longrightarrow> d_Mod L (n_OriginalQty n) lot = 0 \<and> d_Mod L (n_RemainingQty n) lot = 0) \<and>
     t_rfc3339 (n_Timestamp n) \<and> n_Timestamp n \<noteq> 0 \<and> n_Timestamp n \<le> now + hours24"

definition follows :: "('d::linordered_idom) order_node \<Rightarrow> 'd order_node \<Rightarrow> bool" where
  "follows a b \<longleftrightarrow>
     (n_Side b = SideBuy \<longrightarrow> n_Side a = SideBuy) \<and>
     (n_Side a = n_Side b \<longrightarrow> \<not> better (n_Side b) (n_Price b) (n_Price a) \<and>
        (n_Price a = n_Price b \<longrightarrow> n_Timestamp a \<le> n_Timestamp b))"

definition restored :: "('d::linordered_idom) lib \<Rightarrow> string \<Rightarrow> 64 word \<Rightarrow> 'd order_node list \<Rightarrow> 'd restore_state \<Rightarrow> bool" where
  "restored L mk sq xs st \<longleftrightarrow>
     book_ok L (r_staged st) \<and> b_MarketID (r_staged st) = mk \<and> b_Sequence (r_staged st) = sq \<and>
     (\<forall>sp. resting L (r_staged st) sp = filter (\<lambda>n. n_Side n = sp) xs) \<and>
     r_seenAsks st = (\<exists>n\<in>set xs. n_Side n = SideSell) \<and>
     (if xs = [] then r_lastSide st = None
      else r_lastSide st = Some (n_Side (last xs)) \<and> r_lastPrice st = n_Price (last xs) \<and>
           r_lastTime st = n_Timestamp (last xs))"

lemma restored_structure:
  assumes st: "restored L mk sq xs st" and f: "\<forall>m\<in>set xs. follows m n"
  shows "checkStructure st (n_Side n) (n_Price n) (n_Timestamp n) = None"
proof (cases "xs = []")
  case True
  with st show ?thesis by (auto simp: restored_def checkStructure_def split: side_type.split)
next
  case False
  then have l: "follows (last xs) n" using f by simp
  have b: "n_Side n = SideBuy \<Longrightarrow> \<not> r_seenAsks st"
    using st f by (auto simp: restored_def follows_def)
  from False st l b show ?thesis
    by (auto simp: restored_def checkStructure_def follows_def not_less split: side_type.split)
qed

lemma restoreOrder_serialized:
  assumes L: "lib_ok L" and st: "restored L mk sq xs st" and n: "order_ready L now m tick lot n"
    and f: "\<forall>k\<in>set xs. follows k n" and new: "n_OrderID n \<notin> n_OrderID ` set xs"
  shows "\<exists>st'. restoreOrder L now m tick lot st (snapshotOrder L n) = Some (Inr st') \<and>
    restored L mk sq (xs @ [n]) st'"
proof -
  have ok: "book_ok L (r_staged st)" using st by (simp add: restored_def)
  have fresh: "b_OrderIndex (r_staged st) (n_OrderID n) = None"
  proof (rule ccontr)
    assume "b_OrderIndex (r_staged st) (n_OrderID n) \<noteq> None"
    then obtain k where "b_OrderIndex (r_staged st) (n_OrderID n) = Some k" by blast
    then have "n_OrderID k = n_OrderID n" "k \<in> set xs"
      using index_of_resting[OF ok] st by (auto simp: restored_def)
    with new show False by (metis imageI)
  qed
  have parse: "as_side (side_string (n_Side n)) = Some (n_Side n)"
    by (cases "n_Side n") (simp_all add: as_side_def)
  have nd: "0 < n_RemainingQty n" "n_RemainingQty n \<le> n_OriginalQty n" "n_OrderType n = OrderTypeLimit"
    "0 < n_Price n" "n_MarketID n = m" "\<not> n_OriginalQty n \<le> 0" "\<not> n_Timestamp n > now + hours24"
    using n by (auto simp: order_ready_def)
  have mods: "\<not> (tick > 0 \<and> d_Mod L (n_Price n) tick \<noteq> 0)" "\<not> (lot > 0 \<and> d_Mod L (n_OriginalQty n) lot \<noteq> 0)"
    "\<not> (lot > 0 \<and> d_Mod L (n_RemainingQty n) lot \<noteq> 0)" "n_Timestamp n \<noteq> 0"
    using n by (auto simp: order_ready_def)
  have node: "\<lparr>n_OrderID = n_OrderID n, n_UserID = n_UserID n, n_MarketID = m, n_Side = n_Side n,
      n_OrderType = OrderTypeLimit, n_Price = n_Price n, n_OriginalQty = n_OriginalQty n,
      n_RemainingQty = n_RemainingQty n, n_Timestamp = n_Timestamp n, n_ClientOrderID = n_ClientOrderID n\<rparr> = n"
    using nd by simp
  have time: "t_ParseNano L (t_FormatNano L (n_Timestamp n)) = Some (n_Timestamp n)"
    using lib_okD(3)[OF L] n by (simp add: order_ready_def)
  obtain b where b: "InsertRestoredOrder L (r_staged st) n = Some b" "book_ok L b"
    "resting L b (n_Side n) = place (n_Side n) n (resting L (r_staged st) (n_Side n))"
    "other_kept L (n_Side n) (r_staged st) b"
    using InsertRestoredOrder_correct[OF L ok fresh nd(1-3)] by blast
  have "\<forall>k\<in>set (filter (\<lambda>k. n_Side k = n_Side n) xs). \<not> better (n_Side n) (n_Price n) (n_Price k)"
    using f by (auto simp: follows_def)
  from place_append[OF this, of "[]"] st b(3)
  have own: "resting L b (n_Side n) = filter (\<lambda>k. n_Side k = n_Side n) xs @ [n]"
    by (simp add: restored_def)
  have "restoreOrder L now m tick lot st (snapshotOrder L n) = Some (Inr
      \<lparr>r_staged = b, r_seenAsks = (r_seenAsks st \<or> n_Side n = SideSell),
       r_lastSide = Some (n_Side n), r_lastPrice = n_Price n, r_lastTime = n_Timestamp n\<rparr>)"
    using nd b(1) fresh
    by (simp add: restoreOrder_def snapshotOrder_def lib_okD(1,2)[OF L] time parse mods
        restored_structure[OF st f] node not_le)
  moreover have "restored L mk sq (xs @ [n])
      \<lparr>r_staged = b, r_seenAsks = (r_seenAsks st \<or> n_Side n = SideSell),
       r_lastSide = Some (n_Side n), r_lastPrice = n_Price n, r_lastTime = n_Timestamp n\<rparr>"
    using st b(2,4) own by (auto simp: restored_def other_kept_def)
  ultimately show ?thesis by blast
qed

lemma restoreOrders_append:
  "restoreOrders L now m tick lot st (xs @ ys) =
   Option.bind (restoreOrders L now m tick lot st xs)
     (\<lambda>r. case r of Inl e \<Rightarrow> Some (Inl e) | Inr st' \<Rightarrow> restoreOrders L now m tick lot st' ys)"
proof (induction xs arbitrary: st)
  case (Cons x xs)
  show ?case
    by (cases "restoreOrder L now m tick lot st x") (auto simp: Cons.IH split: sum.split)
qed simp

lemma restoreOrders_serialized:
  assumes L: "lib_ok L" and st: "restored L mk sq [] st"
  shows "\<forall>n\<in>set xs. order_ready L now m tick lot n \<Longrightarrow> sorted_wrt follows xs \<Longrightarrow> distinct (map n_OrderID xs) \<Longrightarrow>
    \<exists>st'. restoreOrders L now m tick lot st (map (snapshotOrder L) xs) = Some (Inr st') \<and> restored L mk sq xs st'"
proof (induction xs rule: rev_induct)
  case Nil
  then show ?case using st by simp
next
  case (snoc n xs)
  obtain st1 where st1: "restoreOrders L now m tick lot st (map (snapshotOrder L) xs) = Some (Inr st1)"
    "restored L mk sq xs st1"
    using snoc.IH snoc.prems by (auto simp: sorted_wrt_append)
  have "\<exists>st'. restoreOrder L now m tick lot st1 (snapshotOrder L n) = Some (Inr st') \<and>
      restored L mk sq (xs @ [n]) st'"
    using snoc.prems by (intro restoreOrder_serialized[OF L st1(2)]) (auto simp: sorted_wrt_append)
  with st1(1) show ?case by (auto simp: restoreOrders_append)
qed

lemma serializeSide_resting:
  assumes sd: "side_ok L sp idx sd"
  shows "serializeSide L idx sd = map (snapshotOrder L) (resting_side L idx sd)"
proof -
  have "(case s_PriceLevels sd (d_String L p) of None \<Rightarrow> []
      | Some level \<Rightarrow> map (snapshotOrder L) (List.map_filter idx (l_Orders level))) =
      map (snapshotOrder L) (level_nodes L idx (s_PriceLevels sd) p)" if p: "p \<in> set (s_SortedPrices sd)" for p
  proof -
    obtain lv where lv: "s_PriceLevels sd (d_String L p) = Some lv" "level_ok idx sp p lv"
      using side_okD(4)[OF sd p] by blast
    have "List.map_filter idx (l_Orders lv) = map (\<lambda>i. the (idx i)) (l_Orders lv)"
      unfolding map_filter_def using level_ok_ex[OF lv(2)]
      by (subst filter_True) (auto simp: o_def)
    with lv(1) show ?thesis by (simp add: level_nodes_def)
  qed
  then show ?thesis unfolding serializeSide_def resting_side_def map_concat map_map
    by (intro arg_cong[of _ _ concat] map_cong) simp_all
qed

lemma Serialize_orders:
  assumes "book_ok L bk"
  shows "bs_Orders (Serialize L bk part off) =
     map (snapshotOrder L) (resting L bk SideBuy @ resting L bk SideSell)"
  using serializeSide_resting[OF book_okD(2)[OF assms, of SideBuy]]
    serializeSide_resting[OF book_okD(2)[OF assms, of SideSell]]
  by (simp add: Serialize_def resting_def)

text \<open>The books whose snapshot can be restored: admissible orders, queues in timestamp order.\<close>

definition snapshot_ready :: "('d::linordered_idom) lib \<Rightarrow> time \<Rightarrow> 'd \<Rightarrow> 'd \<Rightarrow> 'd order_book \<Rightarrow> bool" where
  "snapshot_ready L now tick lot bk \<longleftrightarrow>
     (\<forall>sp. \<forall>n\<in>set (resting L bk sp). order_ready L now (b_MarketID bk) tick lot n) \<and>
     (\<forall>sp. sorted_wrt (\<lambda>m n. n_Price m = n_Price n \<longrightarrow> n_Timestamp m \<le> n_Timestamp n) (resting L bk sp))"

lemma ready_follows:
  assumes ok: "book_ok L bk" and r: "snapshot_ready L now tick lot bk"
  shows "sorted_wrt follows (resting L bk SideBuy @ resting L bk SideSell)"
proof -
  have sd: "n_Side n = sp" if "n \<in> set (resting L bk sp)" for n sp
    using set_resting[OF ok] that by blast
  have "sorted_wrt follows (resting L bk sp)" for sp
  proof -
    have "sorted_wrt (\<lambda>m n. \<not> better sp (n_Price n) (n_Price m) \<and>
        (n_Price m = n_Price n \<longrightarrow> n_Timestamp m \<le> n_Timestamp n)) (resting L bk sp)"
      using resting_sorted(2)[OF ok, of sp] r unfolding snapshot_ready_def sorted_wrt_iff_nth_less by blast
    then show ?thesis
      by (rule sorted_wrt_mono_rel[rotated]) (auto simp: follows_def sd)
  qed
  then show ?thesis by (auto simp: sorted_wrt_append follows_def dest!: sd)
qed

lemma resting_ids_distinct:
  assumes ok: "book_ok L bk"
  shows "distinct (map n_OrderID (resting L bk SideBuy @ resting L bk SideSell))"
proof -
  have "n_OrderID ` set (resting L bk SideBuy) \<inter> n_OrderID ` set (resting L bk SideSell) = {}"
    using set_resting[OF ok] by force
  with resting_sorted(1)[OF ok] show ?thesis by simp
qed

lemma Restore_Serialize:
  assumes L: "lib_ok L" and ok: "book_ok L bk" and r: "snapshot_ready L now tick lot bk"
    and m: "b_MarketID bk0 = b_MarketID bk" and off: "off \<le> checkpoint"
    and c: "ck (Serialize L bk part off) = Some digest"
  shows "Restore L ck now bk0 (Serialize L bk part off) (b_MarketID bk) part checkpoint digest tick lot =
    Some (bk, None)"
proof -
  let ?ns = "resting L bk SideBuy @ resting L bk SideSell" and ?st = "stagedStart bk0 (b_Sequence bk)"
  have start: "restored L (b_MarketID bk) (b_Sequence bk) [] ?st"
    using stagedStart_ok[of L bk0 "b_Sequence bk"] NewOrderBook_ok(2)[of L] m
    by (simp add: restored_def staged_ok_def stagedStart_def)
  have "\<forall>n\<in>set ?ns. order_ready L now (b_MarketID bk) tick lot n"
    using r by (auto simp: snapshot_ready_def)
  from restoreOrders_serialized[OF L start this ready_follows[OF ok r] resting_ids_distinct[OF ok]]
  obtain st where st: "restoreOrders L now (b_MarketID bk) tick lot ?st (map (snapshotOrder L) ?ns) = Some (Inr st)"
    "restored L (b_MarketID bk) (b_Sequence bk) ?ns st" by blast
  have lists: "resting L (r_staged st) sp = resting L bk sp" for sp
  proof -
    have sides: "\<forall>n\<in>set (resting L bk sd). n_Side n = sd" for sd using set_resting[OF ok] by blast
    have "filter (\<lambda>n. n_Side n = sp) (resting L bk sd) = (if sd = sp then resting L bk sd else [])" for sd
      using sides[of sd] by (auto simp: filter_id_conv filter_empty_conv)
    with st(2) show ?thesis by (cases sp) (simp_all add: restored_def)
  qed
  have staged: "r_staged st = bk"
    by (rule book_unique[OF _ ok lists]) (use st(2) in \<open>auto simp only: restored_def\<close>)
  have swap: "bk0\<lparr>b_Bids := b_Bids bk, b_Asks := b_Asks bk, b_OrderIndex := b_OrderIndex bk,
      b_Sequence := b_Sequence bk\<rparr> = bk"
    using m by (intro order_book.equality) simp_all
  have f: "bs_SchemaVersion (Serialize L bk part off) = CurrentSchemaVersion"
    "bs_MarketID (Serialize L bk part off) = b_MarketID bk" "bs_Partition (Serialize L bk part off) = part"
    "bs_Offset (Serialize L bk part off) = off" "bs_Sequence (Serialize L bk part off) = b_Sequence bk"
    by (simp_all add: Serialize_def)
  have off': "\<not> off > checkpoint" using off by simp
  show ?thesis
    unfolding Restore_def f Serialize_orders[OF ok] st(1) c
    by (simp only: off' if_False if_True not_True_eq_False simp_thms option.case bind.bind_lunit sum.case staged swap)
qed

section \<open>Which snapshots \<open>Restore\<close> refuses\<close>

text \<open>Side and price order, which every well-formed book has, is \<open>follows\<close> but for the timestamps.\<close>

definition ordered :: "('d::linordered_idom) order_node \<Rightarrow> 'd order_node \<Rightarrow> bool" where
  "ordered a b \<longleftrightarrow>
     (n_Side b = SideBuy \<longrightarrow> n_Side a = SideBuy) \<and>
     (n_Side a = n_Side b \<longrightarrow> \<not> better (n_Side b) (n_Price b) (n_Price a))"

lemma follows_ordered:
  "follows a b \<longleftrightarrow> ordered a b \<and> (n_Side a = n_Side b \<longrightarrow> n_Price a = n_Price b \<longrightarrow> n_Timestamp a \<le> n_Timestamp b)"
  by (auto simp: follows_def ordered_def)

text \<open>An order as a live book holds it, on a timestamp the format can carry.\<close>

definition order_printable :: "string \<Rightarrow> ('d::linordered_idom) order_node \<Rightarrow> bool" where
  "order_printable m n \<longleftrightarrow>
     n_MarketID n = m \<and> t_rfc3339 (n_Timestamp n) \<and> n_OrderType n = OrderTypeLimit \<and>
     0 < n_RemainingQty n \<and> n_RemainingQty n \<le> n_OriginalQty n"

lemma restoreOrder_accepts:
  assumes L: "lib_ok L" and n: "order_printable m n"
    and r: "restoreOrder L now m tick lot st (snapshotOrder L n) = Some (Inr st')"
  shows "order_ready L now m tick lot n" and "checkStructure st (n_Side n) (n_Price n) (n_Timestamp n) = None"
proof -
  have parse: "as_side (side_string (n_Side n)) = Some (n_Side n)"
    by (cases "n_Side n") (simp_all add: as_side_def)
  have time: "t_ParseNano L (t_FormatNano L (n_Timestamp n)) = Some (n_Timestamp n)"
    and nd: "n_OrderType n = OrderTypeLimit"
    using lib_okD(3)[OF L] n by (auto simp: order_printable_def)
  have "(0 < tick \<longrightarrow> d_Mod L (n_Price n) tick = 0) \<and> (0 < lot \<longrightarrow> d_Mod L (n_OriginalQty n) lot = 0 \<and>
      d_Mod L (n_RemainingQty n) lot = 0) \<and> 0 < n_Price n \<and> n_Timestamp n \<noteq> 0 \<and> n_Timestamp n \<le> now + hours24 \<and>
      checkStructure st (n_Side n) (n_Price n) (n_Timestamp n) = None"
    using r by (simp add: restoreOrder_def snapshotOrder_def lib_okD(1,2)[OF L] time parse nd not_le
        split: if_splits option.splits)
  with n show "order_ready L now m tick lot n" "checkStructure st (n_Side n) (n_Price n) (n_Timestamp n) = None"
    by (simp_all add: order_ready_def order_printable_def)
qed

lemma checked_follows:
  assumes st: "restored L mk sq xs st" and c: "checkStructure st (n_Side n) (n_Price n) (n_Timestamp n) = None"
    and xs: "sorted_wrt follows xs" and o: "\<forall>k\<in>set xs. ordered k n" and k: "k \<in> set xs"
  shows "follows k n"
proof -
  from k obtain l ys where l: "xs = ys @ [l]" by (cases xs rule: rev_cases) auto
  have last: "r_lastSide st = Some (n_Side l)" "r_lastPrice st = n_Price l" "r_lastTime st = n_Timestamp l"
    using st by (simp_all add: restored_def l)
  have kl: "k = l \<or> follows k l" using xs k by (auto simp: l sorted_wrt_append)
  have ok: "ordered k n" "ordered l n" using o k by (auto simp: l)
  have "n_Timestamp k \<le> n_Timestamp n" if s: "n_Side k = n_Side n" and p: "n_Price k = n_Price n"
  proof -
    have sl: "n_Side l = n_Side n" using s kl ok(2) by (cases "n_Side l"; cases "n_Side n") (auto simp: follows_def ordered_def)
    have pl: "n_Price l = n_Price n"
      using s p sl kl ok(2) by (cases "n_Side n") (auto simp: follows_def ordered_def)
    have "n_Timestamp l \<le> n_Timestamp n"
      using c sl pl last by (cases "n_Side n") (auto simp: checkStructure_def split: if_splits)
    with kl s p sl pl show ?thesis by (auto simp: follows_def)
  qed
  with ok(1) show ?thesis by (simp add: follows_ordered)
qed

lemma restoreOrder_total:
  assumes "lib_ok L" and "book_ok L (r_staged st)"
  shows "\<exists>r. restoreOrder L now m tick lot st so = Some r"
  using restoreOrder_shape[of L now m tick lot st so]
proof (elim disjE exE conjE)
  fix nd assume nd: "restorable (r_staged st) nd"
    and eq: "restoreOrder L now m tick lot st so = Option.bind (InsertRestoredOrder L (r_staged st) nd)
      (\<lambda>staged. Some (Inr \<lparr>r_staged = staged, r_seenAsks = (r_seenAsks st \<or> n_Side nd = SideSell),
         r_lastSide = Some (n_Side nd), r_lastPrice = n_Price nd, r_lastTime = n_Timestamp nd\<rparr>))"
  from InsertRestoredOrder_correct[OF assms, of nd] nd show ?thesis
    by (auto simp: eq restorable_def)
qed simp

lemma restoreOrders_exact:
  assumes L: "lib_ok L" and st: "restored L mk sq [] st"
  shows "\<forall>n\<in>set xs. order_printable m n \<Longrightarrow> sorted_wrt ordered xs \<Longrightarrow> distinct (map n_OrderID xs) \<Longrightarrow>
    \<exists>r. restoreOrders L now m tick lot st (map (snapshotOrder L) xs) = Some r \<and>
      (\<forall>st'. r = Inr st' \<longrightarrow> restored L mk sq xs st' \<and>
         (\<forall>n\<in>set xs. order_ready L now m tick lot n) \<and> sorted_wrt follows xs)"
proof (induction xs rule: rev_induct)
  case Nil
  then show ?case using st by simp
next
  case (snoc n xs)
  obtain r where r: "restoreOrders L now m tick lot st (map (snapshotOrder L) xs) = Some r"
    "\<forall>st'. r = Inr st' \<longrightarrow> restored L mk sq xs st' \<and>
       (\<forall>n\<in>set xs. order_ready L now m tick lot n) \<and> sorted_wrt follows xs"
    using snoc.IH snoc.prems by (auto simp: sorted_wrt_append)
  show ?case
  proof (cases r)
    case (Inl e)
    with r(1) show ?thesis by (simp add: restoreOrders_append)
  next
    case (Inr st1)
    with r(2) have st1: "restored L mk sq xs st1" "\<forall>n\<in>set xs. order_ready L now m tick lot n" "sorted_wrt follows xs"
      by auto
    have "book_ok L (r_staged st1)" using st1(1) by (simp add: restored_def)
    from restoreOrder_total[OF L this] obtain r1 where
      r1: "restoreOrder L now m tick lot st1 (snapshotOrder L n) = Some r1" by blast
    have "restored L mk sq (xs @ [n]) st' \<and> order_ready L now m tick lot n \<and> (\<forall>k\<in>set xs. follows k n)"
      if i: "r1 = Inr st'" for st'
    proof -
      have n: "order_printable m n" and o: "\<forall>k\<in>set xs. ordered k n" and d: "n_OrderID n \<notin> n_OrderID ` set xs"
        using snoc.prems by (auto simp: sorted_wrt_append)
      note a = restoreOrder_accepts[OF L n r1[unfolded i]]
      have f: "\<forall>k\<in>set xs. follows k n" using checked_follows[OF st1(1) a(2) st1(3) o] by blast
      from restoreOrder_serialized[OF L st1(1) a(1) f d] r1 i a(1) f show ?thesis by auto
    qed
    with r(1) Inr r1 st1 show ?thesis by (cases r1) (auto simp: restoreOrders_append sorted_wrt_append)
  qed
qed

lemma resting_ordered:
  assumes ok: "book_ok L bk"
  shows "sorted_wrt ordered (resting L bk SideBuy @ resting L bk SideSell)"
proof -
  have sd: "n_Side n = sp" if "n \<in> set (resting L bk sp)" for n sp
    using set_resting[OF ok] that by blast
  have "sorted_wrt ordered (resting L bk sp)" for sp
    using resting_sorted(2)[OF ok, of sp] by (rule sorted_wrt_mono_rel[rotated]) (auto simp: ordered_def sd)
  then show ?thesis by (auto simp: sorted_wrt_append ordered_def dest!: sd)
qed

lemma resting_printable:
  assumes ok: "book_ok L bk"
    and p: "\<forall>sp. \<forall>n\<in>set (resting L bk sp). n_MarketID n = b_MarketID bk \<and> t_rfc3339 (n_Timestamp n)"
  shows "\<forall>n\<in>set (resting L bk sp). order_printable (b_MarketID bk) n"
proof
  fix n assume n: "n \<in> set (resting L bk sp)"
  then have "b_OrderIndex bk (n_OrderID n) = Some n" using set_resting[OF ok] by blast
  with n p book_okD(1)[OF ok] show "order_printable (b_MarketID bk) n"
    by (auto simp: order_printable_def index_ok_def)
qed

lemma follows_ready:
  assumes ok: "book_ok L bk" and r: "\<forall>sp. \<forall>n\<in>set (resting L bk sp). order_ready L now (b_MarketID bk) tick lot n"
    and f: "sorted_wrt follows (resting L bk SideBuy @ resting L bk SideSell)"
  shows "snapshot_ready L now tick lot bk"
proof -
  have sd: "n_Side n = sp" if "n \<in> set (resting L bk sp)" for n sp
    using set_resting[OF ok] that by blast
  have "sorted_wrt follows (resting L bk sp)" for sp using f by (cases sp) (auto simp: sorted_wrt_append)
  then have "sorted_wrt (\<lambda>m n. n_Price m = n_Price n \<longrightarrow> n_Timestamp m \<le> n_Timestamp n) (resting L bk sp)" for sp
    by (rule sorted_wrt_mono_rel[rotated]) (auto simp: follows_def sd)
  with r show ?thesis by (simp add: snapshot_ready_def)
qed

lemma Restore_refuses:
  assumes L: "lib_ok L" and ok: "book_ok L bk" and r: "\<not> snapshot_ready L now tick lot bk"
    and p: "\<forall>sp. \<forall>n\<in>set (resting L bk sp). n_MarketID n = b_MarketID bk \<and> t_rfc3339 (n_Timestamp n)"
    and m: "b_MarketID bk0 = b_MarketID bk" and off: "off \<le> checkpoint"
    and c: "ck (Serialize L bk part off) = Some digest"
  shows "\<exists>e. Restore L ck now bk0 (Serialize L bk part off) (b_MarketID bk) part checkpoint digest tick lot =
    Some (bk0, Some e)"
proof -
  let ?ns = "resting L bk SideBuy @ resting L bk SideSell" and ?st = "stagedStart bk0 (b_Sequence bk)"
  have start: "restored L (b_MarketID bk) (b_Sequence bk) [] ?st"
    using stagedStart_ok[of L bk0 "b_Sequence bk"] NewOrderBook_ok(2)[of L] m
    by (simp add: restored_def staged_ok_def stagedStart_def)
  have "\<forall>n\<in>set ?ns. order_printable (b_MarketID bk) n" using resting_printable[OF ok p] by auto
  from restoreOrders_exact[OF L start this resting_ordered[OF ok] resting_ids_distinct[OF ok]]
  obtain r0 where r0: "restoreOrders L now (b_MarketID bk) tick lot ?st (map (snapshotOrder L) ?ns) = Some r0"
    "\<forall>st'. r0 = Inr st' \<longrightarrow> (\<forall>n\<in>set ?ns. order_ready L now (b_MarketID bk) tick lot n) \<and> sorted_wrt follows ?ns"
    by blast
  have "\<exists>e. r0 = Inl e"
  proof (cases r0)
    case (Inr st')
    with r0(2) have a: "\<forall>n\<in>set ?ns. order_ready L now (b_MarketID bk) tick lot n" "sorted_wrt follows ?ns" by auto
    have "\<forall>sp. \<forall>n\<in>set (resting L bk sp). order_ready L now (b_MarketID bk) tick lot n"
    proof
      fix sp show "\<forall>n\<in>set (resting L bk sp). order_ready L now (b_MarketID bk) tick lot n"
        using a(1) by (cases sp) auto
    qed
    from follows_ready[OF ok this a(2)] r show ?thesis by simp
  qed simp
  then obtain e where e: "r0 = Inl e" by blast
  have f: "bs_SchemaVersion (Serialize L bk part off) = CurrentSchemaVersion"
    "bs_MarketID (Serialize L bk part off) = b_MarketID bk" "bs_Partition (Serialize L bk part off) = part"
    "bs_Offset (Serialize L bk part off) = off" "bs_Sequence (Serialize L bk part off) = b_Sequence bk"
    by (simp_all add: Serialize_def)
  have off': "\<not> off > checkpoint" using off by simp
  show ?thesis
    unfolding Restore_def f Serialize_orders[OF ok] r0(1)[unfolded e] c
    by (simp only: off' if_False if_True not_True_eq_False simp_thms option.case bind.bind_lunit sum.case ex_simps) blast
qed

section \<open>Properties\<close>

text \<open>
  C6. Snapshot round trip, and its limit. Let a well-formed book hold orders of its own market
  with timestamps that can be printed. Restoring its snapshot into any book of the market
  rebuilds it exactly, every level, total, queue position, index entry and the sequence, if
  and only if its orders are admissible (a positive price on the tick, quantities on the lot, a
  time neither zero nor a day ahead) and every price queue is in timestamp order; otherwise
  \<open>Restore\<close> reports an error and leaves the book it was given as it is.
\<close>

theorem snapshot_roundtrip:
  assumes "lib_ok L" and "book_ok L bk"
    and "\<forall>sp. \<forall>n\<in>set (resting L bk sp). n_MarketID n = b_MarketID bk \<and> t_rfc3339 (n_Timestamp n)"
    and "b_MarketID bk0 = b_MarketID bk" and "off \<le> checkpoint"
    and "ck (Serialize L bk part off) = Some digest"
  shows "\<exists>err. Restore L ck now bk0 (Serialize L bk part off) (b_MarketID bk) part checkpoint digest tick lot =
      Some (if snapshot_ready L now tick lot bk then bk else bk0, err) \<and>
    (err = None \<longleftrightarrow> snapshot_ready L now tick lot bk)"
proof (cases "snapshot_ready L now tick lot bk")
  case True
  with Restore_Serialize[where ck = ck, OF assms(1,2) True assms(4-6)] show ?thesis by simp
next
  case False
  with Restore_refuses[where ck = ck, OF assms(1,2) False assms(3-6)] show ?thesis by auto
qed

lemma sample_snapshot_ready: "snapshot_ready int_lib 7 1 1 sample_book"
proof -
  have "go_rem k 1 = 0" for k using go_rem_zero[of 1 k] by simp
  then have a: "order_ready int_lib 7 ''BTC-USDT'' 1 1 (sample_order 2 SideSell 9 3)"
    "order_ready int_lib 7 ''BTC-USDT'' 1 1 (sample_order 1 SideSell 10 4)"
    by (simp_all add: order_ready_def sample_order_def hours24_def t_rfc3339_def int_lib_def)
  show ?thesis unfolding snapshot_ready_def sample_book(6)
  proof (intro conjI allI)
    fix sp show "\<forall>n\<in>set (resting int_lib sample_book sp). order_ready int_lib 7 ''BTC-USDT'' 1 1 n"
      using a by (cases sp) (simp_all add: sample_book(2,3))
    show "sorted_wrt (\<lambda>m n. n_Price m = n_Price n \<longrightarrow> n_Timestamp m \<le> n_Timestamp n) (resting int_lib sample_book sp)"
      by (cases sp) (simp_all add: sample_book(2,3) sample_order_def)
  qed
qed

theorem snapshot_roundtrip_witness:
  "Restore int_lib (\<lambda>_. Some ''sum'') 7 (NewOrderBook ''BTC-USDT'') (Serialize int_lib sample_book 2 40)
     ''BTC-USDT'' 2 41 ''sum'' 1 1 = Some (sample_book, None)"
proof -
  have m: "b_MarketID (NewOrderBook ''BTC-USDT'' :: int order_book) = b_MarketID sample_book"
    by (simp add: sample_book(6) NewOrderBook_def)
  have "\<forall>sp. \<forall>n\<in>set (resting int_lib sample_book sp). n_MarketID n = b_MarketID sample_book \<and> t_rfc3339 (n_Timestamp n)"
    using sample_snapshot_ready by (auto simp: snapshot_ready_def order_ready_def)
  from snapshot_roundtrip[OF int_lib_ok sample_book(1) this m, of 40 41 "\<lambda>_. Some ''sum''" 2 "''sum''" 7 1 1]
    sample_snapshot_ready show ?thesis by (simp add: sample_book(6))
qed

text \<open>
  C7. Restore is total and transactional. On any snapshot whatever it returns; when it
  reports an error the live book is untouched; when it succeeds the book is well-formed,
  has the snapshot's sequence and exactly one resting order per snapshot order, and the
  market, the checkpoint bound and the checksum were verified.
\<close>

theorem Restore_transactional:
  assumes "lib_ok L"
  shows "\<exists>bk' err. Restore L ck now bk snap m part cp chk tick lot = Some (bk', err) \<and>
    (err \<noteq> None \<longrightarrow> bk' = bk) \<and>
    (err = None \<longrightarrow> book_ok L bk' \<and> b_MarketID bk' = b_MarketID bk \<and> b_Sequence bk' = bs_Sequence snap \<and>
       card (dom (b_OrderIndex bk')) = length (bs_Orders snap) \<and>
       bs_MarketID snap = m \<and> bs_Offset snap \<le> cp \<and> ck snap = Some chk)"
  using Restore_any[OF assms] .

theorem Restore_transactional_witness:
  "\<exists>err. Restore int_lib (\<lambda>_. Some ''sum'') 7 sample_book (Serialize int_lib sample_book 2 40)
     ''BTC-USDT'' 2 39 ''sum'' 1 1 = Some (sample_book, err) \<and> err \<noteq> None"
  using Restore_transactional[OF int_lib_ok, of "\<lambda>_. Some ''sum''" 7 sample_book "Serialize int_lib sample_book 2 40"
      "''BTC-USDT''" 2 39 "''sum''" 1 1]
  by (auto simp: Serialize_def)

text \<open>
  The FIFO check of \<open>Restore\<close> reads the timestamps, which the live book never compares:
  two orders queued at one price with decreasing timestamps make a book that \<open>Serialize\<close>
  writes and \<open>Restore\<close> refuses.
\<close>

lemma Restore_unordered_queue:
  assumes L: "lib_ok L" and ok: "book_ok L bk" and two: "resting L bk SideBuy = [a, b]"
    and ready: "order_ready L now (b_MarketID bk) tick lot a" "order_ready L now (b_MarketID bk) tick lot b"
    and late: "n_Price b = n_Price a" "n_Timestamp b < n_Timestamp a"
    and m: "b_MarketID bk0 = b_MarketID bk" and off: "off \<le> checkpoint"
    and c: "ck (Serialize L bk part off) = Some digest"
  shows "Restore L ck now bk0 (Serialize L bk part off) (b_MarketID bk) part checkpoint digest tick lot =
    Some (bk0, Some BidsNotFIFO)"
proof -
  let ?st = "stagedStart bk0 (b_Sequence bk)"
  have start: "restored L (b_MarketID bk) (b_Sequence bk) [] ?st"
    using stagedStart_ok[of L bk0 "b_Sequence bk"] NewOrderBook_ok(2)[of L] m
    by (simp add: restored_def staged_ok_def stagedStart_def)
  have sides: "n_Side a = SideBuy" "n_Side b = SideBuy" "n_OrderID a \<noteq> n_OrderID b"
    using set_resting[OF ok, of _ SideBuy] resting_sorted(1)[OF ok, of SideBuy] two by auto
  obtain st where st: "restoreOrder L now (b_MarketID bk) tick lot ?st (snapshotOrder L a) = Some (Inr st)"
    "restored L (b_MarketID bk) (b_Sequence bk) [a] st"
    using restoreOrder_serialized[OF L start ready(1)] by auto
  have chk: "checkStructure st SideBuy (n_Price b) (n_Timestamp b) = Some BidsNotFIFO"
    using st(2) sides late by (simp add: checkStructure_def restored_def)
  have ok': "book_ok L (r_staged st)" and l: "resting L (r_staged st) SideBuy = [a]"
    "resting L (r_staged st) SideSell = []"
    using st(2) sides by (simp_all add: restored_def)
  have fresh: "b_OrderIndex (r_staged st) (n_OrderID b) = None"
  proof (rule ccontr)
    assume "b_OrderIndex (r_staged st) (n_OrderID b) \<noteq> None"
    then obtain k where "b_OrderIndex (r_staged st) (n_OrderID b) = Some k" by blast
    then have "n_OrderID k = n_OrderID b" "k \<in> set (resting L (r_staged st) (n_Side k))"
      using index_of_resting[OF ok'] by auto
    with l sides show False by (cases "n_Side k") auto
  qed
  have parse: "as_side (side_string (n_Side b)) = Some SideBuy" by (simp add: sides as_side_def)
  have nd: "0 < n_RemainingQty b" "n_RemainingQty b \<le> n_OriginalQty b" "n_OrderType b = OrderTypeLimit"
    "0 < n_Price b" "\<not> n_OriginalQty b \<le> 0" "\<not> n_Timestamp b > now + hours24"
    and mods: "\<not> (tick > 0 \<and> d_Mod L (n_Price b) tick \<noteq> 0)" "\<not> (lot > 0 \<and> d_Mod L (n_OriginalQty b) lot \<noteq> 0)"
    "\<not> (lot > 0 \<and> d_Mod L (n_RemainingQty b) lot \<noteq> 0)" "n_Timestamp b \<noteq> 0"
    and time: "t_ParseNano L (t_FormatNano L (n_Timestamp b)) = Some (n_Timestamp b)"
    using ready(2) lib_okD(3)[OF L] by (auto simp: order_ready_def)
  have "restoreOrder L now (b_MarketID bk) tick lot st (snapshotOrder L b) = Some (Inl BidsNotFIFO)"
    using nd fresh
    by (simp add: restoreOrder_def snapshotOrder_def lib_okD(1,2)[OF L] time parse mods chk not_le)
  then have run: "restoreOrders L now (b_MarketID bk) tick lot ?st
      (map (snapshotOrder L) (resting L bk SideBuy @ resting L bk SideSell)) = Some (Inl BidsNotFIFO)"
    by (simp add: two st(1))
  have f: "bs_SchemaVersion (Serialize L bk part off) = CurrentSchemaVersion"
    "bs_MarketID (Serialize L bk part off) = b_MarketID bk" "bs_Partition (Serialize L bk part off) = part"
    "bs_Offset (Serialize L bk part off) = off" "bs_Sequence (Serialize L bk part off) = b_Sequence bk"
    by (simp_all add: Serialize_def)
  have off': "\<not> off > checkpoint" using off by simp
  show ?thesis
    unfolding Restore_def f Serialize_orders[OF ok] run c
    by (simp only: off' if_False if_True not_True_eq_False simp_thms option.case bind.bind_lunit sum.case)
qed

end
