(* ===== verification/EngineProps.thy ===== *)
theory EngineProps
  imports EventLoop SnapshotProps
begin

text \<open>
  The engine's invariant and the properties of the event loop: every event is answered
  without a panic, the book stays well-formed and uncrossed, redelivered events change
  nothing while the window remembers them, a blocked market stays blocked, recovery publishes no fill.
\<close>

section \<open>The invariant\<close>

definition engine_ok :: "('d::linordered_idom) lib \<Rightarrow> 'd market_engine \<Rightarrow> bool" where
  "engine_ok L m \<longleftrightarrow>
     book_ok L (e_book m) \<and> uncrossed L (e_book m) \<and> b_MarketID (e_book m) = e_MarketID m \<and>
     ring_ok (e_eventRing m) \<and> e_processedEvents m = set (ring_contents (e_eventRing m)) \<and>
     distinct (ring_contents (e_eventRing m)) \<and> 0 \<notin> set (ring_contents (e_eventRing m)) \<and>
     e_haltCallbacks m \<le> (if e_isFatalHalt m then 1 else 0)"

lemma engine_okD:
  assumes "engine_ok L m"
  shows "book_ok L (e_book m)" "uncrossed L (e_book m)" "b_MarketID (e_book m) = e_MarketID m"
    "ring_ok (e_eventRing m)" "e_processedEvents m = set (ring_contents (e_eventRing m))"
    "distinct (ring_contents (e_eventRing m))" "0 \<notin> e_processedEvents m"
  using assms by (simp_all add: engine_ok_def)

lemma NewMarketEngine_ok: "engine_ok L (NewMarketEngine now config)"
  using NewOrderBook_ok[of L "mc_MarketID config"] empty_ring
  by (simp add: engine_ok_def NewMarketEngine_def uncrossed_def) (simp add: NewOrderBook_def)

text \<open>The invariant reads these fields only.\<close>

lemma engine_ok_upd [simp]:
  "engine_ok L (m\<lparr>e_mode := md\<rparr>) = engine_ok L m"
  "engine_ok L (m\<lparr>e_blockedReason := r\<rparr>) = engine_ok L m"
  "engine_ok L (m\<lparr>e_lastAppliedOffset := off\<rparr>) = engine_ok L m"
  "engine_ok L (m\<lparr>e_snapshot := sn\<rparr>) = engine_ok L m"
  "engine_ok L (PublishAtomicSnapshot L2 now m) = engine_ok L m"
  by (simp_all add: engine_ok_def PublishAtomicSnapshot_def)

lemma engine_ok_book:
  "engine_ok L m \<Longrightarrow> book_ok L bk \<Longrightarrow> uncrossed L bk \<Longrightarrow> b_MarketID bk = e_MarketID m \<Longrightarrow>
   engine_ok L (m\<lparr>e_book := bk\<rparr>)"
  by (simp add: engine_ok_def)

section \<open>Matching whatever the quantity\<close>

lemma Match_nonpos:
  assumes "n_RemainingQty inc \<le> 0"
  shows "Match L now bk inc mode ev = Some (bk, inc, [])"
proof -
  have "match_loop L now ev bk inc 0 [] = Some (bk, inc, [])"
    using assms by (subst match_loop.simps) simp
  with assms show ?thesis by (simp add: Match_def)
qed

lemma Match_any:
  assumes L: "lib_ok L" and ok: "book_ok L bk" and un: "uncrossed L bk"
    and new: "b_OrderIndex bk (n_OrderID inc) = None" and q: "n_RemainingQty inc = n_OriginalQty inc"
  shows "\<exists>bk' inc' fills. Match L now bk inc mode ev = Some (bk', inc', fills) \<and>
    book_ok L bk' \<and> uncrossed L bk' \<and> b_MarketID bk' = b_MarketID bk \<and>
    (mode = MatchRecovery \<longrightarrow> fills = [])"
proof (cases "n_RemainingQty inc \<le> 0")
  case True
  with Match_nonpos[OF True] ok un show ?thesis by simp
next
  case False
  then have inc: "incoming_ok bk inc" using new q by (simp add: incoming_ok_def)
  obtain i ms ts where sw: "sweep inc (resting L bk (opposite (n_Side inc))) = (i, ms, ts)"
    by (metis prod_cases3)
  from Match_sweep[OF L ok inc sw] obtain bk' where bk':
    "\<And>now mode ev. Match L now bk inc mode ev = Some (bk', i, if mode = MatchRecovery then []
        else fills_of L now ev (b_MarketID bk) (b_Sequence bk) 0 inc ts)"
    "book_ok L bk'" "b_MarketID bk' = b_MarketID bk" by blast
  from Match_uncrossed[OF L ok inc un bk'(1)] bk' show ?thesis by auto
qed

section \<open>Applying an event\<close>

definition payload_present :: "'d input_event \<Rightarrow> bool" where
  "payload_present ev \<longleftrightarrow>
     (ie_Type ev = EventOrderCreated \<longrightarrow> ie_OrderCreated ev \<noteq> None) \<and>
     (ie_Type ev = EventOrderCancel \<longrightarrow> ie_OrderCancel ev \<noteq> None)"

lemma resultOf_total:
  assumes "book_ok L bk"
  shows "\<exists>res. resultOf L now bk ev fills c = Some res \<and> mr_Fills res = fills \<and> mr_CancelResult res = c \<and>
    mr_SourcePosition res = position ev"
  using GetDepth_correct[OF assms] by (simp add: resultOf_def)

lemma uncrossed_sequence [simp]: "uncrossed L (bk\<lparr>b_Sequence := sq\<rparr>) = uncrossed L bk"
  by (simp add: uncrossed_def)

lemma Cancel_keeps:
  assumes "lib_ok L" "book_ok L bk" "uncrossed L bk"
  shows "\<exists>bk' out. Cancel L bk i u = Some (bk', out) \<and> book_ok L bk' \<and> uncrossed L bk' \<and> b_MarketID bk' = b_MarketID bk"
proof (cases "b_OrderIndex bk i")
  case None
  then show ?thesis using assms by (simp add: Cancel_def)
next
  case (Some n)
  obtain bk' where bk': "removeResting L bk (n_Side n) n = Some bk'" "book_ok L bk'"
    "resting L bk' (n_Side n) = filter (\<lambda>m. n_OrderID m \<noteq> i) (resting L bk (n_Side n))"
    "other_kept L (n_Side n) bk bk'"
    using removeResting_correct[OF assms(1,2) Some refl] by blast
  have sub: "set (resting L bk' sp) \<subseteq> set (resting L bk sp)" for sp
    using bk'(3,4) by (cases "sp = n_Side n") (auto simp: other_kept_def)
  have "uncrossed L bk'"
    using assms(3) sub[of SideBuy] sub[of SideSell] unfolding uncrossed_def by blast
  with bk' Some assms show ?thesis by (auto simp: Cancel_def other_kept_def)
qed

lemma rejectEvent_total:
  assumes "book_ok L (e_book m)"
  shows "\<exists>res. rejectEvent L now m ev = Some res \<and> mr_Fills res = [] \<and> mr_SourcePosition res = position ev \<and>
    (\<exists>c. mr_CancelResult res = Some c \<and> co_CancelStatus c = Some InvalidRequest)"
  using resultOf_total[OF assms, of now ev "[]"]
  by (fastforce simp: rejectEvent_def split: prod.split)

lemma applyOrderCreated_total:
  assumes L: "lib_ok L" and ok: "engine_ok L m"
  shows "\<exists>bk res. applyOrderCreated L now m ev p = Some (m\<lparr>e_book := bk\<rparr>, res) \<and>
    engine_ok L (m\<lparr>e_book := bk\<rparr>) \<and> mr_SourcePosition res = position ev \<and>
    (e_mode m \<noteq> ModeLive \<longrightarrow> mr_Fills res = [])"
proof -
  note b = engine_okD(1-3)[OF ok]
  have same: "m\<lparr>e_book := e_book m\<rparr> = m" by simp
  let ?nd = "nodeOf now p" and ?mode = "if e_mode m = ModeLive then MatchLive else MatchRecovery"
  show ?thesis
  proof (cases "oc_MarketID p \<noteq> e_MarketID m \<or> b_OrderIndex (e_book m) (n_OrderID ?nd) \<noteq> None \<or>
      \<not> validTickAndLot L ?nd (e_config m)")
    case True
    then obtain c where "applyOrderCreated L now m ev p =
        Option.bind (resultOf L now (e_book m) ev [] c) (\<lambda>res. Some (m, res))"
      unfolding applyOrderCreated_def Let_def by (cases "oc_MarketID p \<noteq> e_MarketID m";
        cases "b_OrderIndex (e_book m) (n_OrderID ?nd) \<noteq> None") auto
    with resultOf_total[OF b(1), of now ev "[]" c] ok show ?thesis
      by (intro exI[of _ "e_book m"]) (auto simp: same)
  next
    case False
    have q: "n_RemainingQty ?nd = n_OriginalQty ?nd" by (simp add: nodeOf_def)
    from False have new: "b_OrderIndex (e_book m) (n_OrderID ?nd) = None" by simp
    obtain bk inc fills where mt: "Match L now (e_book m) ?nd ?mode (ie_EventID ev) = Some (bk, inc, fills)"
      "book_ok L bk" "uncrossed L bk" "b_MarketID bk = b_MarketID (e_book m)" "?mode = MatchRecovery \<longrightarrow> fills = []"
      using Match_any[OF L b(1,2) new q] by blast
    obtain res where res: "resultOf L now bk ev fills
        (if n_OrderType inc = OrderTypeMarket \<and> n_RemainingQty inc > 0 then
           Some \<lparr>co_OrderID = n_OrderID inc, co_UserID = n_UserID inc, co_MarketID = n_MarketID inc,
             co_RemainingQuantity = n_RemainingQty inc, co_Reason = ''ioc_expired'',
             co_CancelStatus = None, co_CancelledAt = now, co_SourceOffset = ie_Offset ev\<rparr> else None) = Some res"
      "mr_Fills res = fills" "mr_SourcePosition res = position ev"
      using resultOf_total[OF mt(2)] by blast
    have "applyOrderCreated L now m ev p = Some (m\<lparr>e_book := bk\<rparr>, res)"
      using False mt(1) res(1) by (simp add: applyOrderCreated_def Let_def)
    moreover have "engine_ok L (m\<lparr>e_book := bk\<rparr>)" using engine_ok_book[OF ok mt(2,3)] mt(4) b(3) by simp
    ultimately show ?thesis using res(2,3) mt(5) by auto
  qed
qed

lemma applyOrderCancel_total:
  assumes L: "lib_ok L" and ok: "engine_ok L m"
  shows "\<exists>bk res. applyOrderCancel L now m ev p = Some (m\<lparr>e_book := bk\<rparr>, res) \<and>
    engine_ok L (m\<lparr>e_book := bk\<rparr>) \<and> mr_SourcePosition res = position ev \<and> mr_Fills res = []"
proof (cases "ol_MarketID p \<noteq> e_MarketID m")
  case True
  have same: "m\<lparr>e_book := e_book m\<rparr> = m" by simp
  from True obtain c where "applyOrderCancel L now m ev p =
      Option.bind (resultOf L now (e_book m) ev [] c) (\<lambda>res. Some (m, res))"
    by (simp add: applyOrderCancel_def)
  with resultOf_total[OF engine_okD(1)[OF ok], of now ev "[]" c] ok show ?thesis
    by (intro exI[of _ "e_book m"]) (auto simp: same)
next
  case False
  obtain bk out where c: "Cancel L (e_book m) (ol_OrderID p) (ol_UserID p) = Some (bk, out)"
    "book_ok L bk" "uncrossed L bk" "b_MarketID bk = b_MarketID (e_book m)"
    using Cancel_keeps[OF L engine_okD(1,2)[OF ok]] by blast
  define bk' where "bk' = (if o_Status out = RemovedFromBook then bk\<lparr>b_Sequence := b_Sequence bk + 1\<rparr> else bk)"
  have bk': "book_ok L bk'" "uncrossed L bk'" "b_MarketID bk' = e_MarketID m"
    using c engine_okD(3)[OF ok] by (simp_all add: bk'_def)
  from False c(1) have "\<exists>cr. applyOrderCancel L now m ev p =
      Option.bind (resultOf L now bk' ev [] cr) (\<lambda>res. Some (m\<lparr>e_book := bk'\<rparr>, res))"
    by (simp add: applyOrderCancel_def Let_def bk'_def) blast
  then obtain cr where "applyOrderCancel L now m ev p =
      Option.bind (resultOf L now bk' ev [] cr) (\<lambda>res. Some (m\<lparr>e_book := bk'\<rparr>, res))" by blast
  with resultOf_total[OF bk'(1), of now ev "[]" cr] engine_ok_book[OF ok bk'] show ?thesis by auto
qed

lemma applyEvent_total:
  assumes L: "lib_ok L" and ok: "engine_ok L m"
    and p: "payload_present ev \<or> applyEvent L now m ev \<noteq> None"
  shows "\<exists>bk r. applyEvent L now m ev = Some (m\<lparr>e_book := bk\<rparr>, r) \<and> engine_ok L (m\<lparr>e_book := bk\<rparr>) \<and>
    (\<forall>res. r = Inr res \<longrightarrow> mr_SourcePosition res = position ev \<and> (e_mode m \<noteq> ModeLive \<longrightarrow> mr_Fills res = [])) \<and>
    (e_mode m = ModeBlocked \<or> e_mode m = ModeReconciling \<longrightarrow> bk = e_book m) \<and>
    (r = Inl UnknownEventType \<longleftrightarrow> e_mode m \<noteq> ModeBlocked \<and> e_mode m \<noteq> ModeReconciling \<and>
       ie_Type ev \<noteq> EventOrderCreated \<and> ie_Type ev \<noteq> EventOrderCancel)"
proof (cases "e_mode m = ModeBlocked \<or> e_mode m = ModeReconciling")
  case True
  have same: "m\<lparr>e_book := e_book m\<rparr> = m" by simp
  from True rejectEvent_total[OF engine_okD(1)[OF ok], of now ev] ok show ?thesis
    by (intro exI[of _ "e_book m"]) (auto simp: applyEvent_def same)
next
  case False
  show ?thesis
  proof (cases "ie_Type ev")
    case EventOrderCreated
    with p False obtain q where "ie_OrderCreated ev = Some q"
      by (cases "ie_OrderCreated ev") (auto simp: payload_present_def applyEvent_def)
    with False EventOrderCreated applyOrderCreated_total[OF L ok, of now ev q] show ?thesis
      by (auto simp: applyEvent_def)
  next
    case EventOrderCancel
    with p False obtain q where "ie_OrderCancel ev = Some q"
      by (cases "ie_OrderCancel ev") (auto simp: payload_present_def applyEvent_def)
    with False EventOrderCancel applyOrderCancel_total[OF L ok, of now ev q] show ?thesis
      by (auto simp: applyEvent_def)
  qed (use False ok in \<open>auto simp: applyEvent_def intro!: exI[of _ "e_book m"]\<close>)
qed

section \<open>The loop\<close>

lemma rememberEvent_ok:
  assumes ok: "engine_ok L m" and new: "eid = 0 \<or> eid \<notin> e_processedEvents m"
  shows "engine_ok L (rememberEvent m eid)"
proof (cases "eid = 0")
  case True
  with ok show ?thesis by (simp add: rememberEvent_def)
next
  case False
  note d = engine_okD(4-7)[OF ok]
  have new': "eid \<notin> e_processedEvents m" using new False by simp
  from ring.remember_window[OF d(1,2,3) new' False d(4)]
  have w: "ring.remember (e_processedEvents m) (snd (ring_add (e_eventRing m) eid)) eid =
      set (ring_contents (fst (ring_add (e_eventRing m) eid)))"
    "distinct (ring_contents (fst (ring_add (e_eventRing m) eid)))"
    "0 \<notin> set (ring_contents (fst (ring_add (e_eventRing m) eid)))" by blast+
  have r: "rememberEvent m eid = m\<lparr>e_eventRing := fst (ring_add (e_eventRing m) eid),
      e_processedEvents := ring.remember (e_processedEvents m) (snd (ring_add (e_eventRing m) eid)) eid\<rparr>"
    using False by (simp add: rememberEvent_def ring.remember_def split_beta)
  show ?thesis unfolding r using ok w ring.add_ok[OF d(1)] by (simp add: engine_ok_def)
qed

lemma rememberEvent_fields [simp]:
  "e_book (rememberEvent m eid) = e_book m" "e_mode (rememberEvent m eid) = e_mode m"
  "e_lastAppliedOffset (rememberEvent m eid) = e_lastAppliedOffset m"
  "e_isFatalHalt (rememberEvent m eid) = e_isFatalHalt m" "e_MarketID (rememberEvent m eid) = e_MarketID m"
  "e_config (rememberEvent m eid) = e_config m"
  by (simp_all add: rememberEvent_def split_beta)

lemma rememberEvent_seen: "eid \<noteq> 0 \<Longrightarrow> eid \<in> e_processedEvents (rememberEvent m eid)"
  by (simp add: rememberEvent_def split_beta)

lemma TriggerFatalHalt_ok: "engine_ok L m \<Longrightarrow> engine_ok L (TriggerFatalHalt m)"
  by (cases "e_isFatalHalt m") (auto simp: engine_ok_def TriggerFatalHalt_def)

lemma TriggerFatalHalt_fields [simp]:
  "e_book (TriggerFatalHalt m) = e_book m" "e_mode (TriggerFatalHalt m) = e_mode m"
  "e_isFatalHalt (TriggerFatalHalt m)" "e_lastAppliedOffset (TriggerFatalHalt m) = e_lastAppliedOffset m"
  by (simp_all add: TriggerFatalHalt_def)

lemma PublishAtomicSnapshot_fields [simp]:
  "e_book (PublishAtomicSnapshot L now m) = e_book m" "e_mode (PublishAtomicSnapshot L now m) = e_mode m"
  "e_isFatalHalt (PublishAtomicSnapshot L now m) = e_isFatalHalt m"
  "e_lastAppliedOffset (PublishAtomicSnapshot L now m) = e_lastAppliedOffset m"
  "e_processedEvents (PublishAtomicSnapshot L now m) = e_processedEvents m"
  by (simp_all add: PublishAtomicSnapshot_def)

lemma sendResult_fields [simp]:
  "rs_engine (sendResult rs res) = rs_engine rs" "rs_phase (sendResult rs res) = rs_phase rs"
  "rs_out (sendResult rs res) = rs_out rs @ [res]" "rs_closed (sendResult rs res) = rs_closed rs"
  by (simp_all add: sendResult_def)

lemma closeAndStop_fields [simp]:
  "rs_engine (closeAndStop rs) = rs_engine rs" "rs_out (closeAndStop rs) = rs_out rs"
  by (simp_all add: closeAndStop_def)

lemma attachSnapshot_fields:
  assumes "attachSnapshot L now ev rs res = (rs', res')"
  shows "rs_engine rs' = rs_engine rs" "rs_out rs' = rs_out rs" "rs_phase rs' = rs_phase rs"
    "mr_Fills res' = mr_Fills res" "mr_SourcePosition res' = mr_SourcePosition res"
  using assms by (auto simp: attachSnapshot_def Let_def split: if_splits)

text \<open>
  What one received event does when the engine is not halted: the engine stays good, the
  offset moves forward to the event's, the book changes only for a new event of an open
  market, and exactly one result is sent unless the event has an unknown type.
\<close>

definition stale :: "'d market_engine \<Rightarrow> 'd input_event \<Rightarrow> bool" where
  "stale m ev \<longleftrightarrow> ie_Offset ev \<le> e_lastAppliedOffset m \<or> ie_EventID ev \<noteq> 0 \<and> ie_EventID ev \<in> e_processedEvents m"

definition answered :: "('d::linordered_idom) lib \<Rightarrow> 'd run_state \<Rightarrow> 'd input_event \<Rightarrow> 'd run_state \<Rightarrow> bool" where
  "answered L rs ev rs' \<longleftrightarrow>
     engine_ok L (rs_engine rs') \<and> e_mode (rs_engine rs') = e_mode (rs_engine rs) \<and>
     e_lastAppliedOffset (rs_engine rs) \<le> e_lastAppliedOffset (rs_engine rs') \<and>
     (stale (rs_engine rs) ev \<or> e_mode (rs_engine rs) = ModeBlocked \<or> e_mode (rs_engine rs) = ModeReconciling \<longrightarrow>
        e_book (rs_engine rs') = e_book (rs_engine rs)) \<and>
     (\<exists>outs. rs_out rs' = rs_out rs @ outs \<and>
        (\<forall>res\<in>set outs. mr_SourcePosition res = position ev \<and>
           (stale (rs_engine rs) ev \<or> e_mode (rs_engine rs) \<noteq> ModeLive \<longrightarrow> mr_Fills res = [])))"

lemma runEvent_answered:
  assumes L: "lib_ok L" and ok: "engine_ok L (rs_engine rs)"
    and p: "payload_present ev \<or> runEvent L now rs ev \<noteq> None"
    and live: "\<not> e_isFatalHalt (rs_engine rs)" and run: "rs_phase rs = Running"
  shows "\<exists>rs'. runEvent L now rs ev = Some rs' \<and> answered L rs ev rs' \<and>
    (rs_phase rs' = Running \<longrightarrow> length (rs_out rs') = Suc (length (rs_out rs))) \<and>
    (ie_Type ev = EventOrderCreated \<or> ie_Type ev = EventOrderCancel \<longrightarrow>
       rs_phase rs' = Running \<and> \<not> e_isFatalHalt (rs_engine rs') \<and> ie_Offset ev \<le> e_lastAppliedOffset (rs_engine rs') \<and>
       (ie_EventID ev \<noteq> 0 \<longrightarrow> \<not> ie_Offset ev \<le> e_lastAppliedOffset (rs_engine rs) \<longrightarrow>
          ie_EventID ev \<in> e_processedEvents (rs_engine rs')))"
proof -
  let ?m = "rs_engine rs"
  note b = engine_okD(1)[OF ok]
  show ?thesis
  proof (cases "ie_Type ev = EventRecoveryBarrier")
    case True
    with live ok show ?thesis
      by (auto simp: runEvent_def Let_def answered_def barrierResult_def run)
  next
    case nb: False
    show ?thesis
    proof (cases "stale ?m ev")
      case True
      obtain res where res: "resultOf L now (e_book ?m) ev [] None = Some res"
        "mr_Fills res = []" "mr_SourcePosition res = position ev"
        using resultOf_total[OF b] by blast
      from live nb True res ok show ?thesis
        by (auto simp: runEvent_def Let_def stale_def answered_def run)
    next
      case fresh: False
      then have fr: "\<not> ie_Offset ev \<le> e_lastAppliedOffset ?m"
        "\<not> (ie_EventID ev \<noteq> 0 \<and> ie_EventID ev \<in> e_processedEvents ?m)" by (auto simp: stale_def)
      have "payload_present ev \<or> applyEvent L now ?m ev \<noteq> None"
        by (cases "applyEvent L now ?m ev")
          (use p live nb fr in \<open>auto simp: runEvent_def Let_def if_not_P[OF fr(2)]\<close>)
      from applyEvent_total[OF L ok this]
      obtain bk r where a: "applyEvent L now ?m ev = Some (?m\<lparr>e_book := bk\<rparr>, r)" "engine_ok L (?m\<lparr>e_book := bk\<rparr>)"
        "\<forall>res. r = Inr res \<longrightarrow> mr_SourcePosition res = position ev \<and> (e_mode ?m \<noteq> ModeLive \<longrightarrow> mr_Fills res = [])"
        "e_mode ?m = ModeBlocked \<or> e_mode ?m = ModeReconciling \<longrightarrow> bk = e_book ?m"
        "r = Inl UnknownEventType \<longleftrightarrow> e_mode ?m \<noteq> ModeBlocked \<and> e_mode ?m \<noteq> ModeReconciling \<and>
           ie_Type ev \<noteq> EventOrderCreated \<and> ie_Type ev \<noteq> EventOrderCancel"
        by blast
      show ?thesis
      proof (cases r)
        case (Inl e)
        then have e: "r = Inl UnknownEventType" by (cases e) simp
        let ?rs = "rs\<lparr>rs_engine := TriggerFatalHalt (?m\<lparr>e_book := bk\<rparr>), rs_phase := Stopped\<rparr>"
        have ev: "runEvent L now rs ev = Some ?rs"
          using live nb fr a(1) e by (simp add: runEvent_def Let_def if_not_P[OF fr(2)])
        have "answered L rs ev ?rs"
          using TriggerFatalHalt_ok[OF a(2)] fresh a(4) by (auto simp: answered_def)
        with ev a(5) e show ?thesis by auto
      next
        case (Inr res)
        let ?m2 = "(rememberEvent (?m\<lparr>e_book := bk\<rparr>) (ie_EventID ev))\<lparr>e_lastAppliedOffset := ie_Offset ev\<rparr>"
        obtain rs1 res1 where at: "attachSnapshot L now ev (rs\<lparr>rs_engine := ?m2\<rparr>) res = (rs1, res1)"
          by (cases "attachSnapshot L now ev (rs\<lparr>rs_engine := ?m2\<rparr>) res")
        note f = attachSnapshot_fields[OF at]
        let ?rs2 = "if e_mode ?m = ModeLive then rs1\<lparr>rs_engine := PublishAtomicSnapshot L now ?m2\<rparr> else rs1"
        have ev: "runEvent L now rs ev = Some (sendResult ?rs2 res1)"
          using live nb fr a(1) Inr at by (simp add: runEvent_def Let_def if_not_P[OF fr(2)])
        have "ie_EventID ev = 0 \<or> ie_EventID ev \<notin> e_processedEvents (?m\<lparr>e_book := bk\<rparr>)"
          using fresh by (auto simp: stale_def)
        from rememberEvent_ok[OF a(2) this] have ok2: "engine_ok L ?m2" by simp
        have "answered L rs ev (sendResult ?rs2 res1)"
          using ok2 f a(3,4) Inr fresh by (auto simp: answered_def stale_def)
        moreover have "rs_phase (sendResult ?rs2 res1) = Running"
          "length (rs_out (sendResult ?rs2 res1)) = Suc (length (rs_out rs))"
          "\<not> e_isFatalHalt (rs_engine (sendResult ?rs2 res1))"
          "e_lastAppliedOffset (rs_engine (sendResult ?rs2 res1)) = ie_Offset ev"
          using f run live by simp_all
        moreover have "ie_EventID ev \<noteq> 0 \<longrightarrow> ie_EventID ev \<in> e_processedEvents (rs_engine (sendResult ?rs2 res1))"
          using rememberEvent_seen[of "ie_EventID ev" "?m\<lparr>e_book := bk\<rparr>"] f by simp
        ultimately show ?thesis unfolding ev by (intro exI[of _ "sendResult ?rs2 res1"]) simp
      qed
    qed
  qed
qed

lemma drainEvent_answered:
  assumes L: "lib_ok L" and ok: "engine_ok L (rs_engine rs)" and d: "drainEvent L now rs ev = Some rs'"
  shows "answered L rs ev rs'"
proof (cases "stale (rs_engine rs) ev")
  case True
  with d ok show ?thesis
    by (auto simp: drainEvent_def Let_def stale_def answered_def split: if_splits)
next
  case fresh: False
  let ?m = "rs_engine rs"
  from fresh have fr: "\<not> ie_Offset ev \<le> e_lastAppliedOffset ?m"
    "\<not> (ie_EventID ev \<noteq> 0 \<and> ie_EventID ev \<in> e_processedEvents ?m)" by (auto simp: stale_def)
  have "payload_present ev \<or> applyEvent L now ?m ev \<noteq> None"
    by (cases "applyEvent L now ?m ev")
      (use d fr in \<open>auto simp: drainEvent_def Let_def if_not_P[OF fr(2)]\<close>)
  from applyEvent_total[OF L ok this]
  obtain bk r where a: "applyEvent L now ?m ev = Some (?m\<lparr>e_book := bk\<rparr>, r)" "engine_ok L (?m\<lparr>e_book := bk\<rparr>)"
    "\<forall>res. r = Inr res \<longrightarrow> mr_SourcePosition res = position ev \<and> (e_mode ?m \<noteq> ModeLive \<longrightarrow> mr_Fills res = [])"
    "e_mode ?m = ModeBlocked \<or> e_mode ?m = ModeReconciling \<longrightarrow> bk = e_book ?m" by blast
  have "ie_EventID ev = 0 \<or> ie_EventID ev \<notin> e_processedEvents (?m\<lparr>e_book := bk\<rparr>)"
    using fr(2) by auto
  note ok2 = rememberEvent_ok[OF a(2) this]
  show ?thesis
  proof (cases r)
    case (Inl e)
    then have "rs' = rs\<lparr>rs_engine := TriggerFatalHalt (?m\<lparr>e_book := bk\<rparr>), rs_phase := Stopped\<rparr>"
      using d fr(1) a(1) by (simp add: drainEvent_def Let_def if_not_P[OF fr(2)])
    with TriggerFatalHalt_ok[OF a(2)] fresh a(4) show ?thesis by (auto simp: answered_def)
  next
    case (Inr res)
    then have "rs' = sendResult (rs\<lparr>rs_engine := (rememberEvent (?m\<lparr>e_book := bk\<rparr>) (ie_EventID ev))
        \<lparr>e_lastAppliedOffset := ie_Offset ev\<rparr>\<rparr>) res"
      using d fr(1) a(1) by (simp add: drainEvent_def Let_def if_not_P[OF fr(2)])
    with ok2 a(3,4) Inr fresh fr(1) show ?thesis by (auto simp: answered_def)
  qed
qed

lemma triggerFinalSnapshot_fields:
  assumes "triggerFinalSnapshot L now rs = Some rs'"
  shows "rs_engine rs' = rs_engine rs" "\<exists>outs. rs_out rs' = rs_out rs @ outs \<and> (\<forall>r\<in>set outs. mr_Fills r = [])"
  using assms by (auto simp: triggerFinalSnapshot_def Let_def bind_Some_iff split: if_splits)

text \<open>The operations of the other goroutines.\<close>

lemma mode_ops_ok:
  "engine_ok L m \<Longrightarrow> engine_ok L (fst (SetLive L2 now m))"
  "engine_ok L m \<Longrightarrow> engine_ok L (fst (SetReconciling L2 now m reason))"
  "engine_ok L m \<Longrightarrow> engine_ok L (fst (ApproveReconciliation L2 now m))"
  "engine_ok L m \<Longrightarrow> engine_ok L (SetBlocked L2 now m err)"
  by (simp_all add: SetLive_def SetReconciling_def ApproveReconciliation_def SetBlocked_def Let_def)

lemma mode_ops_fields:
  "e_book (fst (SetLive L now m)) = e_book m" "e_book (fst (SetReconciling L now m reason)) = e_book m"
  "e_book (fst (ApproveReconciliation L now m)) = e_book m" "e_book (SetBlocked L now m err) = e_book m"
  "e_mode m = ModeBlocked \<Longrightarrow> e_mode (fst (SetLive L now m)) = ModeBlocked"
  "e_mode m = ModeBlocked \<Longrightarrow> e_mode (fst (SetReconciling L now m reason)) = ModeBlocked"
  "e_mode m = ModeBlocked \<Longrightarrow> e_mode (fst (ApproveReconciliation L now m)) = ModeBlocked"
  "e_mode (SetBlocked L now m err) = ModeBlocked"
  "e_lastAppliedOffset (fst (SetLive L now m)) = e_lastAppliedOffset m"
  "e_lastAppliedOffset (fst (SetReconciling L now m reason)) = e_lastAppliedOffset m"
  "e_lastAppliedOffset (fst (ApproveReconciliation L now m)) = e_lastAppliedOffset m"
  "e_lastAppliedOffset (SetBlocked L now m err) = e_lastAppliedOffset m"
  by (simp_all add: SetLive_def SetReconciling_def ApproveReconciliation_def SetBlocked_def Let_def
      PublishAtomicSnapshot_def)

lemmas engine_kept = mode_ops_ok TriggerFatalHalt_ok

text \<open>A step either answers one event or leaves the book and the output free of fills.\<close>

lemma run_step_inv:
  assumes L: "lib_ok L" and s: "run_step L rs rs'" and ok: "engine_ok L (rs_engine rs)"
  shows "engine_ok L (rs_engine rs') \<and>
    e_lastAppliedOffset (rs_engine rs) \<le> e_lastAppliedOffset (rs_engine rs') \<and>
    (e_mode (rs_engine rs) = ModeBlocked \<longrightarrow>
       e_mode (rs_engine rs') = ModeBlocked \<and> e_book (rs_engine rs') = e_book (rs_engine rs)) \<and>
    (\<exists>outs. rs_out rs' = rs_out rs @ outs \<and>
       (e_mode (rs_engine rs) \<noteq> ModeLive \<longrightarrow> (\<forall>res\<in>set outs. mr_Fills res = [])))"
  using s
proof (cases rule: run_step.cases)
  case halted
  then show ?thesis using ok by simp
next
  case (event now ev)
  show ?thesis
  proof (cases "e_isFatalHalt (rs_engine rs)")
    case True
    with event ok show ?thesis by (auto simp: runEvent_def Let_def)
  next
    case False
    from event(2) have "payload_present ev \<or> runEvent L now rs ev \<noteq> None" by simp
    from runEvent_answered[OF L ok this False event(1)] event(2) have "answered L rs ev rs'" by simp
    then show ?thesis by (auto simp: answered_def)
  qed
next
  case (closed now rs1)
  then show ?thesis using ok triggerFinalSnapshot_fields[OF closed(4)] by auto
next
  case ctx_done
  then show ?thesis using ok by simp
next
  case (drain now ev)
  from drainEvent_answered[OF L ok drain(2)] show ?thesis by (auto simp: answered_def)
next
  case (drained now rs1)
  then show ?thesis using ok triggerFinalSnapshot_fields[OF drained(3)] by auto
next
  case (set_live now m err)
  then show ?thesis using mode_ops_ok(1)[OF ok, where ?L2.0 = L and now = now] mode_ops_fields(1,5,9)[where L = L and now = now and m = "rs_engine rs"] by auto
next
  case (set_reconciling now reason m err)
  then show ?thesis using mode_ops_ok(2)[OF ok, where ?L2.0 = L and now = now and reason = reason] mode_ops_fields(2,6,10)[where L = L and now = now and m = "rs_engine rs" and reason = reason] by auto
next
  case (approve now m err)
  then show ?thesis using mode_ops_ok(3)[OF ok, where ?L2.0 = L and now = now] mode_ops_fields(3,7,11)[where L = L and now = now and m = "rs_engine rs"] by auto
next
  case (set_blocked now reason)
  then show ?thesis using mode_ops_ok(4)[OF ok, where ?L2.0 = L and now = now and err = reason] mode_ops_fields(4,8,12)[where L = L and now = now and m = "rs_engine rs"] by auto
next
  case halt
  then show ?thesis using TriggerFatalHalt_ok[OF ok] by auto
qed

lemma run_steps_inv:
  assumes "lib_ok L" "run_steps L rs rs'" "engine_ok L (rs_engine rs)"
  shows "engine_ok L (rs_engine rs') \<and>
    e_lastAppliedOffset (rs_engine rs) \<le> e_lastAppliedOffset (rs_engine rs') \<and>
    (e_mode (rs_engine rs) = ModeBlocked \<longrightarrow>
       e_mode (rs_engine rs') = ModeBlocked \<and> e_book (rs_engine rs') = e_book (rs_engine rs) \<and>
       (\<exists>outs. rs_out rs' = rs_out rs @ outs \<and> (\<forall>res\<in>set outs. mr_Fills res = [])))"
  using assms(2)
proof (induction rule: rtranclp_induct)
  case base
  then show ?case using assms(3) by simp
next
  case (step b c)
  from run_step_inv[OF assms(1) step.hyps(2)] step.IH show ?case by fastforce
qed

section \<open>Accounting for an order\<close>

lemma accepted_order_accounts:
  assumes L: "lib_ok L" and ok: "engine_ok L m" and live: "e_mode m = ModeLive"
    and mk: "oc_MarketID p = e_MarketID m" and new: "b_OrderIndex (e_book m) (oc_OrderID p) = None"
    and valid: "validTickAndLot L (nodeOf now p) (e_config m)" and q: "0 < oc_Quantity p"
  shows "\<exists>bk res. applyOrderCreated L now m ev p = Some (m\<lparr>e_book := bk\<rparr>, res) \<and>
    oc_Quantity p = sum_list (map f_Quantity (mr_Fills res)) +
      (case b_OrderIndex bk (oc_OrderID p) of Some n \<Rightarrow> n_RemainingQty n
       | None \<Rightarrow> (case mr_CancelResult res of Some c \<Rightarrow> co_RemainingQuantity c | None \<Rightarrow> 0)) \<and>
    (b_OrderIndex bk (oc_OrderID p) \<noteq> None \<longrightarrow> oc_OrderType p = OrderTypeLimit \<and> mr_CancelResult res = None)"
proof -
  let ?nd = "nodeOf now p" and ?bk = "e_book m"
  note b = engine_okD(1-3)[OF ok]
  have nd: "n_OrderID ?nd = oc_OrderID p" "n_RemainingQty ?nd = oc_Quantity p"
    "n_OriginalQty ?nd = oc_Quantity p" "n_OrderType ?nd = oc_OrderType p" by (simp_all add: nodeOf_def)
  have inc: "incoming_ok ?bk ?nd" using new q by (simp add: incoming_ok_def nd)
  obtain i ms ts where sw: "sweep ?nd (resting L ?bk (opposite (n_Side ?nd))) = (i, ms, ts)"
    by (metis prod_cases3)
  have i: "n_OrderID i = oc_OrderID p" "n_Side i = n_Side ?nd" "n_OrderType i = oc_OrderType p"
    using nd by (subst sweep_taker[OF sw], simp)+
  have total: "oc_Quantity p = n_RemainingQty i + sum_list (map snd ts)"
    using sweep_conserves[OF sw] nd by simp
  have i0: "0 \<le> n_RemainingQty i" using sweep_rem_nonneg[OF sw] q nd by simp
  from Match_sweep[OF L b(1) inc sw] obtain bk where bk:
    "\<And>now mode ev. Match L now ?bk ?nd mode ev = Some (bk, i, if mode = MatchRecovery then []
        else fills_of L now ev (b_MarketID ?bk) (b_Sequence ?bk) 0 ?nd ts)"
    "book_ok L bk" "resting L bk (opposite (n_Side ?nd)) = ms"
    "resting L bk (n_Side ?nd) = (if rests i then place (n_Side ?nd) i (resting L ?bk (n_Side ?nd))
                                  else resting L ?bk (n_Side ?nd))" by blast
  have old: "oc_OrderID p \<notin> n_OrderID ` set (resting L ?bk sp)" for sp
    using set_resting[OF b(1), of _ sp] new by auto
  then have other: "oc_OrderID p \<notin> n_OrderID ` set ms" using sweep_ids[OF sw] by blast
  have idx: "b_OrderIndex bk (oc_OrderID p) = (if rests i then Some i else None)"
  proof (cases "rests i")
    case True
    then have "i \<in> set (resting L bk (n_Side ?nd))" using bk(4) by simp
    with True i show ?thesis using index_of_resting[OF bk(2), of "oc_OrderID p" i] by simp
  next
    case False
    have "resting L bk sp = resting L ?bk sp \<or> resting L bk sp = ms" for sp
      using bk(3,4) False by (cases sp; cases "n_Side ?nd") auto
    then have "oc_OrderID p \<notin> n_OrderID ` set (resting L bk sp)" for sp
      using old other by metis
    then have "n_OrderID n \<noteq> oc_OrderID p" if "n \<in> set (resting L bk sp)" for n sp
      using that by (metis imageI)
    with False show ?thesis using index_of_resting[OF bk(2), of "oc_OrderID p"] by (metis option.exhaust)
  qed
  let ?fills = "fills_of L now (ie_EventID ev) (b_MarketID ?bk) (b_Sequence ?bk) 0 ?nd ts"
  let ?c = "if n_OrderType i = OrderTypeMarket \<and> n_RemainingQty i > 0 then
      Some \<lparr>co_OrderID = n_OrderID i, co_UserID = n_UserID i, co_MarketID = n_MarketID i,
        co_RemainingQuantity = n_RemainingQty i, co_Reason = ''ioc_expired'',
        co_CancelStatus = None, co_CancelledAt = now, co_SourceOffset = ie_Offset ev\<rparr> else None"
  obtain res where res: "resultOf L now bk ev ?fills ?c = Some res" "mr_Fills res = ?fills" "mr_CancelResult res = ?c"
    using resultOf_total[OF bk(2)] by blast
  have "applyOrderCreated L now m ev p = Some (m\<lparr>e_book := bk\<rparr>, res)"
    using mk new valid live bk(1)[of now MatchLive "ie_EventID ev"] res(1) nd(1)
    by (simp add: applyOrderCreated_def Let_def)
  moreover have "n_OrderType i = OrderTypeMarket \<or> n_OrderType i = OrderTypeLimit"
    by (cases "n_OrderType i") auto
  ultimately show ?thesis
    using total i0 idx i(3) res(2,3) fills_of_fields(3)[of L now "ie_EventID ev" "b_MarketID ?bk" "b_Sequence ?bk" 0 ?nd ts]
    by (auto simp: rests_def)
qed

section \<open>A sample engine\<close>

definition sample_config :: "int market_config" where
  "sample_config = \<lparr>mc_MarketID = ''BTC-USDT'', mc_TickSize = 1, mc_LotSize = 1, mc_Partition = 2,
     mc_SnapshotInterval = 0, mc_SnapshotDuration = 0\<rparr>"

definition sample_engine :: "int market_engine" where
  "sample_engine = fst (SetLive int_lib 5 (NewMarketEngine 0 sample_config))"

definition sample_created :: "uuid \<Rightarrow> int \<Rightarrow> time \<Rightarrow> int input_event" where
  "sample_created i off t =
     \<lparr>ie_EventID = i + 1000, ie_Type = EventOrderCreated,
      ie_OrderCreated = Some \<lparr>oc_OrderID = i, oc_UserID = 9, oc_MarketID = ''BTC-USDT'', oc_Side = SideBuy,
        oc_OrderType = OrderTypeLimit, oc_Price = 10, oc_Quantity = 4, oc_ClientOrderID = [], oc_OccurredAt = t\<rparr>,
      ie_OrderCancel = None, ie_Topic = ''orders.commands'', ie_Partition = 2, ie_Offset = off\<rparr>"

lemma sample_engine:
  "engine_ok int_lib sample_engine" "e_mode sample_engine = ModeLive" "\<not> e_isFatalHalt sample_engine"
  "e_lastAppliedOffset sample_engine = -1" "e_book sample_engine = NewOrderBook ''BTC-USDT''"
  "e_MarketID sample_engine = ''BTC-USDT''" "e_config sample_engine = sample_config"
  "e_processedEvents sample_engine = {}"
  using mode_ops_ok(1)[OF NewMarketEngine_ok, of int_lib int_lib 5 0 sample_config]
  by (simp_all add: sample_engine_def SetLive_def NewMarketEngine_def PublishAtomicSnapshot_def sample_config_def)

lemma sample_created_present: "payload_present (sample_created i off t)"
  by (simp add: payload_present_def sample_created_def)

section \<open>Properties\<close>

text \<open>
  C8. The event loop keeps the engine sound. From a good engine, whatever events, clock
  readings, mode changes, halts and drains happen in whatever order, the book stays
  well-formed and never crossed, the deduplication set is the window of the ring, the halt
  callback has fired at most once and only on a halted engine, and the applied offset
  never moves back.
\<close>

theorem engine_run_invariant:
  assumes "lib_ok L" and "engine_ok L (rs_engine rs)" and "run_steps L rs rs'"
  shows "engine_ok L (rs_engine rs') \<and>
    e_lastAppliedOffset (rs_engine rs) \<le> e_lastAppliedOffset (rs_engine rs')"
  using run_steps_inv[OF assms(1,3,2)] by blast

theorem engine_run_invariant_witness:
  "run_steps int_lib (startRun 5 sample_engine)
     ((startRun 5 sample_engine)\<lparr>rs_engine := SetBlocked int_lib 6 sample_engine None\<rparr>) \<and>
   engine_ok int_lib (SetBlocked int_lib 6 sample_engine None)"
proof -
  have e: "rs_engine (startRun 5 sample_engine) = sample_engine" by (simp add: startRun_def)
  have s: "run_steps int_lib (startRun 5 sample_engine)
      ((startRun 5 sample_engine)\<lparr>rs_engine := SetBlocked int_lib 6 sample_engine None\<rparr>)"
    using run_step.set_blocked[of int_lib "startRun 5 sample_engine" 6 None] by (simp add: e)
  from engine_run_invariant[OF int_lib_ok _ s] sample_engine(1) s e show ?thesis by simp
qed

text \<open>The one event the loop does not answer: a new event of an unknown type in an open market.\<close>

definition unhandled :: "'d market_engine \<Rightarrow> 'd input_event \<Rightarrow> bool" where
  "unhandled m ev \<longleftrightarrow> ie_Type ev = EventUnknown \<and> \<not> stale m ev \<and> e_mode m \<noteq> ModeBlocked \<and> e_mode m \<noteq> ModeReconciling"

lemma runEvent_unhandled:
  assumes "unhandled (rs_engine rs) ev" and "\<not> e_isFatalHalt (rs_engine rs)"
  shows "runEvent L now rs ev = Some (rs\<lparr>rs_engine := TriggerFatalHalt (rs_engine rs), rs_phase := Stopped\<rparr>)"
  using assms by (auto simp: unhandled_def stale_def runEvent_def Let_def applyEvent_def)

lemma runEvent_handled:
  assumes L: "lib_ok L" and ok: "engine_ok L (rs_engine rs)" and r: "runEvent L now rs ev = Some rs'"
    and live: "\<not> e_isFatalHalt (rs_engine rs)" and run: "rs_phase rs = Running" and h: "\<not> unhandled (rs_engine rs) ev"
  shows "rs_phase rs' = Running"
proof (cases "ie_Type ev = EventRecoveryBarrier \<or> stale (rs_engine rs) ev")
  case True
  with r live run show ?thesis by (auto simp: runEvent_def Let_def stale_def split: if_splits)
next
  case False
  let ?m = "rs_engine rs"
  from False have fr: "\<not> ie_Offset ev \<le> e_lastAppliedOffset ?m" "\<not> (ie_EventID ev \<noteq> 0 \<and> ie_EventID ev \<in> e_processedEvents ?m)"
    by (auto simp: stale_def)
  have "payload_present ev \<or> applyEvent L now ?m ev \<noteq> None"
    by (cases "applyEvent L now ?m ev") (use r live False fr in \<open>auto simp: runEvent_def Let_def if_not_P[OF fr(2)]\<close>)
  from applyEvent_total[OF L ok this] obtain bk r0 where a: "applyEvent L now ?m ev = Some (?m\<lparr>e_book := bk\<rparr>, r0)"
    and u: "r0 = Inl UnknownEventType \<longleftrightarrow> e_mode ?m \<noteq> ModeBlocked \<and> e_mode ?m \<noteq> ModeReconciling \<and>
       ie_Type ev \<noteq> EventOrderCreated \<and> ie_Type ev \<noteq> EventOrderCancel" by blast
  have "r0 \<noteq> Inl UnknownEventType" using u h False by (cases "ie_Type ev") (auto simp: unhandled_def)
  then obtain res where res: "r0 = Inr res" by (cases r0) (metis apply_error.exhaust)
  obtain rs1 res1 where at: "attachSnapshot L now ev (rs\<lparr>rs_engine := (rememberEvent (?m\<lparr>e_book := bk\<rparr>) (ie_EventID ev))
      \<lparr>e_lastAppliedOffset := ie_Offset ev\<rparr>\<rparr>) res = (rs1, res1)" by force
  from r a res at live False fr(1) attachSnapshot_fields(3)[OF at] run show ?thesis
    by (auto simp: runEvent_def Let_def if_not_P[OF fr(2)])
qed

text \<open>
  C9. Every event is answered once. On a running, not halted engine an event that carries its
  payload never panics. An order command or a recovery barrier, and any event that is stale or
  comes to a blocked or reconciling market, is answered by exactly one result with its position
  and the loop goes on; a new event of an unknown type halts the engine and is answered by none.
\<close>

theorem runEvent_one_result:
  assumes "lib_ok L" and "engine_ok L (rs_engine rs)" and "payload_present ev"
    and "\<not> e_isFatalHalt (rs_engine rs)" and "rs_phase rs = Running"
  shows "\<exists>rs'. runEvent L now rs ev = Some rs' \<and>
    (if unhandled (rs_engine rs) ev
     then rs_phase rs' = Stopped \<and> e_isFatalHalt (rs_engine rs') \<and> rs_out rs' = rs_out rs \<and>
       e_book (rs_engine rs') = e_book (rs_engine rs)
     else rs_phase rs' = Running \<and> (\<exists>res. rs_out rs' = rs_out rs @ [res] \<and> mr_SourcePosition res = position ev))"
proof (cases "unhandled (rs_engine rs) ev")
  case True
  with runEvent_unhandled[OF True assms(4)] show ?thesis by simp
next
  case False
  from assms(3) have "payload_present ev \<or> runEvent L now rs ev \<noteq> None" by simp
  from runEvent_answered[OF assms(1,2) this assms(4,5)] obtain rs' where r:
    "runEvent L now rs ev = Some rs'" "answered L rs ev rs'"
    "rs_phase rs' = Running \<longrightarrow> length (rs_out rs') = Suc (length (rs_out rs))" by blast
  note run = runEvent_handled[OF assms(1,2) r(1) assms(4,5) False]
  from r(2) obtain outs where o: "rs_out rs' = rs_out rs @ outs"
    "\<forall>res\<in>set outs. mr_SourcePosition res = position ev" by (auto simp: answered_def)
  with r(3) run obtain res where "outs = [res]" by (cases outs) auto
  with o r(1) run False show ?thesis by auto
qed

theorem runEvent_one_result_witness:
  "\<exists>rs'. runEvent int_lib 7 (startRun 5 sample_engine) (sample_created 1 0 6) = Some rs' \<and>
     rs_phase rs' = Running \<and> length (rs_out rs') = 1"
proof -
  have "engine_ok int_lib (rs_engine (startRun 5 sample_engine))" "rs_phase (startRun 5 sample_engine) = Running"
    "\<not> e_isFatalHalt (rs_engine (startRun 5 sample_engine))" "rs_out (startRun 5 sample_engine) = []"
    using sample_engine by (simp_all add: startRun_def)
  from runEvent_one_result[OF int_lib_ok this(1) sample_created_present this(3,2), of 7 1 0 6] this(4)
  show ?thesis by (auto simp: sample_created_def unhandled_def)
qed

subsection \<open>Redelivery\<close>

text \<open>The ring changes only by additions, one in a step at most.\<close>

definition ringStep :: "'d market_engine \<Rightarrow> 'd market_engine \<Rightarrow> bool" where
  "ringStep m m' \<longleftrightarrow> e_eventRing m' = e_eventRing m \<or> (\<exists>x. e_eventRing m' = fst (ring_add (e_eventRing m) x))"

lemma rememberEvent_ring:
  "e_eventRing (rememberEvent m eid) = (if eid = 0 then e_eventRing m else fst (ring_add (e_eventRing m) eid))"
  by (simp add: rememberEvent_def split_beta)

lemma mode_ops_ring:
  "e_eventRing (fst (SetLive L now m)) = e_eventRing m" "e_eventRing (fst (SetReconciling L now m reason)) = e_eventRing m"
  "e_eventRing (fst (ApproveReconciliation L now m)) = e_eventRing m" "e_eventRing (SetBlocked L now m err) = e_eventRing m"
  "e_eventRing (TriggerFatalHalt m) = e_eventRing m" "e_eventRing (PublishAtomicSnapshot L now m) = e_eventRing m"
  by (simp_all add: SetLive_def SetReconciling_def ApproveReconciliation_def SetBlocked_def Let_def PublishAtomicSnapshot_def
      TriggerFatalHalt_def)

lemma applyEvent_ring: "applyEvent L now m ev = Some (m1, r) \<Longrightarrow> e_eventRing m1 = e_eventRing m"
  by (auto simp: applyEvent_def applyOrderCreated_def applyOrderCancel_def Let_def bind_Some_iff
      split: if_splits event_type.splits)

lemma runEvent_new:
  assumes "runEvent L now rs ev = Some rs'" and "\<not> e_isFatalHalt (rs_engine rs)"
    and "\<not> stale (rs_engine rs) ev" and "ie_Type ev \<noteq> EventRecoveryBarrier"
  shows "e_eventRing (rs_engine rs') = e_eventRing (rs_engine rs) \<and> rs_phase rs' = Stopped \<or>
    e_eventRing (rs_engine rs') = e_eventRing (rememberEvent (rs_engine rs) (ie_EventID ev))"
proof -
  let ?m = "rs_engine rs"
  from assms(3) have fr: "\<not> ie_Offset ev \<le> e_lastAppliedOffset ?m" "\<not> (ie_EventID ev \<noteq> 0 \<and> ie_EventID ev \<in> e_processedEvents ?m)"
    by (auto simp: stale_def)
  obtain m1 r where a: "applyEvent L now ?m ev = Some (m1, r)"
    using assms fr by (cases "applyEvent L now ?m ev") (auto simp: runEvent_def Let_def if_not_P[OF fr(2)])
  note m1 = applyEvent_ring[OF a]
  show ?thesis
  proof (cases r)
    case (Inl e)
    with assms a fr(1) m1 show ?thesis by (auto simp: runEvent_def Let_def if_not_P[OF fr(2)] mode_ops_ring)
  next
    case (Inr res)
    obtain rs1 res1 where at: "attachSnapshot L now ev (rs\<lparr>rs_engine := (rememberEvent m1 (ie_EventID ev))
        \<lparr>e_lastAppliedOffset := ie_Offset ev\<rparr>\<rparr>) res = (rs1, res1)" by force
    from assms a Inr at fr(1) m1 attachSnapshot_fields(1)[OF at] show ?thesis
      by (auto simp: runEvent_def Let_def if_not_P[OF fr(2)] mode_ops_ring rememberEvent_ring)
  qed
qed

lemma rememberEvent_ringStep: "e_eventRing m' = e_eventRing (rememberEvent m eid) \<Longrightarrow> ringStep m m'"
  unfolding ringStep_def rememberEvent_ring by metis

lemma drainEvent_ring:
  assumes "drainEvent L now rs ev = Some rs'"
  shows "ringStep (rs_engine rs) (rs_engine rs')"
proof (cases "stale (rs_engine rs) ev")
  case True
  with assms show ?thesis by (auto simp: drainEvent_def Let_def stale_def ringStep_def split: if_splits)
next
  case False
  let ?m = "rs_engine rs"
  from False have fr: "\<not> ie_Offset ev \<le> e_lastAppliedOffset ?m" "\<not> (ie_EventID ev \<noteq> 0 \<and> ie_EventID ev \<in> e_processedEvents ?m)"
    by (auto simp: stale_def)
  obtain m1 r where a: "applyEvent L now ?m ev = Some (m1, r)"
    using assms fr by (cases "applyEvent L now ?m ev") (auto simp: drainEvent_def Let_def if_not_P[OF fr(2)])
  note m1 = applyEvent_ring[OF a]
  show ?thesis
  proof (cases r)
    case (Inl e)
    with assms a fr(1) m1 show ?thesis by (auto simp: drainEvent_def Let_def if_not_P[OF fr(2)] mode_ops_ring ringStep_def)
  next
    case (Inr res)
    with assms a fr(1) have "e_eventRing (rs_engine rs') = e_eventRing (rememberEvent m1 (ie_EventID ev))"
      by (auto simp: drainEvent_def Let_def if_not_P[OF fr(2)])
    from rememberEvent_ringStep[OF this] m1 show ?thesis by (simp add: ringStep_def)
  qed
qed

lemma runEvent_ring:
  assumes "runEvent L now rs ev = Some rs'"
  shows "ringStep (rs_engine rs) (rs_engine rs')"
proof (cases "e_isFatalHalt (rs_engine rs) \<or> stale (rs_engine rs) ev \<or> ie_Type ev = EventRecoveryBarrier")
  case True
  with assms show ?thesis by (auto simp: runEvent_def Let_def stale_def ringStep_def split: if_splits)
next
  case False
  with runEvent_new[OF assms] rememberEvent_ringStep show ?thesis by (auto simp: ringStep_def)
qed

lemma run_step_ring:
  assumes "run_step L rs rs'"
  shows "ringStep (rs_engine rs) (rs_engine rs')"
  using assms
proof (cases rule: run_step.cases)
  case (event now ev)
  from runEvent_ring[OF event(2)] show ?thesis .
next
  case (drain now ev)
  from drainEvent_ring[OF drain(2)] show ?thesis .
next
  case (closed now rs1)
  with triggerFinalSnapshot_fields(1)[OF closed(4)] show ?thesis by (simp add: ringStep_def)
next
  case (drained now rs1)
  with triggerFinalSnapshot_fields(1)[OF drained(3)] show ?thesis by (simp add: ringStep_def)
next
  case (set_live now m err)
  with mode_ops_ring(1)[of L now "rs_engine rs"] show ?thesis by (simp add: ringStep_def)
next
  case (set_reconciling now reason m err)
  with mode_ops_ring(2)[of L now "rs_engine rs" reason] show ?thesis by (simp add: ringStep_def)
next
  case (approve now m err)
  with mode_ops_ring(3)[of L now "rs_engine rs"] show ?thesis by (simp add: ringStep_def)
qed (auto simp: ringStep_def mode_ops_ring)

text \<open>An event ID stays known for as many steps as the ring has slots left behind it.\<close>

lemma steps_remember:
  assumes L: "lib_ok L" and "(run_step L ^^ n) rs rs'" and "engine_ok L (rs_engine rs)"
    and "ring_contents (e_eventRing (rs_engine rs)) = xs @ [eid]" and "n < ringBufferCapacity"
  shows "\<exists>xs ys. ring_contents (e_eventRing (rs_engine rs')) = xs @ eid # ys \<and> length ys \<le> n"
  using assms(2,5)
proof (induction n arbitrary: rs')
  case 0
  with assms(4) show ?case by auto
next
  case (Suc n)
  from Suc.prems(1) obtain rs1 where st: "(run_step L ^^ n) rs rs1" "run_step L rs1 rs'" by (auto elim: relpowp_Suc_E)
  from Suc.IH[OF st(1)] Suc.prems(2) obtain xs ys where c: "ring_contents (e_eventRing (rs_engine rs1)) = xs @ eid # ys"
    "length ys \<le> n" by auto
  have "run_steps L rs rs1" using st(1) by (rule relpowp_imp_rtranclp)
  from run_steps_inv[OF L this assms(3)] have ok: "ring_ok (e_eventRing (rs_engine rs1))" using engine_okD(4) by blast
  from c(2) Suc.prems(2) have room: "length ys + 1 < ringBufferCapacity" by simp
  from run_step_ring[OF st(2)] consider "e_eventRing (rs_engine rs') = e_eventRing (rs_engine rs1)"
    | x where "e_eventRing (rs_engine rs') = fst (ring_add (e_eventRing (rs_engine rs1)) x)" by (auto simp: ringStep_def)
  then show ?case
  proof cases
    case 1
    with c show ?thesis by (metis le_Suc_eq)
  next
    case 2
    from ring.still_remembered[OF ok c(1) room, of x] obtain xs' where
      "ring_contents (e_eventRing (rs_engine rs')) = xs' @ eid # ys @ [x]" unfolding 2 by blast
    with c(2) show ?thesis by (intro exI[of _ xs'] exI[of _ "ys @ [x]"]) simp
  qed
qed

text \<open>
  C10. Redelivery is harmless. After an order command has been applied and the loop has gone
  through any number of other steps, delivering the command again leaves the book as it is and
  publishes no fill, when it comes back at its own or an earlier offset, however late, or with
  its event ID at any offset within fewer than 50000 steps, the slots of the deduplication ring.
\<close>

theorem redelivery_idempotent:
  assumes L: "lib_ok L" and ok: "engine_ok L (rs_engine rs)" and p: "payload_present ev"
    and live: "\<not> e_isFatalHalt (rs_engine rs)" and run: "rs_phase rs = Running"
    and ty: "ie_Type ev = EventOrderCreated \<or> ie_Type ev = EventOrderCancel"
    and new: "\<not> stale (rs_engine rs) ev" and first: "runEvent L now rs ev = Some rs1"
    and steps: "(run_step L ^^ n) rs1 rs2"
    and live2: "\<not> e_isFatalHalt (rs_engine rs2)" and run2: "rs_phase rs2 = Running"
    and again: "off2 \<le> ie_Offset ev \<or> ie_EventID ev \<noteq> 0 \<and> n < 50000"
  shows "\<exists>rs3. runEvent L now2 rs2 (ev\<lparr>ie_Offset := off2\<rparr>) = Some rs3 \<and>
    e_book (rs_engine rs3) = e_book (rs_engine rs2) \<and>
    (\<exists>res. rs_out rs3 = rs_out rs2 @ [res] \<and> mr_Fills res = [])"
proof -
  from p have "payload_present ev \<or> runEvent L now rs ev \<noteq> None" by simp
  from runEvent_answered[OF L ok this live run] first ty have r: "answered L rs ev rs1" "rs_phase rs1 = Running"
    "ie_Offset ev \<le> e_lastAppliedOffset (rs_engine rs1)" by auto
  have ok1: "engine_ok L (rs_engine rs1)" using r(1) by (simp add: answered_def)
  from run_steps_inv[OF L relpowp_imp_rtranclp[OF steps] ok1] r(3)
  have s: "engine_ok L (rs_engine rs2)" "ie_Offset ev \<le> e_lastAppliedOffset (rs_engine rs2)" by auto
  let ?ev = "ev\<lparr>ie_Offset := off2\<rparr>"
  have st: "stale (rs_engine rs2) ?ev"
    using again[folded ringBufferCapacity_def]
  proof
    assume "off2 \<le> ie_Offset ev"
    with s(2) show ?thesis by (simp add: stale_def)
  next
    assume e: "ie_EventID ev \<noteq> 0 \<and> n < ringBufferCapacity"
    from runEvent_new[OF first live new] ty r(2) e
    have "e_eventRing (rs_engine rs1) = fst (ring_add (e_eventRing (rs_engine rs)) (ie_EventID ev))"
      by (auto simp: rememberEvent_ring)
    with ring.added_last[OF engine_okD(4)[OF ok], of "ie_EventID ev"] obtain xs where
      "ring_contents (e_eventRing (rs_engine rs1)) = xs @ [ie_EventID ev]" by auto
    from steps_remember[OF L steps ok1 this] e have "ie_EventID ev \<in> set (ring_contents (e_eventRing (rs_engine rs2)))" by auto
    with engine_okD(5)[OF s(1)] e show ?thesis by (simp add: stale_def)
  qed
  have "payload_present ?ev \<or> runEvent L now2 rs2 ?ev \<noteq> None" using p by (simp add: payload_present_def)
  from runEvent_answered[OF L s(1) this live2 run2] ty obtain rs3 where r3:
    "runEvent L now2 rs2 ?ev = Some rs3" "answered L rs2 ?ev rs3" "length (rs_out rs3) = Suc (length (rs_out rs2))"
    by auto
  from r3(2) st obtain outs where o: "rs_out rs3 = rs_out rs2 @ outs" "\<forall>res\<in>set outs. mr_Fills res = []"
    "e_book (rs_engine rs3) = e_book (rs_engine rs2)" by (auto simp: answered_def)
  from o(1) r3(3) obtain res where "outs = [res]" by (cases outs) auto
  with o r3(1) show ?thesis by auto
qed

theorem redelivery_idempotent_witness:
  "\<exists>rs1 rs2 rs3. runEvent int_lib 7 (startRun 5 sample_engine) (sample_created 1 0 6) = Some rs1 \<and>
    (run_step int_lib ^^ 1) rs1 rs2 \<and> e_mode (rs_engine rs2) = ModeBlocked \<and>
    runEvent int_lib 8 rs2 ((sample_created 1 0 6)\<lparr>ie_Offset := 44\<rparr>) = Some rs3 \<and>
    e_book (rs_engine rs3) = e_book (rs_engine rs2)"
proof -
  let ?rs = "startRun 5 sample_engine" and ?ev = "sample_created 1 0 6"
  have s: "engine_ok int_lib (rs_engine ?rs)" "rs_phase ?rs = Running" "\<not> e_isFatalHalt (rs_engine ?rs)"
    "\<not> stale (rs_engine ?rs) ?ev" "ie_Type ?ev = EventOrderCreated \<or> ie_Type ?ev = EventOrderCancel"
    using sample_engine by (simp_all add: startRun_def sample_created_def stale_def)
  have "payload_present ?ev \<or> runEvent int_lib 7 ?rs ?ev \<noteq> None" using sample_created_present by simp
  from runEvent_answered[OF int_lib_ok s(1) this s(3,2)] s(5) obtain rs1 where r:
    "runEvent int_lib 7 ?rs ?ev = Some rs1" "rs_phase rs1 = Running" "\<not> e_isFatalHalt (rs_engine rs1)" by auto
  let ?rs2 = "rs1\<lparr>rs_engine := SetBlocked int_lib 6 (rs_engine rs1) None\<rparr>"
  have st: "(run_step int_lib ^^ 1) rs1 ?rs2" using run_step.set_blocked[of int_lib rs1 6 None] by (simp add: OO_def)
  have b: "\<not> e_isFatalHalt (rs_engine ?rs2)" "rs_phase ?rs2 = Running" "e_mode (rs_engine ?rs2) = ModeBlocked"
    using r by (simp_all add: SetBlocked_def)
  have "44 \<le> ie_Offset ?ev \<or> ie_EventID ?ev \<noteq> 0 \<and> 1 < (50000 :: nat)"
    by (simp add: sample_created_def)
  from redelivery_idempotent[OF int_lib_ok s(1) sample_created_present s(3,2,5,4) r(1) st b(1,2) this, of 8]
  show ?thesis using r(1) st b(3) by blast
qed

text \<open>
  C30. Blocking is irreversible. Once a market is blocked, no sequence of events, approvals,
  mode changes or drains makes it leave that mode, change its book or publish a fill.
\<close>

theorem blocked_forever:
  assumes "lib_ok L" and "engine_ok L (rs_engine rs)" and "e_mode (rs_engine rs) = ModeBlocked"
    and "run_steps L rs rs'"
  shows "e_mode (rs_engine rs') = ModeBlocked \<and> e_book (rs_engine rs') = e_book (rs_engine rs) \<and>
    (\<exists>outs. rs_out rs' = rs_out rs @ outs \<and> (\<forall>res\<in>set outs. mr_Fills res = []))"
  using run_steps_inv[OF assms(1,4,2)] assms(3) by blast

theorem blocked_forever_witness:
  "\<exists>rs'. run_steps int_lib (startRun 5 (SetBlocked int_lib 6 sample_engine None)) rs' \<and>
     length (rs_out rs') = 1 \<and> e_mode (rs_engine rs') = ModeBlocked \<and> e_book (rs_engine rs') = e_book sample_engine"
proof -
  let ?rs = "startRun 5 (SetBlocked int_lib 6 sample_engine None)"
  have s: "engine_ok int_lib (rs_engine ?rs)" "rs_phase ?rs = Running" "\<not> e_isFatalHalt (rs_engine ?rs)"
    "e_mode (rs_engine ?rs) = ModeBlocked" "rs_out ?rs = []"
    using sample_engine mode_ops_ok(4)[OF sample_engine(1)]
    by (simp_all add: startRun_def SetBlocked_def)
  have "payload_present (sample_created 1 0 6) \<or> runEvent int_lib 7 ?rs (sample_created 1 0 6) \<noteq> None"
    using sample_created_present by simp
  from runEvent_answered[OF int_lib_ok s(1) this s(3,2)] s(5) obtain rs' where r:
    "runEvent int_lib 7 ?rs (sample_created 1 0 6) = Some rs'" "length (rs_out rs') = 1"
    by (auto simp: sample_created_def)
  from run_step.event[OF s(2) r(1)] have "run_steps int_lib ?rs rs'" by blast
  with blocked_forever[OF int_lib_ok s(1,4)] r(2) show ?thesis
    by (auto simp: startRun_def SetBlocked_def)
qed

text \<open>
  Only a live market publishes fills: a step taken while the engine is recovering,
  blocked or reconciling adds no fill to the output, whatever the step.
\<close>

theorem fills_only_when_live:
  assumes "lib_ok L" and "engine_ok L (rs_engine rs)" and "e_mode (rs_engine rs) \<noteq> ModeLive"
    and "run_step L rs rs'"
  shows "\<exists>outs. rs_out rs' = rs_out rs @ outs \<and> (\<forall>res\<in>set outs. mr_Fills res = [])"
  using run_step_inv[OF assms(1,4,2)] assms(3) by blast

theorem fills_only_when_live_witness:
  "\<exists>rs' outs. run_step int_lib (startRun 5 (NewMarketEngine 0 sample_config)) rs' \<and>
     rs_out rs' = outs \<and> length outs = 1 \<and> (\<forall>res\<in>set outs. mr_Fills res = [])"
proof -
  let ?rs = "startRun 5 (NewMarketEngine 0 sample_config)"
  have s: "engine_ok int_lib (rs_engine ?rs)" "rs_phase ?rs = Running" "\<not> e_isFatalHalt (rs_engine ?rs)"
    "e_mode (rs_engine ?rs) \<noteq> ModeLive" "rs_out ?rs = []"
    using NewMarketEngine_ok[of int_lib 0 sample_config] by (simp_all add: startRun_def NewMarketEngine_def)
  have "payload_present (sample_created 1 0 6) \<or> runEvent int_lib 7 ?rs (sample_created 1 0 6) \<noteq> None"
    using sample_created_present by simp
  from runEvent_answered[OF int_lib_ok s(1) this s(3,2)] s(5) obtain rs' where r:
    "runEvent int_lib 7 ?rs (sample_created 1 0 6) = Some rs'" "length (rs_out rs') = 1"
    by (auto simp: sample_created_def)
  from run_step.event[OF s(2) r(1)] have st: "run_step int_lib ?rs rs'" .
  from fills_only_when_live[OF int_lib_ok s(1,4) st] s(5) r(2) st show ?thesis by auto
qed

text \<open>
  C11. An accepted order is accounted for. When a live market accepts an order, its
  quantity is exactly what its fills took plus what rests in the book under its ID or, for
  the remainder of a market order, what the cancellation reports; a market order never
  rests.
\<close>

theorem order_accounting:
  assumes "lib_ok L" and "engine_ok L m" and "e_mode m = ModeLive"
    and "oc_MarketID p = e_MarketID m" and "b_OrderIndex (e_book m) (oc_OrderID p) = None"
    and "validTickAndLot L (nodeOf now p) (e_config m)" and "0 < oc_Quantity p"
  shows "\<exists>bk res. applyOrderCreated L now m ev p = Some (m\<lparr>e_book := bk\<rparr>, res) \<and>
    oc_Quantity p = sum_list (map f_Quantity (mr_Fills res)) +
      (case b_OrderIndex bk (oc_OrderID p) of Some n \<Rightarrow> n_RemainingQty n
       | None \<Rightarrow> (case mr_CancelResult res of Some c \<Rightarrow> co_RemainingQuantity c | None \<Rightarrow> 0)) \<and>
    (b_OrderIndex bk (oc_OrderID p) \<noteq> None \<longrightarrow> oc_OrderType p = OrderTypeLimit \<and> mr_CancelResult res = None)"
  using accepted_order_accounts[OF assms] .

theorem order_accounting_witness:
  "\<exists>p bk res. ie_OrderCreated (sample_created 1 0 6) = Some p \<and>
     applyOrderCreated int_lib 7 sample_engine (sample_created 1 0 6) p = Some (sample_engine\<lparr>e_book := bk\<rparr>, res) \<and>
     4 = sum_list (map f_Quantity (mr_Fills res)) +
      (case b_OrderIndex bk 1 of Some n \<Rightarrow> n_RemainingQty n
       | None \<Rightarrow> (case mr_CancelResult res of Some c \<Rightarrow> co_RemainingQuantity c | None \<Rightarrow> 0))"
proof -
  obtain p where p: "ie_OrderCreated (sample_created 1 0 6) = Some p" by (simp add: sample_created_def)
  then have f: "oc_MarketID p = ''BTC-USDT''" "oc_OrderID p = 1" "oc_Quantity p = 4" "oc_Price p = 10"
    by (auto simp: sample_created_def)
  have v: "validTickAndLot int_lib (nodeOf 7 p) (e_config sample_engine)"
    using f go_rem_zero[of 1] by (simp add: validTickAndLot_def nodeOf_def sample_engine(7) sample_config_def int_lib_def)
  have "b_OrderIndex (e_book sample_engine) (oc_OrderID p) = None"
    by (simp add: sample_engine(5) NewOrderBook_def)
  from order_accounting[OF int_lib_ok sample_engine(1,2) _ this v, of "sample_created 1 0 6"] f p sample_engine(6)
  show ?thesis by auto
qed

end
