(* ===== verification/EngineFindings.thy ===== *)
theory EngineFindings
  imports EngineProps
begin

text \<open>
  Behaviours of the engine that its comments do not promise: a live book whose snapshot
  cannot be restored, a drain that goes on after a fatal halt, and a recovery barrier that
  halts a draining engine. Each is shown on a concrete engine.
\<close>

lemma accepted_rests:
  assumes L: "lib_ok L" and ok: "engine_ok L m" and mk: "oc_MarketID p = e_MarketID m"
    and new: "b_OrderIndex (e_book m) (oc_OrderID p) = None"
    and valid: "validTickAndLot L (nodeOf now p) (e_config m)" and q: "0 < oc_Quantity p"
    and lim: "oc_OrderType p = OrderTypeLimit" and sd: "oc_Side p = SideBuy"
    and empty: "resting L (e_book m) SideSell = []"
  shows "\<exists>bk res. applyOrderCreated L now m ev p = Some (m\<lparr>e_book := bk\<rparr>, res) \<and>
    engine_ok L (m\<lparr>e_book := bk\<rparr>) \<and>
    resting L bk SideBuy = place SideBuy (nodeOf now p) (resting L (e_book m) SideBuy) \<and>
    resting L bk SideSell = []"
proof -
  let ?nd = "nodeOf now p"
  have nd: "n_OrderID ?nd = oc_OrderID p" "n_RemainingQty ?nd = oc_Quantity p" "n_Side ?nd = SideBuy"
    "n_OriginalQty ?nd = oc_Quantity p" "n_OrderType ?nd = OrderTypeLimit" by (simp_all add: nodeOf_def lim sd)
  have inc: "incoming_ok (e_book m) ?nd" using new q by (simp add: incoming_ok_def nd)
  have sw: "sweep ?nd (resting L (e_book m) (opposite (n_Side ?nd))) = (?nd, [], [])"
    by (simp add: nd empty)
  obtain bk res where a: "applyOrderCreated L now m ev p = Some (m\<lparr>e_book := bk\<rparr>, res)"
    "engine_ok L (m\<lparr>e_book := bk\<rparr>)"
    using applyOrderCreated_total[OF L ok] by blast
  from Match_sweep[OF L engine_okD(1)[OF ok] inc sw] obtain b where b:
    "\<And>now mode ev. \<exists>fills. Match L now (e_book m) ?nd mode ev = Some (b, ?nd, fills)"
    "resting L b SideSell = []" "resting L b SideBuy = place SideBuy ?nd (resting L (e_book m) SideBuy)"
    using nd q by (auto simp: rests_def)
  obtain fills where "Match L now (e_book m) ?nd (if e_mode m = ModeLive then MatchLive else MatchRecovery)
      (ie_EventID ev) = Some (b, ?nd, fills)" using b(1) by blast
  with a(1) mk new valid nd(1) have "m\<lparr>e_book := b\<rparr> = m\<lparr>e_book := bk\<rparr>"
    by (auto simp: applyOrderCreated_def Let_def bind_Some_iff)
  then have "e_book (m\<lparr>e_book := b\<rparr>) = e_book (m\<lparr>e_book := bk\<rparr>)" by (rule arg_cong)
  then have "b = bk" by simp
  with a b show ?thesis by auto
qed

text \<open>Two commands of the sample engine, the second with an earlier \<open>OccurredAt\<close>.\<close>

lemma sample_two_bids:
  assumes t: "0 < t1" "0 < t2" "t1 \<le> 7" "t2 \<le> 7"
  shows "\<exists>m1 r1 m2 r2.
    applyEvent int_lib 7 sample_engine (sample_created 1 0 t1) = Some (m1, Inr r1) \<and>
    applyEvent int_lib 7 m1 (sample_created 2 1 t2) = Some (m2, Inr r2) \<and>
    engine_ok int_lib m2 \<and> e_MarketID m2 = ''BTC-USDT'' \<and>
    (\<exists>a b. resting int_lib (e_book m2) SideBuy = [a, b] \<and> n_Timestamp a = t1 \<and> n_Timestamp b = t2 \<and>
       n_Price a = 10 \<and> n_Price b = 10 \<and>
       order_ready int_lib 7 ''BTC-USDT'' 1 1 a \<and> order_ready int_lib 7 ''BTC-USDT'' 1 1 b)"
proof -
  define p where "p i t = \<lparr>oc_OrderID = i, oc_UserID = 9, oc_MarketID = ''BTC-USDT'', oc_Side = SideBuy,
    oc_OrderType = OrderTypeLimit, oc_Price = (10 :: int), oc_Quantity = 4, oc_ClientOrderID = [], oc_OccurredAt = t\<rparr>"
    for i :: uuid and t :: time
  have zero: "go_rem k 1 = 0" for k using go_rem_zero[of 1 k] by simp
  have valid: "validTickAndLot int_lib (nodeOf 7 (p i t)) sample_config" for i t
    by (simp add: validTickAndLot_def nodeOf_def p_def sample_config_def int_lib_def zero)
  have ts: "n_Timestamp (nodeOf 7 (p i t)) = t" if "0 < t" "t \<le> 7" for i t
    using that by (simp add: nodeOf_def nodeTimestamp_def minutes5_def p_def)
  have ready: "order_ready int_lib 7 ''BTC-USDT'' 1 1 (nodeOf 7 (p i t))" if "0 < t" "t \<le> 7" for i t
    using that ts[OF that, of i]
    by (simp add: order_ready_def hours24_def t_rfc3339_def int_lib_def zero) (simp add: nodeOf_def p_def)
  let ?n1 = "nodeOf 7 (p 1 t1)" and ?n2 = "nodeOf 7 (p 2 t2)"
  have empty: "resting int_lib (e_book sample_engine) sp = []" for sp
    by (simp add: sample_engine(5) NewOrderBook_ok(2))
  obtain b1 r1 where b1: "applyOrderCreated int_lib 7 sample_engine (sample_created 1 0 t1) (p 1 t1) =
      Some (sample_engine\<lparr>e_book := b1\<rparr>, r1)" "engine_ok int_lib (sample_engine\<lparr>e_book := b1\<rparr>)"
      "resting int_lib b1 SideBuy = [?n1]" "resting int_lib b1 SideSell = []"
    using accepted_rests[OF int_lib_ok sample_engine(1), of "p 1 t1" 7 "sample_created 1 0 t1"] valid[of 1 t1] empty
    by (auto simp: sample_engine(5-7) p_def NewOrderBook_def)
  let ?m1 = "sample_engine\<lparr>e_book := b1\<rparr>"
  have ok1: "book_ok int_lib b1" using engine_okD(1)[OF b1(2)] by simp
  have new: "b_OrderIndex b1 2 = None"
  proof (rule ccontr)
    assume "b_OrderIndex b1 2 \<noteq> None"
    then obtain k where k: "b_OrderIndex b1 2 = Some k" by blast
    then have "n_OrderID k = 2" "k \<in> set (resting int_lib b1 (n_Side k))" using index_of_resting[OF ok1] by auto
    with b1(3,4) show False by (cases "n_Side k") (auto simp: nodeOf_def p_def)
  qed
  obtain b2 r2 where b2: "applyOrderCreated int_lib 7 ?m1 (sample_created 2 1 t2) (p 2 t2) =
      Some (?m1\<lparr>e_book := b2\<rparr>, r2)" "engine_ok int_lib (?m1\<lparr>e_book := b2\<rparr>)"
      "resting int_lib b2 SideBuy = [?n1, ?n2]"
    using accepted_rests[OF int_lib_ok b1(2), of "p 2 t2" 7 "sample_created 2 1 t2"] valid[of 2 t2] new b1(3,4)
    by (auto simp: sample_engine(6,7)) (auto simp: p_def nodeOf_def)
  have a1: "applyEvent int_lib 7 sample_engine (sample_created 1 0 t1) = Some (?m1, Inr r1)"
    using b1(1) by (simp add: applyEvent_def sample_engine(2) sample_created_def p_def)
  have a2: "applyEvent int_lib 7 ?m1 (sample_created 2 1 t2) = Some (?m1\<lparr>e_book := b2\<rparr>, Inr r2)"
    using b2(1) by (simp add: applyEvent_def sample_engine(2) sample_created_def p_def)
  have "n_Price ?n1 = 10" "n_Price ?n2 = 10" by (simp_all add: nodeOf_def p_def)
  with a1 a2 b2(2,3) t show ?thesis by (auto simp: ts ready sample_engine(6))
qed

text \<open>
  A live book whose snapshot cannot be restored. Two limit bids at one price, accepted
  in this order with the Order Service's times 6 and 5, make a book whose snapshot
  \<open>Restore\<close> refuses with the FIFO error, whatever the checksum and the offsets: the queue
  is in order of arrival, the check in order of \<open>OccurredAt\<close>.
\<close>

theorem live_snapshot_not_restorable:
  "\<exists>m1 r1 m2 r2.
    applyEvent int_lib 7 sample_engine (sample_created 1 0 6) = Some (m1, Inr r1) \<and>
    applyEvent int_lib 7 m1 (sample_created 2 1 5) = Some (m2, Inr r2) \<and>
    Restore int_lib (\<lambda>_. Some digest) 7 (NewOrderBook ''BTC-USDT'') (Serialize int_lib (e_book m2) 2 1)
      ''BTC-USDT'' 2 1 digest 1 1 = Some (NewOrderBook ''BTC-USDT'', Some BidsNotFIFO)"
proof -
  obtain m1 r1 m2 r2 a b where m:
    "applyEvent int_lib 7 sample_engine (sample_created 1 0 6) = Some (m1, Inr r1)"
    "applyEvent int_lib 7 m1 (sample_created 2 1 5) = Some (m2, Inr r2)"
    "engine_ok int_lib m2" "e_MarketID m2 = ''BTC-USDT''"
    "resting int_lib (e_book m2) SideBuy = [a, b]" "n_Timestamp a = 6" "n_Timestamp b = 5"
    "n_Price a = 10" "n_Price b = 10"
    "order_ready int_lib 7 ''BTC-USDT'' 1 1 a" "order_ready int_lib 7 ''BTC-USDT'' 1 1 b"
    using sample_two_bids[of 6 5] by auto
  have mk: "b_MarketID (e_book m2) = ''BTC-USDT''" using engine_okD(3)[OF m(3)] m(4) by simp
  have "Restore int_lib (\<lambda>_. Some digest) 7 (NewOrderBook ''BTC-USDT'') (Serialize int_lib (e_book m2) 2 1)
      (b_MarketID (e_book m2)) 2 1 digest 1 1 = Some (NewOrderBook ''BTC-USDT'', Some BidsNotFIFO)"
    by (rule Restore_unordered_queue[OF int_lib_ok engine_okD(1)[OF m(3)] m(5), where tick = 1 and lot = 1])
      (use m mk in \<open>simp_all add: NewOrderBook_def\<close>)
  with m(1,2) mk show ?thesis by auto
qed

text \<open>
  The drain does not look at the halt flag. An engine that is fatally halted while it
  drains still applies the next queued order to its book.
\<close>

theorem drain_ignores_fatal_halt:
  "\<exists>rs rs'. rs_phase rs = Draining \<and> e_isFatalHalt (rs_engine rs) \<and>
     drainEvent int_lib 7 rs (sample_created 1 0 6) = Some rs' \<and>
     e_book (rs_engine rs') \<noteq> e_book (rs_engine rs)"
proof -
  let ?m = "TriggerFatalHalt sample_engine"
  let ?rs = "(startRun 5 ?m)\<lparr>rs_phase := Draining\<rparr>"
  obtain p where p: "ie_OrderCreated (sample_created 1 0 6) = Some p" by (simp add: sample_created_def)
  then have f: "oc_MarketID p = ''BTC-USDT''" "oc_OrderID p = 1" "oc_Quantity p = 4" "oc_Price p = 10"
    "oc_OrderType p = OrderTypeLimit" "oc_Side p = SideBuy" by (auto simp: sample_created_def)
  have m: "e_book ?m = NewOrderBook ''BTC-USDT''" "e_MarketID ?m = ''BTC-USDT''" "e_config ?m = sample_config"
    "e_mode ?m = ModeLive" "e_processedEvents ?m = {}" "e_lastAppliedOffset ?m = -1"
    using sample_engine by (simp_all add: TriggerFatalHalt_def)
  have v: "validTickAndLot int_lib (nodeOf 7 p) (e_config ?m)"
    using f go_rem_zero[of 1] by (simp add: validTickAndLot_def nodeOf_def m sample_config_def int_lib_def)
  have new: "b_OrderIndex (e_book ?m) (oc_OrderID p) = None" "resting int_lib (e_book ?m) sp = []" for sp
    by (simp_all only: m(1) NewOrderBook_ok(2)) (simp add: NewOrderBook_def)
  have fm: "oc_MarketID p = e_MarketID ?m" "0 < oc_Quantity p" using f m(2) by simp_all
  obtain bk res where a: "applyOrderCreated int_lib 7 ?m (sample_created 1 0 6) p = Some (?m\<lparr>e_book := bk\<rparr>, res)"
    "resting int_lib bk SideBuy = place SideBuy (nodeOf 7 p) (resting int_lib (e_book ?m) SideBuy)"
    using accepted_rests[OF int_lib_ok TriggerFatalHalt_ok[OF sample_engine(1)] fm(1) new(1) v fm(2) f(5,6) new(2)]
    by blast
  have ev: "applyEvent int_lib 7 ?m (sample_created 1 0 6) = Some (?m\<lparr>e_book := bk\<rparr>, Inr res)"
    using a(1) p by (simp add: applyEvent_def m sample_engine(2) sample_created_def)
  let ?rs' = "sendResult
      (?rs\<lparr>rs_engine := (rememberEvent (?m\<lparr>e_book := bk\<rparr>) 1001)\<lparr>e_lastAppliedOffset := 0\<rparr>\<rparr>) res"
  have d: "drainEvent int_lib 7 ?rs (sample_created 1 0 6) = Some ?rs'"
    using ev by (simp add: drainEvent_def startRun_def m sample_engine(4) sample_created_def)
  have "rs_phase ?rs = Draining" "e_isFatalHalt (rs_engine ?rs)" by (simp_all add: startRun_def)
  moreover have "e_book (rs_engine ?rs') \<noteq> e_book (rs_engine ?rs)"
    using a(2) new(2)[of SideBuy] by (auto simp: startRun_def)
  ultimately show ?thesis using d by blast
qed

text \<open>
  A recovery barrier that is still queued when a recovering engine drains is an
  unknown event: the engine halts fatally and its output queue is never closed.
\<close>

theorem drain_barrier_halts:
  assumes "e_mode (rs_engine rs) = ModeRecovery" and "ie_Type ev = EventRecoveryBarrier"
    and "e_lastAppliedOffset (rs_engine rs) < ie_Offset ev" and "ie_EventID ev = 0"
  shows "\<exists>rs'. drainEvent L now rs ev = Some rs' \<and> rs_phase rs' = Stopped \<and>
    e_isFatalHalt (rs_engine rs') \<and> rs_closed rs' = rs_closed rs"
  using assms by (simp add: drainEvent_def Let_def applyEvent_def)

theorem drain_barrier_halts_witness:
  "\<exists>rs'. drainEvent int_lib 7 ((startRun 5 (NewMarketEngine 0 sample_config))\<lparr>rs_phase := Draining\<rparr>)
      \<lparr>ie_EventID = 0, ie_Type = EventRecoveryBarrier, ie_OrderCreated = None, ie_OrderCancel = None,
       ie_Topic = [], ie_Partition = 2, ie_Offset = 3\<rparr> = Some rs' \<and>
     rs_phase rs' = Stopped \<and> e_isFatalHalt (rs_engine rs') \<and> \<not> rs_closed rs'"
  using drain_barrier_halts[of "(startRun 5 (NewMarketEngine 0 sample_config))\<lparr>rs_phase := Draining\<rparr>"
      "\<lparr>ie_EventID = 0, ie_Type = EventRecoveryBarrier, ie_OrderCreated = None, ie_OrderCancel = None,
       ie_Topic = [], ie_Partition = 2, ie_Offset = 3\<rparr>" int_lib 7]
  by (simp add: startRun_def NewMarketEngine_def)

end
