(* ===== verification/Command.thy ===== *)
theory Command
  imports EngineProps
begin

text \<open>
  Intake of the matching engine (\<open>services/matching-engine/internal/kafka/command.go\<close>):
  the validation of an \<open>orders.commands\<close> message and its routing to the queue of its
  market. Decoding of JSON into the three structs is the record \<open>codec\<close>; a send that gives
  way to a cancelled context is the flag \<open>ctxDone\<close>.
\<close>

section \<open>Data\<close>

record command_envelope =
  ce_EventID :: string
  ce_EventType :: string
  ce_EventVersion :: int
  ce_MarketID :: string
  ce_OccurredAt :: time
  ce_Payload :: string

record created_payload_json =
  cj_OrderID :: string
  cj_UserID :: string
  cj_Side :: string
  cj_OrderType :: string
  cj_Price :: string
  cj_Quantity :: string
  cj_ClientOrderID :: string

record cancel_payload_json =
  xj_OrderID :: string
  xj_UserID :: string

record codec =
  json_Envelope :: "string \<Rightarrow> command_envelope option"
  json_Created :: "string \<Rightarrow> created_payload_json option"
  json_Cancel :: "string \<Rightarrow> cancel_payload_json option"

record kafka_message =
  km_Topic :: string
  km_Partition :: int
  km_Offset :: int
  km_Key :: string
  km_Value :: string

datatype command_error =
    ErrUnmarshalEnvelope | ErrMissingKey | ErrKeyMismatch | ErrInvalidEventID | ErrEventVersion
  | ErrUnknownMarket | ErrUnmarshalPayload | ErrInvalidOrderID | ErrInvalidUserID
  | ErrInvalidQuantity | ErrUnknownSide | ErrUnknownOrderType | ErrInvalidPrice
  | ErrLimitPrice | ErrContextDone | ErrUnknownEventType

section \<open>Validation\<close>

definition parseSide :: "string \<Rightarrow> side_type option" where
  "parseSide s = (if s = ''BUY'' then Some SideBuy else if s = ''SELL'' then Some SideSell else None)"

definition parseOrderType :: "string \<Rightarrow> order_type option" where
  "parseOrderType s =
     (if s = ''LIMIT'' then Some OrderTypeLimit else if s = ''MARKET'' then Some OrderTypeMarket else None)"

text \<open>An empty price is the zero decimal.\<close>

definition parsePrice :: "('d::linordered_idom) lib \<Rightarrow> string \<Rightarrow> 'd option" where
  "parsePrice L s =
     (if s = [] then Some 0
      else case d_NewFromString L s of None \<Rightarrow> None | Some p \<Rightarrow> if p < 0 then None else Some p)"

definition handleCreated ::
  "codec \<Rightarrow> ('d::linordered_idom) lib \<Rightarrow> time \<Rightarrow> bool \<Rightarrow> kafka_message \<Rightarrow> command_envelope \<Rightarrow> uuid \<Rightarrow>
   command_error + 'd input_event" where
  "handleCreated J L now ctxDone msg env eventUUID =
     (case json_Created J (ce_Payload env) of None \<Rightarrow> Inl ErrUnmarshalPayload | Some p \<Rightarrow>
      case u_Parse L (cj_OrderID p) of None \<Rightarrow> Inl ErrInvalidOrderID | Some orderID \<Rightarrow>
      case u_Parse L (cj_UserID p) of None \<Rightarrow> Inl ErrInvalidUserID | Some userID \<Rightarrow>
      case d_NewFromString L (cj_Quantity p) of None \<Rightarrow> Inl ErrInvalidQuantity | Some quantity \<Rightarrow>
      if \<not> quantity > 0 then Inl ErrInvalidQuantity else
      case parseSide (cj_Side p) of None \<Rightarrow> Inl ErrUnknownSide | Some sd \<Rightarrow>
      case parseOrderType (cj_OrderType p) of None \<Rightarrow> Inl ErrUnknownOrderType | Some ty \<Rightarrow>
      case parsePrice L (cj_Price p) of None \<Rightarrow> Inl ErrInvalidPrice | Some price \<Rightarrow>
      if ty = OrderTypeLimit \<and> \<not> price > 0 then Inl ErrLimitPrice
      else if ctxDone then Inl ErrContextDone
      else Inr \<lparr>ie_EventID = eventUUID, ie_Type = EventOrderCreated,
                ie_OrderCreated = Some \<lparr>oc_OrderID = orderID, oc_UserID = userID, oc_MarketID = ce_MarketID env,
                  oc_Side = sd, oc_OrderType = ty, oc_Price = price, oc_Quantity = quantity,
                  oc_ClientOrderID = cj_ClientOrderID p,
                  oc_OccurredAt = (if ce_OccurredAt env = 0 then now
                                   else if ce_OccurredAt env > now + minutes5 then now
                                   else ce_OccurredAt env)\<rparr>,
                ie_OrderCancel = None, ie_Topic = km_Topic msg, ie_Partition = km_Partition msg,
                ie_Offset = km_Offset msg\<rparr>)"

definition handleCancel ::
  "codec \<Rightarrow> ('d::linordered_idom) lib \<Rightarrow> bool \<Rightarrow> kafka_message \<Rightarrow> command_envelope \<Rightarrow> uuid \<Rightarrow>
   command_error + 'd input_event" where
  "handleCancel J L ctxDone msg env eventUUID =
     (case json_Cancel J (ce_Payload env) of None \<Rightarrow> Inl ErrUnmarshalPayload | Some p \<Rightarrow>
      case u_Parse L (xj_OrderID p) of None \<Rightarrow> Inl ErrInvalidOrderID | Some orderID \<Rightarrow>
      case u_Parse L (xj_UserID p) of None \<Rightarrow> Inl ErrInvalidUserID | Some userID \<Rightarrow>
      if ctxDone then Inl ErrContextDone
      else Inr \<lparr>ie_EventID = eventUUID, ie_Type = EventOrderCancel, ie_OrderCreated = None,
                ie_OrderCancel = Some \<lparr>ol_OrderID = orderID, ol_UserID = userID, ol_MarketID = ce_MarketID env\<rparr>,
                ie_Topic = km_Topic msg, ie_Partition = km_Partition msg, ie_Offset = km_Offset msg\<rparr>)"

text \<open>\<open>route\<close> tells whether a queue exists for a market; a success returns that market and the event sent to it.\<close>

definition HandleOrderCommandWithContext ::
  "codec \<Rightarrow> ('d::linordered_idom) lib \<Rightarrow> time \<Rightarrow> bool \<Rightarrow> kafka_message \<Rightarrow> (string \<Rightarrow> bool) \<Rightarrow>
   command_error + string \<times> 'd input_event" where
  "HandleOrderCommandWithContext J L now ctxDone msg route =
     (case json_Envelope J (km_Value msg) of None \<Rightarrow> Inl ErrUnmarshalEnvelope | Some env \<Rightarrow>
      if km_Key msg = [] then Inl ErrMissingKey
      else if km_Key msg \<noteq> ce_MarketID env then Inl ErrKeyMismatch
      else case u_Parse L (ce_EventID env) of None \<Rightarrow> Inl ErrInvalidEventID | Some eventUUID \<Rightarrow>
      if ce_EventID env = [] then Inl ErrInvalidEventID
      else if ce_EventVersion env \<noteq> 1 then Inl ErrEventVersion
      else if \<not> route (ce_MarketID env) then Inl ErrUnknownMarket
      else if ce_EventType env = ''OrderCreated'' then
        map_sum (\<lambda>e. e) (\<lambda>ev. (ce_MarketID env, ev)) (handleCreated J L now ctxDone msg env eventUUID)
      else if ce_EventType env = ''OrderCancelRequested'' then
        map_sum (\<lambda>e. e) (\<lambda>ev. (ce_MarketID env, ev)) (handleCancel J L ctxDone msg env eventUUID)
      else Inl ErrUnknownEventType)"

section \<open>What is accepted\<close>

definition command_ok :: "kafka_message \<Rightarrow> time \<Rightarrow> string \<Rightarrow> ('d::linordered_idom) input_event \<Rightarrow> bool" where
  "command_ok msg now mk ev \<longleftrightarrow>
     mk = km_Key msg \<and> mk \<noteq> [] \<and>
     position ev = \<lparr>kp_Topic = km_Topic msg, kp_Partition = km_Partition msg, kp_Offset = km_Offset msg\<rparr> \<and>
     (ie_Type ev = EventOrderCreated \<or> ie_Type ev = EventOrderCancel) \<and> payload_present ev \<and>
     (\<forall>p. ie_OrderCreated ev = Some p \<longrightarrow>
        oc_MarketID p = mk \<and> 0 < oc_Quantity p \<and> 0 \<le> oc_Price p \<and>
        (oc_OrderType p = OrderTypeLimit \<longrightarrow> 0 < oc_Price p) \<and> oc_OccurredAt p \<le> now + minutes5) \<and>
     (\<forall>p. ie_OrderCancel ev = Some p \<longrightarrow> ol_MarketID p = mk)"

lemma parsePrice_nonneg: "parsePrice L s = Some p \<Longrightarrow> 0 \<le> p"
  by (auto simp: parsePrice_def split: if_splits option.splits)

lemma handleCreated_ok:
  assumes "handleCreated J L now ctxDone msg env u = Inr ev" "km_Key msg = ce_MarketID env" "km_Key msg \<noteq> []"
  shows "command_ok msg now (ce_MarketID env) ev \<and> ie_EventID ev = u"
  using assms parsePrice_nonneg
  by (auto simp: handleCreated_def command_ok_def position_def payload_present_def minutes5_def
      split: option.splits if_splits)

lemma handleCancel_ok:
  assumes "handleCancel J L ctxDone msg env u = Inr ev" "km_Key msg = ce_MarketID env" "km_Key msg \<noteq> []"
  shows "command_ok msg now (ce_MarketID env) ev \<and> ie_EventID ev = u"
  using assms
  by (auto simp: handleCancel_def command_ok_def position_def payload_present_def split: option.splits if_splits)

lemma map_sum_Inr: "map_sum f g x = Inr y \<longleftrightarrow> (\<exists>z. x = Inr z \<and> y = g z)"
  by (cases x) auto

lemma HandleOrderCommand_ok:
  assumes "HandleOrderCommandWithContext J L now ctxDone msg route = Inr (mk, ev)"
  shows "command_ok msg now mk ev \<and> route mk \<and> \<not> ctxDone"
proof -
  obtain env where env: "json_Envelope J (km_Value msg) = Some env"
    using assms by (auto simp: HandleOrderCommandWithContext_def split: option.splits)
  obtain u where u: "u_Parse L (ce_EventID env) = Some u"
    using assms by (auto simp: HandleOrderCommandWithContext_def env split: option.splits if_splits)
  have c: "km_Key msg \<noteq> []" "km_Key msg = ce_MarketID env" "route (ce_MarketID env)"
    using assms by (auto simp: HandleOrderCommandWithContext_def env u split: if_splits)
  consider "handleCreated J L now ctxDone msg env u = Inr ev" "mk = ce_MarketID env"
    | "handleCancel J L ctxDone msg env u = Inr ev" "mk = ce_MarketID env"
    using assms by (auto simp: HandleOrderCommandWithContext_def env u map_sum_Inr split: if_splits)
  then show ?thesis
  proof cases
    case 1
    have "\<not> ctxDone" using 1(1) by (auto simp: handleCreated_def split: option.splits if_splits)
    with handleCreated_ok[OF 1(1) c(2,1)] 1(2) c(3) show ?thesis by blast
  next
    case 2
    have "\<not> ctxDone" using 2(1) by (auto simp: handleCancel_def split: option.splits if_splits)
    with handleCancel_ok[OF 2(1) c(2,1), of now] 2(2) c(3) show ?thesis by blast
  qed
qed

section \<open>A sample message\<close>

definition sample_codec :: codec where
  "sample_codec =
     \<lparr>json_Envelope = (\<lambda>s. Some \<lparr>ce_EventID = show_unary 1, ce_EventType = ''OrderCreated'', ce_EventVersion = 1,
        ce_MarketID = ''BTC-USDT'', ce_OccurredAt = 6, ce_Payload = s\<rparr>),
      json_Created = (\<lambda>s. Some \<lparr>cj_OrderID = show_unary 3, cj_UserID = show_unary 2, cj_Side = ''BUY'',
        cj_OrderType = ''LIMIT'', cj_Price = show_unary 2, cj_Quantity = show_unary 3, cj_ClientOrderID = []\<rparr>),
      json_Cancel = (\<lambda>s. None)\<rparr>"

definition sample_message :: kafka_message where
  "sample_message = \<lparr>km_Topic = ''orders.commands'', km_Partition = 2, km_Offset = 0,
     km_Key = ''BTC-USDT'', km_Value = ''{}''\<rparr>"

lemma sample_command:
  "\<exists>ev. HandleOrderCommandWithContext sample_codec int_lib 7 False sample_message (\<lambda>m. m = ''BTC-USDT'') =
     Inr (''BTC-USDT'', ev) \<and> ie_EventID ev = 1 \<and> ie_Offset ev = 0"
  by (simp add: HandleOrderCommandWithContext_def handleCreated_def sample_codec_def sample_message_def
      int_lib_def read_show_unary parseSide_def parseOrderType_def parsePrice_def minutes5_def)
    (simp add: show_unary_def)

section \<open>Properties\<close>

text \<open>
  What the intake lets through. A message that is accepted goes to the queue of the
  market named by its partition key, keeps its Kafka position, carries the payload of its
  type for that market, and an order in it has a positive quantity, a non-negative price,
  a positive one if it is a limit order, and a time that is not in the far future.
\<close>

theorem accepted_command_valid:
  assumes "HandleOrderCommandWithContext J L now ctxDone msg route = Inr (mk, ev)"
  shows "command_ok msg now mk ev \<and> route mk \<and> \<not> ctxDone"
  using HandleOrderCommand_ok[OF assms] .

theorem accepted_command_valid_witness:
  "\<exists>ev. HandleOrderCommandWithContext sample_codec int_lib 7 False sample_message (\<lambda>m. m = ''BTC-USDT'') =
     Inr (''BTC-USDT'', ev) \<and> command_ok sample_message 7 ''BTC-USDT'' ev"
  using sample_command accepted_command_valid[of sample_codec int_lib 7 False sample_message "\<lambda>m. m = ''BTC-USDT''"]
  by blast

text \<open>
  From the intake to the book. Every accepted command, handed to a running engine that
  is not halted, is processed without a panic, leaves the engine sound and is answered by
  exactly one result carrying the Kafka position of the message.
\<close>

theorem accepted_command_is_answered:
  assumes "lib_ok L" and "HandleOrderCommandWithContext J L now ctxDone msg route = Inr (mk, ev)"
    and "engine_ok L (rs_engine rs)" and "\<not> e_isFatalHalt (rs_engine rs)" and "rs_phase rs = Running"
  shows "\<exists>rs' res. runEvent L now2 rs ev = Some rs' \<and> engine_ok L (rs_engine rs') \<and> rs_phase rs' = Running \<and>
    rs_out rs' = rs_out rs @ [res] \<and>
    mr_SourcePosition res = \<lparr>kp_Topic = km_Topic msg, kp_Partition = km_Partition msg, kp_Offset = km_Offset msg\<rparr>"
proof -
  from HandleOrderCommand_ok[OF assms(2)] have c: "payload_present ev"
    "ie_Type ev = EventOrderCreated \<or> ie_Type ev = EventOrderCancel"
    "position ev = \<lparr>kp_Topic = km_Topic msg, kp_Partition = km_Partition msg, kp_Offset = km_Offset msg\<rparr>"
    by (simp_all add: command_ok_def)
  from c(1) have "payload_present ev \<or> runEvent L now2 rs ev \<noteq> None" by simp
  from runEvent_answered[OF assms(1,3) this assms(4,5)] c(2) obtain rs' where r:
    "runEvent L now2 rs ev = Some rs'" "answered L rs ev rs'" "rs_phase rs' = Running"
    "length (rs_out rs') = Suc (length (rs_out rs))" by auto
  from r(2) obtain outs where o: "rs_out rs' = rs_out rs @ outs"
    "\<forall>res\<in>set outs. mr_SourcePosition res = position ev" "engine_ok L (rs_engine rs')"
    by (auto simp: answered_def)
  from o(1) r(4) obtain res where "outs = [res]" by (cases outs) auto
  with o r c(3) show ?thesis by auto
qed

theorem accepted_command_is_answered_witness:
  "\<exists>ev rs'. HandleOrderCommandWithContext sample_codec int_lib 7 False sample_message (\<lambda>m. m = ''BTC-USDT'') =
     Inr (''BTC-USDT'', ev) \<and> runEvent int_lib 8 (startRun 5 sample_engine) ev = Some rs' \<and> length (rs_out rs') = 1"
proof -
  obtain ev where ev: "HandleOrderCommandWithContext sample_codec int_lib 7 False sample_message (\<lambda>m. m = ''BTC-USDT'') =
     Inr (''BTC-USDT'', ev)" using sample_command by blast
  have s: "engine_ok int_lib (rs_engine (startRun 5 sample_engine))" "rs_phase (startRun 5 sample_engine) = Running"
    "\<not> e_isFatalHalt (rs_engine (startRun 5 sample_engine))" "rs_out (startRun 5 sample_engine) = []"
    using sample_engine by (simp_all add: startRun_def)
  from accepted_command_is_answered[OF int_lib_ok ev s(1,3,2), of 8] ev s(4) show ?thesis by auto
qed

end
