(* ===== verification/Postgres.thy ===== *)
theory Postgres
  imports Extern
begin

text \<open>
  Transactions as the services use them through \<open>pgx\<close>. A database is a value of a type
  \<open>'db\<close>; a service function is a program over the committed database, the working copy of
  the open transaction and a flag for the aborted state PostgreSQL puts a transaction in
  after a failed statement. An environment decides which calls fail, what a generated UUID
  is and how a commit ends, a lost acknowledgement included. Between two calls of one function
  no other transaction commits; several functions interleave at their boundaries.
\<close>

section \<open>Programs\<close>

datatype commit_outcome = CommitOk | CommitFailed | CommitLostAck

record pg_env =
  pe_fault :: "nat \<Rightarrow> bool"
  pe_uuid :: "nat \<Rightarrow> uuid option"
  pe_commit :: "nat \<Rightarrow> commit_outcome"
  pe_now :: "nat \<Rightarrow> time"

record 'db txs =
  x_base :: 'db
  x_db :: 'db
  x_n :: nat
  x_aborted :: bool

type_synonym ('db, 'e, 'a) prog = "'db txs \<Rightarrow> ('e + 'a) \<times> 'db txs"

definition startTx :: "'db \<Rightarrow> 'db txs" where
  "startTx db = \<lparr>x_base = db, x_db = db, x_n = 0, x_aborted = False\<rparr>"

definition ret :: "'a \<Rightarrow> ('db, 'e, 'a) prog" where
  "ret a = (\<lambda>s. (Inr a, s))"

definition throw :: "'e \<Rightarrow> ('db, 'e, 'a) prog" where
  "throw e = (\<lambda>s. (Inl e, s))"

definition bindT :: "('db, 'e, 'a) prog \<Rightarrow> ('a \<Rightarrow> ('db, 'e, 'b) prog) \<Rightarrow> ('db, 'e, 'b) prog" where
  "bindT m f = (\<lambda>s. case m s of (Inl e, s') \<Rightarrow> (Inl e, s') | (Inr a, s') \<Rightarrow> f a s')"

text \<open>The error of a call as a value, for the callers that inspect it.\<close>

definition tryT :: "('db, 'e, 'a) prog \<Rightarrow> ('db, 'e, 'e + 'a) prog" where
  "tryT m = (\<lambda>s. case m s of (r, s') \<Rightarrow> (Inr r, s'))"

text \<open>A pure check: a value or an error.\<close>

definition lift :: "'e + 'a \<Rightarrow> ('db, 'e, 'a) prog" where
  "lift r = (case r of Inl e \<Rightarrow> throw e | Inr a \<Rightarrow> ret a)"

text \<open>
  A statement of the transaction: refused when the transaction is aborted, and any failure,
  a constraint violation or a broken connection (\<open>err\<close>), aborts it.
\<close>

definition stmt :: "pg_env \<Rightarrow> 'e \<Rightarrow> ('db \<Rightarrow> 'e + 'a \<times> 'db) \<Rightarrow> ('db, 'e, 'a) prog" where
  "stmt en err f = (\<lambda>s.
     if x_aborted s then (Inl err, s\<lparr>x_n := x_n s + 1\<rparr>)
     else if pe_fault en (x_n s) then (Inl err, s\<lparr>x_n := x_n s + 1, x_aborted := True\<rparr>)
     else case f (x_db s) of
       Inl e \<Rightarrow> (Inl e, s\<lparr>x_n := x_n s + 1, x_aborted := True\<rparr>)
     | Inr (a, db) \<Rightarrow> (Inr a, s\<lparr>x_n := x_n s + 1, x_db := db\<rparr>))"

text \<open>A statement on a connection of the pool: a transaction of its own.\<close>

definition pool :: "pg_env \<Rightarrow> 'e \<Rightarrow> ('db \<Rightarrow> 'e + 'a \<times> 'db) \<Rightarrow> ('db, 'e, 'a) prog" where
  "pool en err f = (\<lambda>s.
     if pe_fault en (x_n s) then (Inl err, s\<lparr>x_n := x_n s + 1\<rparr>)
     else case f (x_base s) of
       Inl e \<Rightarrow> (Inl e, s\<lparr>x_n := x_n s + 1\<rparr>)
     | Inr (a, db) \<Rightarrow>
         (case pe_commit en (x_n s) of
            CommitOk \<Rightarrow> (Inr a, s\<lparr>x_n := x_n s + 1, x_base := db\<rparr>)
          | CommitFailed \<Rightarrow> (Inl err, s\<lparr>x_n := x_n s + 1\<rparr>)
          | CommitLostAck \<Rightarrow> (Inl err, s\<lparr>x_n := x_n s + 1, x_base := db\<rparr>)))"

text \<open>A read-only query, in the transaction or on the pool.\<close>

definition query :: "pg_env \<Rightarrow> 'e \<Rightarrow> ('db \<Rightarrow> 'e + 'a) \<Rightarrow> ('db, 'e, 'a) prog" where
  "query en err f = stmt en err (\<lambda>db. case f db of Inl e \<Rightarrow> Inl e | Inr a \<Rightarrow> Inr (a, db))"

definition poolQuery :: "pg_env \<Rightarrow> 'e \<Rightarrow> ('db \<Rightarrow> 'e + 'a) \<Rightarrow> ('db, 'e, 'a) prog" where
  "poolQuery en err f = (\<lambda>s.
     if pe_fault en (x_n s) then (Inl err, s\<lparr>x_n := x_n s + 1\<rparr>)
     else (f (x_base s), s\<lparr>x_n := x_n s + 1\<rparr>))"

definition beginTx :: "pg_env \<Rightarrow> 'e \<Rightarrow> ('db, 'e, unit) prog" where
  "beginTx en err = (\<lambda>s.
     if pe_fault en (x_n s) then (Inl err, s\<lparr>x_n := x_n s + 1\<rparr>)
     else (Inr (), s\<lparr>x_n := x_n s + 1, x_db := x_base s, x_aborted := False\<rparr>))"

text \<open>\<open>tx.Commit\<close>; of an aborted transaction it rolls back and returns an error.\<close>

definition commit :: "pg_env \<Rightarrow> 'e \<Rightarrow> ('db, 'e, unit) prog" where
  "commit en err = (\<lambda>s.
     if x_aborted s then (Inl err, s\<lparr>x_n := x_n s + 1\<rparr>)
     else case pe_commit en (x_n s) of
       CommitOk \<Rightarrow> (Inr (), s\<lparr>x_n := x_n s + 1, x_base := x_db s\<rparr>)
     | CommitFailed \<Rightarrow> (Inl err, s\<lparr>x_n := x_n s + 1\<rparr>)
     | CommitLostAck \<Rightarrow> (Inl err, s\<lparr>x_n := x_n s + 1, x_base := x_db s\<rparr>))"

text \<open>\<open>platform/uuid.New\<close>.\<close>

definition newUUID :: "pg_env \<Rightarrow> 'e \<Rightarrow> ('db, 'e, uuid) prog" where
  "newUUID en err = (\<lambda>s. (case pe_uuid en (x_n s) of None \<Rightarrow> Inl err | Some u \<Rightarrow> Inr u, s\<lparr>x_n := x_n s + 1\<rparr>))"

text \<open>\<open>time.Now()\<close>.\<close>

definition timeNow :: "pg_env \<Rightarrow> ('db, 'e, time) prog" where
  "timeNow en = (\<lambda>s. (Inr (pe_now en (x_n s)), s\<lparr>x_n := x_n s + 1\<rparr>))"

text \<open>What a call leaves: the deferred \<open>Rollback\<close> drops the working copy.\<close>

definition runTx :: "('db, 'e, 'a) prog \<Rightarrow> 'db \<Rightarrow> ('e + 'a) \<times> 'db" where
  "runTx m db = (case m (startTx db) of (r, s) \<Rightarrow> (r, x_base s))"

section \<open>Statements over rows\<close>

text \<open>\<open>UPDATE ... SET ... WHERE p\<close>: the new rows with their number, or the error of the first row that fails.\<close>

fun update_rows :: "('r \<Rightarrow> bool) \<Rightarrow> ('r \<Rightarrow> 'e + 'r) \<Rightarrow> 'r list \<Rightarrow> 'e + 'r list \<times> nat" where
  "update_rows p f [] = Inr ([], 0)"
| "update_rows p f (r # rs) =
     (case (if p r then f r else Inr r) of
        Inl e \<Rightarrow> Inl e
      | Inr r' \<Rightarrow>
          (case update_rows p f rs of
             Inl e \<Rightarrow> Inl e
           | Inr (rs', n) \<Rightarrow> Inr (r' # rs', (if p r then Suc n else n))))"

lemma update_rows_none: "\<forall>r\<in>set rs. \<not> p r \<Longrightarrow> update_rows p f rs = Inr (rs, 0)"
  by (induction rs) auto

lemma update_rows_zero: "update_rows p f rs = Inr (rs', 0) \<Longrightarrow> rs' = rs"
  by (induction rs arbitrary: rs') (auto split: sum.splits if_splits prod.splits)

lemma update_rows_zero_none: "update_rows p f rs = Inr (rs', 0) \<Longrightarrow> \<forall>r\<in>set rs. \<not> p r"
  by (induction rs arbitrary: rs') (auto split: sum.splits if_splits prod.splits)

lemma update_rows_Suc:
  "update_rows p f rs = Inr (rs', Suc n) \<Longrightarrow>
   \<exists>xs r r' ys. rs = xs @ r # ys \<and> p r \<and> f r = Inr r' \<and> (\<forall>x\<in>set xs. \<not> p x) \<and>
     (\<exists>ys'. update_rows p f ys = Inr (ys', n) \<and> rs' = xs @ r' # ys')"
proof (induction rs arbitrary: rs')
  case (Cons x rs)
  show ?case
  proof (cases "p x")
    case True
    with Cons.prems obtain x' zs where "f x = Inr x'" "update_rows p f rs = Inr (zs, n)" "rs' = x' # zs"
      by (auto split: sum.splits prod.splits)
    with True show ?thesis
      by (intro exI[of _ "[]"] exI[of _ x] exI[of _ x'] exI[of _ rs]) simp
  next
    case False
    with Cons.prems obtain zs where zs: "update_rows p f rs = Inr (zs, Suc n)" "rs' = x # zs"
      by (auto split: sum.splits prod.splits)
    from Cons.IH[OF zs(1)] obtain xs r r' ys ys' where "rs = xs @ r # ys" "p r" "f r = Inr r'"
      "\<forall>x\<in>set xs. \<not> p x" "update_rows p f ys = Inr (ys', n)" "zs = xs @ r' # ys'" by blast
    with False zs(2) show ?thesis by (intro exI[of _ "x # xs"] exI[of _ r] exI[of _ r'] exI[of _ ys]) auto
  qed
qed simp

text \<open>A \<open>WHERE\<close> clause on a unique key updates one row in place.\<close>

lemma update_rows_key:
  assumes "update_rows p f rs = Inr (rs', n)" and "n \<noteq> 0" and "distinct (map key rs)"
    and "\<And>r. p r \<Longrightarrow> key r = k"
  obtains xs r r' ys where "rs = xs @ r # ys" "rs' = xs @ r' # ys" "p r" "key r = k" "f r = Inr r'"
proof -
  from assms(2) obtain m where n: "n = Suc m" by (cases n) auto
  from update_rows_Suc[OF assms(1)[unfolded n]] obtain xs r r' ys ys' where
    *: "rs = xs @ r # ys" "p r" "f r = Inr r'" "update_rows p f ys = Inr (ys', m)" "rs' = xs @ r' # ys'"
    by blast
  have "\<not> p y" if "y \<in> set ys" for y
  proof
    assume "p y"
    then have "key y = k" by (rule assms(4))
    moreover have "key r = k" by (rule assms(4)[OF *(2)])
    ultimately show False using assms(3) *(1) that by (force simp: in_set_conv_decomp)
  qed
  then have "update_rows p f ys = Inr (ys, 0)" by (intro update_rows_none) blast
  with * assms(4) that show thesis by auto
qed

text \<open>The row a query on a unique key returns.\<close>

lemma find_split:
  assumes "List.find p rs = Some r"
  obtains xs ys where "rs = xs @ r # ys" "p r" "\<forall>x\<in>set xs. \<not> p x"
  using assms that by (auto simp: find_Some_iff in_set_conv_nth)
    (metis id_take_nth_drop less_imp_le_nat nth_take in_set_conv_nth length_take min.absorb2)

lemma find_in: "List.find p rs = Some r \<Longrightarrow> r \<in> set rs \<and> p r"
  by (auto simp: find_Some_iff)

section \<open>Reasoning about programs\<close>

text \<open>
  A triple with a postcondition for values and one for errors. \<open>working b d\<close> is an open
  transaction on the committed database \<open>b\<close> with the working copy \<open>d\<close>; \<open>idle b\<close> is any
  state whose committed database is \<open>b\<close>.
\<close>

definition hoare :: "('db txs \<Rightarrow> bool) \<Rightarrow> ('db, 'e, 'a) prog \<Rightarrow> ('a \<Rightarrow> 'db txs \<Rightarrow> bool) \<Rightarrow>
    ('e \<Rightarrow> 'db txs \<Rightarrow> bool) \<Rightarrow> bool" where
  "hoare P m Q E \<longleftrightarrow>
     (\<forall>s. P s \<longrightarrow> (case m s of (Inr a, s') \<Rightarrow> Q a s' | (Inl e, s') \<Rightarrow> E e s'))"

definition working :: "'db \<Rightarrow> 'db \<Rightarrow> 'db txs \<Rightarrow> bool" where
  "working b d s \<longleftrightarrow> x_base s = b \<and> x_db s = d \<and> \<not> x_aborted s"

definition idle :: "'db \<Rightarrow> 'db txs \<Rightarrow> bool" where
  "idle b s \<longleftrightarrow> x_base s = b"

definition aborted :: "'db \<Rightarrow> 'db txs \<Rightarrow> bool" where
  "aborted b s \<longleftrightarrow> x_base s = b \<and> x_aborted s"

named_theorems hoare_intros \<open>triples of the program constructors\<close>

lemma hoareD: "hoare P m Q E \<Longrightarrow> P s \<Longrightarrow> m s = (Inr a, s') \<Longrightarrow> Q a s'"
  and hoare_errD: "hoare P m Q E \<Longrightarrow> P s \<Longrightarrow> m s = (Inl e, s') \<Longrightarrow> E e s'"
  by (auto simp: hoare_def split: prod.splits)

lemma hoare_runTx:
  assumes "hoare (idle db) m Q E" and "runTx m db = (r, db')"
  shows "(\<exists>s. x_base s = db' \<and> (case r of Inr a \<Rightarrow> Q a s | Inl e \<Rightarrow> E e s))"
  using assms by (auto simp: hoare_def runTx_def idle_def startTx_def split: prod.splits sum.splits)
    (metis select_convs(1))+

lemma hoare_ret [hoare_intros]: "(\<And>s. P s \<Longrightarrow> Q a s) \<Longrightarrow> hoare P (ret a) Q E"
  by (simp add: hoare_def ret_def)

lemma hoare_throw [hoare_intros]: "(\<And>s. P s \<Longrightarrow> E e s) \<Longrightarrow> hoare P (throw e) Q E"
  by (simp add: hoare_def throw_def)

lemma hoare_bind: "hoare P m Q' E \<Longrightarrow> (\<And>a. hoare (Q' a) (f a) Q E) \<Longrightarrow> hoare P (bindT m f) Q E"
  by (fastforce simp: hoare_def bindT_def split: prod.splits sum.splits)

lemma hoare_if [hoare_intros]:
  "(c \<Longrightarrow> hoare P m Q E) \<Longrightarrow> (\<not> c \<Longrightarrow> hoare P m' Q E) \<Longrightarrow> hoare P (if c then m else m') Q E"
  by simp

lemma hoare_weaken: "hoare P m Q E \<Longrightarrow> (\<And>s. P' s \<Longrightarrow> P s) \<Longrightarrow> hoare P' m Q E"
  by (auto simp: hoare_def)

lemma hoare_conseq:
  "hoare P m Q E \<Longrightarrow> (\<And>a s. Q a s \<Longrightarrow> Q' a s) \<Longrightarrow> (\<And>e s. E e s \<Longrightarrow> E' e s) \<Longrightarrow> hoare P m Q' E'"
  by (fastforce simp: hoare_def split: prod.splits sum.splits)

lemma working_idle: "working b d s \<Longrightarrow> idle b s"
  by (simp add: working_def idle_def)

lemma aborted_idle: "aborted b s \<Longrightarrow> idle b s"
  by (simp add: aborted_def idle_def)

lemma hoare_lift [hoare_intros]:
  "(\<And>a. r = Inr a \<Longrightarrow> hoare P (f a) Q E) \<Longrightarrow> (\<And>e s. r = Inl e \<Longrightarrow> P s \<Longrightarrow> E e s) \<Longrightarrow>
   hoare P (bindT (lift r) f) Q E"
  by (cases r) (auto simp: hoare_def bindT_def lift_def throw_def ret_def)

lemma hoare_begin [hoare_intros]:
  "hoare (working b b) (f ()) Q E \<Longrightarrow> (\<And>s. idle b s \<Longrightarrow> E err s) \<Longrightarrow>
   hoare (idle b) (bindT (beginTx en err) f) Q E"
  by (auto simp: hoare_def bindT_def beginTx_def idle_def working_def)

lemma hoare_stmt [hoare_intros]:
  "(\<And>a d'. f d = Inr (a, d') \<Longrightarrow> hoare (working b d') (k a) Q E) \<Longrightarrow> (\<And>e s. idle b s \<Longrightarrow> E e s) \<Longrightarrow>
   hoare (working b d) (bindT (stmt en err f) k) Q E"
  by (auto simp: hoare_def bindT_def stmt_def working_def idle_def split: sum.splits prod.splits)

lemma hoare_query [hoare_intros]:
  "(\<And>a. f d = Inr a \<Longrightarrow> hoare (working b d) (k a) Q E) \<Longrightarrow> (\<And>e s. idle b s \<Longrightarrow> E e s) \<Longrightarrow>
   hoare (working b d) (bindT (query en err f) k) Q E"
  unfolding query_def by (rule hoare_stmt) (auto split: sum.splits)

lemma hoare_poolQuery [hoare_intros]:
  "(\<And>a. f b = Inr a \<Longrightarrow> hoare (idle b) (k a) Q E) \<Longrightarrow> (\<And>e s. idle b s \<Longrightarrow> E e s) \<Longrightarrow>
   hoare (idle b) (bindT (poolQuery en err f) k) Q E"
  by (auto simp: hoare_def bindT_def poolQuery_def idle_def split: sum.splits)

lemma hoare_poolQuery_working [hoare_intros]:
  "(\<And>a. f b = Inr a \<Longrightarrow> hoare (working b d) (k a) Q E) \<Longrightarrow> (\<And>e s. idle b s \<Longrightarrow> E e s) \<Longrightarrow>
   hoare (working b d) (bindT (poolQuery en err f) k) Q E"
  by (auto simp: hoare_def bindT_def poolQuery_def idle_def working_def split: sum.splits)

lemma hoare_newUUID [hoare_intros]:
  "(\<And>n u. pe_uuid en n = Some u \<Longrightarrow> hoare (working b d) (k u) Q E) \<Longrightarrow> (\<And>e s. idle b s \<Longrightarrow> E e s) \<Longrightarrow>
   hoare (working b d) (bindT (newUUID en err) k) Q E"
  by (auto simp: hoare_def bindT_def newUUID_def idle_def working_def split: option.splits)

lemma hoare_timeNow [hoare_intros]:
  "(\<And>t. hoare (working b d) (k t) Q E) \<Longrightarrow> hoare (working b d) (bindT (timeNow en) k) Q E"
  by (auto simp: hoare_def bindT_def timeNow_def working_def)

lemma hoare_timeNow_idle [hoare_intros]:
  "(\<And>t. hoare (idle b) (k t) Q E) \<Longrightarrow> hoare (idle b) (bindT (timeNow en) k) Q E"
  by (auto simp: hoare_def bindT_def timeNow_def idle_def)

lemma bindT_assoc: "bindT (bindT m f) g = bindT m (\<lambda>a. bindT (f a) g)"
  by (auto simp: bindT_def fun_eq_iff split: prod.splits sum.splits)

lemma bindT_if: "bindT (if c then m else m') g = (if c then bindT m g else bindT m' g)"
  by simp

lemma bindT_ret: "bindT (ret a) g = g a"
  by (simp add: bindT_def ret_def)

lemma bindT_throw: "bindT (throw e) g = throw e"
  by (simp add: bindT_def throw_def)

lemmas bindT_simps = bindT_assoc bindT_if bindT_ret bindT_throw

text \<open>A commit installs the working copy, also when its acknowledgement is lost.\<close>

lemma hoare_commit [hoare_intros]:
  "hoare (idle d) (k ()) Q E \<Longrightarrow> (\<And>s. idle b s \<Longrightarrow> E err s) \<Longrightarrow> (\<And>s. idle d s \<Longrightarrow> E err s) \<Longrightarrow>
   hoare (working b d) (bindT (commit en err) k) Q E"
  by (auto simp: hoare_def bindT_def commit_def idle_def working_def split: commit_outcome.split)

lemma hoare_commit_aborted [hoare_intros]:
  "(\<And>s. idle b s \<Longrightarrow> E err s) \<Longrightarrow> hoare (aborted b) (bindT (commit en err) k) Q E"
  by (auto simp: hoare_def bindT_def commit_def idle_def aborted_def)

text \<open>A statement whose error is inspected: its failure aborts the transaction.\<close>

lemma hoare_try_stmt [hoare_intros]:
  "(\<And>a d'. f d = Inr (a, d') \<Longrightarrow> hoare (working b d') (k (Inr a)) Q E) \<Longrightarrow>
   (\<And>e. e = err \<or> f d = Inl e \<Longrightarrow> hoare (aborted b) (k (Inl e)) Q E) \<Longrightarrow>
   hoare (working b d) (bindT (tryT (stmt en err f)) k) Q E"
  by (fastforce simp: hoare_def bindT_def tryT_def stmt_def working_def aborted_def split: sum.splits prod.splits)

lemma hoare_try_query_aborted [hoare_intros]:
  "hoare (aborted b) (k (Inl err)) Q E \<Longrightarrow>
   hoare (aborted b) (bindT (tryT (query en err f)) k) Q E"
  by (auto simp: hoare_def bindT_def tryT_def query_def stmt_def aborted_def)

lemma hoare_stmt_aborted [hoare_intros]:
  "(\<And>s. idle b s \<Longrightarrow> E err s) \<Longrightarrow> hoare (aborted b) (bindT (stmt en err f) k) Q E"
  by (auto simp: hoare_def bindT_def stmt_def aborted_def idle_def)

text \<open>A pool statement commits on its own.\<close>

lemma hoare_pool [hoare_intros]:
  assumes k: "\<And>a b'. f b = Inr (a, b') \<Longrightarrow> hoare (idle b') (k a) Q E"
    and e: "\<And>e s. idle b s \<Longrightarrow> E e s" and l: "\<And>a b' e s. f b = Inr (a, b') \<Longrightarrow> idle b' s \<Longrightarrow> E e s"
  shows "hoare (idle b) (bindT (pool en err f) k) Q E"
proof (cases "f b")
  case (Inl x)
  with e show ?thesis by (auto simp: hoare_def bindT_def pool_def idle_def)
next
  case (Inr y)
  obtain a b' where y: "f b = Inr (a, b')" using Inr by (cases y) auto
  from k[OF y] l[OF y] e show ?thesis
    by (auto simp: hoare_def bindT_def pool_def idle_def y split: commit_outcome.split)
qed


section \<open>Control flow\<close>

lemma hoare_option [hoare_intros]:
  "(x = None \<Longrightarrow> hoare P m Q E) \<Longrightarrow> (\<And>a. x = Some a \<Longrightarrow> hoare P (f a) Q E) \<Longrightarrow>
   hoare P (case x of None \<Rightarrow> m | Some a \<Rightarrow> f a) Q E"
  by (cases x) auto

lemma hoare_sum [hoare_intros]:
  "(\<And>e. x = Inl e \<Longrightarrow> hoare P (g e) Q E) \<Longrightarrow> (\<And>a. x = Inr a \<Longrightarrow> hoare P (f a) Q E) \<Longrightarrow>
   hoare P (case x of Inl e \<Rightarrow> g e | Inr a \<Rightarrow> f a) Q E"
  by (cases x) auto

lemma hoare_pair [hoare_intros]:
  "(\<And>a b. x = (a, b) \<Longrightarrow> hoare P (f a b) Q E) \<Longrightarrow> hoare P (case x of (a, b) \<Rightarrow> f a b) Q E"
  by (cases x) auto

text \<open>The last action of a program.\<close>

lemma hoare_lift_last [hoare_intros]:
  "(\<And>a s. r = Inr a \<Longrightarrow> P s \<Longrightarrow> Q a s) \<Longrightarrow> (\<And>e s. r = Inl e \<Longrightarrow> P s \<Longrightarrow> E e s) \<Longrightarrow> hoare P (lift r) Q E"
  by (cases r) (auto simp: hoare_def lift_def throw_def ret_def)

lemma hoare_last: "hoare P (bindT m ret) Q E \<Longrightarrow> hoare P m Q E"
  by (auto simp: hoare_def bindT_def ret_def split: prod.splits sum.splits)

lemma hoare_commit_last [hoare_intros]:
  "(\<And>s. idle d s \<Longrightarrow> Q () s) \<Longrightarrow> (\<And>s. idle b s \<Longrightarrow> E err s) \<Longrightarrow> (\<And>s. idle d s \<Longrightarrow> E err s) \<Longrightarrow>
   hoare (working b d) (commit en err) Q E"
  by (rule hoare_last) (auto intro!: hoare_commit hoare_ret)

lemma hoare_commit_aborted_last [hoare_intros]:
  "(\<And>s. idle b s \<Longrightarrow> E err s) \<Longrightarrow> hoare (aborted b) (commit en err) Q E"
  by (rule hoare_last) (rule hoare_commit_aborted)

lemma hoare_try_poolQuery_aborted [hoare_intros]:
  "(\<And>r. r = Inl err \<or> r = f b \<Longrightarrow> hoare (aborted b) (k r) Q E) \<Longrightarrow>
   hoare (aborted b) (bindT (tryT (poolQuery en err f)) k) Q E"
  by (auto simp: hoare_def bindT_def tryT_def poolQuery_def aborted_def)

text \<open>A working copy known up to a property.\<close>

lemma hoare_working_ex:
  "(\<And>d. R d \<Longrightarrow> hoare (working b d) m Q E) \<Longrightarrow> hoare (\<lambda>s. \<exists>d. working b d s \<and> R d) m Q E"
  by (fastforce simp: hoare_def)

end
