(* ===== verification/Checkpoint.thy ===== *)
theory Checkpoint
  imports Engine Postgres
begin

text \<open>
  The checkpoint coordinator (\<open>services/matching-engine/internal/checkpoint/coordinator.go\<close>)
  with the three tables it writes. A transaction either commits all its statements or
  none; the record \<open>db_faults\<close> chooses which call to the database fails in one call of the
  coordinator, including a commit that takes effect while its acknowledgement is lost.
  Trackers are keyed by topic and partition, as the string \<open>topic:partition\<close> is.
\<close>

section \<open>Data\<close>

record completed_event =
  cv_Pos :: kafka_position
  cv_MarketID :: string
  cv_Sequence :: "64 word"
  cv_Snapshot :: "book_snapshot option"
  cv_Checksum :: string

record tracker =
  pt_lastCommitted :: int
  pt_hasCommitted :: bool
  pt_inFlight :: "int set"
  pt_completed :: "int \<rightharpoonup> completed_event"

record snapshot_row =
  sr_Partition :: int
  sr_Offset :: int
  sr_SchemaVersion :: "32 word"
  sr_Snapshot :: book_snapshot
  sr_Checksum :: string

record me_db =
  db_sequences :: "string \<rightharpoonup> 64 word"
  db_snapshots :: "string \<times> 64 word \<rightharpoonup> snapshot_row"
  db_checkpoints :: "string \<times> int \<rightharpoonup> int"

text \<open>\<open>c_groupOffsets\<close> is the consumer group position at the broker, \<open>c_hasDB\<close> whether \<open>db\<close> is set.\<close>

record coordinator =
  c_hasDB :: bool
  c_db :: me_db
  c_trackers :: "string \<times> int \<rightharpoonup> tracker"
  c_committers :: "string set"
  c_groupOffsets :: "string \<times> int \<rightharpoonup> int"

record db_faults =
  df_begin :: bool
  df_exec :: "nat \<Rightarrow> bool"
  df_commit :: commit_outcome
  df_kafka :: bool

datatype checkpoint_error =
    ErrFenced | ErrBegin | ErrPersistSequence | ErrSequenceRegression | ErrSnapshotChecksum
  | ErrPersistSnapshot | ErrSnapshotConflict | ErrPersistCheckpoint | ErrCommit | ErrKafkaCommit
  | ErrSnapshotOnly checkpoint_error

section \<open>The statements\<close>

text \<open>\<open>INSERT ... ON CONFLICT (market_id) DO UPDATE ... WHERE sequence <= EXCLUDED.sequence\<close>, with the rows affected.\<close>

definition upsertSequence :: "me_db \<Rightarrow> string \<Rightarrow> 64 word \<Rightarrow> me_db \<times> nat" where
  "upsertSequence db mk sq =
     (case db_sequences db mk of
        Some old \<Rightarrow> if old \<le> sq then (db\<lparr>db_sequences := (db_sequences db)(mk \<mapsto> sq)\<rparr>, 1) else (db, 0)
      | None \<Rightarrow> (db\<lparr>db_sequences := (db_sequences db)(mk \<mapsto> sq)\<rparr>, 1))"

definition upsertSnapshot :: "me_db \<Rightarrow> completed_event \<Rightarrow> book_snapshot \<Rightarrow> string \<Rightarrow> me_db \<times> nat" where
  "upsertSnapshot db ev snap checksum =
     (let key = (cv_MarketID ev, cv_Sequence ev);
          row = \<lparr>sr_Partition = kp_Partition (cv_Pos ev), sr_Offset = kp_Offset (cv_Pos ev),
                 sr_SchemaVersion = bs_SchemaVersion snap, sr_Snapshot = snap, sr_Checksum = checksum\<rparr> in
      case db_snapshots db key of
        Some old \<Rightarrow>
          if sr_Checksum old = checksum \<and> sr_Offset old \<le> kp_Offset (cv_Pos ev)
          then (db\<lparr>db_snapshots := (db_snapshots db)(key \<mapsto> row)\<rparr>, 1) else (db, 0)
      | None \<Rightarrow> (db\<lparr>db_snapshots := (db_snapshots db)(key \<mapsto> row)\<rparr>, 1))"

definition upsertCheckpoint :: "me_db \<Rightarrow> string \<Rightarrow> int \<Rightarrow> int \<Rightarrow> me_db" where
  "upsertCheckpoint db topic part off =
     (case db_checkpoints db (topic, part) of
        Some old \<Rightarrow> if old < off then db\<lparr>db_checkpoints := (db_checkpoints db)((topic, part) \<mapsto> off)\<rparr> else db
      | None \<Rightarrow> db\<lparr>db_checkpoints := (db_checkpoints db)((topic, part) \<mapsto> off)\<rparr>)"

text \<open>
  Sequence and snapshot of one completed event inside a transaction; \<open>n\<close> counts the
  statements so far. The same statements make up \<open>persistSnapshotOnly\<close>.
\<close>

definition persistEvent ::
  "checksum_fun \<Rightarrow> db_faults \<Rightarrow> nat \<Rightarrow> me_db \<Rightarrow> completed_event \<Rightarrow> checkpoint_error + me_db \<times> nat" where
  "persistEvent ck fl n db ev =
     (case (if cv_MarketID ev \<noteq> [] then
              (if df_exec fl n then Inl ErrPersistSequence
               else let (db1, rows) = upsertSequence db (cv_MarketID ev) (cv_Sequence ev) in
                    if rows = 0 then Inl ErrSequenceRegression else Inr (db1, n + 1))
            else Inr (db, n)) of
        Inl e \<Rightarrow> Inl e
      | Inr (db1, n1) \<Rightarrow>
          (case cv_Snapshot ev of
             None \<Rightarrow> Inr (db1, n1)
           | Some snap \<Rightarrow>
               (case (if cv_Checksum ev = [] then ck snap else Some (cv_Checksum ev)) of
                  None \<Rightarrow> Inl ErrSnapshotChecksum
                | Some checksum \<Rightarrow>
                    if df_exec fl n1 then Inl ErrPersistSnapshot
                    else let (db2, rows) = upsertSnapshot db1 ev snap checksum in
                         if rows = 0 then Inl ErrSnapshotConflict else Inr (db2, n1 + 1))))"

fun persistEvents ::
  "checksum_fun \<Rightarrow> db_faults \<Rightarrow> nat \<Rightarrow> me_db \<Rightarrow> completed_event list \<Rightarrow> checkpoint_error + me_db \<times> nat" where
  "persistEvents ck fl n db [] = Inr (db, n)"
| "persistEvents ck fl n db (ev # evs) =
     (case persistEvent ck fl n db ev of
        Inl e \<Rightarrow> Inl e
      | Inr (db1, n1) \<Rightarrow> persistEvents ck fl n1 db1 evs)"

text \<open>\<open>tx.Commit\<close>: the database afterwards and the error the caller sees.\<close>

definition commitTx :: "db_faults \<Rightarrow> me_db \<Rightarrow> me_db \<Rightarrow> me_db \<times> checkpoint_error option" where
  "commitTx fl before after =
     (case df_commit fl of
        CommitOk \<Rightarrow> (after, None) | CommitFailed \<Rightarrow> (before, Some ErrCommit)
      | CommitLostAck \<Rightarrow> (after, Some ErrCommit))"

definition persistSnapshotOnly ::
  "checksum_fun \<Rightarrow> db_faults \<Rightarrow> me_db \<Rightarrow> completed_event \<Rightarrow> me_db \<times> checkpoint_error option" where
  "persistSnapshotOnly ck fl db ev =
     (if df_begin fl then (db, Some ErrBegin)
      else case persistEvent ck fl 0 db ev of
        Inl e \<Rightarrow> (db, Some e)
      | Inr (db1, _) \<Rightarrow> commitTx fl db db1)"

definition persistContiguous ::
  "checksum_fun \<Rightarrow> db_faults \<Rightarrow> me_db \<Rightarrow> completed_event list \<Rightarrow> string \<Rightarrow> int \<Rightarrow> int \<Rightarrow>
   me_db \<times> checkpoint_error option" where
  "persistContiguous ck fl db evs topic part toCommit =
     (if df_begin fl then (db, Some ErrBegin)
      else case persistEvents ck fl 0 db evs of
        Inl e \<Rightarrow> (db, Some e)
      | Inr (db1, n) \<Rightarrow>
          if df_exec fl n then (db, Some ErrPersistCheckpoint)
          else commitTx fl db (upsertCheckpoint db1 topic part toCommit))"

section \<open>The coordinator\<close>

definition NewCoordinator :: "bool \<Rightarrow> me_db \<Rightarrow> coordinator" where
  "NewCoordinator hasDB db =
     \<lparr>c_hasDB = hasDB, c_db = db, c_trackers = Map.empty, c_committers = {}, c_groupOffsets = Map.empty\<rparr>"

definition RegisterCommitter :: "coordinator \<Rightarrow> string \<Rightarrow> coordinator" where
  "RegisterCommitter c topic = c\<lparr>c_committers := insert topic (c_committers c)\<rparr>"

text \<open>The tracker of a partition, a fresh one when there is none.\<close>

definition getTracker :: "coordinator \<Rightarrow> string \<Rightarrow> int \<Rightarrow> tracker" where
  "getTracker c topic part =
     (case c_trackers c (topic, part) of
        Some pt \<Rightarrow> pt
      | None \<Rightarrow> \<lparr>pt_lastCommitted = 0, pt_hasCommitted = False, pt_inFlight = {}, pt_completed = Map.empty\<rparr>)"

definition setTracker :: "coordinator \<Rightarrow> string \<Rightarrow> int \<Rightarrow> tracker \<Rightarrow> coordinator" where
  "setTracker c topic part pt = c\<lparr>c_trackers := (c_trackers c)((topic, part) \<mapsto> pt)\<rparr>"

definition InitBaseline :: "coordinator \<Rightarrow> string \<Rightarrow> int \<Rightarrow> int \<Rightarrow> coordinator" where
  "InitBaseline c topic part baselineOffset =
     setTracker c topic part
       ((getTracker c topic part)\<lparr>pt_lastCommitted := baselineOffset, pt_hasCommitted := True\<rparr>)"

definition Track :: "coordinator \<Rightarrow> kafka_position \<Rightarrow> coordinator" where
  "Track c pos =
     (let pt = getTracker c (kp_Topic pos) (kp_Partition pos) in
      setTracker c (kp_Topic pos) (kp_Partition pos) (pt\<lparr>pt_inFlight := insert (kp_Offset pos) (pt_inFlight pt)\<rparr>))"

text \<open>
  The loop that collects the completed events from \<open>cur\<close> on. It runs at most once per
  completed entry, so a fuel of their number plus one is enough (\<open>collect_fuel\<close>).
\<close>

fun collect :: "(int \<rightharpoonup> completed_event) \<Rightarrow> int \<Rightarrow> nat \<Rightarrow> completed_event list" where
  "collect m cur 0 = []"
| "collect m cur (Suc k) =
     (case m cur of None \<Rightarrow> [] | Some ev \<Rightarrow> ev # collect m (cur + 1) k)"

definition MarkDoneWithSequence ::
  "checksum_fun \<Rightarrow> db_faults \<Rightarrow> bool \<Rightarrow> coordinator \<Rightarrow> completed_event \<Rightarrow> coordinator \<times> checkpoint_error option" where
  "MarkDoneWithSequence ck fl fenced c ev =
     (if fenced then (c, Some ErrFenced)
      else
        let topic = kp_Topic (cv_Pos ev); part = kp_Partition (cv_Pos ev); off = kp_Offset (cv_Pos ev);
            pt0 = getTracker c topic part;
            pt = (if \<not> pt_hasCommitted pt0 then pt0\<lparr>pt_lastCommitted := off - 1, pt_hasCommitted := True\<rparr> else pt0)
        in
        if off \<le> pt_lastCommitted pt then
          let c1 = setTracker c topic part (pt\<lparr>pt_inFlight := pt_inFlight pt - {off}\<rparr>) in
          if cv_Snapshot ev \<noteq> None \<and> c_hasDB c then
            (case persistSnapshotOnly ck fl (c_db c) ev of
               (db, Some e) \<Rightarrow> (c1\<lparr>c_db := db\<rparr>, Some (ErrSnapshotOnly e))
             | (db, None) \<Rightarrow> (c1\<lparr>c_db := db\<rparr>, None))
          else (c1, None)
        else
          let completed = (pt_completed pt)(off \<mapsto> ev);
              pt1 = pt\<lparr>pt_completed := completed, pt_inFlight := pt_inFlight pt - {off}\<rparr>;
              evs = collect completed (pt_lastCommitted pt + 1) (Suc (card (dom completed)));
              toCommit = (if evs = [] then -1 else pt_lastCommitted pt + int (length evs)) in
          if toCommit = -1 then (setTracker c topic part pt1, None)
          else
            (case (if c_hasDB c then persistContiguous ck fl (c_db c) evs topic part toCommit
                   else (c_db c, None)) of
               (db, Some e) \<Rightarrow> (setTracker (c\<lparr>c_db := db\<rparr>) topic part pt1, Some e)
             | (db, None) \<Rightarrow>
                 let pt2 = pt1\<lparr>pt_lastCommitted := toCommit,
                               pt_completed := completed |` (- {pt_lastCommitted pt + 1 .. toCommit}),
                               pt_inFlight := pt_inFlight pt1 - {pt_lastCommitted pt + 1 .. toCommit}\<rparr>;
                     c2 = setTracker (c\<lparr>c_db := db\<rparr>) topic part pt2 in
                 if topic \<in> c_committers c then
                   (if df_kafka fl then (c2, Some ErrKafkaCommit)
                    else (c2\<lparr>c_groupOffsets := (c_groupOffsets c2)((topic, part) \<mapsto> toCommit)\<rparr>, None))
                 else (c2, None)))"

definition MarkDone ::
  "checksum_fun \<Rightarrow> db_faults \<Rightarrow> bool \<Rightarrow> coordinator \<Rightarrow> kafka_position \<Rightarrow> coordinator \<times> checkpoint_error option" where
  "MarkDone ck fl fenced c pos =
     MarkDoneWithSequence ck fl fenced c
       \<lparr>cv_Pos = pos, cv_MarketID = [], cv_Sequence = 0, cv_Snapshot = None, cv_Checksum = []\<rparr>"

definition GetCommittedOffset :: "coordinator \<Rightarrow> string \<Rightarrow> int \<Rightarrow> int \<times> bool" where
  "GetCommittedOffset c topic part =
     (let pt = getTracker c topic part in (pt_lastCommitted pt, pt_hasCommitted pt))"

section \<open>Contiguity\<close>

text \<open>
  The specification: \<open>D\<close> is the set of offsets marked done since the baseline \<open>b\<close>. Whatever
  is committed, in memory, in the database or at the broker, has no gap after \<open>b\<close>.
\<close>

definition no_gap :: "int \<Rightarrow> int set \<Rightarrow> int \<Rightarrow> bool" where
  "no_gap b D w \<longleftrightarrow> {b + 1 .. w} \<subseteq> D"

definition tracker_ok :: "int \<Rightarrow> int set \<Rightarrow> tracker \<Rightarrow> bool" where
  "tracker_ok b D pt \<longleftrightarrow>
     pt_hasCommitted pt \<and> b \<le> pt_lastCommitted pt \<and> no_gap b D (pt_lastCommitted pt) \<and>
     finite (dom (pt_completed pt)) \<and> dom (pt_completed pt) = {off \<in> D. pt_lastCommitted pt < off}"

definition checkpoint_ok :: "string \<Rightarrow> int \<Rightarrow> int \<Rightarrow> int set \<Rightarrow> coordinator \<Rightarrow> bool" where
  "checkpoint_ok topic part b D c \<longleftrightarrow>
     tracker_ok b D (getTracker c topic part) \<and>
     (\<forall>w. db_checkpoints (c_db c) (topic, part) = Some w \<longrightarrow> no_gap b D w) \<and>
     (\<forall>w. c_groupOffsets c (topic, part) = Some w \<longrightarrow> no_gap b D w)"

lemma collect_prefix:
  assumes "collect m cur k = evs"
  shows "length evs \<le> k \<and> (\<forall>i<length evs. m (cur + int i) \<noteq> None)"
  using assms
proof (induction k arbitrary: cur evs)
  case (Suc k)
  show ?case
  proof (cases "m cur")
    case None
    with Suc.prems show ?thesis by simp
  next
    case (Some ev)
    with Suc.prems obtain evs' where e: "evs = ev # evs'" "collect m (cur + 1) k = evs'" by auto
    from Suc.IH[OF e(2)] have IH: "length evs' \<le> k" "\<forall>i<length evs'. m (cur + 1 + int i) \<noteq> None" by auto
    have "m (cur + int i) \<noteq> None" if "i < length evs" for i
      using that IH(2) Some e(1) by (cases i) (auto simp: add_ac)
    with IH(1) e(1) show ?thesis by auto
  qed
qed simp

lemma collect_stops:
  "length (collect m cur k) < k \<Longrightarrow> m (cur + int (length (collect m cur k))) = None"
proof (induction k arbitrary: cur)
  case (Suc k)
  show ?case
  proof (cases "m cur")
    case (Some ev)
    with Suc.prems Suc.IH[of "cur + 1"] show ?thesis by (simp add: add_ac)
  qed simp
qed simp

text \<open>The fuel is enough: the collected entries are distinct keys of the map.\<close>

lemma collect_fuel:
  assumes "finite (dom m)"
  shows "m (cur + int (length (collect m cur (Suc (card (dom m)))))) = None"
proof (rule collect_stops)
  let ?n = "length (collect m cur (Suc (card (dom m))))"
  have "(\<lambda>i. cur + int i) ` {..<?n} \<subseteq> dom m" using collect_prefix[OF refl] by blast
  then have "card ((\<lambda>i. cur + int i) ` {..<?n}) \<le> card (dom m)" by (rule card_mono[OF assms])
  moreover have "card ((\<lambda>i. cur + int i) ` {..<?n}) = ?n" by (subst card_image) (auto intro: inj_onI)
  ultimately show "?n < Suc (card (dom m))" by simp
qed

end
