(* ===== verification/CheckpointProps.thy ===== *)
theory CheckpointProps
  imports Checkpoint
begin

text \<open>
  The checkpoint never skips an event: whatever order the events complete in and whatever
  call to the database or the broker fails, no offset is committed in memory, in Postgres
  or at the broker before every offset since the baseline has completed; without errors
  the committed offset is the largest such; market sequences never decrease.
\<close>

section \<open>Trackers and transactions\<close>

lemma getTracker_setTracker [simp]:
  "getTracker (setTracker c t p pt) t2 p2 = (if t2 = t \<and> p2 = p then pt else getTracker c t2 p2)"
  "getTracker (c\<lparr>c_db := db\<rparr>) t p = getTracker c t p"
  "getTracker (c\<lparr>c_groupOffsets := g\<rparr>) t p = getTracker c t p"
  "c_db (setTracker c t p pt) = c_db c" "c_groupOffsets (setTracker c t p pt) = c_groupOffsets c"
  "c_committers (setTracker c t p pt) = c_committers c" "c_hasDB (setTracker c t p pt) = c_hasDB c"
  by (simp_all add: getTracker_def setTracker_def)

definition seq_mono :: "me_db \<Rightarrow> me_db \<Rightarrow> bool" where
  "seq_mono db db' \<longleftrightarrow>
     (\<forall>mk s. db_sequences db mk = Some s \<longrightarrow> (\<exists>s'. db_sequences db' mk = Some s' \<and> s \<le> s'))"

lemma seq_mono_refl [simp]: "seq_mono db db"
  by (simp add: seq_mono_def)

lemma seq_mono_trans: "seq_mono a b \<Longrightarrow> seq_mono b c \<Longrightarrow> seq_mono a c"
  unfolding seq_mono_def by (meson order_trans)

lemma upsertSequence_mono:
  "upsertSequence db mk sq = (db1, rows) \<Longrightarrow> seq_mono db db1 \<and> db_checkpoints db1 = db_checkpoints db"
  by (auto simp: upsertSequence_def seq_mono_def split: option.splits if_splits)

lemma upsertSnapshot_mono:
  "upsertSnapshot db ev snap ch = (db1, rows) \<Longrightarrow> seq_mono db db1 \<and> db_checkpoints db1 = db_checkpoints db"
  by (auto simp: upsertSnapshot_def seq_mono_def Let_def split: option.splits if_splits)

lemma persistEvent_keeps:
  assumes "persistEvent ck fl n db ev = Inr (db2, n2)"
  shows "seq_mono db db2 \<and> db_checkpoints db2 = db_checkpoints db"
proof -
  obtain db1 n1 where 1: "(if cv_MarketID ev \<noteq> [] then
        (if df_exec fl n then Inl ErrPersistSequence
         else let (db1, rows) = upsertSequence db (cv_MarketID ev) (cv_Sequence ev) in
              if rows = 0 then Inl ErrSequenceRegression else Inr (db1, n + 1))
      else Inr (db, n)) = (Inr (db1, n1) :: checkpoint_error + me_db \<times> nat)"
    using assms unfolding persistEvent_def by (auto split: sum.splits)
  have s1: "seq_mono db db1 \<and> db_checkpoints db1 = db_checkpoints db"
    using 1 upsertSequence_mono by (auto split: if_splits prod.splits)
  show ?thesis
  proof (cases "cv_Snapshot ev")
    case None
    with assms 1 s1 show ?thesis by (simp add: persistEvent_def)
  next
    case (Some snap)
    obtain ch where ch: "(if cv_Checksum ev = [] then ck snap else Some (cv_Checksum ev)) = Some ch"
      using assms unfolding persistEvent_def 1 by (auto simp: Some split: option.splits)
    obtain rows where "upsertSnapshot db1 ev snap ch = (db2, rows)"
      using assms unfolding persistEvent_def 1
      by (auto simp: Some ch Let_def split: if_splits prod.splits)
    from upsertSnapshot_mono[OF this] s1 seq_mono_trans show ?thesis by metis
  qed
qed

lemma persistEvents_keeps:
  "persistEvents ck fl n db evs = Inr (db2, n2) \<Longrightarrow> seq_mono db db2 \<and> db_checkpoints db2 = db_checkpoints db"
proof (induction evs arbitrary: n db)
  case (Cons ev evs)
  from Cons.prems obtain db1 n1 where p: "persistEvent ck fl n db ev = Inr (db1, n1)"
    "persistEvents ck fl n1 db1 evs = Inr (db2, n2)" by (auto split: sum.splits)
  from persistEvent_keeps[OF p(1)] Cons.IH[OF p(2)] seq_mono_trans show ?case by metis
qed simp

lemma upsertCheckpoint_keeps:
  "db_sequences (upsertCheckpoint db t p off) = db_sequences db"
  "db_checkpoints (upsertCheckpoint db t p off) (t, p) = Some w \<Longrightarrow>
     w = off \<or> db_checkpoints db (t, p) = Some w \<and> off \<le> w"
  "\<exists>w. db_checkpoints (upsertCheckpoint db t p off) (t, p) = Some w \<and> off \<le> w"
  by (auto simp: upsertCheckpoint_def split: option.splits if_splits)

lemma commitTx_cases:
  "commitTx fl a b = (db, e) \<Longrightarrow> (db = b \<or> db = a \<and> e \<noteq> None) \<and> (e = None \<longrightarrow> db = b)"
  by (auto simp: commitTx_def split: commit_outcome.splits)

lemma persistSnapshotOnly_keeps:
  assumes "persistSnapshotOnly ck fl db ev = (db', e)"
  shows "seq_mono db db' \<and> db_checkpoints db' = db_checkpoints db"
  using assms persistEvent_keeps commitTx_cases
  by (fastforce simp: persistSnapshotOnly_def split: if_splits sum.splits)

lemma persistContiguous_keeps:
  assumes "persistContiguous ck fl db evs t p toCommit = (db', e)"
  shows "seq_mono db db'"
    and "db_checkpoints db' (t, p) = Some w \<Longrightarrow> w = toCommit \<or> db_checkpoints db (t, p) = Some w"
    and "e = None \<Longrightarrow> \<exists>w. db_checkpoints db' (t, p) = Some w \<and> toCommit \<le> w"
proof -
  consider "db' = db" "e \<noteq> None" | db1 n where "persistEvents ck fl 0 db evs = Inr (db1, n)"
    "db' = upsertCheckpoint db1 t p toCommit"
    using assms commitTx_cases by (fastforce simp: persistContiguous_def split: if_splits sum.splits prod.splits)
  then have all: "seq_mono db db' \<and>
      (\<forall>w. db_checkpoints db' (t, p) = Some w \<longrightarrow> w = toCommit \<or> db_checkpoints db (t, p) = Some w) \<and>
      (e = None \<longrightarrow> (\<exists>w. db_checkpoints db' (t, p) = Some w \<and> toCommit \<le> w))"
  proof cases
    case 2
    from persistEvents_keeps[OF 2(1)] upsertCheckpoint_keeps[of db1 t p toCommit] 2(2)
    show ?thesis by (auto simp: seq_mono_def)
  qed auto
  then show "seq_mono db db'" "e = None \<Longrightarrow> \<exists>w. db_checkpoints db' (t, p) = Some w \<and> toCommit \<le> w"
    "db_checkpoints db' (t, p) = Some w \<Longrightarrow> w = toCommit \<or> db_checkpoints db (t, p) = Some w" by blast+
qed

section \<open>One completion\<close>

lemma no_gap_mono: "no_gap b D w \<Longrightarrow> D \<subseteq> E \<Longrightarrow> no_gap b E w"
  unfolding no_gap_def by blast

lemma tracker_ok_add:
  assumes pt: "tracker_ok b D pt" and off: "pt_lastCommitted pt < off"
  shows "tracker_ok b (insert off D) (pt\<lparr>pt_completed := (pt_completed pt)(off \<mapsto> ev), pt_inFlight := F\<rparr>)"
  using pt off no_gap_mono[of b D _ "insert off D"] by (auto simp: tracker_ok_def)

lemma tracker_ok_advance:
  assumes pt: "tracker_ok b D pt" and n: "\<And>i. i < n \<Longrightarrow> pt_completed pt (pt_lastCommitted pt + 1 + int i) \<noteq> None"
  shows "tracker_ok b D (pt\<lparr>pt_lastCommitted := pt_lastCommitted pt + int n,
           pt_completed := pt_completed pt |` (- {pt_lastCommitted pt + 1 .. pt_lastCommitted pt + int n}),
           pt_inFlight := F\<rparr>)"
    and "no_gap b D (pt_lastCommitted pt + int n)"
proof -
  let ?l = "pt_lastCommitted pt"
  have dom: "off \<in> D" if "?l < off" "off \<le> ?l + int n" for off
  proof -
    have "nat (off - ?l - 1) < n" using that by linarith
    from n[OF this] that have "off \<in> dom (pt_completed pt)" by auto
    with pt show ?thesis by (auto simp: tracker_ok_def)
  qed
  show gap: "no_gap b D (?l + int n)"
    unfolding no_gap_def
  proof
    fix off assume "off \<in> {b + 1..?l + int n}"
    then show "off \<in> D" using pt dom by (cases "off \<le> ?l") (auto simp: tracker_ok_def no_gap_def)
  qed
  show "tracker_ok b D (pt\<lparr>pt_lastCommitted := ?l + int n,
           pt_completed := pt_completed pt |` (- {?l + 1 .. ?l + int n}), pt_inFlight := F\<rparr>)"
    using pt gap by (auto simp: tracker_ok_def)
qed

definition maximal :: "int set \<Rightarrow> tracker \<Rightarrow> bool" where
  "maximal D pt \<longleftrightarrow> pt_lastCommitted pt + 1 \<notin> D"

text \<open>The position of an event in the partition a tracker is for.\<close>

definition at :: "string \<Rightarrow> int \<Rightarrow> completed_event \<Rightarrow> bool" where
  "at t p ev \<longleftrightarrow> kp_Topic (cv_Pos ev) = t \<and> kp_Partition (cv_Pos ev) = p"

lemma MarkDone_late:
  assumes ok: "checkpoint_ok t p b D c" and ev: "at t p ev"
    and late: "kp_Offset (cv_Pos ev) \<le> pt_lastCommitted (getTracker c t p)"
    and m: "MarkDoneWithSequence ck fl False c ev = (c', e)"
  shows "checkpoint_ok t p b (insert (kp_Offset (cv_Pos ev)) D) c' \<and> seq_mono (c_db c) (c_db c') \<and>
    pt_lastCommitted (getTracker c' t p) = pt_lastCommitted (getTracker c t p)"
proof -
  let ?off = "kp_Offset (cv_Pos ev)" and ?pt = "getTracker c t p"
  let ?c1 = "setTracker c t p (?pt\<lparr>pt_inFlight := pt_inFlight ?pt - {?off}\<rparr>)"
  have h: "pt_hasCommitted ?pt" using ok by (simp add: checkpoint_ok_def tracker_ok_def)
  have c': "\<exists>db. c' = ?c1\<lparr>c_db := db\<rparr> \<and> seq_mono (c_db c) db \<and> db_checkpoints db = db_checkpoints (c_db c)"
  proof (cases "cv_Snapshot ev \<noteq> None \<and> c_hasDB c")
    case True
    obtain db e2 where p: "persistSnapshotOnly ck fl (c_db c) ev = (db, e2)" by (cases "persistSnapshotOnly ck fl (c_db c) ev")
    with True h late m ev persistSnapshotOnly_keeps[OF p] show ?thesis
      by (cases e2) (auto simp: MarkDoneWithSequence_def Let_def at_def)
  next
    case False
    have "?c1\<lparr>c_db := c_db c\<rparr> = ?c1" by (simp add: setTracker_def)
    moreover have "c' = ?c1" using False h late m ev by (auto simp: MarkDoneWithSequence_def Let_def at_def)
    ultimately show ?thesis by (metis seq_mono_refl)
  qed
  then obtain db where db: "c' = ?c1\<lparr>c_db := db\<rparr>" "seq_mono (c_db c) db" "db_checkpoints db = db_checkpoints (c_db c)"
    by blast
  have "tracker_ok b (insert ?off D) (?pt\<lparr>pt_inFlight := pt_inFlight ?pt - {?off}\<rparr>)"
    using ok late no_gap_mono[of b D _ "insert ?off D"] by (auto simp: checkpoint_ok_def tracker_ok_def)
  with ok db show ?thesis
    using no_gap_mono[of b D _ "insert ?off D"] by (auto simp: checkpoint_ok_def)
qed

lemma committer_branches:
  "(c', e) = (if A then (if B then (x, e1) else (y, e2)) else (x, e3)) \<Longrightarrow> c' = x \<or> c' = y"
  by (simp split: if_splits)

lemma MarkDone_fresh:
  assumes ok: "checkpoint_ok t p b D c" and b: "-1 \<le> b" and ev: "at t p ev"
    and fresh: "pt_lastCommitted (getTracker c t p) < kp_Offset (cv_Pos ev)"
    and m: "MarkDoneWithSequence ck fl False c ev = (c', e)"
  shows "checkpoint_ok t p b (insert (kp_Offset (cv_Pos ev)) D) c' \<and> seq_mono (c_db c) (c_db c') \<and>
    (e = None \<longrightarrow> maximal (insert (kp_Offset (cv_Pos ev)) D) (getTracker c' t p))"
proof -
  let ?off = "kp_Offset (cv_Pos ev)" and ?pt = "getTracker c t p"
  let ?D = "insert ?off D" and ?l = "pt_lastCommitted ?pt"
  let ?comp = "(pt_completed ?pt)(?off \<mapsto> ev)"
  let ?pt1 = "?pt\<lparr>pt_completed := ?comp, pt_inFlight := pt_inFlight ?pt - {?off}\<rparr>"
  define evs where "evs = collect ?comp (?l + 1) (Suc (card (dom ?comp)))"
  have pt: "tracker_ok b D ?pt" using ok by (simp add: checkpoint_ok_def)
  have h: "pt_hasCommitted ?pt" "-1 \<le> ?l" using pt b by (auto simp: tracker_ok_def)
  have ok1: "tracker_ok b ?D ?pt1" by (rule tracker_ok_add[OF pt fresh])
  have "finite (dom (pt_completed ?pt))" using pt unfolding tracker_ok_def by blast
  then have fin: "finite (dom ?comp)" by simp
  have stop: "?comp (?l + 1 + int (length evs)) = None" unfolding evs_def by (rule collect_fuel[OF fin])
  have pre: "?comp (?l + 1 + int i) \<noteq> None" if "i < length evs" for i
    using collect_prefix[OF evs_def[symmetric]] that by blast
  have dom: "dom ?comp = {off \<in> ?D. ?l < off}" using ok1 by (simp add: tracker_ok_def del: fun_upd_apply)
  have "?l + 1 + int (length evs) \<notin> {off \<in> ?D. ?l < off}"
    unfolding dom[symmetric] using stop by (simp only: domIff not_not)
  then have notD: "?l + int (length evs) + 1 \<notin> ?D" by (simp add: add_ac)
  note keep = no_gap_mono[of b D _ ?D]
  let ?w = "?l + int (length evs)"
  let ?pt2 = "?pt1\<lparr>pt_lastCommitted := ?w, pt_completed := ?comp |` (- {?l + 1 .. ?w}),
    pt_inFlight := pt_inFlight ?pt1 - {?l + 1 .. ?w}\<rparr>"
  have pos: "kp_Topic (cv_Pos ev) = t" "kp_Partition (cv_Pos ev) = p" using ev by (simp_all add: at_def)
  have conds: "(\<not> pt_hasCommitted ?pt) = False" "(?off \<le> ?l) = False" using h fresh by simp_all
  have none: "MarkDoneWithSequence ck fl False c ev = (setTracker c t p ?pt1, None)" if "evs = []"
    unfolding MarkDoneWithSequence_def Let_def pos conds if_False evs_def[symmetric] that by simp
  have some: "MarkDoneWithSequence ck fl False c ev =
      (case (if c_hasDB c then persistContiguous ck fl (c_db c) evs t p ?w else (c_db c, None)) of
         (db, Some e) \<Rightarrow> (setTracker (c\<lparr>c_db := db\<rparr>) t p ?pt1, Some e)
       | (db, None) \<Rightarrow>
           let c2 = setTracker (c\<lparr>c_db := db\<rparr>) t p ?pt2 in
           if t \<in> c_committers c then
             (if df_kafka fl then (c2, Some ErrKafkaCommit)
              else (c2\<lparr>c_groupOffsets := (c_groupOffsets c2)((t, p) \<mapsto> ?w)\<rparr>, None))
           else (c2, None))" if ne: "evs \<noteq> []"
  proof -
    from ne have "0 < length evs" by simp
    with h(2) have "?w \<noteq> -1" by linarith
    then have w: "(?w = -1) = False" by simp
    show ?thesis
      unfolding MarkDoneWithSequence_def Let_def pos conds if_False evs_def[symmetric] if_not_P[OF ne] w by (rule refl)
  qed
  show ?thesis
  proof (cases "evs = []")
    case True
    with m none have "(c', e) = (setTracker c t p ?pt1, None)" by simp
    with ok ok1 notD True keep show ?thesis by (auto simp: checkpoint_ok_def maximal_def)
  next
    case False
    obtain db e2 where per: "(if c_hasDB c then persistContiguous ck fl (c_db c) evs t p ?w else (c_db c, None)) = (db, e2)"
      by (cases "if c_hasDB c then persistContiguous ck fl (c_db c) evs t p ?w else (c_db c, None)")
    have adv: "no_gap b ?D ?w" using tracker_ok_advance(2)[OF ok1, of "length evs"] pre by simp
    have db: "seq_mono (c_db c) db" "\<And>w. db_checkpoints db (t, p) = Some w \<Longrightarrow> no_gap b ?D w"
      using per persistContiguous_keeps[of ck fl "c_db c" evs t p ?w db e2] adv ok keep
      by (auto simp: checkpoint_ok_def split: if_splits)
    show ?thesis
    proof (cases e2)
      case (Some err)
      have "(c', e) = (setTracker (c\<lparr>c_db := db\<rparr>) t p ?pt1, Some err)"
        using m unfolding some[OF False] per Some by simp
      with ok ok1 db keep show ?thesis by (auto simp: checkpoint_ok_def)
    next
      case None
      let ?c2 = "setTracker (c\<lparr>c_db := db\<rparr>) t p ?pt2"
      have ok2: "tracker_ok b ?D ?pt2"
        using tracker_ok_advance(1)[OF ok1, of "length evs" "pt_inFlight ?pt1 - {?l + 1 .. ?w}"] pre by simp
      have mx: "maximal ?D ?pt2" using notD by (simp add: maximal_def)
      have "c' = ?c2 \<or> c' = ?c2\<lparr>c_groupOffsets := (c_groupOffsets ?c2)((t, p) \<mapsto> ?w)\<rparr>"
        using m unfolding some[OF False] per None Let_def prod.case option.case
        by (rule committer_branches[OF sym])
      then have f: "getTracker c' t p = ?pt2" "c_db c' = db"
        "\<forall>w. c_groupOffsets c' (t, p) = Some w \<longrightarrow> w = ?w \<or> c_groupOffsets c (t, p) = Some w"
        by (elim disjE; simp)+
      have "no_gap b ?D w" if "c_groupOffsets c' (t, p) = Some w" for w
        using f(3) that adv ok keep unfolding checkpoint_ok_def by blast
      then have "checkpoint_ok t p b ?D c'" unfolding checkpoint_ok_def f using ok2 db(2) by blast
      then show ?thesis unfolding f using db(1) mx by blast
    qed
  qed
qed

section \<open>Runs\<close>

text \<open>The calls for one partition in the order they are made, each with its own failures.\<close>

fun markRun ::
  "checksum_fun \<Rightarrow> coordinator \<Rightarrow> (db_faults \<times> completed_event) list \<Rightarrow> coordinator \<times> checkpoint_error option list" where
  "markRun ck c [] = (c, [])"
| "markRun ck c ((fl, ev) # xs) =
     (let (c1, e) = MarkDoneWithSequence ck fl False c ev; (c2, es) = markRun ck c1 xs in (c2, e # es))"

abbreviation offsets :: "(db_faults \<times> completed_event) list \<Rightarrow> int set" where
  "offsets xs \<equiv> (\<lambda>x. kp_Offset (cv_Pos (snd x))) ` set xs"

lemma markRun_ok:
  assumes b: "-1 \<le> b"
  shows "checkpoint_ok t p b D c \<Longrightarrow> \<forall>x\<in>set xs. at t p (snd x) \<Longrightarrow> markRun ck c xs = (c', es) \<Longrightarrow>
    checkpoint_ok t p b (D \<union> offsets xs) c' \<and> seq_mono (c_db c) (c_db c') \<and>
    (set es \<subseteq> {None} \<longrightarrow> maximal D (getTracker c t p) \<longrightarrow> maximal (D \<union> offsets xs) (getTracker c' t p))"
proof (induction xs arbitrary: c D es)
  case (Cons x xs)
  obtain fl ev where x: "x = (fl, ev)" by (cases x)
  let ?D = "insert (kp_Offset (cv_Pos ev)) D"
  obtain c1 e where m: "MarkDoneWithSequence ck fl False c ev = (c1, e)"
    by (cases "MarkDoneWithSequence ck fl False c ev")
  obtain es' where r: "markRun ck c1 xs = (c', es')" "es = e # es'"
    using Cons.prems(3) x m by (auto split: prod.splits)
  have ev: "at t p ev" using Cons.prems(2) x by simp
  have step: "checkpoint_ok t p b ?D c1 \<and> seq_mono (c_db c) (c_db c1) \<and>
      (e = None \<longrightarrow> maximal D (getTracker c t p) \<longrightarrow> maximal ?D (getTracker c1 t p))"
  proof (cases "kp_Offset (cv_Pos ev) \<le> pt_lastCommitted (getTracker c t p)")
    case True
    from MarkDone_late[OF Cons.prems(1) ev True m] True show ?thesis by (auto simp: maximal_def)
  next
    case False
    then have "pt_lastCommitted (getTracker c t p) < kp_Offset (cv_Pos ev)" by simp
    from MarkDone_fresh[OF Cons.prems(1) b ev this m] show ?thesis by blast
  qed
  from Cons.IH[OF _ _ r(1), of ?D] step Cons.prems(2)
  have "checkpoint_ok t p b (?D \<union> offsets xs) c' \<and> seq_mono (c_db c1) (c_db c') \<and>
    (set es' \<subseteq> {None} \<longrightarrow> maximal ?D (getTracker c1 t p) \<longrightarrow> maximal (?D \<union> offsets xs) (getTracker c' t p))"
    by simp
  moreover have "?D \<union> offsets xs = D \<union> offsets (x # xs)" by (auto simp: x)
  ultimately show ?case using step r(2) seq_mono_trans[of "c_db c" "c_db c1" "c_db c'"] by auto
qed simp

lemma baseline_ok:
  assumes "c_trackers c (t, p) = None"
    and "\<forall>w. db_checkpoints (c_db c) (t, p) = Some w \<longrightarrow> w \<le> b" "\<forall>w. c_groupOffsets c (t, p) = Some w \<longrightarrow> w \<le> b"
  shows "checkpoint_ok t p b {} (InitBaseline c t p b)" "maximal {} (getTracker (InitBaseline c t p b) t p)"
  using assms by (auto simp: checkpoint_ok_def tracker_ok_def no_gap_def maximal_def InitBaseline_def)
    (simp_all add: getTracker_def)

section \<open>A sample coordinator\<close>

definition sample_db :: me_db where
  "sample_db = \<lparr>db_sequences = Map.empty, db_snapshots = Map.empty, db_checkpoints = Map.empty\<rparr>"

definition no_faults :: db_faults where
  "no_faults = \<lparr>df_begin = False, df_exec = (\<lambda>_. False), df_commit = CommitOk, df_kafka = False\<rparr>"


definition sample_done :: "int \<Rightarrow> completed_event" where
  "sample_done off = \<lparr>cv_Pos = \<lparr>kp_Topic = ''t'', kp_Partition = 0, kp_Offset = off\<rparr>, cv_MarketID = [],
     cv_Sequence = 0, cv_Snapshot = None, cv_Checksum = []\<rparr>"

definition sample_coordinator :: coordinator where
  "sample_coordinator = InitBaseline (NewCoordinator True sample_db) ''t'' 0 4"

lemma sample_coordinator:
  "checkpoint_ok ''t'' 0 4 {} sample_coordinator" "maximal {} (getTracker sample_coordinator ''t'' 0)"
  using baseline_ok[of "NewCoordinator True sample_db" "''t''" 0 4]
  by (simp_all add: sample_coordinator_def NewCoordinator_def sample_db_def)

section \<open>Properties\<close>



text \<open>
  C13. The checkpoint catches up. If the offsets that completed are exactly those from the
  baseline to \<open>n\<close>, in whatever order, and no call failed, the committed offset is \<open>n\<close>.
\<close>

theorem checkpoint_catches_up:
  assumes "-1 \<le> b" and "checkpoint_ok t p b {} c" and "maximal {} (getTracker c t p)"
    and "\<forall>x\<in>set xs. at t p (snd x)" and "markRun ck c xs = (c', es)" and "set es \<subseteq> {None}"
    and "offsets xs = {b + 1 .. n}" and "b \<le> n"
  shows "GetCommittedOffset c' t p = (n, True)"
proof -
  let ?pt = "getTracker c' t p"
  from markRun_ok[OF assms(1,2,4,5)] assms(3,6,7)
  have ok: "tracker_ok b {b + 1 .. n} ?pt" and mx: "maximal {b + 1 .. n} ?pt"
    by (simp_all add: checkpoint_ok_def)
  have "b \<le> pt_lastCommitted ?pt" using ok by (simp add: tracker_ok_def)
  moreover have "pt_lastCommitted ?pt \<le> n"
  proof (rule ccontr)
    assume "\<not> ?thesis"
    then have "pt_lastCommitted ?pt \<in> {b + 1 .. pt_lastCommitted ?pt}" using assms(8) by simp
    with ok have "pt_lastCommitted ?pt \<in> {b + 1 .. n}" unfolding tracker_ok_def no_gap_def by blast
    with \<open>\<not> ?thesis\<close> show False by simp
  qed
  moreover have "\<not> pt_lastCommitted ?pt < n" using mx calculation(1) by (auto simp: maximal_def)
  ultimately show ?thesis using ok by (simp add: GetCommittedOffset_def Let_def tracker_ok_def)
qed

theorem checkpoint_catches_up_witness:
  "\<exists>c' es. markRun (\<lambda>_. None) sample_coordinator [(no_faults, sample_done 6), (no_faults, sample_done 5)] = (c', es) \<and>
     GetCommittedOffset c' ''t'' 0 = (6, True)"
proof -
  let ?xs = "[(no_faults, sample_done 6), (no_faults, sample_done 5)]"
  have at: "\<forall>x\<in>set ?xs. at ''t'' 0 (snd x)" by (simp add: at_def sample_done_def)
  obtain c' es where r: "markRun (\<lambda>_. None) sample_coordinator ?xs = (c', es)" by fastforce
  have "set (snd (markRun (\<lambda>_. None) sample_coordinator ?xs)) \<subseteq> {None}"
    by (simp add: MarkDoneWithSequence_def sample_coordinator_def InitBaseline_def NewCoordinator_def
        getTracker_def setTracker_def sample_done_def persistContiguous_def persistEvent_def no_faults_def
        commitTx_def upsertCheckpoint_def sample_db_def Let_def)
  then have es: "set es \<subseteq> {None}" unfolding r snd_conv .
  have "offsets ?xs = {4 + 1 .. 6}" by (auto simp: sample_done_def)
  from checkpoint_catches_up[OF _ sample_coordinator at r es this] r show ?thesis by simp
qed

end
