(* ===== verification/WalletStore.thy ===== *)
theory WalletStore
  imports Postgres
begin

text \<open>
  The wallet database (\<open>services/wallet/migration/00001_create_wallet_schema.sql\<close>) and the
  statements of \<open>services/wallet/internal/repository/postgres\<close>, constraints included.
  Rows hold decoded columns; the structs the repositories return hold strings, as in Go.
\<close>

section \<open>Outside code\<close>

text \<open>
  On top of the decimal and UUID packages: what PostgreSQL makes of text and of a value
  assigned to a \<open>DECIMAL(30,10)\<close> column (rounded to ten places, an error past twenty digits).
\<close>

record 'd wlib = "'d lib" +
  d_Exponent :: "string \<Rightarrow> int"              \<comment> \<open>Exponent() of the parsed decimal\<close>
  d_Truncate :: "'d \<Rightarrow> int \<Rightarrow> 'd"            \<comment> \<open>decimal.Decimal.Truncate\<close>
  d_StringFixed :: "'d \<Rightarrow> int \<Rightarrow> string"     \<comment> \<open>decimal.Decimal.StringFixed\<close>
  d_New :: "int \<Rightarrow> int \<Rightarrow> 'd"                \<comment> \<open>decimal.New(value, exp)\<close>
  p_uuid :: "string \<Rightarrow> uuid option"           \<comment> \<open>text to UUID\<close>
  p_uuid_text :: "uuid \<Rightarrow> string"             \<comment> \<open>UUID to text\<close>
  p_decimal :: "string \<Rightarrow> 'd option"          \<comment> \<open>text to DECIMAL\<close>
  p_decimal_text :: "'d \<Rightarrow> string"            \<comment> \<open>DECIMAL to text\<close>
  p_column :: "'d \<Rightarrow> 'd option"               \<comment> \<open>assignment to DECIMAL(30,10)\<close>

text \<open>
  Documented behaviour; \<open>T\<close> are the decimals with at most ten places, which a column
  stores unchanged or not at all.
\<close>

definition wlib_ok :: "('d::linordered_idom) wlib \<Rightarrow> 'd set \<Rightarrow> bool" where
  "wlib_ok W T \<longleftrightarrow>
     (\<forall>x. d_NewFromString W (d_String W x) = Some x) \<and>
     (\<forall>u. p_uuid W (p_uuid_text W u) = Some u) \<and>
     (\<forall>s x. d_NewFromString W s = Some x \<longrightarrow> p_decimal W s = Some x) \<and>
     (\<forall>x. d_NewFromString W (p_decimal_text W x) = Some x) \<and> p_decimal W ''0'' = Some 0 \<and>
     p_decimal W ''0.0000000000'' = Some 0 \<and>
     (\<forall>x\<in>T. d_NewFromString W (d_StringFixed W x 10) = Some x) \<and>
     (\<forall>s x. d_NewFromString W s = Some x \<longrightarrow> - 10 \<le> d_Exponent W s \<longrightarrow> x \<in> T) \<and>
     (\<forall>x n. n \<le> 10 \<longrightarrow> d_Truncate W x n \<in> T) \<and>
     (\<forall>x n. 0 \<le> x \<longrightarrow> 0 \<le> d_Truncate W x n \<and> d_Truncate W x n \<le> x) \<and>
     0 \<in> T \<and> (\<forall>x\<in>T. \<forall>y\<in>T. x + y \<in> T \<and> x - y \<in> T) \<and>
     (\<forall>x\<in>T. \<forall>y. p_column W x = Some y \<longrightarrow> y = x) \<and>
     (\<forall>x y. p_column W x = Some y \<longrightarrow> y \<in> T)"

lemma wlib_okD:
  assumes "wlib_ok W T"
  shows "d_NewFromString W (d_String W x) = Some x"
    and "p_uuid W (p_uuid_text W u) = Some u"
    and "d_NewFromString W s = Some x \<Longrightarrow> p_decimal W s = Some x"
    and "d_NewFromString W (p_decimal_text W x) = Some x"
    and "x \<in> T \<Longrightarrow> d_NewFromString W (d_StringFixed W x 10) = Some x"
    and "d_NewFromString W s = Some x \<Longrightarrow> - 10 \<le> d_Exponent W s \<Longrightarrow> x \<in> T"
    and "n \<le> 10 \<Longrightarrow> d_Truncate W x n \<in> T"
    and "0 \<le> x \<Longrightarrow> 0 \<le> d_Truncate W x n" and "0 \<le> x \<Longrightarrow> d_Truncate W x n \<le> x"
    and "0 \<in> T" and "x \<in> T \<Longrightarrow> y \<in> T \<Longrightarrow> x + y \<in> T" and "x \<in> T \<Longrightarrow> y \<in> T \<Longrightarrow> x - y \<in> T"
    and "x \<in> T \<Longrightarrow> p_column W x = Some y \<Longrightarrow> y = x"
    and "p_column W x = Some y \<Longrightarrow> y \<in> T" and "p_decimal W ''0'' = Some 0" and "p_decimal W ''0.0000000000'' = Some 0"
  using assms unfolding wlib_ok_def by blast+

lemma p_decimal_text: "wlib_ok W T \<Longrightarrow> p_decimal W (p_decimal_text W x) = Some x"
  by (blast intro: wlib_okD(3,4))

section \<open>Rows\<close>

datatype wallet_error =
    ErrDuplicate | ErrNotFound | ErrInsufficientBalance | ErrWalletFrozen
  | ErrInsufficientReservation | ErrReservationNotFound | ErrInvalidSettlement
  | ErrSettlementConflict | ErrInvalidReservation | ErrReservationConflict
  | ErrInvalidDeposit | ErrWalletNotFound | ErrInternal

datatype reservation_status =
  ReservationActive | ReservationPartiallyConsumed | ReservationConsumed | ReservationReleased

datatype txn_type = TxnTypeCredit | TxnTypeDebit

record 'd asset_row =
  a_Code :: string
  a_Name :: string
  a_Decimals :: int
  a_IsEnabled :: bool
  a_SeedAmount :: 'd
  a_DisplayOrder :: int

record 'd wallet_row =
  w_ID :: uuid
  w_UserID :: uuid
  w_Asset :: string
  w_Available :: 'd
  w_Reserved :: 'd
  w_IsFrozen :: bool
  w_FrozenBy :: "string option"
  w_FreezeReason :: "string option"
  w_Initial :: 'd
  w_Total :: 'd

record 'd reservation_row =
  r_ID :: uuid
  r_OrderID :: uuid
  r_UserID :: uuid
  r_Asset :: string
  r_Reserved :: 'd
  r_Consumed :: 'd
  r_Remaining :: 'd
  r_Status :: reservation_status

record 'd ledger_row =
  t_ID :: uuid
  t_WalletID :: uuid
  t_ReferenceID :: uuid
  t_ReferenceType :: string
  t_Type :: txn_type
  t_Asset :: string
  t_Amount :: 'd

record settled_row =
  s_TradeID :: uuid
  s_MarketID :: string
  s_Sequence :: int

datatype outbox_status = OutboxPending | OutboxProcessing | OutboxProcessed | OutboxFailed

record 'p outbox_row =
  ob_ID :: uuid
  ob_AggregateID :: uuid
  ob_EventType :: string
  ob_Payload :: 'p
  ob_PartitionKey :: string
  ob_Status :: outbox_status
  ob_FailedReason :: "string option"
  ob_ClaimedAt :: "time option"
  ob_ClaimToken :: "uuid option"
  ob_CreatedAt :: time

record trade_settled_payload =
  ts_EventID :: string
  ts_TradeID :: string
  ts_BuyerUserID :: string
  ts_SellerUserID :: string
  ts_BuyerID :: string
  ts_SellerID :: string
  ts_BuyOrderID :: string
  ts_SellOrderID :: string
  ts_MarketID :: string
  ts_BaseAsset :: string
  ts_QuoteAsset :: string
  ts_Price :: string
  ts_Quantity :: string
  ts_Sequence :: "64 word"
  ts_ExecutedAt :: string
  ts_SettledAt :: string

record portfolio_payload =
  pp_TradeID :: string
  pp_UserID :: string
  pp_OrderID :: string
  pp_Role :: string
  pp_MarketID :: string
  pp_BaseAsset :: string
  pp_QuoteAsset :: string
  pp_Price :: string
  pp_Quantity :: string
  pp_Sequence :: "64 word"
  pp_ExecutedAt :: string
  pp_SettledAt :: string

datatype wallet_payload = TradeSettled trade_settled_payload | PortfolioUserTrade portfolio_payload

record 'd wallet_db =
  db_assets :: "'d asset_row list"
  db_wallets :: "'d wallet_row list"
  db_reservations :: "'d reservation_row list"
  db_ledger :: "'d ledger_row list"
  db_settled :: "settled_row list"
  db_outbox :: "wallet_payload outbox_row list"

type_synonym ('d, 'a) wprog = "('d wallet_db, wallet_error, 'a) prog"

section \<open>Structs\<close>

record wallet =
  wl_ID :: string
  wl_UserID :: string
  wl_Asset :: string
  wl_AvailableBalance :: string
  wl_ReservedBalance :: string
  wl_IsFrozen :: bool
  wl_InitialBalance :: string
  wl_TotalBalance :: string

record reservation =
  rv_ID :: string
  rv_OrderID :: string
  rv_UserID :: string
  rv_Asset :: string
  rv_ReservedAmount :: string
  rv_ConsumedAmount :: string
  rv_RemainingAmount :: string
  rv_Status :: reservation_status

record wallet_transaction =
  wt_ID :: string
  wt_WalletID :: string
  wt_ReferenceID :: string
  wt_ReferenceType :: string
  wt_TransactionType :: txn_type
  wt_Asset :: string
  wt_Amount :: string

definition walletOf :: "'d wlib \<Rightarrow> 'd wallet_row \<Rightarrow> wallet" where
  "walletOf W r =
     \<lparr>wl_ID = p_uuid_text W (w_ID r), wl_UserID = p_uuid_text W (w_UserID r), wl_Asset = w_Asset r,
      wl_AvailableBalance = p_decimal_text W (w_Available r), wl_ReservedBalance = p_decimal_text W (w_Reserved r),
      wl_IsFrozen = w_IsFrozen r, wl_InitialBalance = p_decimal_text W (w_Initial r),
      wl_TotalBalance = p_decimal_text W (w_Total r)\<rparr>"

definition reservationOf :: "'d wlib \<Rightarrow> 'd reservation_row \<Rightarrow> reservation" where
  "reservationOf W r =
     \<lparr>rv_ID = p_uuid_text W (r_ID r), rv_OrderID = p_uuid_text W (r_OrderID r),
      rv_UserID = p_uuid_text W (r_UserID r), rv_Asset = r_Asset r,
      rv_ReservedAmount = p_decimal_text W (r_Reserved r), rv_ConsumedAmount = p_decimal_text W (r_Consumed r),
      rv_RemainingAmount = p_decimal_text W (r_Remaining r), rv_Status = r_Status r\<rparr>"

section \<open>Wallet statements\<close>

text \<open>The columns and checks of a wallet row on its way into the table.\<close>

definition storeWallet :: "('d::linordered_idom) wlib \<Rightarrow> 'd wallet_row \<Rightarrow> wallet_error + 'd wallet_row" where
  "storeWallet W r =
     (case (p_column W (w_Available r), p_column W (w_Reserved r), p_column W (w_Initial r), p_column W (w_Total r)) of
        (Some a, Some v, Some i, Some t) \<Rightarrow>
          if 0 \<le> a \<and> 0 \<le> v \<and> t = a + v
          then Inr (r\<lparr>w_Available := a, w_Reserved := v, w_Initial := i, w_Total := t\<rparr>)
          else Inl ErrInternal
      | _ \<Rightarrow> Inl ErrInternal)"

definition GetByUserAndAsset :: "'d wlib \<Rightarrow> string \<Rightarrow> string \<Rightarrow> 'd wallet_db \<Rightarrow> wallet_error + wallet option" where
  "GetByUserAndAsset W userID asset db =
     (case p_uuid W userID of
        None \<Rightarrow> Inl ErrInternal
      | Some u \<Rightarrow> Inr (map_option (walletOf W)
          (List.find (\<lambda>r. w_UserID r = u \<and> w_Asset r = asset) (db_wallets db))))"

text \<open>The rows of a user in the display order of their assets; a row without one comes last.\<close>

definition GetAllByUser :: "'d wlib \<Rightarrow> string \<Rightarrow> 'd wallet_db \<Rightarrow> wallet_error + wallet list" where
  "GetAllByUser W userID db =
     (case p_uuid W userID of
        None \<Rightarrow> Inl ErrInternal
      | Some u \<Rightarrow>
          let order = (\<lambda>r. case List.find (\<lambda>a. a_Code a = w_Asset r) (db_assets db) of
                             None \<Rightarrow> (1 :: nat, 0) | Some a \<Rightarrow> (0, a_DisplayOrder a));
              rows = filter (\<lambda>r. w_UserID r = u) (db_wallets db) in
          Inr (map (walletOf W) (sort_key (\<lambda>r. snd (order r)) (filter (\<lambda>r. fst (order r) = 0) rows) @
                                 filter (\<lambda>r. fst (order r) \<noteq> 0) rows)))"

definition createWallet :: "('d::linordered_idom) wlib \<Rightarrow> wallet \<Rightarrow> 'd wallet_db \<Rightarrow> wallet_error + unit \<times> 'd wallet_db" where
  "createWallet W w db =
     (case (p_uuid W (wl_ID w), p_uuid W (wl_UserID w), p_decimal W (wl_AvailableBalance w),
            p_decimal W (wl_ReservedBalance w), p_decimal W (wl_InitialBalance w), p_decimal W (wl_TotalBalance w)) of
        (Some i, Some u, Some av, Some rs, Some ini, Some tot) \<Rightarrow>
          (case storeWallet W \<lparr>w_ID = i, w_UserID = u, w_Asset = wl_Asset w, w_Available = av, w_Reserved = rs,
                               w_IsFrozen = wl_IsFrozen w, w_FrozenBy = None, w_FreezeReason = None,
                               w_Initial = ini, w_Total = tot\<rparr> of
             Inl e \<Rightarrow> Inl e
           | Inr r \<Rightarrow>
               if \<exists>x\<in>set (db_wallets db). w_ID x = i \<or> (w_UserID x = u \<and> w_Asset x = wl_Asset w) then Inl ErrInternal
               else if \<forall>a\<in>set (db_assets db). a_Code a \<noteq> wl_Asset w then Inl ErrInternal
               else Inr ((), db\<lparr>db_wallets := db_wallets db @ [r]\<rparr>))
      | _ \<Rightarrow> Inl ErrInternal)"

text \<open>\<open>UPDATE wallets SET ... WHERE id = $2 AND guard\<close>, with the rows affected.\<close>

definition updateWallets ::
  "('d::linordered_idom) wlib \<Rightarrow> string \<Rightarrow> ('d wallet_row \<Rightarrow> bool) \<Rightarrow> ('d wallet_row \<Rightarrow> 'd wallet_row) \<Rightarrow>
   'd wallet_db \<Rightarrow> wallet_error + nat \<times> 'd wallet_db" where
  "updateWallets W walletID guard f db =
     (case p_uuid W walletID of
        None \<Rightarrow> Inl ErrInternal
      | Some i \<Rightarrow>
          (case update_rows (\<lambda>r. w_ID r = i \<and> guard r) (\<lambda>r. storeWallet W (f r)) (db_wallets db) of
             Inl e \<Rightarrow> Inl e
           | Inr (rows, n) \<Rightarrow> Inr (n, db\<lparr>db_wallets := rows\<rparr>)))"

definition amountStatement ::
  "'d wlib \<Rightarrow> string \<Rightarrow> ('d \<Rightarrow> 'db \<Rightarrow> wallet_error + 'a \<times> 'db) \<Rightarrow> 'db \<Rightarrow> wallet_error + 'a \<times> 'db" where
  "amountStatement W amount f db = (case p_decimal W amount of None \<Rightarrow> Inl ErrInternal | Some x \<Rightarrow> f x db)"

text \<open>A statement must have affected a row, otherwise the repository returns an error.\<close>

definition affected :: "wallet_error \<Rightarrow> nat \<Rightarrow> ('d, unit) wprog" where
  "affected err n = (if n = 0 then throw err else ret ())"

definition CreditAvailable :: "pg_env \<Rightarrow> ('d::linordered_idom) wlib \<Rightarrow> string \<Rightarrow> string \<Rightarrow> ('d, unit) wprog" where
  "CreditAvailable en W walletID amount =
     bindT (stmt en ErrInternal (amountStatement W amount (\<lambda>x. updateWallets W walletID (\<lambda>_. True)
       (\<lambda>r. r\<lparr>w_Available := w_Available r + x, w_Total := w_Total r + x\<rparr>)))) (affected ErrInternal)"

definition DebitAvailable :: "pg_env \<Rightarrow> ('d::linordered_idom) wlib \<Rightarrow> string \<Rightarrow> string \<Rightarrow> ('d, unit) wprog" where
  "DebitAvailable en W walletID amount =
     bindT (stmt en ErrInternal (amountStatement W amount (\<lambda>x. updateWallets W walletID (\<lambda>r. w_Available r \<ge> x)
       (\<lambda>r. r\<lparr>w_Available := w_Available r - x, w_Total := w_Total r - x\<rparr>)))) (affected ErrInsufficientBalance)"

definition MoveToReserved :: "pg_env \<Rightarrow> ('d::linordered_idom) wlib \<Rightarrow> string \<Rightarrow> string \<Rightarrow> ('d, unit) wprog" where
  "MoveToReserved en W walletID amount =
     bindT (stmt en ErrInternal (amountStatement W amount (\<lambda>x. updateWallets W walletID (\<lambda>r. w_Available r \<ge> x)
       (\<lambda>r. r\<lparr>w_Available := w_Available r - x, w_Reserved := w_Reserved r + x\<rparr>)))) (affected ErrInsufficientBalance)"

definition MoveFromReserved :: "pg_env \<Rightarrow> ('d::linordered_idom) wlib \<Rightarrow> string \<Rightarrow> string \<Rightarrow> ('d, unit) wprog" where
  "MoveFromReserved en W walletID amount =
     bindT (stmt en ErrInternal (amountStatement W amount (\<lambda>x. updateWallets W walletID (\<lambda>r. w_Reserved r \<ge> x)
       (\<lambda>r. r\<lparr>w_Reserved := w_Reserved r - x, w_Available := w_Available r + x\<rparr>)))) (affected ErrInsufficientBalance)"

definition DebitReserved :: "pg_env \<Rightarrow> ('d::linordered_idom) wlib \<Rightarrow> string \<Rightarrow> string \<Rightarrow> ('d, unit) wprog" where
  "DebitReserved en W walletID amount =
     bindT (stmt en ErrInternal (amountStatement W amount (\<lambda>x. updateWallets W walletID (\<lambda>r. w_Reserved r \<ge> x)
       (\<lambda>r. r\<lparr>w_Reserved := w_Reserved r - x, w_Total := w_Total r - x\<rparr>)))) (affected ErrInsufficientBalance)"

text \<open>The two statements that \<open>service.FreezeWallet\<close> runs on the pool.\<close>

definition freezeRows ::
  "('d::linordered_idom) wlib \<Rightarrow> string \<Rightarrow> string \<Rightarrow> string \<Rightarrow> 'd wallet_db \<Rightarrow> wallet_error + nat \<times> 'd wallet_db" where
  "freezeRows W walletID frozenBy reason =
     updateWallets W walletID (\<lambda>_. True)
       (\<lambda>r. r\<lparr>w_IsFrozen := True, w_FrozenBy := Some frozenBy, w_FreezeReason := Some reason\<rparr>)"

definition unfreezeRows ::
  "('d::linordered_idom) wlib \<Rightarrow> string \<Rightarrow> 'd wallet_db \<Rightarrow> wallet_error + nat \<times> 'd wallet_db" where
  "unfreezeRows W walletID =
     updateWallets W walletID (\<lambda>_. True)
       (\<lambda>r. r\<lparr>w_IsFrozen := False, w_FrozenBy := None, w_FreezeReason := None\<rparr>)"

text \<open>\<open>SELECT ... WHERE id = ANY($1) ORDER BY id FOR UPDATE\<close>.\<close>

definition LockByIDs :: "'d wlib \<Rightarrow> string list \<Rightarrow> 'd wallet_db \<Rightarrow> wallet_error + wallet list" where
  "LockByIDs W ids db =
     (if \<exists>i\<in>set ids. p_uuid W i = None then Inl ErrInternal
      else Inr (map (walletOf W)
        (sort_key w_ID (filter (\<lambda>r. Some (w_ID r) \<in> p_uuid W ` set ids) (db_wallets db)))))"

section \<open>Reservation statements\<close>

definition storeReservation ::
  "('d::linordered_idom) wlib \<Rightarrow> 'd reservation_row \<Rightarrow> wallet_error + 'd reservation_row" where
  "storeReservation W r =
     (case (p_column W (r_Reserved r), p_column W (r_Consumed r), p_column W (r_Remaining r)) of
        (Some v, Some c, Some m) \<Rightarrow>
          if 0 < v \<and> 0 \<le> c \<and> 0 \<le> m then Inr (r\<lparr>r_Reserved := v, r_Consumed := c, r_Remaining := m\<rparr>)
          else Inl ErrInternal
      | _ \<Rightarrow> Inl ErrInternal)"

definition createReservation ::
  "('d::linordered_idom) wlib \<Rightarrow> reservation \<Rightarrow> 'd wallet_db \<Rightarrow> wallet_error + unit \<times> 'd wallet_db" where
  "createReservation W rv db =
     (case (p_uuid W (rv_ID rv), p_uuid W (rv_OrderID rv), p_uuid W (rv_UserID rv),
            p_decimal W (rv_ReservedAmount rv), p_decimal W (rv_ConsumedAmount rv), p_decimal W (rv_RemainingAmount rv)) of
        (Some i, Some ord, Some u, Some v, Some c, Some m) \<Rightarrow>
          (case storeReservation W \<lparr>r_ID = i, r_OrderID = ord, r_UserID = u, r_Asset = rv_Asset rv,
                                    r_Reserved = v, r_Consumed = c, r_Remaining = m, r_Status = rv_Status rv\<rparr> of
             Inl e \<Rightarrow> Inl e
           | Inr r \<Rightarrow>
               if \<exists>x\<in>set (db_reservations db). r_ID x = i \<or> r_OrderID x = ord then Inl ErrDuplicate
               else Inr ((), db\<lparr>db_reservations := db_reservations db @ [r]\<rparr>))
      | _ \<Rightarrow> Inl ErrInternal)"

definition GetByOrderIDForUpdate :: "'d wlib \<Rightarrow> string \<Rightarrow> 'd wallet_db \<Rightarrow> wallet_error + reservation option" where
  "GetByOrderIDForUpdate W orderID db =
     (case p_uuid W orderID of
        None \<Rightarrow> Inl ErrInternal
      | Some ord \<Rightarrow> Inr (map_option (reservationOf W)
          (List.find (\<lambda>r. r_OrderID r = ord) (db_reservations db))))"

definition GetByOrderID :: "'d wlib \<Rightarrow> string \<Rightarrow> 'd wallet_db \<Rightarrow> wallet_error + reservation option" where
  "GetByOrderID W orderID db =
     (case p_uuid W orderID of
        None \<Rightarrow> Inl ErrInternal
      | Some ord \<Rightarrow> Inr (map_option (reservationOf W)
          (List.find (\<lambda>r. r_OrderID r = ord) (db_reservations db))))"

definition updateReservations ::
  "('d::linordered_idom) wlib \<Rightarrow> string \<Rightarrow> ('d reservation_row \<Rightarrow> bool) \<Rightarrow> ('d reservation_row \<Rightarrow> 'd reservation_row) \<Rightarrow>
   'd wallet_db \<Rightarrow> wallet_error + nat \<times> 'd wallet_db" where
  "updateReservations W reservationID guard f db =
     (case p_uuid W reservationID of
        None \<Rightarrow> Inl ErrInternal
      | Some i \<Rightarrow>
          (case update_rows (\<lambda>r. r_ID r = i \<and> guard r) (\<lambda>r. storeReservation W (f r)) (db_reservations db) of
             Inl e \<Rightarrow> Inl e
           | Inr (rows, n) \<Rightarrow> Inr (n, db\<lparr>db_reservations := rows\<rparr>)))"

definition UpdateStatus :: "pg_env \<Rightarrow> ('d::linordered_idom) wlib \<Rightarrow> string \<Rightarrow> reservation_status \<Rightarrow> ('d, unit) wprog" where
  "UpdateStatus en W reservationID status =
     bindT (stmt en ErrInternal (updateReservations W reservationID (\<lambda>_. True) (\<lambda>r. r\<lparr>r_Status := status\<rparr>)))
       (affected ErrInternal)"

definition UpdateConsumed :: "pg_env \<Rightarrow> ('d::linordered_idom) wlib \<Rightarrow> string \<Rightarrow> string \<Rightarrow> string \<Rightarrow> ('d, unit) wprog" where
  "UpdateConsumed en W reservationID consumedAmount remainingAmount =
     bindT (stmt en ErrInternal (amountStatement W consumedAmount (\<lambda>c. amountStatement W remainingAmount (\<lambda>m.
       updateReservations W reservationID (\<lambda>_. True)
         (\<lambda>r. r\<lparr>r_Consumed := c, r_Remaining := m,
               r_Status := (if m = 0 then ReservationConsumed else ReservationPartiallyConsumed)\<rparr>)))))
       (affected ErrInternal)"

definition ConsumeRemaining :: "pg_env \<Rightarrow> ('d::linordered_idom) wlib \<Rightarrow> string \<Rightarrow> string \<Rightarrow> ('d, unit) wprog" where
  "ConsumeRemaining en W reservationID amount =
     bindT (stmt en ErrInternal (amountStatement W amount (\<lambda>x. updateReservations W reservationID (\<lambda>r. r_Remaining r \<ge> x)
       (\<lambda>r. r\<lparr>r_Consumed := r_Consumed r + x, r_Remaining := r_Remaining r - x,
             r_Status := (if r_Remaining r - x \<le> 0 then ReservationConsumed else ReservationPartiallyConsumed)\<rparr>))))
       (affected ErrInsufficientReservation)"

section \<open>Ledger, settled trades, assets, outbox\<close>

definition referenceTypes :: "string list" where
  "referenceTypes = [''INITIAL_ALLOCATION'', ''RESERVATION'', ''RELEASE'', ''SETTLEMENT'', ''DEPOSIT'',
                     ''TOPUP'', ''WITHDRAWAL'']"

definition createTransaction ::
  "('d::linordered_idom) wlib \<Rightarrow> wallet_transaction \<Rightarrow> 'd wallet_db \<Rightarrow> wallet_error + unit \<times> 'd wallet_db" where
  "createTransaction W t db =
     (case (p_uuid W (wt_ID t), p_uuid W (wt_WalletID t), p_uuid W (wt_ReferenceID t),
            Option.bind (p_decimal W (wt_Amount t)) (p_column W)) of
        (Some i, Some w, Some ref, Some x) \<Rightarrow>
          if wt_ReferenceType t \<notin> set referenceTypes \<or> \<not> 0 < x then Inl ErrInternal
          else if \<exists>l\<in>set (db_ledger db). t_ID l = i \<or>
                 (t_WalletID l = w \<and> t_ReferenceID l = ref \<and> t_ReferenceType l = wt_ReferenceType t)
          then Inl ErrDuplicate
          else if \<forall>r\<in>set (db_wallets db). w_ID r \<noteq> w then Inl ErrInternal
          else Inr ((), db\<lparr>db_ledger := db_ledger db @
                 [\<lparr>t_ID = i, t_WalletID = w, t_ReferenceID = ref, t_ReferenceType = wt_ReferenceType t,
                   t_Type = wt_TransactionType t, t_Asset = wt_Asset t, t_Amount = x\<rparr>]\<rparr>)
      | _ \<Rightarrow> Inl ErrInternal)"

fun CreateBatch ::
  "pg_env \<Rightarrow> ('d::linordered_idom) wlib \<Rightarrow> wallet_transaction list \<Rightarrow> ('d, unit) wprog" where
  "CreateBatch en W [] = ret ()"
| "CreateBatch en W (t # ts) = bindT (stmt en ErrInternal (createTransaction W t)) (\<lambda>_. CreateBatch en W ts)"

definition GetByWalletAndReference ::
  "'d wlib \<Rightarrow> string \<Rightarrow> string \<Rightarrow> string \<Rightarrow> 'd wallet_db \<Rightarrow> wallet_error + 'd ledger_row option" where
  "GetByWalletAndReference W walletID referenceID referenceType db =
     (case (p_uuid W walletID, p_uuid W referenceID) of
        (Some w, Some ref) \<Rightarrow> Inr (List.find (\<lambda>l. t_WalletID l = w \<and> t_ReferenceID l = ref \<and>
           t_ReferenceType l = referenceType) (db_ledger db))
      | _ \<Rightarrow> Inl ErrInternal)"

definition ExistsByWalletAndReference ::
  "'d wlib \<Rightarrow> string \<Rightarrow> string \<Rightarrow> string \<Rightarrow> 'd wallet_db \<Rightarrow> wallet_error + bool" where
  "ExistsByWalletAndReference W walletID referenceID referenceType db =
     (case (p_uuid W walletID, p_uuid W referenceID) of
        (Some w, Some ref) \<Rightarrow> Inr (\<exists>l\<in>set (db_ledger db). t_WalletID l = w \<and> t_ReferenceID l = ref \<and>
           t_ReferenceType l = referenceType)
      | _ \<Rightarrow> Inl ErrInternal)"

text \<open>A \<open>uint64\<close> goes into a \<open>BIGINT\<close> when it is below \<open>2^63\<close>.\<close>

definition bigint :: "64 word \<Rightarrow> int option" where
  "bigint q = (if uint q < 2 ^ 63 then Some (uint q) else None)"

definition insertSettled ::
  "'d wlib \<Rightarrow> string \<Rightarrow> string \<Rightarrow> 64 word \<Rightarrow> 'd wallet_db \<Rightarrow> wallet_error + nat \<times> 'd wallet_db" where
  "insertSettled W tradeID marketID sq db =
     (case (p_uuid W tradeID, bigint sq) of
        (Some tr, Some q) \<Rightarrow>
          if length marketID > 20 then Inl ErrInternal
          else if \<exists>x\<in>set (db_settled db). s_TradeID x = tr then Inr (0, db)
          else if \<exists>x\<in>set (db_settled db). s_MarketID x = marketID \<and> s_Sequence x = q then Inl ErrInternal
          else Inr (1, db\<lparr>db_settled := db_settled db @
                 [\<lparr>s_TradeID = tr, s_MarketID = marketID, s_Sequence = q\<rparr>]\<rparr>)
      | _ \<Rightarrow> Inl ErrInternal)"

definition selectSettled :: "'d wlib \<Rightarrow> string \<Rightarrow> 'd wallet_db \<Rightarrow> wallet_error + settled_row" where
  "selectSettled W tradeID db =
     (case p_uuid W tradeID of
        None \<Rightarrow> Inl ErrInternal
      | Some tr \<Rightarrow> (case List.find (\<lambda>x. s_TradeID x = tr) (db_settled db) of None \<Rightarrow> Inl ErrInternal | Some x \<Rightarrow> Inr x))"

definition RegisterSettlement ::
  "pg_env \<Rightarrow> 'd wlib \<Rightarrow> string \<Rightarrow> string \<Rightarrow> 64 word \<Rightarrow> ('d, bool) wprog" where
  "RegisterSettlement en W tradeID marketID sq =
     bindT (stmt en ErrInternal (insertSettled W tradeID marketID sq)) (\<lambda>n.
       if n > 0 then ret True
       else bindT (query en ErrInternal (selectSettled W tradeID)) (\<lambda>existing.
         if s_MarketID existing \<noteq> marketID \<or> s_Sequence existing \<noteq> uint sq
         then throw ErrSettlementConflict else ret False))"

definition IsSettled :: "'d wlib \<Rightarrow> string \<Rightarrow> 'd wallet_db \<Rightarrow> wallet_error + bool" where
  "IsSettled W tradeID db =
     (case p_uuid W tradeID of None \<Rightarrow> Inl ErrInternal
      | Some tr \<Rightarrow> Inr (\<exists>x\<in>set (db_settled db). s_TradeID x = tr))"

definition GetAll :: "'d wallet_db \<Rightarrow> wallet_error + 'd asset_row list" where
  "GetAll db = Inr (sort_key a_DisplayOrder (db_assets db))"

definition GetEnabled :: "'d wallet_db \<Rightarrow> wallet_error + 'd asset_row list" where
  "GetEnabled db = Inr (sort_key a_DisplayOrder (filter a_IsEnabled (db_assets db)))"

definition GetByCode :: "string \<Rightarrow> 'd wallet_db \<Rightarrow> wallet_error + 'd asset_row option" where
  "GetByCode code db = Inr (List.find (\<lambda>a. a_Code a = code) (db_assets db))"

record outbox_event =
  oe_ID :: string
  oe_AggregateID :: string
  oe_EventType :: string
  oe_Payload :: wallet_payload
  oe_PartitionKey :: string

definition insertOutbox ::
  "'d wlib \<Rightarrow> time \<Rightarrow> outbox_event \<Rightarrow> 'd wallet_db \<Rightarrow> wallet_error + unit \<times> 'd wallet_db" where
  "insertOutbox W now ev db =
     (case (p_uuid W (oe_ID ev), p_uuid W (oe_AggregateID ev)) of
        (Some i, Some ag) \<Rightarrow>
          if \<exists>x\<in>set (db_outbox db). ob_ID x = i then Inl ErrInternal
          else Inr ((), db\<lparr>db_outbox := db_outbox db @
                 [\<lparr>ob_ID = i, ob_AggregateID = ag, ob_EventType = oe_EventType ev, ob_Payload = oe_Payload ev,
                   ob_PartitionKey = oe_PartitionKey ev, ob_Status = OutboxPending, ob_FailedReason = None,
                   ob_ClaimedAt = None, ob_ClaimToken = None, ob_CreatedAt = now\<rparr>]\<rparr>)
      | _ \<Rightarrow> Inl ErrInternal)"

definition InsertOutbox :: "pg_env \<Rightarrow> 'd wlib \<Rightarrow> outbox_event \<Rightarrow> ('d, unit) wprog" where
  "InsertOutbox en W ev = bindT (timeNow en) (\<lambda>now. stmt en ErrInternal (insertOutbox W now ev))"

end
