(* ===== verification/WalletService.thy ===== *)
theory WalletService
  imports WalletStore
begin

text \<open>
  The operations of \<open>services/wallet/internal/service\<close> except the settlement: reserving and
  releasing funds, deposits, freezing, the wallets of a new user and the balance queries.
\<close>

section \<open>Reserving funds\<close>

text \<open>\<open>strings.TrimSpace(s) == ""\<close>: only white space, in UTF-8.\<close>

fun blank :: "string \<Rightarrow> bool" where
  "blank [] = True"
| "blank (c # cs) =
     (if (of_char c :: nat) \<in> {9, 10, 11, 12, 13, 32} then blank cs
      else case cs of
        [] \<Rightarrow> False
      | d # ds \<Rightarrow>
          if (of_char c :: nat) = 0xC2 \<and> (of_char d :: nat) \<in> {0x85, 0xA0} then blank ds
          else case ds of
            [] \<Rightarrow> False
          | e # es \<Rightarrow>
              if (of_char c, of_char d, of_char e) \<in> {(0xE1 :: nat, 0x9A :: nat, 0x80 :: nat), (0xE2, 0x80, 0xA8),
                   (0xE2, 0x80, 0xA9), (0xE2, 0x80, 0xAF), (0xE2, 0x81, 0x9F), (0xE3, 0x80, 0x80)} \<or>
                 ((of_char c :: nat) = 0xE2 \<and> (of_char d :: nat) = 0x80 \<and> (of_char e :: nat) \<in> {0x80..0x8A})
              then blank es else False)"

definition validateReservationRequest ::
  "('d::linordered_idom) wlib \<Rightarrow> string \<Rightarrow> string \<Rightarrow> wallet_error + unit" where
  "validateReservationRequest W asset amount =
     (if blank asset then Inl ErrInvalidReservation
      else case d_NewFromString W amount of
        None \<Rightarrow> Inl ErrInvalidReservation
      | Some d \<Rightarrow>
          if \<not> d > 0 then Inl ErrInvalidReservation
          else if d_Exponent W amount > 0 then Inl ErrInvalidReservation
          else Inr ())"

definition validateExistingReservation ::
  "'d wlib \<Rightarrow> reservation \<Rightarrow> string \<Rightarrow> string \<Rightarrow> string \<Rightarrow> wallet_error + reservation" where
  "validateExistingReservation W existing userID asset amount =
     (if rv_Status existing = ReservationReleased \<or> rv_Status existing = ReservationConsumed
      then Inl ErrReservationConflict
      else if rv_UserID existing \<noteq> userID then Inl ErrReservationConflict
      else if rv_Asset existing \<noteq> asset then Inl ErrReservationConflict
      else case (d_NewFromString W (rv_ReservedAmount existing), d_NewFromString W amount) of
        (Some x, Some y) \<Rightarrow> if x \<noteq> y then Inl ErrReservationConflict else Inr existing
      | _ \<Rightarrow> Inl ErrReservationConflict)"

definition decimalScale :: "'d wlib \<Rightarrow> 'd \<Rightarrow> int" where
  "decimalScale W d =
     (if d = d_Truncate W d 0 then 0
      else case List.find (\<lambda>places. d = d_Truncate W d places) [1..10] of
        Some places \<Rightarrow> places | None \<Rightarrow> 11)"

text \<open>Steps 8 to 12, on a wallet whose asset has been checked.\<close>

definition placeReservation ::
  "pg_env \<Rightarrow> ('d::linordered_idom) wlib \<Rightarrow> wallet \<Rightarrow> string \<Rightarrow> string \<Rightarrow> string \<Rightarrow> string \<Rightarrow> ('d, reservation) wprog" where
  "placeReservation en W w userID orderID asset amount =
     (if wl_IsFrozen w then throw ErrWalletFrozen else
      bindT (MoveToReserved en W (wl_ID w) amount) (\<lambda>_.
      bindT (newUUID en ErrInternal) (\<lambda>rid.
      let reservation = \<lparr>rv_ID = p_uuid_text W rid, rv_OrderID = orderID, rv_UserID = userID, rv_Asset = asset,
            rv_ReservedAmount = amount, rv_ConsumedAmount = ''0'', rv_RemainingAmount = amount,
            rv_Status = ReservationActive\<rparr> in
      bindT (tryT (stmt en ErrInternal (createReservation W reservation))) (\<lambda>created. case created of
        Inl e \<Rightarrow>
          if e = ErrDuplicate then
            bindT (tryT (query en ErrInternal (GetByOrderIDForUpdate W orderID))) (\<lambda>dup. case dup of
              Inr (Some existing) \<Rightarrow> lift (validateExistingReservation W existing userID asset amount)
            | _ \<Rightarrow> throw e)
          else throw e
      | Inr _ \<Rightarrow>
          bindT (newUUID en ErrInternal) (\<lambda>tid.
          bindT (tryT (stmt en ErrInternal (createTransaction W
            \<lparr>wt_ID = p_uuid_text W tid, wt_WalletID = wl_ID w, wt_ReferenceID = orderID,
             wt_ReferenceType = ''RESERVATION'', wt_TransactionType = TxnTypeDebit, wt_Asset = asset,
             wt_Amount = amount\<rparr>))) (\<lambda>ledger.
          if ledger \<noteq> Inr () \<and> ledger \<noteq> Inl ErrDuplicate then throw ErrInternal
          else bindT (commit en ErrInternal) (\<lambda>_. ret reservation)))))))"

definition ReserveFunds ::
  "pg_env \<Rightarrow> ('d::linordered_idom) wlib \<Rightarrow> string \<Rightarrow> string \<Rightarrow> string \<Rightarrow> string \<Rightarrow> ('d, reservation) wprog" where
  "ReserveFunds en W userID orderID asset amount =
     bindT (lift (validateReservationRequest W asset amount)) (\<lambda>_.
     bindT (beginTx en ErrInternal) (\<lambda>_.
     bindT (query en ErrInternal (GetByOrderIDForUpdate W orderID)) (\<lambda>existing. case existing of
       Some e \<Rightarrow> lift (validateExistingReservation W e userID asset amount)
     | None \<Rightarrow>
     bindT (query en ErrInternal (GetByUserAndAsset W userID asset)) (\<lambda>found. case found of
       None \<Rightarrow> throw ErrInsufficientBalance
     | Some w \<Rightarrow>
     bindT (query en ErrInternal (LockByIDs W [wl_ID w])) (\<lambda>_.
     bindT (query en ErrInternal (GetByOrderIDForUpdate W orderID)) (\<lambda>existingAfterLock. case existingAfterLock of
       Some e \<Rightarrow> lift (validateExistingReservation W e userID asset amount)
     | None \<Rightarrow>
     bindT (poolQuery en ErrInternal (GetByCode asset)) (\<lambda>assetInfo. case assetInfo of
       None \<Rightarrow> throw ErrInvalidReservation
     | Some a \<Rightarrow>
         if \<not> a_IsEnabled a then throw ErrInvalidReservation
         else if decimalScale W (case d_NewFromString W amount of Some d \<Rightarrow> d | None \<Rightarrow> 0) > a_Decimals a
         then throw ErrInvalidReservation
         else placeReservation en W w userID orderID asset amount)))))))"

section \<open>Releasing funds\<close>

text \<open>Steps 5 to 10: what remains goes back to the available balance.\<close>

definition returnRemaining ::
  "pg_env \<Rightarrow> ('d::linordered_idom) wlib \<Rightarrow> string \<Rightarrow> reservation \<Rightarrow> ('d, unit) wprog" where
  "returnRemaining en W orderID reservation =
     bindT (query en ErrInternal (GetByUserAndAsset W (rv_UserID reservation) (rv_Asset reservation))) (\<lambda>found.
     case found of
       None \<Rightarrow> throw ErrInternal
     | Some w \<Rightarrow>
     bindT (query en ErrInternal (LockByIDs W [wl_ID w])) (\<lambda>_.
     bindT (MoveFromReserved en W (wl_ID w) (rv_RemainingAmount reservation)) (\<lambda>_.
     bindT (UpdateStatus en W (rv_ID reservation) ReservationReleased) (\<lambda>_.
     bindT (newUUID en ErrInternal) (\<lambda>tid.
     bindT (tryT (stmt en ErrInternal (createTransaction W
       \<lparr>wt_ID = p_uuid_text W tid, wt_WalletID = wl_ID w, wt_ReferenceID = orderID,
        wt_ReferenceType = ''RELEASE'', wt_TransactionType = TxnTypeCredit,
        wt_Asset = rv_Asset reservation, wt_Amount = rv_RemainingAmount reservation\<rparr>))) (\<lambda>ledger.
     if ledger \<noteq> Inr () \<and> ledger \<noteq> Inl ErrDuplicate then throw ErrInternal
     else commit en ErrInternal))))))"

definition ReleaseFunds :: "pg_env \<Rightarrow> ('d::linordered_idom) wlib \<Rightarrow> string \<Rightarrow> ('d, unit) wprog" where
  "ReleaseFunds en W orderID =
     bindT (beginTx en ErrInternal) (\<lambda>_.
     bindT (query en ErrInternal (GetByOrderIDForUpdate W orderID)) (\<lambda>found. case found of
       None \<Rightarrow> throw ErrReservationNotFound
     | Some reservation \<Rightarrow>
         if rv_Status reservation = ReservationReleased \<or> rv_Status reservation = ReservationConsumed then ret ()
         else case d_NewFromString W (rv_RemainingAmount reservation) of
           None \<Rightarrow> throw ErrInternal
         | Some decAmount \<Rightarrow>
             if decAmount \<le> 0 then
               bindT (UpdateStatus en W (rv_ID reservation) ReservationReleased) (\<lambda>_. commit en ErrInternal)
             else returnRemaining en W orderID reservation))"

section \<open>Deposits\<close>

record deposit_result =
  dr_TransactionID :: string
  dr_NewBalance :: string

text \<open>The transaction of a deposit, after the checks on the pool (lines 112 to 222).\<close>

definition creditDeposit ::
  "pg_env \<Rightarrow> ('d::linordered_idom) wlib \<Rightarrow> wallet \<Rightarrow> string \<Rightarrow> string \<Rightarrow> 'd \<Rightarrow> string \<Rightarrow> string \<Rightarrow>
   ('d, deposit_result) wprog" where
  "creditDeposit en W w userID asset depositAmount referenceID referenceType =
     bindT (beginTx en ErrInternal) (\<lambda>_.
     bindT (query en ErrInternal (LockByIDs W [wl_ID w])) (\<lambda>locked.
     if locked \<noteq> [] \<and> wl_IsFrozen (hd locked) then throw ErrWalletFrozen else
     bindT (query en ErrInternal (GetByWalletAndReference W (wl_ID w) referenceID referenceType)) (\<lambda>existing.
     case existing of
       Some t \<Rightarrow>
         bindT (query en ErrInternal (GetByUserAndAsset W userID asset)) (\<lambda>fresh. case fresh of
           None \<Rightarrow> throw ErrWalletNotFound
         | Some fw \<Rightarrow> ret \<lparr>dr_TransactionID = p_uuid_text W (t_ID t), dr_NewBalance = wl_AvailableBalance fw\<rparr>)
     | None \<Rightarrow>
     bindT (newUUID en ErrInternal) (\<lambda>tid.
     let formattedAmount = d_StringFixed W depositAmount 10 in
     bindT (CreditAvailable en W (wl_ID w) formattedAmount) (\<lambda>_.
     bindT (tryT (stmt en ErrInternal (createTransaction W
       \<lparr>wt_ID = p_uuid_text W tid, wt_WalletID = wl_ID w, wt_ReferenceID = referenceID,
        wt_ReferenceType = referenceType, wt_TransactionType = TxnTypeCredit, wt_Asset = asset,
        wt_Amount = formattedAmount\<rparr>))) (\<lambda>ledger. case ledger of
       Inl e \<Rightarrow>
         if e = ErrDuplicate then
           bindT (tryT (poolQuery en ErrInternal (GetByUserAndAsset W userID asset))) (\<lambda>fresh. case fresh of
             Inr (Some fw) \<Rightarrow> ret \<lparr>dr_TransactionID = referenceID, dr_NewBalance = wl_AvailableBalance fw\<rparr>
           | _ \<Rightarrow> throw ErrDuplicate)
         else throw e
     | Inr _ \<Rightarrow>
         bindT (commit en ErrInternal) (\<lambda>_.
         let curBal = (case d_NewFromString W (wl_AvailableBalance w) of Some x \<Rightarrow> x | None \<Rightarrow> 0) in
         ret \<lparr>dr_TransactionID = p_uuid_text W tid,
              dr_NewBalance = d_StringFixed W (curBal + depositAmount) 10\<rparr>)))))))"

definition DepositFunds ::
  "pg_env \<Rightarrow> ('d::linordered_idom) wlib \<Rightarrow> string \<Rightarrow> string \<Rightarrow> string \<Rightarrow> string \<Rightarrow> string \<Rightarrow>
   ('d, deposit_result) wprog" where
  "DepositFunds en W userID asset amount referenceID referenceType =
     (if userID = [] \<or> asset = [] \<or> referenceID = [] \<or> referenceType = [] then throw ErrInvalidDeposit
      else case d_NewFromString W amount of
        None \<Rightarrow> throw ErrInvalidDeposit
      | Some depositAmount \<Rightarrow>
          if \<not> depositAmount > 0 then throw ErrInvalidDeposit
          else if d_Exponent W amount > 0 then throw ErrInvalidDeposit
          else
            bindT (poolQuery en ErrInternal (GetByCode asset)) (\<lambda>assetInfo. case assetInfo of
              None \<Rightarrow> throw ErrInvalidDeposit
            | Some a \<Rightarrow>
                if \<not> a_IsEnabled a then throw ErrInvalidDeposit
                else if decimalScale W depositAmount > a_Decimals a then throw ErrInvalidDeposit
                else
                  bindT (poolQuery en ErrInternal (GetByUserAndAsset W userID asset)) (\<lambda>found. case found of
                    None \<Rightarrow> throw ErrWalletNotFound
                  | Some w \<Rightarrow>
                      if wl_IsFrozen w then throw ErrWalletFrozen
                      else
                        bindT (poolQuery en ErrInternal
                          (GetByWalletAndReference W (wl_ID w) referenceID referenceType)) (\<lambda>existing. case existing of
                          Some t \<Rightarrow> ret \<lparr>dr_TransactionID = p_uuid_text W (t_ID t),
                                        dr_NewBalance = wl_AvailableBalance w\<rparr>
                        | None \<Rightarrow> creditDeposit en W w userID asset depositAmount referenceID referenceType))))"

section \<open>Freezing, balances, new users\<close>

definition FreezeWallet ::
  "pg_env \<Rightarrow> ('d::linordered_idom) wlib \<Rightarrow> string \<Rightarrow> string \<Rightarrow> bool \<Rightarrow> string \<Rightarrow> ('d, bool) wprog" where
  "FreezeWallet en W userID asset freeze reason =
     bindT (poolQuery en ErrInternal (GetByUserAndAsset W userID asset)) (\<lambda>found. case found of
       None \<Rightarrow> throw ErrWalletNotFound
     | Some w \<Rightarrow>
         if freeze then
           bindT (pool en ErrInternal (freezeRows W (wl_ID w) ''admin'' reason)) (\<lambda>n.
             if n = 0 then throw ErrInternal else ret True)
         else
           bindT (pool en ErrInternal (unfreezeRows W (wl_ID w))) (\<lambda>n.
             if n = 0 then throw ErrInternal else ret False))"

definition GetBalance :: "pg_env \<Rightarrow> 'd wlib \<Rightarrow> string \<Rightarrow> string \<Rightarrow> ('d, wallet) wprog" where
  "GetBalance en W userID asset =
     bindT (poolQuery en ErrInternal (GetByUserAndAsset W userID asset)) (\<lambda>found. case found of
       None \<Rightarrow> throw ErrInternal | Some w \<Rightarrow> ret w)"

definition GetBalances :: "pg_env \<Rightarrow> 'd wlib \<Rightarrow> string \<Rightarrow> ('d, wallet list) wprog" where
  "GetBalances en W userID = poolQuery en ErrInternal (GetAllByUser W userID)"

definition GetSupportedAssets :: "pg_env \<Rightarrow> ('d, 'd asset_row list) wprog" where
  "GetSupportedAssets en = poolQuery en ErrInternal GetEnabled"

fun initializeAssets ::
  "pg_env \<Rightarrow> ('d::linordered_idom) wlib \<Rightarrow> string \<Rightarrow> 'd asset_row list \<Rightarrow> ('d, unit) wprog" where
  "initializeAssets en W userID [] = ret ()"
| "initializeAssets en W userID (a # as) =
     bindT (query en ErrInternal (GetByUserAndAsset W userID (a_Code a))) (\<lambda>existing. case existing of
       Some _ \<Rightarrow> initializeAssets en W userID as
     | None \<Rightarrow>
     bindT (newUUID en ErrInternal) (\<lambda>wid.
     let seed = p_decimal_text W (a_SeedAmount a) in
     bindT (stmt en ErrInternal (createWallet W
       \<lparr>wl_ID = p_uuid_text W wid, wl_UserID = userID, wl_Asset = a_Code a, wl_AvailableBalance = seed,
        wl_ReservedBalance = ''0'', wl_IsFrozen = False, wl_InitialBalance = seed, wl_TotalBalance = seed\<rparr>)) (\<lambda>_.
     if seed \<noteq> ''0'' \<and> seed \<noteq> ''0.0000000000'' then
       bindT (newUUID en ErrInternal) (\<lambda>tid.
       bindT (stmt en ErrInternal (createTransaction W
         \<lparr>wt_ID = p_uuid_text W tid, wt_WalletID = p_uuid_text W wid, wt_ReferenceID = userID,
          wt_ReferenceType = ''INITIAL_ALLOCATION'', wt_TransactionType = TxnTypeCredit, wt_Asset = a_Code a,
          wt_Amount = seed\<rparr>)) (\<lambda>_.
       initializeAssets en W userID as))
     else initializeAssets en W userID as)))"

definition InitializeWallet :: "pg_env \<Rightarrow> ('d::linordered_idom) wlib \<Rightarrow> string \<Rightarrow> ('d, unit) wprog" where
  "InitializeWallet en W userID =
     bindT (poolQuery en ErrInternal GetEnabled) (\<lambda>assets.
     bindT (beginTx en ErrInternal) (\<lambda>_.
     bindT (initializeAssets en W userID assets) (\<lambda>_.
     commit en ErrInternal)))"

end
