(* ===== verification/WalletSettle.thy ===== *)
theory WalletSettle
  imports WalletService Engine
begin

text \<open>
  The settlement of a trade: \<open>settle_trade.go\<close>, \<open>settle_trade_validate.go\<close> and
  \<open>settle_trade_events.go\<close> of \<open>services/wallet/internal/service\<close>.
\<close>

record trade_request =
  q_TradeID :: string
  q_BuyerUserID :: string
  q_SellerUserID :: string
  q_BuyOrderID :: string
  q_SellerOrderID :: string
  q_MarketID :: string
  q_BaseAsset :: string
  q_QuoteAsset :: string
  q_BaseAmount :: string
  q_QuoteAmount :: string
  q_Price :: string
  q_Quantity :: string
  q_Sequence :: "64 word"
  q_ExecutedAt :: string

section \<open>Validation\<close>

definition maxDecimalScale :: int where
  "maxDecimalScale = 10"

definition parseAmount :: "('d::linordered_idom) wlib \<Rightarrow> string \<Rightarrow> wallet_error + 'd" where
  "parseAmount W s =
     (case d_NewFromString W s of
        None \<Rightarrow> Inl ErrInvalidSettlement
      | Some d \<Rightarrow>
          if \<not> d > 0 then Inl ErrInvalidSettlement
          else if d_Exponent W s > 0 then Inl ErrInvalidSettlement
          else if max 0 (- d_Exponent W s) > maxDecimalScale then Inl ErrInvalidSettlement
          else Inr d)"

definition validateSettlementAmounts ::
  "pg_env \<Rightarrow> ('d::linordered_idom) wlib \<Rightarrow> trade_request \<Rightarrow> ('d, unit) wprog" where
  "validateSettlementAmounts en W req =
     bindT (lift (parseAmount W (q_BaseAmount req))) (\<lambda>baseAmount.
     bindT (lift (parseAmount W (q_QuoteAmount req))) (\<lambda>quoteAmount.
     bindT (lift (parseAmount W (q_Price req))) (\<lambda>price.
     bindT (lift (parseAmount W (q_Quantity req))) (\<lambda>quantity.
     if baseAmount \<noteq> quantity then throw ErrInvalidSettlement else
     bindT (poolQuery en ErrInternal (GetByCode (q_QuoteAsset req))) (\<lambda>quoteAsset. case quoteAsset of
       None \<Rightarrow> throw ErrInvalidSettlement
     | Some a \<Rightarrow>
         if \<bar>quoteAmount - price * quantity\<bar> > d_New W 1 (- a_Decimals a) then throw ErrInvalidSettlement
         else if q_MarketID req \<noteq> q_BaseAsset req @ ''-'' @ q_QuoteAsset req then throw ErrInvalidSettlement
         else ret ())))))"

definition validateAssetPrecision ::
  "pg_env \<Rightarrow> ('d::linordered_idom) wlib \<Rightarrow> string \<Rightarrow> string \<Rightarrow> ('d, unit) wprog" where
  "validateAssetPrecision en W assetCode amount =
     bindT (poolQuery en ErrInternal (GetByCode assetCode)) (\<lambda>assetInfo. case assetInfo of
       None \<Rightarrow> throw ErrInvalidSettlement
     | Some a \<Rightarrow>
         if \<not> a_IsEnabled a then throw ErrInvalidSettlement
         else case d_NewFromString W amount of
           None \<Rightarrow> throw ErrInvalidSettlement
         | Some d \<Rightarrow> if decimalScale W d > a_Decimals a then throw ErrInvalidSettlement else ret ())"

definition roundToAssetPrecision ::
  "pg_env \<Rightarrow> ('d::linordered_idom) wlib \<Rightarrow> string \<Rightarrow> string \<Rightarrow> ('d, string) wprog" where
  "roundToAssetPrecision en W assetCode amount =
     bindT (poolQuery en ErrInternal (GetByCode assetCode)) (\<lambda>assetInfo. case assetInfo of
       None \<Rightarrow> throw ErrInternal
     | Some a \<Rightarrow>
         (case d_NewFromString W amount of
            None \<Rightarrow> throw ErrInternal
          | Some d \<Rightarrow> ret (d_String W (d_Truncate W d (a_Decimals a)))))"

section \<open>Events\<close>

definition buildTradeSettledEvent ::
  "pg_env \<Rightarrow> 'd wlib \<Rightarrow> trade_request \<Rightarrow> time \<Rightarrow> ('d, outbox_event) wprog" where
  "buildTradeSettledEvent en W req settledAt =
     bindT (newUUID en ErrInternal) (\<lambda>u.
       ret \<lparr>oe_ID = p_uuid_text W u, oe_AggregateID = q_TradeID req, oe_EventType = ''TradeSettled'',
            oe_Payload = TradeSettled
              \<lparr>ts_EventID = p_uuid_text W u, ts_TradeID = q_TradeID req, ts_BuyerUserID = q_BuyerUserID req,
               ts_SellerUserID = q_SellerUserID req, ts_BuyerID = q_BuyerUserID req,
               ts_SellerID = q_SellerUserID req, ts_BuyOrderID = q_BuyOrderID req,
               ts_SellOrderID = q_SellerOrderID req, ts_MarketID = q_MarketID req, ts_BaseAsset = q_BaseAsset req,
               ts_QuoteAsset = q_QuoteAsset req, ts_Price = q_Price req, ts_Quantity = q_Quantity req,
               ts_Sequence = q_Sequence req, ts_ExecutedAt = q_ExecutedAt req,
               ts_SettledAt = t_FormatNano W settledAt\<rparr>,
            oe_PartitionKey = q_BuyerUserID req\<rparr>)"

definition buildPortfolioEvent ::
  "pg_env \<Rightarrow> 'd wlib \<Rightarrow> trade_request \<Rightarrow> string \<Rightarrow> string \<Rightarrow> string \<Rightarrow> time \<Rightarrow> ('d, outbox_event) wprog" where
  "buildPortfolioEvent en W req userID orderID role settledAt =
     bindT (newUUID en ErrInternal) (\<lambda>u.
       ret \<lparr>oe_ID = p_uuid_text W u, oe_AggregateID = q_TradeID req, oe_EventType = ''PortfolioUserTrade'',
            oe_Payload = PortfolioUserTrade
              \<lparr>pp_TradeID = q_TradeID req, pp_UserID = userID, pp_OrderID = orderID, pp_Role = role,
               pp_MarketID = q_MarketID req, pp_BaseAsset = q_BaseAsset req, pp_QuoteAsset = q_QuoteAsset req,
               pp_Price = q_Price req, pp_Quantity = q_Quantity req, pp_Sequence = q_Sequence req,
               pp_ExecutedAt = q_ExecutedAt req, pp_SettledAt = t_FormatNano W settledAt\<rparr>,
            oe_PartitionKey = userID\<rparr>)"

section \<open>Settlement\<close>

definition mmAccountUUID :: string where
  "mmAccountUUID = ''00000000-0000-0000-0000-000000000001''"

definition isBuyerMM :: "trade_request \<Rightarrow> bool" where
  "isBuyerMM req = (q_BuyerUserID req = mmAccountUUID)"

definition isSellerMM :: "trade_request \<Rightarrow> bool" where
  "isSellerMM req = (q_SellerUserID req = mmAccountUUID)"

definition validateIdentifiers :: "trade_request \<Rightarrow> wallet_error + unit" where
  "validateIdentifiers req =
     (if q_TradeID req = [] \<or> q_BuyerUserID req = [] \<or> q_SellerUserID req = [] \<or>
         q_BuyOrderID req = [] \<or> q_SellerOrderID req = [] then Inl ErrInvalidSettlement
      else if q_BuyerUserID req = q_SellerUserID req then Inl ErrInvalidSettlement
      else if q_BuyOrderID req = q_SellerOrderID req then Inl ErrInvalidSettlement
      else if q_BaseAsset req = [] \<or> q_QuoteAsset req = [] then Inl ErrInvalidSettlement
      else if q_MarketID req = [] then Inl ErrInvalidSettlement
      else if q_Sequence req = 0 then Inl ErrInvalidSettlement
      else Inr ())"

definition fetchReservation :: "pg_env \<Rightarrow> 'd wlib \<Rightarrow> string \<Rightarrow> ('d, reservation) wprog" where
  "fetchReservation en W orderID =
     bindT (query en ErrInternal (GetByOrderIDForUpdate W orderID)) (\<lambda>found. case found of
       None \<Rightarrow> throw ErrReservationNotFound | Some r \<Rightarrow> ret r)"

text \<open>The reservations of the buyer and of the seller; the market maker has none.\<close>

definition lockReservations ::
  "pg_env \<Rightarrow> 'd wlib \<Rightarrow> trade_request \<Rightarrow> ('d, reservation option \<times> reservation option) wprog" where
  "lockReservations en W req =
     (if \<not> isBuyerMM req \<and> \<not> isSellerMM req then
        (let swap = str_less (q_SellerOrderID req) (q_BuyOrderID req);
             firstOrderID = (if swap then q_SellerOrderID req else q_BuyOrderID req);
             secondOrderID = (if swap then q_BuyOrderID req else q_SellerOrderID req) in
         bindT (fetchReservation en W firstOrderID) (\<lambda>res1.
         bindT (fetchReservation en W secondOrderID) (\<lambda>res2.
         if rv_OrderID res1 = q_BuyOrderID req then ret (Some res1, Some res2) else ret (Some res2, Some res1))))
      else if \<not> isBuyerMM req then
        bindT (fetchReservation en W (q_BuyOrderID req)) (\<lambda>res. ret (Some res, None))
      else if \<not> isSellerMM req then
        bindT (fetchReservation en W (q_SellerOrderID req)) (\<lambda>res. ret (None, Some res))
      else ret (None, None))"

text \<open>Step 4 for one side; a missing reservation would be a nil dereference, which \<open>lockReservations\<close> excludes.\<close>

definition checkSide :: "bool \<Rightarrow> reservation option \<Rightarrow> string \<Rightarrow> string \<Rightarrow> wallet_error + unit" where
  "checkSide isMM res asset userID =
     (if isMM then Inr ()
      else case res of
        None \<Rightarrow> Inl ErrInternal
      | Some r \<Rightarrow>
          if rv_Status r = ReservationReleased then Inl ErrInsufficientReservation
          else if rv_Asset r \<noteq> asset then Inl ErrInvalidSettlement
          else if rv_UserID r \<noteq> userID then Inl ErrInvalidSettlement
          else Inr ())"

definition checkQuoteFits :: "('d::linordered_idom) wlib \<Rightarrow> trade_request \<Rightarrow> reservation option \<Rightarrow> wallet_error + unit" where
  "checkQuoteFits W req buyerRes =
     (case buyerRes of
        None \<Rightarrow> Inr ()
      | Some r \<Rightarrow>
          (case (d_NewFromString W (q_QuoteAmount req), d_NewFromString W (rv_RemainingAmount r)) of
             (Some q, Some m) \<Rightarrow> if \<not> isBuyerMM req \<and> q > m then Inl ErrInsufficientReservation else Inr ()
           | _ \<Rightarrow> Inr ()))"

definition fetchWallet :: "pg_env \<Rightarrow> 'd wlib \<Rightarrow> string \<Rightarrow> string \<Rightarrow> ('d, wallet) wprog" where
  "fetchWallet en W userID asset =
     bindT (query en ErrInternal (GetByUserAndAsset W userID asset)) (\<lambda>found. case found of
       None \<Rightarrow> throw ErrInternal | Some w \<Rightarrow> ret w)"

text \<open>One leg (steps 7 and 8): the payer's wallet and reservation, then the payee's wallet.\<close>

definition transferLeg ::
  "pg_env \<Rightarrow> ('d::linordered_idom) wlib \<Rightarrow> bool \<Rightarrow> wallet \<Rightarrow> reservation option \<Rightarrow> wallet \<Rightarrow> string \<Rightarrow> ('d, unit) wprog" where
  "transferLeg en W payerMM payer payerRes payee amount =
     bindT (if payerMM then DebitAvailable en W (wl_ID payer) amount
            else bindT (DebitReserved en W (wl_ID payer) amount) (\<lambda>_.
                 case payerRes of None \<Rightarrow> throw ErrInternal
                 | Some r \<Rightarrow> ConsumeRemaining en W (rv_ID r) amount)) (\<lambda>_.
     CreditAvailable en W (wl_ID payee) amount)"

definition settlementEntry ::
  "'d wlib \<Rightarrow> trade_request \<Rightarrow> uuid \<Rightarrow> wallet \<Rightarrow> txn_type \<Rightarrow> string \<Rightarrow> string \<Rightarrow> wallet_transaction" where
  "settlementEntry W req u w ty asset amount =
     \<lparr>wt_ID = p_uuid_text W u, wt_WalletID = wl_ID w, wt_ReferenceID = q_TradeID req,
      wt_ReferenceType = ''SETTLEMENT'', wt_TransactionType = ty, wt_Asset = asset, wt_Amount = amount\<rparr>"

text \<open>Steps 10 and 11: the three outbox events and the commit.\<close>

definition publishAndCommit :: "pg_env \<Rightarrow> 'd wlib \<Rightarrow> trade_request \<Rightarrow> time \<Rightarrow> ('d, unit) wprog" where
  "publishAndCommit en W req now =
     bindT (buildTradeSettledEvent en W req now) (\<lambda>ev1.
     bindT (InsertOutbox en W ev1) (\<lambda>_.
     bindT (buildPortfolioEvent en W req (q_BuyerUserID req) (q_BuyOrderID req) ''BUY'' now) (\<lambda>ev2.
     bindT (InsertOutbox en W ev2) (\<lambda>_.
     bindT (buildPortfolioEvent en W req (q_SellerUserID req) (q_SellerOrderID req) ''SELL'' now) (\<lambda>ev3.
     bindT (InsertOutbox en W ev3) (\<lambda>_.
     commit en ErrInternal))))))"

text \<open>Steps 6 to 11, \<open>req\<close> carrying the rounded quote amount.\<close>

definition moveFunds ::
  "pg_env \<Rightarrow> ('d::linordered_idom) wlib \<Rightarrow> trade_request \<Rightarrow> reservation option \<Rightarrow> reservation option \<Rightarrow>
   wallet \<Rightarrow> wallet \<Rightarrow> wallet \<Rightarrow> wallet \<Rightarrow> ('d, unit) wprog" where
  "moveFunds en W req buyerRes sellerRes sellerBase buyerBase buyerQuote sellerQuote =
     bindT (query en ErrInternal (LockByIDs W [wl_ID sellerBase, wl_ID buyerBase, wl_ID buyerQuote, wl_ID sellerQuote])) (\<lambda>_.
     bindT (transferLeg en W (isSellerMM req) sellerBase sellerRes buyerBase (q_BaseAmount req)) (\<lambda>_.
     bindT (transferLeg en W (isBuyerMM req) buyerQuote buyerRes sellerQuote (q_QuoteAmount req)) (\<lambda>_.
     bindT (timeNow en) (\<lambda>now.
     bindT (newUUID en ErrInternal) (\<lambda>u1.
     bindT (newUUID en ErrInternal) (\<lambda>u2.
     bindT (newUUID en ErrInternal) (\<lambda>u3.
     bindT (newUUID en ErrInternal) (\<lambda>u4.
     bindT (tryT (CreateBatch en W
       [settlementEntry W req u1 sellerBase TxnTypeDebit (q_BaseAsset req) (q_BaseAmount req),
        settlementEntry W req u2 buyerBase TxnTypeCredit (q_BaseAsset req) (q_BaseAmount req),
        settlementEntry W req u3 buyerQuote TxnTypeDebit (q_QuoteAsset req) (q_QuoteAmount req),
        settlementEntry W req u4 sellerQuote TxnTypeCredit (q_QuoteAsset req) (q_QuoteAmount req)])) (\<lambda>ledger. case ledger of
       Inl e \<Rightarrow> if e = ErrDuplicate then ret () else throw e
     | Inr _ \<Rightarrow> publishAndCommit en W req now)))))))))"

definition SettleTrade :: "pg_env \<Rightarrow> ('d::linordered_idom) wlib \<Rightarrow> trade_request \<Rightarrow> ('d, unit) wprog" where
  "SettleTrade en W req =
     bindT (lift (validateIdentifiers req)) (\<lambda>_.
     bindT (validateSettlementAmounts en W req) (\<lambda>_.
     bindT (beginTx en ErrInternal) (\<lambda>_.
     bindT (RegisterSettlement en W (q_TradeID req) (q_MarketID req) (q_Sequence req)) (\<lambda>inserted.
     if \<not> inserted then ret () else
     bindT (lockReservations en W req) (\<lambda>(buyerRes, sellerRes).
     bindT (lift (checkSide (isSellerMM req) sellerRes (q_BaseAsset req) (q_SellerUserID req))) (\<lambda>_.
     bindT (lift (checkSide (isBuyerMM req) buyerRes (q_QuoteAsset req) (q_BuyerUserID req))) (\<lambda>_.
     bindT (lift (checkQuoteFits W req buyerRes)) (\<lambda>_.
     bindT (fetchWallet en W (q_SellerUserID req) (q_BaseAsset req)) (\<lambda>sellerBase.
     bindT (fetchWallet en W (q_BuyerUserID req) (q_BaseAsset req)) (\<lambda>buyerBase.
     bindT (fetchWallet en W (q_BuyerUserID req) (q_QuoteAsset req)) (\<lambda>buyerQuote.
     bindT (fetchWallet en W (q_SellerUserID req) (q_QuoteAsset req)) (\<lambda>sellerQuote.
     bindT (roundToAssetPrecision en W (q_QuoteAsset req) (q_QuoteAmount req)) (\<lambda>rounded.
     let req' = req\<lparr>q_QuoteAmount := rounded\<rparr> in
     bindT (validateAssetPrecision en W (q_BaseAsset req) (q_BaseAmount req)) (\<lambda>_.
     bindT (validateAssetPrecision en W (q_QuoteAsset req) rounded) (\<lambda>_.
     moveFunds en W req' buyerRes sellerRes sellerBase buyerBase buyerQuote sellerQuote)))))))))))))))"

section \<open>The gRPC handler\<close>

datatype grpc_code = NotFound | FailedPrecondition | AlreadyExists | InvalidArgument | Internal

fun mapToGRPCError :: "wallet_error \<Rightarrow> grpc_code" where
  "mapToGRPCError ErrNotFound = NotFound"
| "mapToGRPCError ErrWalletNotFound = NotFound"
| "mapToGRPCError ErrInsufficientBalance = FailedPrecondition"
| "mapToGRPCError ErrWalletFrozen = FailedPrecondition"
| "mapToGRPCError ErrDuplicate = AlreadyExists"
| "mapToGRPCError ErrInvalidReservation = InvalidArgument"
| "mapToGRPCError ErrInvalidSettlement = InvalidArgument"
| "mapToGRPCError ErrInvalidDeposit = InvalidArgument"
| "mapToGRPCError _ = Internal"

definition grpc :: "('d wallet_db, wallet_error, 'a) prog \<Rightarrow> ('d wallet_db, grpc_code, 'a) prog" where
  "grpc m = (\<lambda>s. case m s of (Inl e, s') \<Rightarrow> (Inl (mapToGRPCError e), s') | (Inr a, s') \<Rightarrow> (Inr a, s'))"

record settle_rpc =
  sr_TradeId :: string
  sr_BuyerId :: string
  sr_SellerId :: string
  sr_BuyOrderId :: string
  sr_SellOrderId :: string
  sr_MarketId :: string
  sr_BaseAsset :: string
  sr_QuoteAsset :: string
  sr_Price :: string
  sr_Quantity :: string
  sr_Sequence :: "64 word"
  sr_ExecutedAt :: string

definition rpcSettleTrade ::
  "pg_env \<Rightarrow> ('d::linordered_idom) wlib \<Rightarrow> settle_rpc \<Rightarrow> ('d wallet_db, grpc_code, unit) prog" where
  "rpcSettleTrade en W rq =
     (if sr_TradeId rq = [] \<or> sr_BuyerId rq = [] \<or> sr_SellerId rq = [] \<or> sr_BuyOrderId rq = [] \<or>
         sr_SellOrderId rq = [] \<or> sr_BaseAsset rq = [] \<or> sr_QuoteAsset rq = [] \<or> sr_Price rq = [] \<or>
         sr_Quantity rq = [] \<or> sr_MarketId rq = [] then throw InvalidArgument
      else case d_NewFromString W (sr_Price rq) of
        None \<Rightarrow> throw InvalidArgument
      | Some price \<Rightarrow>
          (case d_NewFromString W (sr_Quantity rq) of
             None \<Rightarrow> throw InvalidArgument
           | Some qty \<Rightarrow>
               grpc (SettleTrade en W
                 \<lparr>q_TradeID = sr_TradeId rq, q_BuyerUserID = sr_BuyerId rq, q_SellerUserID = sr_SellerId rq,
                  q_BuyOrderID = sr_BuyOrderId rq, q_SellerOrderID = sr_SellOrderId rq,
                  q_MarketID = sr_MarketId rq, q_BaseAsset = sr_BaseAsset rq, q_QuoteAsset = sr_QuoteAsset rq,
                  q_BaseAmount = sr_Quantity rq, q_QuoteAmount = d_String W (price * qty),
                  q_Price = sr_Price rq, q_Quantity = sr_Quantity rq, q_Sequence = sr_Sequence rq,
                  q_ExecutedAt = sr_ExecutedAt rq\<rparr>)))"

definition rpcReserveFunds ::
  "pg_env \<Rightarrow> ('d::linordered_idom) wlib \<Rightarrow> string \<Rightarrow> string \<Rightarrow> string \<Rightarrow> string \<Rightarrow>
   ('d wallet_db, grpc_code, string \<times> string \<times> bool) prog" where
  "rpcReserveFunds en W userID orderID asset amount =
     (if userID = [] \<or> orderID = [] \<or> asset = [] \<or> amount = [] then throw InvalidArgument
      else bindT (grpc (ReserveFunds en W userID orderID asset amount)) (\<lambda>r.
        ret (rv_ID r, rv_ReservedAmount r, rv_Status r \<noteq> ReservationActive)))"

definition rpcReleaseFunds :: "pg_env \<Rightarrow> ('d::linordered_idom) wlib \<Rightarrow> string \<Rightarrow> ('d wallet_db, grpc_code, bool) prog" where
  "rpcReleaseFunds en W orderID =
     (if orderID = [] then throw InvalidArgument
      else bindT (grpc (ReleaseFunds en W orderID)) (\<lambda>_. ret True))"

definition rpcDepositFunds ::
  "pg_env \<Rightarrow> ('d::linordered_idom) wlib \<Rightarrow> string \<Rightarrow> string \<Rightarrow> string \<Rightarrow> string \<Rightarrow> string \<Rightarrow>
   ('d wallet_db, grpc_code, deposit_result) prog" where
  "rpcDepositFunds en W userID asset amount referenceID referenceType =
     (if userID = [] \<or> asset = [] \<or> amount = [] \<or> referenceID = [] \<or> referenceType = [] then throw InvalidArgument
      else grpc (DepositFunds en W userID asset amount referenceID referenceType))"

definition rpcInitializeWallet :: "pg_env \<Rightarrow> ('d::linordered_idom) wlib \<Rightarrow> string \<Rightarrow> ('d wallet_db, grpc_code, bool) prog" where
  "rpcInitializeWallet en W userID =
     (if userID = [] then throw InvalidArgument
      else bindT (grpc (InitializeWallet en W userID)) (\<lambda>_. ret True))"

definition rpcFreezeWallet ::
  "pg_env \<Rightarrow> ('d::linordered_idom) wlib \<Rightarrow> string \<Rightarrow> string \<Rightarrow> bool \<Rightarrow> string \<Rightarrow>
   ('d wallet_db, grpc_code, bool) prog" where
  "rpcFreezeWallet en W userID asset freeze reason =
     (if userID = [] \<or> asset = [] then throw InvalidArgument
      else grpc (FreezeWallet en W userID asset freeze reason))"

definition rpcGetBalance ::
  "pg_env \<Rightarrow> 'd wlib \<Rightarrow> string \<Rightarrow> string \<Rightarrow> ('d wallet_db, grpc_code, string \<times> string \<times> string) prog" where
  "rpcGetBalance en W userID asset =
     (if userID = [] \<or> asset = [] then throw InvalidArgument
      else bindT (grpc (GetBalance en W userID asset)) (\<lambda>w.
        ret (wl_Asset w, wl_AvailableBalance w, wl_ReservedBalance w)))"

definition rpcGetBalances ::
  "pg_env \<Rightarrow> 'd wlib \<Rightarrow> string \<Rightarrow> ('d wallet_db, grpc_code, (string \<times> string \<times> string) list) prog" where
  "rpcGetBalances en W userID =
     (if userID = [] then throw InvalidArgument
      else bindT (grpc (GetBalances en W userID)) (\<lambda>ws.
        ret (map (\<lambda>w. (wl_Asset w, wl_AvailableBalance w, wl_ReservedBalance w)) ws)))"

definition rpcGetSupportedAssets ::
  "pg_env \<Rightarrow> 'd wlib \<Rightarrow> ('d wallet_db, grpc_code, (string \<times> string \<times> int \<times> bool \<times> string \<times> int) list) prog" where
  "rpcGetSupportedAssets en W =
     bindT (grpc (GetSupportedAssets en)) (\<lambda>as.
       ret (map (\<lambda>a. (a_Code a, a_Name a, a_Decimals a, a_IsEnabled a, p_decimal_text W (a_SeedAmount a),
                       a_DisplayOrder a)) as))"

end
