(* ===== verification/WalletSpec.thy ===== *)
theory WalletSpec
  imports WalletStore
begin

text \<open>
  What the statements of the wallet database do, without strings, columns and failures: pure
  updates of the rows with one key, the well-formedness of the tables, and one proof rule
  for each repository operation that turns its success into such an update.
\<close>

section \<open>Updates by key\<close>

definition upd :: "('r \<Rightarrow> uuid) \<Rightarrow> uuid \<Rightarrow> ('r \<Rightarrow> 'r) \<Rightarrow> 'r list \<Rightarrow> 'r list" where
  "upd key i f rs = map (\<lambda>r. if key r = i then f r else r) rs"

lemma upd_split:
  assumes "distinct (map key (xs @ r # ys))" and "key r = i"
  shows "upd key i f (xs @ r # ys) = xs @ f r # ys"
proof -
  have "map (\<lambda>r. if key r = i then f r else r) zs = zs" if "i \<notin> set (map key zs)" for zs
    using that by (induction zs) auto
  moreover have "i \<notin> set (map key xs)" "i \<notin> set (map key ys)" using assms by auto
  ultimately show ?thesis using assms(2) by (simp add: upd_def)
qed

lemma upd_keys: "(\<And>r. k' (f r) = k' r) \<Longrightarrow> map k' (upd key i f rs) = map k' rs"
  by (induction rs) (auto simp: upd_def)

lemma upd_in: "r \<in> set rs \<Longrightarrow> key r = i \<Longrightarrow> f r \<in> set (upd key i f rs)"
  by (force simp: upd_def)

lemma upd_other: "r \<in> set rs \<Longrightarrow> key r \<noteq> i \<Longrightarrow> r \<in> set (upd key i f rs)"
  by (force simp: upd_def)

lemma set_updE:
  assumes "x \<in> set (upd key i f rs)"
  obtains "x \<in> set rs" "key x \<noteq> i" | r where "r \<in> set rs" "key r = i" "x = f r"
  using assms by (auto simp: upd_def split: if_splits)

text \<open>The change of a sum over the rows.\<close>

lemma sum_upd:
  assumes "distinct (map key rs)" and "r \<in> set rs" and "key r = i"
  shows "sum_list (map g (upd key i f rs)) = sum_list (map g rs) - g r + (g (f r) :: 'd :: ab_group_add)"
proof -
  from assms(2) obtain xs ys where rs: "rs = xs @ r # ys" by (auto simp: in_set_conv_decomp)
  from upd_split[OF assms(1)[unfolded rs] assms(3), of f] show ?thesis unfolding rs by simp
qed

lemma key_unique: "distinct (map key rs) \<Longrightarrow> r \<in> set rs \<Longrightarrow> s \<in> set rs \<Longrightarrow> key r = key s \<Longrightarrow> r = s"
  by (meson distinct_map inj_on_def)

definition onWallet :: "uuid \<Rightarrow> ('d wallet_row \<Rightarrow> 'd wallet_row) \<Rightarrow> 'd wallet_db \<Rightarrow> 'd wallet_db" where
  "onWallet i f db = db\<lparr>db_wallets := upd w_ID i f (db_wallets db)\<rparr>"

definition onReservation :: "uuid \<Rightarrow> ('d reservation_row \<Rightarrow> 'd reservation_row) \<Rightarrow> 'd wallet_db \<Rightarrow> 'd wallet_db" where
  "onReservation i f db = db\<lparr>db_reservations := upd r_ID i f (db_reservations db)\<rparr>"

definition addReservation :: "'d reservation_row \<Rightarrow> 'd wallet_db \<Rightarrow> 'd wallet_db" where
  "addReservation r db = db\<lparr>db_reservations := db_reservations db @ [r]\<rparr>"

definition addLedger :: "'d ledger_row list \<Rightarrow> 'd wallet_db \<Rightarrow> 'd wallet_db" where
  "addLedger ls db = db\<lparr>db_ledger := db_ledger db @ ls\<rparr>"

definition addSettled :: "settled_row \<Rightarrow> 'd wallet_db \<Rightarrow> 'd wallet_db" where
  "addSettled x db = db\<lparr>db_settled := db_settled db @ [x]\<rparr>"

definition addOutbox :: "wallet_payload outbox_row list \<Rightarrow> 'd wallet_db \<Rightarrow> 'd wallet_db" where
  "addOutbox xs db = db\<lparr>db_outbox := db_outbox db @ xs\<rparr>"

lemmas effect_defs = onWallet_def onReservation_def addReservation_def addLedger_def addSettled_def addOutbox_def

lemma db_effects [simp]:
  "db_wallets (onReservation j h db) = db_wallets db" "db_wallets (addReservation r db) = db_wallets db"
  "db_wallets (addLedger ls db) = db_wallets db" "db_wallets (addSettled x db) = db_wallets db"
  "db_wallets (addOutbox xs db) = db_wallets db"
  "db_wallets (onWallet i f db) = upd w_ID i f (db_wallets db)"
  "db_reservations (onWallet i f db) = db_reservations db"
  "db_reservations (onReservation j h db) = upd r_ID j h (db_reservations db)"
  "db_reservations (addReservation r db) = db_reservations db @ [r]"
  "db_reservations (addLedger ls db) = db_reservations db" "db_reservations (addSettled x db) = db_reservations db"
  "db_reservations (addOutbox xs db) = db_reservations db"
  "db_ledger (onWallet i f db) = db_ledger db" "db_ledger (onReservation j h db) = db_ledger db"
  "db_ledger (addReservation r db) = db_ledger db" "db_ledger (addLedger ls db) = db_ledger db @ ls"
  "db_ledger (addSettled x db) = db_ledger db" "db_ledger (addOutbox xs db) = db_ledger db"
  "db_settled (onWallet i f db) = db_settled db" "db_settled (onReservation j h db) = db_settled db"
  "db_settled (addReservation r db) = db_settled db" "db_settled (addLedger ls db) = db_settled db"
  "db_settled (addSettled x db) = db_settled db @ [x]" "db_settled (addOutbox xs db) = db_settled db"
  "db_assets (onWallet i f db) = db_assets db" "db_assets (onReservation j h db) = db_assets db"
  "db_assets (addReservation r db) = db_assets db" "db_assets (addLedger ls db) = db_assets db"
  "db_assets (addSettled x db) = db_assets db" "db_assets (addOutbox xs db) = db_assets db"
  "db_outbox (onWallet i f db) = db_outbox db" "db_outbox (onReservation j h db) = db_outbox db"
  "db_outbox (addReservation r db) = db_outbox db" "db_outbox (addLedger ls db) = db_outbox db"
  "db_outbox (addSettled x db) = db_outbox db" "db_outbox (addOutbox xs db) = db_outbox db @ xs"
  by (simp_all add: effect_defs)

section \<open>Well-formed tables\<close>

definition wallet_row_ok :: "('d::linordered_idom) set \<Rightarrow> 'd wallet_row \<Rightarrow> bool" where
  "wallet_row_ok T r \<longleftrightarrow>
     w_Available r \<in> T \<and> w_Reserved r \<in> T \<and> w_Initial r \<in> T \<and>
     0 \<le> w_Available r \<and> 0 \<le> w_Reserved r \<and> w_Total r = w_Available r + w_Reserved r"

definition reservation_row_ok :: "('d::linordered_idom) set \<Rightarrow> 'd reservation_row \<Rightarrow> bool" where
  "reservation_row_ok T r \<longleftrightarrow>
     r_Reserved r \<in> T \<and> r_Consumed r \<in> T \<and> r_Remaining r \<in> T \<and>
     0 < r_Reserved r \<and> 0 \<le> r_Consumed r \<and> 0 \<le> r_Remaining r"

definition rows_ok :: "('d::linordered_idom) set \<Rightarrow> 'd wallet_db \<Rightarrow> bool" where
  "rows_ok T db \<longleftrightarrow>
     distinct (map w_ID (db_wallets db)) \<and>
     distinct (map (\<lambda>r. (w_UserID r, w_Asset r)) (db_wallets db)) \<and>
     (\<forall>r\<in>set (db_wallets db). wallet_row_ok T r) \<and>
     distinct (map r_ID (db_reservations db)) \<and> distinct (map r_OrderID (db_reservations db)) \<and>
     (\<forall>r\<in>set (db_reservations db). reservation_row_ok T r)"

text \<open>What a change of a wallet row may touch.\<close>

definition wallet_change :: "('d wallet_row \<Rightarrow> 'd wallet_row) \<Rightarrow> bool" where
  "wallet_change f \<longleftrightarrow> (\<forall>r. w_ID (f r) = w_ID r \<and> w_UserID (f r) = w_UserID r \<and> w_Asset (f r) = w_Asset r)"

definition reservation_change :: "('d reservation_row \<Rightarrow> 'd reservation_row) \<Rightarrow> bool" where
  "reservation_change f \<longleftrightarrow>
     (\<forall>r. r_ID (f r) = r_ID r \<and> r_OrderID (f r) = r_OrderID r \<and> r_UserID (f r) = r_UserID r \<and>
          r_Asset (f r) = r_Asset r \<and> r_Reserved (f r) = r_Reserved r)"

lemma storeWallet_exact:
  assumes "wlib_ok W T" and "storeWallet W r = Inr r'"
    and "w_Available r \<in> T" "w_Reserved r \<in> T" "w_Initial r \<in> T" "w_Total r \<in> T"
  shows "r' = r \<and> wallet_row_ok T r"
proof -
  have e: "y = x" if "p_column W x = Some y" "x \<in> T" for x y
    using wlib_okD(13)[OF assms(1)] that by blast
  from assms(2) obtain a v i t where p: "p_column W (w_Available r) = Some a" "p_column W (w_Reserved r) = Some v"
    "p_column W (w_Initial r) = Some i" "p_column W (w_Total r) = Some t"
    and r': "0 \<le> a" "0 \<le> v" "t = a + v" "r' = r\<lparr>w_Available := a, w_Reserved := v, w_Initial := i, w_Total := t\<rparr>"
    by (auto simp: storeWallet_def split: option.splits if_splits)
  have q: "a = w_Available r" "v = w_Reserved r" "i = w_Initial r" "t = w_Total r"
    using e[OF p(1) assms(3)] e[OF p(2) assms(4)] e[OF p(3) assms(5)] e[OF p(4) assms(6)] by auto
  from r' assms(3-6) show ?thesis unfolding q by (simp add: wallet_row_ok_def)
qed

lemma storeReservation_exact:
  assumes "wlib_ok W T" and "storeReservation W r = Inr r'"
    and "r_Reserved r \<in> T" "r_Consumed r \<in> T" "r_Remaining r \<in> T"
  shows "r' = r \<and> reservation_row_ok T r"
proof -
  have e: "y = x" if "p_column W x = Some y" "x \<in> T" for x y
    using wlib_okD(13)[OF assms(1)] that by blast
  from assms(2) obtain v c m where p: "p_column W (r_Reserved r) = Some v" "p_column W (r_Consumed r) = Some c"
    "p_column W (r_Remaining r) = Some m"
    and r': "0 < v" "0 \<le> c" "0 \<le> m" "r' = r\<lparr>r_Reserved := v, r_Consumed := c, r_Remaining := m\<rparr>"
    by (auto simp: storeReservation_def split: option.splits if_splits)
  have q: "v = r_Reserved r" "c = r_Consumed r" "m = r_Remaining r"
    using e[OF p(1) assms(3)] e[OF p(2) assms(4)] e[OF p(3) assms(5)] by auto
  from r' assms(3-5) show ?thesis unfolding q by (simp add: reservation_row_ok_def)
qed

text \<open>A wallet update that affected a row is an exact update of the row with that ID.\<close>

lemma updateWallets_exact:
  assumes W: "wlib_ok W T" and ok: "rows_ok T db" and ch: "wallet_change f"
    and T: "\<And>r. wallet_row_ok T r \<Longrightarrow> w_Available (f r) \<in> T \<and> w_Reserved (f r) \<in> T \<and> w_Initial (f r) \<in> T \<and> w_Total (f r) \<in> T"
    and s: "updateWallets W wid guard f db = Inr (n, db')" "n \<noteq> 0"
  obtains i r where "p_uuid W wid = Some i" "r \<in> set (db_wallets db)" "w_ID r = i" "guard r"
    "wallet_row_ok T (f r)" "db' = onWallet i f db" "rows_ok T (onWallet i f db)"
proof -
  from s obtain i rows where i: "p_uuid W wid = Some i"
    and u: "update_rows (\<lambda>r. w_ID r = i \<and> guard r) (\<lambda>r. storeWallet W (f r)) (db_wallets db) = Inr (rows, n)"
    and db': "db' = db\<lparr>db_wallets := rows\<rparr>"
    by (auto simp: updateWallets_def split: option.splits sum.splits)
  have dist: "distinct (map w_ID (db_wallets db))" using ok by (simp add: rows_ok_def)
  obtain xs r r' ys where *: "db_wallets db = xs @ r # ys" "rows = xs @ r' # ys"
    "w_ID r = i \<and> guard r" "w_ID r = i" "storeWallet W (f r) = Inr r'"
    by (rule update_rows_key[OF u s(2) dist, where k = i]) (erule conjunct1, (rule that; assumption))
  have r: "r \<in> set (db_wallets db)" using *(1) by simp
  with ok have rok: "wallet_row_ok T r" by (simp add: rows_ok_def)
  from storeWallet_exact[OF W *(5)] T[OF rok] have r': "r' = f r" and fok: "wallet_row_ok T (f r)" by auto
  have rows: "rows = upd w_ID i f (db_wallets db)"
    using upd_split[of w_ID xs r ys i f] dist *(1,2,4) r' by simp
  then have e: "db' = onWallet i f db" by (simp add: db' onWallet_def)
  have keys: "map w_ID (upd w_ID i f (db_wallets db)) = map w_ID (db_wallets db)"
    "map (\<lambda>r. (w_UserID r, w_Asset r)) (upd w_ID i f (db_wallets db)) = map (\<lambda>r. (w_UserID r, w_Asset r)) (db_wallets db)"
    using ch by (auto intro!: upd_keys simp: wallet_change_def)
  have "\<forall>x\<in>set (upd w_ID i f (db_wallets db)). wallet_row_ok T x"
    using ok fok unfolding rows[symmetric] *(2) r' by (auto simp: rows_ok_def *(1))
  with keys ok have "rows_ok T (onWallet i f db)" unfolding rows_ok_def by simp
  from that[OF i r *(4) _ fok e this] *(3) show thesis by blast
qed

lemma updateReservations_exact:
  assumes W: "wlib_ok W T" and ok: "rows_ok T db" and ch: "reservation_change f"
    and T: "\<And>r. reservation_row_ok T r \<Longrightarrow> r_Consumed (f r) \<in> T \<and> r_Remaining (f r) \<in> T"
    and s: "updateReservations W rid guard f db = Inr (n, db')" "n \<noteq> 0"
  obtains i r where "p_uuid W rid = Some i" "r \<in> set (db_reservations db)" "r_ID r = i" "guard r"
    "reservation_row_ok T (f r)" "db' = onReservation i f db" "rows_ok T (onReservation i f db)"
proof -
  from s obtain i rows where i: "p_uuid W rid = Some i"
    and u: "update_rows (\<lambda>r. r_ID r = i \<and> guard r) (\<lambda>r. storeReservation W (f r)) (db_reservations db) = Inr (rows, n)"
    and db': "db' = db\<lparr>db_reservations := rows\<rparr>"
    by (auto simp: updateReservations_def split: option.splits sum.splits)
  have dist: "distinct (map r_ID (db_reservations db))" using ok by (simp add: rows_ok_def)
  obtain xs r r' ys where *: "db_reservations db = xs @ r # ys" "rows = xs @ r' # ys"
    "r_ID r = i \<and> guard r" "r_ID r = i" "storeReservation W (f r) = Inr r'"
    by (rule update_rows_key[OF u s(2) dist, where k = i]) (erule conjunct1, (rule that; assumption))
  have r: "r \<in> set (db_reservations db)" using *(1) by simp
  with ok have rok: "reservation_row_ok T r" by (simp add: rows_ok_def)
  then have "r_Reserved (f r) \<in> T" using ch by (simp add: reservation_change_def reservation_row_ok_def)
  with storeReservation_exact[OF W *(5)] T[OF rok] have r': "r' = f r" and fok: "reservation_row_ok T (f r)" by auto
  have rows: "rows = upd r_ID i f (db_reservations db)"
    using upd_split[of r_ID xs r ys i f] dist *(1,2,4) r' by simp
  then have e: "db' = onReservation i f db" by (simp add: db' onReservation_def)
  have keys: "map r_ID (upd r_ID i f (db_reservations db)) = map r_ID (db_reservations db)"
    "map r_OrderID (upd r_ID i f (db_reservations db)) = map r_OrderID (db_reservations db)"
    using ch by (auto intro!: upd_keys simp: reservation_change_def)
  have "\<forall>x\<in>set (upd r_ID i f (db_reservations db)). reservation_row_ok T x"
    using ok fok unfolding rows[symmetric] *(2) r' by (auto simp: rows_ok_def *(1))
  with keys ok have "rows_ok T (onReservation i f db)" unfolding rows_ok_def by simp
  from that[OF i r *(4) _ fok e this] *(3) show thesis by blast
qed


section \<open>Movements of one row\<close>

definition credited :: "('d::linordered_idom) \<Rightarrow> 'd wallet_row \<Rightarrow> 'd wallet_row" where
  "credited x r = r\<lparr>w_Available := w_Available r + x, w_Total := w_Total r + x\<rparr>"

definition debited :: "('d::linordered_idom) \<Rightarrow> 'd wallet_row \<Rightarrow> 'd wallet_row" where
  "debited x r = r\<lparr>w_Available := w_Available r - x, w_Total := w_Total r - x\<rparr>"

definition reserved :: "('d::linordered_idom) \<Rightarrow> 'd wallet_row \<Rightarrow> 'd wallet_row" where
  "reserved x r = r\<lparr>w_Available := w_Available r - x, w_Reserved := w_Reserved r + x\<rparr>"

definition unreserved :: "('d::linordered_idom) \<Rightarrow> 'd wallet_row \<Rightarrow> 'd wallet_row" where
  "unreserved x r = r\<lparr>w_Reserved := w_Reserved r - x, w_Available := w_Available r + x\<rparr>"

definition spent :: "('d::linordered_idom) \<Rightarrow> 'd wallet_row \<Rightarrow> 'd wallet_row" where
  "spent x r = r\<lparr>w_Reserved := w_Reserved r - x, w_Total := w_Total r - x\<rparr>"

definition frozenTo :: "bool \<Rightarrow> string option \<Rightarrow> string option \<Rightarrow> 'd wallet_row \<Rightarrow> 'd wallet_row" where
  "frozenTo b by reason r = r\<lparr>w_IsFrozen := b, w_FrozenBy := by, w_FreezeReason := reason\<rparr>"

definition consumed :: "('d::linordered_idom) \<Rightarrow> 'd reservation_row \<Rightarrow> 'd reservation_row" where
  "consumed x r = r\<lparr>r_Consumed := r_Consumed r + x, r_Remaining := r_Remaining r - x,
     r_Status := (if r_Remaining r - x \<le> 0 then ReservationConsumed else ReservationPartiallyConsumed)\<rparr>"

definition released :: "'d reservation_row \<Rightarrow> 'd reservation_row" where
  "released r = r\<lparr>r_Status := ReservationReleased\<rparr>"

lemmas movement_defs = credited_def debited_def reserved_def unreserved_def spent_def frozenTo_def

lemma wallet_changes [simp]:
  "wallet_change (credited x)" "wallet_change (debited x)" "wallet_change (reserved x)"
  "wallet_change (unreserved x)" "wallet_change (spent x)" "wallet_change (frozenTo b by reason)"
  by (simp_all add: wallet_change_def movement_defs)

lemma reservation_changes [simp]: "reservation_change (consumed x)" "reservation_change released"
  by (simp_all add: reservation_change_def consumed_def released_def)

definition live :: "'d reservation_row \<Rightarrow> bool" where
  "live r \<longleftrightarrow> r_Status r \<noteq> ReservationReleased"

text \<open>Where a row of an updated table comes from.\<close>

lemma wallet_traced:
  assumes "wallet_change f" and "r \<in> set (upd w_ID i f rows)"
  obtains r0 where "r0 \<in> set rows" "w_ID r0 = w_ID r" "w_UserID r0 = w_UserID r" "w_Asset r0 = w_Asset r"
  using assms(2)
proof (cases rule: set_updE)
  case 1
  then show thesis by (intro that[of r]) auto
next
  case (2 r0)
  with assms(1) show thesis by (intro that[of r0]) (auto simp: wallet_change_def)
qed

lemma reservation_traced:
  assumes "r \<in> set (upd r_ID i (consumed x) rows)"
  obtains r0 where "r0 \<in> set rows" "r_ID r0 = r_ID r" "r_UserID r0 = r_UserID r" "r_Asset r0 = r_Asset r"
    "live r0 \<Longrightarrow> live r"
  using assms
proof (cases rule: set_updE)
  case 1
  then show thesis by (intro that[of r]) auto
next
  case (2 r0)
  then show thesis by (intro that[of r0]) (auto simp: consumed_def live_def)
qed

section \<open>The abstract system\<close>

text \<open>
  One leg of a settlement: the payer pays from its reserved balance and the reservation of
  the given order, the market maker, without an order here, from its available balance.
\<close>

inductive leg :: "('d::linordered_idom) set \<Rightarrow> uuid option \<Rightarrow> 'd wallet_row \<Rightarrow> 'd wallet_row \<Rightarrow> 'd \<Rightarrow>
    'd wallet_db \<Rightarrow> 'd wallet_db \<Rightarrow> bool" for T where
  market_maker: "payer \<in> set (db_wallets db) \<Longrightarrow> x \<in> T \<Longrightarrow> x \<le> w_Available payer \<Longrightarrow>
    payee \<in> set (db_wallets (onWallet (w_ID payer) (debited x) db)) \<Longrightarrow> w_Asset payee = w_Asset payer \<Longrightarrow>
    leg T None payer payee x db (onWallet (w_ID payee) (credited x) (onWallet (w_ID payer) (debited x) db))"
| reservation: "payer \<in> set (db_wallets db) \<Longrightarrow> x \<in> T \<Longrightarrow> x \<le> w_Reserved payer \<Longrightarrow>
    r \<in> set (db_reservations db) \<Longrightarrow> live r \<Longrightarrow> r_UserID r = w_UserID payer \<Longrightarrow> r_Asset r = w_Asset payer \<Longrightarrow>
    x \<le> r_Remaining r \<Longrightarrow>
    payee \<in> set (db_wallets (onWallet (w_ID payer) (spent x) db)) \<Longrightarrow> w_Asset payee = w_Asset payer \<Longrightarrow>
    leg T (Some (r_OrderID r)) payer payee x db
      (onWallet (w_ID payee) (credited x) (onReservation (r_ID r) (consumed x) (onWallet (w_ID payer) (spent x) db)))"

definition settleEntry :: "uuid \<Rightarrow> uuid \<Rightarrow> 'd wallet_row \<Rightarrow> txn_type \<Rightarrow> 'd \<Rightarrow> 'd ledger_row" where
  "settleEntry i tr w ty x =
     \<lparr>t_ID = i, t_WalletID = w_ID w, t_ReferenceID = tr, t_ReferenceType = ''SETTLEMENT'', t_Type = ty,
      t_Asset = w_Asset w, t_Amount = x\<rparr>"

text \<open>
  The steps of the wallets. \<open>D\<close> are the reference types deposits may use.
\<close>

inductive wallet_step :: "('d::linordered_idom) set \<Rightarrow> string set \<Rightarrow> 'd wallet_db \<Rightarrow> 'd wallet_db \<Rightarrow> bool" for T D where
  reserve: "w \<in> set (db_wallets db) \<Longrightarrow> \<not> w_IsFrozen w \<Longrightarrow> x \<in> T \<Longrightarrow> 0 < x \<Longrightarrow> x \<le> w_Available w \<Longrightarrow>
    \<forall>r\<in>set (db_reservations db). r_OrderID r \<noteq> ord \<and> r_ID r \<noteq> rid \<Longrightarrow>
    wallet_step T D db
      (addLedger [\<lparr>t_ID = tid, t_WalletID = w_ID w, t_ReferenceID = ord, t_ReferenceType = ''RESERVATION'',
                   t_Type = TxnTypeDebit, t_Asset = w_Asset w, t_Amount = x\<rparr>]
       (addReservation \<lparr>r_ID = rid, r_OrderID = ord, r_UserID = w_UserID w, r_Asset = w_Asset w, r_Reserved = x,
                        r_Consumed = 0, r_Remaining = x, r_Status = ReservationActive\<rparr>
        (onWallet (w_ID w) (reserved x) db)))"
| release_empty: "r \<in> set (db_reservations db) \<Longrightarrow> live r \<Longrightarrow> r_Remaining r \<le> 0 \<Longrightarrow>
    wallet_step T D db (onReservation (r_ID r) released db)"
| release: "r \<in> set (db_reservations db) \<Longrightarrow> live r \<Longrightarrow> 0 < r_Remaining r \<Longrightarrow>
    w \<in> set (db_wallets db) \<Longrightarrow> w_UserID w = r_UserID r \<Longrightarrow> w_Asset w = r_Asset r \<Longrightarrow>
    r_Remaining r \<le> w_Reserved w \<Longrightarrow>
    wallet_step T D db
      (addLedger [\<lparr>t_ID = tid, t_WalletID = w_ID w, t_ReferenceID = r_OrderID r, t_ReferenceType = ''RELEASE'',
                   t_Type = TxnTypeCredit, t_Asset = r_Asset r, t_Amount = r_Remaining r\<rparr>]
       (onReservation (r_ID r) released (onWallet (w_ID w) (unreserved (r_Remaining r)) db)))"
| settle: "\<forall>x\<in>set (db_settled db). s_TradeID x \<noteq> tr \<and> (s_MarketID x \<noteq> mk \<or> s_Sequence x \<noteq> sq) \<Longrightarrow>
    0 < x \<Longrightarrow> 0 < y \<Longrightarrow> leg T sSrc sb bb x (addSettled \<lparr>s_TradeID = tr, s_MarketID = mk, s_Sequence = sq\<rparr> db) d1 \<Longrightarrow>
    leg T bSrc bq sq' y d1 d2 \<Longrightarrow>
    wallet_step T D db (addOutbox evs (addLedger
      [settleEntry i1 tr sb TxnTypeDebit x, settleEntry i2 tr bb TxnTypeCredit x,
       settleEntry i3 tr bq TxnTypeDebit y, settleEntry i4 tr sq' TxnTypeCredit y] d2))"
| deposit: "w \<in> set (db_wallets db) \<Longrightarrow> \<not> w_IsFrozen w \<Longrightarrow> x \<in> T \<Longrightarrow> 0 < x \<Longrightarrow> ty \<in> D \<Longrightarrow>
    \<forall>l\<in>set (db_ledger db). \<not> (t_WalletID l = w_ID w \<and> t_ReferenceID l = ref \<and> t_ReferenceType l = ty) \<Longrightarrow>
    wallet_step T D db
      (addLedger [\<lparr>t_ID = tid, t_WalletID = w_ID w, t_ReferenceID = ref, t_ReferenceType = ty,
                   t_Type = TxnTypeCredit, t_Asset = w_Asset w, t_Amount = x\<rparr>]
        (onWallet (w_ID w) (credited x) db))"
| freeze: "w \<in> set (db_wallets db) \<Longrightarrow> wallet_step T D db (onWallet (w_ID w) (frozenTo b by reason) db)"
| create: "wallet_row_ok T w \<Longrightarrow> w_Reserved w = 0 \<Longrightarrow> w_Initial w = w_Available w \<Longrightarrow>
    \<forall>r\<in>set (db_wallets db). w_ID r \<noteq> w_ID w \<and> (w_UserID r \<noteq> w_UserID w \<or> w_Asset r \<noteq> w_Asset w) \<Longrightarrow>
    ls = [] \<and> w_Available w = 0 \<or>
    ls = [\<lparr>t_ID = tid, t_WalletID = w_ID w, t_ReferenceID = ref, t_ReferenceType = ''INITIAL_ALLOCATION'',
           t_Type = TxnTypeCredit, t_Asset = w_Asset w, t_Amount = w_Available w\<rparr>] \<Longrightarrow>
    wallet_step T D db (addLedger ls (db\<lparr>db_wallets := db_wallets db @ [w]\<rparr>))"

inductive_cases legE: "leg T src payer payee x db db'"

lemmas leg_cases = legE [consumes 1, case_names market_maker reservation]

section \<open>The invariant\<close>

definition lifecycle_ok :: "('d::linordered_idom) reservation_row \<Rightarrow> bool" where
  "lifecycle_ok r \<longleftrightarrow>
     r_Reserved r = r_Consumed r + r_Remaining r \<and>
     (r_Status r = ReservationActive \<longrightarrow> r_Consumed r = 0) \<and>
     (r_Status r = ReservationPartiallyConsumed \<longrightarrow> 0 < r_Consumed r \<and> 0 < r_Remaining r) \<and>
     (r_Status r = ReservationConsumed \<longrightarrow> r_Remaining r = 0)"

definition openShare :: "uuid \<Rightarrow> string \<Rightarrow> ('d::linordered_idom) reservation_row \<Rightarrow> 'd" where
  "openShare u a r = (if r_UserID r = u \<and> r_Asset r = a \<and> live r then r_Remaining r else 0)"

text \<open>What the open reservations of a user still hold of an asset.\<close>

definition openAmount :: "uuid \<Rightarrow> string \<Rightarrow> ('d::linordered_idom) wallet_db \<Rightarrow> 'd" where
  "openAmount u a db = sum_list (map (openShare u a) (db_reservations db))"

text \<open>What the wallet of a user holds in reserve of an asset, zero without a wallet.\<close>

definition reservedOf :: "uuid \<Rightarrow> string \<Rightarrow> ('d::linordered_idom) wallet_db \<Rightarrow> 'd" where
  "reservedOf u a db =
     sum_list (map (\<lambda>w. if w_UserID w = u \<and> w_Asset w = a then w_Reserved w else 0) (db_wallets db))"

definition backed :: "('d::linordered_idom) wallet_db \<Rightarrow> bool" where
  "backed db \<longleftrightarrow> (\<forall>u a. reservedOf u a db = openAmount u a db)"

definition wallet_ok :: "('d::linordered_idom) set \<Rightarrow> 'd wallet_db \<Rightarrow> bool" where
  "wallet_ok T db \<longleftrightarrow> rows_ok T db \<and> (\<forall>r\<in>set (db_reservations db). lifecycle_ok r) \<and> backed db"

text \<open>All of an asset that the wallets hold.\<close>

definition holdings :: "string \<Rightarrow> ('d::linordered_idom) wallet_db \<Rightarrow> 'd" where
  "holdings a db = sum_list (map (\<lambda>w. if w_Asset w = a then w_Total w else 0) (db_wallets db))"

lemma rows_okD:
  assumes "rows_ok T db"
  shows "distinct (map w_ID (db_wallets db))"
    and "distinct (map (\<lambda>r. (w_UserID r, w_Asset r)) (db_wallets db))"
    and "r \<in> set (db_wallets db) \<Longrightarrow> wallet_row_ok T r"
    and "distinct (map r_ID (db_reservations db))" and "distinct (map r_OrderID (db_reservations db))"
    and "v \<in> set (db_reservations db) \<Longrightarrow> reservation_row_ok T v"
  using assms by (auto simp: rows_ok_def)

lemma wallet_unique:
  assumes "rows_ok T db" and "w \<in> set (db_wallets db)" and "w' \<in> set (db_wallets db)"
    and "w_UserID w = w_UserID w'" and "w_Asset w = w_Asset w'"
  shows "w = w'"
  using key_unique[OF rows_okD(2)[OF assms(1)] assms(2,3)] assms(4,5) by simp

lemma rows_ok_onWallet:
  assumes "rows_ok T db" and "wallet_change f" and "r \<in> set (db_wallets db)" and "wallet_row_ok T (f r)"
  shows "rows_ok T (onWallet (w_ID r) f db)"
proof -
  have keys: "map w_ID (upd w_ID (w_ID r) f (db_wallets db)) = map w_ID (db_wallets db)"
    "map (\<lambda>r. (w_UserID r, w_Asset r)) (upd w_ID (w_ID r) f (db_wallets db)) = map (\<lambda>r. (w_UserID r, w_Asset r)) (db_wallets db)"
    using assms(2) by (auto intro!: upd_keys simp: wallet_change_def)
  have "wallet_row_ok T x" if "x \<in> set (upd w_ID (w_ID r) f (db_wallets db))" for x
    using that
  proof (cases rule: set_updE)
    case 1
    with assms(1) show ?thesis by (simp add: rows_okD)
  next
    case (2 r0)
    with key_unique[OF rows_okD(1)[OF assms(1)] _ assms(3)] assms(4) show ?thesis by auto
  qed
  with keys assms(1) show ?thesis by (simp add: rows_ok_def)
qed

lemma rows_ok_onReservation:
  assumes "rows_ok T db" and "reservation_change f" and "r \<in> set (db_reservations db)" and "reservation_row_ok T (f r)"
  shows "rows_ok T (onReservation (r_ID r) f db)"
proof -
  have keys: "map r_ID (upd r_ID (r_ID r) f (db_reservations db)) = map r_ID (db_reservations db)"
    "map r_OrderID (upd r_ID (r_ID r) f (db_reservations db)) = map r_OrderID (db_reservations db)"
    using assms(2) by (auto intro!: upd_keys simp: reservation_change_def)
  have "reservation_row_ok T x" if "x \<in> set (upd r_ID (r_ID r) f (db_reservations db))" for x
    using that
  proof (cases rule: set_updE)
    case 1
    with assms(1) show ?thesis by (simp add: rows_okD)
  next
    case (2 r0)
    with key_unique[OF rows_okD(4)[OF assms(1)] _ assms(3)] assms(4) show ?thesis by auto
  qed
  with keys assms(1) show ?thesis by (simp add: rows_ok_def)
qed

lemma openAmount_onReservation:
  assumes "rows_ok T db" and "r \<in> set (db_reservations db)"
  shows "openAmount u a (onReservation (r_ID r) f db) = openAmount u a db - openShare u a r + openShare u a (f r)"
  by (simp add: openAmount_def sum_upd[OF rows_okD(4)[OF assms(1)] assms(2) refl])

lemma openAmount_simps [simp]:
  "openAmount u a (onWallet i g db) = openAmount u a db" "openAmount u a (addLedger ls db) = openAmount u a db"
  "openAmount u a (addSettled x db) = openAmount u a db" "openAmount u a (addOutbox xs db) = openAmount u a db"
  "openAmount u a (addReservation r db) = openAmount u a db + openShare u a r"
  by (simp_all add: openAmount_def)

lemma reservedOf_onWallet:
  assumes "rows_ok T db" and "w \<in> set (db_wallets db)" and "wallet_change f"
  shows "reservedOf u a (onWallet (w_ID w) f db) =
    reservedOf u a db + (if w_UserID w = u \<and> w_Asset w = a then w_Reserved (f w) - w_Reserved w else 0)"
  using sum_upd[OF rows_okD(1)[OF assms(1)] assms(2) refl,
      of "\<lambda>w. if w_UserID w = u \<and> w_Asset w = a then w_Reserved w else 0" f] assms(3)
  by (simp add: reservedOf_def wallet_change_def)

lemma reservedOf_simps [simp]:
  "reservedOf u a (onReservation j h db) = reservedOf u a db" "reservedOf u a (addLedger ls db) = reservedOf u a db"
  "reservedOf u a (addSettled x db) = reservedOf u a db" "reservedOf u a (addOutbox xs db) = reservedOf u a db"
  "reservedOf u a (addReservation r db) = reservedOf u a db"
  by (simp_all add: reservedOf_def)

text \<open>A user has one wallet per asset, so the sum is that wallet's balance.\<close>

lemma reservedOf_row:
  assumes "rows_ok T db" and "w \<in> set (db_wallets db)"
  shows "reservedOf (w_UserID w) (w_Asset w) db = w_Reserved w"
proof -
  from assms(2) obtain xs ys where rows: "db_wallets db = xs @ w # ys" by (auto simp: in_set_conv_decomp)
  have z: "sum_list (map (\<lambda>v. if w_UserID v = w_UserID w \<and> w_Asset v = w_Asset w then w_Reserved v else 0) zs) = 0"
    if "(w_UserID w, w_Asset w) \<notin> set (map (\<lambda>r. (w_UserID r, w_Asset r)) zs)" for zs
    using that by (induction zs) auto
  from rows_okD(2)[OF assms(1)] have "(w_UserID w, w_Asset w) \<notin> set (map (\<lambda>r. (w_UserID r, w_Asset r)) xs)"
    "(w_UserID w, w_Asset w) \<notin> set (map (\<lambda>r. (w_UserID r, w_Asset r)) ys)" by (auto simp: rows)
  from z[OF this(1)] z[OF this(2)] show ?thesis by (simp add: reservedOf_def rows)
qed

lemma holdings_onWallet:
  assumes "rows_ok T db" and "w \<in> set (db_wallets db)" and "wallet_change f"
  shows "holdings a (onWallet (w_ID w) f db) =
    holdings a db + (if w_Asset w = a then w_Total (f w) - w_Total w else 0)"
  using sum_upd[OF rows_okD(1)[OF assms(1)] assms(2) refl, of "\<lambda>w. if w_Asset w = a then w_Total w else 0" f] assms(3)
  by (simp add: holdings_def wallet_change_def)

lemma holdings_simps [simp]:
  "holdings a (onReservation j h db) = holdings a db" "holdings a (addLedger ls db) = holdings a db"
  "holdings a (addSettled x db) = holdings a db" "holdings a (addOutbox xs db) = holdings a db"
  "holdings a (addReservation r db) = holdings a db"
  by (simp_all add: holdings_def)

end
