(* ===== verification/WalletStep.thy ===== *)
theory WalletStep
  imports WalletSpec
begin

text \<open>
  The invariant of the abstract wallets: every step keeps the rows well-formed, the life
  cycle of the reservations, and the reserve of each wallet equal to what its open
  reservations hold; and what the steps do to the holdings of an asset and to the ledger.
\<close>

definition places_closed :: "('d::linordered_idom) set \<Rightarrow> bool" where
  "places_closed T \<longleftrightarrow> 0 \<in> T \<and> (\<forall>x\<in>T. \<forall>y\<in>T. x + y \<in> T \<and> x - y \<in> T)"

lemma wlib_places: "wlib_ok W T \<Longrightarrow> places_closed T"
  unfolding wlib_ok_def places_closed_def by blast

section \<open>One row\<close>

lemma row_movements:
  assumes "places_closed T" and "wallet_row_ok T w" and "x \<in> T" and "0 \<le> x"
  shows "wallet_row_ok T (credited x w)"
    and "x \<le> w_Available w \<Longrightarrow> wallet_row_ok T (debited x w)"
    and "x \<le> w_Available w \<Longrightarrow> wallet_row_ok T (reserved x w)"
    and "x \<le> w_Reserved w \<Longrightarrow> wallet_row_ok T (unreserved x w)"
    and "x \<le> w_Reserved w \<Longrightarrow> wallet_row_ok T (spent x w)"
  using assms by (auto simp: wallet_row_ok_def movement_defs places_closed_def)

lemma row_consumed:
  assumes "places_closed T" and "reservation_row_ok T r" and "x \<in> T" and "0 \<le> x" and "x \<le> r_Remaining r"
  shows "reservation_row_ok T (consumed x r)"
  using assms by (auto simp: reservation_row_ok_def consumed_def places_closed_def)

lemma row_released: "reservation_row_ok T r \<Longrightarrow> reservation_row_ok T (released r)"
  by (simp add: reservation_row_ok_def released_def)

lemma lifecycle_consumed:
  assumes "lifecycle_ok r" and "reservation_row_ok T r" and "0 < x" and "x \<le> r_Remaining r"
  shows "lifecycle_ok (consumed x r)"
  using assms by (auto simp: lifecycle_ok_def consumed_def reservation_row_ok_def)

lemma lifecycle_released: "lifecycle_ok r \<Longrightarrow> lifecycle_ok (released r)"
  by (simp add: lifecycle_ok_def released_def)

lemma lifecycle_all_released:
  assumes "\<forall>r\<in>set rows. lifecycle_ok r"
  shows "\<forall>r\<in>set (upd r_ID i released rows). lifecycle_ok r"
  using assms lifecycle_released by (auto elim!: set_updE)

lemma lifecycle_all_consumed:
  assumes ok: "\<forall>r\<in>set rows. lifecycle_ok r" and d: "distinct (map r_ID rows)" and r: "r \<in> set rows"
    and c: "lifecycle_ok (consumed x r)"
  shows "\<forall>v\<in>set (upd r_ID (r_ID r) (consumed x) rows). lifecycle_ok v"
proof
  fix v assume "v \<in> set (upd r_ID (r_ID r) (consumed x) rows)"
  then show "lifecycle_ok v"
  proof (cases rule: set_updE)
    case (2 r0)
    then have "r0 = r" using key_unique[OF d _ r] by simp
    with 2 c show ?thesis by simp
  qed (use ok in blast)
qed

lemma share_consumed: "live r \<Longrightarrow> openShare u a (consumed x r) =
    openShare u a r - (if r_UserID r = u \<and> r_Asset r = a then x else 0)"
  by (auto simp: openShare_def consumed_def live_def)

lemma share_released: "live r \<Longrightarrow> openShare u a (released r) = 0"
  "live r \<Longrightarrow> openShare u a r = (if r_UserID r = u \<and> r_Asset r = a then r_Remaining r else 0)"
  by (auto simp: openShare_def released_def live_def)

section \<open>A leg\<close>

lemma wallet_ok_simps [simp]:
  "wallet_ok T (addLedger ls db) = wallet_ok T db" "wallet_ok T (addSettled x db) = wallet_ok T db"
  "wallet_ok T (addOutbox xs db) = wallet_ok T db"
  by (simp_all add: wallet_ok_def rows_ok_def backed_def)

lemma wallet_ok_onWallet:
  assumes "wallet_ok T db" and "w \<in> set (db_wallets db)" and "wallet_change f" and "wallet_row_ok T (f w)"
    and "w_Reserved (f w) = w_Reserved w"
  shows "wallet_ok T (onWallet (w_ID w) f db)"
proof -
  from assms(1) have ok: "rows_ok T db" by (simp add: wallet_ok_def)
  from rows_ok_onWallet[OF ok assms(3,2,4)] reservedOf_onWallet[OF ok assms(2,3)] assms(1,5)
  show ?thesis by (simp add: wallet_ok_def backed_def)
qed

lemma leg_ok:
  assumes T: "places_closed T" and ok: "wallet_ok T db" and x: "0 < x" and leg: "leg T src payer payee x db db'"
  shows "wallet_ok T db' \<and> holdings a db' = holdings a db"
  using leg
proof (cases rule: leg_cases)
  case 1: market_maker
  let ?d = "onWallet (w_ID payer) (debited x) db"
  from ok have r: "rows_ok T db" by (simp add: wallet_ok_def)
  have p: "wallet_row_ok T (debited x payer)"
    using row_movements(2)[OF T rows_okD(3)[OF r 1(3)] 1(4)] x 1(5) by simp
  have d: "wallet_ok T ?d"
    using wallet_ok_onWallet[where f = "debited x", OF ok 1(3) _ p] by (simp add: debited_def)
  then have rd: "rows_ok T ?d" by (simp add: wallet_ok_def)
  have pin: "payee \<in> set (db_wallets ?d)" using 1(6) by simp
  have q: "wallet_row_ok T (credited x payee)"
    using row_movements(1)[OF T rows_okD(3)[OF rd pin] 1(4)] x by simp
  have "wallet_ok T db'"
    using wallet_ok_onWallet[where f = "credited x", OF d pin _ q] by (simp add: 1(2) credited_def)
  moreover have "holdings a db' = holdings a db"
    using holdings_onWallet[OF rd pin, of "credited x" a] holdings_onWallet[OF r 1(3), of "debited x" a] 1(7)
    by (simp add: 1(2) credited_def debited_def)
  ultimately show ?thesis ..
next
  case 2: (reservation r)
  let ?d = "onWallet (w_ID payer) (spent x) db" and ?f = "consumed x"
  let ?e = "onReservation (r_ID r) ?f ?d"
  from ok have ro: "rows_ok T db" and lo: "\<forall>r\<in>set (db_reservations db). lifecycle_ok r"
    and bo: "backed db" by (auto simp: wallet_ok_def)
  have rd: "rows_ok T ?d"
    using rows_ok_onWallet[where f = "spent x", OF ro _ 2(3)] row_movements(5)[OF T rows_okD(3)[OF ro 2(3)] 2(4)] x 2(5) by simp
  have rin: "r \<in> set (db_reservations ?d)" using 2(6) by simp
  have vr: "reservation_row_ok T r" using rows_okD(6)[OF ro 2(6)] .
  have re: "rows_ok T ?e"
    using rows_ok_onReservation[where f = ?f, OF rd _ rin] row_consumed[OF T vr 2(4)] x 2(10) by simp
  have pin: "payee \<in> set (db_wallets ?e)" using 2(11) by simp
  have rf: "rows_ok T db'"
    using rows_ok_onWallet[where f = "credited x", OF re _ pin] row_movements(1)[OF T rows_okD(3)[OF re pin] 2(4)] x by (simp add: 2(2))
  have lf: "\<forall>r\<in>set (db_reservations db'). lifecycle_ok r"
    using lifecycle_all_consumed[OF lo rows_okD(4)[OF ro] 2(6)] lifecycle_consumed[OF _ vr x 2(10)] lo 2(6)
    by (simp add: 2(2))
  have "reservedOf u b db' = openAmount u b db'" for u b
  proof -
    have "reservedOf u b db' = reservedOf u b db - (if w_UserID payer = u \<and> w_Asset payer = b then x else 0)"
      using reservedOf_onWallet[OF re pin, of "credited x" u b] reservedOf_onWallet[OF ro 2(3), of "spent x" u b]
      by (simp add: 2(2) credited_def spent_def)
    moreover have "openAmount u b db' = openAmount u b db - (if w_UserID payer = u \<and> w_Asset payer = b then x else 0)"
      using openAmount_onReservation[OF rd rin, of u b ?f] share_consumed[OF 2(7), of u b x] 2(8,9)
      by (simp add: 2(2))
    ultimately show ?thesis using bo by (simp add: backed_def)
  qed
  with rf lf have "wallet_ok T db'" by (simp add: wallet_ok_def backed_def)
  moreover have "holdings a db' = holdings a db"
    using holdings_onWallet[OF re pin, of "credited x" a] holdings_onWallet[OF ro 2(3), of "spent x" a] 2(12)
    by (simp add: 2(2) credited_def spent_def)
  ultimately show ?thesis ..
qed

section \<open>A step\<close>

lemma reserve_ok:
  assumes T: "places_closed T" and ok: "wallet_ok T db" and w: "w \<in> set (db_wallets db)" and x: "x \<in> T" "0 < x" "x \<le> w_Available w"
    and new: "\<forall>r\<in>set (db_reservations db). r_OrderID r \<noteq> r_OrderID v \<and> r_ID r \<noteq> r_ID v"
    and v: "r_UserID v = w_UserID w" "r_Asset v = w_Asset w" "r_Reserved v = x" "r_Consumed v = 0"
      "r_Remaining v = x" "r_Status v = ReservationActive"
  shows "wallet_ok T (addReservation v (onWallet (w_ID w) (reserved x) db))"
proof -
  let ?d = "onWallet (w_ID w) (reserved x) db"
  from ok have ro: "rows_ok T db" and lo: "\<forall>r\<in>set (db_reservations db). lifecycle_ok r"
    and bo: "backed db" by (auto simp: wallet_ok_def)
  have rd: "rows_ok T ?d"
    using rows_ok_onWallet[where f = "reserved x", OF ro _ w] row_movements(3)[OF T rows_okD(3)[OF ro w] x(1)] x by simp
  then have "rows_ok T (addReservation v ?d)"
    using new v x T by (auto simp: rows_ok_def reservation_row_ok_def places_closed_def)
  moreover have "lifecycle_ok v" by (simp add: lifecycle_ok_def v)
  moreover have "reservedOf u a (addReservation v ?d) = openAmount u a (addReservation v ?d)" for u a
    using reservedOf_onWallet[OF ro w, of "reserved x" u a] bo v
    by (simp add: backed_def openShare_def live_def reserved_def)
  ultimately show ?thesis using lo by (simp add: wallet_ok_def backed_def)
qed

lemma release_ok:
  assumes T: "places_closed T" and ok: "wallet_ok T db" and r: "r \<in> set (db_reservations db)" "live r"
    and w: "w \<in> set (db_wallets db)" "w_UserID w = r_UserID r" "w_Asset w = r_Asset r" "r_Remaining r \<le> w_Reserved w"
  shows "wallet_ok T (onReservation (r_ID r) released (onWallet (w_ID w) (unreserved (r_Remaining r)) db))"
proof -
  let ?d = "onWallet (w_ID w) (unreserved (r_Remaining r)) db"
  from ok have ro: "rows_ok T db" and lo: "\<forall>r\<in>set (db_reservations db). lifecycle_ok r"
    and bo: "backed db" by (auto simp: wallet_ok_def)
  have vr: "reservation_row_ok T r" using rows_okD(6)[OF ro r(1)] .
  then have m: "r_Remaining r \<in> T" "0 \<le> r_Remaining r" by (auto simp: reservation_row_ok_def)
  have rd: "rows_ok T ?d"
    using rows_ok_onWallet[where f = "unreserved (r_Remaining r)", OF ro _ w(1)] row_movements(4)[OF T rows_okD(3)[OF ro w(1)] m w(4)] by simp
  have rin: "r \<in> set (db_reservations ?d)" using r(1) by simp
  have re: "rows_ok T (onReservation (r_ID r) released ?d)"
    using rows_ok_onReservation[where f = released, OF rd _ rin] row_released[OF vr] by simp
  have "\<forall>r'\<in>set (db_reservations (onReservation (r_ID r) released ?d)). lifecycle_ok r'"
    using lifecycle_all_released[OF lo, of "r_ID r"] by simp
  moreover have "reservedOf u a (onReservation (r_ID r) released ?d) = openAmount u a (onReservation (r_ID r) released ?d)" for u a
    using reservedOf_onWallet[OF ro w(1), of "unreserved (r_Remaining r)" u a]
      openAmount_onReservation[OF rd rin, of u a released] share_released[OF r(2), of u a] bo w(2,3)
    by (simp add: backed_def unreserved_def)
  ultimately show ?thesis using re by (simp add: wallet_ok_def backed_def)
qed

lemma release_empty_ok:
  assumes ok: "wallet_ok T db" and r: "r \<in> set (db_reservations db)" "live r" "r_Remaining r \<le> 0"
  shows "wallet_ok T (onReservation (r_ID r) released db)"
proof -
  from ok have ro: "rows_ok T db" and lo: "\<forall>r\<in>set (db_reservations db). lifecycle_ok r"
    and bo: "backed db" by (auto simp: wallet_ok_def)
  have vr: "reservation_row_ok T r" using rows_okD(6)[OF ro r(1)] .
  with r(3) have m: "r_Remaining r = 0" by (simp add: reservation_row_ok_def)
  have re: "rows_ok T (onReservation (r_ID r) released db)"
    using rows_ok_onReservation[where f = released, OF ro _ r(1)] row_released[OF vr] by simp
  have "\<forall>r'\<in>set (db_reservations (onReservation (r_ID r) released db)). lifecycle_ok r'"
    using lifecycle_all_released[OF lo, of "r_ID r"] by simp
  moreover have "reservedOf u a (onReservation (r_ID r) released db) = openAmount u a (onReservation (r_ID r) released db)" for u a
    using openAmount_onReservation[OF ro r(1), of u a released] share_released[OF r(2), of u a] bo m
    by (simp add: backed_def)
  ultimately show ?thesis using re by (simp add: wallet_ok_def backed_def)
qed

lemma create_ok:
  assumes ok: "wallet_ok T db" and w: "wallet_row_ok T w" "w_Reserved w = 0"
    and new: "\<forall>r\<in>set (db_wallets db). w_ID r \<noteq> w_ID w \<and> (w_UserID r \<noteq> w_UserID w \<or> w_Asset r \<noteq> w_Asset w)"
  shows "wallet_ok T (db\<lparr>db_wallets := db_wallets db @ [w]\<rparr>)"
  using assms by (auto simp: wallet_ok_def rows_ok_def backed_def reservedOf_def openAmount_def)

lemma wallet_step_ok:
  assumes T: "places_closed T" and ok: "wallet_ok T db" and step: "wallet_step T D db db'"
  shows "wallet_ok T db'"
  using step
proof cases
  case (settle tr mk sq x y sSrc sb bb d1 bSrc bq sq' d2)
  from leg_ok[OF T _ settle(3,5)] ok have "wallet_ok T d1" by simp
  from leg_ok[OF T this settle(4,6)] show ?thesis by (simp add: settle(1))
next
  case (reserve w x ord rid tid)
  then show ?thesis using reserve_ok[OF T ok reserve(2,4-6)] by simp
next
  case (release_empty r)
  then show ?thesis using release_empty_ok[OF ok] by simp
next
  case (release r w tid)
  then show ?thesis using release_ok[OF T ok release(2,3) release(5-8)] by simp
next
  case (deposit w x ty ref tid)
  have "wallet_row_ok T (credited x w)"
    using row_movements(1)[OF T rows_okD(3)[OF _ deposit(2)]] ok deposit(4,5) by (simp add: wallet_ok_def)
  with wallet_ok_onWallet[OF ok deposit(2), of "credited x"] show ?thesis
    by (simp add: deposit(1) credited_def)
next
  case (freeze w b who reason)
  have "wallet_row_ok T (frozenTo b who reason w)"
    using rows_okD(3)[of T, OF _ freeze(2)] ok by (simp add: wallet_ok_def wallet_row_ok_def frozenTo_def)
  with wallet_ok_onWallet[OF ok freeze(2), of "frozenTo b who reason"] show ?thesis
    by (simp add: freeze(1) frozenTo_def)
next
  case (create w ls tid ref)
  then show ?thesis using create_ok[OF ok create(2,3,5)] by simp
qed

lemma wallet_steps_ok:
  assumes "(wallet_step T D)\<^sup>*\<^sup>* db db'" and "places_closed T" and "wallet_ok T db"
  shows "wallet_ok T db'"
  using assms by (induction rule: rtranclp_induct) (auto intro: wallet_step_ok)

end
