(* ===== verification/WalletOps.thy ===== *)
theory WalletOps
  imports WalletService WalletStep
begin

text \<open>
  The repository operations as proof rules: a call that returns has made one exact update of
  the working copy, and leaves its rows well-formed.
\<close>

lemma hoare_affected:
  "(n \<noteq> 0 \<Longrightarrow> hoare P (k ()) Q E) \<Longrightarrow> (\<And>s. P s \<Longrightarrow> E err s) \<Longrightarrow> hoare P (bindT (affected err n) k) Q E"
  by (simp add: affected_def bindT_if bindT_ret bindT_throw hoare_throw)

lemma hoare_moveRow:
  assumes W: "wlib_ok W T" and ok: "rows_ok T d" and amt: "p_decimal W amt = Some x"
    and ch: "wallet_change (F x)"
    and cl: "\<And>r. wallet_row_ok T r \<Longrightarrow>
      w_Available (F x r) \<in> T \<and> w_Reserved (F x r) \<in> T \<and> w_Initial (F x r) \<in> T \<and> w_Total (F x r) \<in> T"
    and k: "\<And>r. r \<in> set (db_wallets d) \<Longrightarrow> w_ID r = i \<Longrightarrow> G x r \<Longrightarrow> rows_ok T (onWallet i (F x) d) \<Longrightarrow>
      hoare (working b (onWallet i (F x) d)) (k ()) Q E"
    and e: "\<And>e s. idle b s \<Longrightarrow> E e s"
  shows "hoare (working b d)
    (bindT (bindT (stmt en ErrInternal (amountStatement W amt (\<lambda>x. updateWallets W (p_uuid_text W i) (G x) (F x))))
       (affected err)) k) Q E"
  unfolding bindT_assoc
proof (rule hoare_stmt)
  fix n d' assume "amountStatement W amt (\<lambda>x. updateWallets W (p_uuid_text W i) (G x) (F x)) d = Inr (n, d')"
  then have u: "updateWallets W (p_uuid_text W i) (G x) (F x) d = Inr (n, d')"
    by (simp add: amountStatement_def amt)
  show "hoare (working b d') (bindT (affected err n) k) Q E"
  proof (rule hoare_affected)
    assume n: "n \<noteq> 0"
    obtain j r where j: "p_uuid W (p_uuid_text W i) = Some j" and r: "r \<in> set (db_wallets d)" "w_ID r = j" "G x r"
      and d': "d' = onWallet j (F x) d" "rows_ok T (onWallet j (F x) d)"
      by (rule updateWallets_exact[OF W ok ch cl u n]) (assumption | blast)+
    have "j = i" using j wlib_okD(2)[OF W] by simp
    with k[OF r(1)] r(2,3) d' show "hoare (working b d') (k ()) Q E" by simp
  qed (rule e, erule working_idle)
qed (rule e)

lemma movements_in:
  assumes "wlib_ok W T" and "x \<in> T" and "wallet_row_ok T r"
  shows "w_Available (credited x r) \<in> T \<and> w_Reserved (credited x r) \<in> T \<and> w_Initial (credited x r) \<in> T \<and> w_Total (credited x r) \<in> T"
    and "w_Available (debited x r) \<in> T \<and> w_Reserved (debited x r) \<in> T \<and> w_Initial (debited x r) \<in> T \<and> w_Total (debited x r) \<in> T"
    and "w_Available (reserved x r) \<in> T \<and> w_Reserved (reserved x r) \<in> T \<and> w_Initial (reserved x r) \<in> T \<and> w_Total (reserved x r) \<in> T"
    and "w_Available (unreserved x r) \<in> T \<and> w_Reserved (unreserved x r) \<in> T \<and> w_Initial (unreserved x r) \<in> T \<and> w_Total (unreserved x r) \<in> T"
    and "w_Available (spent x r) \<in> T \<and> w_Reserved (spent x r) \<in> T \<and> w_Initial (spent x r) \<in> T \<and> w_Total (spent x r) \<in> T"
  using assms(3) wlib_places[OF assms(1)] assms(2)
  by (auto simp: wallet_row_ok_def movement_defs places_closed_def)

text \<open>The five movements of a wallet.\<close>

lemma hoare_CreditAvailable:
  assumes W: "wlib_ok W T" and "rows_ok T d" and "p_decimal W amt = Some x" and x: "x \<in> T"
    and "\<And>r. r \<in> set (db_wallets d) \<Longrightarrow> w_ID r = i \<Longrightarrow> rows_ok T (onWallet i (credited x) d) \<Longrightarrow>
      hoare (working b (onWallet i (credited x) d)) (k ()) Q E"
    and "\<And>e s. idle b s \<Longrightarrow> E e s"
  shows "hoare (working b d) (bindT (CreditAvailable en W (p_uuid_text W i) amt) k) Q E"
proof -
  have e: "CreditAvailable en W (p_uuid_text W i) amt =
      bindT (stmt en ErrInternal (amountStatement W amt (\<lambda>x. updateWallets W (p_uuid_text W i) ((\<lambda>_ _. True) x) (credited x))))
        (affected ErrInternal)"
    by (simp add: CreditAvailable_def credited_def[abs_def])
  show ?thesis unfolding e
    by (rule hoare_moveRow[where F = credited and G = "\<lambda>_ _. True", OF assms(1-3) _ movements_in(1)[OF W x]]) (simp, assumption, (rule assms(5,6); simp)+)
qed

lemma hoare_DebitAvailable:
  assumes W: "wlib_ok W T" and "rows_ok T d" and "p_decimal W amt = Some x" and x: "x \<in> T"
    and "\<And>r. r \<in> set (db_wallets d) \<Longrightarrow> w_ID r = i \<Longrightarrow> x \<le> w_Available r \<Longrightarrow> rows_ok T (onWallet i (debited x) d) \<Longrightarrow>
      hoare (working b (onWallet i (debited x) d)) (k ()) Q E"
    and "\<And>e s. idle b s \<Longrightarrow> E e s"
  shows "hoare (working b d) (bindT (DebitAvailable en W (p_uuid_text W i) amt) k) Q E"
proof -
  have e: "DebitAvailable en W (p_uuid_text W i) amt =
      bindT (stmt en ErrInternal (amountStatement W amt (\<lambda>x. updateWallets W (p_uuid_text W i) ((\<lambda>x r. x \<le> w_Available r) x) (debited x))))
        (affected ErrInsufficientBalance)"
    by (simp add: DebitAvailable_def debited_def[abs_def])
  show ?thesis unfolding e
    by (rule hoare_moveRow[where F = debited and G = "\<lambda>x r. x \<le> w_Available r", OF assms(1-3) _ movements_in(2)[OF W x]]) (simp, assumption, (rule assms(5,6); simp)+)
qed

lemma hoare_MoveToReserved:
  assumes W: "wlib_ok W T" and "rows_ok T d" and "p_decimal W amt = Some x" and x: "x \<in> T"
    and "\<And>r. r \<in> set (db_wallets d) \<Longrightarrow> w_ID r = i \<Longrightarrow> x \<le> w_Available r \<Longrightarrow> rows_ok T (onWallet i (reserved x) d) \<Longrightarrow>
      hoare (working b (onWallet i (reserved x) d)) (k ()) Q E"
    and "\<And>e s. idle b s \<Longrightarrow> E e s"
  shows "hoare (working b d) (bindT (MoveToReserved en W (p_uuid_text W i) amt) k) Q E"
proof -
  have e: "MoveToReserved en W (p_uuid_text W i) amt =
      bindT (stmt en ErrInternal (amountStatement W amt (\<lambda>x. updateWallets W (p_uuid_text W i) ((\<lambda>x r. x \<le> w_Available r) x) (reserved x))))
        (affected ErrInsufficientBalance)"
    by (simp add: MoveToReserved_def reserved_def[abs_def])
  show ?thesis unfolding e
    by (rule hoare_moveRow[where F = reserved and G = "\<lambda>x r. x \<le> w_Available r", OF assms(1-3) _ movements_in(3)[OF W x]]) (simp, assumption, (rule assms(5,6); simp)+)
qed

lemma hoare_MoveFromReserved:
  assumes W: "wlib_ok W T" and "rows_ok T d" and "p_decimal W amt = Some x" and x: "x \<in> T"
    and "\<And>r. r \<in> set (db_wallets d) \<Longrightarrow> w_ID r = i \<Longrightarrow> x \<le> w_Reserved r \<Longrightarrow> rows_ok T (onWallet i (unreserved x) d) \<Longrightarrow>
      hoare (working b (onWallet i (unreserved x) d)) (k ()) Q E"
    and "\<And>e s. idle b s \<Longrightarrow> E e s"
  shows "hoare (working b d) (bindT (MoveFromReserved en W (p_uuid_text W i) amt) k) Q E"
proof -
  have e: "MoveFromReserved en W (p_uuid_text W i) amt =
      bindT (stmt en ErrInternal (amountStatement W amt (\<lambda>x. updateWallets W (p_uuid_text W i) ((\<lambda>x r. x \<le> w_Reserved r) x) (unreserved x))))
        (affected ErrInsufficientBalance)"
    by (simp add: MoveFromReserved_def unreserved_def[abs_def])
  show ?thesis unfolding e
    by (rule hoare_moveRow[where F = unreserved and G = "\<lambda>x r. x \<le> w_Reserved r", OF assms(1-3) _ movements_in(4)[OF W x]]) (simp, assumption, (rule assms(5,6); simp)+)
qed

lemma hoare_DebitReserved:
  assumes W: "wlib_ok W T" and "rows_ok T d" and "p_decimal W amt = Some x" and x: "x \<in> T"
    and "\<And>r. r \<in> set (db_wallets d) \<Longrightarrow> w_ID r = i \<Longrightarrow> x \<le> w_Reserved r \<Longrightarrow> rows_ok T (onWallet i (spent x) d) \<Longrightarrow>
      hoare (working b (onWallet i (spent x) d)) (k ()) Q E"
    and "\<And>e s. idle b s \<Longrightarrow> E e s"
  shows "hoare (working b d) (bindT (DebitReserved en W (p_uuid_text W i) amt) k) Q E"
proof -
  have e: "DebitReserved en W (p_uuid_text W i) amt =
      bindT (stmt en ErrInternal (amountStatement W amt (\<lambda>x. updateWallets W (p_uuid_text W i) ((\<lambda>x r. x \<le> w_Reserved r) x) (spent x))))
        (affected ErrInsufficientBalance)"
    by (simp add: DebitReserved_def spent_def[abs_def])
  show ?thesis unfolding e
    by (rule hoare_moveRow[where F = spent and G = "\<lambda>x r. x \<le> w_Reserved r", OF assms(1-3) _ movements_in(5)[OF W x]]) (simp, assumption, (rule assms(5,6); simp)+)
qed

text \<open>The updates of a reservation.\<close>

lemma hoare_updateReservation:
  assumes W: "wlib_ok W T" and ok: "rows_ok T d" and u: "\<And>db. f db = updateReservations W (p_uuid_text W j) G F db"
    and ch: "reservation_change F"
    and cl: "\<And>r. reservation_row_ok T r \<Longrightarrow> r_Consumed (F r) \<in> T \<and> r_Remaining (F r) \<in> T"
    and k: "\<And>r. r \<in> set (db_reservations d) \<Longrightarrow> r_ID r = j \<Longrightarrow> G r \<Longrightarrow> rows_ok T (onReservation j F d) \<Longrightarrow>
      hoare (working b (onReservation j F d)) (k ()) Q E"
    and e: "\<And>e s. idle b s \<Longrightarrow> E e s"
  shows "hoare (working b d) (bindT (bindT (stmt en ErrInternal f) (affected err)) k) Q E"
  unfolding bindT_assoc
proof (rule hoare_stmt)
  fix n d' assume "f d = Inr (n, d')"
  then have u: "updateReservations W (p_uuid_text W j) G F d = Inr (n, d')" by (simp add: u)
  show "hoare (working b d') (bindT (affected err n) k) Q E"
  proof (rule hoare_affected)
    assume n: "n \<noteq> 0"
    obtain j' r where j: "p_uuid W (p_uuid_text W j) = Some j'" and r: "r \<in> set (db_reservations d)" "r_ID r = j'" "G r"
      and d': "d' = onReservation j' F d" "rows_ok T (onReservation j' F d)"
      by (rule updateReservations_exact[OF W ok ch cl u n]) (assumption | blast)+
    have "j' = j" using j wlib_okD(2)[OF W] by simp
    with k[OF r(1)] r(2,3) d' show "hoare (working b d') (k ()) Q E" by simp
  qed (rule e, erule working_idle)
qed (rule e)

lemma hoare_UpdateReleased:
  assumes "wlib_ok W T" and "rows_ok T d"
    and "\<And>r. r \<in> set (db_reservations d) \<Longrightarrow> r_ID r = j \<Longrightarrow> rows_ok T (onReservation j released d) \<Longrightarrow>
      hoare (working b (onReservation j released d)) (k ()) Q E"
    and "\<And>e s. idle b s \<Longrightarrow> E e s"
  shows "hoare (working b d) (bindT (UpdateStatus en W (p_uuid_text W j) ReservationReleased) k) Q E"
proof -
  have e: "updateReservations W (p_uuid_text W j) (\<lambda>_. True) (\<lambda>r. r\<lparr>r_Status := ReservationReleased\<rparr>) =
      updateReservations W (p_uuid_text W j) (\<lambda>_. True) released"
    by (simp add: released_def[abs_def])
  show ?thesis unfolding UpdateStatus_def e
    by (rule hoare_updateReservation[where F = released, OF assms(1,2) refl])
      (simp, simp add: reservation_row_ok_def released_def, (rule assms(3,4); simp)+)
qed

lemma hoare_ConsumeRemaining:
  assumes W: "wlib_ok W T" and "rows_ok T d" and amt: "p_decimal W amt = Some x" and x: "x \<in> T"
    and k: "\<And>r. r \<in> set (db_reservations d) \<Longrightarrow> r_ID r = j \<Longrightarrow> x \<le> r_Remaining r \<Longrightarrow>
      rows_ok T (onReservation j (consumed x) d) \<Longrightarrow>
      hoare (working b (onReservation j (consumed x) d)) (k ()) Q E"
    and e: "\<And>e s. idle b s \<Longrightarrow> E e s"
  shows "hoare (working b d) (bindT (ConsumeRemaining en W (p_uuid_text W j) amt) k) Q E"
proof -
  have f: "amountStatement W amt (\<lambda>x. updateReservations W (p_uuid_text W j) (\<lambda>r. x \<le> r_Remaining r)
       (\<lambda>r. r\<lparr>r_Consumed := r_Consumed r + x, r_Remaining := r_Remaining r - x,
             r_Status := (if r_Remaining r - x \<le> 0 then ReservationConsumed else ReservationPartiallyConsumed)\<rparr>)) db =
      updateReservations W (p_uuid_text W j) (\<lambda>r. x \<le> r_Remaining r) (consumed x) db" for db
    by (simp add: amountStatement_def amt consumed_def[abs_def])
  have c: "r_Consumed (consumed x r) \<in> T \<and> r_Remaining (consumed x r) \<in> T" if "reservation_row_ok T r" for r
    using that wlib_places[OF W] x by (auto simp: reservation_row_ok_def consumed_def places_closed_def)
  show ?thesis unfolding ConsumeRemaining_def
    by (rule hoare_updateReservation[OF assms(1,2) f _ c]) (simp, assumption, (rule k e; simp)+)
qed


section \<open>Queries and insertions\<close>

lemma GetByUserAndAsset_Some:
  assumes "GetByUserAndAsset W userID asset d = Inr (Some w)"
  obtains r where "r \<in> set (db_wallets d)" "p_uuid W userID = Some (w_UserID r)" "w_Asset r = asset" "w = walletOf W r"
  using assms by (auto simp: GetByUserAndAsset_def split: option.splits dest: find_in)

lemma GetByOrderID_Some:
  assumes "GetByOrderIDForUpdate W orderID d = Inr (Some rv)"
  obtains r where "r \<in> set (db_reservations d)" "p_uuid W orderID = Some (r_OrderID r)" "rv = reservationOf W r"
  using assms by (auto simp: GetByOrderIDForUpdate_def split: option.splits dest: find_in)

lemma GetByOrderID_None:
  assumes "GetByOrderIDForUpdate W orderID d = Inr None"
  obtains ord where "p_uuid W orderID = Some ord" "\<forall>r\<in>set (db_reservations d). r_OrderID r \<noteq> ord"
  using assms by (auto simp: GetByOrderIDForUpdate_def find_None_iff split: option.splits)

text \<open>Looking up a row and branching on it.\<close>

lemmas hoare_lock = hoare_query[where f = "LockByIDs W ids" for W ids]

lemmas hoare_asset = hoare_poolQuery_working[where f = "GetByCode code" for code]

lemma hoare_findWallet:
  assumes "hoare (working b d) m Q E"
    and "\<And>r. r \<in> set (db_wallets d) \<Longrightarrow> p_uuid W u = Some (w_UserID r) \<Longrightarrow> w_Asset r = a \<Longrightarrow>
      hoare (working b d) (f (walletOf W r)) Q E"
    and "\<And>e s. idle b s \<Longrightarrow> E e s"
  shows "hoare (working b d) (bindT (query en err (GetByUserAndAsset W u a))
    (\<lambda>found. case found of None \<Rightarrow> m | Some w \<Rightarrow> f w)) Q E"
  by (intro hoare_query hoare_option assms(1,3)) (auto elim!: GetByUserAndAsset_Some intro: assms(2))

lemma hoare_findWallet_pool:
  assumes "hoare (idle b) m Q E"
    and "\<And>r. r \<in> set (db_wallets b) \<Longrightarrow> p_uuid W u = Some (w_UserID r) \<Longrightarrow> w_Asset r = a \<Longrightarrow>
      hoare (idle b) (f (walletOf W r)) Q E"
    and "\<And>e s. idle b s \<Longrightarrow> E e s"
  shows "hoare (idle b) (bindT (poolQuery en err (GetByUserAndAsset W u a))
    (\<lambda>found. case found of None \<Rightarrow> m | Some w \<Rightarrow> f w)) Q E"
  by (intro hoare_poolQuery hoare_option assms(1,3)) (auto elim!: GetByUserAndAsset_Some intro: assms(2))

lemma hoare_findReservation:
  assumes "\<And>ord. p_uuid W orderID = Some ord \<Longrightarrow> \<forall>r\<in>set (db_reservations d). r_OrderID r \<noteq> ord \<Longrightarrow>
      hoare (working b d) m Q E"
    and "\<And>r. r \<in> set (db_reservations d) \<Longrightarrow> p_uuid W orderID = Some (r_OrderID r) \<Longrightarrow>
      hoare (working b d) (f (reservationOf W r)) Q E"
    and "\<And>e s. idle b s \<Longrightarrow> E e s"
  shows "hoare (working b d) (bindT (query en err (GetByOrderIDForUpdate W orderID))
    (\<lambda>found. case found of None \<Rightarrow> m | Some rv \<Rightarrow> f rv)) Q E"
  by (intro hoare_query hoare_option assms(3))
     (auto elim!: GetByOrderID_Some GetByOrderID_None intro: assms(1,2))

lemma GetByCode_Some:
  assumes "GetByCode code d = Inr (Some a)"
  shows "a \<in> set (db_assets d) \<and> a_Code a = code"
  using assms by (auto simp: GetByCode_def dest: find_in)

lemma createReservation_exact:
  assumes W: "wlib_ok W T" and s: "createReservation W rv d = Inr (u, d')"
    and rv: "rv_ID rv = p_uuid_text W rid" "p_uuid W (rv_OrderID rv) = Some ord" "p_uuid W (rv_UserID rv) = Some uid"
      "p_decimal W (rv_ReservedAmount rv) = Some x" "rv_ConsumedAmount rv = ''0''" "rv_RemainingAmount rv = rv_ReservedAmount rv"
    and x: "x \<in> T"
  shows "d' = addReservation \<lparr>r_ID = rid, r_OrderID = ord, r_UserID = uid, r_Asset = rv_Asset rv, r_Reserved = x,
        r_Consumed = 0, r_Remaining = x, r_Status = rv_Status rv\<rparr> d"
    and "\<forall>r\<in>set (db_reservations d). r_OrderID r \<noteq> ord \<and> r_ID r \<noteq> rid" and "0 < x"
proof -
  let ?r = "\<lparr>r_ID = rid, r_OrderID = ord, r_UserID = uid, r_Asset = rv_Asset rv, r_Reserved = x,
        r_Consumed = 0, r_Remaining = x, r_Status = rv_Status rv\<rparr>"
  note z = wlib_okD(15)[OF W] wlib_okD(2)[OF W]
  from s obtain r where r: "storeReservation W ?r = Inr r"
    and f: "\<not> (\<exists>y\<in>set (db_reservations d). r_ID y = rid \<or> r_OrderID y = ord)" and d': "d' = addReservation r d"
    by (auto simp: createReservation_def rv z addReservation_def split: sum.splits if_splits)
  from storeReservation_exact[OF W r] x wlib_okD(10)[OF W] have "r = ?r" "reservation_row_ok T ?r" by auto
  with d' f show "d' = addReservation ?r d" "\<forall>r\<in>set (db_reservations d). r_OrderID r \<noteq> ord \<and> r_ID r \<noteq> rid" "0 < x"
    by (auto simp: reservation_row_ok_def)
qed

lemma createTransaction_exact:
  assumes W: "wlib_ok W T" and s: "createTransaction W t d = Inr (u, d')"
    and t: "wt_ID t = p_uuid_text W i" "wt_WalletID t = p_uuid_text W w" "p_decimal W (wt_Amount t) = Some x" and x: "x \<in> T"
  obtains ref where "p_uuid W (wt_ReferenceID t) = Some ref" "0 < x" "wt_ReferenceType t \<in> set referenceTypes"
    "\<forall>l\<in>set (db_ledger d). t_ID l \<noteq> i \<and>
       \<not> (t_WalletID l = w \<and> t_ReferenceID l = ref \<and> t_ReferenceType l = wt_ReferenceType t)"
    "\<exists>r\<in>set (db_wallets d). w_ID r = w"
    "d' = addLedger [\<lparr>t_ID = i, t_WalletID = w, t_ReferenceID = ref, t_ReferenceType = wt_ReferenceType t,
       t_Type = wt_TransactionType t, t_Asset = wt_Asset t, t_Amount = x\<rparr>] d"
proof -
  from s obtain ref y where ref: "p_uuid W (wt_ReferenceID t) = Some ref" and y: "p_column W x = Some y"
    and c: "wt_ReferenceType t \<in> set referenceTypes" "0 < y"
      "\<not> (\<exists>l\<in>set (db_ledger d). t_ID l = i \<or>
         (t_WalletID l = w \<and> t_ReferenceID l = ref \<and> t_ReferenceType l = wt_ReferenceType t))"
      "\<not> (\<forall>r\<in>set (db_wallets d). w_ID r \<noteq> w)"
      "d' = d\<lparr>db_ledger := db_ledger d @ [\<lparr>t_ID = i, t_WalletID = w, t_ReferenceID = ref,
         t_ReferenceType = wt_ReferenceType t, t_Type = wt_TransactionType t, t_Asset = wt_Asset t, t_Amount = y\<rparr>]\<rparr>"
    by (auto simp: createTransaction_def t wlib_okD(2)[OF W] split: option.splits if_splits)
  from wlib_okD(13)[OF W x y] have "y = x" .
  with that[OF ref] c show thesis by (auto simp: addLedger_def)
qed

lemma walletOf_simps [simp]:
  "wl_ID (walletOf W r) = p_uuid_text W (w_ID r)" "wl_IsFrozen (walletOf W r) = w_IsFrozen r"
  "wl_AvailableBalance (walletOf W r) = p_decimal_text W (w_Available r)" "wl_Asset (walletOf W r) = w_Asset r"
  by (simp_all add: walletOf_def)

lemma reservationOf_simps [simp]:
  "rv_ID (reservationOf W r) = p_uuid_text W (r_ID r)" "rv_Status (reservationOf W r) = r_Status r"
  "rv_Asset (reservationOf W r) = r_Asset r" "rv_UserID (reservationOf W r) = p_uuid_text W (r_UserID r)"
  "rv_OrderID (reservationOf W r) = p_uuid_text W (r_OrderID r)"
  "rv_RemainingAmount (reservationOf W r) = p_decimal_text W (r_Remaining r)"
  "rv_ReservedAmount (reservationOf W r) = p_decimal_text W (r_Reserved r)"
  by (simp_all add: reservationOf_def)

text \<open>The amounts a checked asset lets through have at most ten places.\<close>

definition assets_ok :: "'d set \<Rightarrow> 'd wallet_db \<Rightarrow> bool" where
  "assets_ok T db \<longleftrightarrow> (\<forall>a\<in>set (db_assets db). a_Decimals a \<le> 10 \<and> a_SeedAmount a \<in> T)"

lemma decimalScale_in:
  assumes W: "wlib_ok W T" and "decimalScale W x \<le> n" and "n \<le> 10"
  shows "x \<in> T"
proof (cases "x = d_Truncate W x 0")
  case True
  then show ?thesis using wlib_okD(7)[OF W, of 0 x] by simp
next
  case False
  with assms(2,3) obtain p where p: "List.find (\<lambda>p. x = d_Truncate W x p) [1..10] = Some p"
    by (auto simp: decimalScale_def split: option.splits)
  then have "p \<le> 10" "x = d_Truncate W x p" by (auto dest: find_in)
  with wlib_okD(7)[OF W, of p x] show ?thesis by simp
qed

end
