(* ===== verification/WalletRefine.thy ===== *)
theory WalletRefine
  imports WalletOps
begin

text \<open>
  The service operations refine the abstract wallets: whatever a call returns and whatever
  fails on the way, the committed database is left alone or has made exactly the step the
  request describes. A step behind an error is a commit whose acknowledgement was lost.
\<close>

named_theorems wallet_refines \<open>the service operations as steps of the abstract wallets\<close>

section \<open>Reserving\<close>

definition reserves ::
  "('d::linordered_idom) wlib \<Rightarrow> 'd set \<Rightarrow> string \<Rightarrow> string \<Rightarrow> string \<Rightarrow> string \<Rightarrow> 'd wallet_db \<Rightarrow> 'd wallet_db \<Rightarrow> bool" where
  "reserves W T userID orderID asset amount db db' \<longleftrightarrow>
     (\<exists>w x ord rid tid. w \<in> set (db_wallets db) \<and> p_uuid W userID = Some (w_UserID w) \<and> w_Asset w = asset \<and>
        \<not> w_IsFrozen w \<and> d_NewFromString W amount = Some x \<and> x \<in> T \<and> 0 < x \<and> x \<le> w_Available w \<and>
        p_uuid W orderID = Some ord \<and> (\<forall>r\<in>set (db_reservations db). r_OrderID r \<noteq> ord \<and> r_ID r \<noteq> rid) \<and>
        db' = addLedger [\<lparr>t_ID = tid, t_WalletID = w_ID w, t_ReferenceID = ord, t_ReferenceType = ''RESERVATION'',
                   t_Type = TxnTypeDebit, t_Asset = asset, t_Amount = x\<rparr>]
          (addReservation \<lparr>r_ID = rid, r_OrderID = ord, r_UserID = w_UserID w, r_Asset = asset, r_Reserved = x,
                          r_Consumed = 0, r_Remaining = x, r_Status = ReservationActive\<rparr>
            (onWallet (w_ID w) (reserved x) db)))"

text \<open>A reservation that is already there for the order and that the request may reuse.\<close>

definition reusable ::
  "'d wlib \<Rightarrow> string \<Rightarrow> string \<Rightarrow> string \<Rightarrow> string \<Rightarrow> 'd wallet_db \<Rightarrow> bool" where
  "reusable W userID orderID asset amount db \<longleftrightarrow>
     (\<exists>r\<in>set (db_reservations db). p_uuid W orderID = Some (r_OrderID r) \<and> p_uuid_text W (r_UserID r) = userID \<and>
        r_Asset r = asset \<and> d_NewFromString W amount = d_NewFromString W (p_decimal_text W (r_Reserved r)) \<and>
        (r_Status r = ReservationActive \<or> r_Status r = ReservationPartiallyConsumed))"

text \<open>
  What a call hands back: the reservation row of the order as the database holds it, for the
  user, asset and amount of the request, and still open.
\<close>

definition describes :: "'d wlib \<Rightarrow> reservation \<Rightarrow> 'd reservation_row \<Rightarrow> bool" where
  "describes W rv r \<longleftrightarrow>
     rv_ID rv = p_uuid_text W (r_ID r) \<and> p_uuid W (rv_OrderID rv) = Some (r_OrderID r) \<and>
     p_uuid W (rv_UserID rv) = Some (r_UserID r) \<and> rv_Asset rv = r_Asset r \<and>
     p_decimal W (rv_ReservedAmount rv) = Some (r_Reserved r) \<and> p_decimal W (rv_ConsumedAmount rv) = Some (r_Consumed r) \<and>
     p_decimal W (rv_RemainingAmount rv) = Some (r_Remaining r) \<and> rv_Status rv = r_Status r"

definition grants ::
  "'d wlib \<Rightarrow> string \<Rightarrow> string \<Rightarrow> string \<Rightarrow> string \<Rightarrow> reservation \<Rightarrow> 'd wallet_db \<Rightarrow> bool" where
  "grants W userID orderID asset amount rv db \<longleftrightarrow>
     (\<exists>r\<in>set (db_reservations db). p_uuid W orderID = Some (r_OrderID r) \<and> describes W rv r) \<and>
     rv_UserID rv = userID \<and> rv_Asset rv = asset \<and>
     d_NewFromString W (rv_ReservedAmount rv) = d_NewFromString W amount \<and>
     (rv_Status rv = ReservationActive \<or> rv_Status rv = ReservationPartiallyConsumed)"

lemma reuse:
  assumes W: "wlib_ok W T" and r: "r \<in> set (db_reservations db)" "p_uuid W orderID = Some (r_OrderID r)"
    and v: "validateExistingReservation W (reservationOf W r) userID asset amount = Inr rv"
  shows "reusable W userID orderID asset amount db" and "grants W userID orderID asset amount rv db"
proof -
  from v have rv: "rv = reservationOf W r" "p_uuid_text W (r_UserID r) = userID" "r_Asset r = asset"
    "d_NewFromString W amount = d_NewFromString W (p_decimal_text W (r_Reserved r))"
    "r_Status r = ReservationActive \<or> r_Status r = ReservationPartiallyConsumed"
    by (cases "r_Status r"; auto simp: validateExistingReservation_def split: if_splits option.splits)+
  with r show "reusable W userID orderID asset amount db" unfolding reusable_def by blast
  have "describes W rv r"
    using wlib_okD(2)[OF W] p_decimal_text[OF W] by (simp add: describes_def rv(1) reservationOf_def)
  with r rv show "grants W userID orderID asset amount rv db" unfolding grants_def by auto
qed

lemma reserves_grants:
  fixes W :: "('d::linordered_idom) wlib"
  assumes W: "wlib_ok W T" and s: "reserves W T userID orderID asset amount db db'"
    and rv: "rv_ID rv = p_uuid_text W rid" "rv_OrderID rv = orderID" "rv_UserID rv = userID" "rv_Asset rv = asset"
      "rv_ReservedAmount rv = amount" "rv_ConsumedAmount rv = ''0''" "rv_RemainingAmount rv = amount"
      "rv_Status rv = ReservationActive" and new: "\<exists>r\<in>set (db_reservations db'). r_ID r = rid \<and> r \<notin> set (db_reservations db)"
  shows "grants W userID orderID asset amount rv db'"
proof -
  from s obtain x ord rid' tid and w :: "'d wallet_row" where s': "p_uuid W userID = Some (w_UserID w)" "d_NewFromString W amount = Some x"
    "p_uuid W orderID = Some ord"
    "db' = addLedger [\<lparr>t_ID = tid, t_WalletID = w_ID w, t_ReferenceID = ord, t_ReferenceType = ''RESERVATION'',
                   t_Type = TxnTypeDebit, t_Asset = asset, t_Amount = x\<rparr>]
          (addReservation \<lparr>r_ID = rid', r_OrderID = ord, r_UserID = w_UserID w, r_Asset = asset, r_Reserved = x,
                          r_Consumed = 0, r_Remaining = x, r_Status = ReservationActive\<rparr>
            (onWallet (w_ID w) (reserved x) db))"
    unfolding reserves_def by blast
  let ?r = "\<lparr>r_ID = rid', r_OrderID = ord, r_UserID = w_UserID w, r_Asset = asset, r_Reserved = x,
                          r_Consumed = 0, r_Remaining = x, r_Status = ReservationActive\<rparr>"
  have "rid' = rid" using new by (auto simp: s'(4))
  then have "describes W rv ?r"
    using s' rv wlib_okD(3)[OF W s'(2)] wlib_okD(15)[OF W] by (simp add: describes_def)
  moreover have "?r \<in> set (db_reservations db')" by (simp add: s'(4))
  ultimately have "\<exists>r\<in>set (db_reservations db'). p_uuid W orderID = Some (r_OrderID r) \<and> describes W rv r"
    using s'(3) by (intro bexI[of _ ?r]) simp_all
  with rv show ?thesis by (simp add: grants_def)
qed

lemma placeReservation_hoare:
  assumes W: "wlib_ok W T" and ok: "rows_ok T db" and w: "w \<in> set (db_wallets db)"
    and u: "p_uuid W userID = Some (w_UserID w)" "w_Asset w = asset"
    and x: "d_NewFromString W amount = Some x" "x \<in> T" and o: "p_uuid W orderID = Some ord"
  shows "hoare (working db db) (placeReservation en W (walletOf W w) userID orderID asset amount)
    (\<lambda>rv s. reserves W T userID orderID asset amount db (x_base s) \<and>
       grants W userID orderID asset amount rv (x_base s))
    (\<lambda>_ s. x_base s = db \<or> reserves W T userID orderID asset amount db (x_base s))"
  (is "hoare _ _ ?Q ?E")
proof -
  let ?d = "onWallet (w_ID w) (reserved x) db"
  have p: "p_decimal W amount = Some x" using wlib_okD(3)[OF W x(1)] .
  have step: "reserves W T userID orderID asset amount db d'"
    if r: "r \<in> set (db_wallets db)" "w_ID r = w_ID w" "x \<le> w_Available r" "\<not> w_IsFrozen w"
    and c: "createReservation W \<lparr>rv_ID = p_uuid_text W rid, rv_OrderID = orderID,
       rv_UserID = userID, rv_Asset = asset, rv_ReservedAmount = amount, rv_ConsumedAmount = ''0'',
       rv_RemainingAmount = amount, rv_Status = ReservationActive\<rparr> ?d = Inr ((), d1)"
    and t: "createTransaction W \<lparr>wt_ID = p_uuid_text W tid, wt_WalletID = p_uuid_text W (w_ID w), wt_ReferenceID = orderID,
       wt_ReferenceType = ''RESERVATION'', wt_TransactionType = TxnTypeDebit, wt_Asset = asset, wt_Amount = amount\<rparr> d1 = Inr ((), d')"
    for r d1 d' rid tid
  proof -
    note cr = createReservation_exact[OF W c, simplified, OF refl o u(1) p x(2)]
    from t obtain ref where ref: "p_uuid W orderID = Some ref" and d': "d' = addLedger [\<lparr>t_ID = tid, t_WalletID = w_ID w,
      t_ReferenceID = ref, t_ReferenceType = ''RESERVATION'', t_Type = TxnTypeDebit, t_Asset = asset, t_Amount = x\<rparr>] d1"
      by (rule createTransaction_exact[OF W _ _ _ _ x(2)]) (simp_all add: p)
    have "r = w" using key_unique[OF rows_okD(1)[OF ok] r(1) w r(2)] .
    with ref d' o cr r w u x show ?thesis unfolding reserves_def
      by (intro exI[of _ w] exI[of _ x] exI[of _ ord] exI[of _ rid] exI[of _ tid]) simp
  qed
  have granted: "grants W userID orderID asset amount \<lparr>rv_ID = p_uuid_text W rid, rv_OrderID = orderID,
       rv_UserID = userID, rv_Asset = asset, rv_ReservedAmount = amount, rv_ConsumedAmount = ''0'',
       rv_RemainingAmount = amount, rv_Status = ReservationActive\<rparr> d'"
    if r: "r \<in> set (db_wallets db)" "w_ID r = w_ID w" "x \<le> w_Available r" "\<not> w_IsFrozen w"
    and c: "createReservation W \<lparr>rv_ID = p_uuid_text W rid, rv_OrderID = orderID,
       rv_UserID = userID, rv_Asset = asset, rv_ReservedAmount = amount, rv_ConsumedAmount = ''0'',
       rv_RemainingAmount = amount, rv_Status = ReservationActive\<rparr> ?d = Inr ((), d1)"
    and t: "createTransaction W \<lparr>wt_ID = p_uuid_text W tid, wt_WalletID = p_uuid_text W (w_ID w), wt_ReferenceID = orderID,
       wt_ReferenceType = ''RESERVATION'', wt_TransactionType = TxnTypeDebit, wt_Asset = asset, wt_Amount = amount\<rparr> d1 = Inr ((), d')"
    for r d1 d' rid tid
  proof (rule reserves_grants[OF W step[OF that], where rid = rid])
    note cr = createReservation_exact[OF W c, simplified, OF refl o u(1) p x(2)]
    from t obtain tr where "d' = addLedger [tr] d1" by (rule createTransaction_exact[OF W _ _ _ _ x(2)]) (simp_all add: p)
    with cr show "\<exists>v\<in>set (db_reservations d'). r_ID v = rid \<and> v \<notin> set (db_reservations db)" by auto
  qed simp_all
  show ?thesis
    unfolding placeReservation_def Let_def walletOf_simps
    by (intro hoare_if hoare_throw hoare_MoveToReserved[OF W ok p x(2)] hoare_newUUID hoare_try_stmt hoare_commit
        hoare_ret hoare_commit_aborted hoare_try_query_aborted hoare_sum hoare_option hoare_lift_last)
      (simp_all add: idle_def working_def aborted_def step granted)
qed


text \<open>The value returned is the reservation made or the one reused.\<close>

lemma ReserveFunds_hoare:
  assumes W: "wlib_ok W T" and ok: "rows_ok T db" and as: "assets_ok T db"
  shows "hoare (idle db) (ReserveFunds en W userID orderID asset amount)
    (\<lambda>rv s. (x_base s = db \<and> reusable W userID orderID asset amount db \<or>
       reserves W T userID orderID asset amount db (x_base s)) \<and> grants W userID orderID asset amount rv (x_base s))
    (\<lambda>_ s. x_base s = db \<or> reserves W T userID orderID asset amount db (x_base s))"
  (is "hoare _ _ ?Q ?E")
proof -
  have place: "hoare (working db db) (placeReservation en W (walletOf W r) userID orderID asset amount) ?Q ?E"
    if o: "p_uuid W orderID = Some ord"
      and r: "r \<in> set (db_wallets db)" "p_uuid W userID = Some (w_UserID r)" "w_Asset r = asset"
      and v: "validateReservationRequest W asset amount = Inr ()"
      and a: "GetByCode asset db = Inr (Some a)"
      and sc: "\<not> a_Decimals a < decimalScale W (case d_NewFromString W amount of Some d \<Rightarrow> d | None \<Rightarrow> 0)" for ord r a
  proof -
    from v obtain x where x: "d_NewFromString W amount = Some x"
      by (auto simp: validateReservationRequest_def split: option.splits if_splits)
    from GetByCode_Some[OF a] as have "a_Decimals a \<le> 10" by (auto simp: assets_ok_def)
    with sc x decimalScale_in[OF W, of x "a_Decimals a"] have xT: "x \<in> T" by simp
    show ?thesis by (rule hoare_conseq[OF placeReservation_hoare[OF W ok r x xT o]]) simp_all
  qed
  have E: "?E e s" if "idle db s \<or> working db db s" for e s using that by (auto simp: idle_def working_def)
  have reused: "?Q rv s" if "working db db s" "r \<in> set (db_reservations db)" "p_uuid W orderID = Some (r_OrderID r)"
    "validateExistingReservation W (reservationOf W r) userID asset amount = Inr rv" for rv r s
    using reuse[OF W that(2-4)] that(1) by (simp add: working_def)
  show ?thesis
    unfolding ReserveFunds_def
    apply (intro hoare_lift hoare_begin hoare_findReservation hoare_findWallet hoare_lock hoare_asset
        hoare_option hoare_if hoare_throw hoare_lift_last)
    apply (simp_all add: E reused)
    apply (rule place; simp)
    done
qed

lemma reserves_step:
  assumes "reserves W T userID orderID asset amount db db'"
  shows "wallet_step T D db db'"
  using assms unfolding reserves_def by (auto intro: wallet_step.reserve)

section \<open>Releasing\<close>

definition releases ::
  "('d::linordered_idom) wlib \<Rightarrow> string \<Rightarrow> 'd wallet_db \<Rightarrow> 'd wallet_db \<Rightarrow> bool" where
  "releases W orderID db db' \<longleftrightarrow>
     (\<exists>r\<in>set (db_reservations db). p_uuid W orderID = Some (r_OrderID r) \<and>
        (r_Status r = ReservationActive \<or> r_Status r = ReservationPartiallyConsumed) \<and>
        (if r_Remaining r \<le> 0 then db' = onReservation (r_ID r) released db
         else \<exists>w\<in>set (db_wallets db). \<exists>tid. w_UserID w = r_UserID r \<and> w_Asset w = r_Asset r \<and>
           r_Remaining r \<le> w_Reserved w \<and>
           db' = addLedger [\<lparr>t_ID = tid, t_WalletID = w_ID w, t_ReferenceID = r_OrderID r, t_ReferenceType = ''RELEASE'',
                     t_Type = TxnTypeCredit, t_Asset = r_Asset r, t_Amount = r_Remaining r\<rparr>]
             (onReservation (r_ID r) released (onWallet (w_ID w) (unreserved (r_Remaining r)) db))))"

text \<open>The reservation of the order has already ended.\<close>

definition ended :: "'d wlib \<Rightarrow> string \<Rightarrow> 'd wallet_db \<Rightarrow> bool" where
  "ended W orderID db \<longleftrightarrow>
     (\<exists>r\<in>set (db_reservations db). p_uuid W orderID = Some (r_OrderID r) \<and>
        (r_Status r = ReservationReleased \<or> r_Status r = ReservationConsumed))"

lemma releases_step:
  assumes "releases W orderID db db'"
  shows "wallet_step T D db db'"
proof -
  from assms obtain r where r: "r \<in> set (db_reservations db)" "live r"
    and d: "if r_Remaining r \<le> 0 then db' = onReservation (r_ID r) released db
         else \<exists>w\<in>set (db_wallets db). \<exists>tid. w_UserID w = r_UserID r \<and> w_Asset w = r_Asset r \<and>
           r_Remaining r \<le> w_Reserved w \<and>
           db' = addLedger [\<lparr>t_ID = tid, t_WalletID = w_ID w, t_ReferenceID = r_OrderID r, t_ReferenceType = ''RELEASE'',
                     t_Type = TxnTypeCredit, t_Asset = r_Asset r, t_Amount = r_Remaining r\<rparr>]
             (onReservation (r_ID r) released (onWallet (w_ID w) (unreserved (r_Remaining r)) db))"
    by (auto simp: releases_def live_def)
  show ?thesis
  proof (cases "r_Remaining r \<le> 0")
    case True
    with d r show ?thesis by (auto intro: wallet_step.release_empty)
  next
    case False
    with d obtain w tid where w: "w \<in> set (db_wallets db)" "w_UserID w = r_UserID r" "w_Asset w = r_Asset r"
      "r_Remaining r \<le> w_Reserved w"
      "db' = addLedger [\<lparr>t_ID = tid, t_WalletID = w_ID w, t_ReferenceID = r_OrderID r, t_ReferenceType = ''RELEASE'',
                     t_Type = TxnTypeCredit, t_Asset = r_Asset r, t_Amount = r_Remaining r\<rparr>]
             (onReservation (r_ID r) released (onWallet (w_ID w) (unreserved (r_Remaining r)) db))"
      by auto
    from False have "0 < r_Remaining r" by simp
    from wallet_step.release[OF r this w(1-4)] show ?thesis by (simp add: w(5))
  qed
qed

lemma returnRemaining_hoare:
  assumes W: "wlib_ok W T" and ok: "rows_ok T db" and r: "r \<in> set (db_reservations db)"
    and o: "p_uuid W orderID = Some (r_OrderID r)"
    and st: "r_Status r = ReservationActive \<or> r_Status r = ReservationPartiallyConsumed" and pos: "\<not> r_Remaining r \<le> 0"
  shows "hoare (working db db) (returnRemaining en W orderID (reservationOf W r))
    (\<lambda>_ s. releases W orderID db (x_base s)) (\<lambda>_ s. x_base s = db \<or> releases W orderID db (x_base s))"
proof -
  let ?x = "r_Remaining r"
  have x: "?x \<in> T" using rows_okD(6)[OF ok r] by (simp add: reservation_row_ok_def)
  have p: "p_decimal W (p_decimal_text W ?x) = Some ?x" using p_decimal_text[OF W] .
  have step: "releases W orderID db d'"
    if w: "w \<in> set (db_wallets db)" "p_uuid W (p_uuid_text W (r_UserID r)) = Some (w_UserID w)" "w_Asset w = r_Asset r"
      and v: "v \<in> set (db_wallets db)" "w_ID v = w_ID w" "?x \<le> w_Reserved v"
      and t: "createTransaction W \<lparr>wt_ID = p_uuid_text W tid, wt_WalletID = p_uuid_text W (w_ID w), wt_ReferenceID = orderID,
        wt_ReferenceType = ''RELEASE'', wt_TransactionType = TxnTypeCredit, wt_Asset = r_Asset r,
        wt_Amount = p_decimal_text W ?x\<rparr> (onReservation (r_ID r) released (onWallet (w_ID w) (unreserved ?x) db)) = Inr ((), d')"
    for w v tid d'
  proof -
    from t obtain ref where ref: "p_uuid W orderID = Some ref" and d': "d' = addLedger [\<lparr>t_ID = tid, t_WalletID = w_ID w,
      t_ReferenceID = ref, t_ReferenceType = ''RELEASE'', t_Type = TxnTypeCredit, t_Asset = r_Asset r, t_Amount = ?x\<rparr>]
      (onReservation (r_ID r) released (onWallet (w_ID w) (unreserved ?x) db))"
      by (rule createTransaction_exact[OF W _ _ _ _ x]) (simp_all add: p)
    have "v = w" using key_unique[OF rows_okD(1)[OF ok] v(1) w(1) v(2)] .
    moreover have "w_UserID w = r_UserID r" using w(2) wlib_okD(2)[OF W] by simp
    ultimately show ?thesis unfolding releases_def using o st pos ref d' w v
      by (intro bexI[OF _ r]) auto
  qed
  show ?thesis
    unfolding returnRemaining_def reservationOf_simps
    apply (rule hoare_findWallet)
      apply (rule hoare_throw, simp add: working_def)
     apply (unfold walletOf_simps)
     apply (intro hoare_lock hoare_MoveFromReserved[OF W ok p x] hoare_UpdateReleased[OF W] hoare_newUUID
        hoare_try_stmt hoare_if hoare_throw hoare_commit_last hoare_commit_aborted_last)
    apply (simp_all add: idle_def working_def aborted_def step)
    done
qed

lemma ReleaseFunds_hoare:
  assumes W: "wlib_ok W T" and ok: "rows_ok T db"
  shows "hoare (idle db) (ReleaseFunds en W orderID)
    (\<lambda>_ s. x_base s = db \<and> ended W orderID db \<or> releases W orderID db (x_base s))
    (\<lambda>_ s. x_base s = db \<or> releases W orderID db (x_base s))"
  (is "hoare _ _ ?Q ?E")
proof -
  have st: "r_Status r = ReservationActive \<or> r_Status r = ReservationPartiallyConsumed"
    if "\<not> (r_Status r = ReservationReleased \<or> r_Status r = ReservationConsumed)" for r :: "'d reservation_row"
    using that by (cases "r_Status r") auto
  have empty: "releases W orderID db (onReservation (r_ID r) released db)"
    if "r \<in> set (db_reservations db)" "p_uuid W orderID = Some (r_OrderID r)"
      "\<not> (r_Status r = ReservationReleased \<or> r_Status r = ReservationConsumed)" "r_Remaining r \<le> 0" for r
    using st[OF that(3)] that unfolding releases_def by auto
  have row: "hoare (working db db) (if r_Status r = ReservationReleased \<or> r_Status r = ReservationConsumed then ret ()
       else if r_Remaining r \<le> 0 then bindT (UpdateStatus en W (p_uuid_text W (r_ID r)) ReservationReleased) (\<lambda>_. commit en ErrInternal)
         else returnRemaining en W orderID (reservationOf W r)) ?Q ?E"
    if r: "r \<in> set (db_reservations db)" "p_uuid W orderID = Some (r_OrderID r)" for r
    by (intro hoare_if hoare_ret hoare_UpdateReleased[OF W ok] hoare_commit_last
          hoare_conseq[OF returnRemaining_hoare[OF W ok r st]])
      (use r in \<open>auto simp: idle_def working_def ended_def intro: empty\<close>)
  show ?thesis
    unfolding ReleaseFunds_def
    by (intro hoare_begin hoare_findReservation hoare_throw, unfold reservationOf_simps wlib_okD(4)[OF W] option.case)
      (intro row | simp add: idle_def working_def)+
qed


section \<open>Depositing\<close>

definition deposits ::
  "('d::linordered_idom) wlib \<Rightarrow> 'd set \<Rightarrow> string \<Rightarrow> string \<Rightarrow> string \<Rightarrow> string \<Rightarrow> string \<Rightarrow>
   'd wallet_db \<Rightarrow> 'd wallet_db \<Rightarrow> bool" where
  "deposits W T userID asset amount referenceID referenceType db db' \<longleftrightarrow>
     (\<exists>w x ref tid. w \<in> set (db_wallets db) \<and> p_uuid W userID = Some (w_UserID w) \<and> w_Asset w = asset \<and>
        \<not> w_IsFrozen w \<and> d_NewFromString W amount = Some x \<and> x \<in> T \<and> 0 < x \<and> p_uuid W referenceID = Some ref \<and>
        (\<forall>l\<in>set (db_ledger db). \<not> (t_WalletID l = w_ID w \<and> t_ReferenceID l = ref \<and> t_ReferenceType l = referenceType)) \<and>
        db' = addLedger [\<lparr>t_ID = tid, t_WalletID = w_ID w, t_ReferenceID = ref, t_ReferenceType = referenceType,
                   t_Type = TxnTypeCredit, t_Asset = asset, t_Amount = x\<rparr>] (onWallet (w_ID w) (credited x) db))"

text \<open>The deposit is in the ledger already.\<close>

definition recorded :: "'d wlib \<Rightarrow> string \<Rightarrow> string \<Rightarrow> string \<Rightarrow> string \<Rightarrow> 'd wallet_db \<Rightarrow> bool" where
  "recorded W userID asset referenceID referenceType db \<longleftrightarrow>
     (\<exists>w\<in>set (db_wallets db). \<exists>l\<in>set (db_ledger db). p_uuid W userID = Some (w_UserID w) \<and> w_Asset w = asset \<and>
        t_WalletID l = w_ID w \<and> p_uuid W referenceID = Some (t_ReferenceID l) \<and> t_ReferenceType l = referenceType)"

text \<open>Generated identifiers are new to the ledger.\<close>

definition fresh_ids :: "pg_env \<Rightarrow> 'd wallet_db \<Rightarrow> bool" where
  "fresh_ids en db \<longleftrightarrow> (\<forall>n u. pe_uuid en n = Some u \<longrightarrow> (\<forall>l\<in>set (db_ledger db). t_ID l \<noteq> u))"

lemma deposits_step:
  assumes "deposits W T userID asset amount referenceID referenceType db db'" and "referenceType \<in> D"
  shows "wallet_step T D db db'"
  using assms unfolding deposits_def by (auto intro: wallet_step.deposit)

lemma createTransaction_dup:
  assumes "createTransaction W t d = Inl ErrDuplicate" and "wlib_ok W T"
    and "wt_ID t = p_uuid_text W i" "wt_WalletID t = p_uuid_text W w" "p_uuid W (wt_ReferenceID t) = Some ref"
  shows "\<exists>l\<in>set (db_ledger d). t_ID l = i \<or>
    (t_WalletID l = w \<and> t_ReferenceID l = ref \<and> t_ReferenceType l = wt_ReferenceType t)"
  using assms wlib_okD(2)[OF assms(2)] by (auto simp: createTransaction_def split: option.splits if_splits)

lemma creditDeposit_hoare:
  assumes W: "wlib_ok W T" and ok: "rows_ok T db" and w: "w \<in> set (db_wallets db)"
    and u: "p_uuid W userID = Some (w_UserID w)" "w_Asset w = asset" "\<not> w_IsFrozen w"
    and x: "d_NewFromString W amount = Some x" "x \<in> T"
  shows "hoare (idle db) (creditDeposit en W (walletOf W w) userID asset x referenceID referenceType)
    (\<lambda>_ s. x_base s = db \<and> (recorded W userID asset referenceID referenceType db \<or> \<not> fresh_ids en db) \<or>
       deposits W T userID asset amount referenceID referenceType db (x_base s))
    (\<lambda>_ s. x_base s = db \<or> deposits W T userID asset amount referenceID referenceType db (x_base s))"
proof -
  have p: "p_decimal W (d_StringFixed W x 10) = Some x" using wlib_okD(3,5)[OF W] x(2) by blast
  let ?t = "\<lambda>tid. \<lparr>wt_ID = p_uuid_text W tid, wt_WalletID = p_uuid_text W (w_ID w), wt_ReferenceID = referenceID,
       wt_ReferenceType = referenceType, wt_TransactionType = TxnTypeCredit, wt_Asset = asset,
       wt_Amount = d_StringFixed W x 10\<rparr>"
  let ?d = "onWallet (w_ID w) (credited x) db"
  have none: "\<exists>ref. p_uuid W referenceID = Some ref \<and> (\<forall>l\<in>set (db_ledger db).
      \<not> (t_WalletID l = w_ID w \<and> t_ReferenceID l = ref \<and> t_ReferenceType l = referenceType))"
    if "GetByWalletAndReference W (p_uuid_text W (w_ID w)) referenceID referenceType db = Inr None"
    using that wlib_okD(2)[OF W] by (auto simp: GetByWalletAndReference_def find_None_iff split: option.splits)
  have some: "recorded W userID asset referenceID referenceType db"
    if "GetByWalletAndReference W (p_uuid_text W (w_ID w)) referenceID referenceType db = Inr (Some l)" for l
    using that wlib_okD(2)[OF W] w u by (auto simp: GetByWalletAndReference_def recorded_def split: option.splits dest!: find_in)
  have step: "deposits W T userID asset amount referenceID referenceType db d'"
    if g: "GetByWalletAndReference W (p_uuid_text W (w_ID w)) referenceID referenceType db = Inr None"
      and t: "createTransaction W (?t tid) ?d = Inr ((), d')" for tid d'
  proof -
    from none[OF g] obtain ref where ref: "p_uuid W referenceID = Some ref" and new: "\<forall>l\<in>set (db_ledger db).
      \<not> (t_WalletID l = w_ID w \<and> t_ReferenceID l = ref \<and> t_ReferenceType l = referenceType)" by blast
    from t obtain ref' where "p_uuid W referenceID = Some ref'" "0 < x" and d': "d' = addLedger [\<lparr>t_ID = tid, t_WalletID = w_ID w,
      t_ReferenceID = ref', t_ReferenceType = referenceType, t_Type = TxnTypeCredit, t_Asset = asset, t_Amount = x\<rparr>] ?d"
      by (rule createTransaction_exact[OF W _ _ _ _ x(2)]) (simp_all add: p)
    with ref new w u x show ?thesis unfolding deposits_def
      by (intro exI[of _ w] exI[of _ x] exI[of _ ref] exI[of _ tid]) simp
  qed
  have dup: "\<not> fresh_ids en db"
    if g: "GetByWalletAndReference W (p_uuid_text W (w_ID w)) referenceID referenceType db = Inr None"
      and n: "pe_uuid en n = Some tid" and t: "createTransaction W (?t tid) ?d = Inl ErrDuplicate" for n tid
  proof -
    from none[OF g] obtain ref where ref: "p_uuid W referenceID = Some ref" and new: "\<forall>l\<in>set (db_ledger db).
      \<not> (t_WalletID l = w_ID w \<and> t_ReferenceID l = ref \<and> t_ReferenceType l = referenceType)" by blast
    with createTransaction_dup[OF t W, of tid "w_ID w" ref] n show ?thesis by (auto simp: fresh_ids_def)
  qed
  show ?thesis
    unfolding creditDeposit_def walletOf_simps Let_def
    apply (intro hoare_begin hoare_lock hoare_if hoare_throw
        hoare_query[where f = "GetByWalletAndReference W i r t" for i r t] hoare_option hoare_findWallet
        hoare_ret hoare_newUUID hoare_CreditAvailable[OF W ok p x(2)] hoare_try_stmt hoare_sum hoare_commit)
    apply (simp_all add: idle_def working_def aborted_def step some)
    apply (intro hoare_try_poolQuery_aborted hoare_sum hoare_option hoare_throw hoare_ret)
       apply (simp_all add: aborted_def dup)
    done
qed

lemma DepositFunds_hoare:
  assumes W: "wlib_ok W T" and ok: "rows_ok T db" and as: "assets_ok T db"
  shows "hoare (idle db) (DepositFunds en W userID asset amount referenceID referenceType)
    (\<lambda>_ s. x_base s = db \<and> (recorded W userID asset referenceID referenceType db \<or> \<not> fresh_ids en db) \<or>
       deposits W T userID asset amount referenceID referenceType db (x_base s))
    (\<lambda>_ s. x_base s = db \<or> deposits W T userID asset amount referenceID referenceType db (x_base s))"
proof -
  have xT: "x \<in> T" if "GetByCode asset db = Inr (Some a)" "\<not> a_Decimals a < decimalScale W x" for a x
    using GetByCode_Some[OF that(1)] as that(2) decimalScale_in[OF W, of x "a_Decimals a"] by (auto simp: assets_ok_def)
  have some: "recorded W userID asset referenceID referenceType db"
    if "GetByWalletAndReference W (p_uuid_text W (w_ID w)) referenceID referenceType db = Inr (Some l)"
      "w \<in> set (db_wallets db)" "p_uuid W userID = Some (w_UserID w)" "w_Asset w = asset" for l w
    using that wlib_okD(2)[OF W] by (auto simp: GetByWalletAndReference_def recorded_def split: option.splits dest!: find_in)
  show ?thesis
    unfolding DepositFunds_def
    apply (intro hoare_if hoare_option hoare_throw hoare_poolQuery[where f = "GetByCode code" for code]
        hoare_findWallet_pool hoare_poolQuery[where f = "GetByWalletAndReference W i r t" for i r t] hoare_ret)
    apply (simp_all add: idle_def)
     apply (rule creditDeposit_hoare[OF W ok]; (assumption | rule xT | simp)+)
    apply (rule impI, rule disjI1, rule some; assumption)
    done
qed


section \<open>Freezing and new wallets\<close>

definition freezes :: "'d wlib \<Rightarrow> string \<Rightarrow> string \<Rightarrow> bool \<Rightarrow> string \<Rightarrow> 'd wallet_db \<Rightarrow> 'd wallet_db \<Rightarrow> bool" where
  "freezes W userID asset frz reason db db' \<longleftrightarrow>
     (\<exists>w\<in>set (db_wallets db). p_uuid W userID = Some (w_UserID w) \<and> w_Asset w = asset \<and>
        db' = onWallet (w_ID w)
          (if frz then frozenTo True (Some ''admin'') (Some reason) else frozenTo False None None) db)"

lemma freezes_step: "freezes W userID asset frz reason db db' \<Longrightarrow> wallet_step T D db db'"
  unfolding freezes_def by (auto intro: wallet_step.freeze)

lemma freezeUpdate:
  assumes W: "wlib_ok W T" and ok: "rows_ok T db" and w: "w \<in> set (db_wallets db)"
    and u: "updateWallets W (p_uuid_text W (w_ID w)) (\<lambda>_. True) (frozenTo b who why) db = Inr (n, d')"
  shows "d' = onWallet (w_ID w) (frozenTo b who why) db" and "0 < n"
proof -
  have in_T: "w_Available (frozenTo b who why r) \<in> T \<and> w_Reserved (frozenTo b who why r) \<in> T \<and>
      w_Initial (frozenTo b who why r) \<in> T \<and> w_Total (frozenTo b who why r) \<in> T"
    if "wallet_row_ok T r" for r
    using that wlib_places[OF W] by (auto simp: wallet_row_ok_def frozenTo_def places_closed_def)
  have n: "n \<noteq> 0"
  proof
    assume "n = 0"
    with u wlib_okD(2)[OF W] obtain rows where
      "update_rows (\<lambda>r. w_ID r = w_ID w \<and> True) (\<lambda>r. storeWallet W (frozenTo b who why r)) (db_wallets db) = Inr (rows, 0)"
      by (auto simp: updateWallets_def split: sum.splits)
    from update_rows_zero_none[OF this] w show False by blast
  qed
  then show "0 < n" by simp
  obtain i where "p_uuid W (p_uuid_text W (w_ID w)) = Some i" "d' = onWallet i (frozenTo b who why) db"
    by (rule updateWallets_exact[OF W ok _ in_T u n]) (simp | blast)+
  then show "d' = onWallet (w_ID w) (frozenTo b who why) db" using wlib_okD(2)[OF W] by simp
qed

lemma FreezeWallet_hoare:
  assumes W: "wlib_ok W T" and ok: "rows_ok T db"
  shows "hoare (idle db) (FreezeWallet en W userID asset frz reason)
    (\<lambda>b s. b = frz \<and> freezes W userID asset frz reason db (x_base s))
    (\<lambda>_ s. x_base s = db \<or> freezes W userID asset frz reason db (x_base s))"
proof -
  have fr: "freezeRows W i ad why = updateWallets W i (\<lambda>_. True) (frozenTo True (Some ad) (Some why))"
    and un: "unfreezeRows W i = updateWallets W i (\<lambda>_. True) (frozenTo False None None)" for i ad why
    by (simp_all add: freezeRows_def unfreezeRows_def frozenTo_def[abs_def])
  note eff = freezeUpdate[OF W ok]
  show ?thesis
    unfolding FreezeWallet_def fr un
    apply (intro hoare_findWallet_pool hoare_throw hoare_if hoare_pool hoare_ret)
    apply (simp_all add: idle_def eff)
    apply (auto simp: freezes_def dest: eff)
    done
qed


text \<open>What the loop over the enabled assets does to the working copy.\<close>

lemma createWallet_exact:
  assumes W: "wlib_ok W T" and s: "createWallet W w d = Inr (u, d')"
    and w: "wl_ID w = p_uuid_text W i" "p_uuid W (wl_UserID w) = Some uid" "p_decimal W (wl_AvailableBalance w) = Some x"
      "wl_ReservedBalance w = ''0''" "p_decimal W (wl_InitialBalance w) = Some x" "p_decimal W (wl_TotalBalance w) = Some x"
    and x: "x \<in> T"
  obtains r where "d' = d\<lparr>db_wallets := db_wallets d @ [r]\<rparr>" "w_ID r = i" "w_UserID r = uid" "w_Asset r = wl_Asset w"
    "wallet_row_ok T r" "w_Reserved r = 0" "w_Initial r = w_Available r" "w_Available r = x"
    "\<forall>v\<in>set (db_wallets d). w_ID v \<noteq> w_ID r \<and> (w_UserID v \<noteq> w_UserID r \<or> w_Asset v \<noteq> w_Asset r)"
proof -
  let ?r = "\<lparr>w_ID = i, w_UserID = uid, w_Asset = wl_Asset w, w_Available = x, w_Reserved = 0,
     w_IsFrozen = wl_IsFrozen w, w_FrozenBy = None, w_FreezeReason = None, w_Initial = x, w_Total = x\<rparr>"
  from s obtain r where r: "storeWallet W ?r = Inr r"
    and f: "\<not> (\<exists>v\<in>set (db_wallets d). w_ID v = i \<or> (w_UserID v = uid \<and> w_Asset v = wl_Asset w))"
    and d': "d' = d\<lparr>db_wallets := db_wallets d @ [r]\<rparr>"
    by (auto simp: createWallet_def w wlib_okD(15)[OF W] wlib_okD(2)[OF W] split: sum.splits if_splits)
  from storeWallet_exact[OF W r] x wlib_okD(10)[OF W] have "r = ?r" "wallet_row_ok T ?r" by auto
  with that[of ?r] d' f show thesis by auto
qed

lemma initializeAssets_hoare:
  assumes W: "wlib_ok W T" and "\<forall>a\<in>set as. a_SeedAmount a \<in> T" and "(wallet_step T D)\<^sup>*\<^sup>* db d"
  shows "hoare (working b d) (initializeAssets en W userID as)
    (\<lambda>_ s. \<exists>d'. working b d' s \<and> (wallet_step T D)\<^sup>*\<^sup>* db d') (\<lambda>_. idle b)"
  using assms(2,3)
proof (induction as arbitrary: d)
  case Nil
  then show ?case by (auto intro!: hoare_ret)
next
  case (Cons a as)
  let ?seed = "p_decimal_text W (a_SeedAmount a)"
  have x: "a_SeedAmount a \<in> T" and rest: "\<forall>a\<in>set as. a_SeedAmount a \<in> T" using Cons.prems(1) by auto
  have p: "p_decimal W ?seed = Some (a_SeedAmount a)" using p_decimal_text[OF W] .
  let ?w = "\<lambda>i. \<lparr>wl_ID = p_uuid_text W i, wl_UserID = userID, wl_Asset = a_Code a, wl_AvailableBalance = ?seed,
      wl_ReservedBalance = ''0'', wl_IsFrozen = False, wl_InitialBalance = ?seed, wl_TotalBalance = ?seed\<rparr>"
  have made: "\<exists>r. d1 = d\<lparr>db_wallets := db_wallets d @ [r]\<rparr> \<and> w_ID r = i \<and> w_Asset r = a_Code a \<and> w_Available r = a_SeedAmount a \<and>
      (\<forall>ls tid ref. ls = [] \<and> w_Available r = 0 \<or> ls = [\<lparr>t_ID = tid, t_WalletID = w_ID r, t_ReferenceID = ref,
         t_ReferenceType = ''INITIAL_ALLOCATION'', t_Type = TxnTypeCredit, t_Asset = w_Asset r, t_Amount = w_Available r\<rparr>] \<longrightarrow>
         (wallet_step T D)\<^sup>*\<^sup>* db (addLedger ls d1))"
    if c: "createWallet W (?w i) d = Inr ((), d1)" for i d1
  proof -
    obtain uid where uid: "p_uuid W userID = Some uid" using c by (auto simp: createWallet_def split: option.splits)
    obtain r where r: "d1 = d\<lparr>db_wallets := db_wallets d @ [r]\<rparr>" "w_ID r = i" "w_UserID r = uid" "w_Asset r = a_Code a"
      "wallet_row_ok T r" "w_Reserved r = 0" "w_Initial r = w_Available r" "w_Available r = a_SeedAmount a"
      "\<forall>v\<in>set (db_wallets d). w_ID v \<noteq> w_ID r \<and> (w_UserID v \<noteq> w_UserID r \<or> w_Asset v \<noteq> w_Asset r)"
      by (rule createWallet_exact[OF W c, where x = "a_SeedAmount a" and i = i and uid = uid]) (simp_all add: p x uid)
    have "(wallet_step T D)\<^sup>*\<^sup>* db (addLedger ls d1)"
      if "ls = [] \<and> w_Available r = 0 \<or> ls = [\<lparr>t_ID = tid, t_WalletID = w_ID r, t_ReferenceID = ref,
         t_ReferenceType = ''INITIAL_ALLOCATION'', t_Type = TxnTypeCredit, t_Asset = w_Asset r, t_Amount = w_Available r\<rparr>]" for ls tid ref
      using wallet_step.create[OF r(5-7,9) that] Cons.prems(2) unfolding r(1) by (rule rtranclp.rtrancl_into_rtrancl[rotated])
    with r show ?thesis by (intro exI[of _ r]) simp
  qed
  have zero: "a_SeedAmount a = 0" if "?seed = ''0'' \<or> ?seed = ''0.0000000000''"
    using that p wlib_okD(15,16)[OF W] by auto
  have plain: "(wallet_step T D)\<^sup>*\<^sup>* db d1"
    if "createWallet W (?w i) d = Inr ((), d1)" "?seed = ''0'' \<or> ?seed = ''0.0000000000''" for i d1
  proof -
    from made[OF that(1)] zero[OF that(2)] have "(wallet_step T D)\<^sup>*\<^sup>* db (addLedger [] d1)" by auto
    then show ?thesis by (simp add: addLedger_def)
  qed
  have funded: "(wallet_step T D)\<^sup>*\<^sup>* db d2"
    if c: "createWallet W (?w i) d = Inr ((), d1)"
      and t: "createTransaction W \<lparr>wt_ID = p_uuid_text W j, wt_WalletID = p_uuid_text W i,
      wt_ReferenceID = userID, wt_ReferenceType = ''INITIAL_ALLOCATION'', wt_TransactionType = TxnTypeCredit,
      wt_Asset = a_Code a, wt_Amount = ?seed\<rparr> d1 = Inr ((), d2)" for i j d1 d2
  proof -
    from t obtain ref where d2: "d2 = addLedger [\<lparr>t_ID = j, t_WalletID = i, t_ReferenceID = ref,
        t_ReferenceType = ''INITIAL_ALLOCATION'', t_Type = TxnTypeCredit, t_Asset = a_Code a, t_Amount = a_SeedAmount a\<rparr>] d1"
      by (rule createTransaction_exact[OF W _ _ _ _ x]) (simp_all add: p)
    from made[OF c] show ?thesis unfolding d2 by auto
  qed
  show ?case
    unfolding initializeAssets.simps Let_def
    apply (intro hoare_query hoare_option hoare_newUUID hoare_stmt hoare_if Cons.IH[OF rest])
    apply (simp_all add: Cons.prems(2) plain funded)
    done
qed

lemma InitializeWallet_hoare:
  assumes W: "wlib_ok W T" and as: "assets_ok T db"
  shows "hoare (idle db) (InitializeWallet en W userID)
    (\<lambda>_ s. (wallet_step T D)\<^sup>*\<^sup>* db (x_base s)) (\<lambda>_ s. (wallet_step T D)\<^sup>*\<^sup>* db (x_base s))"
proof -
  have seeds: "\<forall>a\<in>set assets. a_SeedAmount a \<in> T" if "GetEnabled db = Inr assets" for assets
    using that as by (auto simp: GetEnabled_def assets_ok_def)
  have loop: "hoare (working db db) (bindT (initializeAssets en W userID assets) (\<lambda>_. commit en ErrInternal))
      (\<lambda>_ s. (wallet_step T D)\<^sup>*\<^sup>* db (x_base s)) (\<lambda>_ s. (wallet_step T D)\<^sup>*\<^sup>* db (x_base s))"
    if "GetEnabled db = Inr assets" for assets
  proof (rule hoare_bind[where Q' = "\<lambda>_ s. \<exists>d'. working db d' s \<and> (wallet_step T D)\<^sup>*\<^sup>* db d'"])
    show "hoare (working db db) (initializeAssets en W userID assets)
        (\<lambda>_ s. \<exists>d'. working db d' s \<and> (wallet_step T D)\<^sup>*\<^sup>* db d') (\<lambda>_ s. (wallet_step T D)\<^sup>*\<^sup>* db (x_base s))"
      by (rule hoare_conseq[OF initializeAssets_hoare[OF W seeds[OF that] rtranclp.rtrancl_refl]])
        (simp_all add: idle_def)
    show "hoare (\<lambda>s. \<exists>d'. working db d' s \<and> (wallet_step T D)\<^sup>*\<^sup>* db d') (commit en ErrInternal)
        (\<lambda>_ s. (wallet_step T D)\<^sup>*\<^sup>* db (x_base s)) (\<lambda>_ s. (wallet_step T D)\<^sup>*\<^sup>* db (x_base s))" for a :: unit
      by (rule hoare_working_ex, rule hoare_commit_last) (simp_all add: idle_def)
  qed
  show ?thesis
    unfolding InitializeWallet_def
    by (intro hoare_poolQuery[where f = GetEnabled] hoare_begin loop) (simp_all add: idle_def)
qed

end
