(* ===== verification/WalletSettleRefine.thy ===== *)
theory WalletSettleRefine
  imports WalletSettle WalletRefine
begin

text \<open>
  The settlement of a trade refines the two legs of the abstract wallets: a call leaves the
  committed database alone or makes the whole settlement, its ledger and its events.
\<close>

section \<open>Rows of the working copy and of the database\<close>

text \<open>The keys of the rows stay, and a live reservation stays live, while legs run.\<close>

definition descends :: "'d wallet_db \<Rightarrow> 'd wallet_db \<Rightarrow> bool" where
  "descends d0 d \<longleftrightarrow>
     (\<forall>r\<in>set (db_wallets d). \<exists>r0\<in>set (db_wallets d0).
        w_ID r0 = w_ID r \<and> w_UserID r0 = w_UserID r \<and> w_Asset r0 = w_Asset r) \<and>
     (\<forall>r\<in>set (db_reservations d). \<exists>r0\<in>set (db_reservations d0).
        r_ID r0 = r_ID r \<and> r_OrderID r0 = r_OrderID r \<and> r_UserID r0 = r_UserID r \<and> r_Asset r0 = r_Asset r \<and>
        (live r0 \<longrightarrow> live r))"

lemma descends_refl: "descends d d"
  unfolding descends_def by blast

lemma descends_onWallet:
  assumes "descends d0 d" and f: "wallet_change f"
  shows "descends d0 (onWallet i f d)"
  unfolding descends_def db_effects
proof (intro conjI ballI)
  fix r assume "r \<in> set (upd w_ID i f (db_wallets d))"
  with f obtain r1 where "r1 \<in> set (db_wallets d)" "w_ID r1 = w_ID r" "w_UserID r1 = w_UserID r" "w_Asset r1 = w_Asset r"
    by (rule wallet_traced)
  with assms(1) show "\<exists>r0\<in>set (db_wallets d0). w_ID r0 = w_ID r \<and> w_UserID r0 = w_UserID r \<and> w_Asset r0 = w_Asset r"
    unfolding descends_def by metis
qed (use assms(1) in \<open>auto simp: descends_def\<close>)

lemma descends_consumed:
  assumes "descends d0 d"
  shows "descends d0 (onReservation i (consumed x) d)"
  unfolding descends_def db_effects
proof (intro conjI ballI)
  fix r assume "r \<in> set (upd r_ID i (consumed x) (db_reservations d))"
  then obtain r1 where "r1 \<in> set (db_reservations d)" "r_ID r1 = r_ID r" "r_OrderID r1 = r_OrderID r"
    "r_UserID r1 = r_UserID r" "r_Asset r1 = r_Asset r" "live r1 \<longrightarrow> live r"
    by (cases rule: set_updE) (force simp: consumed_def live_def)+
  with assms show "\<exists>r0\<in>set (db_reservations d0). r_ID r0 = r_ID r \<and> r_OrderID r0 = r_OrderID r \<and>
      r_UserID r0 = r_UserID r \<and> r_Asset r0 = r_Asset r \<and> (live r0 \<longrightarrow> live r)"
    unfolding descends_def by metis
qed (use assms in \<open>auto simp: descends_def\<close>)

lemma descends_settled: "descends d0 d \<Longrightarrow> descends d0 (addSettled x d)"
  by (simp add: descends_def)

lemma wallet_of:
  assumes "descends d0 d" and "rows_ok T d0" and "w \<in> set (db_wallets d0)" and "r \<in> set (db_wallets d)"
    and "w_ID r = w_ID w"
  shows "w_UserID r = w_UserID w \<and> w_Asset r = w_Asset w"
  using assms key_unique[OF rows_okD(1)[OF assms(2)] _ assms(3)] unfolding descends_def by metis

lemma reservation_of:
  assumes "descends d0 d" and "rows_ok T d0" and "v \<in> set (db_reservations d0)" and "r \<in> set (db_reservations d)"
    and "r_ID r = r_ID v" and "live v"
  shows "r_OrderID r = r_OrderID v \<and> r_UserID r = r_UserID v \<and> r_Asset r = r_Asset v \<and> live r"
  using assms key_unique[OF rows_okD(4)[OF assms(2)] _ assms(3)] unfolding descends_def by metis

section \<open>A leg\<close>

text \<open>What pays for a leg: the market maker's balance or a live reservation of the payer.\<close>

definition source :: "'d wlib \<Rightarrow> bool \<Rightarrow> reservation option \<Rightarrow> 'd wallet_row \<Rightarrow> uuid option \<Rightarrow> 'd wallet_db \<Rightarrow> bool" where
  "source W mm res payer src d \<longleftrightarrow>
     (if mm then src = None
      else \<exists>v\<in>set (db_reservations d). res = Some (reservationOf W v) \<and> live v \<and>
             r_UserID v = w_UserID payer \<and> r_Asset v = w_Asset payer \<and> src = Some (r_OrderID v))"

lemma hoare_transferLeg:
  assumes W: "wlib_ok W T" and ok0: "rows_ok T d0" and d: "descends d0 d" and ok: "rows_ok T d"
    and x: "p_decimal W amt = Some x" "x \<in> T"
    and payer: "payer \<in> set (db_wallets d0)" and payee: "payee \<in> set (db_wallets d0)"
    and asset: "w_Asset payee = w_Asset payer" and src: "source W mm res payer src d0"
    and k: "\<And>p q d'. leg T src p q x d d' \<Longrightarrow> w_ID p = w_ID payer \<Longrightarrow> w_UserID p = w_UserID payer \<Longrightarrow>
      w_Asset p = w_Asset payer \<Longrightarrow> w_ID q = w_ID payee \<Longrightarrow> w_UserID q = w_UserID payee \<Longrightarrow>
      w_Asset q = w_Asset payee \<Longrightarrow> descends d0 d' \<Longrightarrow> rows_ok T d' \<Longrightarrow> hoare (working b d') (k ()) Q E"
    and e: "\<And>e s. idle b s \<Longrightarrow> E e s"
  shows "hoare (working b d) (bindT (transferLeg en W mm (walletOf W payer) res (walletOf W payee) amt) k) Q E"
proof (cases mm)
  case True
  have src: "src = None" using src True by (simp add: source_def)
  have leg: "hoare (working b (onWallet (w_ID payee) (credited x) (onWallet (w_ID payer) (debited x) d))) (k ()) Q E"
    if p: "p \<in> set (db_wallets d)" "w_ID p = w_ID payer" "x \<le> w_Available p"
      and q: "q \<in> set (db_wallets (onWallet (w_ID payer) (debited x) d))" "w_ID q = w_ID payee"
      and r: "rows_ok T (onWallet (w_ID payee) (credited x) (onWallet (w_ID payer) (debited x) d))" for p q
  proof -
    have d1: "descends d0 (onWallet (w_ID payer) (debited x) d)" by (simp add: descends_onWallet d)
    note po = wallet_of[OF d ok0 payer p(1,2)] and qo = wallet_of[OF d1 ok0 payee q]
    have "leg T None p q x d (onWallet (w_ID q) (credited x) (onWallet (w_ID p) (debited x) d))"
      by (rule WalletSpec.leg.market_maker[OF p(1) x(2) p(3)]) (use q p po qo asset in simp_all)
    from k[OF this[folded src]] po qo p q d1 r show ?thesis by (simp add: descends_onWallet)
  qed
  show ?thesis
    unfolding transferLeg_def bindT_assoc walletOf_simps using True
    apply simp
    apply (intro hoare_DebitAvailable[OF W ok x] hoare_CreditAvailable[OF W _ x])
    apply (simp_all add: leg e)
    done
next
  case False
  with src obtain v where v: "v \<in> set (db_reservations d0)" "res = Some (reservationOf W v)" "live v"
    "r_UserID v = w_UserID payer" "r_Asset v = w_Asset payer" "src = Some (r_OrderID v)"
    by (auto simp: source_def)
  let ?d1 = "onWallet (w_ID payer) (spent x) d" and ?d2 = "onReservation (r_ID v) (consumed x) (onWallet (w_ID payer) (spent x) d)"
  have leg: "hoare (working b (onWallet (w_ID payee) (credited x) ?d2)) (k ()) Q E"
    if p: "p \<in> set (db_wallets d)" "w_ID p = w_ID payer" "x \<le> w_Reserved p"
      and u: "u \<in> set (db_reservations ?d1)" "r_ID u = r_ID v" "x \<le> r_Remaining u"
      and q: "q \<in> set (db_wallets ?d2)" "w_ID q = w_ID payee"
      and r: "rows_ok T (onWallet (w_ID payee) (credited x) ?d2)" for p q u
  proof -
    have d1: "descends d0 ?d1" by (simp add: descends_onWallet d)
    have d2: "descends d0 ?d2" by (simp add: descends_consumed d1)
    note po = wallet_of[OF d ok0 payer p(1,2)] and qo = wallet_of[OF d2 ok0 payee q]
    note uo = reservation_of[OF d1 ok0 v(1) u(1,2) v(3)]
    have "leg T (Some (r_OrderID u)) p q x d
        (onWallet (w_ID q) (credited x) (onReservation (r_ID u) (consumed x) (onWallet (w_ID p) (spent x) d)))"
      by (rule WalletSpec.leg.reservation[OF p(1) x(2) p(3)]) (use q p u po qo uo v asset in simp_all)
    moreover have "src = Some (r_OrderID u)" using uo v(6) by simp
    ultimately have "leg T src p q x d (onWallet (w_ID payee) (credited x) ?d2)" using p(2) q(2) u(2) by simp
    from k[OF this] po qo p q d2 r show ?thesis by (simp add: descends_onWallet)
  qed
  show ?thesis
    unfolding transferLeg_def bindT_assoc walletOf_simps using False
    apply (simp add: v(2) bindT_assoc)
    apply (intro hoare_DebitReserved[OF W ok x] hoare_ConsumeRemaining[OF W _ x] hoare_CreditAvailable[OF W _ x])
    apply (simp_all add: leg e)
    done
qed

section \<open>The ledger of a settlement\<close>

text \<open>What a batch of entries does, and how it can fail without a fault.\<close>

fun batch :: "('d::linordered_idom) wlib \<Rightarrow> wallet_transaction list \<Rightarrow> 'd wallet_db \<Rightarrow> wallet_error + 'd wallet_db" where
  "batch W [] d = Inr d"
| "batch W (t # ts) d = (case createTransaction W t d of Inl e \<Rightarrow> Inl e | Inr (_, d') \<Rightarrow> batch W ts d')"

lemma hoare_try_CreateBatch:
  assumes "\<And>d'. batch W ts d = Inr d' \<Longrightarrow> hoare (working b d') (k (Inr ())) Q E"
    and "\<And>e. e = ErrInternal \<or> batch W ts d = Inl e \<Longrightarrow> hoare (aborted b) (k (Inl e)) Q E"
  shows "hoare (working b d) (bindT (tryT (CreateBatch en W ts)) k) Q E"
  using assms
proof (induction ts arbitrary: d)
  case Nil
  then show ?case by (auto simp: hoare_def bindT_def tryT_def ret_def)
next
  case (Cons t ts)
  have e: "bindT (tryT (CreateBatch en W (t # ts))) k =
      bindT (tryT (stmt en ErrInternal (createTransaction W t)))
        (\<lambda>r. case r of Inl e \<Rightarrow> k (Inl e) | Inr _ \<Rightarrow> bindT (tryT (CreateBatch en W ts)) k)"
    by (auto simp: fun_eq_iff bindT_def tryT_def split: prod.splits sum.splits)
  show ?case unfolding e
  proof (rule hoare_try_stmt)
    fix a d' assume s: "createTransaction W t d = Inr (a, d')"
    have "hoare (working b d') (bindT (tryT (CreateBatch en W ts)) k) Q E"
      by (rule Cons.IH) (use Cons.prems s in simp_all)
    then show "hoare (working b d') (case Inr a of Inl e \<Rightarrow> k (Inl e) | Inr _ \<Rightarrow> bindT (tryT (CreateBatch en W ts)) k) Q E"
      by simp
  next
    fix e assume "e = ErrInternal \<or> createTransaction W t d = Inl e"
    with Cons.prems(2)[of e] show "hoare (aborted b) (case Inl e of Inl e \<Rightarrow> k (Inl e) | Inr _ \<Rightarrow> bindT (tryT (CreateBatch en W ts)) k) Q E"
      by auto
  qed
qed

text \<open>The entries of a trade: a debit and a credit for each leg.\<close>

definition settlementEntries ::
  "uuid \<Rightarrow> uuid list \<Rightarrow> 'd wallet_row \<Rightarrow> 'd wallet_row \<Rightarrow> 'd wallet_row \<Rightarrow> 'd wallet_row \<Rightarrow> 'd \<Rightarrow> 'd \<Rightarrow> 'd ledger_row list" where
  "settlementEntries tr us sb bb bq sq x y =
     [settleEntry (us ! 0) tr sb TxnTypeDebit x, settleEntry (us ! 1) tr bb TxnTypeCredit x,
      settleEntry (us ! 2) tr bq TxnTypeDebit y, settleEntry (us ! 3) tr sq TxnTypeCredit y]"

lemma settlementEntry_exact:
  assumes W: "wlib_ok W T" and b: "batch W (settlementEntry W req u (walletOf W w) ty (w_Asset w) amt # ts) d = Inr d'"
    and x: "p_decimal W amt = Some x" "x \<in> T" and tr: "p_uuid W (q_TradeID req) = Some tr"
  shows "0 < x \<and> batch W ts (addLedger [settleEntry u tr w ty x] d) = Inr d'"
proof -
  let ?t = "settlementEntry W req u (walletOf W w) ty (w_Asset w) amt"
  from b obtain d1 where s: "createTransaction W ?t d = Inr ((), d1)" and r: "batch W ts d1 = Inr d'"
    by (auto split: sum.splits)
  from s have "0 < x \<and> d1 = addLedger [settleEntry u tr w ty x] d"
    by (rule createTransaction_exact[OF W _ _ _ _ x(2)])
      (auto simp: settlementEntry_def settleEntry_def x(1) tr)
  with r show ?thesis by simp
qed

text \<open>Two entries that cannot both be in the ledger.\<close>

definition ledger_clash :: "pg_env \<Rightarrow> uuid \<Rightarrow> 'd wallet_db \<Rightarrow> bool" where
  "ledger_clash en tr d \<longleftrightarrow>
     (\<exists>l\<in>set (db_ledger d). t_ReferenceID l = tr \<and> t_ReferenceType l = ''SETTLEMENT'' \<or> Some (t_ID l) \<in> range (pe_uuid en)) \<or>
     (\<exists>m n. m \<noteq> n \<and> pe_uuid en m \<noteq> None \<and> pe_uuid en m = pe_uuid en n)"

lemma settlementEntry_dup:
  assumes W: "wlib_ok W T" and b: "batch W (settlementEntry W req u (walletOf W w) ty (w_Asset w) amt # ts) d = Inl ErrDuplicate"
    and x: "p_decimal W amt = Some x" "x \<in> T" and tr: "p_uuid W (q_TradeID req) = Some tr"
  shows "(\<exists>l\<in>set (db_ledger d). t_ID l = u \<or>
            t_WalletID l = w_ID w \<and> t_ReferenceID l = tr \<and> t_ReferenceType l = ''SETTLEMENT'') \<or>
    batch W ts (addLedger [settleEntry u tr w ty x] d) = Inl ErrDuplicate"
proof (cases "createTransaction W (settlementEntry W req u (walletOf W w) ty (w_Asset w) amt) d")
  case (Inl e)
  with b have "createTransaction W (settlementEntry W req u (walletOf W w) ty (w_Asset w) amt) d = Inl ErrDuplicate"
    by simp
  then show ?thesis
    by (auto simp: createTransaction_def settlementEntry_def tr x wlib_okD(2)[OF W] split: option.splits if_splits)
next
  case (Inr p)
  then obtain d1 where s: "createTransaction W (settlementEntry W req u (walletOf W w) ty (w_Asset w) amt) d = Inr ((), d1)"
    by (cases p) auto
  from s have "d1 = addLedger [settleEntry u tr w ty x] d"
    by (rule createTransaction_exact[OF W _ _ _ _ x(2)])
      (auto simp: settlementEntry_def settleEntry_def x(1) tr)
  with s b show ?thesis by simp
qed

lemma hoare_newUUID4:
  assumes "\<And>n u1 u2 u3 u4. map (pe_uuid en) [n, Suc n, Suc (Suc n), Suc (Suc (Suc n))] = [Some u1, Some u2, Some u3, Some u4] \<Longrightarrow>
      hoare (working b d) (k u1 u2 u3 u4) Q E"
    and "\<And>e s. idle b s \<Longrightarrow> E e s"
  shows "hoare (working b d) (bindT (newUUID en err) (\<lambda>u1. bindT (newUUID en err) (\<lambda>u2.
     bindT (newUUID en err) (\<lambda>u3. bindT (newUUID en err) (\<lambda>u4. k u1 u2 u3 u4))))) Q E"
  unfolding hoare_def
proof (intro allI impI)
  fix s assume w: "working b d s"
  have wn: "working b d (s\<lparr>x_n := m\<rparr>)" for m using w by (simp add: working_def)
  have "E e (s\<lparr>x_n := m\<rparr>)" for e m using assms(2)[OF working_idle[OF wn]] .
  moreover have "case k u1 u2 u3 u4 (s\<lparr>x_n := m\<rparr>) of (Inl e, s') \<Rightarrow> E e s' | (Inr a, s') \<Rightarrow> Q a s'"
    if "pe_uuid en (x_n s) = Some u1" "pe_uuid en (Suc (x_n s)) = Some u2" "pe_uuid en (Suc (Suc (x_n s))) = Some u3"
      "pe_uuid en (Suc (Suc (Suc (x_n s)))) = Some u4" for u1 u2 u3 u4 m
    using assms(1)[of "x_n s" u1 u2 u3 u4] that wn unfolding hoare_def by simp
  ultimately show "case (bindT (newUUID en err) (\<lambda>u1. bindT (newUUID en err) (\<lambda>u2.
     bindT (newUUID en err) (\<lambda>u3. bindT (newUUID en err) (\<lambda>u4. k u1 u2 u3 u4))))) s of
       (Inl e, s') \<Rightarrow> E e s' | (Inr a, s') \<Rightarrow> Q a s'"
    by (simp add: bindT_def newUUID_def split: option.split)
qed

lemma settlement_dup:
  assumes W: "wlib_ok W T" and x: "p_decimal W a1 = Some x" "x \<in> T" and y: "p_decimal W a2 = Some y" "y \<in> T"
    and tr: "p_uuid W (q_TradeID req) = Some tr"
    and u: "map (pe_uuid en) [n, Suc n, Suc (Suc n), Suc (Suc (Suc n))] = [Some u1, Some u2, Some u3, Some u4]"
    and b: "batch W [settlementEntry W req u1 (walletOf W sb) TxnTypeDebit (w_Asset sb) a1,
         settlementEntry W req u2 (walletOf W bb) TxnTypeCredit (w_Asset bb) a1,
         settlementEntry W req u3 (walletOf W bq) TxnTypeDebit (w_Asset bq) a2,
         settlementEntry W req u4 (walletOf W sq) TxnTypeCredit (w_Asset sq) a2] d = Inl ErrDuplicate"
    and w: "distinct [w_ID sb, w_ID bb, w_ID bq, w_ID sq]"
  shows "ledger_clash en tr d"
proof (rule ccontr)
  assume c: "\<not> ledger_clash en tr d"
  have e: "pe_uuid en n = Some u1" "pe_uuid en (Suc n) = Some u2" "pe_uuid en (Suc (Suc n)) = Some u3"
    "pe_uuid en (Suc (Suc (Suc n))) = Some u4" using u by simp_all
  have r: "Some u1 \<in> range (pe_uuid en)" "Some u2 \<in> range (pe_uuid en)" "Some u3 \<in> range (pe_uuid en)"
    "Some u4 \<in> range (pe_uuid en)" by (metis e rangeI)+
  have inj: "pe_uuid en i \<noteq> pe_uuid en j" if "i \<noteq> j" "pe_uuid en i \<noteq> None" for i j
    using c that unfolding ledger_clash_def by blast
  have du: "u1 \<noteq> u2" "u1 \<noteq> u3" "u1 \<noteq> u4" "u2 \<noteq> u3" "u2 \<noteq> u4" "u3 \<noteq> u4"
    using inj[of n "Suc n"] inj[of n "Suc (Suc n)"] inj[of n "Suc (Suc (Suc n))"] inj[of "Suc n" "Suc (Suc n)"]
      inj[of "Suc n" "Suc (Suc (Suc n))"] inj[of "Suc (Suc n)" "Suc (Suc (Suc n))"]
    unfolding e by simp_all
  have l: "t_ID l \<noteq> u1 \<and> t_ID l \<noteq> u2 \<and> t_ID l \<noteq> u3 \<and> t_ID l \<noteq> u4 \<and>
      \<not> (t_ReferenceID l = tr \<and> t_ReferenceType l = ''SETTLEMENT'')" if "l \<in> set (db_ledger d)" for l
  proof -
    have "\<not> (t_ReferenceID l = tr \<and> t_ReferenceType l = ''SETTLEMENT'')" "Some (t_ID l) \<notin> range (pe_uuid en)"
      using c that unfolding ledger_clash_def by blast+
    with r show ?thesis by auto
  qed
  note se = settleEntry_def
  from settlementEntry_dup[OF W b x tr] l have 1: "batch W [settlementEntry W req u2 (walletOf W bb) TxnTypeCredit (w_Asset bb) a1,
         settlementEntry W req u3 (walletOf W bq) TxnTypeDebit (w_Asset bq) a2,
         settlementEntry W req u4 (walletOf W sq) TxnTypeCredit (w_Asset sq) a2]
         (addLedger [settleEntry u1 tr sb TxnTypeDebit x] d) = Inl ErrDuplicate" by blast
  have "\<not> (\<exists>l\<in>set (db_ledger (addLedger [settleEntry u1 tr sb TxnTypeDebit x] d)). t_ID l = u2 \<or>
      t_WalletID l = w_ID bb \<and> t_ReferenceID l = tr \<and> t_ReferenceType l = ''SETTLEMENT'')"
    using l du w by (auto simp: se)
  with settlementEntry_dup[OF W 1 x tr] have 2: "batch W [settlementEntry W req u3 (walletOf W bq) TxnTypeDebit (w_Asset bq) a2,
         settlementEntry W req u4 (walletOf W sq) TxnTypeCredit (w_Asset sq) a2]
         (addLedger [settleEntry u2 tr bb TxnTypeCredit x] (addLedger [settleEntry u1 tr sb TxnTypeDebit x] d)) = Inl ErrDuplicate"
    by blast
  have "\<not> (\<exists>l\<in>set (db_ledger (addLedger [settleEntry u2 tr bb TxnTypeCredit x] (addLedger [settleEntry u1 tr sb TxnTypeDebit x] d))).
      t_ID l = u3 \<or> t_WalletID l = w_ID bq \<and> t_ReferenceID l = tr \<and> t_ReferenceType l = ''SETTLEMENT'')"
    using l du w by (auto simp: se)
  with settlementEntry_dup[OF W 2 y tr] have 3: "batch W [settlementEntry W req u4 (walletOf W sq) TxnTypeCredit (w_Asset sq) a2]
         (addLedger [settleEntry u3 tr bq TxnTypeDebit y] (addLedger [settleEntry u2 tr bb TxnTypeCredit x]
           (addLedger [settleEntry u1 tr sb TxnTypeDebit x] d))) = Inl ErrDuplicate"
    by blast
  have "\<not> (\<exists>l\<in>set (db_ledger (addLedger [settleEntry u3 tr bq TxnTypeDebit y] (addLedger [settleEntry u2 tr bb TxnTypeCredit x]
           (addLedger [settleEntry u1 tr sb TxnTypeDebit x] d)))).
      t_ID l = u4 \<or> t_WalletID l = w_ID sq \<and> t_ReferenceID l = tr \<and> t_ReferenceType l = ''SETTLEMENT'')"
    using l du w by (auto simp: se)
  with settlementEntry_dup[OF W 3 y tr] show False by simp
qed

section \<open>The events\<close>

definition settleEvents :: "trade_request \<Rightarrow> uuid \<Rightarrow> wallet_payload outbox_row list \<Rightarrow> bool" where
  "settleEvents req tr evs \<longleftrightarrow>
     map (\<lambda>e. (ob_AggregateID e, ob_EventType e, ob_PartitionKey e, ob_Status e)) evs =
       [(tr, ''TradeSettled'', q_BuyerUserID req, OutboxPending),
        (tr, ''PortfolioUserTrade'', q_BuyerUserID req, OutboxPending),
        (tr, ''PortfolioUserTrade'', q_SellerUserID req, OutboxPending)]"

lemma insertOutbox_exact:
  assumes "insertOutbox W now ev d = Inr (u, d')"
  obtains r ag where "p_uuid W (oe_AggregateID ev) = Some ag" "d' = addOutbox [r] d" "ob_AggregateID r = ag"
    "ob_EventType r = oe_EventType ev" "ob_PartitionKey r = oe_PartitionKey ev" "ob_Status r = OutboxPending"
  using assms by (auto simp: insertOutbox_def addOutbox_def split: option.splits if_splits)

lemma hoare_InsertOutbox:
  assumes "\<And>now d'. insertOutbox W now ev d = Inr ((), d') \<Longrightarrow> hoare (working b d') (k ()) Q E"
    and "\<And>e s. idle b s \<Longrightarrow> E e s"
  shows "hoare (working b d) (bindT (InsertOutbox en W ev) k) Q E"
  unfolding InsertOutbox_def bindT_assoc
proof (intro hoare_timeNow hoare_stmt)
  fix t a d' assume "insertOutbox W t ev d = Inr (a, d')"
  with assms(1)[of t d'] show "hoare (working b d') (k a) Q E" by simp
qed (rule assms(2))

lemma addOutbox_addOutbox: "addOutbox ys (addOutbox xs d) = addOutbox (xs @ ys) d"
  by (simp add: addOutbox_def)

lemma publishAndCommit_hoare:
  assumes tr: "p_uuid W (q_TradeID req) = Some tr"
  shows "hoare (working b d) (publishAndCommit en W req now)
    (\<lambda>_ s. \<exists>evs. settleEvents req tr evs \<and> x_base s = addOutbox evs d)
    (\<lambda>_ s. x_base s = b \<or> (\<exists>evs. settleEvents req tr evs \<and> x_base s = addOutbox evs d))"
  (is "hoare _ _ ?Q ?E")
proof -
  have ev: "\<exists>evs. settleEvents req tr evs \<and> d3 = addOutbox evs d"
    if "insertOutbox W n1 \<lparr>oe_ID = i1, oe_AggregateID = q_TradeID req, oe_EventType = ''TradeSettled'', oe_Payload = p1,
          oe_PartitionKey = q_BuyerUserID req\<rparr> d = Inr ((), d1)"
      and "insertOutbox W n2 \<lparr>oe_ID = i2, oe_AggregateID = q_TradeID req, oe_EventType = ''PortfolioUserTrade'', oe_Payload = p2,
          oe_PartitionKey = q_BuyerUserID req\<rparr> d1 = Inr ((), d2)"
      and "insertOutbox W n3 \<lparr>oe_ID = i3, oe_AggregateID = q_TradeID req, oe_EventType = ''PortfolioUserTrade'', oe_Payload = p3,
          oe_PartitionKey = q_SellerUserID req\<rparr> d2 = Inr ((), d3)" for i1 i2 i3 p1 p2 p3 n1 n2 n3 d1 d2 d3
  proof -
    note ins = that
    obtain r1 where r1: "d1 = addOutbox [r1] d" "ob_AggregateID r1 = tr" "ob_EventType r1 = ''TradeSettled''"
      "ob_PartitionKey r1 = q_BuyerUserID req" "ob_Status r1 = OutboxPending"
      by (rule insertOutbox_exact[OF ins(1)]) (simp add: tr)
    obtain r2 where r2: "d2 = addOutbox [r2] d1" "ob_AggregateID r2 = tr" "ob_EventType r2 = ''PortfolioUserTrade''"
      "ob_PartitionKey r2 = q_BuyerUserID req" "ob_Status r2 = OutboxPending"
      by (rule insertOutbox_exact[OF ins(2)]) (simp add: tr)
    obtain r3 where r3: "d3 = addOutbox [r3] d2" "ob_AggregateID r3 = tr" "ob_EventType r3 = ''PortfolioUserTrade''"
      "ob_PartitionKey r3 = q_SellerUserID req" "ob_Status r3 = OutboxPending"
      by (rule insertOutbox_exact[OF ins(3)]) (simp add: tr)
    show ?thesis
      by (rule exI[of _ "[r1, r2, r3]"]) (simp add: r1 r2 r3 settleEvents_def addOutbox_addOutbox)
  qed
  show ?thesis
    unfolding publishAndCommit_def buildTradeSettledEvent_def buildPortfolioEvent_def bindT_assoc bindT_ret
    apply (intro hoare_newUUID hoare_InsertOutbox hoare_commit_last)
    apply (simp_all add: idle_def)
    apply (erule ev, assumption+)
    apply (rule disjI2, erule ev, assumption+)
    done
qed

section \<open>Moving the funds\<close>

definition owner :: "'d wlib \<Rightarrow> 'd wallet_row \<Rightarrow> string \<Rightarrow> string \<Rightarrow> bool" where
  "owner W w u a \<longleftrightarrow> p_uuid W u = Some (w_UserID w) \<and> w_Asset w = a"

text \<open>Both legs, their ledger entries and the events.\<close>

definition trades :: "('d::linordered_idom) wlib \<Rightarrow> 'd set \<Rightarrow> trade_request \<Rightarrow> uuid \<Rightarrow> 'd \<Rightarrow> 'd \<Rightarrow> uuid option \<Rightarrow> uuid option \<Rightarrow>
    'd wallet_db \<Rightarrow> 'd wallet_db \<Rightarrow> bool" where
  "trades W T req tr x y sSrc bSrc d d' \<longleftrightarrow>
     (\<exists>sb bb bq sq d1 d2 us evs.
        owner W sb (q_SellerUserID req) (q_BaseAsset req) \<and> owner W bb (q_BuyerUserID req) (q_BaseAsset req) \<and>
        owner W bq (q_BuyerUserID req) (q_QuoteAsset req) \<and> owner W sq (q_SellerUserID req) (q_QuoteAsset req) \<and>
        0 < x \<and> 0 < y \<and> leg T sSrc sb bb x d d1 \<and> leg T bSrc bq sq y d1 d2 \<and> settleEvents req tr evs \<and>
        d' = addOutbox evs (addLedger (settlementEntries tr us sb bb bq sq x y) d2))"

text \<open>The requests whose entries the ledger refuses as duplicates.\<close>

definition refused :: "pg_env \<Rightarrow> 'd wlib \<Rightarrow> trade_request \<Rightarrow> uuid \<Rightarrow> 'd wallet_db \<Rightarrow> bool" where
  "refused en W req tr d \<longleftrightarrow>
     q_BaseAsset req = q_QuoteAsset req \<or>
     (\<exists>u. p_uuid W (q_BuyerUserID req) = Some u \<and> p_uuid W (q_SellerUserID req) = Some u) \<or> ledger_clash en tr d"

lemma settlementEntry_cong:
  "w_ID w' = w_ID w \<Longrightarrow> w_Asset w' = a \<Longrightarrow>
   settlementEntry W req u (walletOf W w) ty a amt = settlementEntry W req u (walletOf W w') ty (w_Asset w') amt"
  by (simp add: settlementEntry_def)

lemma addLedger_addLedger: "addLedger ys (addLedger xs d) = addLedger (xs @ ys) d"
  by (simp add: addLedger_def)

lemma leg_ledger: "leg T src p q x d d' \<Longrightarrow> db_ledger d' = db_ledger d \<and> db_settled d' = db_settled d"
  by (cases rule: leg.cases) auto

lemma ledger_clash_cong: "db_ledger d' = db_ledger d \<Longrightarrow> ledger_clash en tr d' = ledger_clash en tr d"
  by (simp add: ledger_clash_def)

lemma moveFunds_hoare:
  assumes W: "wlib_ok W T" and ok: "rows_ok T d" and tr: "p_uuid W (q_TradeID req) = Some tr"
    and x: "p_decimal W (q_BaseAmount req) = Some x" "x \<in> T" and y: "p_decimal W (q_QuoteAmount req) = Some y" "y \<in> T"
    and sb: "sb \<in> set (db_wallets d)" "owner W sb (q_SellerUserID req) (q_BaseAsset req)"
    and bb: "bb \<in> set (db_wallets d)" "owner W bb (q_BuyerUserID req) (q_BaseAsset req)"
    and bq: "bq \<in> set (db_wallets d)" "owner W bq (q_BuyerUserID req) (q_QuoteAsset req)"
    and sq: "sq \<in> set (db_wallets d)" "owner W sq (q_SellerUserID req) (q_QuoteAsset req)"
    and ss: "source W (isSellerMM req) sRes sb sSrc d" and bs: "source W (isBuyerMM req) bRes bq bSrc d"
  shows "hoare (working b d) (moveFunds en W req bRes sRes (walletOf W sb) (walletOf W bb) (walletOf W bq) (walletOf W sq))
    (\<lambda>_ s. trades W T req tr x y sSrc bSrc d (x_base s) \<or> x_base s = b \<and> refused en W req tr d)
    (\<lambda>_ s. x_base s = b \<or> trades W T req tr x y sSrc bSrc d (x_base s))"
  (is "hoare _ _ ?Q ?E")
proof -
  have "?E e s" if "idle b s" for e s using that by (simp add: idle_def)
  note E = this
  have dist: "distinct [w_ID sb, w_ID bb, w_ID bq, w_ID sq]"
    if "q_BaseAsset req \<noteq> q_QuoteAsset req" "p_uuid W (q_BuyerUserID req) \<noteq> p_uuid W (q_SellerUserID req)"
  proof -
    have u: "w_UserID r = w_UserID s \<and> w_Asset r = w_Asset s"
      if "r \<in> set (db_wallets d)" "s \<in> set (db_wallets d)" "w_ID r = w_ID s" for r s
      using key_unique[OF rows_okD(1)[OF ok] that] by simp
    have "w_UserID sb \<noteq> w_UserID bb" "w_Asset bb \<noteq> w_Asset bq" "w_Asset sb \<noteq> w_Asset bq" "w_Asset sb \<noteq> w_Asset sq"
      "w_Asset bb \<noteq> w_Asset sq" "w_UserID bq \<noteq> w_UserID sq"
      using that sb(2) bb(2) bq(2) sq(2) by (auto simp: owner_def)
    with u[OF sb(1) bb(1)] u[OF sb(1) bq(1)] u[OF sb(1) sq(1)] u[OF bb(1) bq(1)] u[OF bb(1) sq(1)] u[OF bq(1) sq(1)]
    show ?thesis by auto
  qed
  let ?es = "\<lambda>u1 u2 u3 u4. [settlementEntry W req u1 (walletOf W sb) TxnTypeDebit (q_BaseAsset req) (q_BaseAmount req),
      settlementEntry W req u2 (walletOf W bb) TxnTypeCredit (q_BaseAsset req) (q_BaseAmount req),
      settlementEntry W req u3 (walletOf W bq) TxnTypeDebit (q_QuoteAsset req) (q_QuoteAmount req),
      settlementEntry W req u4 (walletOf W sq) TxnTypeCredit (q_QuoteAsset req) (q_QuoteAmount req)]"
  have publish: "hoare (working b d4) (publishAndCommit en W req now) ?Q ?E"
    if l1: "leg T sSrc p1 q1 x d d1" "w_ID p1 = w_ID sb" "w_UserID p1 = w_UserID sb" "w_Asset p1 = w_Asset sb"
         "w_ID q1 = w_ID bb" "w_UserID q1 = w_UserID bb" "w_Asset q1 = w_Asset bb"
      and l2: "leg T bSrc p2 q2 y d1 d2" "w_ID p2 = w_ID bq" "w_UserID p2 = w_UserID bq" "w_Asset p2 = w_Asset bq"
         "w_ID q2 = w_ID sq" "w_UserID q2 = w_UserID sq" "w_Asset q2 = w_Asset sq"
      and bt: "batch W (?es u1 u2 u3 u4) d2 = Inr d4"
    for now p1 q1 p2 q2 d1 d2 u1 u2 u3 u4 d4
  proof -
    have as: "w_Asset p1 = q_BaseAsset req" "w_Asset q1 = q_BaseAsset req" "w_Asset p2 = q_QuoteAsset req" "w_Asset q2 = q_QuoteAsset req"
      using sb bb bq sq l1 l2 by (auto simp: owner_def)
    have es: "?es u1 u2 u3 u4 = [settlementEntry W req u1 (walletOf W p1) TxnTypeDebit (w_Asset p1) (q_BaseAmount req),
      settlementEntry W req u2 (walletOf W q1) TxnTypeCredit (w_Asset q1) (q_BaseAmount req),
      settlementEntry W req u3 (walletOf W p2) TxnTypeDebit (w_Asset p2) (q_QuoteAmount req),
      settlementEntry W req u4 (walletOf W q2) TxnTypeCredit (w_Asset q2) (q_QuoteAmount req)]"
      using l1 l2 as by (simp add: settlementEntry_def)
    note b1 = settlementEntry_exact[OF W bt[unfolded es] x tr]
    note b2 = settlementEntry_exact[OF W conjunct2[OF b1] x tr]
    note b3 = settlementEntry_exact[OF W conjunct2[OF b2] y tr]
    note b4 = settlementEntry_exact[OF W conjunct2[OF b3] y tr]
    have d4: "d4 = addLedger (settlementEntries tr [u1, u2, u3, u4] p1 q1 p2 q2 x y) d2"
      using b4 by (simp add: addLedger_addLedger settlementEntries_def)
    have T: "trades W T req tr x y sSrc bSrc d (addOutbox evs d4)" if "settleEvents req tr evs" for evs
      unfolding trades_def d4 using b1 b3 l1 l2 as that sb bb bq sq
      by (intro exI[of _ p1] exI[of _ q1] exI[of _ p2] exI[of _ q2] exI[of _ d1] exI[of _ d2] exI[of _ "[u1, u2, u3, u4]"] exI[of _ evs])
        (simp add: owner_def)
    show ?thesis
      by (rule hoare_conseq[OF publishAndCommit_hoare[OF tr]]) (auto intro: T)
  qed
  have dup: "?Q () s" if "aborted b s" "leg T sSrc p1 q1 x d d1" "leg T bSrc p2 q2 y d1 d2"
      "map (pe_uuid en) [n, Suc n, Suc (Suc n), Suc (Suc (Suc n))] = [Some u1, Some u2, Some u3, Some u4]"
      "batch W (?es u1 u2 u3 u4) d2 = Inl ErrDuplicate" for s p1 q1 p2 q2 d1 d2 n u1 u2 u3 u4
  proof -
    have as: "q_BaseAsset req = w_Asset sb" "q_BaseAsset req = w_Asset bb" "q_QuoteAsset req = w_Asset bq" "q_QuoteAsset req = w_Asset sq"
      using sb bb bq sq by (auto simp: owner_def)
    have es: "?es u1 u2 u3 u4 = [settlementEntry W req u1 (walletOf W sb) TxnTypeDebit (w_Asset sb) (q_BaseAmount req),
      settlementEntry W req u2 (walletOf W bb) TxnTypeCredit (w_Asset bb) (q_BaseAmount req),
      settlementEntry W req u3 (walletOf W bq) TxnTypeDebit (w_Asset bq) (q_QuoteAmount req),
      settlementEntry W req u4 (walletOf W sq) TxnTypeCredit (w_Asset sq) (q_QuoteAmount req)]"
      using as by metis
    have "db_ledger d2 = db_ledger d" using leg_ledger[OF that(2)] leg_ledger[OF that(3)] by simp
    have "p_uuid W (q_BuyerUserID req) = Some (w_UserID bb)" using bb(2) by (simp add: owner_def)
    with \<open>db_ledger d2 = db_ledger d\<close> settlement_dup[OF W x y tr that(4) that(5)[unfolded es]] dist have "refused en W req tr d"
      unfolding refused_def using ledger_clash_cong by metis
    with that(1) show ?thesis by (simp add: aborted_def)
  qed
  have assets: "w_Asset bb = w_Asset sb" "w_Asset sq = w_Asset bq" using sb bb bq sq by (auto simp: owner_def)
  show ?thesis
    unfolding moveFunds_def
    apply (intro hoare_lock hoare_transferLeg[OF W ok descends_refl ok x sb(1) bb(1) assets(1) ss]
        hoare_transferLeg[OF W ok _ _ y bq(1) sq(1) assets(2) bs] hoare_timeNow hoare_newUUID4 hoare_try_CreateBatch)
    apply (simp_all add: E del: batch.simps list.map)
     apply (rule publish; assumption)
    apply (intro conjI impI hoare_ret hoare_throw)
     apply (erule disjE, simp, rule dup, assumption+)
    apply (simp_all add: aborted_def)
    done
qed

section \<open>The whole operation\<close>

text \<open>An order ID in the spelling PostgreSQL returns.\<close>

definition canonical :: "'d wlib \<Rightarrow> string \<Rightarrow> bool" where
  "canonical W s \<longleftrightarrow> (\<forall>u. p_uuid W s = Some u \<longrightarrow> p_uuid_text W u = s)"

text \<open>The reservation a side of the trade uses.\<close>

definition sideRes :: "'d wlib \<Rightarrow> trade_request \<Rightarrow> bool \<Rightarrow> string \<Rightarrow> reservation option \<Rightarrow> 'd wallet_db \<Rightarrow> bool" where
  "sideRes W req mm orderID res d \<longleftrightarrow>
     mm \<or> (\<exists>r\<in>set (db_reservations d). res = Some (reservationOf W r) \<and>
            (canonical W (q_BuyOrderID req) \<longrightarrow> p_uuid W orderID = Some (r_OrderID r)))"

lemma hoare_fetchReservation:
  assumes "\<And>r. r \<in> set (db_reservations d) \<Longrightarrow> p_uuid W orderID = Some (r_OrderID r) \<Longrightarrow>
      hoare (working b d) (k (reservationOf W r)) Q E"
    and "\<And>e s. idle b s \<Longrightarrow> E e s"
  shows "hoare (working b d) (bindT (fetchReservation en W orderID) k) Q E"
proof -
  have e: "bindT (fetchReservation en W orderID) k =
      bindT (query en ErrInternal (GetByOrderIDForUpdate W orderID)) (\<lambda>found. case found of
        None \<Rightarrow> throw ErrReservationNotFound | Some r \<Rightarrow> k r)"
    by (auto simp: fetchReservation_def bindT_def throw_def ret_def fun_eq_iff split: prod.splits sum.splits option.splits)
  show ?thesis unfolding e
    by (rule hoare_findReservation) (auto intro!: hoare_throw assms dest: working_idle)
qed

lemma hoare_lockReservations:
  assumes W: "wlib_ok W T" and k: "\<And>br sr. sideRes W req (isBuyerMM req) (q_BuyOrderID req) br d \<Longrightarrow>
      sideRes W req (isSellerMM req) (q_SellerOrderID req) sr d \<Longrightarrow> hoare (working b d) (k (br, sr)) Q E"
    and E: "\<And>e s. idle b s \<Longrightarrow> E e s"
  shows "hoare (working b d) (bindT (lockReservations en W req) k) Q E"
proof -
  have two: "hoare (working b d) (if rv_OrderID (reservationOf W r1) = q_BuyOrderID req
        then k (Some (reservationOf W r1), Some (reservationOf W r2))
        else k (Some (reservationOf W r2), Some (reservationOf W r1))) Q E"
    if r: "r1 \<in> set (db_reservations d)" "r2 \<in> set (db_reservations d)" and mm: "\<not> isBuyerMM req" "\<not> isSellerMM req"
      and o: "p_uuid W (q_BuyOrderID req) = Some (r_OrderID r1) \<and> p_uuid W (q_SellerOrderID req) = Some (r_OrderID r2) \<or>
        p_uuid W (q_SellerOrderID req) = Some (r_OrderID r1) \<and> p_uuid W (q_BuyOrderID req) = Some (r_OrderID r2)" for r1 r2
  proof -
    have c: "p_uuid_text W (r_OrderID r) = q_BuyOrderID req"
      if "canonical W (q_BuyOrderID req)" "p_uuid W (q_BuyOrderID req) = Some (r_OrderID r)" for r
      using that by (simp add: canonical_def)
    have buy: "p_uuid W (q_BuyOrderID req) = Some (r_OrderID r) \<and> p_uuid W (q_SellerOrderID req) = Some (r_OrderID r')"
      if "p_uuid_text W (r_OrderID r) = q_BuyOrderID req" "canonical W (q_BuyOrderID req)"
        "p_uuid W (q_SellerOrderID req) = Some (r_OrderID r) \<and> p_uuid W (q_BuyOrderID req) = Some (r_OrderID r')" for r r'
    proof -
      have "p_uuid_text W (r_OrderID r') = q_BuyOrderID req" using that c by blast
      with that(1) have "p_uuid W (p_uuid_text W (r_OrderID r')) = p_uuid W (p_uuid_text W (r_OrderID r))" by simp
      then have "r_OrderID r' = r_OrderID r" by (simp add: wlib_okD(2)[OF W])
      with that(3) show ?thesis by simp
    qed
    show ?thesis
    proof (cases "p_uuid_text W (r_OrderID r1) = q_BuyOrderID req")
      case True
      have a: "p_uuid W (q_BuyOrderID req) = Some (r_OrderID r1)" "p_uuid W (q_SellerOrderID req) = Some (r_OrderID r2)"
        if "canonical W (q_BuyOrderID req)" using o buy[OF True that] by blast+
      have "sideRes W req (isBuyerMM req) (q_BuyOrderID req) (Some (reservationOf W r1)) d"
        "sideRes W req (isSellerMM req) (q_SellerOrderID req) (Some (reservationOf W r2)) d"
        unfolding sideRes_def using r a by blast+
      from k[OF this] True show ?thesis by simp
    next
      case False
      have a: "p_uuid W (q_BuyOrderID req) = Some (r_OrderID r2)" "p_uuid W (q_SellerOrderID req) = Some (r_OrderID r1)"
        if "canonical W (q_BuyOrderID req)" using o c[OF that] False by blast+
      have "sideRes W req (isBuyerMM req) (q_BuyOrderID req) (Some (reservationOf W r2)) d"
        "sideRes W req (isSellerMM req) (q_SellerOrderID req) (Some (reservationOf W r1)) d"
        unfolding sideRes_def using r a by blast+
      from k[OF this] False show ?thesis by simp
    qed
  qed
  show ?thesis
    unfolding lockReservations_def Let_def bindT_if bindT_assoc bindT_ret
    apply (rule hoare_if)
     apply (intro hoare_fetchReservation)
       apply (rule two; simp split: if_splits)
      apply (simp_all add: E)
    apply (intro conjI impI hoare_fetchReservation k)
    apply (simp_all add: E sideRes_def)
    apply blast+
    done
qed

text \<open>The checks and queries on the way, with what their success shows.\<close>

lemma hoare_validateSettlementAmounts:
  assumes "\<And>x q. d_NewFromString W (q_BaseAmount req) = Some x \<Longrightarrow> d_NewFromString W (q_QuoteAmount req) = Some q \<Longrightarrow>
      hoare (idle b) (k ()) Q E"
    and "\<And>e s. idle b s \<Longrightarrow> E e s"
  shows "hoare (idle b) (bindT (validateSettlementAmounts en W req) k) Q E"
proof -
  have p: "d_NewFromString W s = Some x" if "parseAmount W s = Inr x" for s x
    using that by (auto simp: parseAmount_def split: option.splits if_splits)
  have o: "bindT (case opt of None \<Rightarrow> m | Some a \<Rightarrow> f a) g = (case opt of None \<Rightarrow> bindT m g | Some a \<Rightarrow> bindT (f a) g)"
    for opt :: "'a asset_row option" and m f and g :: "unit \<Rightarrow> ('a, 'b) wprog" by (cases opt) auto
  show ?thesis
    unfolding validateSettlementAmounts_def bindT_assoc bindT_if bindT_throw bindT_ret o
    by (intro hoare_lift hoare_if hoare_poolQuery hoare_option hoare_throw assms(2))
      (simp_all add: assms(1) p)
qed

lemma hoare_validateAssetPrecision:
  assumes "\<And>a x. a \<in> set (db_assets b) \<Longrightarrow> d_NewFromString W amt = Some x \<Longrightarrow> decimalScale W x \<le> a_Decimals a \<Longrightarrow>
      hoare (working b d) (k ()) Q E"
    and "\<And>e s. idle b s \<Longrightarrow> E e s"
  shows "hoare (working b d) (bindT (validateAssetPrecision en W code amt) k) Q E"
proof -
  have e: "bindT (validateAssetPrecision en W code amt) k =
      bindT (poolQuery en ErrInternal (GetByCode code)) (\<lambda>assetInfo. case assetInfo of
        None \<Rightarrow> throw ErrInvalidSettlement
      | Some a \<Rightarrow> if \<not> a_IsEnabled a then throw ErrInvalidSettlement
          else case d_NewFromString W amt of None \<Rightarrow> throw ErrInvalidSettlement
          | Some x \<Rightarrow> if decimalScale W x > a_Decimals a then throw ErrInvalidSettlement else k ())"
    by (auto simp: validateAssetPrecision_def bindT_def throw_def ret_def fun_eq_iff split: prod.splits sum.splits option.splits)
  show ?thesis unfolding e
    apply (intro hoare_asset hoare_option hoare_if hoare_throw assms(2))
    apply (simp_all add: working_idle)
    apply (rule assms(1), rule conjunct1, rule GetByCode_Some, assumption+, simp)
    done
qed

lemma hoare_roundToAssetPrecision:
  assumes "\<And>a q. a \<in> set (db_assets b) \<Longrightarrow> a_Code a = code \<Longrightarrow> d_NewFromString W amt = Some q \<Longrightarrow>
      hoare (working b d) (k (d_String W (d_Truncate W q (a_Decimals a)))) Q E"
    and "\<And>e s. idle b s \<Longrightarrow> E e s"
  shows "hoare (working b d) (bindT (roundToAssetPrecision en W code amt) k) Q E"
proof -
  have e: "bindT (roundToAssetPrecision en W code amt) k =
      bindT (poolQuery en ErrInternal (GetByCode code)) (\<lambda>assetInfo. case assetInfo of
        None \<Rightarrow> throw ErrInternal
      | Some a \<Rightarrow> case d_NewFromString W amt of None \<Rightarrow> throw ErrInternal
          | Some x \<Rightarrow> k (d_String W (d_Truncate W x (a_Decimals a))))"
    by (auto simp: roundToAssetPrecision_def bindT_def throw_def ret_def fun_eq_iff split: prod.splits sum.splits option.splits)
  show ?thesis unfolding e
    by (intro hoare_asset hoare_option hoare_throw assms(2)) (simp_all add: working_idle assms(1) GetByCode_Some)
qed

lemma hoare_fetchWallet:
  assumes "\<And>r. r \<in> set (db_wallets d) \<Longrightarrow> owner W r u a \<Longrightarrow> hoare (working b d) (k (walletOf W r)) Q E"
    and "\<And>e s. idle b s \<Longrightarrow> E e s"
  shows "hoare (working b d) (bindT (fetchWallet en W u a) k) Q E"
proof -
  have e: "bindT (fetchWallet en W u a) k =
      bindT (query en ErrInternal (GetByUserAndAsset W u a)) (\<lambda>found. case found of
        None \<Rightarrow> throw ErrInternal | Some w \<Rightarrow> k w)"
    by (auto simp: fetchWallet_def bindT_def throw_def ret_def fun_eq_iff split: prod.splits sum.splits option.splits)
  show ?thesis unfolding e
    by (rule hoare_findWallet) (auto intro!: hoare_throw assms simp: owner_def dest: working_idle)
qed

text \<open>The settlement is registered once: a second call finds the row of the first.\<close>

definition settledBefore :: "'d wlib \<Rightarrow> trade_request \<Rightarrow> 'd wallet_db \<Rightarrow> bool" where
  "settledBefore W req db \<longleftrightarrow>
     (\<exists>x\<in>set (db_settled db). p_uuid W (q_TradeID req) = Some (s_TradeID x) \<and> s_MarketID x = q_MarketID req \<and>
        s_Sequence x = uint (q_Sequence req))"

definition unsettled :: "uuid \<Rightarrow> string \<Rightarrow> int \<Rightarrow> 'd wallet_db \<Rightarrow> bool" where
  "unsettled tr mk sq db \<longleftrightarrow>
     (\<forall>x\<in>set (db_settled db). s_TradeID x \<noteq> tr \<and> (s_MarketID x \<noteq> mk \<or> s_Sequence x \<noteq> sq))"

lemma hoare_RegisterSettlement:
  assumes new: "\<And>tr. p_uuid W (q_TradeID req) = Some tr \<Longrightarrow> unsettled tr (q_MarketID req) (uint (q_Sequence req)) d \<Longrightarrow>
      hoare (working b (addSettled \<lparr>s_TradeID = tr, s_MarketID = q_MarketID req, s_Sequence = uint (q_Sequence req)\<rparr> d)) (k True) Q E"
    and old: "settledBefore W req d \<Longrightarrow> hoare (working b d) (k False) Q E"
    and E: "\<And>e s. idle b s \<Longrightarrow> E e s"
  shows "hoare (working b d) (bindT (RegisterSettlement en W (q_TradeID req) (q_MarketID req) (q_Sequence req)) k) Q E"
  unfolding RegisterSettlement_def bindT_assoc bindT_if bindT_ret bindT_throw
proof (rule hoare_stmt)
  fix n d' assume i: "insertSettled W (q_TradeID req) (q_MarketID req) (q_Sequence req) d = Inr (n, d')"
  show "hoare (working b d') (if 0 < n then k True else bindT (query en ErrInternal (selectSettled W (q_TradeID req)))
      (\<lambda>a. if s_MarketID a \<noteq> q_MarketID req \<or> s_Sequence a \<noteq> uint (q_Sequence req) then throw ErrSettlementConflict else k False)) Q E"
  proof (rule hoare_if)
    assume "0 < n"
    with i obtain tr where "p_uuid W (q_TradeID req) = Some tr" "unsettled tr (q_MarketID req) (uint (q_Sequence req)) d"
      "d' = addSettled \<lparr>s_TradeID = tr, s_MarketID = q_MarketID req, s_Sequence = uint (q_Sequence req)\<rparr> d"
      by (auto simp: insertSettled_def bigint_def unsettled_def addSettled_def split: option.splits if_splits)
    with new show "hoare (working b d') (k True) Q E" by simp
  next
    assume "\<not> 0 < n"
    with i have d': "d' = d" by (auto simp: insertSettled_def bigint_def split: option.splits if_splits)
    have "settledBefore W req d" if "selectSettled W (q_TradeID req) d = Inr a" "s_MarketID a = q_MarketID req"
      "s_Sequence a = uint (q_Sequence req)" for a
      using that by (auto simp: selectSettled_def settledBefore_def split: option.splits dest: find_in)
    with old show "hoare (working b d') (bindT (query en ErrInternal (selectSettled W (q_TradeID req)))
      (\<lambda>a. if s_MarketID a \<noteq> q_MarketID req \<or> s_Sequence a \<noteq> uint (q_Sequence req) then throw ErrSettlementConflict else k False)) Q E"
      unfolding d' by (intro hoare_query hoare_if hoare_throw E) (auto dest: working_idle)
  qed
qed (rule E)

text \<open>What one settlement does, and when a call that does nothing still reports success.\<close>

definition paysWith :: "'d wlib \<Rightarrow> trade_request \<Rightarrow> bool \<Rightarrow> string \<Rightarrow> uuid option \<Rightarrow> bool" where
  "paysWith W req mm orderID src \<longleftrightarrow>
     (if mm then src = None
      else \<exists>ord. src = Some ord \<and> (canonical W (q_BuyOrderID req) \<longrightarrow> p_uuid W orderID = Some ord))"

definition settles :: "('d::linordered_idom) wlib \<Rightarrow> 'd set \<Rightarrow> trade_request \<Rightarrow> 'd wallet_db \<Rightarrow> 'd wallet_db \<Rightarrow> bool" where
  "settles W T req db db' \<longleftrightarrow>
     (\<exists>tr x q a sSrc bSrc.
        p_uuid W (q_TradeID req) = Some tr \<and> unsettled tr (q_MarketID req) (uint (q_Sequence req)) db \<and>
        d_NewFromString W (q_BaseAmount req) = Some x \<and> d_NewFromString W (q_QuoteAmount req) = Some q \<and>
        a \<in> set (db_assets db) \<and> a_Code a = q_QuoteAsset req \<and>
        paysWith W req (isSellerMM req) (q_SellerOrderID req) sSrc \<and>
        paysWith W req (isBuyerMM req) (q_BuyOrderID req) bSrc \<and>
        trades W T req tr x (d_Truncate W q (a_Decimals a)) sSrc bSrc
          (addSettled \<lparr>s_TradeID = tr, s_MarketID = q_MarketID req, s_Sequence = uint (q_Sequence req)\<rparr> db) db')"

definition refusedTrade :: "pg_env \<Rightarrow> 'd wlib \<Rightarrow> trade_request \<Rightarrow> 'd wallet_db \<Rightarrow> bool" where
  "refusedTrade en W req db \<longleftrightarrow>
     (\<exists>tr. p_uuid W (q_TradeID req) = Some tr \<and> unsettled tr (q_MarketID req) (uint (q_Sequence req)) db \<and>
           refused en W req tr db)"

lemma sideSource:
  assumes W: "wlib_ok W T" and s: "sideRes W req mm orderID res d" and c: "checkSide mm res asset userID = Inr ()"
    and w: "owner W w userID asset"
  obtains src where "source W mm res w src d" "paysWith W req mm orderID src"
proof (cases mm)
  case True
  then show thesis by (intro that[of None]) (simp_all add: source_def paysWith_def)
next
  case False
  with s obtain r where r: "r \<in> set (db_reservations d)" "res = Some (reservationOf W r)"
    "canonical W (q_BuyOrderID req) \<longrightarrow> p_uuid W orderID = Some (r_OrderID r)" by (auto simp: sideRes_def)
  with c False have *: "r_Status r \<noteq> ReservationReleased" "r_Asset r = asset" "p_uuid_text W (r_UserID r) = userID"
    by (auto simp: checkSide_def split: if_splits)
  with w have "r_UserID r = w_UserID w" "r_Asset r = w_Asset w"
    using wlib_okD(2)[OF W, of "r_UserID r"] by (auto simp: owner_def)
  with r * False show thesis
    by (intro that[of "Some (r_OrderID r)"]) (auto simp: source_def paysWith_def live_def)
qed

lemma trades_upd: "trades W T (req\<lparr>q_QuoteAmount := s\<rparr>) tr x y sSrc bSrc d d' = trades W T req tr x y sSrc bSrc d d'"
  by (simp add: trades_def settleEvents_def)

lemma refused_upd: "refused en W (req\<lparr>q_QuoteAmount := s\<rparr>) tr (addSettled v d) = refused en W req tr d"
  by (simp add: refused_def ledger_clash_def)

lemma settlement_hoare:
  assumes W: "wlib_ok W T" and ok: "rows_ok T db" and as: "assets_ok T db"
    and x0: "d_NewFromString W (q_BaseAmount req) = Some x0" and q0: "d_NewFromString W (q_QuoteAmount req) = Some q0"
    and tr: "p_uuid W (q_TradeID req) = Some tr" and un: "unsettled tr (q_MarketID req) (uint (q_Sequence req)) db"
    and v: "v = \<lparr>s_TradeID = tr, s_MarketID = q_MarketID req, s_Sequence = uint (q_Sequence req)\<rparr>"
    and br: "sideRes W req (isBuyerMM req) (q_BuyOrderID req) br (addSettled v db)"
    and sr: "sideRes W req (isSellerMM req) (q_SellerOrderID req) sr (addSettled v db)"
    and cs: "checkSide (isSellerMM req) sr (q_BaseAsset req) (q_SellerUserID req) = Inr ()"
    and cb: "checkSide (isBuyerMM req) br (q_QuoteAsset req) (q_BuyerUserID req) = Inr ()"
    and w: "{sb, bb, bq, sq} \<subseteq> set (db_wallets (addSettled v db))"
      "owner W sb (q_SellerUserID req) (q_BaseAsset req)" "owner W bb (q_BuyerUserID req) (q_BaseAsset req)"
      "owner W bq (q_BuyerUserID req) (q_QuoteAsset req)" "owner W sq (q_SellerUserID req) (q_QuoteAsset req)"
    and a: "a \<in> set (db_assets db)" "a_Code a = q_QuoteAsset req"
    and b: "ab \<in> set (db_assets db)" "decimalScale W x0 \<le> a_Decimals ab"
  shows "hoare (working db (addSettled v db))
    (moveFunds en W (req\<lparr>q_QuoteAmount := d_String W (d_Truncate W q0 (a_Decimals a))\<rparr>) br sr
       (walletOf W sb) (walletOf W bb) (walletOf W bq) (walletOf W sq))
    (\<lambda>_ s. settles W T req db (x_base s) \<or> x_base s = db \<and> (settledBefore W req db \<or> refusedTrade en W req db))
    (\<lambda>_ s. x_base s = db \<or> settles W T req db (x_base s))"
proof -
  let ?y = "d_Truncate W q0 (a_Decimals a)" and ?req = "req\<lparr>q_QuoteAmount := d_String W (d_Truncate W q0 (a_Decimals a))\<rparr>"
  obtain sSrc where s: "source W (isSellerMM req) sr sb sSrc (addSettled v db)" "paysWith W req (isSellerMM req) (q_SellerOrderID req) sSrc"
    by (rule sideSource[OF W sr cs w(2)])
  obtain bSrc where bs: "source W (isBuyerMM req) br bq bSrc (addSettled v db)" "paysWith W req (isBuyerMM req) (q_BuyOrderID req) bSrc"
    by (rule sideSource[OF W br cb w(4)])
  have T: "a_Decimals a \<le> 10" "a_Decimals ab \<le> 10" using as a b by (auto simp: assets_ok_def)
  have x: "p_decimal W (q_BaseAmount ?req) = Some x0" "x0 \<in> T"
    using wlib_okD(3)[OF W x0] decimalScale_in[OF W b(2) T(2)] by simp_all
  have y: "p_decimal W (q_QuoteAmount ?req) = Some ?y" "?y \<in> T"
    using wlib_okD(3)[OF W wlib_okD(1)[OF W]] wlib_okD(7)[OF W T(1)] by simp_all
  have okv: "rows_ok T (addSettled v db)" using ok by (simp add: rows_ok_def)
  have mm: "isSellerMM ?req = isSellerMM req" "isBuyerMM ?req = isBuyerMM req"
    by (simp_all add: isSellerMM_def isBuyerMM_def)
  have S: "settles W T req db db'" if "trades W T ?req tr x0 ?y sSrc bSrc (addSettled v db) db'" for db'
    unfolding settles_def
    by (intro exI[of _ tr] exI[of _ x0] exI[of _ q0] exI[of _ a] exI[of _ sSrc] exI[of _ bSrc])
      (use that tr un x0 q0 a s(2) bs(2) in \<open>simp add: trades_upd v\<close>)
  have R: "refusedTrade en W req db" if "refused en W ?req tr (addSettled v db)"
    unfolding refusedTrade_def using that tr un by (simp add: refused_upd)
  show ?thesis
    by (rule hoare_conseq[OF moveFunds_hoare[OF W okv _ x y, of tr sb bb bq sq sr sSrc br bSrc db en]])
      (use w s(1) bs(1) S R tr in \<open>auto simp: mm owner_def\<close>)
qed

lemma SettleTrade_hoare:
  assumes W: "wlib_ok W T" and ok: "rows_ok T db" and as: "assets_ok T db"
  shows "hoare (idle db) (SettleTrade en W req)
    (\<lambda>_ s. settles W T req db (x_base s) \<or> x_base s = db \<and> (settledBefore W req db \<or> refusedTrade en W req db))
    (\<lambda>_ s. x_base s = db \<or> settles W T req db (x_base s))"
  (is "hoare _ _ ?Q ?E")
proof -
  have E: "?E e s" if "idle db s" for e s using that by (simp add: idle_def)
  have E': "?E e s" if "working db d s" for e s d using that by (simp add: working_def)
  show ?thesis
    unfolding SettleTrade_def Let_def
    apply (intro hoare_lift hoare_validateSettlementAmounts hoare_begin hoare_RegisterSettlement hoare_if
        hoare_lockReservations[OF W] hoare_fetchWallet hoare_roundToAssetPrecision hoare_validateAssetPrecision hoare_ret)
    apply (simp_all only: not_True_eq_False not_False_eq_True E E' prod.case simp_thms)
     apply (intro hoare_lift hoare_fetchWallet hoare_roundToAssetPrecision hoare_validateAssetPrecision)
                      apply (simp_all only: E E' simp_thms)
     apply (rule settlement_hoare[OF W ok as _ _ _ _ refl]; simp add: unit_eq)
    apply (simp add: working_def)
    done
qed

end
