(* ===== verification/WalletCalls.thy ===== *)
theory WalletCalls
  imports WalletSettleRefine
begin

text \<open>
  The wallet service as its clients see it: gRPC requests served one after the other, each
  with its own faults, and what any history of requests does to the database.
\<close>

section \<open>Requests\<close>

datatype wallet_call =
    CallInitialize string
  | CallReserve string string string string
  | CallRelease string
  | CallSettle settle_rpc
  | CallDeposit string string string string string
  | CallFreeze string string bool string
  | CallBalance string string
  | CallBalances string
  | CallAssets

fun serve :: "('d::linordered_idom) wlib \<Rightarrow> pg_env \<times> wallet_call \<Rightarrow> 'd wallet_db \<Rightarrow> 'd wallet_db" where
  "serve W (en, CallInitialize u) db = snd (runTx (rpcInitializeWallet en W u) db)"
| "serve W (en, CallReserve u ord a x) db = snd (runTx (rpcReserveFunds en W u ord a x) db)"
| "serve W (en, CallRelease ord) db = snd (runTx (rpcReleaseFunds en W ord) db)"
| "serve W (en, CallSettle rq) db = snd (runTx (rpcSettleTrade en W rq) db)"
| "serve W (en, CallDeposit u a x ref ty) db = snd (runTx (rpcDepositFunds en W u a x ref ty) db)"
| "serve W (en, CallFreeze u a f why) db = snd (runTx (rpcFreezeWallet en W u a f why) db)"
| "serve W (en, CallBalance u a) db = snd (runTx (rpcGetBalance en W u a) db)"
| "serve W (en, CallBalances u) db = snd (runTx (rpcGetBalances en W u) db)"
| "serve W (en, CallAssets) db = snd (runTx (rpcGetSupportedAssets en W) db)"

definition serveAll :: "('d::linordered_idom) wlib \<Rightarrow> (pg_env \<times> wallet_call) list \<Rightarrow> 'd wallet_db \<Rightarrow> 'd wallet_db" where
  "serveAll W cs db = fold (serve W) cs db"

text \<open>The reference types a history deposits with.\<close>

fun depositType :: "wallet_call \<Rightarrow> string set" where
  "depositType (CallDeposit u a x ref ty) = {ty}"
| "depositType _ = {}"

section \<open>Every request is a sequence of wallet steps\<close>

definition moves :: "('d::linordered_idom) set \<Rightarrow> string set \<Rightarrow> 'd wallet_db \<Rightarrow> ('d wallet_db, 'e, 'a) prog \<Rightarrow> bool" where
  "moves T D db m \<longleftrightarrow> hoare (idle db) m (\<lambda>_ s. (wallet_step T D)\<^sup>*\<^sup>* db (x_base s)) (\<lambda>_ s. (wallet_step T D)\<^sup>*\<^sup>* db (x_base s))"

lemma moves_runTx: "moves T D db m \<Longrightarrow> (wallet_step T D)\<^sup>*\<^sup>* db (snd (runTx m db))"
  unfolding moves_def hoare_def by (auto simp: runTx_def startTx_def idle_def split: prod.splits sum.splits
    dest!: spec[of _ "\<lparr>x_base = db, x_db = db, x_n = 0, x_aborted = False\<rparr>"])

lemma moves_throw: "moves T D db (throw e)"
  by (auto simp: moves_def idle_def intro!: hoare_throw)

lemma moves_grpc: "moves T D db m \<Longrightarrow> moves T D db (grpc m)"
  by (auto simp: moves_def hoare_def grpc_def split: prod.splits sum.splits)

lemma moves_map: "moves T D db m \<Longrightarrow> moves T D db (bindT m (\<lambda>a. ret (f a)))"
  by (fastforce simp: moves_def hoare_def bindT_def ret_def split: prod.splits sum.splits)

lemma moves_if: "moves T D db m \<Longrightarrow> moves T D db m' \<Longrightarrow> moves T D db (if c then m else m')"
  by simp

lemma moves_option: "moves T D db m \<Longrightarrow> (\<And>a. moves T D db (f a)) \<Longrightarrow>
    moves T D db (case opt of None \<Rightarrow> m | Some a \<Rightarrow> f a)"
  by (cases opt) auto

lemma moves_poolQuery: "moves T D db (poolQuery en err f)"
  by (auto simp: moves_def hoare_def poolQuery_def idle_def split: sum.splits)

lemmas moves_intros = moves_throw moves_grpc moves_map moves_if moves_option moves_poolQuery

text \<open>A triple with a step behind it.\<close>

lemma hoare_moves:
  assumes "hoare (idle db) m Q E"
    and "\<And>a s. Q a s \<Longrightarrow> x_base s = db \<or> wallet_step T D db (x_base s)"
    and "\<And>e s. E e s \<Longrightarrow> x_base s = db \<or> wallet_step T D db (x_base s)"
  shows "moves T D db m"
  unfolding moves_def by (rule hoare_conseq[OF assms(1)]) (use assms(2,3) in blast)+

lemma settles_step:
  fixes W :: "('d::linordered_idom) wlib"
  assumes "settles W T req db db'"
  shows "wallet_step T D db db'"
proof -
  from assms obtain tr x q sSrc bSrc and a :: "'d asset_row" where un: "unsettled tr (q_MarketID req) (uint (q_Sequence req)) db"
    and t: "trades W T req tr x (d_Truncate W q (a_Decimals a)) sSrc bSrc
      (addSettled \<lparr>s_TradeID = tr, s_MarketID = q_MarketID req, s_Sequence = uint (q_Sequence req)\<rparr> db) db'"
    unfolding settles_def by blast
  from t obtain sb bb bq sq d1 d2 us evs where "0 < x" "0 < d_Truncate W q (a_Decimals a)"
    "leg T sSrc sb bb x (addSettled \<lparr>s_TradeID = tr, s_MarketID = q_MarketID req, s_Sequence = uint (q_Sequence req)\<rparr> db) d1"
    "leg T bSrc bq sq (d_Truncate W q (a_Decimals a)) d1 d2"
    "db' = addOutbox evs (addLedger (settlementEntries tr us sb bb bq sq x (d_Truncate W q (a_Decimals a))) d2)"
    unfolding trades_def by blast
  with un show ?thesis unfolding settlementEntries_def unsettled_def by (auto intro: wallet_step.settle)
qed

lemma serve_moves:
  assumes W: "wlib_ok W T" and ok: "rows_ok T db" and as: "assets_ok T db" and D: "depositType c \<subseteq> D"
  shows "(wallet_step T D)\<^sup>*\<^sup>* db (serve W (en, c) db)"
proof -
  have i: "moves T D db (InitializeWallet en W u)" for u
    unfolding moves_def by (rule InitializeWallet_hoare[OF W as])
  have r: "moves T D db (ReserveFunds en W u ord a x)" for u ord a x
    by (rule hoare_moves[OF ReserveFunds_hoare[OF W ok as]]) (auto dest: reserves_step)
  have l: "moves T D db (ReleaseFunds en W ord)" for ord
    by (rule hoare_moves[OF ReleaseFunds_hoare[OF W ok]]) (auto dest: releases_step)
  have s: "moves T D db (SettleTrade en W req)" for req
    by (rule hoare_moves[OF SettleTrade_hoare[OF W ok as]]) (auto dest: settles_step)
  have d: "moves T D db (DepositFunds en W u a x ref ty)" if "ty \<in> D" for u a x ref ty
    by (rule hoare_moves[OF DepositFunds_hoare[OF W ok as]]) (auto dest: deposits_step[OF _ that])
  have f: "moves T D db (FreezeWallet en W u a b why)" for u a b why
    by (rule hoare_moves[OF FreezeWallet_hoare[OF W ok]]) (auto dest: freezes_step)
  have g: "moves T D db (GetBalance en W u a)" for u a
    by (rule hoare_moves[where Q = "\<lambda>_. idle db" and E = "\<lambda>_. idle db"])
      (auto simp: GetBalance_def idle_def intro!: hoare_poolQuery hoare_option hoare_throw hoare_ret)
  have b: "moves T D db (GetBalances en W u)" for u by (simp add: GetBalances_def moves_poolQuery)
  have a: "moves T D db (GetSupportedAssets en)" by (simp add: GetSupportedAssets_def moves_poolQuery)
  show ?thesis
    using D by (cases c)
      (auto simp: rpcInitializeWallet_def rpcReserveFunds_def rpcReleaseFunds_def rpcSettleTrade_def rpcDepositFunds_def
        rpcFreezeWallet_def rpcGetBalance_def rpcGetBalances_def rpcGetSupportedAssets_def
        intro!: moves_runTx moves_intros i r l s d f g b a)
qed

lemma leg_assets: "leg T src p q x d d' \<Longrightarrow> db_assets d' = db_assets d"
  by (cases rule: leg.cases) auto

lemma step_assets:
  assumes "wallet_step T D db db'"
  shows "db_assets db' = db_assets db"
  using assms
proof cases
  case (settle tr mk sq x y sSrc sb bb d1 bSrc bq sq' d2)
  then show ?thesis using leg_assets[OF settle(5)] leg_assets[OF settle(6)] by simp
qed simp_all

lemma steps_assets: "(wallet_step T D)\<^sup>*\<^sup>* db db' \<Longrightarrow> db_assets db' = db_assets db"
  by (induction rule: rtranclp_induct) (auto dest: step_assets)

lemma serveAll_moves:
  assumes W: "wlib_ok W T" and "wallet_ok T db" and "assets_ok T db" and "\<forall>(en, c)\<in>set cs. depositType c \<subseteq> D"
  shows "(wallet_step T D)\<^sup>*\<^sup>* db (serveAll W cs db) \<and> wallet_ok T (serveAll W cs db) \<and> assets_ok T (serveAll W cs db)"
  using assms(2-4)
proof (induction cs arbitrary: db)
  case (Cons ec cs)
  obtain en c where ec: "ec = (en, c)" by (cases ec)
  have st: "(wallet_step T D)\<^sup>*\<^sup>* db (serve W (en, c) db)"
    by (rule serve_moves[OF W]) (use Cons.prems in \<open>auto simp: wallet_ok_def ec\<close>)
  have "wallet_ok T (serve W (en, c) db)" using wallet_steps_ok[OF st wlib_places[OF W] Cons.prems(1)] .
  moreover have "assets_ok T (serve W (en, c) db)" using steps_assets[OF st] Cons.prems(2) by (simp add: assets_ok_def)
  ultimately show ?case using Cons.IH[of "serve W (en, c) db"] Cons.prems(3) st
    by (auto simp: serveAll_def ec intro: rtranclp_trans)
qed (simp add: serveAll_def)

end
