(* ===== verification/WalletLedger.thy ===== *)
theory WalletLedger
  imports WalletCalls
begin

text \<open>
  The ledger of the wallets: what its entries say a wallet holds, and that no history of
  requests lets a balance and its entries drift apart.
\<close>

text \<open>Reserving and releasing move funds within a wallet, so their entries do not count.\<close>

definition signed :: "('d::linordered_idom) ledger_row \<Rightarrow> 'd" where
  "signed l = (if t_ReferenceType l = ''RESERVATION'' \<or> t_ReferenceType l = ''RELEASE'' then 0
               else case t_Type l of TxnTypeCredit \<Rightarrow> t_Amount l | TxnTypeDebit \<Rightarrow> - t_Amount l)"

definition entryTotal :: "uuid \<Rightarrow> ('d::linordered_idom) ledger_row list \<Rightarrow> 'd" where
  "entryTotal i ls = sum_list (map (\<lambda>l. if t_WalletID l = i then signed l else 0) ls)"

lemma entryTotal_simps [simp]:
  "entryTotal i [] = 0" "entryTotal i (l # ls) = (if t_WalletID l = i then signed l else 0) + entryTotal i ls"
  "entryTotal i (xs @ ys) = entryTotal i xs + entryTotal i ys"
  by (simp_all add: entryTotal_def)

lemma entryTotal_other: "\<forall>l\<in>set ls. t_WalletID l \<noteq> i \<Longrightarrow> entryTotal i ls = 0"
  by (induction ls) auto

definition ledger_ok :: "('d::linordered_idom) wallet_db \<Rightarrow> bool" where
  "ledger_ok db \<longleftrightarrow>
     (\<forall>l\<in>set (db_ledger db). t_WalletID l \<in> w_ID ` set (db_wallets db)) \<and>
     (\<forall>w\<in>set (db_wallets db). w_Total w = entryTotal (w_ID w) (db_ledger db)) \<and>
     (\<forall>l\<in>set (db_ledger db). t_ReferenceType l = ''SETTLEMENT'' \<longrightarrow> t_ReferenceID l \<in> s_TradeID ` set (db_settled db))"

text \<open>A change of the totals that its new entries explain.\<close>

lemma ledger_ok_more:
  assumes ok: "ledger_ok db" and l: "db_ledger db' = db_ledger db @ ls"
    and ids: "w_ID ` set (db_wallets db) \<subseteq> w_ID ` set (db_wallets db')"
    and st: "s_TradeID ` set (db_settled db) \<subseteq> s_TradeID ` set (db_settled db')"
    and w: "\<And>w'. w' \<in> set (db_wallets db') \<Longrightarrow> \<exists>w\<in>set (db_wallets db). w_ID w = w_ID w' \<and>
      w_Total w' = w_Total w + entryTotal (w_ID w) ls"
    and new: "\<And>l. l \<in> set ls \<Longrightarrow> t_WalletID l \<in> w_ID ` set (db_wallets db') \<and>
      (t_ReferenceType l = ''SETTLEMENT'' \<longrightarrow> t_ReferenceID l \<in> s_TradeID ` set (db_settled db'))"
  shows "ledger_ok db'"
  unfolding ledger_ok_def
proof (intro conjI ballI impI)
  fix w' assume "w' \<in> set (db_wallets db')"
  with w obtain w where "w \<in> set (db_wallets db)" "w_ID w = w_ID w'" "w_Total w' = w_Total w + entryTotal (w_ID w) ls" by blast
  with ok show "w_Total w' = entryTotal (w_ID w') (db_ledger db')" by (simp add: ledger_ok_def l)
qed (use ok ids st new in \<open>auto simp: ledger_ok_def l\<close>)

lemma upd_ids: "wallet_change f \<Longrightarrow> w_ID ` set (upd w_ID i f rows) = w_ID ` set rows"
  unfolding upd_def by (induction rows) (auto simp: wallet_change_def)

lemma upd_total:
  assumes d: "distinct (map w_ID rows)" and w: "w \<in> set rows" and c: "wallet_change f" and t: "w_Total (f w) = w_Total w + (x::'d::linordered_idom)"
    and v: "v \<in> set (upd w_ID (w_ID w) f rows)"
  shows "\<exists>v0\<in>set rows. w_ID v0 = w_ID v \<and> w_Total v = w_Total v0 + (if w_ID v0 = w_ID w then x else 0)"
  using v
proof (cases rule: set_updE)
  case (2 r)
  with key_unique[OF d _ w] have "r = w" by simp
  with 2 t c w show ?thesis by (auto simp: wallet_change_def)
qed auto

lemma leg_totals:
  assumes ok: "rows_ok T d" and leg: "leg T src p q x d d'" and v: "v \<in> set (db_wallets d')"
  shows "\<exists>v0\<in>set (db_wallets d). w_ID v0 = w_ID v \<and>
    w_Total v = w_Total v0 - (if w_ID v0 = w_ID p then x else 0) + (if w_ID v0 = w_ID q then x else 0)"
proof -
  have go: "\<exists>v0\<in>set (db_wallets d). w_ID v0 = w_ID v \<and>
    w_Total v = w_Total v0 - (if w_ID v0 = w_ID p then x else 0) + (if w_ID v0 = w_ID q then x else 0)"
    if p: "p \<in> set (db_wallets d)" and f: "wallet_change f" "w_Total (f p) = w_Total p + - x"
      and q: "q \<in> set (upd w_ID (w_ID p) f (db_wallets d))"
      and v: "v \<in> set (upd w_ID (w_ID q) (credited x) (upd w_ID (w_ID p) f (db_wallets d)))" for f
  proof -
    have d: "distinct (map w_ID (upd w_ID (w_ID p) f (db_wallets d)))"
      using rows_okD(1)[OF ok] upd_keys[where k' = w_ID and f = f] f(1) by (metis wallet_change_def)
    obtain v1 where v1: "v1 \<in> set (upd w_ID (w_ID p) f (db_wallets d))" "w_ID v1 = w_ID v"
      "w_Total v = w_Total v1 + (if w_ID v1 = w_ID q then x else 0)"
      using upd_total[OF d q _ _ v, of x] by (auto simp: credited_def wallet_change_def)
    obtain v0 where "v0 \<in> set (db_wallets d)" "w_ID v0 = w_ID v1" "w_Total v1 = w_Total v0 + (if w_ID v0 = w_ID p then - x else 0)"
      using upd_total[OF rows_okD(1)[OF ok] p f v1(1)] by blast
    with v1 show ?thesis by (intro bexI[of _ v0]) auto
  qed
  from leg show ?thesis
  proof (cases rule: leg_cases)
    case 1: market_maker
    from go[of "debited x"] 1 v show ?thesis by (simp add: debited_def)
  next
    case 2: (reservation r)
    from go[of "spent x"] 2 v show ?thesis by (simp add: spent_def)
  qed
qed

lemma leg_ids:
  assumes "leg T src p q x d d'"
  shows "w_ID ` set (db_wallets d') = w_ID ` set (db_wallets d)" and "w_ID p \<in> w_ID ` set (db_wallets d)"
    and "w_ID q \<in> w_ID ` set (db_wallets d)"
proof -
  from assms show "w_ID ` set (db_wallets d') = w_ID ` set (db_wallets d)" by (cases rule: leg.cases) (simp_all add: upd_ids)
  from assms show "w_ID p \<in> w_ID ` set (db_wallets d)" by (cases rule: leg.cases) auto
  from assms show "w_ID q \<in> w_ID ` set (db_wallets d)"
  proof (cases rule: leg.cases)
    case market_maker
    with upd_ids[of "debited x" "w_ID p" "db_wallets d"] show ?thesis by auto
  next
    case (reservation r)
    with upd_ids[of "spent x" "w_ID p" "db_wallets d"] show ?thesis by auto
  qed
qed

text \<open>Deposits under one of the internal reference types would confuse the ledger.\<close>

definition internalTypes :: "string set" where
  "internalTypes = {''RESERVATION'', ''RELEASE'', ''SETTLEMENT''}"

lemma settle_ledger:
  assumes ok: "wallet_ok T db" and T: "places_closed T" and lk: "ledger_ok db" and x: "0 < x"
    and l1: "leg T sSrc sb bb x (addSettled v db) d1" and l2: "leg T bSrc bq sq y d1 d2"
  shows "ledger_ok (addOutbox evs (addLedger
    [settleEntry i1 (s_TradeID v) sb TxnTypeDebit x, settleEntry i2 (s_TradeID v) bb TxnTypeCredit x,
     settleEntry i3 (s_TradeID v) bq TxnTypeDebit y, settleEntry i4 (s_TradeID v) sq TxnTypeCredit y] d2))"
    (is "ledger_ok (addOutbox _ (addLedger ?ls _))")
proof (rule ledger_ok_more[OF lk, where ls = ?ls])
  from leg_ok[OF T _ x l1] ok have "wallet_ok T d1" by simp
  then have r1: "rows_ok T d1" by (simp add: wallet_ok_def)
  have r0: "rows_ok T (addSettled v db)" using ok by (simp add: wallet_ok_def rows_ok_def)
  note lg = leg_ledger[OF l1] leg_ledger[OF l2]
  note i1 = leg_ids[OF l1] and i2 = leg_ids[OF l2]
  show "db_ledger (addOutbox evs (addLedger ?ls d2)) = db_ledger db @ ?ls" using lg by simp
  show "w_ID ` set (db_wallets db) \<subseteq> w_ID ` set (db_wallets (addOutbox evs (addLedger ?ls d2)))" using i1 i2 by simp
  show "s_TradeID ` set (db_settled db) \<subseteq> s_TradeID ` set (db_settled (addOutbox evs (addLedger ?ls d2)))" using lg by auto
  show "t_WalletID l \<in> w_ID ` set (db_wallets (addOutbox evs (addLedger ?ls d2))) \<and>
      (t_ReferenceType l = ''SETTLEMENT'' \<longrightarrow> t_ReferenceID l \<in> s_TradeID ` set (db_settled (addOutbox evs (addLedger ?ls d2))))"
    if "l \<in> set ?ls" for l using that lg i1 i2 by (auto simp: settleEntry_def)
  fix w' assume "w' \<in> set (db_wallets (addOutbox evs (addLedger ?ls d2)))"
  then have "w' \<in> set (db_wallets d2)" by simp
  from leg_totals[OF r1 l2 this] obtain v1 where v1: "v1 \<in> set (db_wallets d1)" "w_ID v1 = w_ID w'"
    "w_Total w' = w_Total v1 - (if w_ID v1 = w_ID bq then y else 0) + (if w_ID v1 = w_ID sq then y else 0)" by blast
  from leg_totals[OF r0 l1 v1(1)] obtain v0 where "v0 \<in> set (db_wallets db)" "w_ID v0 = w_ID v1"
    "w_Total v1 = w_Total v0 - (if w_ID v0 = w_ID sb then x else 0) + (if w_ID v0 = w_ID bb then x else 0)" by auto
  with v1 show "\<exists>w\<in>set (db_wallets db). w_ID w = w_ID w' \<and> w_Total w' = w_Total w + entryTotal (w_ID w) ?ls"
    by (intro bexI[of _ v0]) (auto simp: settleEntry_def signed_def)
qed

text \<open>The entries of a step on one wallet.\<close>

lemma one_wallet_ledger:
  assumes ok: "wallet_ok T db" and lk: "ledger_ok db" and w: "w \<in> set (db_wallets db)"
    and f: "wallet_change f" "w_Total (f w) = w_Total w + entryTotal (w_ID w) ls"
    and db': "db_wallets db' = upd w_ID (w_ID w) f (db_wallets db)" "db_ledger db' = db_ledger db @ ls" "db_settled db' = db_settled db"
    and ls: "\<And>l. l \<in> set ls \<Longrightarrow> t_WalletID l = w_ID w \<and> t_ReferenceType l \<noteq> ''SETTLEMENT''"
  shows "ledger_ok db'"
proof (rule ledger_ok_more[OF lk db'(2)])
  show "w_ID ` set (db_wallets db) \<subseteq> w_ID ` set (db_wallets db')" using f by (simp add: db' upd_ids)
  show "t_WalletID l \<in> w_ID ` set (db_wallets db') \<and>
      (t_ReferenceType l = ''SETTLEMENT'' \<longrightarrow> t_ReferenceID l \<in> s_TradeID ` set (db_settled db'))" if "l \<in> set ls" for l
    using ls[OF that] w f by (simp add: db' upd_ids)
  fix w' assume "w' \<in> set (db_wallets db')"
  from upd_total[OF _ w f this[unfolded db'(1)]] ok obtain v0 where v0: "v0 \<in> set (db_wallets db)" "w_ID v0 = w_ID w'"
    "w_Total w' = w_Total v0 + (if w_ID v0 = w_ID w then entryTotal (w_ID w) ls else 0)"
    by (auto simp: wallet_ok_def rows_ok_def)
  moreover have "entryTotal (w_ID v0) ls = 0" if "w_ID v0 \<noteq> w_ID w"
    by (rule entryTotal_other) (use ls that in auto)
  ultimately show "\<exists>w\<in>set (db_wallets db). w_ID w = w_ID w' \<and> w_Total w' = w_Total w + entryTotal (w_ID w) ls"
    by (intro bexI[of _ v0]) auto
qed (simp add: db')

lemma step_ledger:
  assumes T: "places_closed T" and D: "D \<inter> internalTypes = {}" and ok: "wallet_ok T db" and lk: "ledger_ok db"
    and step: "wallet_step T D db db'"
  shows "ledger_ok db'"
  using step
proof cases
  case (settle tr mk sq x y sSrc sb bb d1 bSrc bq sq' d2)
  from settle_ledger[OF ok T lk settle(3,5,6)] show ?thesis by (simp add: settle(1))
next
  case (reserve w x ord rid tid)
  show ?thesis unfolding reserve(1)
    by (rule one_wallet_ledger[OF ok lk reserve(2), where f = "reserved x"]) (auto simp: reserved_def signed_def)
next
  case (release_empty r)
  then show ?thesis using lk by (simp add: ledger_ok_def)
next
  case (release r w tid)
  show ?thesis unfolding release(1)
    by (rule one_wallet_ledger[OF ok lk release(5), where f = "unreserved (r_Remaining r)"]) (auto simp: unreserved_def signed_def)
next
  case (deposit w x ty ref tid)
  then have "ty \<notin> internalTypes" using D by blast
  then show ?thesis unfolding deposit(1)
    by (intro one_wallet_ledger[OF ok lk deposit(2), where f = "credited x"]) (auto simp: credited_def signed_def internalTypes_def)
next
  case (freeze w b who why)
  show ?thesis unfolding freeze(1)
    by (rule one_wallet_ledger[OF ok lk freeze(2), where f = "frozenTo b who why" and ls = "[]"]) (auto simp: frozenTo_def)
next
  case (create w ls tid ref)
  have tot: "w_Total w = w_Available w" using create(2,3) by (simp add: wallet_row_ok_def)
  have new: "\<forall>l\<in>set (db_ledger db). t_WalletID l \<noteq> w_ID w" using lk create(5) by (fastforce simp: ledger_ok_def)
  have old: "entryTotal (w_ID v) ls = 0" if "v \<in> set (db_wallets db)" for v
    using create(5,6) that by (auto)
  show ?thesis
    using lk create(6) entryTotal_other[OF new] old tot
    unfolding create(1) ledger_ok_def by (auto simp: addLedger_def signed_def)
qed

lemma steps_ledger:
  assumes "(wallet_step T D)\<^sup>*\<^sup>* db db'" and "places_closed T" and "D \<inter> internalTypes = {}" and "wallet_ok T db" and "ledger_ok db"
  shows "ledger_ok db'"
  using assms(1)
proof (induction rule: rtranclp_induct)
  case (step d d')
  from wallet_steps_ok[OF step(1) assms(2,4)] step_ledger[OF assms(2,3) _ step(3) step(2)] show ?case by blast
qed (rule assms(5))

end
