(* ===== verification/WalletSample.thy ===== *)
theory WalletSample
  imports WalletCalls
begin

text \<open>
  An instance of the outside code on the integers, and a small database: a buyer and a seller
  with open reservations, for the witnesses of the properties.
\<close>

definition read_int :: "string \<Rightarrow> int option" where
  "read_int s = (if s = ''0'' \<or> s = ''0.0000000000'' then Some 0 else read_unary s)"

lemma read_int_show: "read_int (show_unary i) = Some i"
proof -
  have "show_unary i \<noteq> ''0'' \<and> show_unary i \<noteq> ''0.0000000000''"
    using read_show_unary[of i] by auto
  then show ?thesis by (simp add: read_int_def read_show_unary)
qed

definition int_wlib :: "int wlib" where
  "int_wlib = \<lparr>d_String = show_unary, d_NewFromString = read_int, d_Mod = go_rem,
     u_String = (\<lambda>u. show_unary (uint u)), u_Parse = (\<lambda>s. map_option word_of_int (read_unary s)),
     u_NewSHA1_DNS = (\<lambda>s. word_of_int (int (length s))),
     t_FormatNano = show_unary, t_ParseNano = read_unary,
     d_Exponent = (\<lambda>_. 0), d_Truncate = (\<lambda>x _. x), d_StringFixed = (\<lambda>x _. show_unary x),
     d_New = (\<lambda>m e. m * 10 ^ nat e),
     p_uuid = (\<lambda>s. map_option word_of_int (read_unary s)), p_uuid_text = (\<lambda>u. show_unary (uint u)),
     p_decimal = read_int, p_decimal_text = show_unary,
     p_column = (\<lambda>x. if \<bar>x\<bar> < 10 ^ 20 then Some x else None)\<rparr>"

lemma int_wlib_ok: "wlib_ok int_wlib UNIV"
  by (simp add: wlib_ok_def int_wlib_def read_int_show read_show_unary) (simp add: read_int_def)

text \<open>User 2 sells 3 BTC at 5 USDT from order 4 to user 1 and its order 3.\<close>

definition walletRow :: "uuid \<Rightarrow> uuid \<Rightarrow> string \<Rightarrow> int \<Rightarrow> int \<Rightarrow> int wallet_row" where
  "walletRow i u a av rs = \<lparr>w_ID = i, w_UserID = u, w_Asset = a, w_Available = av, w_Reserved = rs,
     w_IsFrozen = False, w_FrozenBy = None, w_FreezeReason = None, w_Initial = av + rs, w_Total = av + rs\<rparr>"

definition reservationRow :: "uuid \<Rightarrow> uuid \<Rightarrow> uuid \<Rightarrow> string \<Rightarrow> int \<Rightarrow> int reservation_row" where
  "reservationRow i ord u a x = \<lparr>r_ID = i, r_OrderID = ord, r_UserID = u, r_Asset = a, r_Reserved = x,
     r_Consumed = 0, r_Remaining = x, r_Status = ReservationActive\<rparr>"

definition depositRow :: "uuid \<Rightarrow> uuid \<Rightarrow> string \<Rightarrow> int \<Rightarrow> int ledger_row" where
  "depositRow i w a x = \<lparr>t_ID = i, t_WalletID = w, t_ReferenceID = i, t_ReferenceType = ''DEPOSIT'', t_Type = TxnTypeCredit,
     t_Asset = a, t_Amount = x\<rparr>"

definition sampleDb :: "int wallet_db" where
  "sampleDb = \<lparr>
     db_assets = [\<lparr>a_Code = ''BTC'', a_Name = [], a_Decimals = 8, a_IsEnabled = True, a_SeedAmount = 0, a_DisplayOrder = 2\<rparr>,
                  \<lparr>a_Code = ''USDT'', a_Name = [], a_Decimals = 2, a_IsEnabled = True, a_SeedAmount = 10, a_DisplayOrder = 1\<rparr>],
     db_wallets = [walletRow 1 1 ''BTC'' 0 0, walletRow 2 1 ''USDT'' 5 20, walletRow 3 2 ''BTC'' 1 4, walletRow 4 2 ''USDT'' 0 0],
     db_reservations = [reservationRow 1 3 1 ''USDT'' 20, reservationRow 2 4 2 ''BTC'' 4],
     db_ledger = [depositRow 10 2 ''USDT'' 25, depositRow 11 3 ''BTC'' 5], db_settled = [], db_outbox = []\<rparr>"

text \<open>No call fails, and the n-th call, of the first thousand, draws the identifier \<open>n + 100\<close>.\<close>

definition calm :: pg_env where
  "calm = \<lparr>pe_fault = (\<lambda>_. False), pe_uuid = (\<lambda>n. if n < 1000 then Some (of_nat n + 100) else None), pe_commit = (\<lambda>_. CommitOk), pe_now = (\<lambda>n. int n)\<rparr>"

definition sampleTrade :: trade_request where
  "sampleTrade = \<lparr>q_TradeID = ''1'', q_BuyerUserID = ''1'', q_SellerUserID = ''11'', q_BuyOrderID = ''111'',
     q_SellerOrderID = ''1111'', q_MarketID = ''BTC-USDT'', q_BaseAsset = ''BTC'', q_QuoteAsset = ''USDT'',
     q_BaseAmount = ''111'', q_QuoteAmount = ''111111111111111'', q_Price = ''11111'', q_Quantity = ''111'',
     q_Sequence = 7, q_ExecutedAt = []\<rparr>"

lemma sampleDb_ok: "wallet_ok UNIV sampleDb" "assets_ok UNIV sampleDb"
  by (auto simp: depositRow_def wallet_ok_def rows_ok_def sampleDb_def walletRow_def reservationRow_def wallet_row_ok_def
      reservation_row_ok_def lifecycle_ok_def backed_def reservedOf_def openAmount_def openShare_def live_def assets_ok_def)

end
