(* ===== verification/WalletProps.thy ===== *)
theory WalletProps
  imports WalletLedger WalletSample
begin

text \<open>
  The properties of the wallet service: its invariants under any history of requests and
  faults, the settlement of a trade exactly once, and the other operations.
\<close>

section \<open>Runs\<close>

text \<open>A triple as a statement about the outcome of a call.\<close>

lemma run_outcome:
  assumes "hoare (idle db) m (\<lambda>a s. Q a (x_base s)) (\<lambda>e s. E e (x_base s))"
  shows "case runTx m db of (Inr a, db') \<Rightarrow> Q a db' | (Inl e, db') \<Rightarrow> E e db'"
  using assms unfolding hoare_def
  by (auto simp: runTx_def startTx_def idle_def split: prod.splits sum.splits
      dest!: spec[of _ "\<lparr>x_base = db, x_db = db, x_n = 0, x_aborted = False\<rparr>"])

lemma run_snd:
  assumes "case runTx m db of (Inr a, db') \<Rightarrow> Q a db' | (Inl e, db') \<Rightarrow> E e db'"
    and "\<And>a db'. Q a db' \<Longrightarrow> P db'" and "\<And>e db'. E e db' \<Longrightarrow> P db'"
  shows "P (snd (runTx m db))"
  using assms by (cases "runTx m db") (auto split: sum.splits)

lemma wallet_rows_ok: "wallet_ok T db \<Longrightarrow> rows_ok T db"
  by (simp add: wallet_ok_def)

lemma step_settled:
  assumes "wallet_step T D db db'"
  shows "set (db_settled db) \<subseteq> set (db_settled db')"
  using assms
proof cases
  case (settle tr mk sq x y sSrc sb bb d1 bSrc bq sq' d2)
  then show ?thesis using leg_ledger[OF settle(5)] leg_ledger[OF settle(6)] by auto
qed auto

lemma steps_settled: "(wallet_step T D)\<^sup>*\<^sup>* db db' \<Longrightarrow> set (db_settled db) \<subseteq> set (db_settled db')"
  by (induction rule: rtranclp_induct) (auto dest: step_settled)

lemma step_ledger_mono:
  assumes "wallet_step T D db db'"
  shows "set (db_ledger db) \<subseteq> set (db_ledger db')"
  using assms
proof cases
  case (settle tr mk sq x y sSrc sb bb d1 bSrc bq sq' d2)
  then show ?thesis using leg_ledger[OF settle(5)] leg_ledger[OF settle(6)] by auto
qed auto

lemma steps_ledger_mono: "(wallet_step T D)\<^sup>*\<^sup>* db db' \<Longrightarrow> set (db_ledger db) \<subseteq> set (db_ledger db')"
  by (induction rule: rtranclp_induct) (auto dest: step_ledger_mono)

lemma any_types: "\<forall>(en, c)\<in>set cs. depositType c \<subseteq> UNIV"
  by auto

section \<open>Invariants\<close>

text \<open>
  C14. Whatever requests the wallet service serves, whichever of their database calls fail and
  whichever commit acknowledgements are lost, every wallet keeps non-negative balances with
  total = available + reserved, and its reserved balance is exactly what the open
  reservations of that user and asset still hold; reservations keep reserved = consumed +
  remaining with a status to match, and the keys stay unique.
\<close>

theorem wallet_always_sound:
  assumes W: "wlib_ok W T" and ok: "wallet_ok T db" and as: "assets_ok T db"
  shows "wallet_ok T (serveAll W cs db) \<and>
    (\<forall>w\<in>set (db_wallets (serveAll W cs db)). 0 \<le> w_Available w \<and> 0 \<le> w_Reserved w \<and>
       w_Total w = w_Available w + w_Reserved w \<and>
       w_Reserved w = openAmount (w_UserID w) (w_Asset w) (serveAll W cs db))"
proof -
  have 1: "wallet_ok T (serveAll W cs db)" using serveAll_moves[OF W ok as any_types] by blast
  then have r: "rows_ok T (serveAll W cs db)" and b: "backed (serveAll W cs db)" by (auto simp: wallet_ok_def)
  from 1 rows_okD(3)[OF r] reservedOf_row[OF r] b show ?thesis
    by (auto simp: wallet_row_ok_def backed_def)
qed

lemma wallet_always_sound_witness:
  "wallet_ok UNIV (serveAll int_wlib [(calm, CallReserve ''1'' ''11111'' ''USDT'' ''111'')] sampleDb)"
  using wallet_always_sound[OF int_wlib_ok sampleDb_ok] by blast

text \<open>
  C17. The ledger explains the balances: as long as no client deposits under the reference
  types of reservations, releases and settlements, after any history the total of every
  wallet is the signed sum of its ledger entries, every entry belongs to a wallet, and every
  settlement entry to a registered trade.
\<close>

theorem ledger_explains_balances:
  assumes W: "wlib_ok W T" and ok: "wallet_ok T db" and as: "assets_ok T db" and lk: "ledger_ok db"
    and D: "\<forall>(en, c)\<in>set cs. depositType c \<inter> internalTypes = {}"
  shows "ledger_ok (serveAll W cs db)"
proof -
  have "\<forall>(en, c)\<in>set cs. depositType c \<subseteq> - internalTypes" using D by auto
  from serveAll_moves[OF W ok as this] have "(wallet_step T (- internalTypes))\<^sup>*\<^sup>* db (serveAll W cs db)" by blast
  from steps_ledger[OF this wlib_places[OF W] _ ok lk] show ?thesis by blast
qed

definition emptyDb :: "int wallet_db" where
  "emptyDb = \<lparr>db_assets = db_assets sampleDb, db_wallets = [], db_reservations = [], db_ledger = [], db_settled = [], db_outbox = []\<rparr>"

lemma emptyDb_ok: "wallet_ok UNIV emptyDb" "assets_ok UNIV emptyDb" "ledger_ok emptyDb"
  by (auto simp: emptyDb_def wallet_ok_def rows_ok_def backed_def reservedOf_def openAmount_def assets_ok_def sampleDb_def ledger_ok_def)

lemma ledger_explains_balances_witness:
  "ledger_ok (serveAll int_wlib [(calm, CallInitialize ''1''), (calm, CallDeposit ''1'' ''USDT'' ''11'' ''111'' ''DEPOSIT'')] emptyDb)"
  by (rule ledger_explains_balances[OF int_wlib_ok emptyDb_ok]) (simp add: internalTypes_def)

section \<open>Settling a trade\<close>

text \<open>
  C15. Settling a trade is all or nothing. A call that reports success has made the whole
  settlement - both legs between the four wallets from the two reservations or the market
  maker's balance, the quote amount truncated to the precision of its asset, four ledger
  entries, three outbox events, and the registration that was not there before - or it has
  changed nothing because the trade was registered already with the same market and
  sequence, or because its ledger entries clash with existing ones. A call that reports an
  error has changed nothing, or made the whole settlement with the acknowledgement lost.
\<close>

theorem SettleTrade_refines:
  assumes W: "wlib_ok W T" and ok: "wallet_ok T db" and as: "assets_ok T db"
  shows "case runTx (SettleTrade en W req) db of
      (Inr _, db') \<Rightarrow> settles W T req db db' \<or> db' = db \<and> (settledBefore W req db \<or> refusedTrade en W req db)
    | (Inl _, db') \<Rightarrow> db' = db \<or> settles W T req db db'"
  by (rule run_outcome[OF SettleTrade_hoare[OF W wallet_rows_ok[OF ok] as]])

lemma sampleTrade_settled:
  "fst (runTx (SettleTrade calm int_wlib sampleTrade) sampleDb) = Inr ()"
  "map s_Sequence (db_settled (snd (runTx (SettleTrade calm int_wlib sampleTrade) sampleDb))) = [7]"
  by code_simp+

lemma SettleTrade_refines_witness:
  "settles int_wlib UNIV sampleTrade sampleDb (snd (runTx (SettleTrade calm int_wlib sampleTrade) sampleDb))"
proof -
  have "db_settled sampleDb = []" by (simp add: sampleDb_def)
  then have "snd (runTx (SettleTrade calm int_wlib sampleTrade) sampleDb) \<noteq> sampleDb"
    using sampleTrade_settled(2) by auto
  with SettleTrade_refines[OF int_wlib_ok sampleDb_ok, where en = calm and req = sampleTrade] sampleTrade_settled(1) show ?thesis
    by (auto split: prod.splits sum.splits)
qed

text \<open>What a call leaves.\<close>

lemma SettleTrade_snd:
  assumes W: "wlib_ok W T" and ok: "wallet_ok T db" and as: "assets_ok T db"
  shows "snd (runTx (SettleTrade en W req) db) = db \<or> settles W T req db (snd (runTx (SettleTrade en W req) db))"
  using run_outcome[OF SettleTrade_hoare[OF W wallet_rows_ok[OF ok] as, of en req]]
  by (cases "runTx (SettleTrade en W req) db") (auto split: sum.splits)

text \<open>The registration of a trade is there to stay.\<close>

lemma settles_settled:
  fixes W :: "('d::linordered_idom) wlib"
  assumes "settles W T req db db'"
  shows "settledBefore W req db'" and "\<not> settledBefore W req db"
proof -
  from assms obtain tr x q sSrc bSrc and a :: "'d asset_row" where tr: "p_uuid W (q_TradeID req) = Some tr"
    and un: "unsettled tr (q_MarketID req) (uint (q_Sequence req)) db"
    and t: "trades W T req tr x (d_Truncate W q (a_Decimals a)) sSrc bSrc
      (addSettled \<lparr>s_TradeID = tr, s_MarketID = q_MarketID req, s_Sequence = uint (q_Sequence req)\<rparr> db) db'"
    unfolding settles_def by blast
  from t obtain sb bb bq sq d1 d2 us evs y where
    "leg T sSrc sb bb x (addSettled \<lparr>s_TradeID = tr, s_MarketID = q_MarketID req, s_Sequence = uint (q_Sequence req)\<rparr> db) d1"
    "leg T bSrc bq sq y d1 d2"
    "db' = addOutbox evs (addLedger (settlementEntries tr us sb bb bq sq x y) d2)"
    unfolding trades_def by blast
  with leg_ledger[OF this(1)] leg_ledger[OF this(2)] tr show "settledBefore W req db'"
    by (simp add: settledBefore_def)
  from un tr show "\<not> settledBefore W req db" by (auto simp: settledBefore_def unsettled_def)
qed

lemma settled_blocks:
  fixes W :: "('d::linordered_idom) wlib"
  assumes "x \<in> set (db_settled db)" and "p_uuid W (q_TradeID req) = Some (s_TradeID x) \<or>
      s_MarketID x = q_MarketID req \<and> s_Sequence x = uint (q_Sequence req)"
  shows "\<not> settles W T req db db'"
proof
  assume "settles W T req db db'"
  then obtain tr where "p_uuid W (q_TradeID req) = Some tr" "unsettled tr (q_MarketID req) (uint (q_Sequence req)) db"
    unfolding settles_def by blast
  with assms show False by (auto simp: unsettled_def)
qed

text \<open>
  C16. A trade is settled at most once. Once a settlement is committed, then whatever other
  requests were served since, no call with the same trade ID, and none with the same market
  and sequence, changes the database any more.
\<close>

theorem settlement_at_most_once:
  fixes W :: "('d::linordered_idom) wlib"
  assumes W: "wlib_ok W T" and ok: "wallet_ok T db1" and as: "assets_ok T db1" and s: "settles W T req db db1"
    and same: "q_TradeID req' = q_TradeID req \<or> q_MarketID req' = q_MarketID req \<and> q_Sequence req' = q_Sequence req"
  shows "snd (runTx (SettleTrade en W req') (serveAll W cs db1)) = serveAll W cs db1"
proof -
  let ?db = "serveAll W cs db1"
  note m = serveAll_moves[OF W ok as any_types, of cs]
  from settles_settled(1)[OF s] steps_settled[OF conjunct1[OF m]] obtain x where
    "x \<in> set (db_settled ?db)" "p_uuid W (q_TradeID req) = Some (s_TradeID x)"
    "s_MarketID x = q_MarketID req" "s_Sequence x = uint (q_Sequence req)"
    unfolding settledBefore_def by blast
  with same have "\<not> settles W T req' ?db db'" for db' by (intro settled_blocks[of x]) auto
  moreover have "wallet_ok T ?db" "assets_ok T ?db" using m by auto
  ultimately show ?thesis using SettleTrade_snd[OF W, of ?db en req'] by blast
qed

lemma sampleTrade_settles:
  "settles int_wlib UNIV sampleTrade sampleDb (snd (runTx (SettleTrade calm int_wlib sampleTrade) sampleDb))"
  using SettleTrade_hoare[OF int_wlib_ok wallet_rows_ok[OF sampleDb_ok(1)] sampleDb_ok(2), where en = calm and req = sampleTrade, THEN run_outcome]
    sampleTrade_settled by (auto simp: sampleDb_def split: prod.splits sum.splits)

lemma settled_db_ok:
  "wallet_ok UNIV (snd (runTx (SettleTrade calm int_wlib sampleTrade) sampleDb))"
  "assets_ok UNIV (snd (runTx (SettleTrade calm int_wlib sampleTrade) sampleDb))"
proof -
  have st: "wallet_step UNIV {} sampleDb (snd (runTx (SettleTrade calm int_wlib sampleTrade) sampleDb))"
    using settles_step[OF sampleTrade_settles] .
  from wallet_step_ok[OF wlib_places[OF int_wlib_ok] sampleDb_ok(1) st]
  show "wallet_ok UNIV (snd (runTx (SettleTrade calm int_wlib sampleTrade) sampleDb))" .
  from step_assets[OF st] sampleDb_ok(2)
  show "assets_ok UNIV (snd (runTx (SettleTrade calm int_wlib sampleTrade) sampleDb))" by (simp add: assets_ok_def)
qed

lemma settlement_at_most_once_witness:
  "snd (runTx (SettleTrade calm int_wlib sampleTrade) (serveAll int_wlib [] (snd (runTx (SettleTrade calm int_wlib sampleTrade) sampleDb))))
   = serveAll int_wlib [] (snd (runTx (SettleTrade calm int_wlib sampleTrade) sampleDb))"
  by (rule settlement_at_most_once[OF int_wlib_ok settled_db_ok sampleTrade_settles]) simp

definition unique_ids :: "pg_env \<Rightarrow> bool" where
  "unique_ids en \<longleftrightarrow> (\<forall>m n. pe_uuid en m = pe_uuid en n \<longrightarrow> pe_uuid en m \<noteq> None \<longrightarrow> m = n)"

text \<open>A call that reports success has settled the trade, or finds its registration.\<close>

lemma success_settled:
  assumes W: "wlib_ok W T" and ok: "wallet_ok T db" and as: "assets_ok T db" and lk: "ledger_ok db"
    and ids: "unique_ids en" "fresh_ids en db"
    and req: "q_BaseAsset req \<noteq> q_QuoteAsset req"
      "\<And>u. p_uuid W (q_BuyerUserID req) = Some u \<Longrightarrow> p_uuid W (q_SellerUserID req) \<noteq> Some u"
    and r: "runTx (SettleTrade en W req) db = (Inr (), db')"
  shows "settledBefore W req db'"
proof -
  have "\<not> refusedTrade en W req db"
  proof
    assume "refusedTrade en W req db"
    with req obtain tr where un: "unsettled tr (q_MarketID req) (uint (q_Sequence req)) db" and c: "ledger_clash en tr db"
      by (auto simp: refusedTrade_def refused_def)
    from c show False unfolding ledger_clash_def
    proof (elim disjE bexE exE conjE)
      fix l assume "l \<in> set (db_ledger db)" "t_ReferenceID l = tr" "t_ReferenceType l = ''SETTLEMENT''"
      with lk have "tr \<in> s_TradeID ` set (db_settled db)" unfolding ledger_ok_def by blast
      with un show False by (auto simp: unsettled_def)
    next
      fix l assume "l \<in> set (db_ledger db)" "Some (t_ID l) \<in> range (pe_uuid en)"
      with ids(2) show False by (auto simp: fresh_ids_def) (metis)
    next
      fix m n assume "m \<noteq> n" "pe_uuid en m \<noteq> None" "pe_uuid en m = pe_uuid en n"
      with ids(1) show False unfolding unique_ids_def by blast
    qed
  qed
  with run_outcome[OF SettleTrade_hoare[OF W wallet_rows_ok[OF ok] as, of en req]] r settles_settled(1)
  show ?thesis by auto
qed

text \<open>
  Success means settled: when the ledger is in order, the trade has two different assets
  and two different users, and generated identifiers do not repeat, a call that reports
  success leaves the trade registered with its market and sequence.
\<close>

theorem settlement_success_settles:
  assumes "wlib_ok W T" and "wallet_ok T db" and "assets_ok T db" and "ledger_ok db"
    and "unique_ids en" "fresh_ids en db"
    and "q_BaseAsset req \<noteq> q_QuoteAsset req" "p_uuid W (q_BuyerUserID req) \<noteq> p_uuid W (q_SellerUserID req)"
    and "runTx (SettleTrade en W req) db = (Inr (), db')"
  shows "settledBefore W req db'"
  using assms by (intro success_settled[OF assms(1-7) _ assms(9)]) simp

lemma sample_ledger: "ledger_ok sampleDb"
  by (simp add: ledger_ok_def sampleDb_def walletRow_def depositRow_def signed_def)

lemma sample_ids: "unique_ids calm" "fresh_ids calm sampleDb"
proof -
  have "m = n" if "(of_nat m :: uuid) = of_nat n" "m < 1000" "n < 1000" for m n :: nat
    using that by (simp add: word_of_nat_eq_iff take_bit_nat_eq_self)
  then show "unique_ids calm" unfolding unique_ids_def calm_def by (auto split: if_splits)
  have "of_nat n + 100 \<noteq> (10 :: uuid)" "of_nat n + 100 \<noteq> (11 :: uuid)" if "n < 1000" for n :: nat
  proof -
    have "unat (of_nat n + 100 :: uuid) = n + 100"
      using that by (simp add: unat_of_nat unat_word_ariths)
    then have "of_nat n + 100 \<noteq> i" if "unat i < 100" for i :: uuid using that by auto
    then show "of_nat n + 100 \<noteq> (10 :: uuid)" "of_nat n + 100 \<noteq> (11 :: uuid)" by simp_all
  qed
  then show "fresh_ids calm sampleDb"
    by (auto simp: fresh_ids_def calm_def sampleDb_def depositRow_def split: if_splits)
qed

lemma settlement_success_settles_witness:
  "settledBefore int_wlib sampleTrade (snd (runTx (SettleTrade calm int_wlib sampleTrade) sampleDb))"
proof (rule settlement_success_settles[OF int_wlib_ok sampleDb_ok sample_ledger sample_ids])
  show "q_BaseAsset sampleTrade \<noteq> q_QuoteAsset sampleTrade" by (simp add: sampleTrade_def)
  show "p_uuid int_wlib (q_BuyerUserID sampleTrade) \<noteq> p_uuid int_wlib (q_SellerUserID sampleTrade)"
    by (simp add: sampleTrade_def int_wlib_def)
  show "runTx (SettleTrade calm int_wlib sampleTrade) sampleDb = (Inr (), snd (runTx (SettleTrade calm int_wlib sampleTrade) sampleDb))"
    using sampleTrade_settled(1) by (metis prod.collapse)
qed

lemma bindT_Inr: "bindT m f s = (Inr b, t) \<Longrightarrow> \<exists>a s'. m s = (Inr a, s') \<and> f a s' = (Inr b, t)"
  by (auto simp: bindT_def split: prod.splits sum.splits)

definition faultless :: "pg_env \<Rightarrow> bool" where
  "faultless en \<longleftrightarrow> (\<forall>n. \<not> pe_fault en n)"

lemma validate_again:
  assumes "validateSettlementAmounts en W req s = (Inr (), t)" and "faultless en'"
    and "db_assets (x_base s') = db_assets (x_base s)"
  shows "\<exists>m. validateSettlementAmounts en' W req s' = (Inr (), s'\<lparr>x_n := m\<rparr>)"
  using assms unfolding validateSettlementAmounts_def faultless_def
  by (auto simp: bindT_def lift_def throw_def ret_def poolQuery_def GetByCode_def
      split: sum.splits prod.splits option.splits if_splits)

lemma validate_base:
  "validateSettlementAmounts en W req s = (Inr (), t) \<Longrightarrow> x_base t = x_base s"
  unfolding validateSettlementAmounts_def
  by (auto simp: bindT_def lift_def throw_def ret_def poolQuery_def GetByCode_def
      split: sum.splits prod.splits option.splits if_splits)

lemma find_unique: "distinct (map k xs) \<Longrightarrow> x \<in> set xs \<Longrightarrow> List.find (\<lambda>y. k y = k x) xs = Some x"
  by (induction xs) (auto simp: image_iff)

lemma register_again:
  assumes "RegisterSettlement en W tid mk sq s = (Inr a, t)" and "faultless en'" and "\<not> x_aborted s'"
    and "distinct (map s_TradeID (db_settled (x_db s')))" and "x \<in> set (db_settled (x_db s'))"
    and "p_uuid W tid = Some (s_TradeID x)" and "s_MarketID x = mk" and "s_Sequence x = uint sq"
  shows "\<exists>m. RegisterSettlement en' W tid mk sq s' = (Inr False, s'\<lparr>x_n := m\<rparr>)"
proof -
  note f = find_unique[OF assms(4,5)]
  from assms(1) obtain r where "insertSettled W tid mk sq (x_db s) = Inr r"
    by (auto simp: RegisterSettlement_def bindT_def stmt_def split: sum.splits prod.splits if_splits)
  with assms(5-8) have "insertSettled W tid mk sq (x_db s') = Inr (0, x_db s')"
    by (auto simp: insertSettled_def split: option.splits if_splits)
  with f assms(2,3,6-8) show ?thesis
    by (auto simp: RegisterSettlement_def bindT_def stmt_def query_def selectSettled_def faultless_def ret_def)
qed

text \<open>The trades are registered under distinct IDs.\<close>

lemma step_registered:
  assumes "wallet_step T D db db'" and "distinct (map s_TradeID (db_settled db))"
  shows "distinct (map s_TradeID (db_settled db'))"
  using assms(1)
proof cases
  case (settle tr mk sq x y sSrc sb bb d1 bSrc bq sq' d2)
  then show ?thesis using leg_ledger[OF settle(5)] leg_ledger[OF settle(6)] assms(2) by auto
qed (use assms(2) in simp_all)

lemma steps_registered:
  "(wallet_step T D)\<^sup>*\<^sup>* db db' \<Longrightarrow> distinct (map s_TradeID (db_settled db)) \<Longrightarrow> distinct (map s_TradeID (db_settled db'))"
  by (induction rule: rtranclp_induct) (auto dest: step_registered)

lemma SettleTrade_prefix:
  assumes "SettleTrade en W req (startTx db) = (Inr (), t)"
  shows "validateIdentifiers req = Inr () \<and> (\<exists>s2. validateSettlementAmounts en W req (startTx db) = (Inr (), s2)) \<and>
    (\<exists>s3 a4 s4. RegisterSettlement en W (q_TradeID req) (q_MarketID req) (q_Sequence req) s3 = (Inr a4, s4))"
proof -
  have v: "validateIdentifiers req = Inr () \<and> s = startTx db" if "lift (validateIdentifiers req) (startTx db) = (Inr u, s)" for u s
    using that by (auto simp: lift_def throw_def ret_def split: sum.splits)
  from assms show ?thesis unfolding SettleTrade_def
    by - (drule bindT_Inr, elim exE conjE, drule bindT_Inr, elim exE conjE, drule bindT_Inr, elim exE conjE,
      drule bindT_Inr, elim exE conjE, auto dest!: v)
qed

text \<open>
  A settlement can be delivered again: once a call has settled a trade, the same request
  without faults reports success again, whatever was served in between, and changes nothing.
\<close>

theorem settlement_redelivered:
  fixes W :: "('d::linordered_idom) wlib"
  assumes W: "wlib_ok W T" and ok: "wallet_ok T db" and as: "assets_ok T db" and reg: "distinct (map s_TradeID (db_settled db))"
    and r: "runTx (SettleTrade en W req) db = (Inr (), db1)" and s: "settledBefore W req db1" and en: "faultless en'"
  shows "runTx (SettleTrade en' W req) (serveAll W cs db1) = (Inr (), serveAll W cs db1)"
proof -
  have st: "db1 = db \<or> wallet_step T UNIV db db1"
    using SettleTrade_snd[OF W ok as, of en req] r by (auto dest: settles_step)
  then have ok1: "wallet_ok T db1" and as1: "assets_ok T db1" and as01: "db_assets db1 = db_assets db"
    using wallet_step_ok[OF wlib_places[OF W] ok] step_assets[of T UNIV db db1] ok as by (auto simp: assets_ok_def)
  let ?db = "serveAll W cs db1" and ?s = "startTx (serveAll W cs db1)"
  have m: "(wallet_step T UNIV)\<^sup>*\<^sup>* db1 ?db" using serveAll_moves[OF W ok1 as1 any_types] by blast
  have "distinct (map s_TradeID (db_settled db1))" using st step_registered[OF _ reg] reg by blast
  then have reg': "distinct (map s_TradeID (db_settled ?db))" using steps_registered[OF m] by blast
  from s steps_settled[OF m] obtain x where x: "x \<in> set (db_settled ?db)" "p_uuid W (q_TradeID req) = Some (s_TradeID x)"
    "s_MarketID x = q_MarketID req" "s_Sequence x = uint (q_Sequence req)" unfolding settledBefore_def by blast
  from r obtain t0 where r0: "SettleTrade en W req (startTx db) = (Inr (), t0)" by (auto simp: runTx_def split: prod.splits)
  from SettleTrade_prefix[OF r0] obtain s2 s3 a4 s4 where v: "validateIdentifiers req = Inr ()"
    and 2: "validateSettlementAmounts en W req (startTx db) = (Inr (), s2)"
    and 4: "RegisterSettlement en W (q_TradeID req) (q_MarketID req) (q_Sequence req) s3 = (Inr a4, s4)" by blast
  have "db_assets (x_base ?s) = db_assets (x_base (startTx db))" using steps_assets[OF m] as01 by (simp add: startTx_def)
  from validate_again[OF 2 en this] obtain n where
    n: "validateSettlementAmounts en' W req ?s = (Inr (), ?s\<lparr>x_n := n\<rparr>)" by blast
  from register_again[OF 4 en, of "?s\<lparr>x_n := Suc n\<rparr>" x] reg' x obtain n' where
    "RegisterSettlement en' W (q_TradeID req) (q_MarketID req) (q_Sequence req) (?s\<lparr>x_n := Suc n\<rparr>) = (Inr False, ?s\<lparr>x_n := n'\<rparr>)"
    by (auto simp: startTx_def)
  with n v en show ?thesis
    by (simp add: runTx_def SettleTrade_def bindT_def lift_def ret_def beginTx_def faultless_def startTx_def)
qed

lemma settlement_redelivered_witness:
  "runTx (SettleTrade calm int_wlib sampleTrade) (serveAll int_wlib [] (snd (runTx (SettleTrade calm int_wlib sampleTrade) sampleDb)))
   = (Inr (), serveAll int_wlib [] (snd (runTx (SettleTrade calm int_wlib sampleTrade) sampleDb)))"
proof (rule settlement_redelivered[OF int_wlib_ok sampleDb_ok])
  show "runTx (SettleTrade calm int_wlib sampleTrade) sampleDb = (Inr (), snd (runTx (SettleTrade calm int_wlib sampleTrade) sampleDb))"
    using sampleTrade_settled(1) by (metis prod.collapse)
  show "settledBefore int_wlib sampleTrade (snd (runTx (SettleTrade calm int_wlib sampleTrade) sampleDb))"
    by (rule settles_settled(1)[OF sampleTrade_settles])
qed (simp_all add: sampleDb_def faultless_def calm_def)

section \<open>No money from nothing\<close>

fun mints :: "wallet_call \<Rightarrow> bool" where
  "mints (CallInitialize _) = True"
| "mints (CallDeposit _ _ _ _ _) = True"
| "mints _ = False"

text \<open>A step that neither deposits nor creates a wallet.\<close>

definition quiet :: "('d::linordered_idom) set \<Rightarrow> 'd wallet_db \<Rightarrow> 'd wallet_db \<Rightarrow> bool" where
  "quiet T db db' \<longleftrightarrow> wallet_step T {} db db' \<and> length (db_wallets db') = length (db_wallets db)"

lemma length_upd [simp]: "length (upd key i f rs) = length rs"
  by (simp add: upd_def)

lemma leg_length: "leg T src p q x d d' \<Longrightarrow> length (db_wallets d') = length (db_wallets d)"
  by (cases rule: leg.cases) auto

lemma quiet_holdings:
  assumes T: "places_closed T" and ok: "wallet_ok T db" and q: "quiet T db db'"
  shows "holdings a db' = holdings a db"
proof -
  note r = wallet_rows_ok[OF ok]
  from q have s: "wallet_step T {} db db'" and len: "length (db_wallets db') = length (db_wallets db)" by (auto simp: quiet_def)
  from s show ?thesis
  proof cases
    case (settle tr mk sq x y sSrc sb bb d1 bSrc bq sq' d2)
    from leg_ok[OF T _ settle(3,5), of a] ok have "wallet_ok T d1" "holdings a d1 = holdings a db" by auto
    with leg_ok[OF T _ settle(4,6), of a] show ?thesis by (simp add: settle(1))
  next
    case (reserve w x ord rid tid)
    with holdings_onWallet[OF r reserve(2), of "reserved x" a] show ?thesis by (simp add: reserved_def)
  next
    case (release v w tid)
    with holdings_onWallet[OF r release(5), of "unreserved (r_Remaining v)" a] show ?thesis by (simp add: unreserved_def)
  next
    case (freeze w b who why)
    with holdings_onWallet[OF r freeze(2), of "frozenTo b who why" a] show ?thesis by (simp add: frozenTo_def)
  next
    case (create w ls tid ref)
    with len show ?thesis by (simp add: addLedger_def)
  qed simp_all
qed

lemma reserves_quiet: "reserves W T u ord a x db db' \<Longrightarrow> quiet T db db'"
  using reserves_step[of W T u ord a x db db' "{}"] by (auto simp: quiet_def reserves_def)

lemma releases_quiet: "releases W ord db db' \<Longrightarrow> quiet T db db'"
  using releases_step[of W ord db db' T "{}"] by (auto simp: quiet_def releases_def split: if_splits)

lemma freezes_quiet: "freezes W u a b why db db' \<Longrightarrow> quiet T db db'"
  using freezes_step[of W u a b why db db' T "{}"] by (auto simp: quiet_def freezes_def)

lemma settles_quiet:
  fixes W :: "('d::linordered_idom) wlib"
  assumes "settles W T req db db'"
  shows "quiet T db db'"
proof -
  from assms obtain tr x q sSrc bSrc and a :: "'d asset_row" where
    t: "trades W T req tr x (d_Truncate W q (a_Decimals a)) sSrc bSrc
      (addSettled \<lparr>s_TradeID = tr, s_MarketID = q_MarketID req, s_Sequence = uint (q_Sequence req)\<rparr> db) db'"
    unfolding settles_def by blast
  from t have "length (db_wallets db') = length (db_wallets db)"
    unfolding trades_def by (auto dest!: leg_length)
  with settles_step[OF assms] show ?thesis by (simp add: quiet_def)
qed

text \<open>Requests that are at most one quiet step.\<close>

definition hushed :: "('d::linordered_idom) set \<Rightarrow> 'd wallet_db \<Rightarrow> ('d wallet_db, 'e, 'a) prog \<Rightarrow> bool" where
  "hushed T db m \<longleftrightarrow> hoare (idle db) m (\<lambda>_ s. x_base s = db \<or> quiet T db (x_base s)) (\<lambda>_ s. x_base s = db \<or> quiet T db (x_base s))"

lemma hushed_runTx: "hushed T db m \<Longrightarrow> snd (runTx m db) = db \<or> quiet T db (snd (runTx m db))"
  using run_outcome[of db m "\<lambda>_ d. d = db \<or> quiet T db d" "\<lambda>_ d. d = db \<or> quiet T db d"]
  by (cases "runTx m db") (auto simp: hushed_def split: sum.splits)

lemma hushed_intros:
  "hushed T db (throw e)" "hushed T db m1 \<Longrightarrow> hushed T db (grpc m1)" "hushed T db m2 \<Longrightarrow> hushed T db (bindT m2 (\<lambda>a. ret (f a)))"
  "hushed T db m3 \<Longrightarrow> hushed T db m4 \<Longrightarrow> hushed T db (if c then m3 else m4)"
  "hushed T db m5 \<Longrightarrow> (\<And>a. hushed T db (g a)) \<Longrightarrow> hushed T db (case opt of None \<Rightarrow> m5 | Some a \<Rightarrow> g a)"
  "hushed T db (poolQuery en err h)"
  by (fastforce simp: hushed_def hoare_def throw_def grpc_def bindT_def ret_def poolQuery_def idle_def
      split: prod.splits sum.splits option.splits)+

lemma hoare_hushed:
  assumes "hoare (idle db) m Q E"
    and "\<And>a s. Q a s \<Longrightarrow> x_base s = db \<or> quiet T db (x_base s)"
    and "\<And>e s. E e s \<Longrightarrow> x_base s = db \<or> quiet T db (x_base s)"
  shows "hushed T db m"
  unfolding hushed_def by (rule hoare_conseq[OF assms(1)]) (use assms(2,3) in blast)+

lemma serve_quiet:
  assumes W: "wlib_ok W T" and ok: "wallet_ok T db" and as: "assets_ok T db" and c: "\<not> mints c"
  shows "serve W (en, c) db = db \<or> quiet T db (serve W (en, c) db)"
proof -
  note ro = wallet_rows_ok[OF ok]
  have r: "hushed T db (ReserveFunds en W u ord a x)" for u ord a x
    by (rule hoare_hushed[OF ReserveFunds_hoare[OF W ro as]]) (auto dest: reserves_quiet)
  have l: "hushed T db (ReleaseFunds en W ord)" for ord
    by (rule hoare_hushed[OF ReleaseFunds_hoare[OF W ro]]) (auto dest: releases_quiet)
  have s: "hushed T db (SettleTrade en W req)" for req
    by (rule hoare_hushed[OF SettleTrade_hoare[OF W ro as]]) (auto dest: settles_quiet)
  have f: "hushed T db (FreezeWallet en W u a b why)" for u a b why
    by (rule hoare_hushed[OF FreezeWallet_hoare[OF W ro]]) (auto dest: freezes_quiet)
  have g: "hushed T db (GetBalance en W u a)" for u a
    by (rule hoare_hushed[where Q = "\<lambda>_. idle db" and E = "\<lambda>_. idle db"])
      (auto simp: GetBalance_def idle_def intro!: hoare_poolQuery hoare_option hoare_throw hoare_ret)
  have b: "hushed T db (GetBalances en W u)" for u by (simp add: GetBalances_def hushed_intros)
  have a: "hushed T db (GetSupportedAssets en)" by (simp add: GetSupportedAssets_def hushed_intros)
  show ?thesis
    using c
    apply (cases c)
            apply (simp_all only: serve.simps mints.simps simp_thms)
          apply (unfold rpcReserveFunds_def rpcReleaseFunds_def rpcSettleTrade_def
        rpcFreezeWallet_def rpcGetBalance_def rpcGetBalances_def rpcGetSupportedAssets_def)
          apply (rule hushed_runTx, intro hushed_intros r l s f g b a)+
    done
qed

text \<open>
  C18. No money from nothing: only deposits and the seeding of new users change how much of an
  asset the wallets hold together. Whatever settlements, reservations, releases and freezes
  are served, with whatever faults, the sum of the totals of every asset stays the same.
\<close>

theorem holdings_conserved:
  assumes W: "wlib_ok W T" and ok: "wallet_ok T db" and as: "assets_ok T db" and c: "\<forall>(en, c)\<in>set cs. \<not> mints c"
  shows "holdings a (serveAll W cs db) = holdings a db"
  using ok as c
proof (induction cs arbitrary: db)
  case (Cons ec cs)
  obtain en c where ec: "ec = (en, c)" by (cases ec)
  let ?d = "serve W (en, c) db"
  have q: "?d = db \<or> quiet T db ?d" by (rule serve_quiet[OF W Cons.prems(1,2)]) (use Cons.prems(3) ec in auto)
  then have "holdings a ?d = holdings a db" using quiet_holdings[OF wlib_places[OF W] Cons.prems(1)] by auto
  moreover have "wallet_ok T ?d" using q Cons.prems(1) wallet_step_ok[OF wlib_places[OF W] Cons.prems(1)] by (auto simp: quiet_def)
  moreover have "db_assets ?d = db_assets db" using q step_assets unfolding quiet_def by metis
  then have "assets_ok T ?d" using Cons.prems(2) by (simp add: assets_ok_def)
  ultimately show ?case using Cons.IH[of ?d] Cons.prems(3) by (simp add: serveAll_def ec)
qed (simp add: serveAll_def)

lemma holdings_conserved_witness:
  "holdings ''BTC'' (serveAll int_wlib [(calm, CallRelease ''1111'')] sampleDb) = 5"
  using holdings_conserved[OF int_wlib_ok sampleDb_ok, of "[(calm, CallRelease ''1111'')]" "''BTC''"]
  by (simp add: holdings_def sampleDb_def walletRow_def)

section \<open>Reserving and releasing\<close>

text \<open>
  C19. Reserving funds is exactly once per order. A successful call returns the open
  reservation of the order as the database now holds it, its ID, user, asset, amounts and status,
  for the user, asset and amount of the request: one that was there, nothing changing, or a new
  one for which an unfrozen wallet with enough balance moved exactly the amount into reserve
  with one ledger entry. When the order has a reservation already, no call changes anything,
  whatever it asks for. An error means no change, or that reservation with a lost acknowledgement.
\<close>

theorem ReserveFunds_exactly_once:
  assumes W: "wlib_ok W T" and ok: "wallet_ok T db" and as: "assets_ok T db"
  shows "(case runTx (ReserveFunds en W userID orderID asset amount) db of
       (Inr rv, db') \<Rightarrow> (db' = db \<and> reusable W userID orderID asset amount db \<or>
                       reserves W T userID orderID asset amount db db') \<and>
                       grants W userID orderID asset amount rv db'
     | (Inl _, db') \<Rightarrow> db' = db \<or> reserves W T userID orderID asset amount db db') \<and>
    ((\<exists>r\<in>set (db_reservations db). p_uuid W orderID = Some (r_OrderID r)) \<longrightarrow>
       snd (runTx (ReserveFunds en W userID orderID asset amount) db) = db)"
proof -
  note 1 = run_outcome[OF ReserveFunds_hoare[OF W wallet_rows_ok[OF ok] as, of en userID orderID asset amount]]
  have "snd (runTx (ReserveFunds en W userID orderID asset amount) db) = db"
    if "r \<in> set (db_reservations db)" "p_uuid W orderID = Some (r_OrderID r)" for r
  proof -
    have "\<not> reserves W T userID orderID asset amount db db'" for db' using that by (auto simp: reserves_def)
    with 1 show ?thesis by (auto split: prod.splits sum.splits)
  qed
  with 1 show ?thesis by blast
qed

lemma sampleReserved:
  "case fst (runTx (ReserveFunds calm int_wlib ''1'' ''11111'' ''USDT'' ''111'') sampleDb) of Inr r \<Rightarrow> True | Inl e \<Rightarrow> False"
  by code_simp+

lemma ReserveFunds_exactly_once_witness:
  "(\<exists>rv. fst (runTx (ReserveFunds calm int_wlib ''1'' ''11111'' ''USDT'' ''111'') sampleDb) = Inr rv \<and>
     grants int_wlib ''1'' ''11111'' ''USDT'' ''111'' rv
       (snd (runTx (ReserveFunds calm int_wlib ''1'' ''11111'' ''USDT'' ''111'') sampleDb))) \<and>
   snd (runTx (ReserveFunds calm int_wlib ''1'' ''111'' ''USDT'' ''11'') sampleDb) = sampleDb"
proof
  let ?r = "runTx (ReserveFunds calm int_wlib ''1'' ''11111'' ''USDT'' ''111'') sampleDb"
  obtain rv where rv: "fst ?r = Inr rv" using sampleReserved by (cases "fst ?r") simp_all
  then obtain d where d: "?r = (Inr rv, d)" by (cases ?r) simp
  from ReserveFunds_exactly_once[OF int_wlib_ok sampleDb_ok, where en = calm and userID = "''1''"
      and orderID = "''11111''" and asset = "''USDT''" and amount = "''111''", THEN conjunct1, unfolded d prod.case sum.case]
  have "grants int_wlib ''1'' ''11111'' ''USDT'' ''111'' rv (snd ?r)" unfolding d snd_conv by (rule conjunct2)
  with rv show "\<exists>rv. fst ?r = Inr rv \<and> grants int_wlib ''1'' ''11111'' ''USDT'' ''111'' rv (snd ?r)" by blast
next
  show "snd (runTx (ReserveFunds calm int_wlib ''1'' ''111'' ''USDT'' ''11'') sampleDb) = sampleDb"
    using ReserveFunds_exactly_once[OF int_wlib_ok sampleDb_ok, where orderID = "''111''" and en = calm and userID = "''1''" and asset = "''USDT''" and amount = "''11''"]
    by (auto simp: sampleDb_def reservationRow_def int_wlib_def)
qed

lemma unreserve_reserve: "unreserved x (reserved x r) = r"
  by (simp add: unreserved_def reserved_def)

lemma upd_upd: "(\<And>r. key (f r) = key r) \<Longrightarrow> upd key i g (upd key i f rs) = upd key i (\<lambda>r. g (f r)) rs"
  by (simp add: upd_def)

lemma upd_id: "(\<And>r. f r = r) \<Longrightarrow> upd key i f rs = rs"
  by (simp add: upd_def map_idI)

text \<open>
  C20. Releasing a fresh reservation undoes it: after a reservation that was new for its order
  and a successful release, every wallet is what it was before, and the reservation is closed.
\<close>

theorem reserve_release_roundtrip:
  fixes W :: "('d::linordered_idom) wlib"
  assumes W: "wlib_ok W T" and ok: "wallet_ok T db" and as: "assets_ok T db"
    and new: "\<forall>r\<in>set (db_reservations db). p_uuid W orderID \<noteq> Some (r_OrderID r)"
    and 1: "runTx (ReserveFunds en W userID orderID asset amount) db = (Inr rv, db1)"
    and 2: "runTx (ReleaseFunds en' W orderID) db1 = (Inr (), db2)"
  shows "db_wallets db2 = db_wallets db \<and>
    (\<exists>r\<in>set (db_reservations db2). p_uuid W orderID = Some (r_OrderID r) \<and> r_Status r = ReservationReleased) \<and>
    length (db_ledger db2) = length (db_ledger db) + 2"
proof -
  have "\<not> reusable W userID orderID asset amount db" using new by (auto simp: reusable_def)
  with run_outcome[OF ReserveFunds_hoare[OF W wallet_rows_ok[OF ok] as, of en userID orderID asset amount]] 1
  have r: "reserves W T userID orderID asset amount db db1" by auto
  then have ok1: "wallet_ok T db1" using wallet_step_ok[OF wlib_places[OF W] ok] reserves_step by blast
  from r obtain w x ord rid tid where w: "w \<in> set (db_wallets db)" and x: "0 < x" and o: "p_uuid W orderID = Some ord"
    and fresh: "\<forall>r\<in>set (db_reservations db). r_OrderID r \<noteq> ord \<and> r_ID r \<noteq> rid"
    and db1: "db1 = addLedger [\<lparr>t_ID = tid, t_WalletID = w_ID w, t_ReferenceID = ord, t_ReferenceType = ''RESERVATION'',
                   t_Type = TxnTypeDebit, t_Asset = asset, t_Amount = x\<rparr>]
          (addReservation \<lparr>r_ID = rid, r_OrderID = ord, r_UserID = w_UserID w, r_Asset = asset, r_Reserved = x,
                          r_Consumed = 0, r_Remaining = x, r_Status = ReservationActive\<rparr>
            (onWallet (w_ID w) (reserved x) db))" and wa: "w_Asset w = asset"
    unfolding reserves_def by blast
  let ?r = "\<lparr>r_ID = rid, r_OrderID = ord, r_UserID = w_UserID w, r_Asset = asset, r_Reserved = x,
                          r_Consumed = 0, r_Remaining = x, r_Status = ReservationActive\<rparr>"
  have only: "v = ?r" if "v \<in> set (db_reservations db1)" "p_uuid W orderID = Some (r_OrderID v)" for v
    using that fresh o by (auto simp: db1)
  have "\<not> ended W orderID db1" using only by (fastforce simp: ended_def)
  with run_outcome[OF ReleaseFunds_hoare[OF W wallet_rows_ok[OF ok1], of en' orderID]] 2
  have "releases W orderID db1 db2" by auto
  then obtain v where v: "v \<in> set (db_reservations db1)" "p_uuid W orderID = Some (r_OrderID v)"
    and rel: "if r_Remaining v \<le> 0 then db2 = onReservation (r_ID v) released db1
         else \<exists>w\<in>set (db_wallets db1). \<exists>tid. w_UserID w = r_UserID v \<and> w_Asset w = r_Asset v \<and>
           r_Remaining v \<le> w_Reserved w \<and>
           db2 = addLedger [\<lparr>t_ID = tid, t_WalletID = w_ID w, t_ReferenceID = r_OrderID v, t_ReferenceType = ''RELEASE'',
                     t_Type = TxnTypeCredit, t_Asset = r_Asset v, t_Amount = r_Remaining v\<rparr>]
             (onReservation (r_ID v) released (onWallet (w_ID w) (unreserved (r_Remaining v)) db1))"
    unfolding releases_def by blast
  note vr = only[OF v]
  from rel x obtain w' tid' where w': "w' \<in> set (db_wallets db1)" "w_UserID w' = w_UserID w" "w_Asset w' = asset"
    and db2: "db2 = addLedger [\<lparr>t_ID = tid', t_WalletID = w_ID w', t_ReferenceID = ord, t_ReferenceType = ''RELEASE'',
                     t_Type = TxnTypeCredit, t_Asset = asset, t_Amount = x\<rparr>]
             (onReservation rid released (onWallet (w_ID w') (unreserved x) db1))"
    by (auto simp: vr)
  have rw: "reserved x w \<in> set (db_wallets db1)" using w by (simp add: db1 upd_in)
  have "w' = reserved x w"
    by (rule wallet_unique[OF wallet_rows_ok[OF ok1] w'(1) rw]) (simp_all add: w' wa reserved_def)
  then have id: "w_ID w' = w_ID w" by (simp add: reserved_def)
  have "db_wallets db2 = db_wallets db"
    by (simp add: db2 db1 id upd_upd upd_id unreserve_reserve) (simp add: reserved_def upd_upd upd_id unreserved_def)
  moreover have "released ?r \<in> set (db_reservations db2)"
    using upd_in[of ?r "db_reservations db1" r_ID rid released] by (simp add: db2 db1)
  then have "\<exists>r\<in>set (db_reservations db2). p_uuid W orderID = Some (r_OrderID r) \<and> r_Status r = ReservationReleased"
    by (rule bexI[rotated]) (simp add: released_def o)
  ultimately show ?thesis by (simp add: db2 db1)
qed

lemma sampleReleased:
  "fst (runTx (ReleaseFunds (calm\<lparr>pe_uuid := \<lambda>n. Some (of_nat n + 40)\<rparr>) int_wlib ''11111'')
     (snd (runTx (ReserveFunds calm int_wlib ''1'' ''11111'' ''USDT'' ''111'') sampleDb))) = Inr ()"
  by code_simp

lemma reserve_release_roundtrip_witness:
  "db_wallets (snd (runTx (ReleaseFunds (calm\<lparr>pe_uuid := \<lambda>n. Some (of_nat n + 40)\<rparr>) int_wlib ''11111'')
     (snd (runTx (ReserveFunds calm int_wlib ''1'' ''11111'' ''USDT'' ''111'') sampleDb)))) = db_wallets sampleDb"
proof -
  let ?db1 = "snd (runTx (ReserveFunds calm int_wlib ''1'' ''11111'' ''USDT'' ''111'') sampleDb)"
  let ?en = "calm\<lparr>pe_uuid := \<lambda>n. Some (of_nat n + 40)\<rparr>"
  obtain rv where "fst (runTx (ReserveFunds calm int_wlib ''1'' ''11111'' ''USDT'' ''111'') sampleDb) = Inr rv"
    using sampleReserved by (cases "fst (runTx (ReserveFunds calm int_wlib ''1'' ''11111'' ''USDT'' ''111'') sampleDb)") simp_all
  then have 1: "runTx (ReserveFunds calm int_wlib ''1'' ''11111'' ''USDT'' ''111'') sampleDb = (Inr rv, ?db1)"
    by (metis prod.collapse)
  have 2: "runTx (ReleaseFunds ?en int_wlib ''11111'') ?db1 = (Inr (), snd (runTx (ReleaseFunds ?en int_wlib ''11111'') ?db1))"
    using sampleReleased by (metis prod.collapse)
  have new: "\<forall>r\<in>set (db_reservations sampleDb). p_uuid int_wlib ''11111'' \<noteq> Some (r_OrderID r)"
    by (simp add: sampleDb_def reservationRow_def int_wlib_def)
  from reserve_release_roundtrip[OF int_wlib_ok sampleDb_ok new 1 2] show ?thesis by blast
qed

section \<open>After a release\<close>

text \<open>The reservation of an order has nothing left to pay with, and that is for ever.\<close>

definition exhausted :: "uuid \<Rightarrow> 'd wallet_db \<Rightarrow> bool" where
  "exhausted ord db \<longleftrightarrow> (\<exists>r\<in>set (db_reservations db). r_OrderID r = ord \<and>
     (r_Status r = ReservationReleased \<or> r_Status r = ReservationConsumed))"

lemma exhausted_simps [simp]:
  "exhausted ord (addLedger ls db) = exhausted ord db" "exhausted ord (addSettled x db) = exhausted ord db"
  "exhausted ord (addOutbox xs db) = exhausted ord db" "exhausted ord (onWallet i f db) = exhausted ord db"
  "exhausted ord (db\<lparr>db_wallets := ws\<rparr>) = exhausted ord db"
  by (simp_all add: exhausted_def)

lemma exhausted_upd:
  assumes "exhausted ord db" and "\<And>r. r \<in> set (db_reservations db) \<Longrightarrow> r_ID r = i \<Longrightarrow> r_OrderID r = ord \<Longrightarrow>
      r_Status r = ReservationReleased \<or> r_Status r = ReservationConsumed \<Longrightarrow>
      r_OrderID (f r) = ord \<and> (r_Status (f r) = ReservationReleased \<or> r_Status (f r) = ReservationConsumed)"
  shows "exhausted ord (onReservation i f db)"
proof -
  from assms(1) obtain r where r: "r \<in> set (db_reservations db)" "r_OrderID r = ord"
    "r_Status r = ReservationReleased \<or> r_Status r = ReservationConsumed" by (auto simp: exhausted_def)
  show ?thesis
  proof (cases "r_ID r = i")
    case True
    with upd_in[where key = r_ID and i = i and f = f, OF r(1) True] assms(2)[OF r(1) True r(2,3)] show ?thesis by (auto simp: exhausted_def)
  next
    case False
    with upd_other[where key = r_ID and i = i and f = f, OF r(1) False] r show ?thesis by (auto simp: exhausted_def)
  qed
qed

lemma leg_cannot_pay:
  assumes ok: "wallet_ok T db" and x: "0 < x" and leg: "leg T (Some ord) payer payee x db db'" and c: "exhausted ord db"
  shows False
proof -
  from leg obtain r where r: "r \<in> set (db_reservations db)" "r_OrderID r = ord" "live r" "x \<le> r_Remaining r"
    by (cases rule: leg_cases) auto
  from c obtain v where v: "v \<in> set (db_reservations db)" "r_OrderID v = ord"
    "r_Status v = ReservationReleased \<or> r_Status v = ReservationConsumed" by (auto simp: exhausted_def)
  have ro: "distinct (map r_OrderID (db_reservations db))" using ok by (auto simp: wallet_ok_def rows_ok_def)
  have "v = r" using key_unique[OF ro v(1) r(1)] v(2) r(2) by simp
  with v r have "r_Remaining r = 0" using ok by (auto simp: wallet_ok_def lifecycle_ok_def live_def)
  with r(4) x show False by simp
qed

lemma leg_exhausted:
  assumes ok: "wallet_ok T db" and x: "0 < x" and leg: "leg T src payer payee x db db'" and c: "exhausted ord db"
  shows "exhausted ord db'"
proof (cases "src = Some ord")
  case True
  with leg_cannot_pay[OF ok x _ c] leg show ?thesis by blast
next
  case False
  have ids: "distinct (map r_ID (db_reservations db))" using ok by (auto simp: wallet_ok_def rows_ok_def)
  from leg show ?thesis
  proof (cases rule: leg_cases)
    case (reservation r)
    have "exhausted ord (onReservation (r_ID r) (consumed x) (onWallet (w_ID payer) (spent x) db))"
    proof (rule exhausted_upd)
      fix v assume "v \<in> set (db_reservations (onWallet (w_ID payer) (spent x) db))" "r_ID v = r_ID r" "r_OrderID v = ord"
      with key_unique[OF ids _ reservation(6), of v] False reservation(1) have False by auto
      then show "r_OrderID (consumed x v) = ord \<and> (r_Status (consumed x v) = ReservationReleased \<or> r_Status (consumed x v) = ReservationConsumed)" ..
    qed (use c in simp)
    then show ?thesis by (simp add: reservation(2))
  qed (use c in simp)
qed

lemma step_exhausted:
  assumes T: "places_closed T" and ok: "wallet_ok T db" and st: "wallet_step T D db db'" and c: "exhausted ord db"
  shows "exhausted ord db'"
  using st
proof cases
  case (settle tr mk sq x y sSrc sb bb d1 bSrc bq sq' d2)
  let ?d = "addSettled \<lparr>s_TradeID = tr, s_MarketID = mk, s_Sequence = sq\<rparr> db"
  have d: "wallet_ok T ?d" "exhausted ord ?d" using ok c by simp_all
  have "wallet_ok T d1" using leg_ok[OF T d(1) settle(3,5)] by blast
  from leg_exhausted[OF this settle(4,6) leg_exhausted[OF d(1) settle(3,5) d(2)]] settle(1) show ?thesis by simp
qed (use c in \<open>auto simp: released_def intro!: exhausted_upd\<close>, auto simp: exhausted_def)

lemma steps_exhausted:
  assumes T: "places_closed T" and st: "(wallet_step T D)\<^sup>*\<^sup>* db db'" and ok: "wallet_ok T db" and c: "exhausted ord db"
  shows "exhausted ord db'"
  using st
proof (induction rule: rtranclp_induct)
  case (step y z)
  show ?case by (rule step_exhausted[OF T wallet_steps_ok[OF step.hyps(1) T ok] step.hyps(2) step.IH])
qed (rule c)

lemma exhausted_blocks:
  fixes W :: "('d::linordered_idom) wlib"
  assumes W: "wlib_ok W T" and ok: "wallet_ok T db" and c: "exhausted ord db" and can: "canonical W (q_BuyOrderID req)"
    and o: "\<not> isBuyerMM req \<and> p_uuid W (q_BuyOrderID req) = Some ord \<or>
      \<not> isSellerMM req \<and> p_uuid W (q_SellerOrderID req) = Some ord"
  shows "\<not> settles W T req db db'"
proof
  assume "settles W T req db db'"
  then obtain tr x q sSrc bSrc and a :: "'d asset_row" where
    p: "paysWith W req (isSellerMM req) (q_SellerOrderID req) sSrc" "paysWith W req (isBuyerMM req) (q_BuyOrderID req) bSrc"
    and t: "trades W T req tr x (d_Truncate W q (a_Decimals a)) sSrc bSrc
      (addSettled \<lparr>s_TradeID = tr, s_MarketID = q_MarketID req, s_Sequence = uint (q_Sequence req)\<rparr> db) db'"
    unfolding settles_def by blast
  let ?d = "addSettled \<lparr>s_TradeID = tr, s_MarketID = q_MarketID req, s_Sequence = uint (q_Sequence req)\<rparr> db"
  have d: "wallet_ok T ?d" "exhausted ord ?d" using ok c by simp_all
  from t obtain sb bb bq sq d1 d2 y where xy: "0 < x" "0 < y" and l: "leg T sSrc sb bb x ?d d1" "leg T bSrc bq sq y d1 d2"
    unfolding trades_def by blast
  have d1: "wallet_ok T d1" "exhausted ord d1"
    using leg_ok[OF wlib_places[OF W] d(1) xy(1) l(1)] leg_exhausted[OF d(1) xy(1) l(1) d(2)] by blast+
  from o p can have "bSrc = Some ord \<or> sSrc = Some ord" by (auto simp: paysWith_def)
  with leg_cannot_pay[OF d(1) xy(1) _ d(2)] leg_cannot_pay[OF d1(1) xy(2) _ d1(2)] l show False by blast
qed

text \<open>
  C29. What is released is never spent. Once a call has reported the reservation of an order
  released, no call settles a trade of that order any more, whichever side it is on and whatever the
  wallet serves in between: the database stays as it is, and the call reports success only for a
  trade that was settled before or whose ledger entries clash. A trade that was executed but not
  yet settled when its order's funds are released can therefore never be settled.
\<close>

theorem released_never_settles:
  fixes W :: "('d::linordered_idom) wlib"
  assumes W: "wlib_ok W T" and ok: "wallet_ok T db0" and as: "assets_ok T db0"
    and rel: "runTx (ReleaseFunds en0 W orderID) db0 = (Inr (), db)"
    and side: "\<not> isBuyerMM req \<and> q_BuyOrderID req = orderID \<or> \<not> isSellerMM req \<and> q_SellerOrderID req = orderID"
    and can: "canonical W (q_BuyOrderID req)"
  shows "case runTx (SettleTrade en W req) (serveAll W cs db) of (r, db') \<Rightarrow> db' = serveAll W cs db \<and>
    (r = Inr () \<longrightarrow> settledBefore W req db' \<or> refusedTrade en W req db')"
proof -
  note T = wlib_places[OF W]
  from run_outcome[OF ReleaseFunds_hoare[OF W wallet_rows_ok[OF ok], of en0 orderID]] rel
  have r: "db = db0 \<and> ended W orderID db0 \<or> releases W orderID db0 db" by auto
  then have st: "(wallet_step T UNIV)\<^sup>*\<^sup>* db0 db" using releases_step[of W orderID db0 db T UNIV] by auto
  have ok1: "wallet_ok T db" "assets_ok T db"
    using wallet_steps_ok[OF st T ok] steps_assets[OF st] as by (simp_all add: assets_ok_def)
  from r obtain ord where ord: "p_uuid W orderID = Some ord" "exhausted ord db"
  proof (elim disjE conjE)
    assume "db = db0" "ended W orderID db0"
    then obtain v where "v \<in> set (db_reservations db)" "p_uuid W orderID = Some (r_OrderID v)"
      "r_Status v = ReservationReleased \<or> r_Status v = ReservationConsumed" by (auto simp: ended_def)
    then show thesis by (intro that[of "r_OrderID v"]) (auto simp: exhausted_def)
  next
    assume rr: "releases W orderID db0 db"
    then obtain v where v: "v \<in> set (db_reservations db0)" "p_uuid W orderID = Some (r_OrderID v)"
      and "\<exists>d. db_reservations d = db_reservations db0 \<and> (\<exists>ls. db = addLedger ls (onReservation (r_ID v) released d) \<or>
         db = onReservation (r_ID v) released d)"
      unfolding releases_def by (fastforce split: if_splits)
    then have "released v \<in> set (db_reservations db)"
      using upd_in[of v "db_reservations db0" r_ID "r_ID v" released] by auto
    with v(2) show thesis by (intro that[of "r_OrderID v"]) (auto simp: exhausted_def released_def intro!: bexI[of _ "released v"])
  qed
  let ?db = "serveAll W cs db"
  note m = serveAll_moves[OF W ok1 any_types, of cs]
  have c: "exhausted ord ?db" using steps_exhausted[OF T conjunct1[OF m] ok1(1) ord(2)] .
  have "\<not> settles W T req ?db db'" for db'
    by (rule exhausted_blocks[OF W _ c can]) (use m side ord(1) in auto)
  with run_outcome[OF SettleTrade_hoare[OF W wallet_rows_ok _, of ?db en req]] m show ?thesis
    by (auto split: prod.splits sum.splits)
qed

lemma released_never_settles_witness:
  "snd (runTx (SettleTrade calm int_wlib sampleTrade)
     (serveAll int_wlib [(calm, CallDeposit ''1'' ''USDT'' ''11'' ''1111111'' ''DEPOSIT'')] (snd (runTx (ReleaseFunds calm int_wlib ''111'') sampleDb)))) =
   serveAll int_wlib [(calm, CallDeposit ''1'' ''USDT'' ''11'' ''1111111'' ''DEPOSIT'')] (snd (runTx (ReleaseFunds calm int_wlib ''111'') sampleDb)) \<and>
   fst (runTx (SettleTrade calm int_wlib sampleTrade) sampleDb) = Inr ()"
proof
  let ?rel = "runTx (ReleaseFunds calm int_wlib ''111'') sampleDb"
  have "fst ?rel = Inr ()" by code_simp
  then have rel: "?rel = (Inr (), snd ?rel)" by (cases ?rel) simp
  have side: "\<not> isBuyerMM sampleTrade \<and> q_BuyOrderID sampleTrade = ''111'' \<or> \<not> isSellerMM sampleTrade \<and> q_SellerOrderID sampleTrade = ''111''"
    by (simp add: isBuyerMM_def sampleTrade_def mmAccountUUID_def)
  have can: "canonical int_wlib (q_BuyOrderID sampleTrade)"
  proof -
    have "p_uuid int_wlib ''111'' = Some 3" "p_uuid_text int_wlib 3 = ''111''" by code_simp+
    then show ?thesis by (simp add: canonical_def sampleTrade_def)
  qed
  let ?cs = "[(calm, CallDeposit ''1'' ''USDT'' ''11'' ''1111111'' ''DEPOSIT'')]"
  from released_never_settles[OF int_wlib_ok sampleDb_ok rel side can, where en = calm and cs = ?cs]
  show "snd (runTx (SettleTrade calm int_wlib sampleTrade) (serveAll int_wlib ?cs (snd ?rel))) = serveAll int_wlib ?cs (snd ?rel)"
    by (cases "runTx (SettleTrade calm int_wlib sampleTrade) (serveAll int_wlib ?cs (snd ?rel))") simp
qed (rule sampleTrade_settled(1))

section \<open>Deposits and freezing\<close>

definition walletKeys :: "'d wallet_db \<Rightarrow> (uuid \<times> uuid \<times> string) list" where
  "walletKeys db = map (\<lambda>w. (w_ID w, w_UserID w, w_Asset w)) (db_wallets db)"

lemma walletKeys_simps [simp]:
  "wallet_change f \<Longrightarrow> walletKeys (onWallet i f db) = walletKeys db" "walletKeys (onReservation j h db) = walletKeys db"
  "walletKeys (addLedger ls db) = walletKeys db" "walletKeys (addReservation r db) = walletKeys db"
  "walletKeys (addSettled x db) = walletKeys db" "walletKeys (addOutbox xs db) = walletKeys db"
  by (simp_all add: walletKeys_def upd_keys wallet_change_def)

lemma leg_keys: "leg T src p q x d d' \<Longrightarrow> walletKeys d' = walletKeys d"
  by (cases rule: leg.cases) auto

lemma step_keys:
  assumes "wallet_step T D db db'"
  shows "set (walletKeys db) \<subseteq> set (walletKeys db')"
  using assms
proof cases
  case (settle tr mk sq x y sSrc sb bb d1 bSrc bq sq' d2)
  then show ?thesis using leg_keys[OF settle(5)] leg_keys[OF settle(6)] by simp
next
  case (create w ls tid ref)
  then show ?thesis by (auto simp: walletKeys_def)
qed simp_all

lemma steps_keys: "(wallet_step T D)\<^sup>*\<^sup>* db db' \<Longrightarrow> set (walletKeys db) \<subseteq> set (walletKeys db')"
  by (induction rule: rtranclp_induct) (auto dest: step_keys)

text \<open>
  C21. A deposit is credited at most once: when a deposit is committed, then whatever was
  served since, no deposit of the same user, asset, reference and type changes anything,
  whatever its amount.
\<close>

theorem deposit_at_most_once:
  fixes W :: "('d::linordered_idom) wlib"
  assumes W: "wlib_ok W T" and ok: "wallet_ok T db" and as: "assets_ok T db"
    and d: "deposits W T userID asset amount referenceID referenceType db db1"
  shows "snd (runTx (DepositFunds en W userID asset amount' referenceID referenceType) (serveAll W cs db1)) = serveAll W cs db1"
proof -
  have st: "wallet_step T UNIV db db1" using deposits_step[OF d] by blast
  have ok1: "wallet_ok T db1" "assets_ok T db1"
    using wallet_step_ok[OF wlib_places[OF W] ok st] step_assets[OF st] as by (auto simp: assets_ok_def)
  let ?db = "serveAll W cs db1"
  note m = serveAll_moves[OF W ok1 any_types, of cs]
  from d obtain w x ref tid where w: "w \<in> set (db_wallets db)" "p_uuid W userID = Some (w_UserID w)" "w_Asset w = asset"
    and ref: "p_uuid W referenceID = Some ref"
    and db1: "db1 = addLedger [\<lparr>t_ID = tid, t_WalletID = w_ID w, t_ReferenceID = ref, t_ReferenceType = referenceType,
                   t_Type = TxnTypeCredit, t_Asset = asset, t_Amount = x\<rparr>] (onWallet (w_ID w) (credited x) db)"
    unfolding deposits_def by blast
  have l: "\<exists>l\<in>set (db_ledger ?db). t_WalletID l = w_ID w \<and> t_ReferenceID l = ref \<and> t_ReferenceType l = referenceType"
  proof (rule bexI)
    show "\<lparr>t_ID = tid, t_WalletID = w_ID w, t_ReferenceID = ref, t_ReferenceType = referenceType,
        t_Type = TxnTypeCredit, t_Asset = asset, t_Amount = x\<rparr> \<in> set (db_ledger ?db)"
      by (rule subsetD[OF steps_ledger_mono[OF conjunct1[OF m]]]) (simp add: db1)
  qed simp
  have "(w_ID w, w_UserID w, w_Asset w) \<in> set (walletKeys ?db)"
    by (rule subsetD[OF subset_trans[OF step_keys[OF st] steps_keys[OF conjunct1[OF m]]]]) (use w(1) in \<open>simp add: walletKeys_def\<close>)
  then obtain w2 where w2: "w2 \<in> set (db_wallets ?db)" "w_ID w2 = w_ID w" "w_UserID w2 = w_UserID w" "w_Asset w2 = w_Asset w"
    by (auto simp: walletKeys_def)
  have "\<not> deposits W T userID asset amount' referenceID referenceType ?db db'" for db'
  proof
    assume "deposits W T userID asset amount' referenceID referenceType ?db db'"
    then obtain w' where w': "w' \<in> set (db_wallets ?db)" "p_uuid W userID = Some (w_UserID w')" "w_Asset w' = asset"
      "\<forall>l\<in>set (db_ledger ?db). \<not> (t_WalletID l = w_ID w' \<and> t_ReferenceID l = ref \<and> t_ReferenceType l = referenceType)"
      unfolding deposits_def using ref by auto
    have "w' = w2"
      by (rule wallet_unique[of T ?db]) (use m wallet_rows_ok w' w2 w in auto)
    with w'(4) l w2(2) show False by auto
  qed
  moreover have "rows_ok T ?db" "assets_ok T ?db" using m wallet_rows_ok by auto
  ultimately show ?thesis
    using run_outcome[OF DepositFunds_hoare[OF W, of ?db en userID asset amount' referenceID referenceType]]
    by (auto split: prod.splits sum.splits)
qed

text \<open>
  A frozen wallet accepts neither a reservation nor a deposit: no call of either kind
  changes anything.
\<close>

theorem frozen_wallet_untouched:
  assumes W: "wlib_ok W T" and ok: "wallet_ok T db" and as: "assets_ok T db"
    and w: "w \<in> set (db_wallets db)" "p_uuid W userID = Some (w_UserID w)" "w_Asset w = asset" "w_IsFrozen w"
  shows "snd (runTx (ReserveFunds en W userID orderID asset amount) db) = db \<and>
    snd (runTx (DepositFunds en W userID asset amount referenceID referenceType) db) = db"
proof -
  note ro = wallet_rows_ok[OF ok]
  have u: "w' = w" if "w' \<in> set (db_wallets db)" "p_uuid W userID = Some (w_UserID w')" "w_Asset w' = asset" for w'
    using wallet_unique[OF ro that(1) w(1)] that w by simp
  have "\<not> reserves W T userID orderID asset amount db db'" for db' using u w(4) unfolding reserves_def by metis
  moreover have "\<not> deposits W T userID asset amount referenceID referenceType db db'" for db'
    using u w(4) unfolding deposits_def by metis
  ultimately show ?thesis
    using run_outcome[OF ReserveFunds_hoare[OF W ro as, of en userID orderID asset amount]]
      run_outcome[OF DepositFunds_hoare[OF W ro as, of en userID asset amount referenceID referenceType]]
    by (auto split: prod.splits sum.splits)
qed

lemma sampleDeposit:
  "map t_Amount (db_ledger (snd (runTx (DepositFunds calm int_wlib ''1'' ''USDT'' ''11'' ''111'' ''DEPOSIT'') sampleDb))) = [25, 5, 2]"
  by code_simp

lemma sampleDeposits:
  "deposits int_wlib UNIV ''1'' ''USDT'' ''11'' ''111'' ''DEPOSIT'' sampleDb
     (snd (runTx (DepositFunds calm int_wlib ''1'' ''USDT'' ''11'' ''111'' ''DEPOSIT'') sampleDb))"
proof -
  have "snd (runTx (DepositFunds calm int_wlib ''1'' ''USDT'' ''11'' ''111'' ''DEPOSIT'') sampleDb) \<noteq> sampleDb"
    using sampleDeposit by (auto simp: sampleDb_def)
  with run_outcome[OF DepositFunds_hoare[OF int_wlib_ok wallet_rows_ok[OF sampleDb_ok(1)] sampleDb_ok(2),
      of calm "''1''" "''USDT''" "''11''" "''111''" "''DEPOSIT''"]] show ?thesis
    by (auto split: prod.splits sum.splits)
qed

lemma deposit_at_most_once_witness:
  "snd (runTx (DepositFunds calm int_wlib ''1'' ''USDT'' ''1111'' ''111'' ''DEPOSIT'')
     (serveAll int_wlib [(calm, CallRelease ''111'')] (snd (runTx (DepositFunds calm int_wlib ''1'' ''USDT'' ''11'' ''111'' ''DEPOSIT'') sampleDb))))
   = serveAll int_wlib [(calm, CallRelease ''111'')] (snd (runTx (DepositFunds calm int_wlib ''1'' ''USDT'' ''11'' ''111'' ''DEPOSIT'') sampleDb))"
  by (rule deposit_at_most_once[OF int_wlib_ok sampleDb_ok sampleDeposits])

definition frozenDb :: "int wallet_db" where
  "frozenDb = sampleDb\<lparr>db_wallets := map (\<lambda>w. w\<lparr>w_IsFrozen := True\<rparr>) (db_wallets sampleDb)\<rparr>"

lemma frozenDb_ok: "wallet_ok UNIV frozenDb" "assets_ok UNIV frozenDb"
  by (auto simp: frozenDb_def depositRow_def wallet_ok_def rows_ok_def sampleDb_def walletRow_def reservationRow_def wallet_row_ok_def
      reservation_row_ok_def lifecycle_ok_def backed_def reservedOf_def openAmount_def openShare_def live_def assets_ok_def)

lemma frozen_wallet_untouched_witness:
  "snd (runTx (ReserveFunds calm int_wlib ''1'' ''11111'' ''USDT'' ''1'') frozenDb) = frozenDb"
proof -
  have w: "(walletRow 2 1 ''USDT'' 5 20)\<lparr>w_IsFrozen := True\<rparr> \<in> set (db_wallets frozenDb)"
    by (simp add: frozenDb_def sampleDb_def)
  have "p_uuid int_wlib ''1'' = Some (w_UserID ((walletRow 2 1 ''USDT'' 5 20)\<lparr>w_IsFrozen := True\<rparr>))"
    "w_Asset ((walletRow 2 1 ''USDT'' 5 20)\<lparr>w_IsFrozen := True\<rparr>) = ''USDT''" "w_IsFrozen ((walletRow 2 1 ''USDT'' 5 20)\<lparr>w_IsFrozen := True\<rparr>)"
    by (simp_all add: int_wlib_def walletRow_def)
  from conjunct1[OF frozen_wallet_untouched[OF int_wlib_ok frozenDb_ok w this]] show ?thesis .
qed

section \<open>What the code lets through\<close>

text \<open>
  A deposit can swallow a trade: the deposit call accepts the internal reference type
  SETTLEMENT, and when its reference is the ID of a trade that is settled later, the entries
  of that settlement clash with it; the settlement rolls everything back and reports success
  with the trade neither settled nor registered.
\<close>

theorem deposit_swallows_trade:
  "let db = serve int_wlib (calm, CallDeposit ''1'' ''BTC'' ''1'' ''1'' ''SETTLEMENT'') sampleDb;
       r = runTx (SettleTrade (calm\<lparr>pe_uuid := \<lambda>n. Some (of_nat n + 40)\<rparr>) int_wlib sampleTrade) db in
   length (db_ledger db) = 3 \<and> fst r = Inr () \<and> db_settled (snd r) = [] \<and>
   map w_Available (db_wallets (snd r)) = [1, 5, 1, 0]"
  by code_simp

text \<open>The freeze of a wallet does not stop a settlement.\<close>

lemma settlement_moves_frozen_funds:
  "map w_Total (db_wallets (snd (runTx (SettleTrade calm int_wlib sampleTrade) frozenDb))) = [3, 10, 2, 15]"
  by code_simp

end
