(* ===== verification/Interleave.thy ===== *)
theory Interleave
  imports Postgres
begin

text \<open>
  Processes that share a world. Between two actions of a process any other process may act:
  the environment's \<open>pe_other\<close> is what the others do before the n-th action. An action, one
  statement on a pooled connection, one remote call or one whole transaction, is atomic.
  A process is a program of \<open>Postgres\<close> whose committed database is the world, and a triple
  about it speaks of assertions that the others preserve.
\<close>

section \<open>Actions\<close>

record 'w proc_env = pg_env +
  pe_other :: "nat \<Rightarrow> 'w \<Rightarrow> 'w"

definition act :: "('w, 'x) proc_env_scheme \<Rightarrow> (nat \<Rightarrow> 'w \<Rightarrow> ('e + 'a) \<times> 'w) \<Rightarrow> ('w, 'e, 'a) prog" where
  "act en f = (\<lambda>s. case f (x_n s) (pe_other en (x_n s) (x_base s)) of
     (r, w) \<Rightarrow> (r, s\<lparr>x_n := x_n s + 1, x_base := w\<rparr>))"

text \<open>A statement with its own implicit transaction, on the part of the world \<open>get\<close> and \<open>put\<close> select.\<close>

definition autocommit :: "('x) pg_env_scheme \<Rightarrow> ('w \<Rightarrow> 'r) \<Rightarrow> ('r \<Rightarrow> 'w \<Rightarrow> 'w) \<Rightarrow> 'e \<Rightarrow> ('r \<Rightarrow> 'e + 'a \<times> 'r) \<Rightarrow>
    nat \<Rightarrow> 'w \<Rightarrow> ('e + 'a) \<times> 'w" where
  "autocommit en get put err f n w =
     (if pe_fault en n then (Inl err, w)
      else case f (get w) of
        Inl e \<Rightarrow> (Inl e, w)
      | Inr (a, r) \<Rightarrow>
          (case pe_commit en n of
             CommitOk \<Rightarrow> (Inr a, put r w)
           | CommitFailed \<Rightarrow> (Inl err, w)
           | CommitLostAck \<Rightarrow> (Inl err, put r w)))"

text \<open>A query, and reading the clock.\<close>

definition look :: "('w, 'x) proc_env_scheme \<Rightarrow> 'e \<Rightarrow> ('w \<Rightarrow> 'e + 'a) \<Rightarrow> ('w, 'e, 'a) prog" where
  "look en err f = act en (\<lambda>n w. (if pe_fault en n then Inl err else f w, w))"

definition clock :: "('w, 'x) proc_env_scheme \<Rightarrow> ('w, 'e, time) prog" where
  "clock en = act en (\<lambda>n w. (Inr (pe_now en n), w))"

text \<open>The error of a call as a value that is logged and dropped.\<close>

definition ignoreErr :: "('w, 'e, unit) prog \<Rightarrow> ('w, 'e, unit) prog" where
  "ignoreErr m = bindT (tryT m) (\<lambda>_. ret ())"

text \<open>A process run from a world.\<close>

definition run :: "('w, 'e, 'a) prog \<Rightarrow> 'w \<Rightarrow> ('e + 'a) \<times> 'w" where
  "run m w = runTx m w"

section \<open>Triples over assertions the other processes preserve\<close>

definition holds :: "('w \<Rightarrow> bool) \<Rightarrow> 'w txs \<Rightarrow> bool" where
  "holds p s \<longleftrightarrow> p (x_base s)"

definition stable :: "('w, 'x) proc_env_scheme \<Rightarrow> ('w \<Rightarrow> bool) \<Rightarrow> bool" where
  "stable en p \<longleftrightarrow> (\<forall>n w. p w \<longrightarrow> p (pe_other en n w))"

named_theorems act_intros \<open>triples of actions\<close>

lemma hoare_act:
  assumes "stable en p"
    and "\<And>n w a w'. p w \<Longrightarrow> f n w = (Inr a, w') \<Longrightarrow> hoare (holds (q a)) (k a) Q E \<and> q a w'"
    and "\<And>n w e w'. p w \<Longrightarrow> f n w = (Inl e, w') \<Longrightarrow> (\<And>s. x_base s = w' \<Longrightarrow> E e s)"
  shows "hoare (holds p) (bindT (act en f) k) Q E"
  unfolding hoare_def
proof (intro allI impI)
  fix s assume "holds p s"
  then have p: "p (pe_other en (x_n s) (x_base s))" using assms(1) by (simp add: holds_def stable_def)
  obtain r w' where f: "f (x_n s) (pe_other en (x_n s) (x_base s)) = (r, w')" by force
  show "case bindT (act en f) k s of (Inl e, s') \<Rightarrow> E e s' | (Inr a, s') \<Rightarrow> Q a s'"
  proof (cases r)
    case (Inl e)
    with f assms(3)[OF p] show ?thesis by (simp add: bindT_def act_def)
  next
    case (Inr a)
    from assms(2)[OF p f[unfolded Inr]] have "hoare (holds (q a)) (k a) Q E" "q a w'" by blast+
    then show ?thesis using f Inr by (auto simp: bindT_def act_def hoare_def holds_def)
  qed
qed

text \<open>An action that keeps an assertion, whatever it returns.\<close>

lemma hoare_look [act_intros]:
  fixes p :: "'w \<Rightarrow> bool"
  assumes "stable en p" and "\<And>w a. p w \<Longrightarrow> f w = Inr a \<Longrightarrow> q a w"
    and "\<And>a. hoare (holds (q a)) (k a) Q E" and "\<And>e s. holds p s \<Longrightarrow> E e s"
  shows "hoare (holds p) (bindT (look en err f) k) Q E"
  unfolding look_def
proof (rule hoare_act[OF assms(1), where q = q])
  fix n a and w w' :: 'w
  assume p: "p w" and r: "(if pe_fault en n then Inl err else f w, w) = (Inr a, w')"
  from r have "w' = w" "f w = Inr a" by (auto split: if_splits)
  with assms(2)[OF p] assms(3) show "hoare (holds (q a)) (k a) Q E \<and> q a w'" by simp
next
  fix n e and w w' :: 'w and s :: "'w txs"
  assume p: "p w" and r: "(if pe_fault en n then Inl err else f w, w) = (Inl e, w')" and s: "x_base s = w'"
  from r s p have "holds p s" by (simp add: holds_def)
  then show "E e s" by (rule assms(4))
qed

lemma hoare_clock [act_intros]:
  assumes "stable en p" and "\<And>t. hoare (holds p) (k t) Q E"
  shows "hoare (holds p) (bindT (clock en) k) Q E"
  unfolding clock_def by (rule hoare_act[OF assms(1), where q = "\<lambda>_. p"]) (use assms(2) in simp_all)

lemma hoare_tried [act_intros]:
  assumes "hoare P m (\<lambda>a. R (Inr a)) (\<lambda>e. R (Inl e))" and "\<And>r. hoare (R r) (k r) Q E"
  shows "hoare P (bindT (tryT m) k) Q E"
  unfolding hoare_def
proof (intro allI impI)
  fix s assume "P s"
  obtain r s' where m: "m s = (r, s')" by force
  have "R r s'" using assms(1)[unfolded hoare_def, rule_format, OF \<open>P s\<close>] m by (cases r) simp_all
  with assms(2)[of r] m show "case bindT (tryT m) k s of (Inl e, s') \<Rightarrow> E e s' | (Inr a, s') \<Rightarrow> Q a s'"
    unfolding hoare_def bindT_def tryT_def by simp
qed

lemma hoare_ignore: "hoare P m (\<lambda>_. R) (\<lambda>_. R) \<Longrightarrow> (\<And>s. R s \<Longrightarrow> Q () s) \<Longrightarrow> hoare P (ignoreErr m) Q E"
  unfolding ignoreErr_def by (rule hoare_tried[where R = "\<lambda>_. R"]) (auto intro: hoare_ret)

lemma stable_conj: "stable en p \<Longrightarrow> stable en q \<Longrightarrow> stable en (\<lambda>w. p w \<and> q w)"
  by (simp add: stable_def)

lemma hoare_run:
  assumes "hoare (holds p) m Q E" and "p w"
  shows "case run m w of (r, w') \<Rightarrow> (\<exists>s. x_base s = w' \<and> (case r of Inr a \<Rightarrow> Q a s | Inl e \<Rightarrow> E e s))"
proof -
  obtain r s where m: "m (startTx w) = (r, s)" by force
  have "case (r, s) of (Inr a, s') \<Rightarrow> Q a s' | (Inl e, s') \<Rightarrow> E e s'"
    using assms(1)[unfolded hoare_def, rule_format, of "startTx w"] assms(2) m by (simp add: holds_def startTx_def)
  with m show ?thesis by (cases r) (auto simp: run_def runTx_def)
qed

section \<open>Steps and what they keep\<close>

text \<open>
  A process that only takes steps of a relation, among others that do, keeps what the
  relation keeps. \<open>follows G w\<close> are the worlds the steps lead to from \<open>w\<close>.
\<close>

definition follows :: "('w \<Rightarrow> 'w \<Rightarrow> bool) \<Rightarrow> 'w \<Rightarrow> 'w \<Rightarrow> bool" where
  "follows G w w' \<longleftrightarrow> G\<^sup>*\<^sup>* w w'"

definition obeys :: "('w \<Rightarrow> 'w \<Rightarrow> bool) \<Rightarrow> ('w, 'x) proc_env_scheme \<Rightarrow> bool" where
  "obeys G en \<longleftrightarrow> (\<forall>n w. G\<^sup>*\<^sup>* w (pe_other en n w))"

lemma follows_refl: "follows G w w"
  by (simp add: follows_def)

lemma follows_step: "follows G w v \<Longrightarrow> v = v' \<or> G v v' \<Longrightarrow> follows G w v'"
  by (auto simp: follows_def)

lemma stable_follows: "obeys G en \<Longrightarrow> stable en (follows G w)"
  by (auto simp: stable_def obeys_def follows_def intro: rtranclp_trans)

text \<open>A fact that every step keeps.\<close>

definition kept :: "('w \<Rightarrow> 'w \<Rightarrow> bool) \<Rightarrow> ('w \<Rightarrow> bool) \<Rightarrow> bool" where
  "kept G p \<longleftrightarrow> (\<forall>w w'. p w \<longrightarrow> G w w' \<longrightarrow> p w')"

lemma kept_follows:
  assumes "kept G p" and "follows G w w'" and "p w"
  shows "p w'"
  using assms(2) unfolding follows_def
  by (induction rule: rtranclp_induct) (use assms(1,3) in \<open>auto simp: kept_def\<close>)

lemma stable_kept: "obeys G en \<Longrightarrow> kept G p \<Longrightarrow> stable en p"
  by (auto simp: stable_def obeys_def dest: kept_follows[unfolded follows_def])

end
