(* ===== verification/Steady.thy ===== *)
theory Steady
  imports Interleave
begin

text \<open>
  Processes that keep a guarantee: a relation \<open>G\<close> every action of theirs satisfies and an
  invariant \<open>I\<close> the relation keeps. A process built from such actions keeps it as a whole,
  among others that do.
\<close>

definition steady :: "('w \<Rightarrow> 'w \<Rightarrow> bool) \<Rightarrow> ('w \<Rightarrow> bool) \<Rightarrow> ('w, 'e, 'a) prog \<Rightarrow> bool" where
  "steady G I m \<longleftrightarrow> (\<forall>w0. hoare (holds (\<lambda>w. follows G w0 w \<and> I w)) m
     (\<lambda>_. holds (\<lambda>w. follows G w0 w \<and> I w)) (\<lambda>_. holds (\<lambda>w. follows G w0 w \<and> I w)))"

named_theorems steady_intros \<open>how a process that keeps a guarantee is built\<close>

lemma steady_ret [steady_intros]: "steady G I (ret a)"
  by (simp add: steady_def hoare_def ret_def)

lemma steady_throw [steady_intros]: "steady G I (throw e)"
  by (simp add: steady_def hoare_def throw_def)

lemma steady_lift [steady_intros]: "steady G I (lift r)"
  by (cases r) (simp_all add: lift_def steady_ret steady_throw)

lemma steady_bind [steady_intros]: "steady G I m \<Longrightarrow> (\<And>a. steady G I (f a)) \<Longrightarrow> steady G I (bindT m f)"
  unfolding steady_def by (blast intro: hoare_bind)

lemma steady_try [steady_intros]: "steady G I m \<Longrightarrow> steady G I (tryT m)"
  unfolding steady_def hoare_def tryT_def by (fastforce split: prod.splits sum.splits)

lemma steady_ignore [steady_intros]: "steady G I m \<Longrightarrow> steady G I (ignoreErr m)"
  unfolding ignoreErr_def by (intro steady_bind steady_try steady_ret)

lemma steady_if [steady_intros]: "(c \<Longrightarrow> steady G I m) \<Longrightarrow> (\<not> c \<Longrightarrow> steady G I m') \<Longrightarrow> steady G I (if c then m else m')"
  by simp

lemma steady_option [steady_intros]:
  "(x = None \<Longrightarrow> steady G I m) \<Longrightarrow> (\<And>a. x = Some a \<Longrightarrow> steady G I (f a)) \<Longrightarrow> steady G I (case x of None \<Rightarrow> m | Some a \<Rightarrow> f a)"
  by (cases x) auto

lemma steady_sum [steady_intros]:
  "(\<And>e. x = Inl e \<Longrightarrow> steady G I (g e)) \<Longrightarrow> (\<And>a. x = Inr a \<Longrightarrow> steady G I (f a)) \<Longrightarrow>
   steady G I (case x of Inl e \<Rightarrow> g e | Inr a \<Rightarrow> f a)"
  by (cases x) auto

lemma steady_pair [steady_intros]:
  "(\<And>a b. x = (a, b) \<Longrightarrow> steady G I (f a b)) \<Longrightarrow> steady G I (case x of (a, b) \<Rightarrow> f a b)"
  by (cases x) auto

lemma steady_let [steady_intros]: "steady G I (f x) \<Longrightarrow> steady G I (let y = x in f y)"
  by simp

locale guarantee =
  fixes G :: "'w \<Rightarrow> 'w \<Rightarrow> bool" and I :: "'w \<Rightarrow> bool"
  assumes same: "I w \<Longrightarrow> G w w"
    and keeps: "I w \<Longrightarrow> G w w' \<Longrightarrow> I w'"
begin

lemma kept_I: "kept G I"
  using keeps by (auto simp: kept_def)

lemma follows_I: "follows G w w' \<Longrightarrow> I w \<Longrightarrow> I w'"
  by (rule kept_follows[OF kept_I])

lemma steady_act:
  assumes "obeys G en" and "\<And>n w r w'. I w \<Longrightarrow> f n w = (r, w') \<Longrightarrow> G w w'"
  shows "steady G I (act en f)"
  unfolding steady_def
proof (rule allI, rule hoare_last, rule hoare_act)
  fix w0 :: 'w
  show "stable en (\<lambda>w. follows G w0 w \<and> I w)"
    using stable_follows[OF assms(1)] stable_kept[OF assms(1) kept_I] by (rule stable_conj)
  fix n w a w' assume "follows G w0 w \<and> I w" "f n w = (Inr a, w')"
  with assms(2) keeps have "follows G w0 w' \<and> I w'" by (meson follows_step)
  then show "hoare (holds (\<lambda>w. follows G w0 w \<and> I w)) (ret a) (\<lambda>_. holds (\<lambda>w. follows G w0 w \<and> I w))
      (\<lambda>_. holds (\<lambda>w. follows G w0 w \<and> I w)) \<and> follows G w0 w' \<and> I w'"
    by (simp add: hoare_ret)
next
  fix w0 :: 'w and n w e w' and s :: "'w txs" assume "follows G w0 w \<and> I w" "f n w = (Inl e, w')" and s: "x_base s = w'"
  with assms(2) keeps have "follows G w0 w' \<and> I w'" by (meson follows_step)
  with s show "holds (\<lambda>w. follows G w0 w \<and> I w) s" by (simp add: holds_def)
qed

text \<open>An action that leaves the world alone.\<close>

lemma steady_observe:
  assumes "obeys G en" and "\<And>n w. snd (f n w) = w"
  shows "steady G I (act en f)"
  by (rule steady_act[OF assms(1)]) (metis assms(2) same snd_conv)

lemma steady_clock: "obeys G en \<Longrightarrow> steady G I (clock en)"
  unfolding clock_def by (rule steady_observe) simp_all

lemma steady_run:
  assumes "steady G I m" and "I w" and "run m w = (r, w')"
  shows "follows G w w' \<and> I w'"
  using hoare_run[OF spec[OF assms(1)[unfolded steady_def], of w], of w] assms(2,3)
  by (auto simp: follows_refl holds_def split: sum.splits)

end

end
