(* ===== verification/OrderStore.thy ===== *)
theory OrderStore
  imports Interleave WalletSettle
begin

text \<open>
  The database of the order service (\<open>services/order/migrations\<close>) and the statements of
  \<open>services/order/internal/repository/postgres\<close>. Rows hold decoded columns. Identifiers the
  database generates and the time of a statement come from the environment.
\<close>

section \<open>Rows\<close>

datatype order_status = StatusOpen | StatusPartiallyFilled | StatusFilled | StatusCancelling | StatusCancelled

record order =
  or_ID :: string
  or_UserID :: string
  or_MarketID :: string
  or_Side :: string
  or_OrderType :: string
  or_Price :: "string option"
  or_Quantity :: string
  or_FilledQuantity :: string
  or_RemainingQuantity :: string
  or_Status :: order_status
  or_IdempotencyKey :: "string option"
  or_CreatedAt :: time
  or_UpdatedAt :: time

record 'd order_row =
  od_id :: uuid
  od_user :: uuid
  od_market :: string
  od_side :: string
  od_type :: string
  od_price :: "'d option"
  od_quantity :: 'd
  od_filled :: 'd
  od_remaining :: 'd
  od_status :: order_status
  od_key :: "string option"
  od_created :: time
  od_updated :: time

text \<open>The envelopes of the outbox, as the JSON column holds them.\<close>

datatype order_payload =
    OrderCreatedPayload string string string string string "string option" string
  | OrderCancelPayload string string

record order_envelope =
  oe_EventID :: string
  oe_EventType :: string
  oe_MarketID :: string
  oe_OccurredAt :: time
  oe_Payload :: order_payload

record outbox_event =
  ox_id :: uuid
  ox_aggregate :: uuid
  ox_event_type :: string
  ox_payload :: order_envelope
  ox_partition_key :: string
  ox_processing_at :: "time option"
  ox_published_at :: "time option"
  ox_attempts :: int
  ox_last_error :: "string option"
  ox_created :: time

record wallet_release =
  wr_id :: uuid
  wr_order :: uuid
  wr_completed :: bool
  wr_attempts :: int
  wr_last_error :: "string option"
  wr_created :: time
  wr_processed_at :: "time option"

record 'd order_db =
  odb_orders :: "'d order_row list"
  odb_outbox :: "outbox_event list"
  odb_trades :: "uuid list"
  odb_releases :: "wallet_release list"

datatype order_error =
    OrderNotFound | OrderNotCancellable | DuplicateIdempotencyKey | InvalidPaginationCursor | OrderInternal

type_synonym ('d, 'a) oprog = "('d order_db, order_error, 'a) prog"

section \<open>Statements\<close>

text \<open>A statement that uses the time or the identifier generator of the server.\<close>

definition dbStmt :: "pg_env \<Rightarrow> 'e \<Rightarrow> (nat \<Rightarrow> 'db \<Rightarrow> 'e + 'a \<times> 'db) \<Rightarrow> ('db, 'e, 'a) prog" where
  "dbStmt en err f = (\<lambda>s. stmt en err (f (x_n s)) s)"

lemma hoare_dbStmt [hoare_intros]:
  "(\<And>n a d'. f n d = Inr (a, d') \<Longrightarrow> hoare (working b d') (k a) Q E) \<Longrightarrow> (\<And>e s. idle b s \<Longrightarrow> E e s) \<Longrightarrow>
   hoare (working b d) (bindT (dbStmt en err f) k) Q E"
  by (auto simp: hoare_def bindT_def dbStmt_def stmt_def working_def idle_def split: sum.splits prod.splits)

text \<open>Assignment of a text to a \<open>DECIMAL(30,10)\<close> column.\<close>

definition toColumn :: "'d wlib \<Rightarrow> string \<Rightarrow> 'd option" where
  "toColumn W s = Option.bind (p_decimal W s) (p_column W)"

text \<open>Characters of a UTF-8 text, which is what \<open>VARCHAR(n)\<close> bounds.\<close>

definition varchar :: "nat \<Rightarrow> string \<Rightarrow> bool" where
  "varchar n s \<longleftrightarrow> length (filter (\<lambda>c. (of_char c :: nat) div 64 \<noteq> 2) s) \<le> n"

definition microseconds :: "time \<Rightarrow> time" where
  "microseconds t = t div 1000 * 1000"

definition priceColumn :: "'d wlib \<Rightarrow> string option \<Rightarrow> 'd option option" where
  "priceColumn W price = (case price of None \<Rightarrow> Some None | Some p \<Rightarrow> map_option Some (toColumn W p))"

definition insertOrder :: "'d wlib \<Rightarrow> order \<Rightarrow> 'd order_db \<Rightarrow> order_error + unit \<times> 'd order_db" where
  "insertOrder W ord db =
     (case (p_uuid W (or_ID ord), p_uuid W (or_UserID ord), priceColumn W (or_Price ord), toColumn W (or_Quantity ord),
            toColumn W (or_FilledQuantity ord), toColumn W (or_RemainingQuantity ord)) of
        (Some i, Some u, Some price, Some quantity, Some filled, Some remaining) \<Rightarrow>
          if \<not> varchar 20 (or_MarketID ord) \<or> \<not> varchar 4 (or_Side ord) \<or> \<not> varchar 10 (or_OrderType ord) \<or>
             (case or_IdempotencyKey ord of None \<Rightarrow> False | Some k \<Rightarrow> \<not> varchar 64 k) then Inl OrderInternal
          else if i \<in> od_id ` set (odb_orders db) then Inl OrderInternal
          else if or_IdempotencyKey ord \<noteq> None \<and> or_IdempotencyKey ord \<in> od_key ` set (odb_orders db) then Inl DuplicateIdempotencyKey
          else Inr ((), db\<lparr>odb_orders := odb_orders db @
            [\<lparr>od_id = i, od_user = u, od_market = or_MarketID ord, od_side = or_Side ord, od_type = or_OrderType ord,
              od_price = price, od_quantity = quantity, od_filled = filled, od_remaining = remaining,
              od_status = or_Status ord, od_key = or_IdempotencyKey ord, od_created = microseconds (or_CreatedAt ord),
              od_updated = microseconds (or_UpdatedAt ord)\<rparr>]\<rparr>)
      | _ \<Rightarrow> Inl OrderInternal)"

definition insertOutbox ::
  "pg_env \<Rightarrow> 'd wlib \<Rightarrow> string \<Rightarrow> string \<Rightarrow> order_envelope \<Rightarrow> string \<Rightarrow> nat \<Rightarrow> 'd order_db \<Rightarrow> order_error + unit \<times> 'd order_db" where
  "insertOutbox en W aggregate eventType payload key n db =
     (case (pe_uuid en n, p_uuid W aggregate) of
        (Some u, Some a) \<Rightarrow>
          if \<not> varchar 20 key \<or> u \<in> ox_id ` set (odb_outbox db) then Inl OrderInternal
          else Inr ((), db\<lparr>odb_outbox := odb_outbox db @
            [\<lparr>ox_id = u, ox_aggregate = a, ox_event_type = eventType, ox_payload = payload, ox_partition_key = key,
              ox_processing_at = None, ox_published_at = None, ox_attempts = 0, ox_last_error = None,
              ox_created = microseconds (pe_now en n)\<rparr>]\<rparr>)
      | _ \<Rightarrow> Inl OrderInternal)"

definition insertRelease ::
  "pg_env \<Rightarrow> 'd wlib \<Rightarrow> string \<Rightarrow> nat \<Rightarrow> 'd order_db \<Rightarrow> order_error + unit \<times> 'd order_db" where
  "insertRelease en W orderID n db =
     (case (pe_uuid en n, p_uuid W orderID) of
        (Some u, Some i) \<Rightarrow>
          if u \<in> wr_id ` set (odb_releases db) then Inl OrderInternal
          else if i \<in> wr_order ` set (odb_releases db) then Inr ((), db)
          else Inr ((), db\<lparr>odb_releases := odb_releases db @
            [\<lparr>wr_id = u, wr_order = i, wr_completed = False, wr_attempts = 0, wr_last_error = None,
              wr_created = microseconds (pe_now en n), wr_processed_at = None\<rparr>]\<rparr>)
      | _ \<Rightarrow> Inl OrderInternal)"

section \<open>Reading orders\<close>

definition scanOrder :: "'d wlib \<Rightarrow> 'd order_row \<Rightarrow> order" where
  "scanOrder W r =
     \<lparr>or_ID = p_uuid_text W (od_id r), or_UserID = p_uuid_text W (od_user r), or_MarketID = od_market r,
      or_Side = od_side r, or_OrderType = od_type r, or_Price = map_option (p_decimal_text W) (od_price r),
      or_Quantity = p_decimal_text W (od_quantity r), or_FilledQuantity = p_decimal_text W (od_filled r),
      or_RemainingQuantity = p_decimal_text W (od_remaining r), or_Status = od_status r,
      or_IdempotencyKey = od_key r, or_CreatedAt = od_created r, or_UpdatedAt = od_updated r\<rparr>"

definition FindByIdempotencyKey :: "pg_env \<Rightarrow> 'd wlib \<Rightarrow> string \<Rightarrow> ('d, order option) oprog" where
  "FindByIdempotencyKey en W key = poolQuery en OrderInternal
     (\<lambda>db. Inr (map_option (scanOrder W) (List.find (\<lambda>r. od_key r = Some key) (odb_orders db))))"

definition orderOf :: "'d wlib \<Rightarrow> string \<Rightarrow> string \<Rightarrow> 'd order_row \<Rightarrow> bool" where
  "orderOf W orderID userID r \<longleftrightarrow> p_uuid W orderID = Some (od_id r) \<and> p_uuid W userID = Some (od_user r)"

definition GetByID :: "pg_env \<Rightarrow> 'd wlib \<Rightarrow> string \<Rightarrow> string \<Rightarrow> ('d, order) oprog" where
  "GetByID en W orderID userID = poolQuery en OrderInternal (\<lambda>db.
     if p_uuid W orderID = None \<or> p_uuid W userID = None then Inl OrderInternal
     else case List.find (orderOf W orderID userID) (odb_orders db) of
       None \<Rightarrow> Inl OrderNotFound | Some r \<Rightarrow> Inr (scanOrder W r))"

text \<open>\<open>ListOrders\<close>: the filters, newest first, a page of at most 500; a negative \<open>limit\<close> means 20.\<close>

definition decodeCursor :: "'d wlib \<Rightarrow> (string \<Rightarrow> string option) \<Rightarrow> string \<Rightarrow> order_error + time \<times> string" where
  "decodeCursor W base64 cursor =
     (case base64 cursor of
        None \<Rightarrow> Inl InvalidPaginationCursor
      | Some s \<Rightarrow>
          let stamp = takeWhile (\<lambda>c. c \<noteq> CHR ''|'') s; rest = dropWhile (\<lambda>c. c \<noteq> CHR ''|'') s in
          case rest of
            [] \<Rightarrow> Inl InvalidPaginationCursor
          | _ # cid \<Rightarrow>
              if CHR ''|'' \<in> set cid then Inl InvalidPaginationCursor
              else case t_ParseNano W stamp of
                None \<Rightarrow> Inl InvalidPaginationCursor | Some t \<Rightarrow> Inr (t, cid))"

definition pageLimit :: "int \<Rightarrow> nat" where
  "pageLimit limit = nat (if limit \<le> 0 then 20 else if limit > 500 then 500 else limit)"

definition wantedOrder ::
  "uuid \<Rightarrow> string \<Rightarrow> string \<Rightarrow> order_status option \<Rightarrow> time option \<Rightarrow> time option \<Rightarrow> (time \<times> uuid) option \<Rightarrow> 'd order_row \<Rightarrow> bool" where
  "wantedOrder user market side status from to cursor r \<longleftrightarrow>
     od_user r = user \<and> (market \<noteq> [] \<longrightarrow> od_market r = market) \<and> (side \<noteq> [] \<longrightarrow> od_side r = side) \<and>
     (case status of None \<Rightarrow> True | Some s \<Rightarrow> od_status r = s) \<and>
     (case from of None \<Rightarrow> True | Some t \<Rightarrow> od_created r \<ge> microseconds t) \<and>
     (case to of None \<Rightarrow> True | Some t \<Rightarrow> od_created r \<le> microseconds t) \<and>
     (case cursor of None \<Rightarrow> True
      | Some (t, i) \<Rightarrow> od_created r < microseconds t \<or> od_created r = microseconds t \<and> uint (od_id r) < uint i)"

definition ListOrders ::
  "pg_env \<Rightarrow> 'd wlib \<Rightarrow> (string \<Rightarrow> string option) \<Rightarrow> string \<Rightarrow> string \<Rightarrow> string \<Rightarrow> string \<Rightarrow> order_status option \<Rightarrow>
   time option \<Rightarrow> time option \<Rightarrow> int \<Rightarrow> ('d, order list) oprog" where
  "ListOrders en W base64 userID marketID cursor side status from to limit =
     bindT (lift (if cursor = [] then Inr None else map_sum id Some (decodeCursor W base64 cursor))) (\<lambda>cur.
     poolQuery en OrderInternal (\<lambda>db.
       case (p_uuid W userID, case cur of None \<Rightarrow> Some None | Some (t, i) \<Rightarrow> map_option (\<lambda>u. Some (t, u)) (p_uuid W i)) of
         (Some user, Some cu) \<Rightarrow>
           Inr (map (scanOrder W) (take (pageLimit limit)
             (sort_key (\<lambda>r. - od_created r) (sort_key (\<lambda>r. - uint (od_id r))
               (filter (wantedOrder user marketID side status from to cu) (odb_orders db))))))
       | _ \<Rightarrow> Inl OrderInternal))"

section \<open>Changing orders\<close>

definition RepoCreateOrder :: "pg_env \<Rightarrow> 'd wlib \<Rightarrow> order \<Rightarrow> order_envelope option \<Rightarrow> ('d, unit) oprog" where
  "RepoCreateOrder en W ord payload =
     bindT (beginTx en OrderInternal) (\<lambda>_.
     bindT (stmt en OrderInternal (insertOrder W ord)) (\<lambda>_.
     bindT (case payload of
        None \<Rightarrow> ret ()
      | Some e \<Rightarrow> dbStmt en OrderInternal (insertOutbox en W (or_ID ord) ''OrderCreated'' e (or_MarketID ord))) (\<lambda>_.
     commit en OrderInternal)))"

definition openStatus :: "order_status set" where
  "openStatus = {StatusOpen, StatusPartiallyFilled}"

definition liveStatus :: "order_status set" where
  "liveStatus = {StatusOpen, StatusPartiallyFilled, StatusCancelling}"

definition updateOrders :: "('d order_row \<Rightarrow> bool) \<Rightarrow> ('d order_row \<Rightarrow> order_error + 'd order_row) \<Rightarrow> 'd order_db \<Rightarrow>
    order_error + 'd order_row list \<times> 'd order_db" where
  "updateOrders p f db =
     (case update_rows p f (odb_orders db) of
        Inl e \<Rightarrow> Inl e
      | Inr (rows, n) \<Rightarrow>
          Inr (filter (\<lambda>r'. \<exists>r\<in>set (odb_orders db). p r \<and> od_id r = od_id r') rows, db\<lparr>odb_orders := rows\<rparr>))"

definition UpdateStatusToCancelling :: "pg_env \<Rightarrow> 'd wlib \<Rightarrow> order \<Rightarrow> order_envelope \<Rightarrow> ('d, unit) oprog" where
  "UpdateStatusToCancelling en W ord payload =
     bindT (beginTx en OrderInternal) (\<lambda>_.
     bindT (dbStmt en OrderInternal (\<lambda>n db.
       if p_uuid W (or_ID ord) = None \<or> p_uuid W (or_UserID ord) = None then Inl OrderInternal
       else updateOrders (\<lambda>r. orderOf W (or_ID ord) (or_UserID ord) r \<and> od_status r \<in> openStatus)
         (\<lambda>r. Inr (r\<lparr>od_status := StatusCancelling, od_updated := microseconds (pe_now en n)\<rparr>)) db)) (\<lambda>changed.
     if changed = [] then
       bindT (tryT (query en OrderInternal (\<lambda>db. Inr (\<exists>r\<in>set (odb_orders db). orderOf W (or_ID ord) (or_UserID ord) r)))) (\<lambda>r.
       throw (if r = Inr True then OrderNotCancellable else OrderNotFound))
     else
       bindT (dbStmt en OrderInternal (insertOutbox en W (or_ID ord) ''OrderCancelRequested'' payload (or_MarketID ord))) (\<lambda>_.
       commit en OrderInternal)))"

definition lockOrder :: "pg_env \<Rightarrow> 'd wlib \<Rightarrow> string \<Rightarrow> ('d, 'd order_row \<times> 'd) oprog" where
  "lockOrder en W orderID =
     bindT (query en OrderInternal (\<lambda>db. case p_uuid W orderID of
       None \<Rightarrow> Inl OrderInternal
     | Some i \<Rightarrow> (case List.find (\<lambda>r. od_id r = i) (odb_orders db) of None \<Rightarrow> Inl OrderNotFound | Some r \<Rightarrow> Inr r))) (\<lambda>r.
     case d_NewFromString W (p_decimal_text W (od_remaining r)) of
       None \<Rightarrow> throw OrderInternal | Some rem \<Rightarrow> ret (r, rem))"

text \<open>\<open>ordersByID\<close>: the locked orders by the identifiers of the request.\<close>

fun lockOrders :: "pg_env \<Rightarrow> 'd wlib \<Rightarrow> string list \<Rightarrow> ('d, (string \<times> 'd order_row \<times> 'd) list) oprog" where
  "lockOrders en W [] = ret []"
| "lockOrders en W (i # is) =
     bindT (lockOrder en W i) (\<lambda>r. bindT (lockOrders en W is) (\<lambda>rs. ret ((i, r) # rs)))"

definition fillable :: "order_status set" where
  "fillable = {StatusOpen, StatusPartiallyFilled, StatusCancelling, StatusCancelled}"

definition checkFill ::
  "string \<Rightarrow> string \<Rightarrow> ('d::linordered_idom) \<Rightarrow> (string \<times> 'd order_row \<times> 'd) list \<Rightarrow> order_error + unit" where
  "checkFill orderID side qty locked =
     (if orderID = [] then Inr ()
      else case map_of locked orderID of
        None \<Rightarrow> Inl OrderInternal
      | Some (r, rem) \<Rightarrow>
          if od_side r \<noteq> side then Inl OrderInternal
          else if od_status r \<notin> fillable then Inl OrderInternal
          else if rem < qty then Inl OrderInternal
          else Inr ())"

definition sameMarket :: "string \<Rightarrow> string \<Rightarrow> (string \<times> 'd order_row \<times> 'd) list \<Rightarrow> order_error + unit" where
  "sameMarket buyOrderID sellOrderID locked =
     (if buyOrderID \<noteq> [] \<and> sellOrderID \<noteq> [] then
        (case (map_of locked buyOrderID, map_of locked sellOrderID) of
           (Some (b, _), Some (s, _)) \<Rightarrow> if od_market b = od_market s then Inr () else Inl OrderInternal
         | _ \<Rightarrow> Inl OrderInternal)
      else Inr ())"

text \<open>\<open>LEAST\<close>, \<open>GREATEST\<close> and the assignment to the columns.\<close>

definition fillRow :: "('d::linordered_idom) wlib \<Rightarrow> time \<Rightarrow> 'd \<Rightarrow> 'd order_row \<Rightarrow> order_error + 'd order_row" where
  "fillRow W now q r =
     (case (p_column W (min (od_quantity r) (od_filled r + q)), p_column W (max 0 (od_remaining r - q))) of
        (Some filled, Some remaining) \<Rightarrow>
          Inr (r\<lparr>od_filled := filled, od_remaining := remaining,
                 od_status := (if od_remaining r - q \<le> 0 then StatusFilled
                               else if od_status r = StatusCancelling then StatusCancelling
                               else if od_status r = StatusCancelled then StatusCancelled
                               else StatusPartiallyFilled),
                 od_updated := microseconds now\<rparr>)
      | _ \<Rightarrow> Inl OrderInternal)"

definition applyFill ::
  "pg_env \<Rightarrow> ('d::linordered_idom) wlib \<Rightarrow> string \<Rightarrow> string \<Rightarrow> string \<Rightarrow> ('d, string list) oprog" where
  "applyFill en W fillQty orderID side =
     (if orderID = [] then ret []
      else
        bindT (dbStmt en OrderInternal (\<lambda>n db. case (p_decimal W fillQty, p_uuid W orderID) of
            (Some q, Some i) \<Rightarrow> updateOrders (\<lambda>r. od_id r = i \<and> od_side r = side) (fillRow W (pe_now en n) q) db
          | _ \<Rightarrow> Inl OrderInternal)) (\<lambda>changed.
        case changed of
          [] \<Rightarrow> throw OrderInternal
        | r # _ \<Rightarrow> ret (if od_status r = StatusFilled then [p_uuid_text W (od_id r)] else [])))"

fun enqueueReleases :: "pg_env \<Rightarrow> 'd wlib \<Rightarrow> string list \<Rightarrow> ('d, unit) oprog" where
  "enqueueReleases en W [] = ret ()"
| "enqueueReleases en W (i # is) =
     bindT (dbStmt en OrderInternal (insertRelease en W i)) (\<lambda>_. enqueueReleases en W is)"

definition recordTrade :: "uuid \<Rightarrow> 'd order_db \<Rightarrow> order_error + bool \<times> 'd order_db" where
  "recordTrade t db =
     (if t \<in> set (odb_trades db) then Inr (False, db) else Inr (True, db\<lparr>odb_trades := odb_trades db @ [t]\<rparr>))"

definition lockList :: "string \<Rightarrow> string \<Rightarrow> string list" where
  "lockList buyOrderID sellOrderID =
     (if buyOrderID \<noteq> [] \<and> sellOrderID \<noteq> [] then
        (if str_less buyOrderID sellOrderID then [buyOrderID, sellOrderID] else [sellOrderID, buyOrderID])
      else if buyOrderID \<noteq> [] then [buyOrderID]
      else if sellOrderID \<noteq> [] then [sellOrderID] else [])"

definition ApplyTradeFill ::
  "pg_env \<Rightarrow> ('d::linordered_idom) wlib \<Rightarrow> string \<Rightarrow> string \<Rightarrow> string \<Rightarrow> string \<Rightarrow> ('d, string list) oprog" where
  "ApplyTradeFill en W tradeID buyOrderID sellOrderID fillQty =
     (case d_NewFromString W fillQty of
        None \<Rightarrow> throw OrderInternal
      | Some qty \<Rightarrow>
          if \<not> qty > 0 then throw OrderInternal
          else if buyOrderID \<noteq> [] \<and> sellOrderID \<noteq> [] \<and> buyOrderID = sellOrderID then throw OrderInternal
          else
            bindT (beginTx en OrderInternal) (\<lambda>_.
            bindT (query en OrderInternal (\<lambda>db. case p_uuid W tradeID of
              None \<Rightarrow> Inl OrderInternal | Some t \<Rightarrow> Inr (t \<in> set (odb_trades db), t))) (\<lambda>(done, t).
            if done then ret []
            else
              bindT (lockOrders en W (lockList buyOrderID sellOrderID)) (\<lambda>locked.
              bindT (lift (checkFill buyOrderID ''BUY'' qty locked)) (\<lambda>_.
              bindT (lift (checkFill sellOrderID ''SELL'' qty locked)) (\<lambda>_.
              bindT (lift (sameMarket buyOrderID sellOrderID locked)) (\<lambda>_.
              bindT (stmt en OrderInternal (recordTrade t)) (\<lambda>inserted.
              if \<not> inserted then ret []
              else
                bindT (applyFill en W fillQty buyOrderID ''BUY'') (\<lambda>filledBuy.
                bindT (applyFill en W fillQty sellOrderID ''SELL'') (\<lambda>filledSell.
                bindT (enqueueReleases en W (filledBuy @ filledSell)) (\<lambda>_.
                bindT (commit en OrderInternal) (\<lambda>_.
                ret (filledBuy @ filledSell)))))))))))))"

text \<open>Both ways out of the book: a cancelled order and an order the engine no longer has.\<close>

definition finishOrder ::
  "pg_env \<Rightarrow> 'd wlib \<Rightarrow> string \<Rightarrow> ('d order_row \<Rightarrow> order_error + 'd order_row) \<Rightarrow> ('d, order option) oprog" where
  "finishOrder en W orderID f =
     bindT (beginTx en OrderInternal) (\<lambda>_.
     bindT (dbStmt en OrderInternal (\<lambda>n db. case p_uuid W orderID of
         None \<Rightarrow> Inl OrderInternal
       | Some i \<Rightarrow> updateOrders (\<lambda>r. od_id r = i \<and> od_status r \<in> liveStatus)
           (\<lambda>r. map_sum id (od_updated_update (\<lambda>_. microseconds (pe_now en n))) (f r)) db)) (\<lambda>changed.
     case changed of
       [] \<Rightarrow> ret None
     | r # _ \<Rightarrow>
         bindT (dbStmt en OrderInternal (insertRelease en W orderID)) (\<lambda>_.
         bindT (commit en OrderInternal) (\<lambda>_.
         ret (Some (scanOrder W r))))))"

definition MarkOrderCancelled :: "pg_env \<Rightarrow> 'd wlib \<Rightarrow> string \<Rightarrow> ('d, order option) oprog" where
  "MarkOrderCancelled en W orderID = finishOrder en W orderID (\<lambda>r. Inr (r\<lparr>od_status := StatusCancelled\<rparr>))"

definition ReconcileAbsentOrder :: "pg_env \<Rightarrow> ('d::linordered_idom) wlib \<Rightarrow> string \<Rightarrow> ('d, order option) oprog" where
  "ReconcileAbsentOrder en W orderID = finishOrder en W orderID (\<lambda>r.
     Inr (if od_filled r \<ge> od_quantity r then r\<lparr>od_status := StatusFilled, od_remaining := 0\<rparr>
          else r\<lparr>od_status := StatusCancelled\<rparr>))"

end
