(* ===== verification/OrderSpec.thy ===== *)
theory OrderSpec
  imports OrderStore WalletStep
begin

text \<open>
  What the order service promises of its orders: the invariant of a row, the steps that may
  change the tables, and what every step keeps.
\<close>

section \<open>The invariant\<close>

text \<open>\<open>T\<close> are the decimals a column stores unchanged.\<close>

definition order_row_ok :: "('d::linordered_idom) set \<Rightarrow> 'd order_row \<Rightarrow> bool" where
  "order_row_ok T r \<longleftrightarrow>
     od_filled r \<in> T \<and> od_remaining r \<in> T \<and> 0 < od_quantity r \<and> 0 \<le> od_filled r \<and> 0 \<le> od_remaining r \<and>
     od_filled r + od_remaining r = od_quantity r \<and>
     (od_status r = StatusFilled \<longleftrightarrow> od_remaining r = 0) \<and>
     (od_status r = StatusOpen \<longrightarrow> od_filled r = 0) \<and> (od_status r = StatusPartiallyFilled \<longrightarrow> 0 < od_filled r)"

definition finished :: "order_status \<Rightarrow> bool" where
  "finished s \<longleftrightarrow> s = StatusFilled \<or> s = StatusCancelled"

definition orders_ok :: "('d::linordered_idom) set \<Rightarrow> 'd order_db \<Rightarrow> bool" where
  "orders_ok T db \<longleftrightarrow> distinct (map od_id (odb_orders db)) \<and> (\<forall>r\<in>set (odb_orders db). order_row_ok T r) \<and>
     (\<forall>r\<in>set (odb_orders db). finished (od_status r) \<longrightarrow> od_id r \<in> wr_order ` set (odb_releases db)) \<and>
     distinct (odb_trades db)"

lemma orders_okD:
  assumes "orders_ok T db"
  shows "distinct (map od_id (odb_orders db))" and "r \<in> set (odb_orders db) \<Longrightarrow> order_row_ok T r"
    and "distinct (odb_trades db)"
  using assms by (auto simp: orders_ok_def)

section \<open>Steps\<close>

definition filledBy :: "('d::linordered_idom) \<Rightarrow> time \<Rightarrow> 'd order_row \<Rightarrow> 'd order_row" where
  "filledBy q t r = r\<lparr>od_filled := od_filled r + q, od_remaining := od_remaining r - q,
     od_status := (if od_remaining r = q then StatusFilled
                   else if od_status r = StatusCancelling then StatusCancelling
                   else if od_status r = StatusCancelled then StatusCancelled
                   else StatusPartiallyFilled),
     od_updated := t\<rparr>"

lemma filledBy_simps [simp]:
  "od_id (filledBy q t r) = od_id r" "od_side (filledBy q t r) = od_side r" "od_quantity (filledBy q t r) = od_quantity r"
  "od_filled (filledBy q t r) = od_filled r + q" "od_remaining (filledBy q t r) = od_remaining r - q"
  "od_market (filledBy q t r) = od_market r"
  by (simp_all add: filledBy_def)

text \<open>One side of a trade: no order, or the order's row takes the fill.\<close>

definition fillsSide :: "string \<Rightarrow> uuid option \<Rightarrow> ('d::linordered_idom) \<Rightarrow> 'd order_db \<Rightarrow> 'd order_db \<Rightarrow> bool" where
  "fillsSide side order q d d' \<longleftrightarrow>
     (case order of
        None \<Rightarrow> d' = d
      | Some i \<Rightarrow> \<exists>xs r ys t. odb_orders d = xs @ r # ys \<and> od_id r = i \<and> od_side r = side \<and> od_status r \<in> fillable \<and>
          q \<le> od_remaining r \<and> d' = d\<lparr>odb_orders := xs @ filledBy q t r # ys\<rparr>)"

definition addReleases :: "wallet_release list \<Rightarrow> 'd order_db \<Rightarrow> 'd order_db" where
  "addReleases ws db = db\<lparr>odb_releases := odb_releases db @ ws\<rparr>"

lemma addReleases_simps [simp]:
  "odb_orders (addReleases ws db) = odb_orders db" "odb_trades (addReleases ws db) = odb_trades db"
  "odb_outbox (addReleases ws db) = odb_outbox db" "odb_releases (addReleases ws db) = odb_releases db @ ws"
  by (simp_all add: addReleases_def)

text \<open>A settled trade applied: to the buyer's and the seller's order, with a release for each that is filled.\<close>

definition appliesTrade ::
  "uuid \<Rightarrow> uuid option \<Rightarrow> uuid option \<Rightarrow> ('d::linordered_idom) \<Rightarrow> 'd order_db \<Rightarrow> 'd order_db \<Rightarrow> bool" where
  "appliesTrade tr buy sell q db db' \<longleftrightarrow> tr \<notin> set (odb_trades db) \<and> 0 < q \<and>
     (\<exists>d1 d2 ws. fillsSide ''BUY'' buy q (db\<lparr>odb_trades := odb_trades db @ [tr]\<rparr>) d1 \<and> fillsSide ''SELL'' sell q d1 d2 \<and>
        db' = addReleases ws d2 \<and>
        (\<forall>r\<in>set (odb_orders d2). Some (od_id r) \<in> {buy, sell} \<and> od_status r = StatusFilled \<longrightarrow>
           od_id r \<in> wr_order ` set (odb_releases db')))"

inductive order_step :: "('d::linordered_idom) set \<Rightarrow> 'd order_db \<Rightarrow> 'd order_db \<Rightarrow> bool" for T where
  create: "od_id r \<notin> od_id ` set (odb_orders db) \<Longrightarrow> order_row_ok T r \<Longrightarrow> od_status r = StatusOpen \<Longrightarrow>
    order_step T db (db\<lparr>odb_orders := odb_orders db @ [r], odb_outbox := odb_outbox db @ es\<rparr>)"
| cancelling: "odb_orders db = xs @ r # ys \<Longrightarrow> od_status r \<in> openStatus \<Longrightarrow>
    order_step T db (db\<lparr>odb_orders := xs @ r\<lparr>od_status := StatusCancelling, od_updated := t\<rparr> # ys,
      odb_outbox := odb_outbox db @ es\<rparr>)"
| fill: "appliesTrade tr buy sell q db db' \<Longrightarrow> q \<in> T \<Longrightarrow> order_step T db db'"
| finish: "odb_orders db = xs @ r # ys \<Longrightarrow> od_status r \<in> liveStatus \<Longrightarrow>
    od_id r \<in> wr_order ` set (odb_releases db @ ws) \<Longrightarrow>
    order_step T db (addReleases ws (db\<lparr>odb_orders := xs @ r\<lparr>od_status := StatusCancelled, od_updated := t\<rparr> # ys\<rparr>))"
| jobs: "odb_orders db' = odb_orders db \<Longrightarrow> odb_trades db' = odb_trades db \<Longrightarrow>
    wr_order ` set (odb_releases db) \<subseteq> wr_order ` set (odb_releases db') \<Longrightarrow> order_step T db db'"

inductive_cases order_stepE [elim]: "order_step T db db'"

section \<open>What every step keeps\<close>

lemma filledBy_ok:
  assumes "order_row_ok T r" and "places_closed T" and "q \<in> T" and "0 < q" and "q \<le> od_remaining r"
  shows "order_row_ok T (filledBy q t r)"
  using assms unfolding order_row_ok_def filledBy_def places_closed_def by auto

lemma fillsSide_ok:
  assumes f: "fillsSide side i q d d'" and T: "places_closed T" "q \<in> T" "0 < q"
    and d: "distinct (map od_id (odb_orders d))" and ok: "\<forall>r\<in>set (odb_orders d). order_row_ok T r"
  shows "distinct (map od_id (odb_orders d')) \<and> (\<forall>r\<in>set (odb_orders d'). order_row_ok T r) \<and>
    odb_trades d' = odb_trades d \<and> odb_releases d' = odb_releases d \<and> odb_outbox d' = odb_outbox d \<and>
    (\<forall>r'\<in>set (odb_orders d'). r' \<in> set (odb_orders d) \<or> i = Some (od_id r'))"
proof (cases i)
  case None
  with f d ok show ?thesis by (simp add: fillsSide_def)
next
  case (Some j)
  with f obtain xs r ys t where *: "odb_orders d = xs @ r # ys" "od_id r = j" "q \<le> od_remaining r"
    "d' = d\<lparr>odb_orders := xs @ filledBy q t r # ys\<rparr>" by (auto simp: fillsSide_def)
  with ok have "order_row_ok T (filledBy q t r)" by (intro filledBy_ok T) auto
  with * d ok Some show ?thesis by auto
qed

text \<open>One row replaced, under its identifier.\<close>

lemma replaced_ok:
  assumes ok: "orders_ok T db" and db: "odb_orders db = xs @ r # ys" and r': "order_row_ok T r'" and i: "od_id r' = od_id r"
    and db': "odb_orders db' = xs @ r' # ys" "odb_trades db' = odb_trades db"
      "set (odb_releases db) \<subseteq> set (odb_releases db')"
    and fin: "finished (od_status r') \<Longrightarrow> od_id r \<in> wr_order ` set (odb_releases db')"
  shows "orders_ok T db'"
proof -
  from ok db have o: "distinct (map od_id (xs @ r' # ys))" "\<forall>r\<in>set (xs @ ys). order_row_ok T r"
    "\<forall>r\<in>set (xs @ ys). finished (od_status r) \<longrightarrow> od_id r \<in> wr_order ` set (odb_releases db)"
    "distinct (odb_trades db)" using i by (simp_all add: orders_ok_def ball_Un)
  then have "\<forall>x\<in>set (xs @ ys). finished (od_status x) \<longrightarrow> od_id x \<in> wr_order ` set (odb_releases db')"
    using db'(3) by (meson image_mono subsetD)
  with r' o i fin db'(1,2) show ?thesis by (simp add: orders_ok_def ball_Un)
qed

lemma order_step_ok:
  assumes T: "places_closed T" and ok: "orders_ok T db" and s: "order_step T db db'"
  shows "orders_ok T db'"
  using s
proof cases
  case (create r es)
  with ok show ?thesis by (auto simp: orders_ok_def finished_def)
next
  case (cancelling xs r ys es t)
  from ok cancelling(2) have "order_row_ok T r" by (simp add: orders_ok_def)
  with cancelling(3) have "order_row_ok T (r\<lparr>od_status := StatusCancelling, od_updated := t\<rparr>)"
    by (auto simp: order_row_ok_def openStatus_def)
  then show ?thesis by (rule replaced_ok[OF ok cancelling(2)]) (use cancelling(1) in \<open>auto simp: finished_def\<close>)
next
  case (fill tr buy sell q)
  from fill(1) obtain d1 d2 ws where q: "0 < q" "tr \<notin> set (odb_trades db)"
    and b: "fillsSide ''BUY'' buy q (db\<lparr>odb_trades := odb_trades db @ [tr]\<rparr>) d1" and s: "fillsSide ''SELL'' sell q d1 d2"
    and db': "db' = addReleases ws d2"
    and rel: "\<forall>r\<in>set (odb_orders d2). Some (od_id r) \<in> {buy, sell} \<and> od_status r = StatusFilled \<longrightarrow> od_id r \<in> wr_order ` set (odb_releases db')"
    unfolding appliesTrade_def by blast
  have 1: "distinct (map od_id (odb_orders d1)) \<and> (\<forall>r\<in>set (odb_orders d1). order_row_ok T r) \<and>
    odb_trades d1 = odb_trades db @ [tr] \<and> odb_releases d1 = odb_releases db \<and> odb_outbox d1 = odb_outbox db \<and>
    (\<forall>r'\<in>set (odb_orders d1). r' \<in> set (odb_orders db) \<or> buy = Some (od_id r'))"
    using fillsSide_ok[OF b T fill(2) q(1)] ok by (simp add: orders_ok_def)
  then have 2: "distinct (map od_id (odb_orders d2)) \<and> (\<forall>r\<in>set (odb_orders d2). order_row_ok T r) \<and>
    odb_trades d2 = odb_trades d1 \<and> odb_releases d2 = odb_releases d1 \<and> odb_outbox d2 = odb_outbox d1 \<and>
    (\<forall>r'\<in>set (odb_orders d2). r' \<in> set (odb_orders d1) \<or> sell = Some (od_id r'))"
    using fillsSide_ok[OF s T fill(2) q(1)] by simp
  have "od_id r \<in> wr_order ` set (odb_releases db')" if r: "r \<in> set (odb_orders d2)" and fin: "finished (od_status r)" for r
  proof (cases "r \<in> set (odb_orders db)")
    case True
    with ok fin have "od_id r \<in> wr_order ` set (odb_releases db)" by (auto simp: orders_ok_def)
    then show ?thesis using 1 2 db' by auto
  next
    case False
    with r 1 2 have i: "Some (od_id r) \<in> {buy, sell}" by auto
    show ?thesis
    proof (cases "od_status r = StatusFilled")
      case True
      with rel r i show ?thesis by blast
    next
      case False
      with fin have c: "od_status r = StatusCancelled" by (simp add: finished_def)
      have fwd: "\<exists>r0\<in>set (odb_orders d). od_id r0 = od_id r' \<and> (od_status r' = StatusCancelled \<longrightarrow> od_status r0 = StatusCancelled)"
        if "fillsSide side j q d d'" "r' \<in> set (odb_orders d')" for side j d d' r'
        using that by (cases j) (auto simp: fillsSide_def filledBy_def split: if_splits)
      from fwd[OF s r] c obtain r1 where "r1 \<in> set (odb_orders d1)" "od_id r1 = od_id r" "od_status r1 = StatusCancelled" by blast
      with fwd[OF b] obtain r0 where "r0 \<in> set (odb_orders db)" "od_id r0 = od_id r" "od_status r0 = StatusCancelled" by fastforce
      with ok have "od_id r \<in> wr_order ` set (odb_releases db)" by (auto simp: orders_ok_def finished_def) (metis)
      then show ?thesis using 1 2 db' by auto
    qed
  qed
  with 1 2 db' q(2) ok show ?thesis by (simp add: orders_ok_def)
next
  case (finish xs r ys ws t)
  from ok finish(2) have "order_row_ok T r" by (simp add: orders_ok_def)
  with finish(3) have "order_row_ok T (r\<lparr>od_status := StatusCancelled, od_updated := t\<rparr>)"
    by (auto simp: order_row_ok_def liveStatus_def)
  then show ?thesis by (rule replaced_ok[OF ok finish(2)]) (use finish(1,4) in auto)
next
  case jobs
  with ok show ?thesis by (auto simp: orders_ok_def)
qed

section \<open>The life of an order\<close>

fun next_status :: "order_status \<Rightarrow> order_status set" where
  "next_status StatusOpen = UNIV"
| "next_status StatusPartiallyFilled = - {StatusOpen}"
| "next_status StatusCancelling = {StatusCancelling, StatusCancelled, StatusFilled}"
| "next_status StatusCancelled = {StatusCancelled, StatusFilled}"
| "next_status StatusFilled = {StatusFilled}"

definition later_order :: "('d::linordered_idom) order_row \<Rightarrow> 'd order_row \<Rightarrow> bool" where
  "later_order r r' \<longleftrightarrow> od_id r' = od_id r \<and> od_user r' = od_user r \<and> od_market r' = od_market r \<and> od_side r' = od_side r \<and>
     od_type r' = od_type r \<and> od_price r' = od_price r \<and> od_quantity r' = od_quantity r \<and> od_key r' = od_key r \<and>
     od_created r' = od_created r \<and> od_filled r \<le> od_filled r' \<and> od_status r' \<in> next_status (od_status r)"

lemma next_status_trans: "s' \<in> next_status s \<Longrightarrow> s'' \<in> next_status s' \<Longrightarrow> s'' \<in> next_status s"
  by (cases s; cases s'; cases s'') auto

lemma next_status_refl [simp]: "s \<in> next_status s"
  by (cases s) auto

lemma later_order_refl [simp]: "later_order r r"
  by (simp add: later_order_def)

lemma later_order_trans: "later_order r r' \<Longrightarrow> later_order r' r'' \<Longrightarrow> later_order r r''"
  unfolding later_order_def using next_status_trans by (metis order_trans)

lemma filledBy_later: "order_row_ok T r \<Longrightarrow> od_status r \<in> fillable \<Longrightarrow> 0 < q \<Longrightarrow> later_order r (filledBy q t r)"
  by (cases "od_status r") (auto simp: later_order_def filledBy_def fillable_def)

lemma replaced_later:
  assumes "rs = xs @ x # ys" and "later_order x x'" and "r \<in> set rs"
  shows "\<exists>r'\<in>set (xs @ x' # ys). later_order r r'"
proof (cases "r = x")
  case False
  with assms have "r \<in> set (xs @ x' # ys)" by auto
  then show ?thesis by (intro bexI[of _ r]) simp_all
qed (use assms in auto)

lemma fillsSide_later:
  assumes "fillsSide side i q d d'" and "0 < q" and "\<forall>r\<in>set (odb_orders d). order_row_ok T r" and "r \<in> set (odb_orders d)"
  shows "\<exists>r'\<in>set (odb_orders d'). later_order r r'"
proof (cases i)
  case None
  with assms show ?thesis by (auto simp: fillsSide_def intro!: bexI[of _ r])
next
  case (Some j)
  with assms(1) obtain xs x ys t where *: "odb_orders d = xs @ x # ys" "od_status x \<in> fillable"
    "d' = d\<lparr>odb_orders := xs @ filledBy q t x # ys\<rparr>" by (auto simp: fillsSide_def)
  with assms(3) have "later_order x (filledBy q t x)" by (intro filledBy_later[OF _ _ assms(2)]) auto
  from replaced_later[OF *(1) this assms(4)] *(3) show ?thesis by simp
qed

lemma order_step_later:
  assumes T: "places_closed T" and ok: "orders_ok T db" and s: "order_step T db db'" and r: "r \<in> set (odb_orders db)"
  shows "\<exists>r'\<in>set (odb_orders db'). later_order r r'"
  using s
proof cases
  case (create x es)
  with r show ?thesis by (auto intro!: bexI[of _ r])
next
  case (cancelling xs x ys es t)
  then have "later_order x (x\<lparr>od_status := StatusCancelling, od_updated := t\<rparr>)"
    by (auto simp: later_order_def openStatus_def)
  from replaced_later[OF cancelling(2) this r] cancelling(1) show ?thesis by simp
next
  case (fill tr buy sell q)
  from fill(1) obtain d1 d2 ws where q: "0 < q"
    and b: "fillsSide ''BUY'' buy q (db\<lparr>odb_trades := odb_trades db @ [tr]\<rparr>) d1" and s: "fillsSide ''SELL'' sell q d1 d2"
    and db': "db' = addReleases ws d2" unfolding appliesTrade_def by blast
  from ok have o: "\<forall>r\<in>set (odb_orders (db\<lparr>odb_trades := odb_trades db @ [tr]\<rparr>)). order_row_ok T r" by (simp add: orders_ok_def)
  from fillsSide_later[OF b q o] r obtain r1 where 1: "r1 \<in> set (odb_orders d1)" "later_order r r1" by auto
  from fillsSide_ok[OF b T fill(2) q] ok have "\<forall>r\<in>set (odb_orders d1). order_row_ok T r" by (simp add: orders_ok_def)
  from fillsSide_later[OF s q this 1(1)] 1(2) db' show ?thesis by (auto intro: later_order_trans)
next
  case (finish xs x ys ws t)
  then have "later_order x (x\<lparr>od_status := StatusCancelled, od_updated := t\<rparr>)"
    by (auto simp: later_order_def liveStatus_def)
  from replaced_later[OF finish(2) this r] finish(1) show ?thesis by simp
next
  case jobs
  with r show ?thesis by (auto intro!: bexI[of _ r])
qed

lemma order_step_trades: "order_step T db db' \<Longrightarrow> set (odb_trades db) \<subseteq> set (odb_trades db')"
proof (erule order_step.cases, goal_cases)
  case (3 tr buy sell q a b)
  then obtain d1 d2 ws where b: "fillsSide ''BUY'' buy q (a\<lparr>odb_trades := odb_trades a @ [tr]\<rparr>) d1" and s: "fillsSide ''SELL'' sell q d1 d2"
    and db': "b = addReleases ws d2" unfolding appliesTrade_def by blast
  have t: "fillsSide side i q d d' \<Longrightarrow> odb_trades d' = odb_trades d" for side i d and d' :: "'a order_db"
    by (cases i) (auto simp: fillsSide_def)
  from t[OF b] t[OF s] db' 3 show ?case by auto
qed auto

end
