(* ===== verification/SettlementService.thy ===== *)
theory SettlementService
  imports Interleave WalletSettle
begin

text \<open>
  The settlement service (\<open>services/settlement\<close>): its table \<open>settled_trades\<close>, the three-phase
  pipeline, the recovery of stale rows and the Kafka consumer. The world holds the rows, the
  wallet behind its gRPC interface and the offset the consumer group has committed; the
  wallet is reached through an argument \<open>call\<close>, the interface \<open>WalletSettler\<close> of the source.
\<close>

section \<open>Rows\<close>

datatype settlement_status = StatusPending | StatusSettled | StatusFailed

record settled_trade =
  st_TradeID :: uuid
  st_BuyerID :: uuid
  st_SellerID :: uuid
  st_BuyOrderID :: uuid
  st_SellOrderID :: uuid
  st_MarketID :: string
  st_BaseAsset :: string
  st_QuoteAsset :: string
  st_Price :: string
  st_Quantity :: string
  st_Sequence :: "64 word"
  st_Status :: settlement_status
  st_ExecutedAt :: time
  st_SettledAt :: "time option"
  st_RetryCount :: int
  st_NextRetryAt :: "time option"
  st_LastError :: "string option"

text \<open>A row: the numeric columns decoded, and the columns with defaults.\<close>

record 'd settled_row =
  row_trade_id :: uuid
  row_buyer_id :: uuid
  row_seller_id :: uuid
  row_buy_order_id :: uuid
  row_sell_order_id :: uuid
  row_market_id :: string
  row_base_asset :: string
  row_quote_asset :: string
  row_price :: 'd
  row_quantity :: 'd
  row_status :: settlement_status
  row_sequence :: int
  row_retry_count :: int
  row_last_error :: "string option"
  row_next_retry_at :: time
  row_executed_at :: time
  row_created_at :: time
  row_settled_at :: "time option"

record ('d, 'w) settle_world =
  sw_rows :: "'d settled_row list"
  sw_wallet :: 'w
  sw_committed :: nat

datatype settlement_error =
    ErrSelfTrade | ErrInvalidEvent | ErrRepository | ErrTradeMissing | ErrWallet string

record trade_event =
  te_TradeID :: string
  te_MarketID :: string
  te_MakerOrderID :: string
  te_TakerOrderID :: string
  te_BuyOrderID :: string
  te_SellOrderID :: string
  te_BuyerUserID :: string
  te_SellerUserID :: string
  te_Price :: string
  te_Quantity :: string
  te_Sequence :: "64 word"
  te_ExecutedAt :: string

text \<open>The rows other transactions have locked when a query runs.\<close>

record 'w settle_env = "'w proc_env" +
  se_locked :: "nat \<Rightarrow> uuid \<Rightarrow> bool"

section \<open>The repository\<close>

text \<open>Characters of a UTF-8 text, which is what \<open>VARCHAR(n)\<close> bounds.\<close>

definition charLength :: "string \<Rightarrow> nat" where
  "charLength s = length (filter (\<lambda>c. (of_char c :: nat) div 64 \<noteq> 2) s)"

text \<open>A \<open>timestamptz\<close> parameter is sent in microseconds.\<close>

definition timestamptz :: "time \<Rightarrow> time" where
  "timestamptz t = t div 1000 * 1000"

definition insertSettledTrade ::
  "'d wlib \<Rightarrow> time \<Rightarrow> settled_trade \<Rightarrow> 'd settled_row list \<Rightarrow> settlement_error + unit \<times> 'd settled_row list" where
  "insertSettledTrade W now t rows =
     (case (Option.bind (p_decimal W (st_Price t)) (p_column W), Option.bind (p_decimal W (st_Quantity t)) (p_column W)) of
        (Some price, Some quantity) \<Rightarrow>
          if charLength (st_MarketID t) > 32 \<or> charLength (st_BaseAsset t) > 16 \<or> charLength (st_QuoteAsset t) > 16 \<or>
             uint (st_Sequence t) \<ge> 2 ^ 63 then Inl ErrRepository
          else if \<exists>r\<in>set rows. row_trade_id r = st_TradeID t then Inr ((), rows)
          else Inr ((), rows @
            [\<lparr>row_trade_id = st_TradeID t, row_buyer_id = st_BuyerID t, row_seller_id = st_SellerID t,
              row_buy_order_id = st_BuyOrderID t, row_sell_order_id = st_SellOrderID t, row_market_id = st_MarketID t,
              row_base_asset = st_BaseAsset t, row_quote_asset = st_QuoteAsset t, row_price = price,
              row_quantity = quantity, row_status = StatusPending, row_sequence = uint (st_Sequence t),
              row_retry_count = 0, row_last_error = None, row_next_retry_at = timestamptz now,
              row_executed_at = timestamptz (st_ExecutedAt t), row_created_at = timestamptz now, row_settled_at = None\<rparr>])
      | _ \<Rightarrow> Inl ErrRepository)"

definition scanTrade :: "'d wlib \<Rightarrow> 'd settled_row \<Rightarrow> settled_trade" where
  "scanTrade W r =
     \<lparr>st_TradeID = row_trade_id r, st_BuyerID = row_buyer_id r, st_SellerID = row_seller_id r,
      st_BuyOrderID = row_buy_order_id r, st_SellOrderID = row_sell_order_id r, st_MarketID = row_market_id r,
      st_BaseAsset = row_base_asset r, st_QuoteAsset = row_quote_asset r,
      st_Price = p_decimal_text W (row_price r), st_Quantity = p_decimal_text W (row_quantity r),
      st_Sequence = word_of_int (row_sequence r), st_Status = row_status r, st_ExecutedAt = row_executed_at r,
      st_SettledAt = row_settled_at r, st_RetryCount = row_retry_count r,
      st_NextRetryAt = Some (row_next_retry_at r), st_LastError = row_last_error r\<rparr>"

abbreviation onRows :: "('w, 'x) proc_env_scheme \<Rightarrow> ('d settled_row list \<Rightarrow> settlement_error + 'a \<times> 'd settled_row list) \<Rightarrow>
    nat \<Rightarrow> ('d, 'v) settle_world \<Rightarrow> (settlement_error + 'a) \<times> ('d, 'v) settle_world" where
  "onRows en f \<equiv> autocommit en sw_rows (\<lambda>rs w. w\<lparr>sw_rows := rs\<rparr>) ErrRepository f"

definition InsertTrade ::
  "(('d, 'v) settle_world, 'x) proc_env_scheme \<Rightarrow> 'd wlib \<Rightarrow> settled_trade \<Rightarrow> (('d, 'v) settle_world, settlement_error, unit) prog" where
  "InsertTrade en W t = act en (\<lambda>n. onRows en (insertSettledTrade W (pe_now en n) t) n)"

definition FindByTradeID ::
  "(('d, 'v) settle_world, 'x) proc_env_scheme \<Rightarrow> 'd wlib \<Rightarrow> uuid \<Rightarrow>
   (('d, 'v) settle_world, settlement_error, settled_trade option) prog" where
  "FindByTradeID en W tid = look en ErrRepository
     (\<lambda>w. Inr (map_option (scanTrade W) (List.find (\<lambda>r. row_trade_id r = tid) (sw_rows w))))"

definition pendingRow :: "uuid \<Rightarrow> 'd settled_row \<Rightarrow> bool" where
  "pendingRow tid r \<longleftrightarrow> row_trade_id r = tid \<and> row_status r = StatusPending"

definition swap_result :: "'e + 'r \<times> 'a \<Rightarrow> 'e + 'a \<times> 'r" where
  "swap_result x = (case x of Inl e \<Rightarrow> Inl e | Inr (r, a) \<Rightarrow> Inr (a, r))"

definition updateSettled :: "time \<Rightarrow> uuid \<Rightarrow> 'd settled_row list \<Rightarrow> settlement_error + nat \<times> 'd settled_row list" where
  "updateSettled now tid rows = swap_result
     (update_rows (pendingRow tid) (\<lambda>r. Inr (r\<lparr>row_status := StatusSettled, row_settled_at := Some (timestamptz now)\<rparr>)) rows)"

definition MarkSettled ::
  "(('d, 'v) settle_world, 'x) proc_env_scheme \<Rightarrow> 'd wlib \<Rightarrow> uuid \<Rightarrow> (('d, 'v) settle_world, settlement_error, unit) prog" where
  "MarkSettled en W tid =
     bindT (act en (\<lambda>n. onRows en (updateSettled (pe_now en n) tid) n)) (\<lambda>affected.
     if affected = 0 then
       bindT (FindByTradeID en W tid) (\<lambda>existing.
       case existing of None \<Rightarrow> throw ErrTradeMissing | Some _ \<Rightarrow> ret ())
     else ret ())"

text \<open>\<open>retry_count\<close> is a 32-bit column: PostgreSQL refuses to pass its largest value.\<close>

definition updateFailure :: "string \<Rightarrow> bool \<Rightarrow> time \<Rightarrow> uuid \<Rightarrow> 'd settled_row list \<Rightarrow> settlement_error + nat \<times> 'd settled_row list" where
  "updateFailure lastErr permanent nextRetry tid rows = swap_result
     (update_rows (pendingRow tid)
       (\<lambda>r. if row_retry_count r \<ge> 2 ^ 31 - 1 then Inl ErrRepository
            else Inr (r\<lparr>row_status := (if permanent then StatusFailed else StatusPending),
                        row_retry_count := row_retry_count r + 1, row_last_error := Some lastErr,
                        row_next_retry_at := timestamptz nextRetry\<rparr>)) rows)"

definition RecordSettlementFailure ::
  "(('d, 'v) settle_world, 'x) proc_env_scheme \<Rightarrow> uuid \<Rightarrow> string \<Rightarrow> bool \<Rightarrow> time \<Rightarrow>
   (('d, 'v) settle_world, settlement_error, unit) prog" where
  "RecordSettlementFailure en tid lastErr permanent nextRetry =
     bindT (act en (onRows en (updateFailure lastErr permanent nextRetry tid))) (\<lambda>_. ret ())"

definition stalePending :: "(uuid \<Rightarrow> bool) \<Rightarrow> time \<Rightarrow> time \<Rightarrow> nat \<Rightarrow> 'd settled_row list \<Rightarrow> 'd settled_row list" where
  "stalePending locked now cutoff limit rows =
     take limit (sort_key row_next_retry_at (sort_key row_created_at
       (filter (\<lambda>r. row_status r = StatusPending \<and> row_created_at r < timestamptz cutoff \<and>
                    row_next_retry_at r \<le> timestamptz now \<and> \<not> locked (row_trade_id r)) rows)))"

definition FindStalePending ::
  "('d, 'v) settle_world settle_env \<Rightarrow> 'd wlib \<Rightarrow> time \<Rightarrow> nat \<Rightarrow>
   (('d, 'v) settle_world, settlement_error, settled_trade list) prog" where
  "FindStalePending en W olderThan limit =
     bindT (clock en) (\<lambda>now.
     act en (\<lambda>n w. (if pe_fault en n then Inl ErrRepository
        else Inr (map (scanTrade W) (stalePending (se_locked en n) (pe_now en n) (now - olderThan) limit (sw_rows w))), w)))"

section \<open>The wallet client\<close>

text \<open>
  A call can be lost on the way, or its reply can: the caller sees an error and the wallet
  may have acted. The status text of an error is the wallet's, or the transport's.
\<close>

datatype transport = Delivered | RequestLost | ReplyLost

record 'v rpc_env =
  rpc_transport :: "nat \<Rightarrow> transport"
  rpc_pg :: "nat \<Rightarrow> 'v \<Rightarrow> pg_env"
  rpc_text :: "nat \<Rightarrow> string"

definition WalletClient_SettleTrade ::
  "('d::linordered_idom) wallet_db rpc_env \<Rightarrow> 'd wlib \<Rightarrow> nat \<Rightarrow> settle_rpc \<Rightarrow> 'd wallet_db \<Rightarrow> (string + unit) \<times> 'd wallet_db" where
  "WalletClient_SettleTrade re W n rq db =
     (let failed = Inl (''wallet SettleTrade gRPC: '' @ rpc_text re n) in
      case rpc_transport re n of
        RequestLost \<Rightarrow> (failed, db)
      | t \<Rightarrow> (case runTx (rpcSettleTrade (rpc_pg re n db) W rq) db of
          (r, db') \<Rightarrow> (case (r, t) of (Inr (), Delivered) \<Rightarrow> Inr () | _ \<Rightarrow> failed, db')))"

text \<open>The call as an action on the world.\<close>

definition callWallet ::
  "(('d, 'v) settle_world, 'x) proc_env_scheme \<Rightarrow> (nat \<Rightarrow> settle_rpc \<Rightarrow> 'v \<Rightarrow> (string + unit) \<times> 'v) \<Rightarrow> settle_rpc \<Rightarrow>
   (('d, 'v) settle_world, settlement_error, unit) prog" where
  "callWallet en call rq = act en (\<lambda>n w. case call n rq (sw_wallet w) of
     (r, v) \<Rightarrow> (case r of Inl msg \<Rightarrow> Inl (ErrWallet msg) | Inr _ \<Rightarrow> Inr (), w\<lparr>sw_wallet := v\<rparr>))"

section \<open>The pipeline\<close>

text \<open>\<open>strings.SplitN(s, "-", 2)\<close> with both parts non-empty.\<close>

definition parseMarketID :: "string \<Rightarrow> settlement_error + string \<times> string" where
  "parseMarketID m =
     (let base = takeWhile (\<lambda>c. c \<noteq> CHR ''-'') m; rest = dropWhile (\<lambda>c. c \<noteq> CHR ''-'') m in
      case rest of
        [] \<Rightarrow> Inl ErrInvalidEvent
      | _ # quote \<Rightarrow> if base = [] \<or> quote = [] then Inl ErrInvalidEvent else Inr (base, quote))"

definition validateEvent ::
  "('d::linordered_idom) wlib \<Rightarrow> trade_event \<Rightarrow> settlement_error + uuid \<times> uuid \<times> uuid \<times> uuid \<times> uuid" where
  "validateEvent W ev =
     (case u_Parse W (te_TradeID ev) of None \<Rightarrow> Inl ErrInvalidEvent | Some tradeID \<Rightarrow>
      case u_Parse W (te_BuyerUserID ev) of None \<Rightarrow> Inl ErrInvalidEvent | Some buyerID \<Rightarrow>
      case u_Parse W (te_SellerUserID ev) of None \<Rightarrow> Inl ErrInvalidEvent | Some sellerID \<Rightarrow>
      case u_Parse W (te_BuyOrderID ev) of None \<Rightarrow> Inl ErrInvalidEvent | Some buyOrderID \<Rightarrow>
      case u_Parse W (te_SellOrderID ev) of None \<Rightarrow> Inl ErrInvalidEvent | Some sellOrderID \<Rightarrow>
      if buyerID = sellerID then Inl ErrSelfTrade
      else case d_NewFromString W (te_Price ev) of None \<Rightarrow> Inl ErrInvalidEvent | Some price \<Rightarrow>
      if price \<le> 0 then Inl ErrInvalidEvent
      else case d_NewFromString W (te_Quantity ev) of None \<Rightarrow> Inl ErrInvalidEvent | Some quantity \<Rightarrow>
      if quantity \<le> 0 then Inl ErrInvalidEvent
      else Inr (tradeID, buyerID, sellerID, buyOrderID, sellOrderID))"

text \<open>
  Phase 1. \<open>time.Parse\<close> accepts a fractional second whether or not the layout has one, so
  the fallback layout accepts what the first one does.
\<close>

definition settlePhase1 ::
  "(('d, 'v) settle_world, 'x) proc_env_scheme \<Rightarrow> 'd wlib \<Rightarrow> trade_event \<Rightarrow> uuid \<times> uuid \<times> uuid \<times> uuid \<times> uuid \<Rightarrow>
   string \<Rightarrow> string \<Rightarrow> (('d, 'v) settle_world, settlement_error, unit) prog" where
  "settlePhase1 en W ev ids base quote =
     (case ids of (tradeID, buyerID, sellerID, buyOrderID, sellOrderID) \<Rightarrow>
      case t_ParseNano W (te_ExecutedAt ev) of
        None \<Rightarrow> throw ErrInvalidEvent
      | Some executedAt \<Rightarrow> InsertTrade en W
          \<lparr>st_TradeID = tradeID, st_BuyerID = buyerID, st_SellerID = sellerID, st_BuyOrderID = buyOrderID,
           st_SellOrderID = sellOrderID, st_MarketID = te_MarketID ev, st_BaseAsset = base, st_QuoteAsset = quote,
           st_Price = te_Price ev, st_Quantity = te_Quantity ev, st_Sequence = te_Sequence ev,
           st_Status = StatusPending, st_ExecutedAt = executedAt, st_SettledAt = None, st_RetryCount = 0,
           st_NextRetryAt = None, st_LastError = None\<rparr>)"

definition settleRequest :: "trade_event \<Rightarrow> string \<Rightarrow> string \<Rightarrow> settle_rpc" where
  "settleRequest ev base quote =
     \<lparr>sr_TradeId = te_TradeID ev, sr_BuyerId = te_BuyerUserID ev, sr_SellerId = te_SellerUserID ev,
      sr_BuyOrderId = te_BuyOrderID ev, sr_SellOrderId = te_SellOrderID ev, sr_MarketId = te_MarketID ev,
      sr_BaseAsset = base, sr_QuoteAsset = quote, sr_Price = te_Price ev, sr_Quantity = te_Quantity ev,
      sr_Sequence = te_Sequence ev, sr_ExecutedAt = te_ExecutedAt ev\<rparr>"

definition Settle ::
  "(('d::linordered_idom, 'v) settle_world, 'x) proc_env_scheme \<Rightarrow>
   (nat \<Rightarrow> settle_rpc \<Rightarrow> 'v \<Rightarrow> (string + unit) \<times> 'v) \<Rightarrow> 'd wlib \<Rightarrow> trade_event \<Rightarrow>
   (('d, 'v) settle_world, settlement_error, unit) prog" where
  "Settle en call W ev =
     bindT (lift (validateEvent W ev)) (\<lambda>ids.
     bindT (FindByTradeID en W (fst ids)) (\<lambda>existing.
     if map_option st_Status existing = Some StatusSettled then ret ()
     else
       bindT (lift (parseMarketID (te_MarketID ev))) (\<lambda>(base, quote).
       bindT (if existing = None then settlePhase1 en W ev ids base quote else ret ()) (\<lambda>_.
       bindT (callWallet en call (settleRequest ev base quote)) (\<lambda>_.
       MarkSettled en W (fst ids))))))"

section \<open>Recovery\<close>

text \<open>
  \<open>strings.ToLower\<close>, as far as \<open>strings.Contains\<close> with the four patterns below can see it:
  the ASCII letters, and the one other letter whose lower case is among them, U+0130.
\<close>

fun toLower :: "string \<Rightarrow> string" where
  "toLower [] = []"
| "toLower (c # cs) =
     (if 65 \<le> (of_char c :: nat) \<and> (of_char c :: nat) \<le> 90 then char_of (of_char c + 32 :: nat) # toLower cs
      else if (of_char c :: nat) = 0xC4 \<and> cs \<noteq> [] \<and> (of_char (hd cs) :: nat) = 0xB0 then CHR ''i'' # toLower (tl cs)
      else c # toLower cs)"

fun contains :: "string \<Rightarrow> string \<Rightarrow> bool" where
  "contains [] p \<longleftrightarrow> p = []"
| "contains (c # cs) p \<longleftrightarrow> take (length p) (c # cs) = p \<or> contains cs p"

definition isPermanentSettlementError :: "string \<Rightarrow> bool" where
  "isPermanentSettlementError msg =
     (let m = toLower msg in
      contains m ''already released'' \<or> contains m ''reservation not found'' \<or>
      contains m ''insufficient reservation'' \<or> contains m ''invalid order'')"

definition staleThreshold :: time where
  "staleThreshold = 60 * 1000000000"

definition batchLimit :: nat where
  "batchLimit = 50"

text \<open>\<open>1 << retryCount\<close> minutes, at most 30, in nanoseconds, all in 64-bit arithmetic.\<close>

definition backoff :: "int \<Rightarrow> time" where
  "backoff retryCount =
     (let minutes = (push_bit (nat retryCount) 1 :: 64 word);
          capped = (if sint minutes > 30 then 30 else minutes) in
      sint (capped * 60000000000))"

definition recoverRequest :: "'d wlib \<Rightarrow> settled_trade \<Rightarrow> settle_rpc" where
  "recoverRequest W t =
     \<lparr>sr_TradeId = u_String W (st_TradeID t), sr_BuyerId = u_String W (st_BuyerID t),
      sr_SellerId = u_String W (st_SellerID t), sr_BuyOrderId = u_String W (st_BuyOrderID t),
      sr_SellOrderId = u_String W (st_SellOrderID t), sr_MarketId = st_MarketID t, sr_BaseAsset = st_BaseAsset t,
      sr_QuoteAsset = st_QuoteAsset t, sr_Price = st_Price t, sr_Quantity = st_Quantity t,
      sr_Sequence = st_Sequence t, sr_ExecutedAt = t_FormatNano W (st_ExecutedAt t)\<rparr>"

definition recoverTrade ::
  "(('d, 'v) settle_world, 'x) proc_env_scheme \<Rightarrow>
   (nat \<Rightarrow> settle_rpc \<Rightarrow> 'v \<Rightarrow> (string + unit) \<times> 'v) \<Rightarrow> 'd wlib \<Rightarrow> settled_trade \<Rightarrow>
   (('d, 'v) settle_world, settlement_error, unit) prog" where
  "recoverTrade en call W t =
     bindT (tryT (callWallet en call (recoverRequest W t))) (\<lambda>r.
     case r of
       Inl e \<Rightarrow>
         (let msg = (case e of ErrWallet m \<Rightarrow> m | _ \<Rightarrow> []);
              permanent = isPermanentSettlementError msg \<or> st_RetryCount t \<ge> 4 in
          bindT (clock en) (\<lambda>now.
          ignoreErr (RecordSettlementFailure en (st_TradeID t) msg permanent (now + backoff (st_RetryCount t)))))
     | Inr _ \<Rightarrow> ignoreErr (MarkSettled en W (st_TradeID t)))"

fun recoverTrades ::
  "(('d, 'v) settle_world, 'x) proc_env_scheme \<Rightarrow>
   (nat \<Rightarrow> settle_rpc \<Rightarrow> 'v \<Rightarrow> (string + unit) \<times> 'v) \<Rightarrow> 'd wlib \<Rightarrow> settled_trade list \<Rightarrow>
   (('d, 'v) settle_world, settlement_error, unit) prog" where
  "recoverTrades en call W [] = ret ()"
| "recoverTrades en call W (t # ts) = bindT (recoverTrade en call W t) (\<lambda>_. recoverTrades en call W ts)"

definition RecoverStalePending ::
  "('d, 'v) settle_world settle_env \<Rightarrow>
   (nat \<Rightarrow> settle_rpc \<Rightarrow> 'v \<Rightarrow> (string + unit) \<times> 'v) \<Rightarrow> 'd wlib \<Rightarrow>
   (('d, 'v) settle_world, settlement_error, unit) prog" where
  "RecoverStalePending en call W =
     bindT (tryT (FindStalePending en W staleThreshold batchLimit)) (\<lambda>r.
     case r of Inl _ \<Rightarrow> ret () | Inr trades \<Rightarrow> recoverTrades en call W trades)"

section \<open>The consumer\<close>

text \<open>
  The log is the partition, \<open>decode\<close> the JSON decoder. A consumer-group reader starts at the
  committed offset and then hands out the following messages, committed or not; committing
  a message moves the group's offset behind it.
\<close>

definition commitMsg ::
  "(('d, 'v) settle_world, 'x) proc_env_scheme \<Rightarrow> nat \<Rightarrow> (('d, 'v) settle_world, settlement_error, unit) prog" where
  "commitMsg en offset = act en
     (autocommit en sw_committed (\<lambda>c w. w\<lparr>sw_committed := c\<rparr>) ErrRepository (\<lambda>_. Inr ((), Suc offset)))"

definition consumeMsg ::
  "(('d::linordered_idom, 'v) settle_world, 'x) proc_env_scheme \<Rightarrow>
   (nat \<Rightarrow> settle_rpc \<Rightarrow> 'v \<Rightarrow> (string + unit) \<times> 'v) \<Rightarrow> 'd wlib \<Rightarrow> (string \<Rightarrow> trade_event option) \<Rightarrow>
   nat \<Rightarrow> string \<Rightarrow> (('d, 'v) settle_world, settlement_error, unit) prog" where
  "consumeMsg en call W decode offset value =
     (case decode value of
        None \<Rightarrow> ignoreErr (commitMsg en offset)
      | Some ev \<Rightarrow>
          bindT (tryT (Settle en call W ev)) (\<lambda>r.
          case r of
            Inl e \<Rightarrow> if e = ErrSelfTrade then ignoreErr (commitMsg en offset) else ret ()
          | Inr _ \<Rightarrow> ignoreErr (commitMsg en offset)))"

datatype fetch = Fetched | FetchFailed | Cancelled

fun consumerLoop ::
  "(('d::linordered_idom, 'v) settle_world, 'x) proc_env_scheme \<Rightarrow>
   (nat \<Rightarrow> settle_rpc \<Rightarrow> 'v \<Rightarrow> (string + unit) \<times> 'v) \<Rightarrow> 'd wlib \<Rightarrow> (string \<Rightarrow> trade_event option) \<Rightarrow>
   string list \<Rightarrow> fetch list \<Rightarrow> nat \<Rightarrow> (('d, 'v) settle_world, settlement_error, nat) prog" where
  "consumerLoop en call W decode log [] p = ret p"
| "consumerLoop en call W decode log (Cancelled # fs) p = ret p"
| "consumerLoop en call W decode log (FetchFailed # fs) p = consumerLoop en call W decode log fs p"
| "consumerLoop en call W decode log (Fetched # fs) p =
     (if p < length log then
        bindT (consumeMsg en call W decode p (log ! p)) (\<lambda>_. consumerLoop en call W decode log fs (Suc p))
      else ret p)"

definition Start ::
  "(('d::linordered_idom, 'v) settle_world, 'x) proc_env_scheme \<Rightarrow>
   (nat \<Rightarrow> settle_rpc \<Rightarrow> 'v \<Rightarrow> (string + unit) \<times> 'v) \<Rightarrow> 'd wlib \<Rightarrow> (string \<Rightarrow> trade_event option) \<Rightarrow>
   string list \<Rightarrow> fetch list \<Rightarrow> (('d, 'v) settle_world, settlement_error, nat) prog" where
  "Start en call W decode log fs =
     bindT (act en (\<lambda>n w. (Inr (sw_committed w), w))) (\<lambda>p. consumerLoop en call W decode log fs p)"

end
