(* ===== verification/OrderService.thy ===== *)
theory OrderService
  imports OrderStore SettlementService
begin

text \<open>
  The operations of \<open>services/order/internal/service\<close>: placing an order with the market
  guard, the price filter, the reservation in the wallet and its compensation; cancelling,
  reading and listing. The world holds the database of the service, the wallet behind its
  client, the Kafka log of order commands and the offsets its two consumers have committed.
\<close>

section \<open>Worlds and outside code\<close>

record ('d, 'v) order_world =
  ow_db :: "'d order_db"
  ow_wallet :: 'v
  ow_log :: "(string \<times> string \<times> order_envelope) list"
  ow_tradeOffset :: nat
  ow_cancelOffset :: nat

datatype redis_reply = RedisNil | RedisError | RedisValue string

text \<open>\<open>tx_pg\<close> are the faults and identifiers inside the n-th action, \<open>rd_get\<close> what Redis answers then.\<close>

record 'w order_env = "'w proc_env" +
  tx_pg :: "nat \<Rightarrow> pg_env"
  rd_get :: "nat \<Rightarrow> string \<Rightarrow> redis_reply"

text \<open>A failed call of the wallet: its status code, if the wallet answered, and the text.\<close>

datatype rpc_failure = RpcFailure "grpc_code option" string

record 'v wallet_client =
  wc_reserve :: "nat \<Rightarrow> string \<Rightarrow> string \<Rightarrow> string \<Rightarrow> string \<Rightarrow> 'v \<Rightarrow> (rpc_failure + unit) \<times> 'v"
  wc_release :: "nat \<Rightarrow> string \<Rightarrow> 'v \<Rightarrow> (rpc_failure + unit) \<times> 'v"

record refprice_anchor =
  ra_MarketID :: string
  ra_Price :: string
  ra_Version :: int
  ra_FetchedAt :: string
  ra_State :: string

text \<open>The functions of outside packages only this service uses, and the filter's configuration.\<close>

record 'd order_lib =
  ol_RoundCeil :: "'d \<Rightarrow> int \<Rightarrow> 'd"                                    \<comment> \<open>decimal.Decimal.RoundCeil\<close>
  ol_Half :: "'d \<Rightarrow> 'd"                                            \<comment> \<open>Div(decimal.NewFromInt(2))\<close>
  ol_Anchor :: "string \<Rightarrow> refprice_anchor option"                  \<comment> \<open>json.Unmarshal\<close>
  ol_Depth :: "string \<Rightarrow> (string list \<times> string list) option"      \<comment> \<open>json.Unmarshal, the prices of the levels\<close>
  ol_Base64 :: "string \<Rightarrow> string option"                           \<comment> \<open>base64.URLEncoding.DecodeString\<close>

record 'd order_config =
  oc_mmUserID :: string
  oc_maxDeviation :: 'd
  oc_mmMaxDeviation :: 'd
  oc_maxAnchorAge :: time

datatype service_error =
    ErrInvalidUserID | ErrInvalidSide | ErrInvalidType | ErrDuplicateKey | ErrInvalidMarket | ErrNotReady
  | ErrMarketStateUnavailable | ErrMarketHalted | ErrInvalidQuantity | ErrUnsupportedAsset | ErrInvalidQuantityPrecision
  | ErrInvalidPrice | ErrInvalidPricePrecision | ErrPriceBand | ErrPriceReferenceUnavailable | ErrInsufficientFunds
  | ErrReservation | ErrPersist | ErrNotFound | ErrNotCancellable | ErrCursor | ErrOther

type_synonym ('d, 'v, 'a) osvc = "(('d, 'v) order_world, service_error, 'a) prog"

text \<open>A transaction of the repository as one action, and a call of the wallet.\<close>

definition repo ::
  "('d, 'v) order_world order_env \<Rightarrow> (order_error \<Rightarrow> service_error) \<Rightarrow> (pg_env \<Rightarrow> ('d, 'a) oprog) \<Rightarrow> ('d, 'v, 'a) osvc" where
  "repo en h m = act en (\<lambda>n w. case runTx (m (tx_pg en n)) (ow_db w) of
     (r, db) \<Rightarrow> (map_sum h id r, w\<lparr>ow_db := db\<rparr>))"

definition tryRepo ::
  "('d, 'v) order_world order_env \<Rightarrow> (pg_env \<Rightarrow> ('d, 'a) oprog) \<Rightarrow> ('d, 'v, order_error + 'a) osvc" where
  "tryRepo en m = act en (\<lambda>n w. case runTx (m (tx_pg en n)) (ow_db w) of (r, db) \<Rightarrow> (Inr r, w\<lparr>ow_db := db\<rparr>))"

definition tryWallet ::
  "('d, 'v) order_world order_env \<Rightarrow> (nat \<Rightarrow> 'v \<Rightarrow> (rpc_failure + unit) \<times> 'v) \<Rightarrow> ('d, 'v, rpc_failure + unit) osvc" where
  "tryWallet en f = act en (\<lambda>n w. case f n (ow_wallet w) of (r, v) \<Rightarrow> (Inr r, w\<lparr>ow_wallet := v\<rparr>))"

definition redisGet :: "('d, 'v) order_world order_env \<Rightarrow> string \<Rightarrow> ('d, 'v, redis_reply) osvc" where
  "redisGet en key = act en (\<lambda>n w. (Inr (rd_get en n key), w))"

text \<open>A new identifier. When \<open>uuid.NewString\<close> has no randomness it panics: the request ends there too.\<close>

definition newID :: "('d, 'v) order_world order_env \<Rightarrow> ('d, 'v, uuid) osvc" where
  "newID en = act en (\<lambda>n w. (case pe_uuid en n of None \<Rightarrow> Inl ErrOther | Some u \<Rightarrow> Inr u, w))"

section \<open>Validation\<close>

text \<open>\<open>strings.ToUpper\<close> as far as the comparison with upper case ASCII names can see it.\<close>

fun toUpper :: "string \<Rightarrow> string" where
  "toUpper [] = []"
| "toUpper (c # cs) =
     (if 97 \<le> (of_char c :: nat) \<and> (of_char c :: nat) \<le> 122 then char_of (of_char c - 32 :: nat) # toUpper cs
      else if (of_char c :: nat) = 0xC5 \<and> cs \<noteq> [] \<and> (of_char (hd cs) :: nat) = 0xBF then CHR ''S'' # toUpper (tl cs)
      else if (of_char c :: nat) = 0xC4 \<and> cs \<noteq> [] \<and> (of_char (hd cs) :: nat) = 0xB1 then CHR ''I'' # toUpper (tl cs)
      else c # toUpper cs)"

definition parseOrderMarket :: "string \<Rightarrow> (string \<times> string) option" where
  "parseOrderMarket market =
     (let p0 = takeWhile (\<lambda>c. c \<noteq> CHR ''-'') market; rest = dropWhile (\<lambda>c. c \<noteq> CHR ''-'') market in
      case rest of
        [] \<Rightarrow> None
      | _ # p1 \<Rightarrow>
          if CHR ''-'' \<in> set p1 \<or> p0 = [] \<or> p1 = [] then None
          else if toUpper p1 \<noteq> ''USDT'' then None
          else if toUpper p0 \<in> {''BTC'', ''ETH'', ''SOL''} then Some (toUpper p0, toUpper p1)
          else None)"

definition getAssetDecimals :: "string \<Rightarrow> service_error + int" where
  "getAssetDecimals asset =
     (let a = toUpper asset in
      if a = ''USDT'' then Inr 2
      else if a = ''BTC'' \<or> a = ''ETH'' then Inr 8
      else if a = ''SOL'' then Inr 9
      else Inl ErrUnsupportedAsset)"

record create_params =
  cp_UserID :: string
  cp_MarketID :: string
  cp_Side :: string
  cp_OrderType :: string
  cp_Price :: string
  cp_Quantity :: string
  cp_IdempotencyKey :: string

definition quantitiesEqual :: "'d wlib \<Rightarrow> string \<Rightarrow> string \<Rightarrow> bool" where
  "quantitiesEqual W q1 q2 =
     (case (d_NewFromString W q1, d_NewFromString W q2) of
        (Some d1, Some d2) \<Rightarrow> d1 = d2 | _ \<Rightarrow> q1 = q2)"

definition pricesEqual :: "'d wlib \<Rightarrow> string option \<Rightarrow> string \<Rightarrow> bool" where
  "pricesEqual W p1 p2 =
     (case p1 of None \<Rightarrow> p2 = [] | Some p \<Rightarrow> p2 \<noteq> [] \<and> quantitiesEqual W p p2)"

definition sameRequest :: "'d wlib \<Rightarrow> order \<Rightarrow> create_params \<Rightarrow> bool" where
  "sameRequest W existing p =
     (if or_UserID existing \<noteq> cp_UserID p \<or> or_MarketID existing \<noteq> cp_MarketID p \<or>
         or_Side existing \<noteq> cp_Side p \<or> or_OrderType existing \<noteq> cp_OrderType p then False
      else if \<not> quantitiesEqual W (or_Quantity existing) (cp_Quantity p) then False
      else pricesEqual W (or_Price existing) (cp_Price p))"

section \<open>Market guard and price filter\<close>

definition IsHalted :: "('d, 'v) order_world order_env \<Rightarrow> string \<Rightarrow> ('d, 'v, bool) osvc" where
  "IsHalted en marketID =
     bindT (redisGet en ''market:enforcement:ready'') (\<lambda>ready.
     case ready of
       RedisNil \<Rightarrow> throw ErrNotReady
     | RedisError \<Rightarrow> throw ErrMarketStateUnavailable
     | RedisValue v \<Rightarrow>
         if v \<noteq> ''1'' then throw ErrNotReady
         else bindT (redisGet en (''market:halted:'' @ marketID)) (\<lambda>halted.
           case halted of
             RedisNil \<Rightarrow> ret False
           | RedisError \<Rightarrow> throw ErrMarketStateUnavailable
           | RedisValue x \<Rightarrow> ret (x = ''1'')))"

definition validateMMOrder ::
  "('d, 'v) order_world order_env \<Rightarrow> ('d::linordered_idom) wlib \<Rightarrow> 'd order_lib \<Rightarrow> 'd order_config \<Rightarrow> string \<Rightarrow> 'd \<Rightarrow>
   ('d, 'v, unit) osvc" where
  "validateMMOrder en W L cfg marketID price =
     bindT (redisGet en (''refprice:anchor:'' @ marketID)) (\<lambda>val.
     case val of RedisValue v \<Rightarrow>
       (case ol_Anchor L v of None \<Rightarrow> throw ErrPriceBand | Some anchor \<Rightarrow>
        if ra_MarketID anchor \<noteq> [] \<and> ra_MarketID anchor \<noteq> marketID then throw ErrPriceBand
        else case d_NewFromString W (ra_Price anchor) of None \<Rightarrow> throw ErrPriceBand | Some anchorPrice \<Rightarrow>
        if \<not> anchorPrice > 0 then throw ErrPriceBand
        else if ra_Version anchor \<le> 0 then throw ErrPriceBand
        else if ra_State anchor \<noteq> ''FRESH'' then throw ErrPriceBand
        else case t_ParseNano W (ra_FetchedAt anchor) of None \<Rightarrow> throw ErrPriceBand | Some fetchedAt \<Rightarrow>
        bindT (clock en) (\<lambda>now.
        let age = now - fetchedAt in
        if age < 0 \<or> age > oc_maxAnchorAge cfg then throw ErrPriceBand
        else if price > anchorPrice * (1 + oc_mmMaxDeviation cfg) \<or> price < anchorPrice * (1 - oc_mmMaxDeviation cfg)
        then throw ErrPriceBand
        else ret ()))
     | _ \<Rightarrow> throw ErrPriceBand)"

text \<open>The first level of a side, if it has a positive price.\<close>

definition bestPrice :: "('d::linordered_idom) wlib \<Rightarrow> string list \<Rightarrow> 'd option" where
  "bestPrice W levels =
     (case levels of [] \<Rightarrow> None
      | p # _ \<Rightarrow> (case d_NewFromString W p of Some x \<Rightarrow> if x > 0 then Some x else None | None \<Rightarrow> None))"

text \<open>The band around the best prices: what remains of a retail check once the book is read.\<close>

definition retailBand ::
  "('d::linordered_idom) order_lib \<Rightarrow> 'd order_config \<Rightarrow> 'd option \<Rightarrow> 'd option \<Rightarrow> string \<Rightarrow> string \<Rightarrow> 'd \<Rightarrow> service_error + unit" where
  "retailBand L cfg bestBid bestAsk side orderType price =
     (if bestBid = None \<and> bestAsk = None then Inr ()
      else
        let mid = (case (bestBid, bestAsk) of
                     (Some b, Some a) \<Rightarrow> ol_Half L (b + a) | (None, Some a) \<Rightarrow> a | (Some b, None) \<Rightarrow> b | (None, None) \<Rightarrow> 0);
            minAllowed = mid * (1 - oc_maxDeviation cfg); maxAllowed = mid * (1 + oc_maxDeviation cfg) in
        if orderType = ''MARKET'' \<and> side = ''BUY'' \<and>
           ((case bestAsk of None \<Rightarrow> False | Some a \<Rightarrow> price < a) \<or> price > maxAllowed) then Inl ErrPriceBand
        else if orderType = ''MARKET'' \<and> side = ''SELL'' \<and>
           ((case bestBid of None \<Rightarrow> False | Some b \<Rightarrow> price > b) \<or> price < minAllowed) then Inl ErrPriceBand
        else if orderType = ''LIMIT'' \<and> (price > maxAllowed \<or> price < minAllowed) then Inl ErrPriceBand
        else Inr ())"

definition validateRetailOrder ::
  "('d, 'v) order_world order_env \<Rightarrow> ('d::linordered_idom) wlib \<Rightarrow> 'd order_lib \<Rightarrow> 'd order_config \<Rightarrow> string \<Rightarrow> string \<Rightarrow> string \<Rightarrow>
   'd \<Rightarrow> ('d, 'v, unit) osvc" where
  "validateRetailOrder en W L cfg marketID side orderType price =
     bindT (redisGet en (''depth:'' @ marketID)) (\<lambda>val.
     case val of
       RedisNil \<Rightarrow> ret ()
     | RedisError \<Rightarrow> throw ErrPriceReferenceUnavailable
     | RedisValue v \<Rightarrow>
         (case ol_Depth L v of
            None \<Rightarrow> throw ErrPriceReferenceUnavailable
          | Some (bids, asks) \<Rightarrow> lift (retailBand L cfg (bestPrice W bids) (bestPrice W asks) side orderType price)))"

definition ValidatePriceBand ::
  "('d, 'v) order_world order_env \<Rightarrow> ('d::linordered_idom) wlib \<Rightarrow> 'd order_lib \<Rightarrow> 'd order_config \<Rightarrow> string \<Rightarrow> string \<Rightarrow> string \<Rightarrow>
   'd \<Rightarrow> string \<Rightarrow> ('d, 'v, unit) osvc" where
  "ValidatePriceBand en W L cfg marketID side orderType price userID =
     (if userID \<noteq> [] \<and> userID = oc_mmUserID cfg then validateMMOrder en W L cfg marketID price
      else validateRetailOrder en W L cfg marketID side orderType price)"

section \<open>Placing an order\<close>

text \<open>Step 2: an order already placed under the key.\<close>

definition checkKey ::
  "('d, 'v) order_world order_env \<Rightarrow> 'd wlib \<Rightarrow> create_params \<Rightarrow> ('d, 'v, order option) osvc" where
  "checkKey en W p =
     (if cp_IdempotencyKey p = [] then ret None
      else bindT (repo en (\<lambda>_. ErrOther) (\<lambda>pg. FindByIdempotencyKey pg W (cp_IdempotencyKey p))) (\<lambda>existing.
        case existing of
          None \<Rightarrow> ret None
        | Some e \<Rightarrow> if sameRequest W e p then ret (Some e) else throw ErrDuplicateKey))"

text \<open>Step 4: quantity and price within the precision of asset and database.\<close>

definition checkAmounts ::
  "('d::linordered_idom) wlib \<Rightarrow> string \<Rightarrow> create_params \<Rightarrow> service_error + 'd \<times> 'd" where
  "checkAmounts W baseAsset p =
     (case d_NewFromString W (cp_Quantity p) of None \<Rightarrow> Inl ErrInvalidQuantity | Some qty \<Rightarrow>
      if \<not> qty > 0 then Inl ErrInvalidQuantity
      else case getAssetDecimals baseAsset of Inl e \<Rightarrow> Inl e | Inr baseDecimals \<Rightarrow>
      if d_Truncate W qty baseDecimals \<noteq> qty then Inl ErrInvalidQuantityPrecision
      else if cp_Price p = [] then Inl ErrInvalidPrice
      else case d_NewFromString W (cp_Price p) of None \<Rightarrow> Inl ErrInvalidPrice | Some price \<Rightarrow>
      if \<not> price > 0 then Inl ErrInvalidPrice
      else if d_Truncate W price 10 \<noteq> price then Inl ErrInvalidPricePrecision
      else Inr (qty, price))"

text \<open>Step 5: what the wallet is asked to reserve.\<close>

definition reservationOf ::
  "('d::linordered_idom) wlib \<Rightarrow> 'd order_lib \<Rightarrow> string \<Rightarrow> string \<Rightarrow> string \<Rightarrow> 'd \<Rightarrow> 'd \<Rightarrow> service_error + string \<times> string" where
  "reservationOf W L side baseAsset quoteAsset qty price =
     (if side = ''BUY'' then
        (case getAssetDecimals quoteAsset of
           Inl e \<Rightarrow> Inl e | Inr k \<Rightarrow> Inr (quoteAsset, d_StringFixed W (ol_RoundCeil L (price * qty) k) k))
      else
        (case getAssetDecimals baseAsset of
           Inl e \<Rightarrow> Inl e | Inr k \<Rightarrow> Inr (baseAsset, d_StringFixed W (d_Truncate W qty k) k)))"

definition newOrder ::
  "('d::linordered_idom) wlib \<Rightarrow> create_params \<Rightarrow> string \<Rightarrow> uuid \<Rightarrow> time \<Rightarrow> 'd \<Rightarrow> 'd \<Rightarrow> order" where
  "newOrder W p marketID orderID now qty price =
     \<lparr>or_ID = u_String W orderID, or_UserID = cp_UserID p, or_MarketID = marketID, or_Side = cp_Side p,
      or_OrderType = cp_OrderType p,
      or_Price = (if price = 0 then None else Some (d_StringFixed W price 10)),
      or_Quantity = d_StringFixed W qty 10, or_FilledQuantity = ''0.0000000000'',
      or_RemainingQuantity = d_StringFixed W qty 10, or_Status = StatusOpen,
      or_IdempotencyKey = (if cp_IdempotencyKey p = [] then None else Some (cp_IdempotencyKey p)),
      or_CreatedAt = now, or_UpdatedAt = now\<rparr>"

definition createdEnvelope :: "order \<Rightarrow> string \<Rightarrow> time \<Rightarrow> order_envelope" where
  "createdEnvelope ord eventID now =
     \<lparr>oe_EventID = eventID, oe_EventType = ''OrderCreated'', oe_MarketID = or_MarketID ord, oe_OccurredAt = now,
      oe_Payload = OrderCreatedPayload (or_ID ord) (or_UserID ord) (or_MarketID ord) (or_Side ord) (or_OrderType ord)
        (or_Price ord) (or_Quantity ord)\<rparr>"

definition EnqueueWalletRelease :: "pg_env \<Rightarrow> 'd wlib \<Rightarrow> string \<Rightarrow> ('d, unit) oprog" where
  "EnqueueWalletRelease en W orderID = pool en OrderInternal (insertRelease en W orderID 0)"

text \<open>Step 9 after a failed insert: give the funds back, or leave a durable request to do so.\<close>

definition compensate ::
  "('d, 'v) order_world order_env \<Rightarrow> 'v wallet_client \<Rightarrow> 'd wlib \<Rightarrow> string \<Rightarrow> ('d, 'v, unit) osvc" where
  "compensate en wc W orderID =
     bindT (tryWallet en (\<lambda>n. wc_release wc n orderID)) (\<lambda>released.
     case released of
       Inr _ \<Rightarrow> ret ()
     | Inl _ \<Rightarrow> bindT (tryRepo en (\<lambda>pg. EnqueueWalletRelease pg W orderID)) (\<lambda>_. ret ()))"

definition persistOrder ::
  "('d, 'v) order_world order_env \<Rightarrow> 'v wallet_client \<Rightarrow> 'd wlib \<Rightarrow> bool \<Rightarrow> create_params \<Rightarrow> order \<Rightarrow>
   order_envelope option \<Rightarrow> ('d, 'v, order) osvc" where
  "persistOrder en wc W isMM p ord envelope =
     bindT (tryRepo en (\<lambda>pg. RepoCreateOrder pg W ord envelope)) (\<lambda>r.
     case r of
       Inr _ \<Rightarrow> ret ord
     | Inl e \<Rightarrow>
         bindT (if isMM then ret () else compensate en wc W (or_ID ord)) (\<lambda>_.
         if e = DuplicateIdempotencyKey then
           (if cp_IdempotencyKey p = [] then throw ErrDuplicateKey
            else bindT (tryRepo en (\<lambda>pg. FindByIdempotencyKey pg W (cp_IdempotencyKey p))) (\<lambda>found.
              case found of
                Inr (Some existing) \<Rightarrow> if sameRequest W existing p then ret existing else throw ErrDuplicateKey
              | _ \<Rightarrow> throw ErrDuplicateKey))
         else throw ErrPersist))"

definition placeOrder ::
  "('d, 'v) order_world order_env \<Rightarrow> 'v wallet_client \<Rightarrow> ('d::linordered_idom) wlib \<Rightarrow> 'd order_lib \<Rightarrow> 'd order_config \<Rightarrow>
   create_params \<Rightarrow> string \<Rightarrow> string \<Rightarrow> 'd \<Rightarrow> 'd \<Rightarrow> ('d, 'v, order) osvc" where
  "placeOrder en wc W L cfg p baseAsset quoteAsset qty price =
     bindT (lift (reservationOf W L (cp_Side p) baseAsset quoteAsset qty price)) (\<lambda>(reserveAsset, reserveAmount).
     bindT (newID en) (\<lambda>orderID.
     bindT (clock en) (\<lambda>now.
     let ord = newOrder W p (cp_MarketID p) orderID now qty price; isMM = (cp_UserID p = oc_mmUserID cfg) in
     bindT (if isMM then ret None
            else bindT (newID en) (\<lambda>eventID. ret (Some (createdEnvelope ord (u_String W eventID) now)))) (\<lambda>envelope.
     bindT (if isMM then ret ()
            else bindT (tryWallet en (\<lambda>n. wc_reserve wc n (cp_UserID p) (u_String W orderID) reserveAsset reserveAmount)) (\<lambda>r.
              case r of
                Inr _ \<Rightarrow> ret ()
              | Inl (RpcFailure code _) \<Rightarrow>
                  throw (if code = Some FailedPrecondition then ErrInsufficientFunds else ErrReservation))) (\<lambda>_.
     persistOrder en wc W isMM p ord envelope)))))"

definition CreateOrder ::
  "('d, 'v) order_world order_env \<Rightarrow> 'v wallet_client \<Rightarrow> ('d::linordered_idom) wlib \<Rightarrow> 'd order_lib \<Rightarrow> 'd order_config \<Rightarrow>
   create_params \<Rightarrow> ('d, 'v, order) osvc" where
  "CreateOrder en wc W L cfg p =
     (if u_Parse W (cp_UserID p) = None then throw ErrInvalidUserID
      else if cp_Side p \<notin> {''BUY'', ''SELL''} then throw ErrInvalidSide
      else if cp_OrderType p \<notin> {''LIMIT'', ''MARKET''} then throw ErrInvalidType
      else bindT (checkKey en W p) (\<lambda>existing.
        case existing of
          Some e \<Rightarrow> ret e
        | None \<Rightarrow>
            (case parseOrderMarket (cp_MarketID p) of
               None \<Rightarrow> throw ErrInvalidMarket
             | Some (baseAsset, quoteAsset) \<Rightarrow>
                 let p' = p\<lparr>cp_MarketID := baseAsset @ ''-'' @ quoteAsset\<rparr> in
                 bindT (IsHalted en (cp_MarketID p')) (\<lambda>halted.
                 if halted then throw ErrMarketHalted
                 else
                   bindT (lift (checkAmounts W baseAsset p')) (\<lambda>(qty, price).
                   bindT (ValidatePriceBand en W L cfg (cp_MarketID p') (cp_Side p') (cp_OrderType p') price (cp_UserID p')) (\<lambda>_.
                   placeOrder en wc W L cfg p' baseAsset quoteAsset qty price))))))"

section \<open>Cancelling and reading\<close>

definition mapOrderError :: "order_error \<Rightarrow> service_error" where
  "mapOrderError e = (case e of OrderNotFound \<Rightarrow> ErrNotFound | OrderNotCancellable \<Rightarrow> ErrNotCancellable
     | InvalidPaginationCursor \<Rightarrow> ErrCursor | _ \<Rightarrow> ErrOther)"

definition cancelEnvelope :: "order \<Rightarrow> string \<Rightarrow> time \<Rightarrow> order_envelope" where
  "cancelEnvelope ord eventID now =
     \<lparr>oe_EventID = eventID, oe_EventType = ''OrderCancelRequested'', oe_MarketID = or_MarketID ord, oe_OccurredAt = now,
      oe_Payload = OrderCancelPayload (or_ID ord) (or_UserID ord)\<rparr>"

definition GetOrder ::
  "('d, 'v) order_world order_env \<Rightarrow> 'd wlib \<Rightarrow> string \<Rightarrow> string \<Rightarrow> ('d, 'v, order) osvc" where
  "GetOrder en W orderID userID =
     (if u_Parse W orderID = None then throw ErrNotFound
      else if u_Parse W userID = None then throw ErrInvalidUserID
      else repo en mapOrderError (\<lambda>pg. GetByID pg W orderID userID))"

definition CancelOrder ::
  "('d, 'v) order_world order_env \<Rightarrow> 'd wlib \<Rightarrow> string \<Rightarrow> string \<Rightarrow> ('d, 'v, order) osvc" where
  "CancelOrder en W orderID userID =
     bindT (GetOrder en W orderID userID) (\<lambda>ord.
     if or_Status ord \<notin> openStatus then throw ErrNotCancellable
     else
       bindT (newID en) (\<lambda>eventID.
       bindT (clock en) (\<lambda>now.
       bindT (repo en mapOrderError (\<lambda>pg. UpdateStatusToCancelling pg W ord (cancelEnvelope ord (u_String W eventID) now))) (\<lambda>_.
       ret (ord\<lparr>or_Status := StatusCancelling\<rparr>)))))"

definition ServiceListOrders ::
  "('d, 'v) order_world order_env \<Rightarrow> 'd wlib \<Rightarrow> 'd order_lib \<Rightarrow> string \<Rightarrow> string \<Rightarrow> string \<Rightarrow> string \<Rightarrow> order_status option \<Rightarrow>
   time option \<Rightarrow> time option \<Rightarrow> int \<Rightarrow> ('d, 'v, order list) osvc" where
  "ServiceListOrders en W L userID marketID cursor side status from to limit =
     (if u_Parse W userID = None then throw ErrInvalidUserID
      else if marketID \<noteq> [] \<and> parseOrderMarket marketID = None then throw ErrInvalidMarket
      else repo en mapOrderError (\<lambda>pg. ListOrders pg W (ol_Base64 L) userID marketID cursor side status from to limit))"

end
