(* ===== verification/OrderJobs.thy ===== *)
theory OrderJobs
  imports OrderService
begin

text \<open>
  The background jobs of the order service: the outbox with its publisher, the worker that
  releases funds of finished orders, and the consumers of settled trades and of cancelled
  orders. The rows an \<open>UPDATE ... RETURNING\<close> hands out come in an order PostgreSQL chooses,
  an argument \<open>arrange\<close>; \<open>locked\<close> are the rows \<open>SKIP LOCKED\<close> passes over.
\<close>

section \<open>The outbox table\<close>

definition claimable :: "(uuid \<Rightarrow> bool) \<Rightarrow> time \<Rightarrow> outbox_event \<Rightarrow> bool" where
  "claimable locked now e \<longleftrightarrow> ox_published_at e = None \<and> \<not> locked (ox_id e) \<and>
     (case ox_processing_at e of None \<Rightarrow> True | Some t \<Rightarrow> t < now)"

definition claimEvents ::
  "(outbox_event list \<Rightarrow> outbox_event list) \<Rightarrow> (uuid \<Rightarrow> bool) \<Rightarrow> int \<Rightarrow> time \<Rightarrow> 'd order_db \<Rightarrow>
   order_error + outbox_event list \<times> 'd order_db" where
  "claimEvents arrange locked limit now db =
     (let n = nat (if limit \<le> 0 then 50 else limit);
          chosen = map ox_id (take n (sort_key ox_created (filter (claimable locked now) (odb_outbox db))));
          rows = map (\<lambda>e. if ox_id e \<in> set chosen
                   then e\<lparr>ox_processing_at := Some now, ox_attempts := ox_attempts e + 1\<rparr> else e) (odb_outbox db) in
      if \<exists>e\<in>set rows. ox_attempts e \<ge> 2 ^ 31 then Inl OrderInternal
      else Inr (arrange (filter (\<lambda>e. ox_id e \<in> set chosen) rows), db\<lparr>odb_outbox := rows\<rparr>))"

definition GetUnpublishedOutboxEvents ::
  "pg_env \<Rightarrow> (outbox_event list \<Rightarrow> outbox_event list) \<Rightarrow> (uuid \<Rightarrow> bool) \<Rightarrow> int \<Rightarrow> ('d, outbox_event list) oprog" where
  "GetUnpublishedOutboxEvents en arrange locked limit =
     pool en OrderInternal (claimEvents arrange locked limit (microseconds (pe_now en 0)))"

definition updateEvents :: "(outbox_event \<Rightarrow> bool) \<Rightarrow> (outbox_event \<Rightarrow> outbox_event) \<Rightarrow> 'd order_db \<Rightarrow> order_error + nat \<times> 'd order_db" where
  "updateEvents p f db = Inr (length (filter p (odb_outbox db)), db\<lparr>odb_outbox := map (\<lambda>e. if p e then f e else e) (odb_outbox db)\<rparr>)"

definition oneRow :: "nat \<Rightarrow> ('d, unit) oprog" where
  "oneRow n = (if n = 1 then ret () else throw OrderInternal)"

definition MarkOutboxEventAsPublished :: "pg_env \<Rightarrow> uuid \<Rightarrow> ('d, unit) oprog" where
  "MarkOutboxEventAsPublished en i =
     bindT (pool en OrderInternal (updateEvents (\<lambda>e. ox_id e = i \<and> ox_published_at e = None)
       (\<lambda>e. e\<lparr>ox_published_at := Some (microseconds (pe_now en 0)), ox_processing_at := None, ox_last_error := None\<rparr>))) oneRow"

definition retryAt :: "time \<Rightarrow> int \<Rightarrow> time" where
  "retryAt now attempts = microseconds now + 1000000000 * min attempts 60"

definition RecordOutboxPublishError :: "pg_env \<Rightarrow> uuid \<Rightarrow> string \<Rightarrow> ('d, unit) oprog" where
  "RecordOutboxPublishError en i msg =
     bindT (pool en OrderInternal (updateEvents (\<lambda>e. ox_id e = i)
       (\<lambda>e. e\<lparr>ox_last_error := Some msg, ox_processing_at := Some (retryAt (pe_now en 0) (ox_attempts e))\<rparr>))) oneRow"

definition publishedBefore :: "time \<Rightarrow> outbox_event \<Rightarrow> bool" where
  "publishedBefore cutoff e \<longleftrightarrow> (case ox_published_at e of None \<Rightarrow> False | Some t \<Rightarrow> t < cutoff)"

definition PrunePublishedOutboxEvents :: "pg_env \<Rightarrow> time \<Rightarrow> int \<Rightarrow> ('d, nat) oprog" where
  "PrunePublishedOutboxEvents en olderThan limit =
     pool en OrderInternal (\<lambda>db.
       let old = take (nat (if limit \<le> 0 then 500 else limit))
             (sort_key (\<lambda>e. case ox_published_at e of None \<Rightarrow> 0 | Some t \<Rightarrow> t)
               (filter (publishedBefore (microseconds (pe_now en 0 - olderThan))) (odb_outbox db))) in
       Inr (length old, db\<lparr>odb_outbox := filter (\<lambda>e. ox_id e \<notin> ox_id ` set old) (odb_outbox db)\<rparr>))"

section \<open>The publisher\<close>

definition resolveTopic :: "string \<Rightarrow> string option" where
  "resolveTopic eventType =
     (if eventType = ''OrderCreated'' \<or> eventType = ''OrderCancelRequested'' then Some ''orders.commands'' else None)"

text \<open>A produce request: the record can be in the log although the acknowledgement is lost.\<close>

definition Publish ::
  "('d, 'v) order_world order_env \<Rightarrow> string \<Rightarrow> string \<Rightarrow> order_envelope \<Rightarrow> ('d, 'v, service_error + unit) osvc" where
  "Publish en topic key payload = act en (\<lambda>n w.
     case autocommit en ow_log (\<lambda>l w. w\<lparr>ow_log := l\<rparr>) ErrOther (\<lambda>l. Inr ((), l @ [(topic, key, payload)])) n w of
       (r, w') \<Rightarrow> (Inr r, w'))"

definition publishEvent :: "('d, 'v) order_world order_env \<Rightarrow> string \<Rightarrow> outbox_event \<Rightarrow> ('d, 'v, unit) osvc" where
  "publishEvent en errText e =
     (case resolveTopic (ox_event_type e) of
        None \<Rightarrow> bindT (tryRepo en (\<lambda>pg. RecordOutboxPublishError pg (ox_id e) errText)) (\<lambda>_. ret ())
      | Some topic \<Rightarrow>
          bindT (Publish en topic (ox_partition_key e) (ox_payload e)) (\<lambda>r.
          case r of
            Inl _ \<Rightarrow> bindT (tryRepo en (\<lambda>pg. RecordOutboxPublishError pg (ox_id e) errText)) (\<lambda>_. ret ())
          | Inr _ \<Rightarrow> bindT (tryRepo en (\<lambda>pg. MarkOutboxEventAsPublished pg (ox_id e))) (\<lambda>_. ret ())))"

fun publishEvents :: "('d, 'v) order_world order_env \<Rightarrow> string \<Rightarrow> outbox_event list \<Rightarrow> ('d, 'v, unit) osvc" where
  "publishEvents en errText [] = ret ()"
| "publishEvents en errText (e # es) = bindT (publishEvent en errText e) (\<lambda>_. publishEvents en errText es)"

definition processPendingEvents ::
  "('d, 'v) order_world order_env \<Rightarrow> (outbox_event list \<Rightarrow> outbox_event list) \<Rightarrow> (uuid \<Rightarrow> bool) \<Rightarrow> string \<Rightarrow> ('d, 'v, unit) osvc" where
  "processPendingEvents en arrange locked errText =
     bindT (tryRepo en (\<lambda>pg. GetUnpublishedOutboxEvents pg arrange locked 50)) (\<lambda>r.
     case r of Inl _ \<Rightarrow> ret () | Inr events \<Rightarrow> publishEvents en errText events)"

definition prunePublishedEvents :: "('d, 'v) order_world order_env \<Rightarrow> time \<Rightarrow> ('d, 'v, unit) osvc" where
  "prunePublishedEvents en retention =
     bindT (tryRepo en (\<lambda>pg. PrunePublishedOutboxEvents pg retention 1000)) (\<lambda>_. ret ())"

section \<open>Releasing funds\<close>

definition updateReleases :: "(wallet_release \<Rightarrow> bool) \<Rightarrow> (wallet_release \<Rightarrow> wallet_release) \<Rightarrow> 'd order_db \<Rightarrow> order_error + unit \<times> 'd order_db" where
  "updateReleases p f db = Inr ((), db\<lparr>odb_releases := map (\<lambda>r. if p r then f r else r) (odb_releases db)\<rparr>)"

definition releaseDue :: "(uuid \<Rightarrow> bool) \<Rightarrow> time \<Rightarrow> wallet_release \<Rightarrow> bool" where
  "releaseDue locked now r \<longleftrightarrow> \<not> wr_completed r \<and> \<not> locked (wr_id r) \<and>
     (case wr_processed_at r of None \<Rightarrow> True | Some t \<Rightarrow> t < now)"

definition ClaimPendingWalletReleases ::
  "pg_env \<Rightarrow> (wallet_release list \<Rightarrow> wallet_release list) \<Rightarrow> (uuid \<Rightarrow> bool) \<Rightarrow> int \<Rightarrow> ('d, wallet_release list) oprog" where
  "ClaimPendingWalletReleases en arrange locked limit =
     pool en OrderInternal (\<lambda>db.
       let now = microseconds (pe_now en 0);
           chosen = map wr_id (take (nat (if limit \<le> 0 then 50 else limit))
             (sort_key wr_created (filter (releaseDue locked now) (odb_releases db))));
           rows = map (\<lambda>r. if wr_id r \<in> set chosen
                    then r\<lparr>wr_processed_at := Some (now + 30000000000), wr_attempts := wr_attempts r + 1\<rparr> else r) (odb_releases db) in
       if \<exists>r\<in>set rows. wr_attempts r \<ge> 2 ^ 31 then Inl OrderInternal
       else Inr (arrange (filter (\<lambda>r. wr_id r \<in> set chosen) rows), db\<lparr>odb_releases := rows\<rparr>))"

definition completeRelease :: "pg_env \<Rightarrow> (wallet_release \<Rightarrow> bool) \<Rightarrow> ('d, unit) oprog" where
  "completeRelease en p = pool en OrderInternal (updateReleases (\<lambda>r. p r \<and> \<not> wr_completed r)
     (\<lambda>r. r\<lparr>wr_completed := True, wr_processed_at := Some (microseconds (pe_now en 0)), wr_last_error := None\<rparr>))"

definition MarkWalletReleaseCompleted :: "pg_env \<Rightarrow> uuid \<Rightarrow> ('d, unit) oprog" where
  "MarkWalletReleaseCompleted en i = completeRelease en (\<lambda>r. wr_id r = i)"

definition MarkWalletReleaseCompletedByOrderID :: "pg_env \<Rightarrow> 'd wlib \<Rightarrow> string \<Rightarrow> ('d, unit) oprog" where
  "MarkWalletReleaseCompletedByOrderID en W orderID =
     (case p_uuid W orderID of None \<Rightarrow> throw OrderInternal | Some i \<Rightarrow> completeRelease en (\<lambda>r. wr_order r = i))"

definition RecordWalletReleaseError :: "pg_env \<Rightarrow> uuid \<Rightarrow> string \<Rightarrow> ('d, unit) oprog" where
  "RecordWalletReleaseError en i msg = pool en OrderInternal (updateReleases (\<lambda>r. wr_id r = i)
     (\<lambda>r. r\<lparr>wr_last_error := Some msg, wr_processed_at := Some (retryAt (pe_now en 0) (wr_attempts r))\<rparr>))"

definition IsReservationAlreadyReleased :: "string \<Rightarrow> bool" where
  "IsReservationAlreadyReleased msg =
     (let m = toLower msg in
      contains m ''reservation not found'' \<or> contains m ''already released'' \<or> contains m ''reservation does not exist'' \<or>
      contains m ''already settled'' \<or> contains m ''already completed'')"

definition processRelease ::
  "('d, 'v) order_world order_env \<Rightarrow> 'v wallet_client \<Rightarrow> 'd wlib \<Rightarrow> wallet_release \<Rightarrow> ('d, 'v, unit) osvc" where
  "processRelease en wc W rel =
     bindT (tryWallet en (\<lambda>n. wc_release wc n (p_uuid_text W (wr_order rel)))) (\<lambda>r.
     bindT (case r of
        Inr _ \<Rightarrow> tryRepo en (\<lambda>pg. MarkWalletReleaseCompleted pg (wr_id rel))
      | Inl (RpcFailure _ msg) \<Rightarrow>
          if IsReservationAlreadyReleased msg then tryRepo en (\<lambda>pg. MarkWalletReleaseCompleted pg (wr_id rel))
          else tryRepo en (\<lambda>pg. RecordWalletReleaseError pg (wr_id rel) msg)) (\<lambda>_. ret ()))"

fun processReleases ::
  "('d, 'v) order_world order_env \<Rightarrow> 'v wallet_client \<Rightarrow> 'd wlib \<Rightarrow> wallet_release list \<Rightarrow> ('d, 'v, unit) osvc" where
  "processReleases en wc W [] = ret ()"
| "processReleases en wc W (r # rs) = bindT (processRelease en wc W r) (\<lambda>_. processReleases en wc W rs)"

definition ProcessPendingReleases ::
  "('d, 'v) order_world order_env \<Rightarrow> 'v wallet_client \<Rightarrow> 'd wlib \<Rightarrow> (wallet_release list \<Rightarrow> wallet_release list) \<Rightarrow>
   (uuid \<Rightarrow> bool) \<Rightarrow> ('d, 'v, unit) osvc" where
  "ProcessPendingReleases en wc W arrange locked =
     bindT (tryRepo en (\<lambda>pg. ClaimPendingWalletReleases pg arrange locked 50)) (\<lambda>r.
     case r of Inl _ \<Rightarrow> ret () | Inr rels \<Rightarrow> processReleases en wc W rels)"

section \<open>Settled trades\<close>

record settled_event =
  se_TradeID :: string
  se_BuyOrderID :: string
  se_SellOrderID :: string
  se_Quantity :: string

text \<open>The release right after a fill is a shortcut: what fails is left to the worker.\<close>

fun releaseFilled ::
  "('d, 'v) order_world order_env \<Rightarrow> 'v wallet_client \<Rightarrow> 'd wlib \<Rightarrow> string list \<Rightarrow> ('d, 'v, unit) osvc" where
  "releaseFilled en wc W [] = ret ()"
| "releaseFilled en wc W (i # is) =
     bindT (tryWallet en (\<lambda>n. wc_release wc n i)) (\<lambda>r.
     bindT (case r of Inl _ \<Rightarrow> ret (Inr ()) | Inr _ \<Rightarrow> tryRepo en (\<lambda>pg. MarkWalletReleaseCompletedByOrderID pg W i)) (\<lambda>_.
     releaseFilled en wc W is))"

text \<open>A malformed event is skipped: \<open>True\<close> means it is well formed.\<close>

definition eventWellFormed :: "('d::linordered_idom) wlib \<Rightarrow> settled_event \<Rightarrow> bool" where
  "eventWellFormed W ev \<longleftrightarrow>
     se_TradeID ev \<noteq> [] \<and> u_Parse W (se_TradeID ev) \<noteq> None \<and>
     \<not> (se_BuyOrderID ev = [] \<and> se_SellOrderID ev = []) \<and>
     (se_BuyOrderID ev \<noteq> [] \<longrightarrow> u_Parse W (se_BuyOrderID ev) \<noteq> None) \<and>
     (se_SellOrderID ev \<noteq> [] \<longrightarrow> u_Parse W (se_SellOrderID ev) \<noteq> None) \<and>
     \<not> (se_BuyOrderID ev \<noteq> [] \<and> se_SellOrderID ev \<noteq> [] \<and> se_BuyOrderID ev = se_SellOrderID ev) \<and>
     (case d_NewFromString W (se_Quantity ev) of None \<Rightarrow> False | Some q \<Rightarrow> q > 0)"

definition ProcessTradeMessage ::
  "('d::linordered_idom, 'v) order_world order_env \<Rightarrow> 'v wallet_client \<Rightarrow> 'd wlib \<Rightarrow> (string \<Rightarrow> settled_event option) \<Rightarrow>
   string \<Rightarrow> ('d, 'v, unit) osvc" where
  "ProcessTradeMessage en wc W decode value =
     (case decode value of
        None \<Rightarrow> ret ()
      | Some ev \<Rightarrow>
          if \<not> eventWellFormed W ev then ret ()
          else
            bindT (repo en (\<lambda>_. ErrOther)
              (\<lambda>pg. ApplyTradeFill pg W (se_TradeID ev) (se_BuyOrderID ev) (se_SellOrderID ev) (se_Quantity ev))) (\<lambda>filled.
            releaseFilled en wc W filled))"

section \<open>Cancelled orders\<close>

record cancelled_event =
  ce_OrderID :: string
  ce_Status :: string
  ce_Reason :: string

definition releaseNow ::
  "('d, 'v) order_world order_env \<Rightarrow> 'v wallet_client \<Rightarrow> 'd wlib \<Rightarrow> string \<Rightarrow> order option \<Rightarrow> ('d, 'v, unit) osvc" where
  "releaseNow en wc W orderID changed =
     (case changed of
        None \<Rightarrow> ret ()
      | Some _ \<Rightarrow>
          bindT (tryWallet en (\<lambda>n. wc_release wc n orderID)) (\<lambda>r.
          bindT (case r of
             Inl (RpcFailure _ msg) \<Rightarrow>
               if IsReservationAlreadyReleased msg then tryRepo en (\<lambda>pg. MarkWalletReleaseCompletedByOrderID pg W orderID)
               else ret (Inr ())
           | Inr _ \<Rightarrow> tryRepo en (\<lambda>pg. MarkWalletReleaseCompletedByOrderID pg W orderID)) (\<lambda>_. ret ())))"

definition ProcessCancelMessage ::
  "('d::linordered_idom, 'v) order_world order_env \<Rightarrow> 'v wallet_client \<Rightarrow> 'd wlib \<Rightarrow> (string \<Rightarrow> cancelled_event option) \<Rightarrow>
   string \<Rightarrow> ('d, 'v, unit) osvc" where
  "ProcessCancelMessage en wc W decode value =
     (case decode value of
        None \<Rightarrow> ret ()
      | Some ev \<Rightarrow>
          if ce_OrderID ev = [] \<or> ce_Status ev = ''USER_MISMATCH'' then ret ()
          else if ce_Status ev = ''INVALID_REQUEST'' \<and> ce_Reason ev \<notin> {''market_blocked'', ''market_reconciling''} then ret ()
          else if ce_Status ev = ''INVALID_REQUEST'' \<or> ce_Status ev = ''ALREADY_ABSENT'' then
            bindT (repo en (\<lambda>_. ErrOther) (\<lambda>pg. ReconcileAbsentOrder pg W (ce_OrderID ev))) (releaseNow en wc W (ce_OrderID ev))
          else
            bindT (repo en (\<lambda>_. ErrOther) (\<lambda>pg. MarkOrderCancelled pg W (ce_OrderID ev))) (releaseNow en wc W (ce_OrderID ev)))"

section \<open>The consumers\<close>

text \<open>
  \<open>Start\<close> of both consumers on the messages \<open>log\<close> of their partition: a reader begins at the
  committed offset of its group and hands out one message after the other. A message whose
  processing failed is not committed, and the loop goes on with the next one.
\<close>

definition commitOffset ::
  "('d, 'v) order_world order_env \<Rightarrow> (nat \<Rightarrow> ('d, 'v) order_world \<Rightarrow> ('d, 'v) order_world) \<Rightarrow> nat \<Rightarrow> ('d, 'v, unit) osvc" where
  "commitOffset en put offset = act en (autocommit en (\<lambda>w. w) (\<lambda>w' _. w') ErrOther (\<lambda>w. Inr ((), put (Suc offset) w)))"

fun orderConsumerLoop ::
  "('d, 'v) order_world order_env \<Rightarrow> (string \<Rightarrow> ('d, 'v, unit) osvc) \<Rightarrow>
   (nat \<Rightarrow> ('d, 'v) order_world \<Rightarrow> ('d, 'v) order_world) \<Rightarrow> string list \<Rightarrow> fetch list \<Rightarrow> nat \<Rightarrow> ('d, 'v, nat) osvc" where
  "orderConsumerLoop en process put log [] p = ret p"
| "orderConsumerLoop en process put log (Cancelled # fs) p = ret p"
| "orderConsumerLoop en process put log (FetchFailed # fs) p = orderConsumerLoop en process put log fs p"
| "orderConsumerLoop en process put log (Fetched # fs) p =
     (if p < length log then
        bindT (tryT (process (log ! p))) (\<lambda>r.
        bindT (case r of Inl _ \<Rightarrow> ret () | Inr _ \<Rightarrow> ignoreErr (commitOffset en put p)) (\<lambda>_.
        orderConsumerLoop en process put log fs (Suc p)))
      else ret p)"

definition StartTradeConsumer ::
  "('d::linordered_idom, 'v) order_world order_env \<Rightarrow> 'v wallet_client \<Rightarrow> 'd wlib \<Rightarrow> (string \<Rightarrow> settled_event option) \<Rightarrow>
   string list \<Rightarrow> fetch list \<Rightarrow> ('d, 'v, nat) osvc" where
  "StartTradeConsumer en wc W decode log fs =
     bindT (act en (\<lambda>n w. (Inr (ow_tradeOffset w), w))) (\<lambda>p.
     orderConsumerLoop en (ProcessTradeMessage en wc W decode) (\<lambda>c w. w\<lparr>ow_tradeOffset := c\<rparr>) log fs p)"

definition StartCancelConsumer ::
  "('d::linordered_idom, 'v) order_world order_env \<Rightarrow> 'v wallet_client \<Rightarrow> 'd wlib \<Rightarrow> (string \<Rightarrow> cancelled_event option) \<Rightarrow>
   string list \<Rightarrow> fetch list \<Rightarrow> ('d, 'v, nat) osvc" where
  "StartCancelConsumer en wc W decode log fs =
     bindT (act en (\<lambda>n w. (Inr (ow_cancelOffset w), w))) (\<lambda>p.
     orderConsumerLoop en (ProcessCancelMessage en wc W decode) (\<lambda>c w. w\<lparr>ow_cancelOffset := c\<rparr>) log fs p)"

end
