(* ===== verification/OrderRefine.thy ===== *)
theory OrderRefine
  imports OrderSpec OrderJobs
begin

text \<open>
  Every transaction of the order service's repository leaves the database as it was or takes
  one step of \<open>OrderSpec\<close>, whichever call fails and however its commit ends.
\<close>

section \<open>Statements on one order\<close>

definition reaches :: "('d::linordered_idom) set \<Rightarrow> 'd order_db \<Rightarrow> 'd order_db txs \<Rightarrow> bool" where
  "reaches T db s \<longleftrightarrow> x_base s = db \<or> order_step T db (x_base s)"

lemma reaches_idle: "idle db s \<Longrightarrow> reaches T db s"
  by (simp add: reaches_def idle_def)

lemma reaches_step: "idle d s \<Longrightarrow> order_step T db d \<Longrightarrow> reaches T db s"
  by (simp add: reaches_def idle_def)

lemma filter_unique:
  assumes "distinct (map key (xs @ x # ys))" and "\<And>y. P y \<Longrightarrow> key y = key x"
  shows "filter P (xs @ x # ys) = (if P x then [x] else [])"
proof -
  have "\<not> P y" if "y \<in> set xs \<or> y \<in> set ys" for y
    using that assms(1) assms(2)[of y] by (auto simp: image_iff)
  then have "filter P xs = []" "filter P ys = []" by (simp_all add: filter_empty_conv)
  then show ?thesis by simp
qed

lemma updateOrders_cases:
  assumes "updateOrders p f db = Inr (ch, db')" and "distinct (map od_id (odb_orders db))"
    and "\<And>r. p r \<Longrightarrow> od_id r = i" and "\<And>r r'. f r = Inr r' \<Longrightarrow> od_id r' = od_id r"
  obtains (none) "ch = []" "db' = db" "\<forall>r\<in>set (odb_orders db). \<not> p r"
  | (one) xs r r' ys where "odb_orders db = xs @ r # ys" "p r" "f r = Inr r'" "ch = [r']"
      "db' = db\<lparr>odb_orders := xs @ r' # ys\<rparr>"
proof -
  from assms(1) obtain rows n where u: "update_rows p f (odb_orders db) = Inr (rows, n)"
    and ch: "ch = filter (\<lambda>r'. \<exists>r\<in>set (odb_orders db). p r \<and> od_id r = od_id r') rows" "db' = db\<lparr>odb_orders := rows\<rparr>"
    by (auto simp: updateOrders_def split: sum.splits)
  show thesis
  proof (cases "n = 0")
    case True
    with u have r: "rows = odb_orders db" "\<forall>r\<in>set (odb_orders db). \<not> p r"
      using update_rows_zero update_rows_zero_none by fastforce+
    with ch have "ch = []" by (simp add: filter_empty_conv) 
    with r ch none show thesis by simp
  next
    case False
    from update_rows_key[OF u this assms(2,3)] obtain xs r r' ys where
      *: "odb_orders db = xs @ r # ys" "rows = xs @ r' # ys" "p r" "f r = Inr r'" by metis
    have i: "od_id r' = od_id r" "od_id r = i" using assms(3,4) * by blast+
    have "distinct (map od_id (xs @ r' # ys))" using assms(2) *(1) i(1) by simp
    moreover have "od_id y = od_id r'" if "\<exists>z\<in>set (odb_orders db). p z \<and> od_id z = od_id y" for y
      using that assms(3) i by auto
    moreover have "\<exists>z\<in>set (odb_orders db). p z \<and> od_id z = od_id r'" using * i by auto
    ultimately have "ch = [r']" unfolding ch(1) *(2) by (subst filter_unique[where key = od_id]) auto
    with one * ch(2) show thesis by blast
  qed
qed

lemma insertRelease_adds:
  assumes "insertRelease en W i n db = Inr (x, db')"
  obtains u ws where "p_uuid W i = Some u" "db' = addReleases ws db" "u \<in> wr_order ` set (odb_releases db')"
proof -
  from assms obtain u v where u: "p_uuid W i = Some u" "pe_uuid en n = Some v"
    by (auto simp: insertRelease_def split: option.splits)
  show thesis
  proof (cases "u \<in> wr_order ` set (odb_releases db)")
    case True
    with assms u have "db' = db" by (auto simp: insertRelease_def split: if_splits)
    with True u that[of u "[]"] show thesis by (simp add: addReleases_def)
  next
    case False
    with assms u that[of u] show thesis by (auto simp: insertRelease_def addReleases_def split: if_splits)
  qed
qed

section \<open>Trades\<close>

definition orderRef :: "'d wlib \<Rightarrow> string \<Rightarrow> uuid option" where
  "orderRef W s = (if s = [] then None else p_uuid W s)"

definition filledIn :: "'d wlib \<Rightarrow> uuid option \<Rightarrow> 'd order_db \<Rightarrow> string list" where
  "filledIn W i d = map (p_uuid_text W \<circ> od_id) (filter (\<lambda>r. i = Some (od_id r) \<and> od_status r = StatusFilled) (odb_orders d))"

lemma fillRow_exact:
  assumes W: "wlib_ok W T" and r: "order_row_ok T r" and q: "q \<in> T" "0 < q" "q \<le> od_remaining r"
    and f: "fillRow W now q r = Inr r'"
  shows "r' = filledBy q (microseconds now) r"
proof -
  from r have s: "od_filled r \<in> T" "od_remaining r \<in> T" "od_filled r + od_remaining r = od_quantity r"
    by (simp_all add: order_row_ok_def)
  with q have "min (od_quantity r) (od_filled r + q) = od_filled r + q" by linarith
  moreover have "max 0 (od_remaining r - q) = od_remaining r - q" using q by simp
  moreover have "p_column W (od_filled r + q) = Some x \<Longrightarrow> x = od_filled r + q"
    "p_column W (od_remaining r - q) = Some x \<Longrightarrow> x = od_remaining r - q" for x
    using wlib_okD(11,12,13)[OF W] s q(1) by blast+
  moreover have "od_remaining r - q \<le> 0 \<longleftrightarrow> od_remaining r = q" using q(3) by auto
  ultimately show ?thesis using f by (auto simp: fillRow_def filledBy_def split: option.splits)
qed

lemma hoare_applyFill:
  assumes W: "wlib_ok W T" and d: "distinct (map od_id (odb_orders d))" "\<forall>r\<in>set (odb_orders d). order_row_ok T r"
    and q: "d_NewFromString W fillQty = Some q" "q \<in> T" "0 < q"
    and t: "orderID \<noteq> [] \<Longrightarrow> \<exists>r\<in>set (odb_orders d). p_uuid W orderID = Some (od_id r) \<and> od_side r = side \<and>
      od_status r \<in> fillable \<and> q \<le> od_remaining r"
    and k: "\<And>d'. fillsSide side (orderRef W orderID) q d d' \<Longrightarrow>
      hoare (working b d') (k (filledIn W (orderRef W orderID) d')) Q E"
    and e: "\<And>e s. idle b s \<Longrightarrow> E e s"
  shows "hoare (working b d) (bindT (applyFill en W fillQty orderID side) k) Q E"
proof (cases "orderID = []")
  case True
  have "filledIn W None d = []" by (simp add: filledIn_def)
  with k[of d] True show ?thesis by (simp add: applyFill_def bindT_ret orderRef_def fillsSide_def)
next
  case False
  from t[OF False] obtain r where r: "r \<in> set (odb_orders d)" "p_uuid W orderID = Some (od_id r)" "od_side r = side"
    "od_status r \<in> fillable" "q \<le> od_remaining r" by blast
  have pq: "p_decimal W fillQty = Some q" by (rule wlib_okD(3)[OF W q(1)])
  show ?thesis
    unfolding applyFill_def bindT_simps
    using False apply simp
    apply (rule hoare_dbStmt)
     prefer 2
     apply (erule e)
    subgoal premises prems for n ch d'
    proof -
      from prems(2) pq r(2) have u: "updateOrders (\<lambda>x. od_id x = od_id r \<and> od_side x = side) (fillRow W (pe_now en n) q) d = Inr (ch, d')"
        by simp
      have id: "fillRow W (pe_now en n) q x = Inr x' \<Longrightarrow> od_id x' = od_id x" for x x'
        by (auto simp: fillRow_def split: option.splits)
      show ?thesis
      proof (rule updateOrders_cases[OF u d(1), of "od_id r"])
        fix xs x x' ys
        assume x: "odb_orders d = xs @ x # ys" "od_id x = od_id r \<and> od_side x = side" "fillRow W (pe_now en n) q x = Inr x'"
          "ch = [x']" "d' = d\<lparr>odb_orders := xs @ x' # ys\<rparr>"
        have xr: "x = r" using d(1) r(1) x(1,2) by (metis eq_key_imp_eq_value in_set_conv_decomp distinct_map inj_onD)
        have x': "x' = filledBy q (microseconds (pe_now en n)) r"
          using fillRow_exact[OF W _ q(2,3) r(5)] d(2) r(1) x(3) xr by blast
        have f: "fillsSide side (orderRef W orderID) q d d'"
          using x x' xr r False by (auto simp: fillsSide_def orderRef_def)
        have "filledIn W (orderRef W orderID) d' = (if od_status x' = StatusFilled then [p_uuid_text W (od_id x')] else [])"
        proof -
          have "distinct (map od_id (xs @ x' # ys))" using d(1) x(1) x' xr by simp
          then have "filter (\<lambda>y. od_id r = od_id y \<and> od_status y = StatusFilled) (xs @ x' # ys) =
            (if od_id r = od_id x' \<and> od_status x' = StatusFilled then [x'] else [])"
            by (rule filter_unique) (simp add: x')
          then show ?thesis using x(5) x' r(2) False by (simp add: filledIn_def orderRef_def)
        qed
        with k[OF f] x(4) show ?thesis by (simp add: bindT_simps)
      next
        assume "\<forall>x\<in>set (odb_orders d). \<not> (od_id x = od_id r \<and> od_side x = side)"
        with r show ?thesis by blast
      qed (use id in auto)
    qed
    done
qed

lemma hoare_lockOrders:
  assumes W: "wlib_ok W T" and e: "\<And>e s. idle b s \<Longrightarrow> E e s"
    and k: "\<And>locked. (\<forall>(i, r, rem)\<in>set locked. p_uuid W i = Some (od_id r) \<and> r \<in> set (odb_orders d) \<and> rem = od_remaining r) \<Longrightarrow>
      hoare (working b d) (k locked) Q E"
  shows "hoare (working b d) (bindT (lockOrders en W is) k) Q E"
  using k
proof (induction "is" arbitrary: k)
  case Nil
  then show ?case by (simp add: bindT_ret)
next
  case (Cons i js)
  show ?case
    unfolding lockOrders.simps bindT_simps lockOrder_def
    apply (rule hoare_query)
     prefer 2
     apply (erule e)
    subgoal premises prems for r
    proof -
      from prems have r: "p_uuid W i = Some (od_id r)" "r \<in> set (odb_orders d)"
        by (auto split: option.splits dest: find_in)
      show ?thesis unfolding wlib_okD(4)[OF W] option.simps bindT_simps
        by (rule Cons.IH) (rule Cons.prems, use r in auto)
    qed
    done
qed

lemma hoare_enqueueReleases:
  assumes e: "\<And>e s. idle b s \<Longrightarrow> E e s"
    and k: "\<And>ws. \<forall>i\<in>set is. \<exists>u. p_uuid W i = Some u \<and> u \<in> wr_order ` set (odb_releases (addReleases ws d)) \<Longrightarrow>
      hoare (working b (addReleases ws d)) (k ()) Q E"
  shows "hoare (working b d) (bindT (enqueueReleases en W is) k) Q E"
  using k
proof (induction "is" arbitrary: d)
  case Nil
  from Nil[of "[]"] show ?case by (simp add: bindT_ret addReleases_def)
next
  case (Cons i js)
  show ?case
    unfolding enqueueReleases.simps bindT_simps
    apply (rule hoare_dbStmt)
     prefer 2
     apply (erule e)
    subgoal premises prems for n a d'
    proof -
      from insertRelease_adds[OF prems(1)] obtain u ws where u: "p_uuid W i = Some u" "d' = addReleases ws d"
        "u \<in> wr_order ` set (odb_releases d')" by blast
      show ?thesis
      proof (rule Cons.IH)
        fix vs assume "\<forall>i\<in>set js. \<exists>u. p_uuid W i = Some u \<and> u \<in> wr_order ` set (odb_releases (addReleases vs d'))"
        then have "\<forall>j\<in>set (i # js). \<exists>u. p_uuid W j = Some u \<and> u \<in> wr_order ` set (odb_releases (addReleases (ws @ vs) d))"
          using u by (auto simp: addReleases_def)
        from Cons.prems[OF this] u(2) show "hoare (working b (addReleases vs d')) (k ()) Q E"
          by (simp add: addReleases_def)
      qed
    qed
    done
qed

definition tradeDone :: "'d wlib \<Rightarrow> string \<Rightarrow> 'd order_db \<Rightarrow> bool" where
  "tradeDone W tradeID db \<longleftrightarrow> (\<exists>t\<in>set (odb_trades db). p_uuid W tradeID = Some t)"

definition tradeApplied ::
  "('d::linordered_idom) wlib \<Rightarrow> string \<Rightarrow> string \<Rightarrow> string \<Rightarrow> string \<Rightarrow> 'd order_db \<Rightarrow> 'd order_db \<Rightarrow> bool" where
  "tradeApplied W tradeID buy sell fillQty db db' \<longleftrightarrow>
     (\<exists>t q. p_uuid W tradeID = Some t \<and> d_NewFromString W fillQty = Some q \<and>
        appliesTrade t (orderRef W buy) (orderRef W sell) q db db')"

lemma filledIn_other:
  assumes "fillsSide side j q d d'" and "i = None \<or> i \<noteq> j"
  shows "filledIn W i d' = filledIn W i d"
  using assms by (cases j) (auto simp: fillsSide_def filledIn_def)

lemma filledIn_releases [simp]:
  "filledIn W i (addReleases ws d) = filledIn W i d" "filledIn W i (d\<lparr>odb_trades := t\<rparr>) = filledIn W i d"
  by (simp_all add: filledIn_def)

lemma filledIn_mem: "r \<in> set (odb_orders d) \<Longrightarrow> i = Some (od_id r) \<Longrightarrow> od_status r = StatusFilled \<Longrightarrow>
  p_uuid_text W (od_id r) \<in> set (filledIn W i d)"
  by (auto simp: filledIn_def)

lemma checkFill_ok:
  assumes "checkFill orderID side q locked = Inr u" and "orderID \<noteq> []"
    and "\<forall>(i, r, rem)\<in>set locked. p_uuid W i = Some (od_id r) \<and> r \<in> set rs \<and> rem = od_remaining r"
  shows "\<exists>r\<in>set rs. p_uuid W orderID = Some (od_id r) \<and> od_side r = side \<and> od_status r \<in> fillable \<and> q \<le> od_remaining r"
proof -
  from assms(1,2) obtain r rem where m: "map_of locked orderID = Some (r, rem)" and "od_side r = side" "od_status r \<in> fillable" "\<not> rem < q"
    by (auto simp: checkFill_def split: option.splits if_splits)
  moreover from assms(3) map_of_SomeD[OF m] have "p_uuid W orderID = Some (od_id r)" "r \<in> set rs" "rem = od_remaining r" by auto
  ultimately show ?thesis by auto
qed

lemma fillsSide_keeps:
  assumes f: "fillsSide side i q d d'" and r: "r \<in> set (odb_orders d)" and o: "i \<noteq> Some (od_id r)"
  shows "r \<in> set (odb_orders d')"
  using assms by (cases i) (auto simp: fillsSide_def)

text \<open>The steps after the trade is recorded.\<close>

lemma hoare_fillBoth:
  assumes W: "wlib_ok W T" and ok: "orders_ok T db" and new: "t \<notin> set (odb_trades db)" and t: "p_uuid W tradeID = Some t"
    and q: "d_NewFromString W fillQty = Some q" "q \<in> T" "0 < q"
    and b: "buy \<noteq> [] \<Longrightarrow> \<exists>r\<in>set (odb_orders db). p_uuid W buy = Some (od_id r) \<and> od_side r = ''BUY'' \<and> od_status r \<in> fillable \<and> q \<le> od_remaining r"
    and s: "sell \<noteq> [] \<Longrightarrow> \<exists>r\<in>set (odb_orders db). p_uuid W sell = Some (od_id r) \<and> od_side r = ''SELL'' \<and> od_status r \<in> fillable \<and> q \<le> od_remaining r"
  shows "hoare (working db (db\<lparr>odb_trades := odb_trades db @ [t]\<rparr>))
    (bindT (applyFill en W fillQty buy ''BUY'') (\<lambda>filledBuy.
     bindT (applyFill en W fillQty sell ''SELL'') (\<lambda>filledSell.
     bindT (enqueueReleases en W (filledBuy @ filledSell)) (\<lambda>_.
     bindT (commit en OrderInternal) (\<lambda>_. ret (filledBuy @ filledSell))))))
    (\<lambda>filled s. tradeApplied W tradeID buy sell fillQty db (x_base s) \<and>
       filled = filledIn W (orderRef W buy) (x_base s) @ filledIn W (orderRef W sell) (x_base s))
    (\<lambda>e s. x_base s = db \<or> tradeApplied W tradeID buy sell fillQty db (x_base s))"
proof (rule hoare_applyFill[OF W _ _ q], goal_cases)
  case (4 d1)
  note s1 = 4
  have d: "distinct (map od_id (odb_orders (db\<lparr>odb_trades := odb_trades db @ [t]\<rparr>)))"
    "\<forall>r\<in>set (odb_orders (db\<lparr>odb_trades := odb_trades db @ [t]\<rparr>)). order_row_ok T r" using ok by (simp_all add: orders_ok_def)
  note 1 = fillsSide_ok[OF 4 wlib_places[OF W] q(2,3) d]
  have other: "orderRef W buy = None \<or> orderRef W buy \<noteq> orderRef W sell"
  proof (rule ccontr)
    assume a: "\<not> ?thesis"
    then have "buy \<noteq> []" "sell \<noteq> []" by (auto simp: orderRef_def split: if_splits)
    from b[OF this(1)] s[OF this(2)] this a obtain x y where "x \<in> set (odb_orders db)" "y \<in> set (odb_orders db)" "od_id x = od_id y"
      "od_side x = ''BUY''" "od_side y = ''SELL''" by (auto simp: orderRef_def)
    with ok show False by (auto simp: orders_ok_def distinct_map dest: inj_onD)
  qed
  show ?case
  proof (rule hoare_applyFill[OF W _ _ q], goal_cases)
    case 3
    from s[OF 3] obtain r where r: "r \<in> set (odb_orders db)" "p_uuid W sell = Some (od_id r)" "od_side r = ''SELL''"
      "od_status r \<in> fillable" "q \<le> od_remaining r" by blast
    with 3 other have "orderRef W buy \<noteq> Some (od_id r)" by (auto simp: orderRef_def)
    from fillsSide_keeps[OF 4 _ this] r show ?case by auto
  next
    case (4 d2)
    note s2 = 4
    note 2 = fillsSide_ok[OF s2 wlib_places[OF W] q(2,3)]
    from 1 2 have tr: "odb_trades d2 = odb_trades d1" by simp
    have fb: "filledIn W (orderRef W buy) d1 = filledIn W (orderRef W buy) d2"
      by (rule filledIn_other[OF s2 other, symmetric])
    show ?case
    proof (rule hoare_enqueueReleases, goal_cases)
      case (2 ws)
      let ?d = "addReleases ws d2"
      have "\<forall>r\<in>set (odb_orders d2). Some (od_id r) \<in> {orderRef W buy, orderRef W sell} \<and> od_status r = StatusFilled \<longrightarrow>
        od_id r \<in> wr_order ` set (odb_releases ?d)"
      proof (intro ballI impI)
        fix r assume r: "r \<in> set (odb_orders d2)" "Some (od_id r) \<in> {orderRef W buy, orderRef W sell} \<and> od_status r = StatusFilled"
        then have "p_uuid_text W (od_id r) \<in> set (filledIn W (orderRef W buy) d1 @ filledIn W (orderRef W sell) d2)"
          using filledIn_mem[OF r(1)] fb by auto
        from bspec[OF 2 this] show "od_id r \<in> wr_order ` set (odb_releases ?d)" by (simp add: wlib_okD(2)[OF W])
      qed
      with new q(3) s1 s2 have "appliesTrade t (orderRef W buy) (orderRef W sell) q db ?d"
        unfolding appliesTrade_def by blast
      then have a: "tradeApplied W tradeID buy sell fillQty db ?d" unfolding tradeApplied_def using t q(1) by blast
      show ?case by (intro hoare_intros) (use a fb in \<open>auto simp: idle_def\<close>)
    qed (simp add: idle_def)
  qed (use 1 in \<open>auto simp: idle_def\<close>)
qed (use ok b in \<open>auto simp: orders_ok_def idle_def\<close>)

definition tradeResult ::
  "('d::linordered_idom) wlib \<Rightarrow> string \<Rightarrow> string \<Rightarrow> string \<Rightarrow> string \<Rightarrow> 'd order_db \<Rightarrow> string list \<Rightarrow> 'd order_db txs \<Rightarrow> bool" where
  "tradeResult W tradeID buy sell fillQty db filled s \<longleftrightarrow>
     x_base s = db \<and> filled = [] \<and> tradeDone W tradeID db \<or>
     tradeApplied W tradeID buy sell fillQty db (x_base s) \<and>
     filled = filledIn W (orderRef W buy) (x_base s) @ filledIn W (orderRef W sell) (x_base s)"

definition tradeFailed ::
  "('d::linordered_idom) wlib \<Rightarrow> string \<Rightarrow> string \<Rightarrow> string \<Rightarrow> string \<Rightarrow> 'd order_db \<Rightarrow> order_error \<Rightarrow> 'd order_db txs \<Rightarrow> bool" where
  "tradeFailed W tradeID buy sell fillQty db e s \<longleftrightarrow> x_base s = db \<or> tradeApplied W tradeID buy sell fillQty db (x_base s)"

lemma tradeFailed_idle: "idle db s \<Longrightarrow> tradeFailed W tradeID buy sell fillQty db e s"
  by (simp add: tradeFailed_def idle_def)

lemma hoare_lockAndFill:
  assumes W: "wlib_ok W T" and ok: "orders_ok T db" and q: "d_NewFromString W fillQty = Some q" "q \<in> T" "0 < q"
    and t: "p_uuid W tradeID = Some t" "t \<notin> set (odb_trades db)"
  shows "hoare (working db db)
    (bindT (lockOrders en W (lockList buy sell)) (\<lambda>locked.
     bindT (lift (checkFill buy ''BUY'' q locked)) (\<lambda>_.
     bindT (lift (checkFill sell ''SELL'' q locked)) (\<lambda>_.
     bindT (lift (sameMarket buy sell locked)) (\<lambda>_.
     bindT (stmt en OrderInternal (recordTrade t)) (\<lambda>inserted.
     if \<not> inserted then ret []
     else
       bindT (applyFill en W fillQty buy ''BUY'') (\<lambda>filledBuy.
       bindT (applyFill en W fillQty sell ''SELL'') (\<lambda>filledSell.
       bindT (enqueueReleases en W (filledBuy @ filledSell)) (\<lambda>_.
       bindT (commit en OrderInternal) (\<lambda>_.
       ret (filledBuy @ filledSell)))))))))))
    (tradeResult W tradeID buy sell fillQty db) (tradeFailed W tradeID buy sell fillQty db)"
proof (rule hoare_lockOrders[OF W], goal_cases)
  case (2 locked)
  note 0 = 2
  show ?case
  proof (intro hoare_lift hoare_stmt hoare_if, goal_cases)
    case (1 _ _ _ inserted d')
    with t(2) show ?case by (simp add: recordTrade_def)
  next
    case (2 _ _ _ inserted d')
    then have d': "d' = db\<lparr>odb_trades := odb_trades db @ [t]\<rparr>" using t(2) by (simp add: recordTrade_def)
    have e: "hoare P m (tradeResult W tradeID buy sell fillQty db) (tradeFailed W tradeID buy sell fillQty db)"
      if "hoare P m (\<lambda>filled s. tradeApplied W tradeID buy sell fillQty db (x_base s) \<and>
           filled = filledIn W (orderRef W buy) (x_base s) @ filledIn W (orderRef W sell) (x_base s))
         (\<lambda>e s. x_base s = db \<or> tradeApplied W tradeID buy sell fillQty db (x_base s))" for P m
      by (rule hoare_conseq[OF that]) (simp_all add: tradeResult_def tradeFailed_def)
    show ?case unfolding d'
      by (intro e hoare_fillBoth[OF W ok t(2,1) q]) (rule checkFill_ok[OF 2(1) _ 0], assumption, rule checkFill_ok[OF 2(2) _ 0], assumption)
  qed (auto intro: tradeFailed_idle working_idle)
qed (rule tradeFailed_idle)

lemma ApplyTradeFill_hoare:
  assumes W: "wlib_ok W T" and ok: "orders_ok T db" and q: "\<And>q. d_NewFromString W fillQty = Some q \<Longrightarrow> q \<in> T"
  shows "hoare (idle db) (ApplyTradeFill en W tradeID buy sell fillQty)
    (tradeResult W tradeID buy sell fillQty db) (tradeFailed W tradeID buy sell fillQty db)"
  unfolding ApplyTradeFill_def
proof (intro hoare_option hoare_if hoare_throw hoare_begin hoare_query hoare_pair hoare_ret, goal_cases)
  case (4 qty a finished t s)
  then show ?case
    by (auto simp: tradeResult_def tradeDone_def working_def split: option.splits)
next
  case (5 qty a finished t)
  then have "p_uuid W tradeID = Some t" "t \<notin> set (odb_trades db)" by (auto split: option.splits)
  with 5 show ?case by (intro hoare_lockAndFill[OF W ok _ q]) auto
qed (use tradeFailed_idle in blast)+

section \<open>The other transactions\<close>

lemma reaches_jobs:
  "idle d s \<Longrightarrow> odb_orders d = odb_orders db \<Longrightarrow> odb_trades d = odb_trades db \<Longrightarrow>
   wr_order ` set (odb_releases db) \<subseteq> wr_order ` set (odb_releases d) \<Longrightarrow> reaches T db s"
  by (rule reaches_step, assumption) (rule order_step.jobs)

lemma insertOutbox_adds:
  assumes "insertOutbox en W a ty e k n db = Inr (x, db')"
  obtains es where "db' = db\<lparr>odb_outbox := odb_outbox db @ es\<rparr>"
  using assms by (auto simp: insertOutbox_def split: option.splits if_splits)

text \<open>The order a request inserts: open, nothing filled, its quantity exact in the columns.\<close>

lemma insertOrder_row:
  assumes W: "wlib_ok W T" and q: "qty \<in> T" "0 < qty" and i: "insertOrder W (newOrder W p m u now qty price) db = Inr (x, db')"
  obtains r where "db' = db\<lparr>odb_orders := odb_orders db @ [r]\<rparr>" "od_id r \<notin> od_id ` set (odb_orders db)"
    "order_row_ok T r" "od_status r = StatusOpen"
proof -
  have quantity: "toColumn W (d_StringFixed W qty 10) = p_column W qty"
    using wlib_okD(3)[OF W wlib_okD(5)[OF W q(1)]] by (simp add: toColumn_def)
  have filled: "toColumn W ''0.0000000000'' = p_column W 0"
    using wlib_okD(16)[OF W] by (simp add: toColumn_def)
  have exact: "p_column W y = Some z \<Longrightarrow> y \<in> T \<Longrightarrow> z = y" for y z using wlib_okD(13)[OF W] by blast
  note zero = wlib_okD(10)[OF W]
  from i obtain i u' price' quantity' filled' remaining' where
    "p_column W qty = Some quantity'" "p_column W 0 = Some filled'" "p_column W qty = Some remaining'"
    and new: "i \<notin> od_id ` set (odb_orders db)"
    and db': "db' = db\<lparr>odb_orders := odb_orders db @
      [\<lparr>od_id = i, od_user = u', od_market = m, od_side = cp_Side p, od_type = cp_OrderType p,
        od_price = price', od_quantity = quantity', od_filled = filled', od_remaining = remaining',
        od_status = StatusOpen, od_key = (if cp_IdempotencyKey p = [] then None else Some (cp_IdempotencyKey p)),
        od_created = microseconds now, od_updated = microseconds now\<rparr>]\<rparr>"
    by (auto simp: insertOrder_def newOrder_def quantity filled split: option.splits if_splits)
  with exact q zero have "quantity' = qty" "filled' = 0" "remaining' = qty" by blast+
  then show thesis using q zero by (intro that[OF db']) (simp_all add: new order_row_ok_def)
qed

lemma RepoCreateOrder_reaches:
  assumes W: "wlib_ok W T" and q: "qty \<in> T" "0 < qty"
  shows "hoare (idle db) (RepoCreateOrder en W (newOrder W p m u now qty price) e) (\<lambda>_. reaches T db) (\<lambda>_. reaches T db)"
  unfolding RepoCreateOrder_def
proof (rule hoare_begin, rule hoare_stmt, goal_cases)
  case (1 x d)
  from insertOrder_row[OF W q 1] obtain r where r: "d = db\<lparr>odb_orders := odb_orders db @ [r]\<rparr>"
    "od_id r \<notin> od_id ` set (odb_orders db)" "order_row_ok T r" "od_status r = StatusOpen" by blast
  have new: "reaches T db s" if "idle (db\<lparr>odb_orders := odb_orders db @ [r], odb_outbox := odb_outbox db @ es\<rparr>) s" for es s
    using reaches_step[OF that order_step.create[OF r(2-4)]] .
  show ?case
  proof (cases e)
    case None
    have "d = db\<lparr>odb_orders := odb_orders db @ [r], odb_outbox := odb_outbox db @ []\<rparr>" using r(1) by simp
    with None new[of "[]"] show ?thesis
      by (simp add: bindT_ret) (intro hoare_intros; simp add: reaches_idle)
  next
    case (Some en)
    then show ?thesis
      apply simp
      apply (rule hoare_dbStmt)
       apply (erule insertOutbox_adds)
       apply (intro hoare_intros)
      using new r(1) by (auto intro: reaches_idle)
  qed
qed (auto intro: reaches_idle)

lemma UpdateStatusToCancelling_reaches:
  assumes ok: "orders_ok T db"
  shows "hoare (idle db) (UpdateStatusToCancelling en W ord e) (\<lambda>_. reaches T db) (\<lambda>_. reaches T db)"
  unfolding UpdateStatusToCancelling_def
proof (rule hoare_begin, rule hoare_dbStmt, goal_cases)
  case (1 n ch d)
  let ?f = "\<lambda>r. Inr (r\<lparr>od_status := StatusCancelling, od_updated := microseconds (pe_now en n)\<rparr>)"
  from 1 obtain i where i: "p_uuid W (or_ID ord) = Some i" and
    u: "updateOrders (\<lambda>r. orderOf W (or_ID ord) (or_UserID ord) r \<and> od_status r \<in> openStatus) ?f db = Inr (ch, d)"
    by (auto split: if_splits)
  show ?case
  proof (rule updateOrders_cases[OF u orders_okD(1)[OF ok], of i], goal_cases)
    case 3
    then show ?case by (auto simp: hoare_def bindT_def tryT_def query_def stmt_def throw_def working_def reaches_def split: sum.splits)
  next
    case (4 xs r r' ys)
    then have s: "order_step T db (db\<lparr>odb_orders := xs @ r' # ys, odb_outbox := odb_outbox db @ es\<rparr>)" for es
      using order_step.cancelling[OF 4(1)] by blast
    show ?case using 4(4)
      apply simp
      apply (rule hoare_dbStmt)
       apply (erule insertOutbox_adds)
       apply (intro hoare_intros)
      using s 4(5) by (auto intro: reaches_idle reaches_step)
  qed (use i in \<open>auto simp: orderOf_def\<close>)
qed (auto intro: reaches_idle)

lemma finishOrder_reaches:
  assumes ok: "orders_ok T db"
    and f: "\<And>r r'. r \<in> set (odb_orders db) \<Longrightarrow> od_status r \<in> liveStatus \<Longrightarrow> f r = Inr r' \<Longrightarrow> r' = r\<lparr>od_status := StatusCancelled\<rparr>"
    and fi: "\<And>r r'. f r = Inr r' \<Longrightarrow> od_id r' = od_id r"
  shows "hoare (idle db) (finishOrder en W orderID f) (\<lambda>_. reaches T db) (\<lambda>_. reaches T db)"
  unfolding finishOrder_def
proof (rule hoare_begin, rule hoare_dbStmt, goal_cases)
  case (1 n ch d)
  let ?f = "\<lambda>r. map_sum id (od_updated_update (\<lambda>_. microseconds (pe_now en n))) (f r)"
  from 1 obtain i where i: "p_uuid W orderID = Some i" and
    u: "updateOrders (\<lambda>r. od_id r = i \<and> od_status r \<in> liveStatus) ?f db = Inr (ch, d)"
    by (auto split: option.splits)
  show ?case
  proof (rule updateOrders_cases[OF u orders_okD(1)[OF ok], of i], goal_cases)
    case (2 r r')
    with fi show ?case by (cases "f r") auto
  next
    case 3
    then show ?case by (auto intro!: hoare_intros simp: reaches_def working_def)
  next
    case (4 xs r r' ys)
    from 4(3) obtain r1 where r1: "f r = Inr r1" "r' = r1\<lparr>od_updated := microseconds (pe_now en n)\<rparr>" by (cases "f r") auto
    from f[OF _ _ r1(1)] 4(1,2) r1(2) have r': "r' = r\<lparr>od_status := StatusCancelled, od_updated := microseconds (pe_now en n)\<rparr>" by simp
    have s: "order_step T db (addReleases ws (db\<lparr>odb_orders := xs @ r' # ys\<rparr>))"
      if "i \<in> wr_order ` set (odb_releases (addReleases ws d))" for ws
      unfolding r' by (rule order_step.finish[OF 4(1)]) (use 4(2,5) that in auto)
    show ?case using 4(4)
      apply simp
      apply (rule hoare_dbStmt)
       apply (erule insertRelease_adds)
       apply (intro hoare_intros)
      using s 4(5) i by (auto intro: reaches_idle reaches_step)
  qed simp
qed (auto intro: reaches_idle)

lemma MarkOrderCancelled_reaches:
  "orders_ok T db \<Longrightarrow> hoare (idle db) (MarkOrderCancelled en W orderID) (\<lambda>_. reaches T db) (\<lambda>_. reaches T db)"
  unfolding MarkOrderCancelled_def by (rule finishOrder_reaches) auto

text \<open>An order still on its way has something left: the reconciliation finds it cancelled, never filled.\<close>

lemma ReconcileAbsentOrder_reaches:
  assumes ok: "orders_ok T db"
  shows "hoare (idle db) (ReconcileAbsentOrder en W orderID) (\<lambda>_. reaches T db) (\<lambda>_. reaches T db)"
  unfolding ReconcileAbsentOrder_def
proof (rule finishOrder_reaches[OF ok], goal_cases)
  case (1 r r')
  with ok have "order_row_ok T r" by (simp add: orders_ok_def)
  with 1(2) have "\<not> od_quantity r \<le> od_filled r" by (auto simp: order_row_ok_def liveStatus_def)
  with 1(3) show ?case by simp
qed (auto split: if_splits)

lemma EnqueueWalletRelease_reaches:
  "hoare (idle db) (EnqueueWalletRelease en W orderID) (\<lambda>_. reaches T db) (\<lambda>_. reaches T db)"
  unfolding EnqueueWalletRelease_def
proof (rule hoare_last, rule hoare_pool)
  fix a d assume i: "insertRelease en W orderID 0 db = Inr (a, d)"
  have r: "reaches T db s" if "idle d s" for s
    using insertRelease_adds[OF i] reaches_jobs[OF that] by (metis addReleases_simps Un_upper1 image_mono set_append)
  then show "hoare (idle d) (ret a) (\<lambda>_. reaches T db) (\<lambda>_. reaches T db)" by (rule hoare_ret)
  show "reaches T db s" if "idle d s" for s by (rule r[OF that])
qed (simp add: reaches_idle)

end
