(* ===== verification/OrderProcess.thy ===== *)
theory OrderProcess
  imports Steady OrderRefine
begin

text \<open>
  The requests and jobs of the order service as processes: between two of their actions the
  others, the matching engine's events and the wallet included, may act.
\<close>

section \<open>What an action may do to the orders\<close>

definition orderMove :: "('d::linordered_idom) set \<Rightarrow> ('d, 'v) order_world \<Rightarrow> ('d, 'v) order_world \<Rightarrow> bool" where
  "orderMove T w w' \<longleftrightarrow> order_step T (ow_db w) (ow_db w')"

definition ordersSound :: "('d::linordered_idom) set \<Rightarrow> ('d, 'v) order_world \<Rightarrow> bool" where
  "ordersSound T w \<longleftrightarrow> places_closed T \<and> orders_ok T (ow_db w)"

lemma order_step_same: "order_step T db db"
  by (rule order_step.jobs) auto

interpretation orders: guarantee "orderMove T" "ordersSound T" for T
  by unfold_locales (auto simp: orderMove_def ordersSound_def order_step_same intro: order_step_ok)

lemma follows_orders:
  assumes "follows (orderMove T) w w'" and "ordersSound T w"
  shows "(\<forall>x\<in>set (odb_orders (ow_db w)). \<exists>x'\<in>set (odb_orders (ow_db w')). later_order x x') \<and>
    set (odb_trades (ow_db w)) \<subseteq> set (odb_trades (ow_db w')) \<and> ordersSound T w'"
  using assms(1) unfolding follows_def
proof (induction rule: rtranclp_induct)
  case base
  show ?case using assms(2) later_order_refl by blast
next
  case (step u v)
  from step.hyps(2) have s: "order_step T (ow_db u) (ow_db v)" by (simp add: orderMove_def)
  from step.IH have u: "ordersSound T u" by blast
  have "\<exists>z\<in>set (odb_orders (ow_db v)). later_order x z" if x: "x \<in> set (odb_orders (ow_db w))" for x
  proof -
    from step.IH x obtain y where y: "y \<in> set (odb_orders (ow_db u))" "later_order x y" by blast
    from order_step_later[OF _ _ s y(1)] u y(2) show ?thesis
      unfolding ordersSound_def using later_order_trans by metis
  qed
  moreover have "ordersSound T v" by (rule orders.keeps[OF u step.hyps(2)])
  ultimately show ?case using step.IH order_step_trades[OF s] by blast
qed

lemma reaches_iff: "reaches T db s \<longleftrightarrow> order_step T db (x_base s)"
  unfolding reaches_def using order_step_same by metis

lemma reaches_runTx:
  assumes "hoare (idle db) m (\<lambda>_. reaches T db) (\<lambda>_. reaches T db)" and "runTx m db = (r, db')"
  shows "order_step T db db'"
  using hoare_runTx[OF assms] by (auto simp: reaches_iff split: sum.splits)

lemma steady_repo:
  assumes "obeys (orderMove T) en"
    and "\<And>pg db. orders_ok T db \<Longrightarrow> hoare (idle db) (m pg) (\<lambda>_. reaches T db) (\<lambda>_. reaches T db)"
  shows "steady (orderMove T) (ordersSound T) (repo en h m)" "steady (orderMove T) (ordersSound T) (tryRepo en m)"
  unfolding repo_def tryRepo_def
  by (rule orders.steady_act[OF assms(1)];
      auto simp: orderMove_def ordersSound_def split: prod.splits dest: reaches_runTx[OF assms(2)])+

lemma steady_beside:
  assumes "obeys (orderMove T) en"
  shows "steady (orderMove T) (ordersSound T) (tryWallet en f)" "steady (orderMove T) (ordersSound T) (redisGet en key)"
    "steady (orderMove T) (ordersSound T) (newID en)" "steady (orderMove T) (ordersSound T) (Publish en topic key payload)"
  unfolding tryWallet_def redisGet_def newID_def Publish_def
  by (rule orders.steady_act[OF assms];
      auto simp: orderMove_def order_step_same autocommit_def split: prod.splits if_splits commit_outcome.splits)+

section \<open>Requests\<close>

lemma hoare_reads:
  "hoare (idle db) (poolQuery en err f) (\<lambda>_. reaches T db) (\<lambda>_. reaches T db)"
  by (auto simp: hoare_def poolQuery_def idle_def reaches_def split: sum.splits)

lemma IsHalted_steady: "obeys (orderMove T) en \<Longrightarrow> steady (orderMove T) (ordersSound T) (IsHalted en m)"
  unfolding IsHalted_def
  by (intro steady_intros steady_beside; assumption?)
     (auto split: redis_reply.split intro!: steady_intros steady_beside)

lemma ValidatePriceBand_steady:
  "obeys (orderMove T) en \<Longrightarrow> steady (orderMove T) (ordersSound T) (ValidatePriceBand en W L cfg m side ty price user)"
  unfolding ValidatePriceBand_def validateMMOrder_def validateRetailOrder_def Let_def
  by (intro steady_intros steady_beside; assumption?)
     (auto split: redis_reply.split option.split intro!: steady_intros steady_beside orders.steady_clock)

lemma steady_checked: "(\<And>a. r = Inr a \<Longrightarrow> steady G I (f a)) \<Longrightarrow> steady G I (bindT (lift r) f)"
  by (cases r) (simp_all add: lift_def bindT_ret bindT_throw steady_throw)

lemma checkAmounts_exact:
  assumes W: "wlib_ok W T" and c: "checkAmounts W baseAsset p = Inr (qty, price)"
  shows "qty \<in> T \<and> 0 < qty"
proof -
  from c obtain k where k: "getAssetDecimals baseAsset = Inr k" "d_Truncate W qty k = qty" and "0 < qty"
    by (auto simp: checkAmounts_def split: option.splits if_splits sum.splits)
  moreover from k(1) have "k \<le> 10" by (auto simp: getAssetDecimals_def Let_def split: if_splits)
  ultimately show ?thesis using wlib_okD(7)[OF W, of k qty] by simp
qed

lemma hoare_lookup: "hoare (idle db) (FindByIdempotencyKey pg W key) (\<lambda>_. reaches T db) (\<lambda>_. reaches T db)"
  "hoare (idle db) (GetByID pg W i u) (\<lambda>_. reaches T db) (\<lambda>_. reaches T db)"
  unfolding FindByIdempotencyKey_def GetByID_def by (rule hoare_reads)+

lemma checkKey_steady:
  assumes ob: "obeys (orderMove T) en"
  shows "steady (orderMove T) (ordersSound T) (checkKey en W p)"
  unfolding checkKey_def
  by (intro steady_intros steady_repo[OF ob] hoare_lookup)

lemma compensate_steady:
  assumes ob: "obeys (orderMove T) en"
  shows "steady (orderMove T) (ordersSound T) (compensate en wc W i)"
  unfolding compensate_def
  by (intro steady_intros steady_beside[OF ob] steady_repo[OF ob] EnqueueWalletRelease_reaches)

lemma placeOrder_steady:
  assumes ob: "obeys (orderMove T) en" and W: "wlib_ok W T" and q: "qty \<in> T \<and> 0 < qty"
  shows "steady (orderMove T) (ordersSound T) (placeOrder en wc W L cfg p base quote qty price)"
  unfolding placeOrder_def Let_def persistOrder_def
  by (intro steady_intros steady_beside[OF ob] orders.steady_clock[OF ob] steady_repo[OF ob] compensate_steady[OF ob] hoare_lookup
      RepoCreateOrder_reaches[OF W] conjunct1[OF q] conjunct2[OF q])
    (auto split: rpc_failure.split option.split intro!: steady_intros)

lemma CreateOrder_steady:
  assumes ob: "obeys (orderMove T) en" and W: "wlib_ok W T"
  shows "steady (orderMove T) (ordersSound T) (CreateOrder en wc W L cfg p)"
  unfolding CreateOrder_def Let_def
  by (intro steady_checked steady_intros IsHalted_steady[OF ob] checkKey_steady[OF ob] ValidatePriceBand_steady[OF ob]
      placeOrder_steady[OF ob W])
    (auto dest: checkAmounts_exact[OF W])

lemma GetOrder_steady:
  assumes ob: "obeys (orderMove T) en"
  shows "steady (orderMove T) (ordersSound T) (GetOrder en W i u)"
  unfolding GetOrder_def by (intro steady_intros steady_repo[OF ob] hoare_lookup)

lemma CancelOrder_steady:
  assumes ob: "obeys (orderMove T) en"
  shows "steady (orderMove T) (ordersSound T) (CancelOrder en W i u)"
  unfolding CancelOrder_def
  by (intro steady_intros GetOrder_steady[OF ob] steady_beside[OF ob] orders.steady_clock[OF ob] steady_repo[OF ob]
      UpdateStatusToCancelling_reaches)

lemma ServiceListOrders_steady:
  assumes ob: "obeys (orderMove T) en"
  shows "steady (orderMove T) (ordersSound T) (ServiceListOrders en W L u m c s st f t l)"
proof -
  have "hoare (idle db) (ListOrders pg W b u m c s st f t l) (\<lambda>_. reaches T db) (\<lambda>_. reaches T db)" for pg db b
    unfolding ListOrders_def
    by (intro hoare_lift hoare_reads) (simp add: reaches_idle)
  then show ?thesis unfolding ServiceListOrders_def by (intro steady_intros steady_repo[OF ob])
qed

section \<open>Jobs\<close>

lemma pool_reaches:
  assumes "\<And>a d. f db = Inr (a, d) \<Longrightarrow> odb_orders d = odb_orders db \<and> odb_trades d = odb_trades db \<and>
    map wr_order (odb_releases d) = map wr_order (odb_releases db)"
  shows "hoare (idle db) (pool en err f) (\<lambda>_. reaches T db) (\<lambda>_. reaches T db)"
proof (rule hoare_last, rule hoare_pool)
  fix a d assume f: "f db = Inr (a, d)"
  have r: "reaches T db s" if "idle d s" for s
    by (rule reaches_jobs[OF that]) (use assms[OF f] in \<open>simp_all flip: set_map\<close>)
  then show "hoare (idle d) (ret a) (\<lambda>_. reaches T db) (\<lambda>_. reaches T db)" by (rule hoare_ret)
  show "reaches T db s" if "idle d s" for s by (rule r[OF that])
qed (simp add: reaches_idle)

lemma guarded_Inr: "(if c then Inl e else Inr (a, d)) = Inr (x, y) \<Longrightarrow> y = d"
  by (simp split: if_splits)

lemma outbox_reaches:
  "hoare (idle db) (GetUnpublishedOutboxEvents pg arrange locked limit) (\<lambda>_. reaches T db) (\<lambda>_. reaches T db)"
  "hoare (idle db) (PrunePublishedOutboxEvents pg t limit) (\<lambda>_. reaches T db) (\<lambda>_. reaches T db)"
proof -
  show "hoare (idle db) (GetUnpublishedOutboxEvents pg arrange locked limit) (\<lambda>_. reaches T db) (\<lambda>_. reaches T db)"
    unfolding GetUnpublishedOutboxEvents_def claimEvents_def Let_def
    by (rule pool_reaches, drule guarded_Inr, hypsubst) simp
  show "hoare (idle db) (PrunePublishedOutboxEvents pg t limit) (\<lambda>_. reaches T db) (\<lambda>_. reaches T db)"
    unfolding PrunePublishedOutboxEvents_def Let_def
    by (rule pool_reaches, drule sum.inject(2)[THEN iffD1], erule Pair_inject, hypsubst) simp
qed

lemma updateEvents_reaches:
  "hoare (idle db) (bindT (pool pg OrderInternal (updateEvents p f)) oneRow) (\<lambda>_. reaches T db) (\<lambda>_. reaches T db)"
proof (rule hoare_bind[OF pool_reaches])
  show "hoare (reaches T db) (oneRow n) (\<lambda>_. reaches T db) (\<lambda>_. reaches T db)" for n
    unfolding oneRow_def by (intro hoare_intros)
qed (simp add: updateEvents_def)

lemma events_reaches:
  "hoare (idle db) (MarkOutboxEventAsPublished pg i) (\<lambda>_. reaches T db) (\<lambda>_. reaches T db)"
  "hoare (idle db) (RecordOutboxPublishError pg i msg) (\<lambda>_. reaches T db) (\<lambda>_. reaches T db)"
  unfolding MarkOutboxEventAsPublished_def RecordOutboxPublishError_def by (rule updateEvents_reaches)+

lemma mapped_releases:
  assumes "\<And>r. wr_order (f r) = wr_order r"
  shows "odb_orders (db\<lparr>odb_releases := map (\<lambda>r. if p r then f r else r) (odb_releases db)\<rparr>) = odb_orders db \<and>
    odb_trades (db\<lparr>odb_releases := map (\<lambda>r. if p r then f r else r) (odb_releases db)\<rparr>) = odb_trades db \<and>
    map wr_order (odb_releases (db\<lparr>odb_releases := map (\<lambda>r. if p r then f r else r) (odb_releases db)\<rparr>)) =
      map wr_order (odb_releases db)"
  using assms by simp

lemma updateReleases_reaches:
  assumes "\<And>r. wr_order (f r) = wr_order r"
  shows "hoare (idle db) (pool pg err (updateReleases p f)) (\<lambda>_. reaches T db) (\<lambda>_. reaches T db)"
  by (rule pool_reaches) (auto simp: updateReleases_def assms intro!: mapped_releases)

lemma releases_reaches:
  "hoare (idle db) (ClaimPendingWalletReleases pg arrange locked limit) (\<lambda>_. reaches T db) (\<lambda>_. reaches T db)"
  "hoare (idle db) (MarkWalletReleaseCompleted pg i) (\<lambda>_. reaches T db) (\<lambda>_. reaches T db)"
  "hoare (idle db) (RecordWalletReleaseError pg i msg) (\<lambda>_. reaches T db) (\<lambda>_. reaches T db)"
proof -
  show "hoare (idle db) (ClaimPendingWalletReleases pg arrange locked limit) (\<lambda>_. reaches T db) (\<lambda>_. reaches T db)"
    unfolding ClaimPendingWalletReleases_def Let_def
    by (rule pool_reaches, drule guarded_Inr, hypsubst, rule mapped_releases) simp
  show "hoare (idle db) (MarkWalletReleaseCompleted pg i) (\<lambda>_. reaches T db) (\<lambda>_. reaches T db)"
    "hoare (idle db) (RecordWalletReleaseError pg i msg) (\<lambda>_. reaches T db) (\<lambda>_. reaches T db)"
    unfolding MarkWalletReleaseCompleted_def RecordWalletReleaseError_def completeRelease_def
    by (rule updateReleases_reaches; simp)+
qed

lemma completeByOrder_reaches:
  "hoare (idle db) (MarkWalletReleaseCompletedByOrderID pg W i) (\<lambda>_. reaches T db) (\<lambda>_. reaches T db)"
  unfolding MarkWalletReleaseCompletedByOrderID_def completeRelease_def
  by (intro hoare_option hoare_throw reaches_idle pool_reaches) (auto simp: updateReleases_def)

lemma publisher_steady:
  assumes ob: "obeys (orderMove T) en"
  shows "steady (orderMove T) (ordersSound T) (processPendingEvents en arrange locked errText)"
    "steady (orderMove T) (ordersSound T) (prunePublishedEvents en retention)"
proof -
  have 1: "steady (orderMove T) (ordersSound T) (publishEvent en errText e)" for e
    unfolding publishEvent_def by (intro steady_intros steady_beside[OF ob] steady_repo[OF ob] events_reaches)
  have "steady (orderMove T) (ordersSound T) (publishEvents en errText es)" for es
    by (induction es) (auto intro!: steady_intros 1)
  then show "steady (orderMove T) (ordersSound T) (processPendingEvents en arrange locked errText)"
    unfolding processPendingEvents_def by (intro steady_intros steady_repo[OF ob] outbox_reaches)
  show "steady (orderMove T) (ordersSound T) (prunePublishedEvents en retention)"
    unfolding prunePublishedEvents_def by (intro steady_intros steady_repo[OF ob] outbox_reaches)
qed

lemma releaseWorker_steady:
  assumes ob: "obeys (orderMove T) en"
  shows "steady (orderMove T) (ordersSound T) (ProcessPendingReleases en wc W arrange locked)"
proof -
  have 1: "steady (orderMove T) (ordersSound T) (processRelease en wc W r)" for r
    unfolding processRelease_def
    by (intro steady_intros steady_beside[OF ob] steady_repo[OF ob] releases_reaches)
      (auto split: rpc_failure.split intro!: steady_intros steady_repo[OF ob] releases_reaches)
  have "steady (orderMove T) (ordersSound T) (processReleases en wc W rs)" for rs
    by (induction rs) (auto intro!: steady_intros 1)
  then show ?thesis unfolding ProcessPendingReleases_def by (intro steady_intros steady_repo[OF ob] releases_reaches)
qed

lemma ApplyTradeFill_reaches:
  assumes W: "wlib_ok W T" and ok: "orders_ok T db" and q: "\<And>q. d_NewFromString W fillQty = Some q \<Longrightarrow> q \<in> T"
  shows "hoare (idle db) (ApplyTradeFill pg W tr buy sell fillQty) (\<lambda>_. reaches T db) (\<lambda>_. reaches T db)"
  by (rule hoare_conseq[OF ApplyTradeFill_hoare[OF W ok q]])
    (auto simp: tradeResult_def tradeFailed_def tradeApplied_def reaches_def intro: order_step.fill q)

lemma ProcessTradeMessage_steady:
  assumes ob: "obeys (orderMove T) en" and W: "wlib_ok W T"
    and q: "\<And>ev q. decode value = Some ev \<Longrightarrow> d_NewFromString W (se_Quantity ev) = Some q \<Longrightarrow> q \<in> T"
  shows "steady (orderMove T) (ordersSound T) (ProcessTradeMessage en wc W decode value)"
proof -
  have "steady (orderMove T) (ordersSound T) (releaseFilled en wc W is)" for "is"
    by (induction "is") (auto intro!: steady_intros steady_beside[OF ob] steady_repo[OF ob] completeByOrder_reaches split: sum.split)
  then show ?thesis
    unfolding ProcessTradeMessage_def
    by (intro steady_intros steady_repo[OF ob] ApplyTradeFill_reaches[OF W] q)
qed

lemma ProcessCancelMessage_steady:
  assumes ob: "obeys (orderMove T) en"
  shows "steady (orderMove T) (ordersSound T) (ProcessCancelMessage en wc W decode value)"
proof -
  have "steady (orderMove T) (ordersSound T) (releaseNow en wc W i ch)" for i ch
    unfolding releaseNow_def
    by (intro steady_intros steady_beside[OF ob])
      (auto split: rpc_failure.split sum.split intro!: steady_intros steady_repo[OF ob] completeByOrder_reaches)
  then show ?thesis
    unfolding ProcessCancelMessage_def
    by (intro steady_intros steady_repo[OF ob] ReconcileAbsentOrder_reaches MarkOrderCancelled_reaches)
qed

lemma consumerLoop_steady:
  assumes ob: "obeys (orderMove T) en" and p: "\<And>v. steady (orderMove T) (ordersSound T) (process v)"
    and put: "\<And>c w. ow_db (put c w) = ow_db w"
  shows "steady (orderMove T) (ordersSound T) (orderConsumerLoop en process put log fs k)"
proof -
  have c: "steady (orderMove T) (ordersSound T) (commitOffset en put n)" for n
    unfolding commitOffset_def
    by (rule orders.steady_act[OF ob])
      (auto simp: autocommit_def orderMove_def put order_step_same split: if_splits commit_outcome.splits)
  show ?thesis
  proof (induction fs arbitrary: k)
    case (Cons f fs)
    show ?case
      by (cases f) (auto intro!: steady_intros p c Cons.IH split: sum.split)
  qed (simp add: steady_ret)
qed

lemma consumers_steady:
  assumes ob: "obeys (orderMove T) en" and W: "wlib_ok W T"
    and q: "\<And>v ev q. decode v = Some ev \<Longrightarrow> d_NewFromString W (se_Quantity ev) = Some q \<Longrightarrow> q \<in> T"
  shows "steady (orderMove T) (ordersSound T) (StartTradeConsumer en wc W decode log fs)"
    "steady (orderMove T) (ordersSound T) (StartCancelConsumer en wc W decode' log fs)"
  unfolding StartTradeConsumer_def StartCancelConsumer_def
  by (intro steady_bind orders.steady_observe[OF ob] consumerLoop_steady[OF ob] ProcessTradeMessage_steady[OF ob W q]
      ProcessCancelMessage_steady[OF ob]; simp)+

section \<open>The service\<close>

datatype order_call =
    PlaceCall create_params
  | CancelCall string string
  | GetCall string string
  | ListCall string string string string "order_status option" "time option" "time option" int
  | TradeEvent string
  | CancelEvent string
  | ConsumeTrades "string list" "fetch list"
  | ConsumeCancels "string list" "fetch list"
  | PublishBatch "outbox_event list \<Rightarrow> outbox_event list" "uuid \<Rightarrow> bool"
  | PruneBatch time
  | ReleaseBatch "wallet_release list \<Rightarrow> wallet_release list" "uuid \<Rightarrow> bool"

text \<open>The outside code of the service in one record.\<close>

record ('d, 'v) order_setup =
  su_wallet :: "'v wallet_client"
  su_W :: "'d wlib"
  su_L :: "'d order_lib"
  su_cfg :: "'d order_config"
  su_trade :: "string \<Rightarrow> settled_event option"
  su_cancel :: "string \<Rightarrow> cancelled_event option"

definition quiet :: "('d, 'v, 'a) osvc \<Rightarrow> ('d, 'v, unit) osvc" where
  "quiet m = bindT m (\<lambda>_. ret ())"

fun serveOrder ::
  "('d::linordered_idom, 'v) order_world order_env \<Rightarrow> ('d, 'v) order_setup \<Rightarrow> order_call \<Rightarrow> ('d, 'v, unit) osvc" where
  "serveOrder en su (PlaceCall p) = quiet (CreateOrder en (su_wallet su) (su_W su) (su_L su) (su_cfg su) p)"
| "serveOrder en su (CancelCall i u) = quiet (CancelOrder en (su_W su) i u)"
| "serveOrder en su (GetCall i u) = quiet (GetOrder en (su_W su) i u)"
| "serveOrder en su (ListCall u m c s st f t l) = quiet (ServiceListOrders en (su_W su) (su_L su) u m c s st f t l)"
| "serveOrder en su (TradeEvent v) = ProcessTradeMessage en (su_wallet su) (su_W su) (su_trade su) v"
| "serveOrder en su (CancelEvent v) = ProcessCancelMessage en (su_wallet su) (su_W su) (su_cancel su) v"
| "serveOrder en su (ConsumeTrades log fs) = quiet (StartTradeConsumer en (su_wallet su) (su_W su) (su_trade su) log fs)"
| "serveOrder en su (ConsumeCancels log fs) = quiet (StartCancelConsumer en (su_wallet su) (su_W su) (su_cancel su) log fs)"
| "serveOrder en su (PublishBatch arrange locked) = processPendingEvents en arrange locked ''publish failed''"
| "serveOrder en su (PruneBatch t) = prunePublishedEvents en t"
| "serveOrder en su (ReleaseBatch arrange locked) = ProcessPendingReleases en (su_wallet su) (su_W su) arrange locked"

text \<open>Trades come from the engine with quantities a column stores exactly.\<close>

definition exactTrades :: "('d, 'v) order_setup \<Rightarrow> 'd set \<Rightarrow> bool" where
  "exactTrades su T \<longleftrightarrow> (\<forall>v ev q. su_trade su v = Some ev \<longrightarrow> d_NewFromString (su_W su) (se_Quantity ev) = Some q \<longrightarrow> q \<in> T)"

lemma serveOrder_steady:
  assumes "obeys (orderMove T) en" and "wlib_ok (su_W su) T" and "exactTrades su T"
  shows "steady (orderMove T) (ordersSound T) (serveOrder en su c)"
  using assms(3)
  by (cases c) (auto simp: quiet_def exactTrades_def intro!: steady_intros CreateOrder_steady CancelOrder_steady GetOrder_steady
    ServiceListOrders_steady ProcessTradeMessage_steady ProcessCancelMessage_steady publisher_steady releaseWorker_steady consumers_steady assms(1,2))

end
