(* ===== verification/OrderOutbox.thy ===== *)
theory OrderOutbox
  imports OrderProcess
begin

text \<open>
  The outbox of the order service: an event is marked as published only after Kafka has it,
  and it leaves the table only then. Identifiers name their event for good: \<open>K\<close> is what an
  identifier the database ever generates stands for.
\<close>

type_synonym outbox_content = "string \<times> string \<times> order_envelope"

definition content :: "outbox_event \<Rightarrow> outbox_content" where
  "content e = (ox_event_type e, ox_partition_key e, ox_payload e)"

definition deliveredAs :: "(string \<times> string \<times> order_envelope) list \<Rightarrow> outbox_content \<Rightarrow> bool" where
  "deliveredAs log c \<longleftrightarrow> (case c of (ty, key, payload) \<Rightarrow>
     (\<exists>topic. resolveTopic ty = Some topic \<and> (topic, key, payload) \<in> set log))"

definition delivered :: "('d, 'v) order_world \<Rightarrow> outbox_event \<Rightarrow> bool" where
  "delivered w e \<longleftrightarrow> deliveredAs (ow_log w) (content e)"

definition sameEvent :: "outbox_event \<Rightarrow> outbox_event \<Rightarrow> bool" where
  "sameEvent e e' \<longleftrightarrow> ox_id e' = ox_id e \<and> content e' = content e"

definition outboxSound :: "(uuid \<Rightarrow> outbox_content) \<Rightarrow> ('d, 'v) order_world \<Rightarrow> bool" where
  "outboxSound K w \<longleftrightarrow> (\<forall>e\<in>set (odb_outbox (ow_db w)). K (ox_id e) = content e \<and> (ox_published_at e \<noteq> None \<longrightarrow> delivered w e))"

definition outboxKept :: "('d, 'v) order_world \<Rightarrow> ('d, 'v) order_world \<Rightarrow> bool" where
  "outboxKept w w' \<longleftrightarrow> set (ow_log w) \<subseteq> set (ow_log w') \<and>
     (\<forall>e\<in>set (odb_outbox (ow_db w)). (\<exists>e'\<in>set (odb_outbox (ow_db w')). sameEvent e e') \<or> delivered w' e)"

definition outboxMove :: "(uuid \<Rightarrow> outbox_content) \<Rightarrow> ('d, 'v) order_world \<Rightarrow> ('d, 'v) order_world \<Rightarrow> bool" where
  "outboxMove K w w' \<longleftrightarrow> outboxKept w w' \<and> (outboxSound K w \<longrightarrow> outboxSound K w')"

lemma sameEvent_refl [simp]: "sameEvent e e"
  by (simp add: sameEvent_def)

lemma outboxKept_refl: "outboxKept w w"
  unfolding outboxKept_def using sameEvent_refl by blast

lemma delivered_mono: "delivered w e \<Longrightarrow> set (ow_log w) \<subseteq> set (ow_log w') \<Longrightarrow> delivered w' e"
  by (auto simp: delivered_def deliveredAs_def split: prod.splits)

lemma delivered_same: "sameEvent e e' \<Longrightarrow> delivered w e' \<longleftrightarrow> delivered w e"
  by (simp add: delivered_def sameEvent_def)

lemma sameEvent_trans: "sameEvent e e' \<Longrightarrow> sameEvent e' e'' \<Longrightarrow> sameEvent e e''"
  by (simp add: sameEvent_def)

lemma outboxKept_trans:
  assumes a: "outboxKept u v" and b: "outboxKept v w"
  shows "outboxKept u w"
  unfolding outboxKept_def
proof (intro conjI ballI)
  from a b show "set (ow_log u) \<subseteq> set (ow_log w)" by (auto simp: outboxKept_def)
  fix e assume "e \<in> set (odb_outbox (ow_db u))"
  with a consider e' where "e' \<in> set (odb_outbox (ow_db v))" "sameEvent e e'" | "delivered v e"
    by (auto simp: outboxKept_def)
  then show "(\<exists>e'\<in>set (odb_outbox (ow_db w)). sameEvent e e') \<or> delivered w e"
  proof cases
    case 1
    with b have "(\<exists>e''\<in>set (odb_outbox (ow_db w)). sameEvent e' e'') \<or> delivered w e'" by (simp add: outboxKept_def)
    with 1(2) show ?thesis using sameEvent_trans delivered_same by blast
  next
    case 2
    then show ?thesis using b delivered_mono by (auto simp: outboxKept_def)
  qed
qed

interpretation outbox: guarantee "outboxMove K" "outboxSound K" for K
  by unfold_locales (auto simp: outboxMove_def outboxKept_refl)

lemma outbox_follows_kept: "follows (outboxMove K) w w' \<Longrightarrow> outboxKept w w'"
  unfolding follows_def
  by (induction rule: rtranclp_induct) (auto simp: outboxMove_def outboxKept_refl intro: outboxKept_trans)

section \<open>Statements on the outbox\<close>

text \<open>What a statement of the publisher does to the table, \<open>D\<close> being the events Kafka has.\<close>

definition eventStep :: "(outbox_event \<Rightarrow> bool) \<Rightarrow> 'd order_db \<Rightarrow> 'd order_db \<Rightarrow> bool" where
  "eventStep D db db' \<longleftrightarrow>
     (\<forall>e'\<in>set (odb_outbox db'). \<exists>e\<in>set (odb_outbox db). sameEvent e e' \<and>
        (ox_published_at e' \<noteq> None \<longrightarrow> ox_published_at e \<noteq> None \<or> D e)) \<and>
     (\<forall>e\<in>set (odb_outbox db). (\<exists>e'\<in>set (odb_outbox db'). sameEvent e e') \<or> D e)"

lemma eventStep_refl: "eventStep D db db"
  unfolding eventStep_def using sameEvent_refl by blast

lemma eventStep_move:
  assumes "outboxSound K w" and "eventStep (delivered w) (ow_db w) db'"
  shows "outboxMove K w (w\<lparr>ow_db := db'\<rparr>)"
proof -
  have d: "delivered (w\<lparr>ow_db := db'\<rparr>) e = delivered w e" for e by (simp add: delivered_def)
  have db: "ow_db (w\<lparr>ow_db := db'\<rparr>) = db'" by simp
  have "outboxSound K (w\<lparr>ow_db := db'\<rparr>)"
    unfolding outboxSound_def d db
  proof
    fix e' assume "e' \<in> set (odb_outbox db')"
    with assms(2) obtain e where e: "e \<in> set (odb_outbox (ow_db w))" "sameEvent e e'"
      "ox_published_at e' \<noteq> None \<longrightarrow> ox_published_at e \<noteq> None \<or> delivered w e" by (auto simp: eventStep_def)
    with assms(1) have "K (ox_id e) = content e" "ox_published_at e \<noteq> None \<longrightarrow> delivered w e" by (auto simp: outboxSound_def)
    with e(2,3) delivered_same[OF e(2)] show "K (ox_id e') = content e' \<and> (ox_published_at e' \<noteq> None \<longrightarrow> delivered w e')"
      by (auto simp: sameEvent_def)
  qed
  with assms(2) show ?thesis by (auto simp: outboxMove_def outboxKept_def eventStep_def d)
qed

lemma mapped_eventStep:
  assumes "\<And>e. e \<in> set (odb_outbox db) \<Longrightarrow> sameEvent e (f e) \<and> (ox_published_at (f e) \<noteq> None \<longrightarrow> ox_published_at e \<noteq> None \<or> D e)"
  shows "eventStep D db (db\<lparr>odb_outbox := map f (odb_outbox db)\<rparr>)"
  unfolding eventStep_def
proof (intro conjI ballI)
  fix e' assume "e' \<in> set (odb_outbox (db\<lparr>odb_outbox := map f (odb_outbox db)\<rparr>))"
  then obtain e where "e \<in> set (odb_outbox db)" "e' = f e" by auto
  with assms show "\<exists>e\<in>set (odb_outbox db). sameEvent e e' \<and> (ox_published_at e' \<noteq> None \<longrightarrow> ox_published_at e \<noteq> None \<or> D e)"
    by blast
qed (use assms in auto)

lemma pool_results:
  assumes "runTx (pool en err f) db = (r, db')"
  shows "db' = db \<and> (\<forall>a. r \<noteq> Inr a) \<or> (\<exists>a. f db = Inr (a, db') \<and> (\<forall>b. r = Inr b \<longrightarrow> b = a))"
  using assms by (auto simp: runTx_def startTx_def pool_def split: if_splits sum.splits prod.splits commit_outcome.splits)

lemma pool_oneRow:
  assumes "runTx (bindT (pool en err f) oneRow) db = (r, db')"
  shows "db' = db \<or> (\<exists>a. f db = Inr (a, db'))"
  using assms
  by (auto simp: runTx_def startTx_def pool_def bindT_def oneRow_def ret_def throw_def
      split: if_splits sum.splits prod.splits commit_outcome.splits)

lemma RecordError_event:
  assumes "runTx (RecordOutboxPublishError pg i msg) db = (r, db')"
  shows "eventStep D db db'"
  using pool_oneRow[OF assms[unfolded RecordOutboxPublishError_def]]
  by (auto simp: updateEvents_def sameEvent_def content_def eventStep_refl intro!: mapped_eventStep split: if_splits)

lemma MarkPublished_event:
  assumes "runTx (MarkOutboxEventAsPublished pg i) db = (r, db')" and "\<And>e. e \<in> set (odb_outbox db) \<Longrightarrow> ox_id e = i \<Longrightarrow> D e"
  shows "eventStep D db db'"
  using pool_oneRow[OF assms(1)[unfolded MarkOutboxEventAsPublished_def]] assms(2)
  by (auto simp: updateEvents_def sameEvent_def content_def eventStep_refl intro!: mapped_eventStep split: if_splits)

lemma Prune_event:
  assumes r: "runTx (PrunePublishedOutboxEvents pg t limit) db = (r, db')"
    and d: "\<And>e e'. e \<in> set (odb_outbox db) \<Longrightarrow> ox_published_at e \<noteq> None \<Longrightarrow> e' \<in> set (odb_outbox db) \<Longrightarrow> ox_id e' = ox_id e \<Longrightarrow> D e'"
  shows "eventStep D db db'"
proof -
  let ?old = "take (nat (if limit \<le> 0 then 500 else limit)) (sort_key (\<lambda>e. case ox_published_at e of None \<Rightarrow> 0 | Some t \<Rightarrow> t)
    (filter (publishedBefore (microseconds (pe_now pg 0 - t))) (odb_outbox db)))"
  from pool_results[OF r[unfolded PrunePublishedOutboxEvents_def Let_def]]
  have c: "db' = db \<or> db' = db\<lparr>odb_outbox := filter (\<lambda>e. ox_id e \<notin> ox_id ` set ?old) (odb_outbox db)\<rparr>" by auto
  have "x \<in> set (odb_outbox db) \<and> ox_published_at x \<noteq> None" if "x \<in> set ?old" for x
    using in_set_takeD[OF that] by (auto simp: publishedBefore_def split: option.splits)
  note old = this
  have "(\<exists>e'\<in>set (filter (\<lambda>e. ox_id e \<notin> ox_id ` set ?old) (odb_outbox db)). sameEvent e e') \<or> D e" if e: "e \<in> set (odb_outbox db)" for e
  proof (cases "ox_id e \<in> ox_id ` set ?old")
    case True
    then obtain x where x: "x \<in> set ?old" "ox_id e = ox_id x" by blast
    from d[OF _ _ e x(2)] old[OF x(1)] show ?thesis by blast
  next
    case False
    with e have "e \<in> set (filter (\<lambda>e. ox_id e \<notin> ox_id ` set ?old) (odb_outbox db))" by (simp only: set_filter mem_Collect_eq simp_thms)
    then show ?thesis using sameEvent_refl by blast
  qed
  moreover have "\<exists>e\<in>set (odb_outbox db). sameEvent e e' \<and> (ox_published_at e' \<noteq> None \<longrightarrow> ox_published_at e \<noteq> None \<or> D e)"
    if "e' \<in> set (filter q (odb_outbox db))" for e' q
    using that by (intro bexI[of _ e']) auto
  ultimately have "eventStep D db (db\<lparr>odb_outbox := filter (\<lambda>e. ox_id e \<notin> ox_id ` set ?old) (odb_outbox db)\<rparr>)"
    unfolding eventStep_def by simp
  with c show ?thesis using eventStep_refl by metis
qed

lemma claim_event:
  assumes a: "\<And>es. set (arrange es) \<subseteq> set es" and r: "runTx (GetUnpublishedOutboxEvents pg arrange locked limit) db = (r, db')"
  shows "eventStep D db db'" "r = Inr es \<Longrightarrow> e \<in> set es \<Longrightarrow> \<exists>e0\<in>set (odb_outbox db). sameEvent e0 e"
proof -
  let ?now = "microseconds (pe_now pg 0)"
  define p :: "outbox_event \<Rightarrow> bool" where "p = (\<lambda>e. ox_id e \<in> set (map ox_id (take (nat (if limit \<le> 0 then 50 else limit))
    (sort_key ox_created (filter (claimable locked ?now) (odb_outbox db))))))"
  let ?f = "\<lambda>e :: outbox_event. if p e then e\<lparr>ox_processing_at := Some ?now, ox_attempts := ox_attempts e + 1\<rparr> else e"
  have p: "claimEvents arrange locked limit ?now db = (if \<exists>e\<in>set (map ?f (odb_outbox db)). ox_attempts e \<ge> 2 ^ 31 then Inl OrderInternal else
      Inr (arrange (filter p (map ?f (odb_outbox db))), db\<lparr>odb_outbox := map ?f (odb_outbox db)\<rparr>))"
    unfolding claimEvents_def Let_def p_def ..
  from pool_results[OF r[unfolded GetUnpublishedOutboxEvents_def]] consider "db' = db" "\<forall>a. r \<noteq> Inr a"
    | es' where "db' = db\<lparr>odb_outbox := map ?f (odb_outbox db)\<rparr>" "es' = arrange (filter p (map ?f (odb_outbox db)))" "\<forall>b. r = Inr b \<longrightarrow> b = es'"
    unfolding p by (auto split: if_splits)
  then have "eventStep D db db' \<and> (r = Inr es \<longrightarrow> e \<in> set es \<longrightarrow> (\<exists>e0\<in>set (odb_outbox db). sameEvent e0 e))"
  proof cases
    case 2
    have f: "sameEvent x (?f x) \<and> ox_published_at (?f x) = ox_published_at x" for x by (simp add: sameEvent_def content_def)
    have "eventStep D db db'" unfolding 2(1) by (rule mapped_eventStep) (use f in auto)
    moreover have "\<exists>e0\<in>set (odb_outbox db). sameEvent e0 e" if "r = Inr es" "e \<in> set es"
    proof -
      from 2 that have "e \<in> set (arrange (filter p (map ?f (odb_outbox db))))" by simp
      with a have "e \<in> ?f ` set (odb_outbox db)" by fastforce
      with f show ?thesis by blast
    qed
    ultimately show ?thesis by blast
  qed (simp add: eventStep_refl)
  then show "eventStep D db db'" "r = Inr es \<Longrightarrow> e \<in> set es \<Longrightarrow> \<exists>e0\<in>set (odb_outbox db). sameEvent e0 e" by blast+
qed

section \<open>The publisher\<close>

lemma tryRepo_moves:
  fixes en :: "('d, 'v) order_world order_env"
  assumes "obeys (outboxMove K) en"
    and "\<And>pg r db' (w :: ('d, 'v) order_world). outboxSound K w \<Longrightarrow> runTx (m pg) (ow_db w) = (r, db') \<Longrightarrow> eventStep (delivered w) (ow_db w) db'"
  shows "steady (outboxMove K) (outboxSound K) (tryRepo en m)"
  unfolding tryRepo_def
  by (rule outbox.steady_act[OF assms(1)]) (auto split: prod.splits intro: eventStep_move[OF _ assms(2)])

lemma Publish_result:
  assumes "outboxSound K w"
    and "(case autocommit en ow_log (\<lambda>l w. w\<lparr>ow_log := l\<rparr>) ErrOther (\<lambda>l. Inr ((), l @ [c])) n w of (r, w') \<Rightarrow> (Inr r, w')) = (x, w')"
  shows "outboxMove K w w' \<and> (x = Inr (Inr ()) \<longrightarrow> c \<in> set (ow_log w'))"
proof -
  from assms(2) consider "w' = w" "\<exists>e. x = Inr (Inl e)" | "w' = w\<lparr>ow_log := ow_log w @ [c]\<rparr>"
    by (auto simp: autocommit_def split: if_splits commit_outcome.splits)
  then show ?thesis
  proof cases
    case 1
    then show ?thesis by (auto simp: outboxMove_def outboxKept_refl)
  next
    case 2
    have "outboxKept w (w\<lparr>ow_log := ow_log w @ [c]\<rparr>)" unfolding outboxKept_def using sameEvent_refl by (simp, blast)
    moreover have "outboxSound K (w\<lparr>ow_log := ow_log w @ [c]\<rparr>)"
      using assms(1) delivered_mono[of w _ "w\<lparr>ow_log := ow_log w @ [c]\<rparr>"] by (auto simp: outboxSound_def)
    ultimately show ?thesis using 2 by (simp add: outboxMove_def)
  qed
qed

lemma publishEvent_steady:
  assumes ob: "obeys (outboxMove K) en" and K: "K (ox_id e) = content e"
  shows "steady (outboxMove K) (outboxSound K) (publishEvent en txt e)"
proof (cases "resolveTopic (ox_event_type e)")
  case None
  then show ?thesis unfolding publishEvent_def
    by simp (intro steady_intros tryRepo_moves[OF ob] RecordError_event)
next
  case (Some topic)
  let ?c = "(topic, ox_partition_key e, ox_payload e)"
  let ?p = "\<lambda>w0 w. follows (outboxMove K) w0 w \<and> outboxSound K w"
  let ?fail = "bindT (tryRepo en (\<lambda>pg. RecordOutboxPublishError pg (ox_id e) txt)) (\<lambda>_. ret ())"
  let ?mark = "bindT (tryRepo en (\<lambda>pg. MarkOutboxEventAsPublished pg (ox_id e))) (\<lambda>_. ret ())"
  have log: "kept (outboxMove K) (\<lambda>w. ?c \<in> set (ow_log w))" by (auto simp: kept_def outboxMove_def outboxKept_def)
  have st: "stable en (?p w0)" "stable en (\<lambda>w. ?p w0 w \<and> ?c \<in> set (ow_log w))" for w0
    by (intro stable_conj stable_follows[OF ob] stable_kept[OF ob outbox.kept_I] stable_kept[OF ob log])+
  have fail: "hoare (holds (?p w0)) ?fail (\<lambda>_. holds (?p w0)) (\<lambda>_. holds (?p w0))" for w0
  proof -
    have "steady (outboxMove K) (outboxSound K) ?fail" by (intro steady_intros tryRepo_moves[OF ob] RecordError_event)
    then show ?thesis by (simp add: steady_def)
  qed
  have mark: "hoare (holds (\<lambda>w. ?p w0 w \<and> ?c \<in> set (ow_log w))) ?mark (\<lambda>_. holds (?p w0)) (\<lambda>_. holds (?p w0))" for w0
    unfolding tryRepo_def
  proof (rule hoare_act[OF st(2), where q = "\<lambda>_. ?p w0"], goal_cases)
    case (1 n w a w')
    then obtain r db' where r: "runTx (MarkOutboxEventAsPublished (tx_pg en n) (ox_id e)) (ow_db w) = (r, db')" "w' = w\<lparr>ow_db := db'\<rparr>"
      by (auto split: prod.splits)
    have "delivered w x" if "x \<in> set (odb_outbox (ow_db w))" "ox_id x = ox_id e" for x
    proof -
      from 1(1) that K have "content x = content e" by (metis outboxSound_def)
      then show ?thesis using 1(1) Some by (auto simp: delivered_def deliveredAs_def content_def)
    qed
    from MarkPublished_event[OF r(1) this] 1(1) r(2) have "outboxMove K w w'" by (auto intro: eventStep_move)
    with 1(1) have "?p w0 w'" using outbox.keeps follows_step by metis
    then show ?case by (simp add: hoare_ret)
  qed (auto split: prod.splits)
  have "hoare (holds (?p w0)) (publishEvent en txt e) (\<lambda>_. holds (?p w0)) (\<lambda>_. holds (?p w0))" for w0
    unfolding publishEvent_def Some option.simps Publish_def
  proof (rule hoare_act[OF st(1), where q = "\<lambda>r w. ?p w0 w \<and> (r = Inr () \<longrightarrow> ?c \<in> set (ow_log w))"], goal_cases)
    case (1 n w a w')
    from Publish_result[OF conjunct2[OF 1(1)] 1(2)] have m: "outboxMove K w w'" "a = Inr () \<longrightarrow> ?c \<in> set (ow_log w')" by auto
    with 1(1) have "?p w0 w'" using outbox.keeps follows_step by metis
    moreover have "hoare (holds (\<lambda>w. ?p w0 w \<and> (a = Inr () \<longrightarrow> ?c \<in> set (ow_log w))))
        (case a of Inl _ \<Rightarrow> ?fail | Inr _ \<Rightarrow> ?mark) (\<lambda>_. holds (?p w0)) (\<lambda>_. holds (?p w0))"
      using fail mark by (cases a) auto
    ultimately show ?case using m(2) by blast
  qed (auto split: prod.splits)
  then show ?thesis by (simp add: steady_def)
qed

lemma publishEvents_steady:
  assumes "obeys (outboxMove K) en" and "\<forall>e\<in>set es. K (ox_id e) = content e"
  shows "steady (outboxMove K) (outboxSound K) (publishEvents en txt es)"
  using assms(2) by (induction es) (auto intro!: steady_intros publishEvent_steady[OF assms(1)])

lemma processPendingEvents_steady:
  assumes ob: "obeys (outboxMove K) en" and a: "\<And>es. set (arrange es) \<subseteq> set es"
  shows "steady (outboxMove K) (outboxSound K) (processPendingEvents en arrange locked txt)"
proof -
  let ?p = "\<lambda>w0 w. follows (outboxMove K) w0 w \<and> outboxSound K w"
  have st: "stable en (?p w0)" for w0
    using stable_follows[OF ob] stable_kept[OF ob outbox.kept_I] by (rule stable_conj)
  have "hoare (holds (?p w0)) (processPendingEvents en arrange locked txt) (\<lambda>_. holds (?p w0)) (\<lambda>_. holds (?p w0))" for w0
    unfolding processPendingEvents_def tryRepo_def
  proof (rule hoare_act[OF st, where q = "\<lambda>_. ?p w0"], goal_cases)
    case (1 n w a w')
    then obtain r db' where r: "runTx (GetUnpublishedOutboxEvents (tx_pg en n) arrange locked 50) (ow_db w) = (r, db')" "w' = w\<lparr>ow_db := db'\<rparr>" "a = r"
      by (auto split: prod.splits)
    from claim_event(1)[OF assms(2) r(1)] 1(1) r(2) have "outboxMove K w w'" by (auto intro: eventStep_move)
    with 1(1) have p: "?p w0 w'" using outbox.keeps follows_step by metis
    have "\<forall>e\<in>set es. K (ox_id e) = content e" if "a = Inr es" for es
    proof
      fix e assume "e \<in> set es"
      from claim_event(2)[OF assms(2) r(1) _ this] that r(3) obtain e0 where "e0 \<in> set (odb_outbox (ow_db w))" "sameEvent e0 e" by blast
      with 1(1) show "K (ox_id e) = content e" by (auto simp: outboxSound_def sameEvent_def)
    qed
    then have "steady (outboxMove K) (outboxSound K) (case a of Inl _ \<Rightarrow> ret () | Inr es \<Rightarrow> publishEvents en txt es)"
      by (auto split: sum.split intro: steady_ret publishEvents_steady[OF ob])
    with p show ?case by (auto simp: steady_def)
  qed (auto split: prod.splits)
  then show ?thesis by (simp add: steady_def)
qed

lemma prunePublishedEvents_steady:
  assumes ob: "obeys (outboxMove K) en"
  shows "steady (outboxMove K) (outboxSound K) (prunePublishedEvents en retention)"
  unfolding prunePublishedEvents_def
proof (intro steady_intros tryRepo_moves[OF ob], erule Prune_event)
  fix w :: "('a, 'b) order_world" and e e'
  assume "outboxSound K w" "e \<in> set (odb_outbox (ow_db w))" "ox_published_at e \<noteq> None" "e' \<in> set (odb_outbox (ow_db w))" "ox_id e' = ox_id e"
  then show "delivered w e'" unfolding outboxSound_def delivered_def by metis
qed

end
