(* ===== verification/SettlementSpec.thy ===== *)
theory SettlementSpec
  imports SettlementService WalletProps
begin

text \<open>
  What the settlement service may do to the world, as a step relation over its rows, the
  wallet and the committed offset, and the contract it relies on: the locale \<open>settler\<close> of
  wallets that record a trade before they report success. The wallet service meets it.
\<close>

section \<open>Steps\<close>

text \<open>\<open>V\<close> is what the wallet does on its own, \<open>R\<close> tells that it has recorded a trade.\<close>

inductive settlement_step :: "('v \<Rightarrow> 'v \<Rightarrow> bool) \<Rightarrow> (uuid \<Rightarrow> 'v \<Rightarrow> bool) \<Rightarrow>
    ('d, 'v) settle_world \<Rightarrow> ('d, 'v) settle_world \<Rightarrow> bool" for V R where
  register: "row_trade_id r \<notin> row_trade_id ` set (sw_rows w) \<Longrightarrow> row_status r = StatusPending \<Longrightarrow> row_retry_count r = 0 \<Longrightarrow>
    row_base_asset r \<noteq> row_quote_asset r \<Longrightarrow> row_buyer_id r \<noteq> row_seller_id r \<Longrightarrow>
    settlement_step V R w (w\<lparr>sw_rows := sw_rows w @ [r]\<rparr>)"
| settle: "sw_rows w = xs @ r # ys \<Longrightarrow> row_status r = StatusPending \<Longrightarrow> R (row_trade_id r) (sw_wallet w) \<Longrightarrow>
    settlement_step V R w (w\<lparr>sw_rows := xs @ r\<lparr>row_status := StatusSettled, row_settled_at := Some t\<rparr> # ys\<rparr>)"
| postpone: "sw_rows w = xs @ r # ys \<Longrightarrow> row_status r = StatusPending \<Longrightarrow> st \<in> {StatusPending, StatusFailed} \<Longrightarrow>
    settlement_step V R w (w\<lparr>sw_rows := xs @ r\<lparr>row_status := st, row_retry_count := row_retry_count r + 1,
      row_last_error := Some msg, row_next_retry_at := t\<rparr> # ys\<rparr>)"
| wallet: "V (sw_wallet w) v \<Longrightarrow> settlement_step V R w (w\<lparr>sw_wallet := v\<rparr>)"
| commit: "settlement_step V R w (w\<lparr>sw_committed := c\<rparr>)"

text \<open>The terms of a row never change, and a row that is not pending does not change at all.\<close>

definition later_row :: "'d settled_row \<Rightarrow> 'd settled_row \<Rightarrow> bool" where
  "later_row r r' \<longleftrightarrow>
     row_trade_id r' = row_trade_id r \<and> row_buyer_id r' = row_buyer_id r \<and> row_seller_id r' = row_seller_id r \<and>
     row_buy_order_id r' = row_buy_order_id r \<and> row_sell_order_id r' = row_sell_order_id r \<and>
     row_market_id r' = row_market_id r \<and> row_base_asset r' = row_base_asset r \<and>
     row_quote_asset r' = row_quote_asset r \<and> row_price r' = row_price r \<and> row_quantity r' = row_quantity r \<and>
     row_sequence r' = row_sequence r \<and> row_executed_at r' = row_executed_at r \<and> row_created_at r' = row_created_at r \<and>
     row_retry_count r \<le> row_retry_count r' \<and> (row_status r \<noteq> StatusPending \<longrightarrow> r' = r)"

lemma later_row_refl [simp]: "later_row r r"
  by (simp add: later_row_def)

lemma later_row_trans: "later_row r r' \<Longrightarrow> later_row r' r'' \<Longrightarrow> later_row r r''"
  by (auto simp: later_row_def)

lemma step_rows:
  assumes "settlement_step V R w w'" and "r \<in> set (sw_rows w)"
  shows "\<exists>r'\<in>set (sw_rows w'). later_row r r'"
  using assms(1)
proof cases
  case (settle xs x ys t)
  then show ?thesis using assms(2) by (cases "r = x") (auto simp: later_row_def)
next
  case (postpone xs x ys st msg t)
  then show ?thesis using assms(2) by (cases "r = x") (auto simp: later_row_def)
qed (use assms(2) in \<open>auto intro: bexI[of _ r]\<close>)

lemma follows_rows:
  assumes "follows (settlement_step V R) w w'" and "r \<in> set (sw_rows w)"
  shows "\<exists>r'\<in>set (sw_rows w'). later_row r r'"
  using assms(1) unfolding follows_def
proof (induction rule: rtranclp_induct)
  case base
  with assms(2) show ?case by (auto intro: bexI[of _ r])
next
  case (step y z)
  then obtain r1 where "r1 \<in> set (sw_rows y)" "later_row r r1" by blast
  with step_rows[OF step(2)] show ?case by (blast intro: later_row_trans)
qed

section \<open>The contract of the wallet\<close>

locale settler =
  fixes call :: "nat \<Rightarrow> settle_rpc \<Rightarrow> 'v \<Rightarrow> (string + unit) \<times> 'v"
    and wstep :: "'v \<Rightarrow> 'v \<Rightarrow> bool"
    and sound :: "'v \<Rightarrow> bool"
    and recorded :: "uuid \<Rightarrow> 'v \<Rightarrow> bool"
    and idOf :: "string \<Rightarrow> uuid option"
  assumes call_step: "sound v \<Longrightarrow> wstep v (snd (call n rq v))"
    and call_records: "sound v \<Longrightarrow> idOf (sr_TradeId rq) = Some t \<Longrightarrow> idOf (sr_BuyerId rq) = Some b \<Longrightarrow>
      idOf (sr_SellerId rq) = Some s \<Longrightarrow> b \<noteq> s \<Longrightarrow> sr_BaseAsset rq \<noteq> sr_QuoteAsset rq \<Longrightarrow>
      call n rq v = (Inr (), v') \<Longrightarrow> recorded t v'"
    and step_sound: "sound v \<Longrightarrow> wstep v v' \<Longrightarrow> sound v'"
    and step_recorded: "recorded t v \<Longrightarrow> wstep v v' \<Longrightarrow> recorded t v'"
begin

abbreviation G :: "('d, 'v) settle_world \<Rightarrow> ('d, 'v) settle_world \<Rightarrow> bool" where
  "G \<equiv> settlement_step wstep recorded"

definition good :: "('d, 'v) settle_world \<Rightarrow> bool" where
  "good w \<longleftrightarrow> sound (sw_wallet w) \<and> distinct (map row_trade_id (sw_rows w)) \<and>
     (\<forall>r\<in>set (sw_rows w). row_base_asset r \<noteq> row_quote_asset r \<and> row_buyer_id r \<noteq> row_seller_id r \<and>
        (row_status r = StatusSettled \<longrightarrow> recorded (row_trade_id r) (sw_wallet w)))"

lemma good_kept: "kept G good"
  unfolding kept_def
proof (intro allI impI)
  fix w w' :: "('d, 'v) settle_world"
  assume g: "good w" and s: "G w w'"
  from s show "good w'"
    by cases (use g in \<open>auto simp: good_def image_iff intro: step_sound step_recorded\<close>)
qed

text \<open>Facts that stay: a row for the trade, a row that is no longer pending, the record in the wallet.\<close>

definition hasRow :: "uuid \<Rightarrow> ('d, 'v) settle_world \<Rightarrow> bool" where
  "hasRow t w \<longleftrightarrow> (\<exists>r\<in>set (sw_rows w). row_trade_id r = t)"

definition doneRow :: "uuid \<Rightarrow> ('d, 'v) settle_world \<Rightarrow> bool" where
  "doneRow t w \<longleftrightarrow> (\<exists>r\<in>set (sw_rows w). row_trade_id r = t \<and> row_status r \<noteq> StatusPending)"

definition inWallet :: "uuid \<Rightarrow> ('d, 'v) settle_world \<Rightarrow> bool" where
  "inWallet t w \<longleftrightarrow> recorded t (sw_wallet w)"

lemma hasRow_kept: "kept G (hasRow t)"
  unfolding kept_def hasRow_def by (metis step_rows later_row_def)

lemma doneRow_kept: "kept G (doneRow t)"
  unfolding kept_def doneRow_def by (metis step_rows later_row_def)

lemma inWallet_kept: "kept G (inWallet t)"
  unfolding kept_def inWallet_def
proof (intro allI impI)
  fix w w' :: "('d, 'v) settle_world"
  assume r: "recorded t (sw_wallet w)" and s: "G w w'"
  from s show "recorded t (sw_wallet w')"
    by cases (use r in \<open>auto intro: step_recorded\<close>)
qed

lemma kept_conj: "kept H p \<Longrightarrow> kept H q \<Longrightarrow> kept H (\<lambda>w. p w \<and> q w)"
  by (auto simp: kept_def)

lemma kept_imp: "kept H q \<Longrightarrow> kept H (\<lambda>w. c \<longrightarrow> q w)"
  by (auto simp: kept_def)

lemma follows_kept: "kept G (follows G w0)"
  by (auto simp: kept_def follows_def)

lemmas kept_facts = kept_conj kept_imp hasRow_kept doneRow_kept inWallet_kept follows_kept

end

section \<open>The wallet service is a settler\<close>

text \<open>
  \<open>uuid.Parse\<close> and PostgreSQL read the same UUID where both read one, and the identifiers a
  call draws are new.
\<close>

definition uuids_agree :: "'d wlib \<Rightarrow> bool" where
  "uuids_agree W \<longleftrightarrow> (\<forall>s u v. u_Parse W s = Some u \<longrightarrow> p_uuid W s = Some v \<longrightarrow> u = v) \<and>
     (\<forall>u. u_Parse W (u_String W u) = Some u)"

definition walletSound :: "('d::linordered_idom) wallet_db rpc_env \<Rightarrow> 'd wlib \<Rightarrow> 'd set \<Rightarrow> 'd wallet_db \<Rightarrow> bool" where
  "walletSound re W T db \<longleftrightarrow> wlib_ok W T \<and> uuids_agree W \<and> wallet_ok T db \<and> assets_ok T db \<and> ledger_ok db \<and>
     (\<forall>n d. unique_ids (rpc_pg re n d) \<and> fresh_ids (rpc_pg re n d) d)"

definition walletRecorded :: "uuid \<Rightarrow> 'd wallet_db \<Rightarrow> bool" where
  "walletRecorded t db \<longleftrightarrow> t \<in> s_TradeID ` set (db_settled db)"

definition walletMoves :: "('d::linordered_idom) set \<Rightarrow> 'd wallet_db \<Rightarrow> 'd wallet_db \<Rightarrow> bool" where
  "walletMoves T = (wallet_step T (- internalTypes))\<^sup>*\<^sup>*"

lemma WalletClient_moves:
  assumes "walletSound re W T db"
  shows "walletMoves T db (snd (WalletClient_SettleTrade re W n rq db))"
proof -
  have "(wallet_step T (- internalTypes))\<^sup>*\<^sup>* db (serve W (rpc_pg re n db, CallSettle rq) db)"
    by (rule serve_moves) (use assms in \<open>auto simp: walletSound_def wallet_ok_def\<close>)
  then show ?thesis
    by (auto simp: walletMoves_def WalletClient_SettleTrade_def Let_def split: transport.split prod.splits)
qed

lemma rpcSettleTrade_Inr:
  assumes "runTx (rpcSettleTrade en W rq) db = (Inr (), db')"
  obtains req where "runTx (SettleTrade en W req) db = (Inr (), db')" "q_TradeID req = sr_TradeId rq"
    "q_BuyerUserID req = sr_BuyerId rq" "q_SellerUserID req = sr_SellerId rq"
    "q_BaseAsset req = sr_BaseAsset rq" "q_QuoteAsset req = sr_QuoteAsset rq"
proof -
  have g: "runTx (grpc m) db = (Inr (), db') \<Longrightarrow> runTx m db = (Inr (), db')" for m :: "('a, unit) wprog"
    by (auto simp: runTx_def grpc_def split: prod.splits sum.splits)
  have t: "runTx (throw e) db \<noteq> (Inr (), db')" for e :: grpc_code
    by (simp add: runTx_def throw_def)
  show thesis
    using assms unfolding rpcSettleTrade_def
    by (auto simp: t split: if_splits option.splits dest!: g intro!: that)
qed

lemma WalletClient_records:
  assumes ok: "walletSound re W T db" and t: "u_Parse W (sr_TradeId rq) = Some t"
    and b: "u_Parse W (sr_BuyerId rq) = Some b" and s: "u_Parse W (sr_SellerId rq) = Some s" and "b \<noteq> s"
    and a: "sr_BaseAsset rq \<noteq> sr_QuoteAsset rq" and r: "WalletClient_SettleTrade re W n rq db = (Inr (), db')"
  shows "walletRecorded t db'"
proof -
  from ok have W: "wlib_ok W T" and u: "uuids_agree W" and w: "wallet_ok T db" "assets_ok T db" "ledger_ok db"
    and i: "unique_ids (rpc_pg re n db)" "fresh_ids (rpc_pg re n db) db" by (auto simp: walletSound_def)
  from r have "runTx (rpcSettleTrade (rpc_pg re n db) W rq) db = (Inr (), db')"
    by (auto simp: WalletClient_SettleTrade_def Let_def split: transport.splits prod.splits sum.splits)
  then obtain req where req: "runTx (SettleTrade (rpc_pg re n db) W req) db = (Inr (), db')" "q_TradeID req = sr_TradeId rq"
    "q_BuyerUserID req = sr_BuyerId rq" "q_SellerUserID req = sr_SellerId rq"
    "q_BaseAsset req = sr_BaseAsset rq" "q_QuoteAsset req = sr_QuoteAsset rq" by (rule rpcSettleTrade_Inr)
  have "settledBefore W req db'"
  proof (rule success_settled[OF W w i _ _ req(1)])
    show "q_BaseAsset req \<noteq> q_QuoteAsset req" using a req by simp
    fix v assume "p_uuid W (q_BuyerUserID req) = Some v"
    then show "p_uuid W (q_SellerUserID req) \<noteq> Some v" using req(3,4) u b s \<open>b \<noteq> s\<close> unfolding uuids_agree_def by metis
  qed
  then obtain x where "x \<in> set (db_settled db')" "p_uuid W (sr_TradeId rq) = Some (s_TradeID x)"
    unfolding settledBefore_def req(2) by blast
  with u t show ?thesis unfolding walletRecorded_def uuids_agree_def by blast
qed

lemma walletMoves_sound:
  assumes s: "walletSound re W T db" and m: "walletMoves T db db'"
  shows "walletSound re W T db'"
proof -
  from m have st: "(wallet_step T (- internalTypes))\<^sup>*\<^sup>* db db'" by (simp add: walletMoves_def)
  from s have p: "places_closed T" and w: "wallet_ok T db" and l: "ledger_ok db"
    by (auto simp: walletSound_def intro: wlib_places)
  from wallet_steps_ok[OF st p w] steps_ledger[OF st p _ w l] steps_assets[OF st] s show ?thesis
    by (simp add: walletSound_def assets_ok_def)
qed

lemma walletMoves_recorded: "walletRecorded t db \<Longrightarrow> walletMoves T db db' \<Longrightarrow> walletRecorded t db'"
  unfolding walletRecorded_def walletMoves_def using steps_settled by blast

interpretation wallet: settler "WalletClient_SettleTrade re W" "walletMoves T" "walletSound re W T" walletRecorded "u_Parse W"
  for re :: "('d::linordered_idom) wallet_db rpc_env" and W T
  by unfold_locales
    (blast intro: WalletClient_moves WalletClient_records walletMoves_sound walletMoves_recorded)+

end
