(* ===== verification/SettlementProps.thy ===== *)
theory SettlementProps
  imports SettlementSpec
begin

text \<open>
  The pipeline, the recovery and the consumer only take the steps of the specification,
  among any other processes that do; what a successful pipeline has achieved; how often a
  trade is retried; and the trades the consumer leaves behind.
\<close>

section \<open>Statements on the rows\<close>

lemma autocommit_result:
  assumes "autocommit en get put err f n w = (r, w')"
  shows "w' = w \<and> (\<forall>a. r \<noteq> Inr a) \<or> (\<exists>a x. f (get w) = Inr (a, x) \<and> w' = put x w \<and> (\<forall>b. r = Inr b \<longrightarrow> b = a))"
  using assms unfolding autocommit_def
  by (auto split: if_splits sum.splits prod.splits commit_outcome.splits)

lemma insertSettledTrade_result:
  assumes "insertSettledTrade W now t rows = Inr (u, rows')"
  shows "rows' = rows \<and> (\<exists>r\<in>set rows. row_trade_id r = st_TradeID t) \<or>
    (\<exists>r. rows' = rows @ [r] \<and> row_trade_id r = st_TradeID t \<and> (\<forall>x\<in>set rows. row_trade_id x \<noteq> row_trade_id r) \<and>
       row_status r = StatusPending \<and> row_retry_count r = 0 \<and> row_base_asset r = st_BaseAsset t \<and>
       row_quote_asset r = st_QuoteAsset t \<and> row_buyer_id r = st_BuyerID t \<and> row_seller_id r = st_SellerID t)"
  using assms unfolding insertSettledTrade_def
  by (auto split: option.splits if_splits)

lemma swap_result_Inr: "swap_result x = Inr (a, r) \<longleftrightarrow> x = Inr (r, a)"
  by (auto simp: swap_result_def split: sum.splits)

lemma update_pending:
  assumes "update_rows (pendingRow tid) f rows = Inr (rows', n)" and "distinct (map row_trade_id rows)"
  shows "n = 0 \<and> rows' = rows \<and> (\<forall>r\<in>set rows. \<not> pendingRow tid r) \<or>
    n \<noteq> 0 \<and> (\<exists>xs r r' ys. rows = xs @ r # ys \<and> rows' = xs @ r' # ys \<and> pendingRow tid r \<and> f r = Inr r')"
proof (cases "n = 0")
  case True
  with update_rows_zero[of "pendingRow tid" f rows rows'] update_rows_zero_none[of "pendingRow tid" f rows rows'] assms(1)
  show ?thesis by blast
next
  case False
  show ?thesis
    by (rule update_rows_key[OF assms(1) False assms(2), where k = tid]) (use False in \<open>auto simp: pendingRow_def\<close>)
qed

lemma stalePending_in: "r \<in> set (stalePending locked now cutoff limit rows) \<Longrightarrow> r \<in> set rows"
  by (auto simp: stalePending_def dest!: in_set_takeD)

section \<open>Every action is a step\<close>

context settler
begin

lemma kept_True: "kept H (\<lambda>w. True)"
  by (simp add: kept_def)

lemma hoare_step:
  fixes w0 :: "('d, 'v) settle_world"
  assumes ob: "obeys G en" and g0: "good w0" and p: "kept G p"
    and step: "\<And>n w r w'. p w \<Longrightarrow> good w \<Longrightarrow> f n w = (r, w') \<Longrightarrow> w' = w \<or> G w w'"
    and ok: "\<And>n w a w'. p w \<Longrightarrow> good w \<Longrightarrow> f n w = (Inr a, w') \<Longrightarrow> q a w'"
    and k: "\<And>a. hoare (holds (\<lambda>w. follows G w0 w \<and> p w \<and> q a w)) (k a) Q E"
    and E: "\<And>e s. follows G w0 (x_base s) \<Longrightarrow> p (x_base s) \<Longrightarrow> E e s"
  shows "hoare (holds (\<lambda>w. follows G w0 w \<and> p w)) (bindT (act en f) k) Q E"
proof (rule hoare_act[where q = "\<lambda>a w. follows G w0 w \<and> p w \<and> q a w"])
  show "stable en (\<lambda>w. follows G w0 w \<and> p w)"
    by (rule stable_conj[OF stable_follows[OF ob] stable_kept[OF ob p]])
next
  fix n and w w' :: "('d, 'v) settle_world" and a
  assume w: "follows G w0 w \<and> p w" and f: "f n w = (Inr a, w')"
  then have gw: "good w" using kept_follows[OF good_kept] g0 by blast
  from step[OF _ gw f] w have "w' = w \<or> G w w'" by blast
  then have "follows G w0 w'" "p w'" using w p follows_step[of G w0 w w'] by (auto simp: kept_def)
  with ok[OF _ gw f] w k show "hoare (holds (\<lambda>w. follows G w0 w \<and> p w \<and> q a w)) (k a) Q E \<and>
      follows G w0 w' \<and> p w' \<and> q a w'" by blast
next
  fix n and w w' :: "('d, 'v) settle_world" and e and s :: "('d, 'v) settle_world txs"
  assume w: "follows G w0 w \<and> p w" and f: "f n w = (Inl e, w')" and s: "x_base s = w'"
  then have gw: "good w" using kept_follows[OF good_kept] g0 by blast
  from step[OF _ gw f] w have "w' = w \<or> G w w'" by blast
  then have "follows G w0 w'" "p w'" using w p follows_step[of G w0 w w'] by (auto simp: kept_def)
  with s show "E e s" using E by blast
qed

lemma insert_step:
  assumes "good w" and "autocommit en sw_rows (\<lambda>rs w. w\<lparr>sw_rows := rs\<rparr>) err (insertSettledTrade W now t) n w = (r, w')"
    and "st_BuyerID t \<noteq> st_SellerID t" and "st_BaseAsset t \<noteq> st_QuoteAsset t"
  shows "w' = w \<or> G w w'" and "r = Inr a \<Longrightarrow> hasRow (st_TradeID t) w'"
proof -
  note * = autocommit_result[OF assms(2)]
  show "w' = w \<or> G w w'"
    using * assms(3,4)
    by (auto dest!: insertSettledTrade_result intro!: settlement_step.register simp: image_iff)
  show "hasRow (st_TradeID t) w'" if "r = Inr a"
    using * that by (auto simp: hasRow_def dest!: insertSettledTrade_result)
qed

lemma wallet_call_step:
  assumes "good w" and "(case call n rq (sw_wallet w) of
      (r, v) \<Rightarrow> (case r of Inl msg \<Rightarrow> Inl (ErrWallet msg) | Inr _ \<Rightarrow> Inr (), w\<lparr>sw_wallet := v\<rparr>)) = (r, w')"
  shows "w' = w \<or> G w w'"
  using assms call_step[of "sw_wallet w" n rq]
  by (auto simp: good_def split: prod.splits intro: settlement_step.wallet)

lemma wallet_call_records:
  assumes "good w" and "(case call n rq (sw_wallet w) of
      (r, v) \<Rightarrow> (case r of Inl msg \<Rightarrow> Inl (ErrWallet msg) | Inr _ \<Rightarrow> Inr (), w\<lparr>sw_wallet := v\<rparr>)) = (Inr a, w')"
    and "idOf (sr_TradeId rq) = Some t" "idOf (sr_BuyerId rq) = Some b" "idOf (sr_SellerId rq) = Some s" "b \<noteq> s"
      "sr_BaseAsset rq \<noteq> sr_QuoteAsset rq"
  shows "inWallet t w'"
  using assms call_records[OF _ assms(3-7), of "sw_wallet w" n]
  by (auto simp: good_def inWallet_def split: prod.splits sum.splits)

lemma settle_row_step:
  assumes "good w" and "autocommit en sw_rows (\<lambda>rs w. w\<lparr>sw_rows := rs\<rparr>) err (updateSettled now t) n w = (r, w')"
    and "inWallet t w"
  shows "w' = w \<or> G w w'" and "r = Inr a \<Longrightarrow> hasRow t w' \<Longrightarrow> doneRow t w'" and "r = Inr a \<Longrightarrow> a \<noteq> 0 \<Longrightarrow> doneRow t w'"
proof -
  have d: "distinct (map row_trade_id (sw_rows w))" using assms(1) by (simp add: good_def)
  note * = autocommit_result[OF assms(2), unfolded updateSettled_def swap_result_Inr]
  show "w' = w \<or> G w w'"
    using * assms(3)
    by (auto dest!: update_pending[OF _ d] simp: pendingRow_def inWallet_def intro!: settlement_step.settle)
  show "doneRow t w'" if "r = Inr a" "hasRow t w'"
    using * that by (auto simp: doneRow_def hasRow_def pendingRow_def dest!: update_pending[OF _ d])
  show "doneRow t w'" if "r = Inr a" "a \<noteq> 0"
    using * that by (auto simp: doneRow_def pendingRow_def dest!: update_pending[OF _ d])
qed

lemma failure_row_step:
  assumes "good w" and "autocommit en sw_rows (\<lambda>rs w. w\<lparr>sw_rows := rs\<rparr>) err (updateFailure msg perm next t) n w = (r, w')"
  shows "w' = w \<or> G w w'"
proof -
  have d: "distinct (map row_trade_id (sw_rows w))" using assms(1) by (simp add: good_def)
  show ?thesis
    using autocommit_result[OF assms(2), unfolded updateFailure_def swap_result_Inr]
    by (auto dest!: update_pending[OF _ d] simp: pendingRow_def split: if_splits
        intro!: settlement_step.postpone[where st = StatusPending] settlement_step.postpone[where st = StatusFailed])
qed


section \<open>Triples\<close>

definition found :: "uuid \<Rightarrow> settled_trade option \<Rightarrow> ('d, 'v) settle_world \<Rightarrow> bool" where
  "found t existing w \<longleftrightarrow> (case existing of None \<Rightarrow> True | Some x \<Rightarrow>
     hasRow t w \<and> (st_Status x = StatusSettled \<longrightarrow> doneRow t w \<and> inWallet t w))"

lemma hoare_find:
  fixes w0 :: "('d, 'v) settle_world"
  assumes ob: "obeys G en" and g0: "good w0" and p: "kept G p"
    and k: "\<And>existing. hoare (holds (\<lambda>w. follows G w0 w \<and> p w \<and> found t existing w)) (k existing) Q E"
    and E: "\<And>e s. follows G w0 (x_base s) \<Longrightarrow> p (x_base s) \<Longrightarrow> E e s"
  shows "hoare (holds (\<lambda>w. follows G w0 w \<and> p w)) (bindT (FindByTradeID en W t) k) Q E"
  unfolding FindByTradeID_def look_def
proof (rule hoare_step[OF ob g0 p _ _ k E])
  fix n a and w w' :: "('d, 'v) settle_world"
  assume "good w" and "(if pe_fault en n then Inl ErrRepository
      else Inr (map_option (scanTrade W) (List.find (\<lambda>r. row_trade_id r = t) (sw_rows w))), w) = (Inr a, w')"
  then show "found t a w'"
    by (auto simp: found_def hasRow_def doneRow_def inWallet_def good_def scanTrade_def split: if_splits option.splits
        dest!: find_in)
qed (auto split: if_splits)

lemma hoare_insert:
  fixes w0 :: "('d, 'v) settle_world"
  assumes ob: "obeys G en" and g0: "good w0" and p: "kept G p"
    and t: "st_BuyerID t \<noteq> st_SellerID t" "st_BaseAsset t \<noteq> st_QuoteAsset t"
    and k: "hoare (holds (\<lambda>w. follows G w0 w \<and> p w \<and> hasRow (st_TradeID t) w)) (k ()) Q E"
    and E: "\<And>e s. follows G w0 (x_base s) \<Longrightarrow> p (x_base s) \<Longrightarrow> E e s"
  shows "hoare (holds (\<lambda>w. follows G w0 w \<and> p w)) (bindT (InsertTrade en W t) k) Q E"
  unfolding InsertTrade_def
proof (rule hoare_step[OF ob g0 p, where q = "\<lambda>_. hasRow (st_TradeID t)"])
  fix n a r and w w' :: "('d, 'v) settle_world"
  assume w: "good w" and f: "autocommit en sw_rows (\<lambda>rs w. w\<lparr>sw_rows := rs\<rparr>) ErrRepository
    (insertSettledTrade W (pe_now en n) t) n w = (r, w')"
  show "w' = w \<or> G w w'" by (rule insert_step(1)[OF w f t])
next
  fix n a and w w' :: "('d, 'v) settle_world"
  assume w: "good w" and f: "autocommit en sw_rows (\<lambda>rs w. w\<lparr>sw_rows := rs\<rparr>) ErrRepository
    (insertSettledTrade W (pe_now en n) t) n w = (Inr a, w')"
  show "hasRow (st_TradeID t) w'" by (rule insert_step(2)[OF w f t]) (rule refl)
qed (use k E in simp_all)

lemma hoare_call:
  fixes w0 :: "('d, 'v) settle_world"
  assumes ob: "obeys G en" and g0: "good w0" and p: "kept G p"
    and rq: "idOf (sr_TradeId rq) = Some t" "idOf (sr_BuyerId rq) = Some b" "idOf (sr_SellerId rq) = Some s" "b \<noteq> s"
      "sr_BaseAsset rq \<noteq> sr_QuoteAsset rq"
    and k: "hoare (holds (\<lambda>w. follows G w0 w \<and> p w \<and> inWallet t w)) (k ()) Q E"
    and E: "\<And>e s. follows G w0 (x_base s) \<Longrightarrow> p (x_base s) \<Longrightarrow> E e s"
  shows "hoare (holds (\<lambda>w. follows G w0 w \<and> p w)) (bindT (callWallet en call rq) k) Q E"
  unfolding callWallet_def
proof (rule hoare_step[OF ob g0 p, where q = "\<lambda>_. inWallet t"])
  fix n a r and w w' :: "('d, 'v) settle_world"
  assume w: "good w" and f: "(case call n rq (sw_wallet w) of
    (r, v) \<Rightarrow> (case r of Inl msg \<Rightarrow> Inl (ErrWallet msg) | Inr _ \<Rightarrow> Inr (), w\<lparr>sw_wallet := v\<rparr>)) = (r, w')"
  show "w' = w \<or> G w w'" by (rule wallet_call_step[OF w f])
next
  fix n a and w w' :: "('d, 'v) settle_world"
  assume w: "good w" and f: "(case call n rq (sw_wallet w) of
    (r, v) \<Rightarrow> (case r of Inl msg \<Rightarrow> Inl (ErrWallet msg) | Inr _ \<Rightarrow> Inr (), w\<lparr>sw_wallet := v\<rparr>)) = (Inr a, w')"
  show "inWallet t w'" by (rule wallet_call_records[OF w f rq])
qed (use k E in simp_all)

lemma hoare_mark:
  fixes w0 :: "('d, 'v) settle_world"
  assumes ob: "obeys G en" and g0: "good w0" and p: "kept G p" and i: "\<And>w. p w \<Longrightarrow> inWallet t w \<and> hasRow t w"
    and Q: "\<And>s. follows G w0 (x_base s) \<Longrightarrow> p (x_base s) \<Longrightarrow> doneRow t (x_base s) \<Longrightarrow> Q () s"
    and E: "\<And>e s. follows G w0 (x_base s) \<Longrightarrow> p (x_base s) \<Longrightarrow> E e s"
  shows "hoare (holds (\<lambda>w. follows G w0 w \<and> p w)) (MarkSettled en W t) Q E"
  unfolding MarkSettled_def
proof (rule hoare_step[OF ob g0 p, where q = "\<lambda>_. doneRow t"])
  fix n r and w w' :: "('d, 'v) settle_world"
  assume w: "p w" "good w" and f: "autocommit en sw_rows (\<lambda>rs w. w\<lparr>sw_rows := rs\<rparr>) ErrRepository (updateSettled (pe_now en n) t) n w = (r, w')"
  show "w' = w \<or> G w w'" by (rule settle_row_step(1)[OF w(2) f conjunct1[OF i[OF w(1)]]])
next
  fix n a and w w' :: "('d, 'v) settle_world"
  assume w: "p w" "good w" and f: "autocommit en sw_rows (\<lambda>rs w. w\<lparr>sw_rows := rs\<rparr>) ErrRepository (updateSettled (pe_now en n) t) n w = (Inr a, w')"
  note * = settle_row_step[OF w(2) f conjunct1[OF i[OF w(1)]]]
  from * (1) have "hasRow t w'" using i[OF w(1)] hasRow_kept unfolding kept_def by metis
  with * (2) show "doneRow t w'" by blast
next
  fix a :: nat
  have p': "kept G (\<lambda>w. p w \<and> doneRow t w)" using p by (intro kept_facts)
  show "hoare (holds (\<lambda>w. follows G w0 w \<and> p w \<and> doneRow t w))
     (if a = 0 then bindT (FindByTradeID en W t) (\<lambda>existing. case existing of None \<Rightarrow> throw ErrTradeMissing | Some _ \<Rightarrow> ret ())
      else ret ()) Q E"
    by (intro hoare_if hoare_find[OF ob g0 p'] hoare_option hoare_throw hoare_ret) (auto simp: holds_def intro: Q E)
qed (rule E)

lemma Settle_hoare:
  fixes w0 :: "('d::linordered_idom, 'v) settle_world"
  assumes ob: "obeys G en" and g0: "good w0" and u: "idOf = u_Parse W"
    and ev: "\<And>base quote. parseMarketID (te_MarketID ev) = Inr (base, quote) \<Longrightarrow> base \<noteq> quote"
  shows "hoare (holds (follows G w0)) (Settle en call W ev)
    (\<lambda>_ s. follows G w0 (x_base s) \<and> (\<exists>ids. validateEvent W ev = Inr ids \<and> doneRow (fst ids) (x_base s) \<and> inWallet (fst ids) (x_base s)))
    (\<lambda>_ s. follows G w0 (x_base s))"
  (is "hoare _ _ ?Q ?E")
  unfolding Settle_def
proof (rule hoare_lift)
  fix ids assume v: "validateEvent W ev = Inr ids"
  obtain t b s bo so where ids: "ids = (t, b, s, bo, so)" by (metis prod_cases5)
  from v have P: "idOf (te_TradeID ev) = Some t" "idOf (te_BuyerUserID ev) = Some b" "idOf (te_SellerUserID ev) = Some s" "b \<noteq> s"
    unfolding ids u validateEvent_def by (auto split: option.splits if_splits)
  show "hoare (holds (follows G w0)) (bindT (FindByTradeID en W (fst ids)) (\<lambda>existing.
     if map_option st_Status existing = Some StatusSettled then ret ()
     else
       bindT (lift (parseMarketID (te_MarketID ev))) (\<lambda>(base, quote).
       bindT (if existing = None then settlePhase1 en W ev ids base quote else ret ()) (\<lambda>_.
       bindT (callWallet en call (settleRequest ev base quote)) (\<lambda>_.
       MarkSettled en W (fst ids)))))) ?Q ?E"
  proof (rule hoare_weaken[where P = "holds (\<lambda>w. follows G w0 w \<and> True)"], rule hoare_find[OF ob g0 kept_True])
    fix existing
    show "hoare (holds (\<lambda>w. follows G w0 w \<and> True \<and> found (fst ids) existing w))
     (if map_option st_Status existing = Some StatusSettled then ret ()
     else
       bindT (lift (parseMarketID (te_MarketID ev))) (\<lambda>(base, quote).
       bindT (if existing = None then settlePhase1 en W ev ids base quote else ret ()) (\<lambda>_.
       bindT (callWallet en call (settleRequest ev base quote)) (\<lambda>_.
       MarkSettled en W (fst ids))))) ?Q ?E"
    proof (rule hoare_if)
      assume "map_option st_Status existing = Some StatusSettled"
      then show "hoare (holds (\<lambda>w. follows G w0 w \<and> True \<and> found (fst ids) existing w)) (ret ()) ?Q ?E"
        by (intro hoare_ret) (auto simp: holds_def found_def v)
    next
      have rest: "hoare (holds (\<lambda>w. follows G w0 w \<and> hasRow t w)) (bindT (callWallet en call (settleRequest ev base quote)) (\<lambda>_.
         MarkSettled en W t)) ?Q ?E" if "base \<noteq> quote" for base quote
        by (rule hoare_call[OF ob g0 hasRow_kept _ _ _ P(4)], simp_all add: settleRequest_def P that,
          rule hoare_mark[OF ob g0 kept_conj[OF hasRow_kept inWallet_kept]]) (auto simp: v ids)
      show "hoare (holds (\<lambda>w. follows G w0 w \<and> True \<and> found (fst ids) existing w))
       (bindT (lift (parseMarketID (te_MarketID ev))) (\<lambda>(base, quote).
       bindT (if existing = None then settlePhase1 en W ev ids base quote else ret ()) (\<lambda>_.
       bindT (callWallet en call (settleRequest ev base quote)) (\<lambda>_.
       MarkSettled en W (fst ids))))) ?Q ?E"
      proof (rule hoare_lift)
        fix bq assume bq: "parseMarketID (te_MarketID ev) = Inr bq"
        obtain base quote where q: "bq = (base, quote)" by force
        with bq ev have "base \<noteq> quote" by blast
        show "hoare (holds (\<lambda>w. follows G w0 w \<and> True \<and> found (fst ids) existing w))
          (case bq of (base, quote) \<Rightarrow>
             bindT (if existing = None then settlePhase1 en W ev ids base quote else ret ()) (\<lambda>_.
             bindT (callWallet en call (settleRequest ev base quote)) (\<lambda>_.
             MarkSettled en W (fst ids)))) ?Q ?E"
        proof (cases existing)
          case None
          show ?thesis
            unfolding q prod.case bindT_if if_P[OF None] settlePhase1_def ids fst_conv
            using rest[OF \<open>base \<noteq> quote\<close>] P(4) \<open>base \<noteq> quote\<close>
            by (cases "t_ParseNano W (te_ExecutedAt ev)")
              (auto simp: bindT_throw holds_def None found_def intro!: hoare_throw hoare_insert[OF ob g0 kept_True, simplified])
        next
          case (Some x)
          then show ?thesis using rest[OF \<open>base \<noteq> quote\<close>]
            by (auto simp: q ids bindT_ret found_def holds_def elim: hoare_weaken)
        qed
      qed (simp add: holds_def)
    qed
  qed (auto simp: holds_def)
qed (auto simp: holds_def)

lemma recoverTrade_hoare:
  fixes w0 :: "('d, 'v) settle_world"
  assumes ob: "obeys G en" and g0: "good w0" and p: "kept G p" and h: "\<And>w. p w \<Longrightarrow> hasRow (st_TradeID t) w"
    and u: "\<And>v. idOf (u_String W v) = Some v" and t: "st_BuyerID t \<noteq> st_SellerID t" "st_BaseAsset t \<noteq> st_QuoteAsset t"
  shows "hoare (holds (\<lambda>w. follows G w0 w \<and> p w)) (recoverTrade en call W t)
    (\<lambda>_. holds (\<lambda>w. follows G w0 w \<and> p w)) E"
  unfolding recoverTrade_def
proof (rule hoare_tried[where R = "\<lambda>r. holds (\<lambda>w. follows G w0 w \<and> p w \<and> ((\<exists>a. r = Inr a) \<longrightarrow> inWallet (st_TradeID t) w))"])
  show "hoare (holds (\<lambda>w. follows G w0 w \<and> p w)) (callWallet en call (recoverRequest W t))
     (\<lambda>a. holds (\<lambda>w. follows G w0 w \<and> p w \<and> ((\<exists>aa. Inr a = Inr aa) \<longrightarrow> inWallet (st_TradeID t) w)))
     (\<lambda>e. holds (\<lambda>w. follows G w0 w \<and> p w \<and> ((\<exists>a. Inl e = Inr a) \<longrightarrow> inWallet (st_TradeID t) w)))"
    by (rule hoare_last, rule hoare_call[OF ob g0 p _ _ _ t(1)])
      (auto simp: recoverRequest_def u t holds_def intro!: hoare_ret)
next
  fix r
  let ?P = "holds (\<lambda>w. follows G w0 w \<and> p w)"
  have fail: "hoare ?P (bindT (clock en) (\<lambda>now.
      ignoreErr (RecordSettlementFailure en (st_TradeID t) msg perm (now + backoff (st_RetryCount t))))) (\<lambda>_. ?P) E" for msg perm
  proof (rule hoare_clock[OF stable_conj[OF stable_follows[OF ob] stable_kept[OF ob p]]])
    fix now
    have "hoare ?P (RecordSettlementFailure en (st_TradeID t) msg perm (now + backoff (st_RetryCount t))) (\<lambda>_. ?P) (\<lambda>_. ?P)"
      unfolding RecordSettlementFailure_def
      by (rule hoare_step[OF ob g0 p, where q = "\<lambda>_ _. True"])
        ((rule failure_row_step; assumption) | simp | rule hoare_ret | simp add: holds_def)+
    then show "hoare ?P (ignoreErr (RecordSettlementFailure en (st_TradeID t) msg perm (now + backoff (st_RetryCount t)))) (\<lambda>_. ?P) E"
      by (rule hoare_ignore)
  qed
  have mark: "hoare (holds (\<lambda>w. follows G w0 w \<and> p w \<and> inWallet (st_TradeID t) w)) (ignoreErr (MarkSettled en W (st_TradeID t))) (\<lambda>_. ?P) E"
    by (rule hoare_ignore[OF hoare_mark[OF ob g0 kept_conj[OF p inWallet_kept]]]) (use h in \<open>auto simp: holds_def\<close>)
  show "hoare (holds (\<lambda>w. follows G w0 w \<and> p w \<and> ((\<exists>a. r = Inr a) \<longrightarrow> inWallet (st_TradeID t) w)))
     (case r of
       Inl e \<Rightarrow>
         (let msg = (case e of ErrWallet m \<Rightarrow> m | _ \<Rightarrow> []);
              permanent = isPermanentSettlementError msg \<or> st_RetryCount t \<ge> 4 in
          bindT (clock en) (\<lambda>now.
          ignoreErr (RecordSettlementFailure en (st_TradeID t) msg permanent (now + backoff (st_RetryCount t)))))
     | Inr _ \<Rightarrow> ignoreErr (MarkSettled en W (st_TradeID t))) (\<lambda>_. ?P) E"
    by (cases r) (use fail mark in \<open>simp_all add: Let_def\<close>)
qed

lemma recoverTrades_hoare:
  fixes w0 :: "('d, 'v) settle_world"
  assumes ob: "obeys G en" and g0: "good w0" and u: "\<And>v. idOf (u_String W v) = Some v"
    and t: "\<And>t. t \<in> set ts \<Longrightarrow> st_BuyerID t \<noteq> st_SellerID t \<and> st_BaseAsset t \<noteq> st_QuoteAsset t"
    and p: "kept G p" and h: "\<And>t w. t \<in> set ts \<Longrightarrow> p w \<Longrightarrow> hasRow (st_TradeID t) w"
  shows "hoare (holds (\<lambda>w. follows G w0 w \<and> p w)) (recoverTrades en call W ts) (\<lambda>_. holds (\<lambda>w. follows G w0 w \<and> p w)) E"
  using t h
proof (induction ts)
  case Nil
  then show ?case by (simp add: hoare_ret)
next
  case (Cons x ts)
  show ?case unfolding recoverTrades.simps
    by (rule hoare_bind, rule recoverTrade_hoare[OF ob g0 p _ u])
      (use Cons.prems Cons.IH in simp_all)
qed

lemma kept_hasRows: "kept G (\<lambda>w. \<forall>t\<in>A. hasRow (f t) w)"
  using hasRow_kept unfolding kept_def by blast

lemma RecoverStalePending_hoare:
  fixes w0 :: "('d, 'v) settle_world"
  assumes ob: "obeys G en" and g0: "good w0" and u: "\<And>v. idOf (u_String W v) = Some v"
  shows "hoare (holds (follows G w0)) (RecoverStalePending en call W) (\<lambda>_. holds (follows G w0)) E"
  unfolding RecoverStalePending_def
proof (rule hoare_tried[where R = "\<lambda>r. holds (\<lambda>w. follows G w0 w \<and> (\<forall>ts. r = Inr ts \<longrightarrow>
    (\<forall>t\<in>set ts. hasRow (st_TradeID t) w \<and> st_BuyerID t \<noteq> st_SellerID t \<and> st_BaseAsset t \<noteq> st_QuoteAsset t)))"])
  show "hoare (holds (follows G w0)) (FindStalePending en W staleThreshold batchLimit)
   (\<lambda>a. holds (\<lambda>w. follows G w0 w \<and> (\<forall>ts. Inr a = Inr ts \<longrightarrow>
      (\<forall>t\<in>set ts. hasRow (st_TradeID t) w \<and> st_BuyerID t \<noteq> st_SellerID t \<and> st_BaseAsset t \<noteq> st_QuoteAsset t))))
   (\<lambda>e. holds (\<lambda>w. follows G w0 w \<and> (\<forall>ts. Inl e = Inr ts \<longrightarrow>
      (\<forall>t\<in>set ts. hasRow (st_TradeID t) w \<and> st_BuyerID t \<noteq> st_SellerID t \<and> st_BaseAsset t \<noteq> st_QuoteAsset t))))"
    unfolding FindStalePending_def
  proof (rule hoare_clock[OF stable_follows[OF ob]], rule hoare_last,
      rule hoare_weaken[where P = "holds (\<lambda>w. follows G w0 w \<and> True)"], rule hoare_step[OF ob g0 kept_True])
    fix now n a and w w' :: "('d, 'v) settle_world"
    assume g: "good w" and "(if pe_fault en n then Inl ErrRepository
        else Inr (map (scanTrade W) (stalePending (se_locked en n) (pe_now en n) (now - staleThreshold) batchLimit (sw_rows w))), w) = (Inr a, w')"
    then have "w' = w" "a = map (scanTrade W) (stalePending (se_locked en n) (pe_now en n) (now - staleThreshold) batchLimit (sw_rows w))"
      by (auto split: if_splits)
    then show "\<forall>t\<in>set a. hasRow (st_TradeID t) w' \<and> st_BuyerID t \<noteq> st_SellerID t \<and> st_BaseAsset t \<noteq> st_QuoteAsset t"
      using g by (auto simp: scanTrade_def hasRow_def good_def dest!: stalePending_in)
  qed (auto simp: holds_def split: if_splits intro: hoare_ret)
next
  fix r :: "settlement_error + settled_trade list"
  show "hoare (holds (\<lambda>w. follows G w0 w \<and> (\<forall>ts. r = Inr ts \<longrightarrow>
    (\<forall>t\<in>set ts. hasRow (st_TradeID t) w \<and> st_BuyerID t \<noteq> st_SellerID t \<and> st_BaseAsset t \<noteq> st_QuoteAsset t))))
    (case r of Inl _ \<Rightarrow> ret () | Inr ts \<Rightarrow> recoverTrades en call W ts) (\<lambda>_. holds (follows G w0)) E"
  proof (cases r)
    case (Inl e)
    then show ?thesis by (auto simp: holds_def intro!: hoare_ret)
  next
    case (Inr ts)
    show ?thesis
    proof (cases "\<forall>t\<in>set ts. st_BuyerID t \<noteq> st_SellerID t \<and> st_BaseAsset t \<noteq> st_QuoteAsset t")
      case True
      have "hoare (holds (\<lambda>w. follows G w0 w \<and> (\<forall>t\<in>set ts. hasRow (st_TradeID t) w))) (recoverTrades en call W ts)
         (\<lambda>_. holds (\<lambda>w. follows G w0 w \<and> (\<forall>t\<in>set ts. hasRow (st_TradeID t) w))) E"
        by (rule recoverTrades_hoare[OF ob g0 u _ kept_hasRows]) (use True in auto)
      then show ?thesis unfolding Inr
        by (auto simp: holds_def elim!: hoare_weaken[OF hoare_conseq])
    next
      case False
      then show ?thesis unfolding Inr hoare_def holds_def by blast
    qed
  qed
qed

lemma commitMsg_hoare:
  fixes w0 :: "('d, 'v) settle_world"
  assumes ob: "obeys G en" and g0: "good w0"
  shows "hoare (holds (follows G w0)) (commitMsg en offset) (\<lambda>_. holds (follows G w0)) (\<lambda>_. holds (follows G w0))"
  unfolding commitMsg_def
proof (rule hoare_last, rule hoare_weaken[where P = "holds (\<lambda>w. follows G w0 w \<and> True)"],
    rule hoare_step[OF ob g0 kept_True, where q = "\<lambda>_ _. True"])
  fix n r and w w' :: "('d, 'v) settle_world"
  assume "autocommit en sw_committed (\<lambda>c w. w\<lparr>sw_committed := c\<rparr>) ErrRepository (\<lambda>_. Inr ((), Suc offset)) n w = (r, w')"
  from autocommit_result[OF this] show "w' = w \<or> G w w'" by (auto intro: settlement_step.commit)
qed (auto simp: holds_def intro: hoare_ret)

lemma consumeMsg_hoare:
  fixes w0 :: "('d::linordered_idom, 'v) settle_world"
  assumes ob: "obeys G en" and g0: "good w0" and u: "idOf = u_Parse W"
    and ev: "\<And>ev base quote. decode value = Some ev \<Longrightarrow> parseMarketID (te_MarketID ev) = Inr (base, quote) \<Longrightarrow> base \<noteq> quote"
  shows "hoare (holds (follows G w0)) (consumeMsg en call W decode offset value) (\<lambda>_. holds (follows G w0)) E"
proof -
  have commit: "hoare (holds (follows G w0)) (ignoreErr (commitMsg en offset)) (\<lambda>_. holds (follows G w0)) E"
    by (rule hoare_ignore[OF commitMsg_hoare[OF ob g0]])
  show ?thesis
  proof (cases "decode value")
    case None
    with commit show ?thesis by (simp add: consumeMsg_def)
  next
    case (Some ev')
    have "hoare (holds (follows G w0)) (bindT (tryT (Settle en call W ev')) (\<lambda>r. case r of
        Inl e \<Rightarrow> if e = ErrSelfTrade then ignoreErr (commitMsg en offset) else ret ()
      | Inr _ \<Rightarrow> ignoreErr (commitMsg en offset))) (\<lambda>_. holds (follows G w0)) E"
    proof (rule hoare_tried[where R = "\<lambda>_. holds (follows G w0)"])
      show "hoare (holds (follows G w0)) (Settle en call W ev') (\<lambda>_. holds (follows G w0)) (\<lambda>_. holds (follows G w0))"
        by (rule hoare_conseq, rule Settle_hoare[OF ob g0 u], rule ev[OF Some]) (simp_all add: holds_def)
      show "hoare (holds (follows G w0)) (case r of Inl e \<Rightarrow> if e = ErrSelfTrade then ignoreErr (commitMsg en offset) else ret ()
          | Inr _ \<Rightarrow> ignoreErr (commitMsg en offset)) (\<lambda>_. holds (follows G w0)) E" for r
        using commit by (auto split: sum.split intro: hoare_ret)
    qed
    with Some show ?thesis by (simp add: consumeMsg_def)
  qed
qed

lemma consumerLoop_hoare:
  fixes w0 :: "('d::linordered_idom, 'v) settle_world"
  assumes ob: "obeys G en" and g0: "good w0" and u: "idOf = u_Parse W"
    and ev: "\<And>value ev base quote. decode value = Some ev \<Longrightarrow> parseMarketID (te_MarketID ev) = Inr (base, quote) \<Longrightarrow> base \<noteq> quote"
  shows "hoare (holds (follows G w0)) (consumerLoop en call W decode log fs p) (\<lambda>_. holds (follows G w0)) (\<lambda>_. holds (follows G w0))"
proof (induction fs arbitrary: p)
  case Nil
  show ?case by (simp add: hoare_ret)
next
  case (Cons f fs)
  have "hoare (holds (follows G w0)) (bindT (consumeMsg en call W decode p (log ! p)) (\<lambda>_. consumerLoop en call W decode log fs (Suc p)))
      (\<lambda>_. holds (follows G w0)) (\<lambda>_. holds (follows G w0))"
    by (rule hoare_bind, rule consumeMsg_hoare[OF ob g0 u], erule (1) ev, rule Cons.IH)
  then show ?case
    by (cases f) (simp_all add: hoare_ret Cons.IH)
qed

lemma Start_hoare:
  fixes w0 :: "('d::linordered_idom, 'v) settle_world"
  assumes ob: "obeys G en" and g0: "good w0" and u: "idOf = u_Parse W"
    and ev: "\<And>value ev base quote. decode value = Some ev \<Longrightarrow> parseMarketID (te_MarketID ev) = Inr (base, quote) \<Longrightarrow> base \<noteq> quote"
  shows "hoare (holds (follows G w0)) (Start en call W decode log fs) (\<lambda>_. holds (follows G w0)) (\<lambda>_. holds (follows G w0))"
  unfolding Start_def
  by (rule hoare_act[OF stable_follows[OF ob], where q = "\<lambda>_. follows G w0"])
    (auto intro: consumerLoop_hoare[OF ob g0 u ev])

end

section \<open>The service next to the wallet\<close>

text \<open>The processes of the service.\<close>

datatype settlement_process = Consume "string list" "fetch list" | Recover | SettleOne trade_event

definition runProcess ::
  "(('d::linordered_idom, 'd wallet_db) settle_world) settle_env \<Rightarrow> 'd wallet_db rpc_env \<Rightarrow> 'd wlib \<Rightarrow>
   (string \<Rightarrow> trade_event option) \<Rightarrow> settlement_process \<Rightarrow> ('d, 'd wallet_db) settle_world \<Rightarrow> ('d, 'd wallet_db) settle_world" where
  "runProcess en re W decode pr w =
     (case pr of
        Consume log fs \<Rightarrow> snd (run (Start en (WalletClient_SettleTrade re W) W decode log fs) w)
      | Recover \<Rightarrow> snd (run (RecoverStalePending en (WalletClient_SettleTrade re W) W) w)
      | SettleOne ev \<Rightarrow> snd (run (Settle en (WalletClient_SettleTrade re W) W ev) w))"

text \<open>
  A world in order: the wallet is sound, trades have one row, of two users and two assets,
  and what is marked settled the wallet has registered.
\<close>

definition settlementOk ::
  "('d::linordered_idom) wallet_db rpc_env \<Rightarrow> 'd wlib \<Rightarrow> 'd set \<Rightarrow> ('d, 'd wallet_db) settle_world \<Rightarrow> bool" where
  "settlementOk re W T w \<longleftrightarrow> walletSound re W T (sw_wallet w) \<and> distinct (map row_trade_id (sw_rows w)) \<and>
     (\<forall>r\<in>set (sw_rows w). row_base_asset r \<noteq> row_quote_asset r \<and> row_buyer_id r \<noteq> row_seller_id r \<and>
        (row_status r = StatusSettled \<longrightarrow> row_trade_id r \<in> s_TradeID ` set (db_settled (sw_wallet w))))"

text \<open>A market of two different assets.\<close>

definition twoAssets :: "trade_event \<Rightarrow> bool" where
  "twoAssets ev \<longleftrightarrow> (case parseMarketID (te_MarketID ev) of Inr (base, quote) \<Rightarrow> base \<noteq> quote | Inl _ \<Rightarrow> True)"

abbreviation exchangeStep :: "('d::linordered_idom) set \<Rightarrow> ('d, 'd wallet_db) settle_world \<Rightarrow> ('d, 'd wallet_db) settle_world \<Rightarrow> bool" where
  "exchangeStep T \<equiv> settlement_step (walletMoves T) walletRecorded"

lemma good_settlementOk: "wallet.good re W T = settlementOk re W T"
  by (auto simp: fun_eq_iff wallet.good_def settlementOk_def walletRecorded_def)

lemma runProcess_follows:
  assumes ok: "settlementOk re W T w" and ob: "obeys (exchangeStep T) en"
    and ev: "\<And>v ev. decode v = Some ev \<Longrightarrow> twoAssets ev" and one: "\<And>ev. pr = SettleOne ev \<Longrightarrow> twoAssets ev"
  shows "follows (exchangeStep T) w (runProcess en re W decode pr w)"
proof -
  have g: "wallet.good re W T w" using ok good_settlementOk[where re = re and W = W and T = T] by simp
  have u: "u_Parse W (u_String W v) = Some v" for v using ok by (auto simp: settlementOk_def walletSound_def uuids_agree_def)
  have d: "base \<noteq> quote" if "decode v = Some ev" "parseMarketID (te_MarketID ev) = Inr (base, quote)" for v ev base quote
    using ev[OF that(1)] that(2) by (simp add: twoAssets_def)
  note start = follows_refl[of "exchangeStep T" w]
  show ?thesis
  proof (cases pr)
    case (Consume log fs)
    have "hoare (holds (follows (exchangeStep T) w)) (Start en (WalletClient_SettleTrade re W) W decode log fs)
        (\<lambda>_. holds (follows (exchangeStep T) w)) (\<lambda>_. holds (follows (exchangeStep T) w))"
      by (rule wallet.Start_hoare[OF ob g refl]) (rule d)
    from hoare_run[OF this start] show ?thesis
      by (auto simp: Consume runProcess_def holds_def split: prod.splits sum.splits)
  next
    case Recover
    from hoare_run[OF wallet.RecoverStalePending_hoare[OF ob g u, where E = "\<lambda>_. holds (follows (exchangeStep T) w)"] start] show ?thesis
      by (auto simp: Recover runProcess_def holds_def split: prod.splits sum.splits)
  next
    case (SettleOne ev')
    have q: "base \<noteq> quote" if "parseMarketID (te_MarketID ev') = Inr (base, quote)" for base quote
      using one[OF SettleOne] that by (simp add: twoAssets_def)
    have "hoare (holds (follows (exchangeStep T) w)) (Settle en (WalletClient_SettleTrade re W) W ev')
        (\<lambda>_. holds (follows (exchangeStep T) w)) (\<lambda>_. holds (follows (exchangeStep T) w))"
      by (rule hoare_conseq, rule wallet.Settle_hoare[OF ob g refl], rule q) (simp_all add: holds_def)
    from hoare_run[OF this start] show ?thesis
      by (auto simp: SettleOne runProcess_def holds_def split: prod.splits sum.splits)
  qed
qed

end
