(* ===== verification/SettlementRetry.thy ===== *)
theory SettlementRetry
  imports SettlementProps
begin

text \<open>
  How often a trade is retried: whatever the wallet answers, the recovery gives a trade up
  at its fifth failure. First the stored counter, then the calls themselves, counted by the
  wallet's side of the interface.
\<close>

section \<open>Retries\<close>

definition retriesOk :: "('d, 'v) settle_world \<Rightarrow> bool" where
  "retriesOk w \<longleftrightarrow> distinct (map row_trade_id (sw_rows w)) \<and>
     (\<forall>r\<in>set (sw_rows w). 0 \<le> row_retry_count r \<and> row_retry_count r \<le> 5 \<and>
        (row_status r = StatusPending \<longrightarrow> row_retry_count r \<le> 4))"

text \<open>What the processes other than the recovery do: insert rows and settle them.\<close>

definition keepsRetries :: "('d, 'v) settle_world \<Rightarrow> ('d, 'v) settle_world \<Rightarrow> bool" where
  "keepsRetries w w' \<longleftrightarrow> (distinct (map row_trade_id (sw_rows w)) \<longrightarrow>
     distinct (map row_trade_id (sw_rows w')) \<and>
     (\<forall>r\<in>set (sw_rows w). \<exists>r'\<in>set (sw_rows w'). row_trade_id r' = row_trade_id r \<and> row_retry_count r' = row_retry_count r \<and>
        (row_status r \<noteq> StatusPending \<longrightarrow> row_status r' \<noteq> StatusPending)) \<and>
     (\<forall>r'\<in>set (sw_rows w'). row_trade_id r' \<in> row_trade_id ` set (sw_rows w) \<or> row_retry_count r' = 0))"

text \<open>The two statements of the consumer that write rows are such steps.\<close>

lemma insert_keepsRetries:
  assumes "insertSettledTrade W now t (sw_rows w) = Inr (u, rows)"
  shows "keepsRetries w (w\<lparr>sw_rows := rows\<rparr>)"
  using insertSettledTrade_result[OF assms] unfolding keepsRetries_def by (elim disjE exE conjE) (auto 0 3)

lemma settled_keepsRetries:
  assumes "updateSettled now tid (sw_rows w) = Inr (n, rows)"
  shows "keepsRetries w (w\<lparr>sw_rows := rows\<rparr>)"
  unfolding keepsRetries_def
proof
  assume d: "distinct (map row_trade_id (sw_rows w))"
  from assms[unfolded updateSettled_def swap_result_Inr] update_pending[OF _ d]
  show "distinct (map row_trade_id (sw_rows (w\<lparr>sw_rows := rows\<rparr>))) \<and>
     (\<forall>r\<in>set (sw_rows w). \<exists>r'\<in>set (sw_rows (w\<lparr>sw_rows := rows\<rparr>)). row_trade_id r' = row_trade_id r \<and>
        row_retry_count r' = row_retry_count r \<and> (row_status r \<noteq> StatusPending \<longrightarrow> row_status r' \<noteq> StatusPending)) \<and>
     (\<forall>r'\<in>set (sw_rows (w\<lparr>sw_rows := rows\<rparr>)). row_trade_id r' \<in> row_trade_id ` set (sw_rows w) \<or> row_retry_count r' = 0)"
    using d by fastforce
qed

text \<open>What the recovery knows of the trades it has still to retry.\<close>

definition retrying :: "settled_trade list \<Rightarrow> ('d, 'v) settle_world \<Rightarrow> bool" where
  "retrying ts w \<longleftrightarrow> retriesOk w \<and> (\<forall>t\<in>set ts. \<exists>r\<in>set (sw_rows w). row_trade_id r = st_TradeID t \<and>
     (row_status r = StatusPending \<longrightarrow> row_retry_count r = st_RetryCount t))"

lemma same_row: "distinct (map f rs) \<Longrightarrow> x \<in> set rs \<Longrightarrow> y \<in> set rs \<Longrightarrow> f x = f y \<Longrightarrow> x = y"
  by (metis distinct_map inj_onD)

lemma retrying_kept:
  assumes k: "keepsRetries w w'" and r: "retrying ts w"
  shows "retrying ts w'"
proof -
  from r have d: "distinct (map row_trade_id (sw_rows w))" by (simp add: retrying_def retriesOk_def)
  with k have d': "distinct (map row_trade_id (sw_rows w'))"
    and fwd: "\<And>r. r \<in> set (sw_rows w) \<Longrightarrow> \<exists>r'\<in>set (sw_rows w'). row_trade_id r' = row_trade_id r \<and>
      row_retry_count r' = row_retry_count r \<and> (row_status r \<noteq> StatusPending \<longrightarrow> row_status r' \<noteq> StatusPending)"
    and old: "\<And>r'. r' \<in> set (sw_rows w') \<Longrightarrow> row_trade_id r' \<in> row_trade_id ` set (sw_rows w) \<or> row_retry_count r' = 0"
    unfolding keepsRetries_def by blast+
  have bounds: "0 \<le> row_retry_count r' \<and> row_retry_count r' \<le> 5 \<and> (row_status r' = StatusPending \<longrightarrow> row_retry_count r' \<le> 4)"
    if r': "r' \<in> set (sw_rows w')" for r'
  proof (cases "row_retry_count r' = 0")
    case False
    with old[OF r'] obtain r0 where r0: "r0 \<in> set (sw_rows w)" "row_trade_id r0 = row_trade_id r'" by auto
    from fwd[OF r0(1)] same_row[OF d' r'] r0(2) have "row_retry_count r' = row_retry_count r0"
      "row_status r' = StatusPending \<longrightarrow> row_status r0 = StatusPending" by metis+
    with r r0(1) show ?thesis by (auto simp: retrying_def retriesOk_def)
  qed simp
  have "\<exists>r'\<in>set (sw_rows w'). row_trade_id r' = st_TradeID t \<and> (row_status r' = StatusPending \<longrightarrow> row_retry_count r' = st_RetryCount t)"
    if "t \<in> set ts" for t
  proof -
    from r that obtain r0 where "r0 \<in> set (sw_rows w)" "row_trade_id r0 = st_TradeID t"
      "row_status r0 = StatusPending \<longrightarrow> row_retry_count r0 = st_RetryCount t" unfolding retrying_def by blast
    with fwd show ?thesis by metis
  qed
  with d' bounds show ?thesis unfolding retrying_def retriesOk_def by blast
qed

lemma retrying_rows: "sw_rows w' = sw_rows w \<Longrightarrow> retrying ts w' = retrying ts w"
  by (simp add: retrying_def retriesOk_def)

text \<open>Updating the row of one trade.\<close>

lemma retrying_update:
  assumes r: "retrying (t # ts) w" and d: "st_TradeID t \<notin> st_TradeID ` set ts"
    and rows: "sw_rows w = xs @ x # ys" "pendingRow (st_TradeID t) x" and w': "sw_rows w' = xs @ x' # ys"
    and x': "row_trade_id x' = row_trade_id x" "row_retry_count x \<le> row_retry_count x'" "row_retry_count x' \<le> row_retry_count x + 1"
      "row_status x' = StatusPending \<longrightarrow> row_retry_count x' \<le> 4"
  shows "retrying ts w'"
proof -
  have "row_retry_count x \<le> 4" using r rows by (simp add: retrying_def retriesOk_def pendingRow_def)
  moreover have "row_trade_id x' \<notin> st_TradeID ` set ts" using d rows x' by (simp add: pendingRow_def)
  ultimately show ?thesis
    using r rows x' w' unfolding retrying_def retriesOk_def by (auto 0 3)
qed

lemma update_keeps_retrying:
  fixes w w' :: "('d, 'v) settle_world"
  assumes "retrying (t # ts) w" and "st_TradeID t \<notin> st_TradeID ` set ts"
    and "f = updateSettled now (st_TradeID t) \<or>
      f = updateFailure msg perm next (st_TradeID t) \<and> (perm \<or> st_RetryCount t \<le> 3)"
    and "autocommit en sw_rows (\<lambda>rs w. w\<lparr>sw_rows := rs\<rparr>) err f n w = (r, w')"
  shows "retrying ts w'"
proof -
  have d: "distinct (map row_trade_id (sw_rows w))" using assms(1) by (simp add: retrying_def retriesOk_def)
  have old: "retrying ts w" using assms(1) by (simp add: retrying_def)
  from autocommit_result[OF assms(4)] consider "w' = w"
    | a rows where "f (sw_rows w) = Inr (a, rows)" "w' = w\<lparr>sw_rows := rows\<rparr>" by blast
  then show ?thesis
  proof cases
    case 2
    obtain g :: "'d settled_row \<Rightarrow> settlement_error + 'd settled_row" where g: "update_rows (pendingRow (st_TradeID t)) g (sw_rows w) = Inr (rows, a)"
      and gx: "\<And>x x'. g x = Inr x' \<Longrightarrow> pendingRow (st_TradeID t) x \<Longrightarrow> (row_retry_count x = st_RetryCount t) \<Longrightarrow> row_retry_count x \<le> 4 \<Longrightarrow>
        row_trade_id x' = row_trade_id x \<and> row_retry_count x \<le> row_retry_count x' \<and> row_retry_count x' \<le> row_retry_count x + 1 \<and>
        (row_status x' = StatusPending \<longrightarrow> row_retry_count x' \<le> 4)"
    proof -
      from assms(3) consider (settled) "f = updateSettled now (st_TradeID t)"
        | (failed) "f = updateFailure msg perm next (st_TradeID t)" "perm \<or> st_RetryCount t \<le> 3" by blast
      then show thesis
      proof cases
      case settled
      note f = this
      show thesis
        by (rule that[OF 2(1)[unfolded f updateSettled_def swap_result_Inr]]) (auto simp: pendingRow_def)
    next
      case failed
      note f = this(1)
      from failed show thesis
        by (intro that[OF 2(1)[unfolded f updateFailure_def swap_result_Inr]]) (auto simp: pendingRow_def split: if_splits)
      qed
    qed
    from update_pending[OF g d] show ?thesis
    proof (elim disjE conjE exE)
      assume "rows = sw_rows w"
      with old 2(2) retrying_rows[of w' w ts] show ?thesis by simp
    next
      fix xs x x' ys
      assume x: "sw_rows w = xs @ x # ys" "rows = xs @ x' # ys" "pendingRow (st_TradeID t) x" "g x = Inr x'"
      have xin: "x \<in> set (sw_rows w)" using x(1) by simp
      from assms(1) obtain r0 where "r0 \<in> set (sw_rows w)" "row_trade_id r0 = st_TradeID t"
        "row_status r0 = StatusPending \<longrightarrow> row_retry_count r0 = st_RetryCount t" unfolding retrying_def by auto
      with same_row[OF d xin] x(3) have "row_retry_count x = st_RetryCount t" by (metis pendingRow_def)
      moreover have "row_retry_count x \<le> 4" using assms(1) xin x(3) by (simp add: retrying_def retriesOk_def pendingRow_def)
      ultimately show ?thesis
        using gx[OF x(4,3)] x(2) 2(2) by (intro retrying_update[OF assms(1,2) x(1,3), where x' = x' and w' = w']) simp_all
    qed
  qed (use old in simp)
qed

lemma hoare_retrying:
  fixes w0 :: "('d, 'v) settle_world"
  assumes en: "\<And>n w. keepsRetries w (pe_other en n w)"
    and f: "\<And>n w r w'. retrying ts w \<Longrightarrow> f n w = (r, w') \<Longrightarrow> retrying ts' (w' :: ('d, 'v) settle_world)"
    and k: "\<And>a. hoare (holds (retrying ts')) (k a) Q E" and E: "\<And>e s. retrying ts' (x_base s) \<Longrightarrow> E e s"
  shows "hoare (holds (retrying ts)) (bindT (act en f) k) Q E"
proof (rule hoare_act[where q = "\<lambda>_. retrying ts'"])
  show "stable en (retrying ts)" unfolding stable_def using retrying_kept[OF en] by blast
qed (use f k E in blast)+

lemma find_keeps: "hoare (holds (retrying ts)) (FindByTradeID en W t) (\<lambda>_. holds (retrying ts)) (\<lambda>_. holds (retrying ts))"
  if "\<And>n w. keepsRetries w (pe_other en n w)"
  unfolding FindByTradeID_def look_def
  by (rule hoare_last, rule hoare_retrying[OF that]) (auto simp: holds_def intro: hoare_ret split: if_splits)

lemma recoverTrade_retries:
  fixes en :: "(('d::linordered_idom, 'v) settle_world, 'x) proc_env_scheme"
  assumes en: "\<And>n w. keepsRetries w (pe_other en n w)" and d: "st_TradeID t \<notin> st_TradeID ` set ts"
  shows "hoare (holds (retrying (t # ts))) (recoverTrade en call W t) (\<lambda>_. holds (retrying ts)) E"
  unfolding recoverTrade_def
proof (rule hoare_tried[where R = "\<lambda>_. holds (retrying (t # ts))"])
  have drop: "retrying (t # ts) w \<Longrightarrow> retrying ts w" for w :: "('d, 'v) settle_world" by (simp add: retrying_def)
  show "hoare (holds (retrying (t # ts))) (callWallet en call (recoverRequest W t))
     (\<lambda>_. holds (retrying (t # ts))) (\<lambda>_. holds (retrying (t # ts)))"
    unfolding callWallet_def
    by (rule hoare_last, rule hoare_retrying[OF en, where ts' = "t # ts"])
      (auto simp: holds_def retrying_def retriesOk_def split: prod.splits intro!: hoare_ret)
  have fail: "hoare (holds (retrying (t # ts))) (bindT (clock en) (\<lambda>now.
      ignoreErr (RecordSettlementFailure en (st_TradeID t) msg perm (now + backoff (st_RetryCount t))))) (\<lambda>_. holds (retrying ts)) E"
    if p: "perm \<or> st_RetryCount t \<le> 3" for msg perm
  proof (rule hoare_clock)
    show "stable en (retrying (t # ts))" unfolding stable_def using retrying_kept[OF en] by blast
    fix now
    show "hoare (holds (retrying (t # ts))) (ignoreErr (RecordSettlementFailure en (st_TradeID t) msg perm (now + backoff (st_RetryCount t))))
       (\<lambda>_. holds (retrying ts)) E"
    proof (rule hoare_ignore)
      show "hoare (holds (retrying (t # ts))) (RecordSettlementFailure en (st_TradeID t) msg perm (now + backoff (st_RetryCount t)))
         (\<lambda>_. holds (retrying ts)) (\<lambda>_. holds (retrying ts))"
        unfolding RecordSettlementFailure_def
        by (rule hoare_retrying[OF en, where ts' = ts], erule update_keeps_retrying[OF _ d])
          (use p in \<open>auto simp: holds_def intro: hoare_ret\<close>)
    qed (simp add: holds_def)
  qed
  have mark: "hoare (holds (retrying (t # ts))) (ignoreErr (MarkSettled en W (st_TradeID t))) (\<lambda>_. holds (retrying ts)) E"
  proof (rule hoare_ignore)
    have look: "hoare (holds (retrying ts)) (bindT (FindByTradeID en W (st_TradeID t)) (\<lambda>existing. case existing of
        None \<Rightarrow> throw ErrTradeMissing | Some x \<Rightarrow> ret ())) (\<lambda>_. holds (retrying ts)) (\<lambda>_. holds (retrying ts))"
      by (rule hoare_bind[OF find_keeps[OF en]]) (auto intro!: hoare_option hoare_throw hoare_ret)
    show "hoare (holds (retrying (t # ts))) (MarkSettled en W (st_TradeID t)) (\<lambda>_. holds (retrying ts)) (\<lambda>_. holds (retrying ts))"
      unfolding MarkSettled_def
      by (rule hoare_retrying[OF en, where ts' = ts], erule update_keeps_retrying[OF _ d])
        (use look in \<open>auto simp: holds_def intro: hoare_ret\<close>)
  qed (simp add: holds_def)
  show "hoare (holds (retrying (t # ts))) (case r of
       Inl e \<Rightarrow>
         (let msg = (case e of ErrWallet m \<Rightarrow> m | _ \<Rightarrow> []);
              permanent = isPermanentSettlementError msg \<or> st_RetryCount t \<ge> 4 in
          bindT (clock en) (\<lambda>now.
          ignoreErr (RecordSettlementFailure en (st_TradeID t) msg permanent (now + backoff (st_RetryCount t)))))
     | Inr _ \<Rightarrow> ignoreErr (MarkSettled en W (st_TradeID t))) (\<lambda>_. holds (retrying ts)) E" for r
    by (cases r) (simp_all add: Let_def mark, rule fail, linarith)
qed

lemma recoverTrades_retries:
  fixes en :: "(('d::linordered_idom, 'v) settle_world, 'x) proc_env_scheme"
  assumes en: "\<And>n w. keepsRetries w (pe_other en n w)" and "distinct (map st_TradeID ts)"
  shows "hoare (holds (retrying ts)) (recoverTrades en call W ts) (\<lambda>_. holds (retrying [])) E"
  using assms(2)
proof (induction ts)
  case Nil
  then show ?case by (simp add: hoare_ret)
next
  case (Cons t ts)
  then show ?case unfolding recoverTrades.simps
    by (intro hoare_bind[OF recoverTrade_retries[OF en]]) simp_all
qed

lemma stalePending_distinct:
  assumes "distinct (map row_trade_id rows)"
  shows "distinct (map row_trade_id (stalePending locked now cutoff limit rows))"
proof -
  have s: "distinct (map row_trade_id (sort_key f xs)) = distinct (map row_trade_id xs)" for f and xs :: "'a settled_row list"
    by (metis distinct_map distinct_sort set_sort)
  have t: "distinct (map row_trade_id xs) \<Longrightarrow> distinct (map row_trade_id (take n xs))" for n and xs :: "'a settled_row list"
    by (metis distinct_take take_map)
  show ?thesis unfolding stalePending_def
    by (rule t) (simp add: s distinct_map_filter[OF assms])
qed

lemma RecoverStalePending_retries:
  fixes en :: "('d::linordered_idom, 'v) settle_world settle_env"
  assumes en: "\<And>n w. keepsRetries w (pe_other en n w)"
  shows "hoare (holds (retrying [])) (RecoverStalePending en call W) (\<lambda>_. holds (retrying [])) E"
  unfolding RecoverStalePending_def
proof (rule hoare_tried[where R = "\<lambda>r. holds (\<lambda>w. retrying [] w \<and> (\<forall>ts. r = Inr ts \<longrightarrow> retrying ts w \<and> distinct (map st_TradeID ts)))"])
  have st: "stable en (retrying [])" unfolding stable_def using retrying_kept[OF en] by blast
  show "hoare (holds (retrying [])) (FindStalePending en W staleThreshold batchLimit)
     (\<lambda>a. holds (\<lambda>w. retrying [] w \<and> (\<forall>ts. Inr a = Inr ts \<longrightarrow> retrying ts w \<and> distinct (map st_TradeID ts))))
     (\<lambda>e. holds (\<lambda>w. retrying [] w \<and> (\<forall>ts. Inl e = Inr ts \<longrightarrow> retrying ts w \<and> distinct (map st_TradeID ts))))"
    unfolding FindStalePending_def
  proof (rule hoare_clock[OF st], rule hoare_last, rule hoare_act[OF st, where q = "\<lambda>a w. retrying [] w \<and> retrying a w \<and> distinct (map st_TradeID a)"])
    fix now n a and w w' :: "('d, 'v) settle_world"
    assume w: "retrying [] w" and f: "(if pe_fault en n then Inl ErrRepository
        else Inr (map (scanTrade W) (stalePending (se_locked en n) (pe_now en n) (now - staleThreshold) batchLimit (sw_rows w))), w) = (Inr a, w')"
    then have "w' = w" and a: "a = map (scanTrade W) (stalePending (se_locked en n) (pe_now en n) (now - staleThreshold) batchLimit (sw_rows w))"
      by (auto split: if_splits)
    have "map st_TradeID a = map row_trade_id (stalePending (se_locked en n) (pe_now en n) (now - staleThreshold) batchLimit (sw_rows w))"
      by (simp add: a scanTrade_def)
    moreover have "distinct (map row_trade_id (sw_rows w))" using w by (simp add: retrying_def retriesOk_def)
    ultimately have "distinct (map st_TradeID a)" using stalePending_distinct by metis
    moreover have "retrying a w" using w unfolding retrying_def a
      by (auto simp: scanTrade_def dest!: stalePending_in)
    ultimately show "hoare (holds (\<lambda>w. retrying [] w \<and> retrying a w \<and> distinct (map st_TradeID a))) (ret a)
        (\<lambda>a. holds (\<lambda>w. retrying [] w \<and> (\<forall>ts. Inr a = Inr ts \<longrightarrow> retrying ts w \<and> distinct (map st_TradeID ts))))
        (\<lambda>e. holds (\<lambda>w. retrying [] w \<and> (\<forall>ts. Inl e = Inr ts \<longrightarrow> retrying ts w \<and> distinct (map st_TradeID ts)))) \<and>
        retrying [] w' \<and> retrying a w' \<and> distinct (map st_TradeID a)"
      using w \<open>w' = w\<close> by (auto simp: holds_def intro!: hoare_ret)
  qed (auto simp: holds_def split: if_splits)
  show "hoare (holds (\<lambda>w. retrying [] w \<and> (\<forall>ts. r = Inr ts \<longrightarrow> retrying ts w \<and> distinct (map st_TradeID ts))))
     (case r of Inl _ \<Rightarrow> ret () | Inr ts \<Rightarrow> recoverTrades en call W ts) (\<lambda>_. holds (retrying [])) E" for r :: "settlement_error + settled_trade list"
  proof (cases r)
    case (Inl e)
    then show ?thesis by (auto simp: holds_def intro!: hoare_ret)
  next
    case (Inr ts)
    show ?thesis
    proof (cases "distinct (map st_TradeID ts)")
      case True
      show ?thesis unfolding Inr sum.case
        by (rule hoare_weaken[OF recoverTrades_retries[OF en True]]) (simp add: holds_def)
    qed (simp add: Inr hoare_def holds_def)
  qed
qed

section \<open>Counting the calls\<close>

text \<open>
  The wallet behind an interface that counts the calls for every trade.
\<close>

definition counted :: "(nat \<Rightarrow> settle_rpc \<Rightarrow> 'v \<Rightarrow> (string + unit) \<times> 'v) \<Rightarrow>
    nat \<Rightarrow> settle_rpc \<Rightarrow> 'v \<times> (string \<Rightarrow> nat) \<Rightarrow> (string + unit) \<times> 'v \<times> (string \<Rightarrow> nat)" where
  "counted call n rq vc = (case vc of (v, c) \<Rightarrow>
     (case call n rq v of (r, v') \<Rightarrow> (r, v', c(sr_TradeId rq := Suc (c (sr_TradeId rq))))))"

definition calls :: "('d, 'v \<times> (string \<Rightarrow> nat)) settle_world \<Rightarrow> string \<Rightarrow> nat" where
  "calls w = snd (sw_wallet w)"

text \<open>The other processes work beside the recovery, whose calls alone are counted.\<close>

definition beside :: "(('d, 'v \<times> (string \<Rightarrow> nat)) settle_world, 'x) proc_env_scheme \<Rightarrow> bool" where
  "beside en \<longleftrightarrow> (\<forall>n w. keepsRetries w (pe_other en n w) \<and> calls (pe_other en n w) = calls w)"

text \<open>
  The calls made for a trade against what its row remembers: at most \<open>m\<close> of them forgotten for the
  trades still to retry in this run, at most \<open>m'\<close> for the others, and one more while the answer
  of the trade \<open>b\<close> is being recorded.
\<close>

definition slack :: "nat \<Rightarrow> nat \<Rightarrow> settled_trade list \<Rightarrow> uuid \<Rightarrow> nat" where
  "slack m m' ts u = (if u \<in> st_TradeID ` set ts then m else m')"

definition tallied :: "'d wlib \<Rightarrow> nat \<Rightarrow> nat \<Rightarrow> uuid option \<Rightarrow> settled_trade list \<Rightarrow>
    ('d, 'v \<times> (string \<Rightarrow> nat)) settle_world \<Rightarrow> bool" where
  "tallied W m m' b ts w \<longleftrightarrow> retrying ts w \<and>
     (\<forall>u. u \<notin> row_trade_id ` set (sw_rows w) \<longrightarrow> calls w (u_String W u) = 0) \<and>
     (\<forall>r\<in>set (sw_rows w). calls w (u_String W (row_trade_id r)) \<le> 5 + slack m m' ts (row_trade_id r) \<and>
        (row_status r = StatusPending \<longrightarrow> int (calls w (u_String W (row_trade_id r))) \<le>
           row_retry_count r + int (slack m m' ts (row_trade_id r)) + (if b = Some (row_trade_id r) then 1 else 0))) \<and>
     (\<forall>t\<in>set ts. b \<noteq> Some (st_TradeID t) \<longrightarrow> calls w (u_String W (st_TradeID t)) \<le> 4 + m)"

lemma tallied_retrying: "tallied W m m' b ts w \<Longrightarrow> retrying ts w"
  by (simp add: tallied_def)

lemma tallied_kept:
  assumes k: "keepsRetries w w'" "calls w' = calls w" and t: "tallied W m m' b ts w"
  shows "tallied W m m' b ts w'"
proof -
  note r = tallied_retrying[OF t]
  note r' = retrying_kept[OF k(1) r]
  have d: "distinct (map row_trade_id (sw_rows w))" "distinct (map row_trade_id (sw_rows w'))"
    using r r' by (simp_all add: retrying_def retriesOk_def)
  with k(1) have fwd: "\<And>r. r \<in> set (sw_rows w) \<Longrightarrow> \<exists>r'\<in>set (sw_rows w'). row_trade_id r' = row_trade_id r \<and>
      row_retry_count r' = row_retry_count r \<and> (row_status r \<noteq> StatusPending \<longrightarrow> row_status r' \<noteq> StatusPending)"
    unfolding keepsRetries_def by blast
  have "row_trade_id ` set (sw_rows w) \<subseteq> row_trade_id ` set (sw_rows w')"
  proof
    fix u assume "u \<in> row_trade_id ` set (sw_rows w)"
    then obtain y where "y \<in> set (sw_rows w)" "row_trade_id y = u" by blast
    with fwd[of y] show "u \<in> row_trade_id ` set (sw_rows w')" by (metis imageI)
  qed
  then have none: "calls w (u_String W u) = 0" if "u \<notin> row_trade_id ` set (sw_rows w')" for u
    using t that unfolding tallied_def by blast
  have rows: "calls w (u_String W (row_trade_id x)) \<le> 5 + slack m m' ts (row_trade_id x) \<and>
      (row_status x = StatusPending \<longrightarrow> int (calls w (u_String W (row_trade_id x))) \<le>
         row_retry_count x + int (slack m m' ts (row_trade_id x)) + (if b = Some (row_trade_id x) then 1 else 0))"
    if x: "x \<in> set (sw_rows w')" for x
  proof (cases "row_trade_id x \<in> row_trade_id ` set (sw_rows w)")
    case True
    then obtain y where y: "y \<in> set (sw_rows w)" "row_trade_id y = row_trade_id x" by auto
    from fwd[OF y(1)] same_row[OF d(2) x] y(2) have "row_retry_count x = row_retry_count y"
      "row_status x = StatusPending \<longrightarrow> row_status y = StatusPending" by metis+
    with t y show ?thesis unfolding tallied_def by metis
  next
    case False
    moreover have "0 \<le> row_retry_count x" using r' x by (simp add: retrying_def retriesOk_def)
    ultimately show ?thesis using t by (simp add: tallied_def)
  qed
  show ?thesis using r' none rows t k(2) by (simp add: tallied_def)
qed

lemma tallied_weaken: "tallied W m m b ts w \<Longrightarrow> m \<le> m' \<Longrightarrow> tallied W m m' b ts w"
  unfolding tallied_def slack_def by fastforce

text \<open>One call, and the statement that records its answer.\<close>

lemma tallied_call:
  assumes u: "\<And>u. u_Parse W (u_String W u) = Some u"
    and t: "tallied W m m' None (t # ts) w" and d: "st_TradeID t \<notin> st_TradeID ` set ts"
    and c: "counted call n (recoverRequest W t) (sw_wallet w) = (r, v)"
  shows "tallied W m m' (Some (st_TradeID t)) (t # ts) (w\<lparr>sw_wallet := v\<rparr>)"
proof -
  let ?s = "u_String W (st_TradeID t)"
  have cw: "calls (w\<lparr>sw_wallet := v\<rparr>) = (calls w)(?s := Suc (calls w ?s))"
    using c by (auto simp: calls_def counted_def recoverRequest_def split: prod.splits)
  have inj: "u_String W a = u_String W b \<longleftrightarrow> a = b" for a b using u by (metis option.inject)
  have "st_TradeID t \<in> row_trade_id ` set (sw_rows w)"
    using tallied_retrying[OF t] unfolding retrying_def by (metis imageI list.set_intros(1))
  then show ?thesis
    using t d unfolding tallied_def cw
    by (auto simp: inj slack_def retrying_rows[of "w\<lparr>sw_wallet := v\<rparr>" w])
qed

lemma tallied_unrecorded:
  assumes t: "tallied W m m' (Some (st_TradeID t)) (t # ts) w" and d: "st_TradeID t \<notin> st_TradeID ` set ts"
    and r: "retrying ts w'" and c: "calls w' = calls w" and ids: "row_trade_id ` set (sw_rows w') = row_trade_id ` set (sw_rows w)"
    and rows: "\<And>x. x \<in> set (sw_rows w') \<Longrightarrow> row_status x = StatusPending \<Longrightarrow>
      (\<exists>y\<in>set (sw_rows w). row_trade_id y = row_trade_id x \<and> row_status y = StatusPending \<and>
         (if row_trade_id x = st_TradeID t \<and> m' = m then row_retry_count y + 1 \<le> row_retry_count x
          else row_retry_count y \<le> row_retry_count x))"
    and m: "m' = m \<or> m' = Suc m"
  shows "tallied W m m' None ts w'"
proof -
  have sl: "slack m m' ts u = (if u = st_TradeID t then m' else slack m m' (t # ts) u)" for u
    using d by (auto simp: slack_def)
  have five: "calls w (u_String W (row_trade_id x)) \<le> 5 + slack m m' (t # ts) (row_trade_id x)" if "x \<in> set (sw_rows w')" for x
  proof -
    from that ids obtain y where y: "y \<in> set (sw_rows w)" "row_trade_id y = row_trade_id x" by (metis imageE imageI)
    from t y(1) have "calls w (u_String W (row_trade_id y)) \<le> 5 + slack m m' (t # ts) (row_trade_id y)"
      by (simp add: tallied_def)
    with y(2) show ?thesis by simp
  qed
  have pend: "int (calls w (u_String W (row_trade_id x))) \<le> row_retry_count x + int (slack m m' ts (row_trade_id x))"
    if x: "x \<in> set (sw_rows w')" "row_status x = StatusPending" for x
  proof -
    from rows[OF x] obtain y where y: "y \<in> set (sw_rows w)" "row_trade_id y = row_trade_id x" "row_status y = StatusPending"
      "if row_trade_id x = st_TradeID t \<and> m' = m then row_retry_count y + 1 \<le> row_retry_count x
       else row_retry_count y \<le> row_retry_count x" by blast
    from t y(1,3) have "int (calls w (u_String W (row_trade_id y))) \<le> row_retry_count y +
        int (slack m m' (t # ts) (row_trade_id y)) + (if Some (st_TradeID t) = Some (row_trade_id y) then 1 else 0)"
      unfolding tallied_def by blast
    moreover have "slack m m' (t # ts) (st_TradeID t) = m" by (simp add: slack_def)
    ultimately show ?thesis unfolding sl using y(2,4) m
      by (cases "row_trade_id x = st_TradeID t"; cases "m' = m") simp_all
  qed
  have due: "calls w (u_String W (st_TradeID x)) \<le> 4 + m" if "x \<in> set ts" for x
  proof -
    from that d have "Some (st_TradeID t) \<noteq> Some (st_TradeID x)" by auto
    with t that show ?thesis unfolding tallied_def by simp
  qed
  have le: "slack m m' (t # ts) u \<le> slack m m' ts u" for u using m by (auto simp: slack_def)
  have five': "calls w (u_String W (row_trade_id x)) \<le> 5 + slack m m' ts (row_trade_id x)" if "x \<in> set (sw_rows w')" for x
    using five[OF that] le[of "row_trade_id x"] by linarith
  have none: "\<forall>u. u \<notin> row_trade_id ` set (sw_rows w) \<longrightarrow> calls w (u_String W u) = 0"
    using t unfolding tallied_def by blast
  show ?thesis
    using r five' pend due none unfolding tallied_def c ids by simp
qed

lemma update_rows_total:
  "\<forall>x\<in>set rs. p x \<longrightarrow> (\<exists>x'. f x = Inr x') \<Longrightarrow> \<exists>rs' n. update_rows p f rs = Inr (rs', n)"
  by (induction rs) auto

lemma tallied_update:
  fixes w w' :: "('d, 'v \<times> (string \<Rightarrow> nat)) settle_world"
  assumes t: "tallied W m m' (Some (st_TradeID t)) (t # ts) w" and d: "st_TradeID t \<notin> st_TradeID ` set ts"
    and f: "f = updateSettled now (st_TradeID t) \<or>
      f = updateFailure msg perm next (st_TradeID t) \<and> (perm \<or> st_RetryCount t \<le> 3)"
    and a: "autocommit en sw_rows (\<lambda>rs w. w\<lparr>sw_rows := rs\<rparr>) err f n w = (r, w')"
    and m: "m' = Suc m \<or> m' = m \<and> \<not> pe_fault en n \<and> pe_commit en n \<noteq> CommitFailed"
  shows "tallied W m m' None ts w'"
proof -
  note rt = tallied_retrying[OF t]
  note r' = update_keeps_retrying[OF rt d f a]
  have dist: "distinct (map row_trade_id (sw_rows w))" using rt by (simp add: retrying_def retriesOk_def)
  have small: "row_retry_count x \<le> 4" if "x \<in> set (sw_rows w)" "row_status x = StatusPending" for x
    using rt that by (simp add: retrying_def retriesOk_def)
  have mm: "m' = m \<or> m' = Suc m" using m by blast
  obtain g :: "'d settled_row \<Rightarrow> settlement_error + 'd settled_row" where
    g: "f (sw_rows w) = swap_result (update_rows (pendingRow (st_TradeID t)) g (sw_rows w))"
    and gx: "\<And>x x'. g x = Inr x' \<Longrightarrow> row_trade_id x' = row_trade_id x \<and>
       (row_status x' = StatusPending \<longrightarrow> row_retry_count x' = row_retry_count x + 1)"
    and gt: "\<And>x. row_retry_count x \<le> 4 \<Longrightarrow> \<exists>x'. g x = Inr x'"
  proof -
    from f consider "f = updateSettled now (st_TradeID t)" | "f = updateFailure msg perm next (st_TradeID t)" by blast
    then show thesis
    proof cases
      case 1
      show thesis by (rule that[of "\<lambda>r. Inr (r\<lparr>row_status := StatusSettled, row_settled_at := Some (timestamptz now)\<rparr>)"])
        (auto simp: 1 updateSettled_def)
    next
      case 2
      show thesis by (rule that[OF arg_cong[OF 2[THEN fun_cong], of "\<lambda>x. x", unfolded updateFailure_def]])
        (auto split: if_splits)
    qed
  qed
  have "\<forall>x\<in>set (sw_rows w). pendingRow (st_TradeID t) x \<longrightarrow> (\<exists>x'. g x = Inr x')"
    using gt small by (auto simp: pendingRow_def)
  from update_rows_total[OF this] obtain rows k where
    u: "update_rows (pendingRow (st_TradeID t)) g (sw_rows w) = Inr (rows, k)" by blast
  have fw: "f (sw_rows w) = Inr (k, rows)" by (simp add: g u swap_result_def)
  from a fw m consider (kept) "w' = w" "m' = Suc m" | (put) "w' = w\<lparr>sw_rows := rows\<rparr>"
    by (auto simp: autocommit_def split: if_splits commit_outcome.splits)
  then show ?thesis
  proof cases
    case kept
    show ?thesis using kept by (intro tallied_unrecorded[OF t d r' _ _ _ mm]) auto
  next
    case put
    from update_pending[OF u dist] show ?thesis
    proof (elim disjE conjE exE)
      assume "rows = sw_rows w" "\<forall>r\<in>set (sw_rows w). \<not> pendingRow (st_TradeID t) r"
      with put show ?thesis
        by (intro tallied_unrecorded[OF t d r' _ _ _ mm]) (auto simp: pendingRow_def calls_def)
    next
      fix xs x x' ys
      assume x: "sw_rows w = xs @ x # ys" "rows = xs @ x' # ys" "pendingRow (st_TradeID t) x" "g x = Inr x'"
      have others: "row_trade_id y \<noteq> st_TradeID t" if "y \<in> set xs \<union> set ys" for y
        using dist that x(1,3) by (auto simp: pendingRow_def intro: rev_image_eqI)
      show ?thesis
        using put x gx[OF x(4)] others
        by (intro tallied_unrecorded[OF t d r' _ _ _ mm]) (auto simp: pendingRow_def calls_def)
    qed
  qed
qed

text \<open>One run of the recovery, with the answers of every trade recorded or one forgotten for each.\<close>

lemma stable_tallied: "beside en \<Longrightarrow> stable en (tallied W m m' b ts)"
  unfolding stable_def beside_def using tallied_kept by blast

lemma hoare_tallied:
  fixes w0 :: "('d, 'v \<times> (string \<Rightarrow> nat)) settle_world"
  assumes en: "beside en"
    and f: "\<And>n w r w'. tallied W m m' b ts w \<Longrightarrow> f n w = (r, w') \<Longrightarrow>
      tallied W m m' b' ts' (w' :: ('d, 'v \<times> (string \<Rightarrow> nat)) settle_world)"
    and k: "\<And>a. hoare (holds (tallied W m m' b' ts')) (k a) Q E" and E: "\<And>e s. tallied W m m' b' ts' (x_base s) \<Longrightarrow> E e s"
  shows "hoare (holds (tallied W m m' b ts)) (bindT (act en f) k) Q E"
  by (rule hoare_act[where q = "\<lambda>_. tallied W m m' b' ts'", OF stable_tallied[OF en]]) (use f k E in blast)+

lemma recoverTrade_tallied:
  fixes en :: "(('d::linordered_idom, 'v \<times> (string \<Rightarrow> nat)) settle_world, 'x) proc_env_scheme"
  assumes en: "beside en" and m: "m' = Suc m \<or> m' = m \<and> (\<forall>n. \<not> pe_fault en n \<and> pe_commit en n \<noteq> CommitFailed)"
    and u: "\<And>u. u_Parse W (u_String W u) = Some u" and d: "st_TradeID t \<notin> st_TradeID ` set ts"
  shows "hoare (holds (tallied W m m' None (t # ts))) (recoverTrade en (counted call) W t) (\<lambda>_. holds (tallied W m m' None ts)) E"
  unfolding recoverTrade_def
proof (rule hoare_tried[where R = "\<lambda>_. holds (tallied W m m' (Some (st_TradeID t)) (t # ts))"])
  let ?b = "Some (st_TradeID t)"
  have mn: "m' = Suc m \<or> m' = m \<and> \<not> pe_fault en n \<and> pe_commit en n \<noteq> CommitFailed" for n using m by blast
  show "hoare (holds (tallied W m m' None (t # ts))) (callWallet en (counted call) (recoverRequest W t))
     (\<lambda>_. holds (tallied W m m' ?b (t # ts))) (\<lambda>_. holds (tallied W m m' ?b (t # ts)))"
    unfolding callWallet_def
    by (rule hoare_last, rule hoare_tallied[OF en, where b' = ?b and ts' = "t # ts"])
      (auto simp: holds_def split: prod.splits intro!: hoare_ret dest: tallied_call[OF u _ d])
  have fail: "hoare (holds (tallied W m m' ?b (t # ts))) (bindT (clock en) (\<lambda>now.
      ignoreErr (RecordSettlementFailure en (st_TradeID t) msg perm (now + backoff (st_RetryCount t)))))
      (\<lambda>_. holds (tallied W m m' None ts)) E"
    if p: "perm \<or> st_RetryCount t \<le> 3" for msg perm
  proof (rule hoare_clock[OF stable_tallied[OF en]])
    fix now
    show "hoare (holds (tallied W m m' ?b (t # ts)))
       (ignoreErr (RecordSettlementFailure en (st_TradeID t) msg perm (now + backoff (st_RetryCount t))))
       (\<lambda>_. holds (tallied W m m' None ts)) E"
    proof (rule hoare_ignore)
      show "hoare (holds (tallied W m m' ?b (t # ts)))
         (RecordSettlementFailure en (st_TradeID t) msg perm (now + backoff (st_RetryCount t)))
         (\<lambda>_. holds (tallied W m m' None ts)) (\<lambda>_. holds (tallied W m m' None ts))"
        unfolding RecordSettlementFailure_def
      proof (rule hoare_tallied[OF en, where b' = None and ts' = ts])
        fix n r and w w' :: "('d, 'v \<times> (string \<Rightarrow> nat)) settle_world"
        assume t: "tallied W m m' ?b (t # ts) w"
          and a: "onRows en (updateFailure msg perm (now + backoff (st_RetryCount t)) (st_TradeID t)) n w = (r, w')"
        show "tallied W m m' None ts w'" by (rule tallied_update[OF t d _ a mn]) (use p in blast)
      qed (auto simp: holds_def intro: hoare_ret)
    qed (simp add: holds_def)
  qed
  have mark: "hoare (holds (tallied W m m' ?b (t # ts))) (ignoreErr (MarkSettled en W (st_TradeID t)))
     (\<lambda>_. holds (tallied W m m' None ts)) E"
  proof (rule hoare_ignore)
    have find: "hoare (holds (tallied W m m' None ts)) (FindByTradeID en W (st_TradeID t))
        (\<lambda>_. holds (tallied W m m' None ts)) (\<lambda>_. holds (tallied W m m' None ts))"
      unfolding FindByTradeID_def look_def
      by (rule hoare_last, rule hoare_tallied[OF en]) (auto simp: holds_def intro: hoare_ret split: if_splits)
    have look: "hoare (holds (tallied W m m' None ts)) (bindT (FindByTradeID en W (st_TradeID t)) (\<lambda>existing. case existing of
        None \<Rightarrow> throw ErrTradeMissing | Some x \<Rightarrow> ret ())) (\<lambda>_. holds (tallied W m m' None ts)) (\<lambda>_. holds (tallied W m m' None ts))"
      by (rule hoare_bind[OF find]) (auto intro!: hoare_option hoare_throw hoare_ret)
    show "hoare (holds (tallied W m m' ?b (t # ts))) (MarkSettled en W (st_TradeID t))
       (\<lambda>_. holds (tallied W m m' None ts)) (\<lambda>_. holds (tallied W m m' None ts))"
      unfolding MarkSettled_def
    proof (rule hoare_tallied[OF en, where b' = None and ts' = ts])
      fix n r and w w' :: "('d, 'v \<times> (string \<Rightarrow> nat)) settle_world"
      assume t: "tallied W m m' ?b (t # ts) w" and a: "onRows en (updateSettled (pe_now en n) (st_TradeID t)) n w = (r, w')"
      show "tallied W m m' None ts w'" by (rule tallied_update[OF t d _ a mn]) blast
    qed (use look in \<open>auto simp: holds_def intro: hoare_ret\<close>)
  qed (simp add: holds_def)
  show "hoare (holds (tallied W m m' ?b (t # ts))) (case r of
       Inl e \<Rightarrow>
         (let msg = (case e of ErrWallet m \<Rightarrow> m | _ \<Rightarrow> []);
              permanent = isPermanentSettlementError msg \<or> st_RetryCount t \<ge> 4 in
          bindT (clock en) (\<lambda>now.
          ignoreErr (RecordSettlementFailure en (st_TradeID t) msg permanent (now + backoff (st_RetryCount t)))))
     | Inr _ \<Rightarrow> ignoreErr (MarkSettled en W (st_TradeID t))) (\<lambda>_. holds (tallied W m m' None ts)) E" for r
    by (cases r) (simp_all add: Let_def mark, rule fail, linarith)
qed

lemma recoverTrades_tallied:
  fixes en :: "(('d::linordered_idom, 'v \<times> (string \<Rightarrow> nat)) settle_world, 'x) proc_env_scheme"
  assumes "beside en" and "m' = Suc m \<or> m' = m \<and> (\<forall>n. \<not> pe_fault en n \<and> pe_commit en n \<noteq> CommitFailed)"
    and "\<And>u. u_Parse W (u_String W u) = Some u" and "distinct (map st_TradeID ts)"
  shows "hoare (holds (tallied W m m' None ts)) (recoverTrades en (counted call) W ts) (\<lambda>_. holds (tallied W m m' None [])) E"
  using assms(4)
proof (induction ts)
  case Nil
  then show ?case by (simp add: hoare_ret)
next
  case (Cons t ts)
  then show ?case unfolding recoverTrades.simps
    by (intro hoare_bind[OF recoverTrade_tallied[OF assms(1-3)]]) simp_all
qed

lemma stalePending_pending: "r \<in> set (stalePending locked now cutoff limit rows) \<Longrightarrow> row_status r = StatusPending"
  by (auto simp: stalePending_def dest!: in_set_takeD)

lemma RecoverStalePending_tallied:
  fixes en :: "('d::linordered_idom, 'v \<times> (string \<Rightarrow> nat)) settle_world settle_env"
  assumes en: "beside en" and m: "m' = Suc m \<or> m' = m \<and> (\<forall>n. \<not> pe_fault en n \<and> pe_commit en n \<noteq> CommitFailed)"
    and u: "\<And>u. u_Parse W (u_String W u) = Some u"
  shows "hoare (holds (tallied W m m None [])) (RecoverStalePending en (counted call) W) (\<lambda>_. holds (tallied W m m' None [])) E"
  unfolding RecoverStalePending_def
proof (rule hoare_tried[where R = "\<lambda>r. holds (\<lambda>w. tallied W m m' None [] w \<and>
    (\<forall>ts. r = Inr ts \<longrightarrow> tallied W m m' None ts w \<and> distinct (map st_TradeID ts)))"])
  have le: "m \<le> m'" using m by auto
  note st = stable_tallied[OF en]
  show "hoare (holds (tallied W m m None [])) (FindStalePending en W staleThreshold batchLimit)
     (\<lambda>a. holds (\<lambda>w. tallied W m m' None [] w \<and> (\<forall>ts. Inr a = Inr ts \<longrightarrow> tallied W m m' None ts w \<and> distinct (map st_TradeID ts))))
     (\<lambda>e. holds (\<lambda>w. tallied W m m' None [] w \<and> (\<forall>ts. Inl e = Inr ts \<longrightarrow> tallied W m m' None ts w \<and> distinct (map st_TradeID ts))))"
    unfolding FindStalePending_def
  proof (rule hoare_clock[OF st], rule hoare_last,
      rule hoare_act[OF st, where q = "\<lambda>a w. tallied W m m' None [] w \<and> tallied W m m' None a w \<and> distinct (map st_TradeID a)"])
    fix now n a and w w' :: "('d, 'v \<times> (string \<Rightarrow> nat)) settle_world"
    assume w: "tallied W m m None [] w" and f: "(if pe_fault en n then Inl ErrRepository
        else Inr (map (scanTrade W) (stalePending (se_locked en n) (pe_now en n) (now - staleThreshold) batchLimit (sw_rows w))), w) = (Inr a, w')"
    let ?st = "stalePending (se_locked en n) (pe_now en n) (now - staleThreshold) batchLimit (sw_rows w)"
    from f have "w' = w" and a: "a = map (scanTrade W) ?st" by (auto split: if_splits)
    have "map st_TradeID a = map row_trade_id ?st" by (simp add: a scanTrade_def)
    moreover have "distinct (map row_trade_id (sw_rows w))" using tallied_retrying[OF w] by (simp add: retrying_def retriesOk_def)
    ultimately have dist: "distinct (map st_TradeID a)" using stalePending_distinct by metis
    have "retrying a w" using tallied_retrying[OF w] unfolding retrying_def a
      by (auto simp: scanTrade_def dest!: stalePending_in)
    moreover have "calls w (u_String W (st_TradeID t)) \<le> 4 + m" if "t \<in> set a" for t
    proof -
      from that a obtain r where r: "r \<in> set ?st" "st_TradeID t = row_trade_id r" by (auto simp: scanTrade_def)
      from stalePending_in[OF r(1)] stalePending_pending[OF r(1)] w
      have "int (calls w (u_String W (row_trade_id r))) \<le> row_retry_count r + int m" "row_retry_count r \<le> 4"
        by (auto simp: tallied_def slack_def retrying_def retriesOk_def)
      with r(2) show ?thesis by simp
    qed
    ultimately have "tallied W m m None a w" using w by (simp add: tallied_def slack_def)
    from tallied_weaken[OF this le] tallied_weaken[OF w le] dist \<open>w' = w\<close>
    show "hoare (holds (\<lambda>w. tallied W m m' None [] w \<and> tallied W m m' None a w \<and> distinct (map st_TradeID a))) (ret a)
        (\<lambda>a. holds (\<lambda>w. tallied W m m' None [] w \<and> (\<forall>ts. Inr a = Inr ts \<longrightarrow> tallied W m m' None ts w \<and> distinct (map st_TradeID ts))))
        (\<lambda>e. holds (\<lambda>w. tallied W m m' None [] w \<and> (\<forall>ts. Inl e = Inr ts \<longrightarrow> tallied W m m' None ts w \<and> distinct (map st_TradeID ts)))) \<and>
        tallied W m m' None [] w' \<and> tallied W m m' None a w' \<and> distinct (map st_TradeID a)"
      by (auto simp: holds_def intro!: hoare_ret)
  qed (use tallied_weaken[OF _ le] in \<open>auto simp: holds_def split: if_splits\<close>)
  show "hoare (holds (\<lambda>w. tallied W m m' None [] w \<and> (\<forall>ts. r = Inr ts \<longrightarrow> tallied W m m' None ts w \<and> distinct (map st_TradeID ts))))
     (case r of Inl _ \<Rightarrow> ret () | Inr ts \<Rightarrow> recoverTrades en (counted call) W ts) (\<lambda>_. holds (tallied W m m' None [])) E"
    for r :: "settlement_error + settled_trade list"
  proof (cases r)
    case (Inl e)
    then show ?thesis by (auto simp: holds_def intro!: hoare_ret)
  next
    case (Inr ts)
    show ?thesis
    proof (cases "distinct (map st_TradeID ts)")
      case True
      show ?thesis unfolding Inr sum.case
        by (rule hoare_weaken[OF recoverTrades_tallied[OF en m u True]]) (simp add: holds_def)
    qed (simp add: Inr hoare_def holds_def)
  qed
qed

section \<open>A history of recoveries\<close>

definition recoveries ::
  "'d wlib \<Rightarrow> (('d::linordered_idom, 'v \<times> (string \<Rightarrow> nat)) settle_world settle_env \<times> (nat \<Rightarrow> settle_rpc \<Rightarrow> 'v \<Rightarrow> (string + unit) \<times> 'v)) list \<Rightarrow>
   ('d, 'v \<times> (string \<Rightarrow> nat)) settle_world \<Rightarrow> ('d, 'v \<times> (string \<Rightarrow> nat)) settle_world" where
  "recoveries W rs w = fold (\<lambda>(en, call) w. snd (run (RecoverStalePending en (counted call) W) w)) rs w"

text \<open>The runs in which a statement of the settlement database fails.\<close>

definition failing :: "(('d, 'v \<times> (string \<Rightarrow> nat)) settle_world settle_env \<times> 'c) list \<Rightarrow> nat" where
  "failing rs = length (filter (\<lambda>(en, _). \<exists>n. pe_fault en n \<or> pe_commit en n = CommitFailed) rs)"

lemma recoveries_tallied:
  assumes "\<And>u. u_Parse W (u_String W u) = Some u" and "\<forall>(en, call)\<in>set rs. beside en" and "tallied W m m None [] w"
  shows "tallied W (m + failing rs) (m + failing rs) None [] (recoveries W rs w)"
  using assms(2,3)
proof (induction rs arbitrary: m w)
  case (Cons r rs)
  obtain en call where r: "r = (en, call)" by (cases r)
  from Cons.prems r have en: "beside en" by simp
  define m' where "m' = (if \<exists>n. pe_fault en n \<or> pe_commit en n = CommitFailed then Suc m else m)"
  have m: "m' = Suc m \<or> m' = m \<and> (\<forall>n. \<not> pe_fault en n \<and> pe_commit en n \<noteq> CommitFailed)" by (auto simp: m'_def)
  let ?w = "snd (run (RecoverStalePending en (counted call) W) w)"
  from hoare_run[OF RecoverStalePending_tallied[OF en m assms(1), where E = "\<lambda>_. holds (tallied W m m' None [])"] Cons.prems(2),
      of call] have "tallied W m m' None [] ?w" by (auto simp: holds_def split: prod.splits sum.splits)
  then have "tallied W m' m' None [] ?w" by (simp add: tallied_def slack_def)
  from Cons.IH[OF _ this] Cons.prems(1) have "tallied W (m' + failing rs) (m' + failing rs) None [] (recoveries W rs ?w)" by simp
  moreover have "m' + failing rs = m + failing (r # rs)" by (simp add: m'_def failing_def r)
  ultimately show ?case by (simp add: recoveries_def r)
qed (simp add: recoveries_def failing_def)

end
