(* ===== verification/SettlementClaims.thy ===== *)
theory SettlementClaims
  imports SettlementRetry WalletSample
begin

text \<open>
  The properties of the settlement service, with a small world that meets their hypotheses:
  the sample wallet, the event of its trade and processes without faults.
\<close>

section \<open>A sample world\<close>

definition sampleEvent :: trade_event where
  "sampleEvent = \<lparr>te_TradeID = ''1'', te_MarketID = ''BTC-USDT'', te_MakerOrderID = ''111'', te_TakerOrderID = ''1111'',
     te_BuyOrderID = ''111'', te_SellOrderID = ''1111'', te_BuyerUserID = ''1'', te_SellerUserID = ''11'',
     te_Price = ''11111'', te_Quantity = ''111'', te_Sequence = 7, te_ExecutedAt = []\<rparr>"

text \<open>Identifiers that are new in any database.\<close>

definition freshPg :: "'d wallet_db \<Rightarrow> pg_env" where
  "freshPg db = calm\<lparr>pe_uuid := (\<lambda>n. case pe_uuid calm n of
     None \<Rightarrow> None | Some u \<Rightarrow> if u \<in> t_ID ` set (db_ledger db) then None else Some u)\<rparr>"

definition sampleRpc :: "int wallet_db rpc_env" where
  "sampleRpc = \<lparr>rpc_transport = (\<lambda>_. Delivered), rpc_pg = (\<lambda>_. freshPg), rpc_text = (\<lambda>_. ''unavailable'')\<rparr>"

definition sampleEnv :: "(int, int wallet_db) settle_world settle_env" where
  "sampleEnv = \<lparr>pe_fault = (\<lambda>_. False), pe_uuid = (\<lambda>_. None), pe_commit = (\<lambda>_. CommitOk),
     pe_now = (\<lambda>n. int n * 1000000000000), pe_other = (\<lambda>_ w. w), se_locked = (\<lambda>_ _. False)\<rparr>"

definition sampleWorld :: "(int, int wallet_db) settle_world" where
  "sampleWorld = \<lparr>sw_rows = [], sw_wallet = sampleDb, sw_committed = 0\<rparr>"

definition sampleDecode :: "string \<Rightarrow> trade_event option" where
  "sampleDecode s = (if s = ''trade'' then Some sampleEvent else None)"

abbreviation sampleWallet :: "nat \<Rightarrow> settle_rpc \<Rightarrow> int wallet_db \<Rightarrow> (string + unit) \<times> int wallet_db" where
  "sampleWallet \<equiv> WalletClient_SettleTrade sampleRpc int_wlib"

lemma freshPg_ids: "unique_ids (freshPg d)" "fresh_ids (freshPg d) d"
  using sample_ids(1)
  by (auto simp: unique_ids_def fresh_ids_def freshPg_def split: option.splits if_splits)

lemma uuids_agree_int: "uuids_agree int_wlib"
  by (auto simp: uuids_agree_def int_wlib_def read_show_unary)

lemma sampleWorld_ok: "settlementOk sampleRpc int_wlib UNIV sampleWorld"
  by (simp add: settlementOk_def walletSound_def sampleWorld_def sampleRpc_def int_wlib_ok uuids_agree_int sampleDb_ok
      sample_ledger freshPg_ids)

lemma sampleEnv_obeys: "obeys (exchangeStep UNIV) sampleEnv"
  by (simp add: obeys_def sampleEnv_def)

lemma sampleEvent_market: "twoAssets sampleEvent"
  by (simp add: twoAssets_def sampleEvent_def parseMarketID_def)

section \<open>Properties\<close>



text \<open>
  What a successful pipeline means: when \<open>Settle\<close> returns nil, so that the offset of the
  event may be committed, its trade has a row that is no longer PENDING and the wallet has
  registered it, whatever happened in between.
\<close>

theorem Settle_success:
  fixes W :: "('d::linordered_idom) wlib"
  assumes "settlementOk re W T w" and "obeys (exchangeStep T) en" and "twoAssets ev"
    and "run (Settle en (WalletClient_SettleTrade re W) W ev) w = (Inr (), w')"
  shows "\<exists>t. u_Parse W (te_TradeID ev) = Some t \<and> t \<in> s_TradeID ` set (db_settled (sw_wallet w')) \<and>
    (\<exists>r\<in>set (sw_rows w'). row_trade_id r = t \<and> row_status r \<noteq> StatusPending)"
proof -
  have g: "wallet.good re W T w" by (simp add: good_settlementOk assms(1))
  have q: "base \<noteq> quote" if "parseMarketID (te_MarketID ev) = Inr (base, quote)" for base quote
    using assms(3) that by (simp add: twoAssets_def)
  have h: "hoare (holds (follows (exchangeStep T) w)) (Settle en (WalletClient_SettleTrade re W) W ev)
      (\<lambda>_ s. follows (exchangeStep T) w (x_base s) \<and> (\<exists>ids. validateEvent W ev = Inr ids \<and>
         wallet.doneRow (fst ids) (x_base s) \<and> wallet.inWallet (fst ids) (x_base s)))
      (\<lambda>_ s. follows (exchangeStep T) w (x_base s))"
    by (rule wallet.Settle_hoare[OF assms(2) g refl]) (rule q)
  from hoare_run[OF h follows_refl] assms(4) obtain ids where v: "validateEvent W ev = Inr ids"
    and d: "wallet.doneRow (fst ids) w'" "wallet.inWallet (fst ids) w'" by auto
  from v have "u_Parse W (te_TradeID ev) = Some (fst ids)"
    by (auto simp: validateEvent_def split: option.splits if_splits)
  with d show ?thesis by (auto simp: wallet.doneRow_def wallet.inWallet_def walletRecorded_def)
qed

lemma sampleSettled:
  "fst (run (Settle sampleEnv sampleWallet int_wlib sampleEvent) sampleWorld) = Inr ()"
  by code_simp

lemma Settle_success_witness:
  "\<exists>t. u_Parse int_wlib (te_TradeID sampleEvent) = Some t \<and>
     t \<in> s_TradeID ` set (db_settled (sw_wallet (snd (run (Settle sampleEnv sampleWallet int_wlib sampleEvent) sampleWorld)))) \<and>
     (\<exists>r\<in>set (sw_rows (snd (run (Settle sampleEnv sampleWallet int_wlib sampleEvent) sampleWorld))).
        row_trade_id r = t \<and> row_status r \<noteq> StatusPending)"
  by (rule Settle_success[OF sampleWorld_ok sampleEnv_obeys sampleEvent_market])
    (metis sampleSettled prod.collapse)

text \<open>
  The stored counter never passes five, and four on a row that is PENDING, even when the
  statements that would count fail.
\<close>

lemma retry_count_bounded:
  fixes en :: "('d::linordered_idom, 'v) settle_world settle_env"
  assumes "retriesOk w" and "\<And>n w. keepsRetries w (pe_other en n w)"
  shows "retriesOk (snd (run (RecoverStalePending en call W) w))"
proof -
  have r: "retrying [] w" using assms(1) by (simp add: retrying_def)
  from hoare_run[OF RecoverStalePending_retries[OF assms(2), where E = "\<lambda>_. holds (retrying [])"] r, of call W] show ?thesis
    by (auto simp: holds_def retrying_def split: prod.splits sum.splits)
qed

text \<open>
  C23. Retries are bounded. Over any sequence of runs of the recovery, whatever the wallet
  answers and whatever rows the other processes insert and settle in between, the recovery
  calls the wallet for one trade at most five times, and once more for every run in which a
  statement of the settlement database fails, because the failure to record an attempt is only
  logged. For a row still PENDING the calls beyond its \<open>retry_count\<close> are at most those runs, and
  \<open>retry_count\<close> never passes five, nor four on a PENDING row.
\<close>

theorem retries_bounded:
  fixes w :: "('d::linordered_idom, 'v \<times> (string \<Rightarrow> nat)) settle_world"
  assumes "\<And>u. u_Parse W (u_String W u) = Some u" and "retriesOk w" and "\<And>s. calls w s = 0"
    and "\<forall>(en, call)\<in>set rs. beside en"
  shows "calls (recoveries W rs w) (u_String W u) \<le> 5 + failing rs \<and> retriesOk (recoveries W rs w) \<and>
    (\<forall>r\<in>set (sw_rows (recoveries W rs w)). row_status r = StatusPending \<longrightarrow>
       int (calls (recoveries W rs w) (u_String W (row_trade_id r))) \<le> row_retry_count r + int (failing rs))"
proof -
  have "tallied W 0 0 None [] w" using assms(2,3) by (simp add: tallied_def retrying_def slack_def retriesOk_def)
  from recoveries_tallied[OF assms(1,4) this] have t: "tallied W (failing rs) (failing rs) None [] (recoveries W rs w)" by simp
  have "calls (recoveries W rs w) (u_String W u) \<le> 5 + failing rs"
  proof (cases "u \<in> row_trade_id ` set (sw_rows (recoveries W rs w))")
    case True
    with t show ?thesis by (auto simp: tallied_def slack_def)
  next
    case False
    with t show ?thesis unfolding tallied_def by simp
  qed
  with t show ?thesis by (simp add: tallied_def slack_def retrying_def)
qed

definition stuckWorld :: "(int, int wallet_db) settle_world" where
  "stuckWorld = sampleWorld\<lparr>sw_rows := [\<lparr>row_trade_id = 1, row_buyer_id = 1, row_seller_id = 2, row_buy_order_id = 3,
     row_sell_order_id = 4, row_market_id = ''BTC-USDT'', row_base_asset = ''BTC'', row_quote_asset = ''USDT'', row_price = 5,
     row_quantity = 3, row_status = StatusPending, row_sequence = 7, row_retry_count = 4, row_last_error = None,
     row_next_retry_at = 0, row_executed_at = 0, row_created_at = -120000000000, row_settled_at = None\<rparr>]\<rparr>"

definition countedWorld :: "(int, int wallet_db \<times> (string \<Rightarrow> nat)) settle_world" where
  "countedWorld = \<lparr>sw_rows = sw_rows stuckWorld, sw_wallet = (sampleDb, \<lambda>_. 0), sw_committed = 0\<rparr>"

definition countedEnv :: "(int, int wallet_db \<times> (string \<Rightarrow> nat)) settle_world settle_env" where
  "countedEnv = \<lparr>pe_fault = (\<lambda>_. False), pe_uuid = (\<lambda>_. None), pe_commit = (\<lambda>_. CommitOk),
     pe_now = (\<lambda>n. int n * 1000000000000), pe_other = (\<lambda>_ w. w), se_locked = (\<lambda>_ _. False)\<rparr>"

lemma retries_bounded_witness:
  "calls (recoveries int_wlib (replicate 9 (countedEnv, \<lambda>_ _ v. (Inl ''unavailable'', v))) countedWorld) (u_String int_wlib 1) \<le> 5"
proof -
  let ?rs = "replicate 9 (countedEnv, \<lambda>_ _ v. (Inl ''unavailable'', v))"
  have u: "u_Parse int_wlib (u_String int_wlib u) = Some u" for u by (simp add: int_wlib_def read_show_unary)
  have r: "retriesOk countedWorld" by (simp add: retriesOk_def countedWorld_def stuckWorld_def)
  have c: "calls countedWorld s = 0" for s by (simp add: calls_def countedWorld_def)
  have b: "\<forall>(en, call)\<in>set ?rs. beside en" by (auto simp: beside_def keepsRetries_def countedEnv_def)
  have f: "failing ?rs = 0" by (simp add: failing_def countedEnv_def)
  from retries_bounded[OF u r c b, of 1] show ?thesis unfolding f by simp
qed

text \<open>The bound is met: the row of the sample, at its fifth attempt, is called for once more and given up.\<close>

lemma counted_sample:
  "calls (recoveries int_wlib (replicate 2 (countedEnv, \<lambda>_ _ v. (Inl ''unavailable'', v))) countedWorld) ''1'' = 1"
  by code_simp

text \<open>The row of the sample has been given up.\<close>

lemma stuck_given_up:
  "map row_status (sw_rows (snd (run (RecoverStalePending sampleEnv (\<lambda>_ _ v. (Inl ''unavailable'', v)) int_wlib) stuckWorld)))
   = [StatusFailed]"
  by code_simp

text \<open>The loop never looks behind its position.\<close>

lemma consumerLoop_ahead:
  "p < q \<Longrightarrow> consumerLoop en call W decode (log[p := v]) fs q = consumerLoop en call W decode log fs q"
proof (induction fs arbitrary: q)
  case (Cons f fs)
  then show ?case by (cases f) simp_all
qed simp

text \<open>
  When the first query of the pipeline fails, the rows, the wallet and the offset are what the
  other processes made of them.
\<close>

lemma Settle_first_query_fails:
  assumes "validateEvent W ev = Inr ids" and "pe_fault en (x_n s)"
  shows "Settle en call W ev s = (Inl ErrRepository, s\<lparr>x_n := x_n s + 1, x_base := pe_other en (x_n s) (x_base s)\<rparr>)"
  using assms by (simp add: Settle_def lift_def ret_def bindT_def FindByTradeID_def look_def act_def)

text \<open>
  C24. The consumer loses a trade whose pipeline fails. Let the pipeline fail for the message at
  \<open>p\<close>, wherever and for whatever reason but a self-trade, and let the next message, whatever it
  is, end with the group's offset behind \<open>p\<close>. Then the loop goes on behind both as if the
  message at \<open>p\<close> were any other, and from every later world in which the offset has not moved back
  no start of the consumer depends on it either: it is never delivered again, other processes
  acting in between as they like. When the failing step was the first query, the world it
  leaves has neither a row nor a settlement of the trade for the recovery to find.
\<close>

theorem consumer_loses_trade:
  fixes en en' :: "(('d::linordered_idom, 'v) settle_world, 'x) proc_env_scheme"
  assumes "decode (log ! p) = Some ev" and "Settle en call W ev s = (Inl e, s1)" and "e \<noteq> ErrSelfTrade"
    and "Suc p < length log" and "consumeMsg en call W decode (Suc p) (log ! Suc p) s1 = (Inr (), s2)"
    and "p < sw_committed (x_base s2)"
    and "sw_committed (x_base s2) \<le> sw_committed w" and "\<And>n w. sw_committed w \<le> sw_committed (pe_other en' n w)"
  shows "consumerLoop en call W decode log (Fetched # Fetched # fs) p s =
      consumerLoop en call W decode (log[p := v]) fs (Suc (Suc p)) s2 \<and>
    run (Start en' call' W decode log fs') w = run (Start en' call' W decode (log[p := v]) fs') w \<and>
    (validateEvent W ev = Inr ids \<and> pe_fault en (x_n s) \<longrightarrow> x_base s1 = pe_other en (x_n s) (x_base s))"
proof (intro conjI)
  have "consumeMsg en call W decode p (log ! p) s = (Inr (), s1)"
    using assms(1-3) by (simp add: consumeMsg_def bindT_def tryT_def ret_def)
  with assms(4,5) have "consumerLoop en call W decode log (Fetched # Fetched # fs) p s =
      consumerLoop en call W decode log fs (Suc (Suc p)) s2" by (simp add: bindT_def)
  also have "\<dots> = consumerLoop en call W decode (log[p := v]) fs (Suc (Suc p)) s2"
    by (subst consumerLoop_ahead) simp_all
  finally show "consumerLoop en call W decode log (Fetched # Fetched # fs) p s =
      consumerLoop en call W decode (log[p := v]) fs (Suc (Suc p)) s2" .
  have "p < sw_committed (pe_other en' 0 w)" using assms(6,7) assms(8)[of w 0] by linarith
  then show "run (Start en' call' W decode log fs') w = run (Start en' call' W decode (log[p := v]) fs') w"
    by (simp add: run_def runTx_def startTx_def Start_def bindT_def act_def consumerLoop_ahead)
  show "validateEvent W ev = Inr ids \<and> pe_fault en (x_n s) \<longrightarrow> x_base s1 = pe_other en (x_n s) (x_base s)"
    using assms(2) Settle_first_query_fails[of W ev ids en s call] by auto
qed

lemma consumer_loses_trade_witness:
  "run (Start (sampleEnv\<lparr>pe_fault := (\<lambda>n. n = 1)\<rparr>) sampleWallet int_wlib sampleDecode [''trade'', ''junk''] [Fetched, Fetched]) sampleWorld =
     (Inr 2, sampleWorld\<lparr>sw_committed := 2\<rparr>) \<and>
   run (Start sampleEnv sampleWallet int_wlib sampleDecode [''trade'', ''junk''] [Fetched]) (sampleWorld\<lparr>sw_committed := 2\<rparr>) =
   run (Start sampleEnv sampleWallet int_wlib sampleDecode [''gone'', ''junk''] [Fetched]) (sampleWorld\<lparr>sw_committed := 2\<rparr>)"
proof -
  let ?en = "sampleEnv\<lparr>pe_fault := (\<lambda>n. n = 1)\<rparr>" and ?log = "[''trade'', ''junk'']"
  let ?s = "(startTx sampleWorld)\<lparr>x_n := 1\<rparr>" and ?s1 = "(startTx sampleWorld)\<lparr>x_n := 2\<rparr>"
  let ?s2 = "(startTx sampleWorld)\<lparr>x_n := 3, x_base := sampleWorld\<lparr>sw_committed := 2\<rparr>\<rparr>"
  have v: "validateEvent int_wlib sampleEvent = Inr (1, 1, 2, 3, 4)" by code_simp
  have 1: "sampleDecode (?log ! 0) = Some sampleEvent" by (simp add: sampleDecode_def)
  have 2: "Settle ?en sampleWallet int_wlib sampleEvent ?s = (Inl ErrRepository, ?s1)"
    by (subst Settle_first_query_fails[OF v]) (simp_all add: sampleEnv_def startTx_def)
  have 3: "consumeMsg ?en sampleWallet int_wlib sampleDecode (Suc 0) (?log ! Suc 0) ?s1 = (Inr (), ?s2)"
    by (simp add: consumeMsg_def sampleDecode_def ignoreErr_def bindT_def tryT_def ret_def commitMsg_def act_def
        autocommit_def sampleEnv_def startTx_def sampleWorld_def numeral_2_eq_2 numeral_3_eq_3)
  note l = consumer_loses_trade[OF 1 2 _ _ 3, of "sampleWorld\<lparr>sw_committed := 2\<rparr>" sampleEnv "[]" "''gone''" sampleWallet "[Fetched]"]
  have "consumerLoop ?en sampleWallet int_wlib sampleDecode ?log [Fetched, Fetched] 0 ?s = (Inr 2, ?s2) \<and>
    run (Start sampleEnv sampleWallet int_wlib sampleDecode ?log [Fetched]) (sampleWorld\<lparr>sw_committed := 2\<rparr>) =
    run (Start sampleEnv sampleWallet int_wlib sampleDecode [''gone'', ''junk''] [Fetched]) (sampleWorld\<lparr>sw_committed := 2\<rparr>)"
    using l by (simp add: ret_def numeral_2_eq_2 sampleEnv_def del: consumerLoop.simps(4))
  moreover have "run (Start ?en sampleWallet int_wlib sampleDecode ?log [Fetched, Fetched]) sampleWorld =
      (case consumerLoop ?en sampleWallet int_wlib sampleDecode ?log [Fetched, Fetched] 0 ?s of (r, s) \<Rightarrow> (r, x_base s))"
    by (simp add: run_def runTx_def startTx_def Start_def bindT_def act_def sampleEnv_def sampleWorld_def del: consumerLoop.simps(4))
  ultimately show ?thesis by simp
qed

text \<open>
  A trade the recovery has given up is settled all the same when its event is delivered
  again: the wallet moves the funds, the row stays FAILED and the consumer sees a success.
\<close>

lemma failed_row_settled:
  "let w = stuckWorld\<lparr>sw_rows := map (\<lambda>r. r\<lparr>row_status := StatusFailed\<rparr>) (sw_rows stuckWorld)\<rparr>;
       (r, w') = run (Settle sampleEnv sampleWallet int_wlib sampleEvent) w in
   r = Inr () \<and> map row_status (sw_rows w') = [StatusFailed] \<and> map s_TradeID (db_settled (sw_wallet w')) = [1]"
  by code_simp

end
