(* ===== verification/OrderClaims.thy ===== *)
theory OrderClaims
  imports OrderOutbox SettlementClaims
begin

text \<open>
  The properties of the order service, with a small world that meets their hypotheses: two
  orders that match, a wallet that records what it is asked for, and the sample wallet.
\<close>

section \<open>A sample world\<close>

definition orderRow :: "uuid \<Rightarrow> uuid \<Rightarrow> string \<Rightarrow> int \<Rightarrow> int order_row" where
  "orderRow i u side q = \<lparr>od_id = i, od_user = u, od_market = ''BTC-USDT'', od_side = side, od_type = ''LIMIT'',
     od_price = Some 5, od_quantity = q, od_filled = 0, od_remaining = q, od_status = StatusOpen, od_key = None,
     od_created = 0, od_updated = 0\<rparr>"

definition sampleOrders :: "int order_db" where
  "sampleOrders = \<lparr>odb_orders = [orderRow 3 1 ''BUY'' 3, orderRow 4 2 ''SELL'' 4], odb_outbox = [], odb_trades = [], odb_releases = []\<rparr>"

definition sampleShop :: "(int, string list) order_world" where
  "sampleShop = \<lparr>ow_db = sampleOrders, ow_wallet = [], ow_log = [], ow_tradeOffset = 0, ow_cancelOffset = 0\<rparr>"

text \<open>No call fails; commits end as \<open>oc\<close> says.\<close>

definition shopEnv :: "commit_outcome \<Rightarrow> ('d, 'v) order_world order_env" where
  "shopEnv oc = \<lparr>pe_fault = (\<lambda>_. False), pe_uuid = (\<lambda>n. Some (of_nat n + 5)), pe_commit = (\<lambda>_. CommitOk),
     pe_now = (\<lambda>n. int n), pe_other = (\<lambda>_ w. w), tx_pg = (\<lambda>_. calm\<lparr>pe_commit := (\<lambda>_. oc)\<rparr>),
     rd_get = (\<lambda>_ key. if key = ''market:enforcement:ready'' then RedisValue ''1'' else RedisNil)\<rparr>"

text \<open>A wallet that accepts every call and notes the releases.\<close>

definition notingWallet :: "string list wallet_client" where
  "notingWallet = \<lparr>wc_reserve = (\<lambda>_ _ _ _ _ v. (Inr (), v)), wc_release = (\<lambda>_ i v. (Inr (), i # v))\<rparr>"

definition sampleLib :: "int order_lib" where
  "sampleLib = \<lparr>ol_RoundCeil = (\<lambda>x _. x), ol_Half = (\<lambda>x. x div 2), ol_Anchor = (\<lambda>_. None), ol_Depth = (\<lambda>_. None),
     ol_Base64 = (\<lambda>_. None)\<rparr>"

definition sampleSettled :: settled_event where
  "sampleSettled = \<lparr>se_TradeID = ''1'', se_BuyOrderID = ''111'', se_SellOrderID = ''1111'', se_Quantity = ''111''\<rparr>"

definition sampleSetup :: "(int, string list) order_setup" where
  "sampleSetup = \<lparr>su_wallet = notingWallet, su_W = int_wlib, su_L = sampleLib,
     su_cfg = \<lparr>oc_mmUserID = ''1111111111'', oc_maxDeviation = 0, oc_mmMaxDeviation = 0, oc_maxAnchorAge = 60\<rparr>,
     su_trade = (\<lambda>s. if s = ''settled'' then Some sampleSettled else None), su_cancel = (\<lambda>_. None)\<rparr>"

lemma places_UNIV: "places_closed UNIV"
  by (simp add: places_closed_def)

lemma sampleOrders_ok: "orders_ok UNIV sampleOrders"
  by (simp add: orders_ok_def sampleOrders_def orderRow_def order_row_ok_def finished_def)

lemma sampleShop_ok: "ordersSound UNIV sampleShop"
  by (simp add: ordersSound_def places_UNIV sampleShop_def sampleOrders_ok)

lemma shopEnv_obeys: "obeys G (shopEnv oc)"
  by (simp add: obeys_def shopEnv_def)

definition sampleCreated :: outbox_event where
  "sampleCreated = \<lparr>ox_id = 50, ox_aggregate = 3, ox_event_type = ''OrderCreated'',
     ox_payload = \<lparr>oe_EventID = ''1'', oe_EventType = ''OrderCreated'', oe_MarketID = ''BTC-USDT'', oe_OccurredAt = 0,
       oe_Payload = OrderCreatedPayload ''111'' ''1'' ''BTC-USDT'' ''BUY'' ''LIMIT'' (Some ''11111'') ''111''\<rparr>,
     ox_partition_key = ''BTC-USDT'', ox_processing_at = None, ox_published_at = None, ox_attempts = 0, ox_last_error = None,
     ox_created = 0\<rparr>"

definition outboxShop :: "(int, string list) order_world" where
  "outboxShop = sampleShop\<lparr>ow_db := sampleOrders\<lparr>odb_outbox := [sampleCreated]\<rparr>\<rparr>"

definition sampleRequest :: create_params where
  "sampleRequest = \<lparr>cp_UserID = ''1'', cp_MarketID = ''btc-usdt'', cp_Side = ''BUY'', cp_OrderType = ''LIMIT'',
     cp_Price = ''11111'', cp_Quantity = ''11'', cp_IdempotencyKey = ''k''\<rparr>"

text \<open>The wallet of the wallet service behind the client.\<close>

definition bookWallet :: "int wallet_db wallet_client" where
  "bookWallet = \<lparr>wc_reserve = (\<lambda>_ user order asset amount db. case runTx (ReserveFunds calm int_wlib user order asset amount) db of
       (r, db') \<Rightarrow> (map_sum (\<lambda>_. RpcFailure None ''refused'') (\<lambda>_. ()) r, db')),
     wc_release = (\<lambda>_ order db. case runTx (ReleaseFunds calm int_wlib order) db of
       (r, db') \<Rightarrow> (map_sum (\<lambda>_. RpcFailure None ''refused'') id r, db'))\<rparr>"

definition absentEvent :: cancelled_event where
  "absentEvent = \<lparr>ce_OrderID = ''111'', ce_Status = ''ALREADY_ABSENT'', ce_Reason = []\<rparr>"

definition tradingWorld :: "(int, int wallet_db) order_world" where
  "tradingWorld = \<lparr>ow_db = sampleOrders, ow_wallet = sampleDb, ow_log = [], ow_tradeOffset = 0, ow_cancelOffset = 0\<rparr>"

section \<open>Properties\<close>

text \<open>
  C25. Orders stay well formed under every request and job of the service, whichever
  statements and calls fail and whatever the others do in between: the filled and the
  remaining quantity are not negative and add up to the ordered one, an order is FILLED
  exactly when nothing remains, a finished order has its release request, no trade is counted
  twice. An order never changes its terms, never loses a fill and only moves forward in its
  life cycle, and a trade once applied stays applied.
\<close>

theorem orders_always_sound:
  fixes w :: "('d::linordered_idom, 'v) order_world"
  assumes "ordersSound T w" and "obeys (orderMove T) en" and "wlib_ok (su_W su) T" and "exactTrades su T"
    and "run (serveOrder en su c) w = (r, w')"
  shows "orders_ok T (ow_db w') \<and>
    (\<forall>x\<in>set (odb_orders (ow_db w)). \<exists>x'\<in>set (odb_orders (ow_db w')). later_order x x') \<and>
    set (odb_trades (ow_db w)) \<subseteq> set (odb_trades (ow_db w'))"
proof -
  from orders.steady_run[OF serveOrder_steady[OF assms(2-4)] assms(1,5)]
  have "follows (orderMove T) w w'" "orders_ok T (ow_db w')" by (auto simp: ordersSound_def)
  with follows_orders[OF this(1) assms(1)] show ?thesis by blast
qed

lemma sampleSetup_exact: "exactTrades sampleSetup UNIV"
  by (simp add: exactTrades_def)

lemma orders_always_sound_witness:
  "orders_ok UNIV (ow_db (snd (run (serveOrder (shopEnv CommitLostAck) sampleSetup (TradeEvent ''settled'')) sampleShop)))"
  by (rule orders_always_sound[THEN conjunct1, OF sampleShop_ok shopEnv_obeys _ sampleSetup_exact prod.collapse[symmetric]])
    (simp add: sampleSetup_def int_wlib_ok)

text \<open>
  C26. A settled trade is applied once and completely: success means that the trade was known
  and nothing changed, or that both its orders took the fill, with the releases of those now
  filled requested in the same transaction, and their identifiers are returned; an error means
  nothing happened, or everything did and the acknowledgement was lost. A trade that is
  known changes nothing when it is delivered again.
\<close>

theorem ApplyTradeFill_exactly_once:
  assumes "wlib_ok W T" and "orders_ok T db" and "\<And>q. d_NewFromString W fillQty = Some q \<Longrightarrow> q \<in> T"
    and "runTx (ApplyTradeFill en W tradeID buy sell fillQty) db = (r, db')"
  shows "(case r of
      Inr filled \<Rightarrow> db' = db \<and> filled = [] \<and> tradeDone W tradeID db \<or>
        tradeApplied W tradeID buy sell fillQty db db' \<and>
        filled = filledIn W (orderRef W buy) db' @ filledIn W (orderRef W sell) db'
    | Inl e \<Rightarrow> db' = db \<or> tradeApplied W tradeID buy sell fillQty db db') \<and>
    (tradeDone W tradeID db \<longrightarrow> db' = db)"
proof -
  from hoare_runTx[OF ApplyTradeFill_hoare[OF assms(1-3)] assms(4)]
  have "case r of Inr filled \<Rightarrow> db' = db \<and> filled = [] \<and> tradeDone W tradeID db \<or>
        tradeApplied W tradeID buy sell fillQty db db' \<and>
        filled = filledIn W (orderRef W buy) db' @ filledIn W (orderRef W sell) db'
    | Inl e \<Rightarrow> db' = db \<or> tradeApplied W tradeID buy sell fillQty db db'"
    by (auto simp: tradeResult_def tradeFailed_def split: sum.splits)
  moreover have "\<not> tradeApplied W tradeID buy sell fillQty db db'" if "tradeDone W tradeID db"
    using that by (auto simp: tradeApplied_def tradeDone_def appliesTrade_def)
  ultimately show ?thesis by (auto split: sum.splits)
qed

lemma ApplyTradeFill_exactly_once_witness:
  "case runTx (ApplyTradeFill calm int_wlib ''1'' ''111'' ''1111'' ''111'') sampleOrders of (r, db') \<Rightarrow>
     r = Inr [''111''] \<and> tradeApplied int_wlib ''1'' ''111'' ''1111'' ''111'' sampleOrders db'"
proof -
  have r: "fst (runTx (ApplyTradeFill calm int_wlib ''1'' ''111'' ''1111'' ''111'') sampleOrders) = Inr [''111'']" by code_simp
  obtain db' where d: "runTx (ApplyTradeFill calm int_wlib ''1'' ''111'' ''1111'' ''111'') sampleOrders = (Inr [''111''], db')"
    using r by (metis prod.collapse)
  from ApplyTradeFill_exactly_once[OF int_wlib_ok sampleOrders_ok _ d] d show ?thesis by simp
qed

text \<open>
  C27. No command is lost and none is reported as sent without being sent: whatever the
  publisher and the pruning do, with failing statements and lost acknowledgements, an event of
  the outbox stays there until Kafka has its record, and only then is it marked as published.
\<close>

theorem published_means_delivered:
  fixes w :: "('d, 'v) order_world"
  assumes "outboxSound K w" and "obeys (outboxMove K) en" and "\<And>es. set (arrange es) \<subseteq> set es"
    and "m = processPendingEvents en arrange locked txt \<or> m = prunePublishedEvents en retention" and "run m w = (r, w')"
  shows "(\<forall>e\<in>set (odb_outbox (ow_db w')). ox_published_at e \<noteq> None \<longrightarrow> delivered w' e) \<and>
    (\<forall>e\<in>set (odb_outbox (ow_db w)). (\<exists>e'\<in>set (odb_outbox (ow_db w')). sameEvent e e') \<or> delivered w' e)"
proof -
  from assms(4) have "steady (outboxMove K) (outboxSound K) m"
    using processPendingEvents_steady[OF assms(2,3)] prunePublishedEvents_steady[OF assms(2)] by metis
  from outbox.steady_run[OF this assms(1,5)] have f: "follows (outboxMove K) w w'" "outboxSound K w'" by blast+
  have "outboxKept w w'" by (rule outbox_follows_kept[OF f(1)])
  with f(2) show ?thesis by (simp add: outboxSound_def outboxKept_def)
qed

lemma published_means_delivered_witness:
  "let w = snd (run (processPendingEvents (shopEnv CommitOk) id (\<lambda>_. False) ''failed'') outboxShop) in
   (\<forall>e\<in>set (odb_outbox (ow_db w)). ox_published_at e \<noteq> None \<longrightarrow> delivered w e) \<and>
   map ox_published_at (odb_outbox (ow_db w)) = [Some 0]"
proof -
  let ?m = "processPendingEvents (shopEnv CommitOk) id (\<lambda>_. False) ''failed''"
  have k: "outboxSound (\<lambda>_. content sampleCreated) outboxShop"
    by (simp add: outboxSound_def outboxShop_def) (simp add: sampleCreated_def)
  have "\<forall>e\<in>set (odb_outbox (ow_db (snd (run ?m outboxShop)))). ox_published_at e \<noteq> None \<longrightarrow> delivered (snd (run ?m outboxShop)) e"
    by (rule published_means_delivered[THEN conjunct1, OF k shopEnv_obeys _ disjI1[OF refl] prod.collapse[symmetric]]) simp
  moreover have "map ox_published_at (odb_outbox (ow_db (snd (run ?m outboxShop)))) = [Some 0]" by code_simp
  ultimately show ?thesis by (simp add: Let_def)
qed

text \<open>
  C28. A lost commit acknowledgement leaves an order without funds. When the transaction that
  inserts order and outbox event commits but the reply is lost, the compensation releases the
  reservation and the client is told the order failed, while the order is OPEN in the
  database and its command will be sent to the matching engine.
\<close>

theorem lost_ack_releases_live_order:
  assumes "insertOrder W ord (ow_db w) = Inr ((), d1)"
    and "insertOutbox (tx_pg en 0) W (or_ID ord) ''OrderCreated'' e (or_MarketID ord) 2 d1 = Inr ((), d2)"
    and "pe_fault (tx_pg en 0) = (\<lambda>_. False)" and "pe_commit (tx_pg en 0) 3 = CommitLostAck" and "pe_other en = (\<lambda>_ w. w)"
    and "wc_release wc 1 (or_ID ord) (ow_wallet w) = (Inr (), v)"
  shows "run (persistOrder en wc W False p ord (Some e)) w = (Inl ErrPersist, w\<lparr>ow_db := d2, ow_wallet := v\<rparr>)"
  using assms
  by (simp add: run_def runTx_def startTx_def persistOrder_def compensate_def tryRepo_def tryWallet_def act_def bindT_def
      RepoCreateOrder_def beginTx_def stmt_def dbStmt_def commit_def ret_def throw_def numeral_2_eq_2 numeral_3_eq_3)

definition sampleOrder :: order where
  "sampleOrder = newOrder int_wlib sampleRequest ''BTC-USDT'' 9 0 2 5"

lemma lost_ack_releases_live_order_witness:
  "\<exists>d. run (persistOrder (shopEnv CommitLostAck) notingWallet int_wlib False sampleRequest sampleOrder (Some (ox_payload sampleCreated))) sampleShop =
     (Inl ErrPersist, sampleShop\<lparr>ow_db := d, ow_wallet := [or_ID sampleOrder]\<rparr>) \<and>
     map od_status (odb_orders d) = [StatusOpen, StatusOpen, StatusOpen] \<and> map ox_event_type (odb_outbox d) = [''OrderCreated'']"
proof -
  let ?i = "insertOrder int_wlib sampleOrder sampleOrders"
  let ?o = "insertOutbox (tx_pg (shopEnv CommitLostAck :: (int, string list) order_world order_env) 0) int_wlib (or_ID sampleOrder) ''OrderCreated'' (ox_payload sampleCreated)
    (or_MarketID sampleOrder) 2 (snd (projr ?i))"
  have "\<not> isl ?i" "\<not> isl ?o" and s: "map od_status (odb_orders (snd (projr ?o))) = [StatusOpen, StatusOpen, StatusOpen] \<and>
      map ox_event_type (odb_outbox (snd (projr ?o))) = [''OrderCreated'']" by code_simp+
  then obtain x y where x: "?i = Inr x" and y: "?o = Inr y" using sum.collapse(2) by metis
  have d: "?i = Inr ((), snd x)" "insertOutbox (tx_pg (shopEnv CommitLostAck :: (int, string list) order_world order_env) 0) int_wlib
      (or_ID sampleOrder) ''OrderCreated'' (ox_payload sampleCreated) (or_MarketID sampleOrder) 2 (snd x) = Inr ((), snd y)"
    using x y by (cases x; cases y; simp)+
  have "run (persistOrder (shopEnv CommitLostAck) notingWallet int_wlib False sampleRequest sampleOrder (Some (ox_payload sampleCreated))) sampleShop =
     (Inl ErrPersist, sampleShop\<lparr>ow_db := snd y, ow_wallet := [or_ID sampleOrder]\<rparr>)"
    by (rule lost_ack_releases_live_order) (use d in \<open>simp_all add: sampleShop_def shopEnv_def calm_def notingWallet_def\<close>)
  with s y show ?thesis by (intro exI[of _ "snd y"]) simp
qed

text \<open>
  A cancellation can strand an executed trade, as \<open>released_never_settles\<close> says. The matching engine has matched the order,
  the trade is not settled yet, and the answer to a late cancel request is ALREADY_ABSENT:
  the order service finishes the order and gives its whole reservation back, so the wallet
  refuses the settlement that would have succeeded before.
\<close>

lemma cancel_strands_trade:
  "case run (ProcessCancelMessage (shopEnv CommitOk) bookWallet int_wlib (\<lambda>_. Some absentEvent) ''cancelled'') tradingWorld of
     (r, w) \<Rightarrow> r = Inr () \<and> map od_status (odb_orders (ow_db w)) = [StatusCancelled, StatusOpen] \<and>
       fst (runTx (SettleTrade calm int_wlib sampleTrade) (ow_wallet w)) = Inl ErrInsufficientReservation \<and>
       fst (runTx (SettleTrade calm int_wlib sampleTrade) (ow_wallet tradingWorld)) = Inr ()"
  by code_simp

text \<open>
  A retry is not recognised when the market was not given in its canonical form: the key is
  looked up before the market is normalised, and the stored order has the normalised one.
\<close>

lemma retry_not_recognised:
  assumes "List.find (\<lambda>r. od_key r = Some (cp_IdempotencyKey p)) (odb_orders (ow_db w)) = Some r"
    and "od_market r \<noteq> cp_MarketID p" and "cp_IdempotencyKey p \<noteq> []"
    and "pe_other en = (\<lambda>_ w. w)" and "\<not> pe_fault (tx_pg en 0) 0"
  shows "run (checkKey en W p) w = (Inl ErrDuplicateKey, w)"
  using assms
  by (simp add: run_def runTx_def startTx_def checkKey_def repo_def act_def bindT_def FindByIdempotencyKey_def poolQuery_def
      sameRequest_def scanOrder_def throw_def)

end
