(* ===== verification/MakerConfig.thy ===== *)
theory MakerConfig
  imports Complex_Main Extern
begin

text \<open>
  The liquidity engine (\<open>services/liquidity-engine\<close>), the market maker that keeps a ladder
  of orders in the book: its configuration (\<open>internal/config/config.go\<close>), the code outside
  the repository it calls, and the computations that draw random numbers.
\<close>

section \<open>Code outside the repository\<close>

text \<open>
  On top of \<open>lib\<close>: the rounding operations of \<open>decimal\<close>, binary floating point, and a
  source of random numbers with its state \<open>'g\<close>. Constants of the source are exact until they
  are used, so \<open>f_const\<close> takes the rational number the source writes. \<open>Int63n\<close> panics on an
  argument that is not positive and \<open>Div\<close> on a zero divisor; the wrappers below say so.
\<close>

record ('d, 'f, 'g) maker_lib = "'d lib" +
  k_Div :: "'d \<Rightarrow> 'd \<Rightarrow> 'd"               \<comment> \<open>decimal.Decimal.Div, 16 digits\<close>
  k_Floor :: "'d \<Rightarrow> 'd"                   \<comment> \<open>decimal.Decimal.Floor\<close>
  k_Round :: "'d \<Rightarrow> int \<Rightarrow> 'd"            \<comment> \<open>decimal.Decimal.Round\<close>
  k_IntPart :: "'d \<Rightarrow> int"                 \<comment> \<open>decimal.Decimal.IntPart\<close>
  k_FromFloat :: "'f \<Rightarrow> 'd"               \<comment> \<open>decimal.NewFromFloat\<close>
  k_Literal :: "rat \<Rightarrow> 'd"                \<comment> \<open>decimal.RequireFromString on a literal of the source\<close>
  k_Float64 :: "'d \<Rightarrow> 'f"                 \<comment> \<open>decimal.Decimal.InexactFloat64\<close>
  f_const :: "rat \<Rightarrow> 'f"
  f_ofInt :: "int \<Rightarrow> 'f"
  f_add :: "'f \<Rightarrow> 'f \<Rightarrow> 'f"
  f_sub :: "'f \<Rightarrow> 'f \<Rightarrow> 'f"
  f_mul :: "'f \<Rightarrow> 'f \<Rightarrow> 'f"
  f_div :: "'f \<Rightarrow> 'f \<Rightarrow> 'f"
  f_neg :: "'f \<Rightarrow> 'f"
  f_less :: "'f \<Rightarrow> 'f \<Rightarrow> bool"
  r_Int63n :: "'g \<Rightarrow> int \<Rightarrow> int \<times> 'g"       \<comment> \<open>rand.Rand.Int63n\<close>
  r_Float64 :: "'g \<Rightarrow> 'f \<times> 'g"            \<comment> \<open>rand.Rand.Float64\<close>
  r_New :: "time \<Rightarrow> 'g"                    \<comment> \<open>rand.New(rand.NewSource(seed))\<close>

text \<open>An \<open>int64\<close> wraps around.\<close>

definition int64 :: "int \<Rightarrow> int" where
  "int64 i = sint (word_of_int i :: 64 word)"

section \<open>Computations that draw\<close>

text \<open>
  A computation maps the state of the random source to a result and the next state. It can
  fail with an error, which keeps the numbers drawn so far, or panic: \<^term>\<open>None\<close>.
\<close>

type_synonym ('g, 'e, 'a) draw = "'g \<Rightarrow> (('e + 'a) \<times> 'g) option"

definition drawn :: "'a \<Rightarrow> ('g, 'e, 'a) draw" where
  "drawn a = (\<lambda>g. Some (Inr a, g))"

definition drawErr :: "'e \<Rightarrow> ('g, 'e, 'a) draw" where
  "drawErr e = (\<lambda>g. Some (Inl e, g))"

definition drawPanic :: "('g, 'e, 'a) draw" where
  "drawPanic = (\<lambda>g. None)"

definition bindD :: "('g, 'e, 'a) draw \<Rightarrow> ('a \<Rightarrow> ('g, 'e, 'b) draw) \<Rightarrow> ('g, 'e, 'b) draw" where
  "bindD m f = (\<lambda>g. case m g of
     None \<Rightarrow> None
   | Some (Inl e, g') \<Rightarrow> Some (Inl e, g')
   | Some (Inr a, g') \<Rightarrow> f a g')"

text \<open>\<open>fmt.Errorf\<close> with \<open>%w\<close>: the error of a call inside another.\<close>

definition wrapErr :: "('e \<Rightarrow> 'e) \<Rightarrow> ('g, 'e, 'a) draw \<Rightarrow> ('g, 'e, 'a) draw" where
  "wrapErr w m = (\<lambda>g. case m g of
     None \<Rightarrow> None
   | Some (Inl e, g') \<Rightarrow> Some (Inl (w e), g')
   | Some (Inr a, g') \<Rightarrow> Some (Inr a, g'))"

definition Int63n :: "('d, 'f, 'g, 'x) maker_lib_scheme \<Rightarrow> int \<Rightarrow> ('g, 'e, int) draw" where
  "Int63n L n = (if n \<le> 0 then drawPanic else (\<lambda>g. case r_Int63n L g n of (i, g') \<Rightarrow> Some (Inr i, g')))"

definition Float64 :: "('d, 'f, 'g, 'x) maker_lib_scheme \<Rightarrow> ('g, 'e, 'f) draw" where
  "Float64 L = (\<lambda>g. case r_Float64 L g of (x, g') \<Rightarrow> Some (Inr x, g'))"

definition Div :: "('d::zero, 'f, 'g, 'x) maker_lib_scheme \<Rightarrow> 'd \<Rightarrow> 'd \<Rightarrow> ('g, 'e, 'd) draw" where
  "Div L x y = (if y = 0 then drawPanic else drawn (k_Div L x y))"

text \<open>What the results of a computation satisfy, and what its errors do.\<close>

definition yields :: "('g, 'e, 'a) draw \<Rightarrow> ('a \<Rightarrow> bool) \<Rightarrow> bool" where
  "yields m P \<longleftrightarrow> (\<forall>g a g'. m g = Some (Inr a, g') \<longrightarrow> P a)"

definition runs :: "('g, 'e, 'a) draw \<Rightarrow> bool" where
  "runs m \<longleftrightarrow> (\<forall>g. m g \<noteq> None)"

named_theorems draw_intros \<open>what the results of drawing computations satisfy\<close>

named_theorems runs_intros \<open>computations that do not panic\<close>

lemma yieldsD: "yields m P \<Longrightarrow> m g = Some (Inr a, g') \<Longrightarrow> P a"
  by (auto simp: yields_def)

lemma yields_drawn [draw_intros]: "P a \<Longrightarrow> yields (drawn a) P"
  by (simp add: yields_def drawn_def)

lemma yields_err [draw_intros]: "yields (drawErr e) P"
  by (simp add: yields_def drawErr_def)

lemma yields_panic [draw_intros]: "yields drawPanic P"
  by (simp add: yields_def drawPanic_def)

lemma yields_bind: "yields m Q \<Longrightarrow> (\<And>a. Q a \<Longrightarrow> yields (f a) P) \<Longrightarrow> yields (bindD m f) P"
  unfolding yields_def bindD_def by (fastforce split: option.splits prod.splits sum.splits)

lemma yields_any [draw_intros]: "(\<And>a. yields (f a) P) \<Longrightarrow> yields (bindD m f) P"
  by (rule yields_bind[where Q = "\<lambda>_. True"]) (simp_all add: yields_def)

lemma yields_wrap [draw_intros]: "yields m P \<Longrightarrow> yields (wrapErr w m) P"
  unfolding yields_def wrapErr_def by (fastforce split: option.splits prod.splits sum.splits)

lemma yields_if [draw_intros]: "(c \<Longrightarrow> yields m P) \<Longrightarrow> (\<not> c \<Longrightarrow> yields m' P) \<Longrightarrow> yields (if c then m else m') P"
  by simp

lemma yields_mono: "yields m P \<Longrightarrow> (\<And>a. P a \<Longrightarrow> Q a) \<Longrightarrow> yields m Q"
  by (auto simp: yields_def)

lemma runs_drawn [runs_intros]: "runs (drawn a)"
  by (simp add: runs_def drawn_def)

lemma runs_err [runs_intros]: "runs (drawErr e)"
  by (simp add: runs_def drawErr_def)

lemma runs_bind [runs_intros]: "runs m \<Longrightarrow> (\<And>a. runs (f a)) \<Longrightarrow> runs (bindD m f)"
  unfolding runs_def bindD_def by (fastforce split: option.splits prod.splits sum.splits)

lemma runs_wrap [runs_intros]: "runs m \<Longrightarrow> runs (wrapErr w m)"
  unfolding runs_def wrapErr_def by (fastforce split: option.splits prod.splits sum.splits)

lemma runs_if [runs_intros]: "(c \<Longrightarrow> runs m) \<Longrightarrow> (\<not> c \<Longrightarrow> runs m') \<Longrightarrow> runs (if c then m else m')"
  by simp

lemma runs_Float64 [runs_intros]: "runs (Float64 L)"
  by (simp add: runs_def Float64_def split: prod.splits)

lemma runs_Int63n [runs_intros]: "0 < n \<Longrightarrow> runs (Int63n L n)"
  by (simp add: runs_def Int63n_def split: prod.splits)

lemma runs_Div [runs_intros]: "y \<noteq> 0 \<Longrightarrow> runs (Div L x y)"
  by (simp add: Div_def runs_drawn)

section \<open>Configuration\<close>

record zone_band =
  zb_MinBps :: int
  zb_MaxBps :: int
  zb_Count :: int

record zone_config =
  zc_Low :: zone_band
  zc_Mid :: zone_band
  zc_High :: zone_band

definition TotalLevels :: "zone_config \<Rightarrow> int" where
  "TotalLevels z = zb_Count (zc_Low z) + zb_Count (zc_Mid z) + zb_Count (zc_High z)"

definition DefaultZoneConfig :: zone_config where
  "DefaultZoneConfig =
     \<lparr>zc_Low = \<lparr>zb_MinBps = 1, zb_MaxBps = 15, zb_Count = 7\<rparr>,
      zc_Mid = \<lparr>zb_MinBps = 15, zb_MaxBps = 45, zb_Count = 4\<rparr>,
      zc_High = \<lparr>zb_MinBps = 45, zb_MaxBps = 100, zb_Count = 1\<rparr>\<rparr>"

record 'd repricing_config =
  rc_SmallBps :: int
  rc_LargeBps :: int
  rc_MaxBatch :: int
  rc_SpreadBreachBps :: int
  rc_OrderLifetime :: int
  rc_RefreshCooldown :: int
  rc_RefreshConsumptionThreshold :: 'd

record 'd ref_price_config =
  rp_PauseThreshold :: int
  rp_BTCSeed :: 'd
  rp_ETHSeed :: 'd
  rp_SOLSeed :: 'd

definition SeedForMarket :: "('d::zero) ref_price_config option \<Rightarrow> string \<Rightarrow> 'd" where
  "SeedForMarket c marketID = (case c of
     None \<Rightarrow> 0
   | Some c \<Rightarrow>
       if marketID = ''BTC-USDT'' then rp_BTCSeed c
       else if marketID = ''ETH-USDT'' then rp_ETHSeed c
       else if marketID = ''SOL-USDT'' then rp_SOLSeed c
       else 0)"

record 'd maker_market =
  mk_MarketID :: string
  mk_BaseAsset :: string
  mk_QuoteAsset :: string
  mk_TickSize :: 'd
  mk_LotSize :: 'd
  mk_Partition :: int
  mk_LevelCount :: int
  mk_MinOrderSize :: 'd
  mk_MinBase :: 'd
  mk_CriticalBase :: 'd
  mk_MinQuote :: 'd
  mk_CriticalQuote :: 'd
  mk_SpreadBps :: int
  mk_ReferencePrice :: 'd
  mk_BidZones :: zone_config
  mk_AskZones :: zone_config
  mk_QtyPerLevel :: 'd
  mk_MaxBidExposureUSDT :: 'd
  mk_MaxAskExposureBase :: 'd
  mk_Repricing :: "'d repricing_config"

text \<open>The settings the engine reads while it runs; addresses and ports are left out.\<close>

record 'd maker_config =
  kc_Markets :: "'d maker_market list"
  kc_MaxBalanceStaleness :: int
  kc_MaxOrderStateStaleness :: int
  kc_PendingTimeout :: int
  kc_CancellingTimeout :: int
  kc_CancelRetryLimit :: int
  kc_OrphanCancelCooldown :: int
  kc_RefPrice :: "'d ref_price_config"

definition ForMarket :: "'d maker_config \<Rightarrow> string \<Rightarrow> 'd maker_market option" where
  "ForMarket c marketID = find (\<lambda>m. mk_MarketID m = marketID) (kc_Markets c)"

fun validatePartitions :: "(int \<times> string) list \<Rightarrow> 'd maker_market list \<Rightarrow> (int \<times> string \<times> string) option" where
  "validatePartitions seen [] = None"
| "validatePartitions seen (m # ms) = (case map_of seen (mk_Partition m) of
     Some prev \<Rightarrow> Some (mk_Partition m, prev, mk_MarketID m)
   | None \<Rightarrow> validatePartitions ((mk_Partition m, mk_MarketID m) # seen) ms)"

text \<open>The partition with the two markets it is assigned to, or no error.\<close>

definition ValidatePartitions :: "'d maker_config \<Rightarrow> (int \<times> string \<times> string) option" where
  "ValidatePartitions c = validatePartitions [] (kc_Markets c)"

definition PartitionFor :: "'d maker_config \<Rightarrow> string \<Rightarrow> int" where
  "PartitionFor c marketID = (case ForMarket c marketID of None \<Rightarrow> -1 | Some mc \<Rightarrow> mk_Partition mc)"

lemma ForMarket_ID: "ForMarket c i = Some mc \<Longrightarrow> mk_MarketID mc = i"
  by (auto simp: ForMarket_def find_Some_iff)

lemma validatePartitions_None:
  "validatePartitions seen ms = None \<longleftrightarrow>
   distinct (map mk_Partition ms) \<and> (\<forall>m\<in>set ms. mk_Partition m \<notin> fst ` set seen)"
proof (induction ms arbitrary: seen)
  case (Cons m ms)
  show ?case
  proof (cases "map_of seen (mk_Partition m)")
    case None
    then have "mk_Partition m \<notin> fst ` set seen" by (simp add: map_of_eq_None_iff)
    with None Cons.IH show ?thesis by (simp add: image_iff) metis
  next
    case (Some prev)
    then have "mk_Partition m \<in> fst ` set seen" by (metis map_of_SomeD fst_conv imageI)
    with Some show ?thesis by simp
  qed
qed simp

text \<open>An accepted configuration gives every market a partition of its own.\<close>

lemma ValidatePartitions_None:
  "ValidatePartitions c = None \<longleftrightarrow> distinct (map mk_Partition (kc_Markets c))"
  by (simp add: ValidatePartitions_def validatePartitions_None)

end
