(* ===== verification/MakerPricing.thy ===== *)
theory MakerPricing
  imports MakerConfig
begin

text \<open>
  The ladder the engine wants to have in the book (\<open>internal/pricing\<close>): the deprecated
  uniform ladder of \<open>ladder.go\<close>, and \<open>zoned_ladder.go\<close>, which keeps the price of every level
  that has an order and draws one inside the zone of every level that has none.
\<close>

section \<open>Strings\<close>

text \<open>\<open>strings.Split\<close> and \<open>strings.Join\<close> on one character.\<close>

fun splitOn :: "char \<Rightarrow> string \<Rightarrow> string list" where
  "splitOn c [] = [[]]"
| "splitOn c (x # xs) = (if x = c then [] # splitOn c xs
     else (case splitOn c xs of [] \<Rightarrow> [[x]] | p # ps \<Rightarrow> (x # p) # ps))"

fun joinOn :: "char \<Rightarrow> string list \<Rightarrow> string" where
  "joinOn c [] = []"
| "joinOn c [p] = p"
| "joinOn c (p # q # ps) = p @ c # joinOn c (q # ps)"

text \<open>\<open>%0wd\<close> of \<open>fmt.Sprintf\<close>: the width counts the sign.\<close>

definition pad0 :: "nat \<Rightarrow> int \<Rightarrow> string" where
  "pad0 w i =
     (if i < 0 then (let s = itoa (nat (- i)) in CHR ''-'' # replicate (w - 1 - length s) CHR ''0'' @ s)
      else (let s = itoa (nat i) in replicate (w - length s) CHR ''0'' @ s))"

text \<open>
  \<open>%d\<close> of \<open>fmt.Sscanf\<close>: the white space of ASCII is skipped, but a newline is an error, a
  sign is accepted, then digits up to the first other character; the value must fit 64 bits.
\<close>

fun skipSpace :: "string \<Rightarrow> string option" where
  "skipSpace [] = Some []"
| "skipSpace (c # cs) =
     (if c = CHR 0x0A then None
      else if c = CHR '' '' \<or> c = CHR 0x09 \<or> c = CHR 0x0B \<or> c = CHR 0x0C \<or> c = CHR 0x0D then skipSpace cs
      else Some (c # cs))"

definition isDigit :: "char \<Rightarrow> bool" where
  "isDigit c \<longleftrightarrow> 48 \<le> (of_char c :: nat) \<and> (of_char c :: nat) \<le> 57"

fun scanDigits :: "int \<Rightarrow> string \<Rightarrow> int" where
  "scanDigits acc [] = acc"
| "scanDigits acc (c # cs) = (if isDigit c then scanDigits (10 * acc + (of_char c - 48)) cs else acc)"

definition scanUnsigned :: "string \<Rightarrow> int option" where
  "scanUnsigned s = (case s of [] \<Rightarrow> None | c # _ \<Rightarrow> if isDigit c then Some (scanDigits 0 s) else None)"

definition inInt64 :: "int \<Rightarrow> bool" where
  "inInt64 i \<longleftrightarrow> - 9223372036854775808 \<le> i \<and> i \<le> 9223372036854775807"

definition scanInt :: "string \<Rightarrow> int option" where
  "scanInt s = (case skipSpace s of
     None \<Rightarrow> None
   | Some t \<Rightarrow>
       let v = (case t of
         [] \<Rightarrow> None
       | c # cs \<Rightarrow> if c = CHR ''-'' then map_option uminus (scanUnsigned cs)
                  else if c = CHR ''+'' then scanUnsigned cs else scanUnsigned t)
       in case v of None \<Rightarrow> None | Some i \<Rightarrow> if inInt64 i then Some i else None)"

section \<open>Levels\<close>

record 'd maker_level =
  pl_LevelID :: string
  pl_MarketID :: string
  pl_Side :: string
  pl_Price :: 'd
  pl_Quantity :: 'd
  pl_Zone :: string
  pl_RefVersion :: int

record 'd active_level =
  al_Status :: string
  al_Price :: 'd
  al_Quantity :: 'd
  al_RefVersion :: int

datatype 'd price_error =
    OutOfZone 'd 'd 'd
  | NotBelowRef 'd 'd
  | NotAboveRef 'd 'd
  | PriceTaken 'd
  | NoUniquePrice string string 'd 'd 'd
  | InvalidReference string 'd
  | AtLevel string string "'d price_error"
  | AtSide string string "'d price_error"

text \<open>\<open>fmt.Sprintf("MM-%s-%s-%02d", mc.MarketID, label, i)\<close>.\<close>

definition levelIDOf :: "string \<Rightarrow> string \<Rightarrow> int \<Rightarrow> string" where
  "levelIDOf marketID label i = ''MM-'' @ marketID @ ''-'' @ label @ ''-'' @ pad0 2 i"

section \<open>The uniform ladder\<close>

definition bpsMultiplier :: "('d::linordered_idom, 'f, 'g, 'x) maker_lib_scheme \<Rightarrow> int \<Rightarrow> 'd" where
  "bpsMultiplier L bps = 1 + k_Div L (of_int bps) (of_int 10000)"

definition roundToTick :: "('d::linordered_idom, 'f, 'g, 'x) maker_lib_scheme \<Rightarrow> 'd \<Rightarrow> 'd \<Rightarrow> 'd" where
  "roundToTick L price tickSize = (if tickSize = 0 then price else k_Floor L (k_Div L price tickSize) * tickSize)"

definition roundToLot :: "('d::linordered_idom, 'f, 'g, 'x) maker_lib_scheme \<Rightarrow> 'd \<Rightarrow> 'd \<Rightarrow> 'd" where
  "roundToLot L qty lotSize = (if lotSize = 0 then qty else k_Floor L (k_Div L qty lotSize) * lotSize)"

definition levelQuantity :: "('d::linordered_idom, 'f, 'g, 'x) maker_lib_scheme \<Rightarrow> 'd maker_market \<Rightarrow> 'd" where
  "levelQuantity L mc = roundToLot L
     (if mk_MarketID mc = ''BTC-USDT'' then k_Literal L (85 / 100)
      else if mk_MarketID mc = ''ETH-USDT'' then k_Literal L (15 / 10)
      else if mk_MarketID mc = ''SOL-USDT'' then k_Literal L 20
      else k_Literal L 1) (mk_LotSize mc)"

primrec mapD :: "('b \<Rightarrow> ('g, 'e, 'a) draw) \<Rightarrow> 'b list \<Rightarrow> ('g, 'e, 'a list) draw" where
  "mapD f [] = drawn []"
| "mapD f (x # xs) = bindD (f x) (\<lambda>a. bindD (mapD f xs) (\<lambda>as. drawn (a # as)))"

definition uniformLevel :: "('d::linordered_idom, 'f, 'g, 'x) maker_lib_scheme \<Rightarrow> 'd maker_market \<Rightarrow>
    string \<Rightarrow> string \<Rightarrow> 'd \<Rightarrow> int \<Rightarrow> 'd maker_level" where
  "uniformLevel L mc label s rawPrice i =
     \<lparr>pl_LevelID = levelIDOf (mk_MarketID mc) label i, pl_MarketID = mk_MarketID mc, pl_Side = s,
      pl_Price = roundToTick L rawPrice (mk_TickSize mc), pl_Quantity = levelQuantity L mc,
      pl_Zone = [], pl_RefVersion = 0\<rparr>"

definition GenerateLadder :: "('d::linordered_idom, 'f, 'g, 'x) maker_lib_scheme \<Rightarrow> 'd maker_market \<Rightarrow>
    int \<Rightarrow> int \<Rightarrow> ('g, 'e, 'd maker_level list) draw" where
  "GenerateLadder L mc bidCount askCount =
     bindD (mapD (\<lambda>i. bindD (Div L (mk_ReferencePrice mc) (bpsMultiplier L (mk_SpreadBps mc * i)))
         (\<lambda>rawPrice. drawn (uniformLevel L mc ''BID'' ''BUY'' rawPrice i))) [1..bidCount]) (\<lambda>bids.
     drawn (bids @ map (\<lambda>i. uniformLevel L mc ''ASK'' ''SELL''
         (mk_ReferencePrice mc * bpsMultiplier L (mk_SpreadBps mc * i)) i) [1..askCount]))"

section \<open>The zoned ladder\<close>

definition AllocateZones :: "int \<Rightarrow> zone_config \<Rightarrow> zone_config" where
  "AllocateZones targetCount zones0 =
     (let zones = (if TotalLevels zones0 = 0 then DefaultZoneConfig else zones0);
          put = (\<lambda>l m h. \<lparr>zc_Low = (zc_Low zones)\<lparr>zb_Count := l\<rparr>, zc_Mid = (zc_Mid zones)\<lparr>zb_Count := m\<rparr>,
                   zc_High = (zc_High zones)\<lparr>zb_Count := h\<rparr>\<rparr>)
      in if targetCount \<le> 0 then put 0 0 0
         else
           let lowCount = min targetCount (zb_Count (zc_Low zones));
               midCount = min (targetCount - lowCount) (zb_Count (zc_Mid zones));
               highCount = min (targetCount - lowCount - midCount) (zb_Count (zc_High zones))
           in put lowCount midCount highCount)"

definition resolveQtyPerLevel :: "('d::linordered_idom, 'f, 'g, 'x) maker_lib_scheme \<Rightarrow> 'd maker_market \<Rightarrow> 'd" where
  "resolveQtyPerLevel L mc =
     (if mk_QtyPerLevel mc \<noteq> 0 then roundToLot L (mk_QtyPerLevel mc) (mk_LotSize mc)
      else if mk_MarketID mc = ''BTC-USDT'' then roundToLot L (k_Literal L (15 / 100)) (mk_LotSize mc)
      else if mk_MarketID mc = ''ETH-USDT'' then roundToLot L (k_Literal L (15 / 10)) (mk_LotSize mc)
      else if mk_MarketID mc = ''SOL-USDT'' then roundToLot L (k_Literal L 20) (mk_LotSize mc)
      else roundToLot L (k_Literal L 1) (mk_LotSize mc))"

text \<open>A scale between two constants, over the slots of a zone.\<close>

definition slotScale :: "('d, 'f, 'g, 'x) maker_lib_scheme \<Rightarrow> rat \<Rightarrow> rat \<Rightarrow> rat \<Rightarrow> int \<Rightarrow> int \<Rightarrow> 'f" where
  "slotScale L single lo hi slot slotCount =
     (if slotCount \<le> 1 then f_const L single
      else f_add L (f_const L lo)
        (f_mul L (f_const L (hi - lo)) (f_div L (f_ofInt L slot) (f_ofInt L (slotCount - 1)))))"

text \<open>\<open>rng\<close> is whether the caller has a random source; without one there is no jitter.\<close>

definition ResolveLevelQuantity :: "('d::linordered_idom, 'f, 'g, 'x) maker_lib_scheme \<Rightarrow> 'd maker_market \<Rightarrow>
    'd \<Rightarrow> string \<Rightarrow> int \<Rightarrow> int \<Rightarrow> bool \<Rightarrow> ('g, 'e, 'd) draw" where
  "ResolveLevelQuantity L mc base zone slot slotCount rng =
     (let baseQty = (if base = 0 \<or> base < 0 then resolveQtyPerLevel L mc else base);
          scale =
            (if zone = ''LOW'' then slotScale L (50 / 100) (40 / 100) (85 / 100) slot slotCount
             else if zone = ''MID'' then slotScale L (90 / 100) (75 / 100) (110 / 100) slot slotCount
             else if zone = ''HIGH'' then slotScale L (130 / 100) (120 / 100) (150 / 100) slot slotCount
             else f_const L 1)
      in bindD (if rng then bindD (Float64 L) (\<lambda>x. drawn (f_add L (f_const L (94 / 100)) (f_mul L (f_const L (12 / 100)) x)))
                else drawn (f_const L 1)) (\<lambda>jitter.
         let qty = roundToLot L (baseQty * k_FromFloat L (f_mul L scale jitter)) (mk_LotSize mc)
         in drawn (if mk_MinOrderSize mc \<noteq> 0 \<and> qty < mk_MinOrderSize mc then mk_MinOrderSize mc else qty)))"

definition isActivePricingStatus :: "string \<Rightarrow> bool" where
  "isActivePricingStatus status \<longleftrightarrow> status = ''PENDING'' \<or> status = ''OS_REGISTERED'' \<or> status = ''RESTING''"

definition tickSizeOf :: "('d::linordered_idom, 'f, 'g, 'x) maker_lib_scheme \<Rightarrow> 'd maker_market \<Rightarrow> 'd" where
  "tickSizeOf L mc =
     (if mk_TickSize mc \<noteq> 0 then mk_TickSize mc
      else if mk_MarketID mc = ''BTC-USDT'' then k_Literal L (1 / 100)
      else if mk_MarketID mc = ''ETH-USDT'' then k_Literal L (1 / 100)
      else if mk_MarketID mc = ''SOL-USDT'' then k_Literal L (1 / 1000)
      else k_Literal L (1 / 100))"

text \<open>The lowest and the highest price of a zone.\<close>

definition zoneRange :: "('d::linordered_idom, 'f, 'g, 'x) maker_lib_scheme \<Rightarrow> 'd \<Rightarrow> string \<Rightarrow> zone_band \<Rightarrow>
    ('g, 'e, 'd \<times> 'd) draw" where
  "zoneRange L ref s band =
     (let minMult = k_Div L (of_int (zb_MinBps band)) (of_int 10000);
          maxMult = k_Div L (of_int (zb_MaxBps band)) (of_int 10000)
      in if s = ''BUY''
         then bindD (Div L ref (1 + minMult)) (\<lambda>maxPrice. bindD (Div L ref (1 + maxMult)) (\<lambda>minPrice. drawn (minPrice, maxPrice)))
         else drawn (ref * (1 + minMult), ref * (1 + maxMult)))"

definition maxPriceRetries :: nat where
  "maxPriceRetries = 20"

primrec tryPrices :: "('d::linordered_idom, 'f, 'g, 'x) maker_lib_scheme \<Rightarrow> 'd maker_market \<Rightarrow> 'd \<Rightarrow> string \<Rightarrow>
    string set \<Rightarrow> 'd \<Rightarrow> 'd \<Rightarrow> 'd \<Rightarrow> int \<Rightarrow> nat \<Rightarrow> ('g, 'd price_error, 'd) draw" where
  "tryPrices L mc ref s taken minPrice maxPrice tickSize rangeTicks 0 =
     drawErr (NoUniquePrice (mk_MarketID mc) s ref minPrice maxPrice)"
| "tryPrices L mc ref s taken minPrice maxPrice tickSize rangeTicks (Suc n) =
     bindD (Int63n L (int64 (rangeTicks + 1))) (\<lambda>offset.
       let again = tryPrices L mc ref s taken minPrice maxPrice tickSize rangeTicks n;
           normalised = roundToTick L (minPrice + tickSize * of_int offset) tickSize
       in if normalised < minPrice \<or> maxPrice < normalised then again
          else if s = ''BUY'' \<and> \<not> normalised < ref then again
          else if s = ''SELL'' \<and> \<not> ref < normalised then again
          else if d_String L normalised \<notin> taken then drawn normalised
          else again)"

definition GenerateLevelPrice :: "('d::linordered_idom, 'f, 'g, 'x) maker_lib_scheme \<Rightarrow> 'd maker_market \<Rightarrow>
    'd \<Rightarrow> string \<Rightarrow> zone_band \<Rightarrow> string set \<Rightarrow> ('g, 'd price_error, 'd) draw" where
  "GenerateLevelPrice L mc ref s band taken =
     bindD (zoneRange L ref s band) (\<lambda>(minPrice, maxPrice).
       let tickSize = tickSizeOf L mc in
       bindD (Div L (maxPrice - minPrice) tickSize) (\<lambda>ticks.
         let rangeTicks = k_IntPart L (k_Floor L ticks) in
         if rangeTicks \<le> 0 then
           (let normalised = roundToTick L (k_Div L (minPrice + maxPrice) (of_int 2)) tickSize
            in if normalised < minPrice \<or> maxPrice < normalised then drawErr (OutOfZone normalised minPrice maxPrice)
               else if s = ''BUY'' \<and> \<not> normalised < ref then drawErr (NotBelowRef normalised ref)
               else if s = ''SELL'' \<and> \<not> ref < normalised then drawErr (NotAboveRef normalised ref)
               else if d_String L normalised \<in> taken then drawErr (PriceTaken normalised)
               else drawn normalised)
         else tryPrices L mc ref s taken minPrice maxPrice tickSize rangeTicks maxPriceRetries))"

definition sideLabel :: "string \<Rightarrow> string" where
  "sideLabel s = (if s = ''SELL'' then ''ASK'' else ''BID'')"

text \<open>One slot: the level and the prices taken with it.\<close>

definition generateLevel :: "('d::linordered_idom, 'f, 'g, 'x) maker_lib_scheme \<Rightarrow> 'd maker_market \<Rightarrow> 'd \<Rightarrow> string \<Rightarrow>
    'd \<Rightarrow> (string \<Rightarrow> 'd active_level option) \<Rightarrow> int \<Rightarrow> string \<Rightarrow> zone_band \<Rightarrow> int \<Rightarrow> int \<Rightarrow> string set \<Rightarrow>
    ('g, 'd price_error, 'd maker_level \<times> string set) draw" where
  "generateLevel L mc ref s baseQty tracker refVersion zone band slot levelIndex taken =
     (let levelID = levelIDOf (mk_MarketID mc) (sideLabel s) levelIndex;
          quantity = ResolveLevelQuantity L mc baseQty zone slot (zb_Count band) True;
          level = (\<lambda>price qty ver. \<lparr>pl_LevelID = levelID, pl_MarketID = mk_MarketID mc, pl_Side = s,
              pl_Price = price, pl_Quantity = qty, pl_Zone = zone, pl_RefVersion = ver\<rparr>);
          generate = bindD (wrapErr (AtLevel levelID zone) (GenerateLevelPrice L mc ref s band taken)) (\<lambda>price.
              bindD quantity (\<lambda>qty. drawn (level price qty refVersion, insert (d_String L price) taken)))
      in case tracker levelID of
           None \<Rightarrow> generate
         | Some existing \<Rightarrow>
             if isActivePricingStatus (al_Status existing)
             then bindD (if al_Quantity existing = 0 then quantity else drawn (al_Quantity existing)) (\<lambda>lockedQty.
               drawn (level (al_Price existing) lockedQty (al_RefVersion existing),
                      insert (d_String L (al_Price existing)) taken))
             else generate)"

text \<open>The slots of one zone: \<open>n\<close> of them are left.\<close>

primrec generateSlots :: "('d::linordered_idom, 'f, 'g, 'x) maker_lib_scheme \<Rightarrow> 'd maker_market \<Rightarrow> 'd \<Rightarrow> string \<Rightarrow>
    'd \<Rightarrow> (string \<Rightarrow> 'd active_level option) \<Rightarrow> int \<Rightarrow> string \<Rightarrow> zone_band \<Rightarrow> nat \<Rightarrow> int \<Rightarrow> int \<Rightarrow> string set \<Rightarrow>
    ('g, 'd price_error, 'd maker_level list \<times> string set) draw" where
  "generateSlots L mc ref s baseQty tracker refVersion zone band 0 slot levelIndex taken = drawn ([], taken)"
| "generateSlots L mc ref s baseQty tracker refVersion zone band (Suc n) slot levelIndex taken =
     bindD (generateLevel L mc ref s baseQty tracker refVersion zone band slot levelIndex taken) (\<lambda>(level, taken').
     bindD (generateSlots L mc ref s baseQty tracker refVersion zone band n (slot + 1) (levelIndex + 1) taken')
       (\<lambda>(levels, taken''). drawn (level # levels, taken'')))"

definition generateSide :: "('d::linordered_idom, 'f, 'g, 'x) maker_lib_scheme \<Rightarrow> 'd maker_market \<Rightarrow> 'd \<Rightarrow> string \<Rightarrow>
    zone_config \<Rightarrow> 'd \<Rightarrow> (string \<Rightarrow> 'd active_level option) \<Rightarrow> string set \<Rightarrow> int \<Rightarrow>
    ('g, 'd price_error, 'd maker_level list \<times> string set) draw" where
  "generateSide L mc ref s zones baseQty tracker taken refVersion =
     (let zone = (\<lambda>name band idx tk.
            generateSlots L mc ref s baseQty tracker refVersion name band (nat (zb_Count band)) 0 idx tk);
          index = (\<lambda>levels. 1 + int (length levels))
      in bindD (zone ''LOW'' (zc_Low zones) 1 taken) (\<lambda>(low, taken1).
         bindD (zone ''MID'' (zc_Mid zones) (index low) taken1) (\<lambda>(mid, taken2).
         bindD (zone ''HIGH'' (zc_High zones) (index (low @ mid)) taken2) (\<lambda>(high, taken3).
         drawn (low @ mid @ high, taken3)))))"

definition zonedDesired :: "('d::linordered_idom, 'f, 'g, 'x) maker_lib_scheme \<Rightarrow> 'd maker_market \<Rightarrow> 'd \<Rightarrow>
    (string \<Rightarrow> 'd active_level option) \<Rightarrow> zone_config \<Rightarrow> zone_config \<Rightarrow> int \<Rightarrow> int \<Rightarrow> int \<Rightarrow>
    ('g, 'd price_error, 'd maker_level list) draw" where
  "zonedDesired L mc ref tracker bidZones0 askZones0 refVersion bidCount askCount =
     (if ref = 0 \<or> ref < 0 then drawErr (InvalidReference (mk_MarketID mc) ref)
      else
        let bidZones = (if TotalLevels bidZones0 = 0 then DefaultZoneConfig else bidZones0);
            askZones = (if TotalLevels askZones0 = 0 then DefaultZoneConfig else askZones0);
            baseQty = resolveQtyPerLevel L mc
        in bindD (wrapErr (AtSide ''BID'' (mk_MarketID mc))
             (generateSide L mc ref ''BUY'' (AllocateZones bidCount bidZones) baseQty tracker {} refVersion)) (\<lambda>(bids, _).
           bindD (wrapErr (AtSide ''ASK'' (mk_MarketID mc))
             (generateSide L mc ref ''SELL'' (AllocateZones askCount askZones) baseQty tracker {} refVersion)) (\<lambda>(asks, _).
           drawn (bids @ asks))))"

text \<open>A nil source is replaced by one seeded from the clock.\<close>

definition GenerateZonedDesired :: "('d::linordered_idom, 'f, 'g, 'x) maker_lib_scheme \<Rightarrow> time \<Rightarrow> 'd maker_market \<Rightarrow> 'd \<Rightarrow>
    (string \<Rightarrow> 'd active_level option) \<Rightarrow> zone_config \<Rightarrow> zone_config \<Rightarrow> int \<Rightarrow> int \<Rightarrow> int \<Rightarrow> 'g option \<Rightarrow>
    (('d price_error + 'd maker_level list) \<times> 'g) option" where
  "GenerateZonedDesired L now mc ref tracker bidZones askZones refVersion bidCount askCount rng =
     zonedDesired L mc ref tracker bidZones askZones refVersion bidCount askCount
       (case rng of None \<Rightarrow> r_New L now | Some g \<Rightarrow> g)"

section \<open>Level IDs\<close>

datatype level_error = NotALevel string | BadSide string string | BadIndex string string

definition ParseLevelID :: "string \<Rightarrow> level_error + string \<times> string \<times> int" where
  "ParseLevelID levelID =
     (let parts = splitOn CHR ''-'' levelID in
      if length parts < 4 \<or> parts ! 0 \<noteq> ''MM'' then Inl (NotALevel levelID)
      else
        let s = parts ! (length parts - 2); numStr = parts ! (length parts - 1) in
        if s \<noteq> ''BID'' \<and> s \<noteq> ''ASK'' then Inl (BadSide s levelID)
        else case scanInt numStr of
            None \<Rightarrow> Inl (BadIndex numStr levelID)
          | Some levelNum \<Rightarrow>
              if levelNum \<le> 0 then Inl (BadIndex numStr levelID)
              else Inr (joinOn CHR ''-'' (take (length parts - 3) (drop 1 parts)), s, levelNum))"

definition ResolveZoneForLevel :: "int \<Rightarrow> zone_config \<Rightarrow> string" where
  "ResolveZoneForLevel levelNum zones0 =
     (if levelNum \<le> 0 then ''''
      else
        let zones = (if TotalLevels zones0 = 0 then DefaultZoneConfig else zones0) in
        if levelNum \<le> zb_Count (zc_Low zones) then ''LOW''
        else if levelNum \<le> zb_Count (zc_Low zones) + zb_Count (zc_Mid zones) then ''MID''
        else if levelNum \<le> TotalLevels zones then ''HIGH''
        else '''')"

definition ResolveZoneForMarketConfig :: "string \<Rightarrow> 'd maker_market option \<Rightarrow> string" where
  "ResolveZoneForMarketConfig levelID mc = (case mc of
     None \<Rightarrow> ''''
   | Some mc \<Rightarrow>
       (case ParseLevelID levelID of
          Inl _ \<Rightarrow> ''''
        | Inr (_, label, levelNum) \<Rightarrow>
            ResolveZoneForLevel levelNum (if label = ''ASK'' then mk_AskZones mc else mk_BidZones mc)))"

end
