(* ===== verification/MakerTracker.thy ===== *)
theory MakerTracker
  imports MakerPricing "HOL-Library.AList"
begin

text \<open>
  The engine's picture of its own orders (\<open>internal/order/order.go\<close>, \<open>tracker.go\<close>) and the
  comparison with the ladder it wants (\<open>diff.go\<close>). A Go map that the code ranges over is an
  association list; the order of a range is not specified, so every range takes a function
  \<open>vis\<close> that lists the keys in the order they are visited. A pointer into the map is the
  level ID.
\<close>

section \<open>Orders of the market maker\<close>

datatype maker_status = StatusPending | StatusOSRegistered | StatusResting | StatusCancelling | StatusStale

fun status_string :: "maker_status \<Rightarrow> string" where
  "status_string StatusPending = ''PENDING''"
| "status_string StatusOSRegistered = ''OS_REGISTERED''"
| "status_string StatusResting = ''RESTING''"
| "status_string StatusCancelling = ''CANCELLING''"
| "status_string StatusStale = ''STALE''"

record 'd live_order =
  lo_LevelID :: string
  lo_Generation :: int
  lo_ClientOrderID :: string
  lo_OrderID :: string
  lo_MarketID :: string
  lo_Side :: string
  lo_Price :: 'd
  lo_OriginalQty :: 'd
  lo_RemainingQty :: 'd
  lo_FilledQty :: 'd
  lo_Status :: maker_status
  lo_KafkaPublished :: bool
  lo_PendingSince :: time
  lo_OSRegisteredSince :: time
  lo_CancellingSince :: time
  lo_CancelRetries :: int
  lo_QueuedCorrection :: "'d maker_level option"
  lo_Zone :: string
  lo_RefVersion :: int
  lo_CreatedAt :: time

text \<open>An order as the order service lists it.\<close>

record 'd os_order =
  so_LevelID :: string
  so_Generation :: int
  so_ClientOrderID :: string
  so_OrderID :: string
  so_Side :: string
  so_Price :: 'd
  so_OriginalQty :: 'd
  so_RemainingQty :: 'd
  so_CreatedAt :: time

text \<open>\<open>fmt.Sprintf("%s-G%03d", levelID, gen)\<close>.\<close>

definition ClientOrderID :: "string \<Rightarrow> int \<Rightarrow> string" where
  "ClientOrderID levelID gen = levelID @ ''-G'' @ pad0 3 gen"

definition IncrementCancelRetry :: "time \<Rightarrow> 'd live_order \<Rightarrow> 'd live_order" where
  "IncrementCancelRetry now r = r\<lparr>lo_CancelRetries := lo_CancelRetries r + 1, lo_CancellingSince := now\<rparr>"

section \<open>The tracker\<close>

record 'd tracker_state =
  tk_orders :: "(string \<times> 'd live_order) list"
  tk_generations :: "string \<Rightarrow> int"
  tk_lastSync :: "string \<Rightarrow> time"

definition NewTracker :: "'d tracker_state" where
  "NewTracker = \<lparr>tk_orders = [], tk_generations = (\<lambda>_. 0), tk_lastSync = (\<lambda>_. 0)\<rparr>"

definition Get :: "'d tracker_state \<Rightarrow> string \<Rightarrow> 'd live_order option" where
  "Get t levelID = map_of (tk_orders t) levelID"

definition putOrder :: "string \<Rightarrow> 'd live_order \<Rightarrow> 'd tracker_state \<Rightarrow> 'd tracker_state" where
  "putOrder levelID r t = t\<lparr>tk_orders := AList.update levelID r (tk_orders t)\<rparr>"

definition modifyOrder :: "('d live_order \<Rightarrow> 'd live_order) \<Rightarrow> string \<Rightarrow> 'd tracker_state \<Rightarrow> 'd tracker_state" where
  "modifyOrder f levelID t = (case Get t levelID of None \<Rightarrow> t | Some r \<Rightarrow> putOrder levelID (f r) t)"

definition CurrentGeneration :: "'d tracker_state \<Rightarrow> string \<Rightarrow> int" where
  "CurrentGeneration t levelID = tk_generations t levelID"

definition SetMaxGeneration :: "string \<Rightarrow> int \<Rightarrow> 'd tracker_state \<Rightarrow> 'd tracker_state" where
  "SetMaxGeneration levelID gen t =
     (if tk_generations t levelID < gen then t\<lparr>tk_generations := (tk_generations t)(levelID := gen)\<rparr> else t)"

definition SetPending :: "time \<Rightarrow> string \<Rightarrow> string \<Rightarrow> string \<Rightarrow> int \<Rightarrow> ('d::zero) maker_level \<Rightarrow> 'd tracker_state \<Rightarrow> 'd tracker_state" where
  "SetPending now levelID orderID clientOrderID gen level t =
     putOrder levelID
       \<lparr>lo_LevelID = levelID, lo_Generation = gen, lo_ClientOrderID = clientOrderID, lo_OrderID = orderID,
        lo_MarketID = pl_MarketID level, lo_Side = pl_Side level, lo_Price = pl_Price level,
        lo_OriginalQty = pl_Quantity level, lo_RemainingQty = pl_Quantity level, lo_FilledQty = 0,
        lo_Status = StatusPending, lo_KafkaPublished = False, lo_PendingSince = now,
        lo_OSRegisteredSince = 0, lo_CancellingSince = 0, lo_CancelRetries = 0, lo_QueuedCorrection = None,
        lo_Zone = pl_Zone level, lo_RefVersion = pl_RefVersion level, lo_CreatedAt = now\<rparr>
       (SetMaxGeneration levelID gen t)"

definition SetKafkaPublished :: "string \<Rightarrow> bool \<Rightarrow> 'd tracker_state \<Rightarrow> 'd tracker_state" where
  "SetKafkaPublished levelID published = modifyOrder (\<lambda>r. r\<lparr>lo_KafkaPublished := published\<rparr>) levelID"

definition fillView :: "string \<Rightarrow> ('d::minus) \<Rightarrow> 'd \<Rightarrow> 'd live_order \<Rightarrow> 'd live_order" where
  "fillView orderID origQty remainQty r =
     r\<lparr>lo_OrderID := orderID, lo_OriginalQty := origQty, lo_RemainingQty := remainQty, lo_FilledQty := origQty - remainQty\<rparr>"

definition SetOSRegistered :: "time \<Rightarrow> string \<Rightarrow> string \<Rightarrow> ('d::minus) \<Rightarrow> 'd \<Rightarrow> 'd tracker_state \<Rightarrow> 'd tracker_state" where
  "SetOSRegistered now levelID orderID origQty remainQty =
     modifyOrder (\<lambda>r. (fillView orderID origQty remainQty r)\<lparr>lo_Status := StatusOSRegistered, lo_OSRegisteredSince := now\<rparr>) levelID"

definition SetResting :: "string \<Rightarrow> string \<Rightarrow> ('d::minus) \<Rightarrow> 'd \<Rightarrow> 'd tracker_state \<Rightarrow> 'd tracker_state" where
  "SetResting levelID orderID origQty remainQty =
     modifyOrder (\<lambda>r. (fillView orderID origQty remainQty r)\<lparr>lo_Status := StatusResting\<rparr>) levelID"

definition SetCancelling :: "time \<Rightarrow> string \<Rightarrow> 'd tracker_state \<Rightarrow> 'd tracker_state" where
  "SetCancelling now levelID =
     modifyOrder (\<lambda>r. r\<lparr>lo_Status := StatusCancelling, lo_CancellingSince := now, lo_CancelRetries := 0\<rparr>) levelID"

definition QueueCorrection :: "string \<Rightarrow> 'd maker_level \<Rightarrow> 'd tracker_state \<Rightarrow> 'd tracker_state" where
  "QueueCorrection levelID desired = modifyOrder (\<lambda>r. r\<lparr>lo_QueuedCorrection := Some desired\<rparr>) levelID"

definition SetStale :: "string \<Rightarrow> 'd tracker_state \<Rightarrow> 'd tracker_state" where
  "SetStale levelID = modifyOrder (\<lambda>r. r\<lparr>lo_Status := StatusStale\<rparr>) levelID"

definition Remove :: "string \<Rightarrow> 'd tracker_state \<Rightarrow> 'd tracker_state" where
  "Remove levelID t = t\<lparr>tk_orders := AList.delete levelID (tk_orders t)\<rparr>"

definition NextGeneration :: "string \<Rightarrow> 'd tracker_state \<Rightarrow> int \<times> 'd tracker_state" where
  "NextGeneration levelID t =
     (let n = tk_generations t levelID + 1 in (n, t\<lparr>tk_generations := (tk_generations t)(levelID := n)\<rparr>))"

definition GetActive :: "'d tracker_state \<Rightarrow> string \<Rightarrow> 'd active_level option" where
  "GetActive t levelID = map_option (\<lambda>r. \<lparr>al_Status = status_string (lo_Status r), al_Price = lo_Price r,
     al_Quantity = lo_OriginalQty r, al_RefVersion = lo_RefVersion r\<rparr>) (Get t levelID)"

text \<open>The entries of a map in the order a range visits them.\<close>

definition range_map :: "(string list \<Rightarrow> string list) \<Rightarrow> (string \<times> 'v) list \<Rightarrow> (string \<times> 'v) list" where
  "range_map vis m = List.map_filter (\<lambda>k. map_option (Pair k) (map_of m k)) (vis (map fst m))"

definition AllMarkets :: "(string list \<Rightarrow> string list) \<Rightarrow> 'd tracker_state \<Rightarrow> 'd live_order list" where
  "AllMarkets vis t = map snd (range_map vis (tk_orders t))"

definition AllOrders :: "(string list \<Rightarrow> string list) \<Rightarrow> 'd tracker_state \<Rightarrow> string \<Rightarrow> 'd live_order list" where
  "AllOrders vis t marketID = filter (\<lambda>r. lo_MarketID r = marketID) (AllMarkets vis t)"

definition countOrders :: "(string list \<Rightarrow> string list) \<Rightarrow> 'd tracker_state \<Rightarrow> ('d live_order \<Rightarrow> bool) \<Rightarrow> nat" where
  "countOrders vis t p = foldl (\<lambda>count r. if p r then count + 1 else count) 0 (AllMarkets vis t)"

definition ActiveCount :: "(string list \<Rightarrow> string list) \<Rightarrow> 'd tracker_state \<Rightarrow> string \<Rightarrow> string \<Rightarrow> nat" where
  "ActiveCount vis t marketID s = countOrders vis t (\<lambda>r. lo_MarketID r = marketID \<and> lo_Side r = s \<and>
     (lo_Status r = StatusResting \<or> lo_Status r = StatusOSRegistered))"

definition RestingCount :: "(string list \<Rightarrow> string list) \<Rightarrow> 'd tracker_state \<Rightarrow> string \<Rightarrow> string \<Rightarrow> nat" where
  "RestingCount vis t marketID s = countOrders vis t (\<lambda>r. lo_MarketID r = marketID \<and> lo_Side r = s \<and> lo_Status r = StatusResting)"

definition PendingCount :: "(string list \<Rightarrow> string list) \<Rightarrow> 'd tracker_state \<Rightarrow> string \<Rightarrow> nat" where
  "PendingCount vis t marketID = countOrders vis t (\<lambda>r. lo_MarketID r = marketID \<and>
     (lo_Status r = StatusPending \<or> lo_Status r = StatusOSRegistered))"

definition StaleCount :: "(string list \<Rightarrow> string list) \<Rightarrow> 'd tracker_state \<Rightarrow> string \<Rightarrow> nat" where
  "StaleCount vis t marketID = countOrders vis t (\<lambda>r. lo_MarketID r = marketID \<and> lo_Status r = StatusStale)"

text \<open>The best resting prices so far; no price before the first.\<close>

fun spreadStep :: "string \<Rightarrow> 'd option \<times> 'd option \<Rightarrow> ('d::linordered_idom) live_order \<Rightarrow> 'd option \<times> 'd option" where
  "spreadStep marketID (bid, ask) r =
     (if lo_MarketID r \<noteq> marketID \<or> lo_Status r \<noteq> StatusResting \<or> lo_RemainingQty r = 0 then (bid, ask)
      else if lo_Side r = ''BUY'' then
        ((case bid of None \<Rightarrow> Some (lo_Price r) | Some b \<Rightarrow> if b < lo_Price r then Some (lo_Price r) else bid), ask)
      else if lo_Side r = ''SELL'' then
        (bid, (case ask of None \<Rightarrow> Some (lo_Price r) | Some a \<Rightarrow> if lo_Price r < a then Some (lo_Price r) else ask))
      else (bid, ask))"

definition InsideSpread :: "(string list \<Rightarrow> string list) \<Rightarrow> ('d::linordered_idom) tracker_state \<Rightarrow> string \<Rightarrow> 'd \<times> 'd \<times> bool" where
  "InsideSpread vis t marketID = (case foldl (spreadStep marketID) (None, None) (AllMarkets vis t) of
     (bid, ask) \<Rightarrow> (case bid of Some b \<Rightarrow> b | None \<Rightarrow> 0, case ask of Some a \<Rightarrow> a | None \<Rightarrow> 0, bid \<noteq> None \<and> ask \<noteq> None))"

definition committed :: "'d live_order \<Rightarrow> bool" where
  "committed r \<longleftrightarrow> lo_Status r = StatusResting \<or> lo_Status r = StatusOSRegistered \<or> lo_Status r = StatusPending"

definition CommittedBase :: "(string list \<Rightarrow> string list) \<Rightarrow> ('d::linordered_idom) tracker_state \<Rightarrow> string \<Rightarrow> 'd" where
  "CommittedBase vis t marketID = foldl (\<lambda>total r.
     if lo_MarketID r = marketID \<and> lo_Side r = ''SELL'' \<and> committed r then total + lo_RemainingQty r else total)
     0 (AllMarkets vis t)"

definition CommittedQuote :: "(string list \<Rightarrow> string list) \<Rightarrow> ('d::linordered_idom) tracker_state \<Rightarrow> string \<Rightarrow> 'd" where
  "CommittedQuote vis t marketID = foldl (\<lambda>total r.
     if lo_MarketID r = marketID \<and> lo_Side r = ''BUY'' \<and> committed r then total + lo_RemainingQty r * lo_Price r else total)
     0 (AllMarkets vis t)"

definition RecordSync :: "time \<Rightarrow> string \<Rightarrow> 'd tracker_state \<Rightarrow> 'd tracker_state" where
  "RecordSync now marketID t = t\<lparr>tk_lastSync := (tk_lastSync t)(marketID := now)\<rparr>"

definition LastSuccessfulSync :: "'d tracker_state \<Rightarrow> string \<Rightarrow> time" where
  "LastSuccessfulSync t marketID = tk_lastSync t marketID"

section \<open>Recovery from the order service\<close>

text \<open>The highest generation of each level, and how many orders were duplicates.\<close>

fun dedupe :: "(string \<times> 'd os_order) list \<Rightarrow> nat \<Rightarrow> ('d::linordered_idom) os_order list \<Rightarrow> (string \<times> 'd os_order) list \<times> nat" where
  "dedupe uniq dups [] = (uniq, dups)"
| "dedupe uniq dups (r # rs) =
     (if so_RemainingQty r < 0 \<or> so_OriginalQty r < so_RemainingQty r then dedupe uniq dups rs
      else case map_of uniq (so_LevelID r) of
          None \<Rightarrow> dedupe (AList.update (so_LevelID r) r uniq) dups rs
        | Some u \<Rightarrow>
            dedupe (if so_Generation u < so_Generation r then AList.update (so_LevelID r) r uniq else uniq) (dups + 1) rs)"

definition refreshOrder :: "time \<Rightarrow> string \<Rightarrow> string \<Rightarrow> ('d::linordered_idom) os_order \<Rightarrow> 'd live_order \<Rightarrow> 'd live_order" where
  "refreshOrder now marketID zone r existing =
     (let e1 = (if lo_Generation existing < so_Generation r
                then existing\<lparr>lo_Generation := so_Generation r, lo_ClientOrderID := so_ClientOrderID r,
                       lo_Side := so_Side r, lo_Price := so_Price r, lo_MarketID := marketID\<rparr>
                else existing);
          e2 = fillView (so_OrderID r) (so_OriginalQty r) (so_RemainingQty r) e1;
          e3 = (if so_CreatedAt r \<noteq> 0 \<and> (lo_CreatedAt e2 = 0 \<or> so_CreatedAt r < lo_CreatedAt e2)
                then e2\<lparr>lo_CreatedAt := so_CreatedAt r\<rparr> else e2);
          e4 = (if lo_Zone e3 = '''' \<and> zone \<noteq> '''' then e3\<lparr>lo_Zone := zone\<rparr> else e3)
      in if lo_Status e4 = StatusPending then e4\<lparr>lo_Status := StatusOSRegistered, lo_OSRegisteredSince := now\<rparr> else e4)"

definition recoveredOrder :: "time \<Rightarrow> string \<Rightarrow> string \<Rightarrow> int \<Rightarrow> ('d::linordered_idom) os_order \<Rightarrow> 'd live_order" where
  "recoveredOrder now marketID zone gen r =
     \<lparr>lo_LevelID = so_LevelID r, lo_Generation = gen, lo_ClientOrderID = so_ClientOrderID r, lo_OrderID = so_OrderID r,
      lo_MarketID = marketID, lo_Side = so_Side r, lo_Price = so_Price r, lo_OriginalQty = so_OriginalQty r,
      lo_RemainingQty = so_RemainingQty r, lo_FilledQty = so_OriginalQty r - so_RemainingQty r,
      lo_Status = StatusOSRegistered, lo_KafkaPublished = True,
      lo_PendingSince = (if so_CreatedAt r \<noteq> 0 then so_CreatedAt r else 0), lo_OSRegisteredSince = now,
      lo_CancellingSince = 0, lo_CancelRetries = 0, lo_QueuedCorrection = None, lo_Zone = zone,
      lo_RefVersion = 0, lo_CreatedAt = so_CreatedAt r\<rparr>"

definition syncOrder :: "time \<Rightarrow> string \<Rightarrow> (string \<Rightarrow> string) option \<Rightarrow> ('d::linordered_idom) os_order \<Rightarrow> 'd tracker_state \<times> nat \<Rightarrow> 'd tracker_state \<times> nat" where
  "syncOrder now marketID resolver r = (\<lambda>(t, added).
     let lvl = so_LevelID r; zone = (case resolver of None \<Rightarrow> '''' | Some f \<Rightarrow> f lvl) in
     case Get t lvl of
       Some existing \<Rightarrow>
         if so_Generation r < lo_Generation existing then (t, added)
         else
           let t1 = (if lo_Generation existing < so_Generation r
                     then t\<lparr>tk_generations := (tk_generations t)(lvl := so_Generation r)\<rparr> else t)
           in (putOrder lvl (refreshOrder now marketID zone r existing) t1, added)
     | None \<Rightarrow>
         let t1 = SetMaxGeneration lvl (so_Generation r) t;
             gen = (if so_Generation r \<le> 0 then 1 else so_Generation r);
             t2 = SetMaxGeneration lvl gen t1
         in if so_RemainingQty r = 0 then (t2, added)
            else (putOrder lvl (recoveredOrder now marketID zone gen r) t2, added + 1))"

definition SyncFromOrders :: "(string list \<Rightarrow> string list) \<Rightarrow> time \<Rightarrow> string \<Rightarrow> ('d::linordered_idom) os_order list \<Rightarrow>
    (string \<Rightarrow> string) option \<Rightarrow> 'd tracker_state \<Rightarrow> (nat \<times> nat) \<times> 'd tracker_state" where
  "SyncFromOrders vis now marketID rs resolver t =
     (let (uniq, dups) = dedupe [] 0 rs;
          (t1, added) = fold (syncOrder now marketID resolver) (map snd (range_map vis uniq)) (t, 0)
      in ((added, dups), RecordSync now marketID t1))"

section \<open>Comparison with the desired ladder\<close>

datatype diff_action = DiffCreate | DiffCancel | DiffCorrect

record 'd diff_entry =
  de_Action :: diff_action
  de_LevelID :: string
  de_DesiredLevel :: "'d maker_level option"
  de_ExistingCOID :: string
  de_ExistingOID :: string

definition desiredSet :: "'d maker_level list \<Rightarrow> (string \<times> 'd maker_level) list" where
  "desiredSet desired = fold (\<lambda>l. AList.update (pl_LevelID l) l) desired []"

definition ordersByLevel :: "'d live_order list \<Rightarrow> (string \<times> 'd live_order) list" where
  "ordersByLevel rs = fold (\<lambda>r. AList.update (lo_LevelID r) r) rs []"

definition diffDesired :: "(string \<times> ('d::linordered_idom) live_order) list \<Rightarrow> 'd maker_market \<Rightarrow> string \<times> 'd maker_level \<Rightarrow> 'd diff_entry option" where
  "diffDesired known mc = (\<lambda>(levelID, dl). case map_of known levelID of
     None \<Rightarrow> Some \<lparr>de_Action = DiffCreate, de_LevelID = levelID, de_DesiredLevel = Some dl,
                de_ExistingCOID = '''', de_ExistingOID = ''''\<rparr>
   | Some existing \<Rightarrow>
       let correct = \<lparr>de_Action = DiffCorrect, de_LevelID = levelID, de_DesiredLevel = Some dl,
             de_ExistingCOID = lo_ClientOrderID existing, de_ExistingOID = lo_OrderID existing\<rparr>
       in if lo_Status existing \<noteq> StatusResting then None
          else if lo_Price existing \<noteq> pl_Price dl then Some correct
          else if lo_RemainingQty existing < mk_MinOrderSize mc then Some correct
          else None)"

definition diffResting :: "(string \<times> 'd maker_level) list \<Rightarrow> string \<times> 'd live_order \<Rightarrow> 'd diff_entry option" where
  "diffResting wanted = (\<lambda>(levelID, r). case map_of wanted levelID of
     None \<Rightarrow> Some \<lparr>de_Action = DiffCancel, de_LevelID = levelID, de_DesiredLevel = None,
                de_ExistingCOID = lo_ClientOrderID r, de_ExistingOID = lo_OrderID r\<rparr>
   | Some _ \<Rightarrow> None)"

definition Diff :: "(string list \<Rightarrow> string list) \<Rightarrow> 'd maker_level list \<Rightarrow> ('d::linordered_idom) tracker_state \<Rightarrow> string \<Rightarrow>
    'd maker_market \<Rightarrow> 'd diff_entry list" where
  "Diff vis desired t marketID mc =
     (let actual = AllOrders vis t marketID;
          known = ordersByLevel actual;
          resting = ordersByLevel (filter (\<lambda>r. lo_Status r = StatusResting) actual);
          wanted = desiredSet desired
      in List.map_filter (diffDesired known mc) (range_map vis wanted)
         @ List.map_filter (diffResting wanted) (range_map vis resting))"

end
