(* ===== verification/MakerInventory.thy ===== *)
theory MakerInventory
  imports MakerTracker
begin

text \<open>
  The inventory of the market maker (\<open>internal/inventory/manager.go\<close>, \<open>skew.go\<close>): the
  balances it believes it has, what its orders commit of them, and how many levels of each
  side they allow. Log lines are left out.
\<close>

section \<open>Balances\<close>

text \<open>The fields of \<open>kafka.TradeEvent\<close> the manager reads.\<close>

record 'd maker_trade =
  te_MarketID :: string
  te_MMSide :: string
  te_Price :: 'd
  te_Quantity :: 'd

record 'd inventory =
  iv_projectedBalances :: "string \<Rightarrow> 'd option"
  iv_lastRefresh :: time

definition NewManager :: "'d inventory" where
  "NewManager = \<lparr>iv_projectedBalances = Map.empty, iv_lastRefresh = 0\<rparr>"

fun baseAsset :: "string \<Rightarrow> string" where
  "baseAsset [] = []"
| "baseAsset (c # cs) = (if c = CHR ''-'' then [] else c # baseAsset cs)"

definition maxZero :: "('d::linordered_idom) \<Rightarrow> 'd" where
  "maxZero d = (if d < 0 then 0 else d)"

definition RefreshFromWallet :: "time \<Rightarrow> (string \<times> 'd) list \<Rightarrow> 'd inventory \<Rightarrow> 'd inventory" where
  "RefreshFromWallet now balances m =
     m\<lparr>iv_projectedBalances := fold (\<lambda>(asset, bal) b. b(asset \<mapsto> bal)) balances (iv_projectedBalances m),
       iv_lastRefresh := now\<rparr>"

text \<open>The balance of an asset changed, if it is known.\<close>

definition adjust :: "string \<Rightarrow> ('d \<Rightarrow> 'd) \<Rightarrow> 'd inventory \<Rightarrow> 'd inventory" where
  "adjust asset f m = (case iv_projectedBalances m asset of
     None \<Rightarrow> m
   | Some bal \<Rightarrow> m\<lparr>iv_projectedBalances := (iv_projectedBalances m)(asset \<mapsto> f bal)\<rparr>)"

definition ApplyTrade :: "('d::linordered_idom) maker_trade \<Rightarrow> 'd inventory \<Rightarrow> 'd inventory" where
  "ApplyTrade event m =
     (let qty = te_Quantity event; quoteValue = te_Quantity event * te_Price event;
          bAsset = baseAsset (te_MarketID event)
      in if te_MMSide event = '''' then m
         else if te_MMSide event = ''SELL''
         then adjust ''USDT'' (\<lambda>bal. bal + quoteValue) (adjust bAsset (\<lambda>bal. maxZero (bal - qty)) m)
         else if te_MMSide event = ''BUY''
         then adjust bAsset (\<lambda>bal. bal + qty) (adjust ''USDT'' (\<lambda>bal. maxZero (bal - quoteValue)) m)
         else m)"

definition EffectiveAvailableBase :: "(string list \<Rightarrow> string list) \<Rightarrow> ('d::linordered_idom) tracker_state \<Rightarrow> string \<Rightarrow> 'd inventory \<Rightarrow> 'd" where
  "EffectiveAvailableBase vis t marketID m = (case iv_projectedBalances m (baseAsset marketID) of
     None \<Rightarrow> 0
   | Some walletBal \<Rightarrow> maxZero (walletBal - CommittedBase vis t marketID))"

definition EffectiveAvailableQuote :: "(string list \<Rightarrow> string list) \<Rightarrow> ('d::linordered_idom) tracker_state \<Rightarrow> string list \<Rightarrow> 'd inventory \<Rightarrow> 'd" where
  "EffectiveAvailableQuote vis t markets m = (case iv_projectedBalances m ''USDT'' of
     None \<Rightarrow> 0
   | Some walletBal \<Rightarrow>
       maxZero (walletBal - foldl (\<lambda>total marketID. total + CommittedQuote vis t marketID) 0 markets))"

definition IsStale :: "time \<Rightarrow> int \<Rightarrow> 'd inventory \<Rightarrow> bool" where
  "IsStale now maxStaleness m = (if iv_lastRefresh m = 0 then True else maxStaleness < now - iv_lastRefresh m)"

definition WalletBalanceFor :: "'d inventory \<Rightarrow> string \<Rightarrow> 'd option" where
  "WalletBalanceFor m asset = iv_projectedBalances m asset"

text \<open>The first required asset the wallet misses, or no error.\<close>

definition ValidateMMAccount :: "(string \<Rightarrow> 'd option) \<Rightarrow> string option" where
  "ValidateMMAccount balances = find (\<lambda>asset. balances asset = None) [''BTC'', ''ETH'', ''SOL'', ''USDT'']"

section \<open>Skew\<close>

datatype inventory_tier = TierNormal | TierLow | TierCritical

record skew =
  sk_BidCount :: int
  sk_AskCount :: int
  sk_BaseTier :: inventory_tier
  sk_QuoteTier :: inventory_tier

text \<open>One side: the tier and the number of levels; \<open>int\<close> division truncates.\<close>

definition sideSkew :: "int \<Rightarrow> ('d::linordered_idom) \<Rightarrow> 'd \<Rightarrow> 'd \<Rightarrow> inventory_tier \<times> int" where
  "sideSkew maxLevels effective critical low =
     (if effective \<le> critical then (TierCritical, 0)
      else if effective \<le> low then (TierLow, sgn maxLevels * (\<bar>maxLevels\<bar> div 2))
      else (TierNormal, maxLevels))"

definition ComputeSkew :: "('d::linordered_idom) maker_market \<Rightarrow> 'd \<Rightarrow> 'd \<Rightarrow> skew" where
  "ComputeSkew mc effectiveBase effectiveQuote =
     (let (baseTier, askCount) = sideSkew (mk_LevelCount mc) effectiveBase (mk_CriticalBase mc) (mk_MinBase mc);
          (quoteTier, bidCount) = sideSkew (mk_LevelCount mc) effectiveQuote (mk_CriticalQuote mc) (mk_MinQuote mc)
      in \<lparr>sk_BidCount = bidCount, sk_AskCount = askCount, sk_BaseTier = baseTier, sk_QuoteTier = quoteTier\<rparr>)"

section \<open>Quantity of a replacement\<close>

definition resolveReplacementQuantity :: "('d::linordered_idom, 'f, 'g, 'x) maker_lib_scheme \<Rightarrow>
    'd \<Rightarrow> 'd \<Rightarrow> 'd \<Rightarrow> 'd \<Rightarrow> 'd \<Rightarrow> 'd option" where
  "resolveReplacementQuantity L desiredQty remaining0 originalQty minOrderSize lotSize =
     (if remaining0 \<le> 0 then None
      else
        let remainingQty = (if 0 < originalQty \<and> originalQty < remaining0 then originalQty else remaining0);
            qty = (if desiredQty = 0 \<or> remainingQty < desiredQty then remainingQty else desiredQty);
            lots = (if 0 < lotSize \<and> d_Mod L qty lotSize \<noteq> 0 then qty - d_Mod L qty lotSize else qty)
        in if (minOrderSize \<noteq> 0 \<and> lots < minOrderSize) \<or> (lotSize \<noteq> 0 \<and> lots < lotSize) then None
           else Some lots)"

end
