(* ===== verification/MakerState.thy ===== *)
theory MakerState
  imports MakerInventory
begin

text \<open>
  The reconciler of the liquidity engine: its state, what it is connected to, and the
  reference price (\<open>internal/reconciler/refstate.go\<close>, \<open>reconciler.go\<close>, \<open>reprice.go\<close>).
  A method runs in the single event loop, so it is a function of the state; every reading of
  the clock, range over a map and remote call takes the next answer of the environment and
  every command sent is recorded. A panic is \<^term>\<open>None\<close>.
\<close>

section \<open>Reference prices\<close>

datatype freshness = FreshnessFresh | FreshnessStale | FreshnessPaused

datatype repricing_action = ActionKeep | ActionSelectiveReprice | ActionControlledRebase | ActionHold | ActionPause

text \<open>\<open>refprice.State\<close>; \<open>StateOther\<close> is any other number.\<close>

datatype price_state = StateFresh | StateStale | StatePaused | StateOther

record 'd price_entry =
  pe_Price :: 'd
  pe_Version :: int
  pe_FetchedAt :: time
  pe_State :: price_state

record 'd reference_snapshot =
  rf_Price :: 'd
  rf_Version :: int
  rf_FetchedAt :: time
  rf_Freshness :: freshness

record 'd ref_state =
  rs_LastRef :: 'd
  rs_LastVersion :: int
  rs_LastUpdated :: time
  rs_Freshness :: freshness
  rs_ActiveGenerationRef :: 'd
  rs_LastRepriceRef :: 'd
  rs_RebaseActive :: bool
  rs_RebaseTargetRef :: 'd
  rs_RebaseTargetVer :: int
  rs_RebaseAction :: repricing_action
  rs_RebaseStartTime :: time

definition newRefState :: "('d::zero) ref_state" where
  "newRefState = \<lparr>rs_LastRef = 0, rs_LastVersion = 0, rs_LastUpdated = 0, rs_Freshness = FreshnessFresh,
     rs_ActiveGenerationRef = 0, rs_LastRepriceRef = 0, rs_RebaseActive = False, rs_RebaseTargetRef = 0,
     rs_RebaseTargetVer = 0, rs_RebaseAction = ActionKeep, rs_RebaseStartTime = 0\<rparr>"

definition ClassifyMovement :: "('d::linordered_idom, 'f, 'g, 'x) maker_lib_scheme \<Rightarrow> 'd \<Rightarrow> 'd \<Rightarrow> freshness \<Rightarrow>
    'd repricing_config \<Rightarrow> repricing_action" where
  "ClassifyMovement L prev next fresh cfg = (case fresh of
     FreshnessStale \<Rightarrow> ActionHold
   | FreshnessPaused \<Rightarrow> ActionPause
   | FreshnessFresh \<Rightarrow>
       if prev = 0 \<or> prev < 0 \<or> next = 0 \<or> next < 0 then ActionKeep
       else
         let smallBps = (if rc_SmallBps cfg \<le> 0 then 10 else rc_SmallBps cfg);
             largeBps = (if rc_LargeBps cfg \<le> 0 then 100 else rc_LargeBps cfg);
             movementBps = k_Div L \<bar>next - prev\<bar> prev * of_int 10000
         in if movementBps < of_int smallBps then ActionKeep
            else if movementBps < of_int largeBps then ActionSelectiveReprice
            else ActionControlledRebase)"

section \<open>Commands and the environment\<close>

text \<open>\<open>orderservice.OrderState\<close>, and the two kinds of failure of a lookup.\<close>

record 'd order_state =
  st_OrderID :: string
  st_Status :: string
  st_RemainingQty :: 'd
  st_OriginalQty :: 'd

datatype lookup_error = ErrOrderNotFound | LookupFailed

record maker_order =
  mq_OrderID :: string
  mq_ClientOrderID :: string
  mq_LevelID :: string
  mq_RemainingQuantity :: string

record maker_snapshot =
  mz_State :: string
  mz_Orders :: "maker_order list"

text \<open>What the engine sends: the registration of an order, its creation, its cancellation.\<close>

datatype maker_command =
    Register string string string string string     \<comment> \<open>market, side, price, quantity, client order ID\<close>
  | CancelInService string
  | PublishCreated string int string string string string string
      \<comment> \<open>market, partition, order ID, client order ID, side, price, quantity\<close>
  | PublishCancelled string int string

record 'd maker_env =
  ve_now :: "nat \<Rightarrow> time"
  ve_visit :: "nat \<Rightarrow> string list \<Rightarrow> string list"
  ve_hasProvider :: bool
  ve_price :: "nat \<Rightarrow> string \<Rightarrow> 'd price_entry option"
  ve_hasOrderSvc :: bool
  ve_create :: "nat \<Rightarrow> maker_command \<Rightarrow> 'd order_state option"
  ve_cancel :: "nat \<Rightarrow> string \<Rightarrow> bool"
  ve_lookup :: "nat \<Rightarrow> string \<Rightarrow> lookup_error + 'd order_state"
  ve_list :: "nat \<Rightarrow> string \<Rightarrow> 'd os_order list option"
  ve_recover :: "(nat \<Rightarrow> string \<Rightarrow> (string \<times> int) list option) option"
  ve_hasProducer :: bool
  ve_publish :: "nat \<Rightarrow> maker_command \<Rightarrow> bool"
  ve_hasME :: bool
  ve_snapshot :: "nat \<Rightarrow> string \<Rightarrow> maker_snapshot option"

record ('d, 'g) maker =
  kr_tracker :: "'d tracker_state"
  kr_rng :: 'g
  kr_pendingTimeouts :: "string \<Rightarrow> int"
  kr_notFound :: "string \<Rightarrow> int"
  kr_missing :: "string \<Rightarrow> int"
  kr_inFlightSince :: "string \<Rightarrow> time option"
  kr_busy :: "string \<Rightarrow> bool"
  kr_orphans :: "(string \<times> (string \<times> time)) list"
  kr_refStates :: "string \<Rightarrow> 'd ref_state option"
  kr_rebaseFailures :: "string \<Rightarrow> int"
  kr_lastRefresh :: "string \<Rightarrow> time option"
  kr_step :: nat
  kr_sent :: "maker_command list"

text \<open>Jobs over a state \<open>'s\<close>; those of the reconciler are over its own.\<close>

type_synonym ('s, 'a) jobs = "'s \<Rightarrow> ('a \<times> 's) option"

type_synonym ('d, 'g, 'a) job = "(('d, 'g) maker, 'a) jobs"

definition retJ :: "'a \<Rightarrow> ('s, 'a) jobs" where
  "retJ a = (\<lambda>s. Some (a, s))"

definition panicJ :: "('s, 'a) jobs" where
  "panicJ = (\<lambda>s. None)"

definition bindJ :: "('s, 'a) jobs \<Rightarrow> ('a \<Rightarrow> ('s, 'b) jobs) \<Rightarrow> ('s, 'b) jobs" where
  "bindJ m f = (\<lambda>s. case m s of None \<Rightarrow> None | Some (a, s') \<Rightarrow> f a s')"

definition thenJ :: "('s, 'a) jobs \<Rightarrow> ('s, 'b) jobs \<Rightarrow> ('s, 'b) jobs" where
  "thenJ m m' = bindJ m (\<lambda>_. m')"

definition getJ :: "('s \<Rightarrow> 'a) \<Rightarrow> ('s, 'a) jobs" where
  "getJ f = (\<lambda>s. Some (f s, s))"

definition modJ :: "('s \<Rightarrow> 's) \<Rightarrow> ('s, unit) jobs" where
  "modJ f = (\<lambda>s. Some ((), f s))"

primrec eachJ :: "('b \<Rightarrow> ('s, unit) jobs) \<Rightarrow> 'b list \<Rightarrow> ('s, unit) jobs" where
  "eachJ f [] = retJ ()"
| "eachJ f (x # xs) = thenJ (f x) (eachJ f xs)"

definition whenJ :: "bool \<Rightarrow> ('s, unit) jobs \<Rightarrow> ('s, unit) jobs" where
  "whenJ b m = (if b then m else retJ ())"

text \<open>A loop that carries a value.\<close>

primrec foldJ :: "('b \<Rightarrow> 'a \<Rightarrow> ('s, 'a) jobs) \<Rightarrow> 'b list \<Rightarrow> 'a \<Rightarrow> ('s, 'a) jobs" where
  "foldJ f [] a = retJ a"
| "foldJ f (x # xs) a = bindJ (f x a) (foldJ f xs)"

text \<open>The next answer of the environment.\<close>

definition askJ :: "(nat \<Rightarrow> 'a) \<Rightarrow> ('d, 'g, 'a) job" where
  "askJ f = (\<lambda>s. Some (f (kr_step s), s\<lparr>kr_step := kr_step s + 1\<rparr>))"

definition sendJ :: "maker_command \<Rightarrow> (nat \<Rightarrow> 'a) \<Rightarrow> ('d, 'g, 'a) job" where
  "sendJ c f = thenJ (modJ (\<lambda>s. s\<lparr>kr_sent := kr_sent s @ [c]\<rparr>)) (askJ f)"

definition nowJ :: "'d maker_env \<Rightarrow> ('d, 'g, time) job" where
  "nowJ en = askJ (ve_now en)"

definition onTracker :: "('d tracker_state \<Rightarrow> 'd tracker_state) \<Rightarrow> ('d, 'g, unit) job" where
  "onTracker f = modJ (\<lambda>s. s\<lparr>kr_tracker := f (kr_tracker s)\<rparr>)"

definition allOrders :: "'d maker_env \<Rightarrow> string \<Rightarrow> ('d, 'g, 'd live_order list) job" where
  "allOrders en marketID = bindJ (askJ (ve_visit en)) (\<lambda>vis. getJ (\<lambda>s. AllOrders vis (kr_tracker s) marketID))"

definition nextGeneration :: "string \<Rightarrow> ('d, 'g, int) job" where
  "nextGeneration levelID = (\<lambda>s. case NextGeneration levelID (kr_tracker s) of (n, t) \<Rightarrow> Some (n, s\<lparr>kr_tracker := t\<rparr>))"

text \<open>A draw of the ladder uses the reconciler's random source.\<close>

definition drawJ :: "('g, 'e, 'a) draw \<Rightarrow> ('d, 'g, 'e + 'a) job" where
  "drawJ m = (\<lambda>s. case m (kr_rng s) of None \<Rightarrow> None | Some (r, g) \<Rightarrow> Some (r, s\<lparr>kr_rng := g\<rparr>))"

definition dropKey :: "string \<Rightarrow> (string \<Rightarrow> int) \<Rightarrow> (string \<Rightarrow> int)" where
  "dropKey k f = f(k := 0)"

definition removeTrackedOrder :: "string \<Rightarrow> ('d, 'g, unit) job" where
  "removeTrackedOrder levelID = modJ (\<lambda>s. s\<lparr>kr_tracker := Remove levelID (kr_tracker s),
     kr_notFound := dropKey levelID (kr_notFound s), kr_missing := dropKey levelID (kr_missing s),
     kr_inFlightSince := (kr_inFlightSince s)(levelID := None),
     kr_rebaseFailures := dropKey levelID (kr_rebaseFailures s)\<rparr>)"

section \<open>The current reference\<close>

definition putRef :: "string \<Rightarrow> 'd ref_state \<Rightarrow> ('d, 'g, unit) job" where
  "putRef marketID st = modJ (\<lambda>s. s\<lparr>kr_refStates := (kr_refStates s)(marketID \<mapsto> st)\<rparr>)"

definition freshnessOf :: "price_state \<Rightarrow> freshness" where
  "freshnessOf p = (case p of StateFresh \<Rightarrow> FreshnessFresh | StateStale \<Rightarrow> FreshnessStale
     | StatePaused \<Rightarrow> FreshnessPaused | StateOther \<Rightarrow> FreshnessStale)"

text \<open>Durations are nanoseconds.\<close>

definition minutes :: "int \<Rightarrow> int" where
  "minutes n = n * 60000000000"

definition seconds :: "int \<Rightarrow> int" where
  "seconds n = n * 1000000000"

definition acceptEntry :: "'d price_entry \<Rightarrow> ('d::zero) ref_state option \<Rightarrow> 'd ref_state" where
  "acceptEntry entry existing = (case existing of
     None \<Rightarrow> newRefState\<lparr>rs_LastRef := pe_Price entry, rs_LastVersion := pe_Version entry,
        rs_ActiveGenerationRef := pe_Price entry, rs_LastRepriceRef := pe_Price entry\<rparr>
   | Some st \<Rightarrow>
       if rs_LastRef st \<noteq> 0 then st
       else st\<lparr>rs_LastRef := pe_Price entry, rs_LastVersion := pe_Version entry,
          rs_ActiveGenerationRef := (if rs_ActiveGenerationRef st = 0 then pe_Price entry else rs_ActiveGenerationRef st),
          rs_LastRepriceRef := (if rs_LastRepriceRef st = 0 then pe_Price entry else rs_LastRepriceRef st)\<rparr>)"

definition seedPrice :: "('d::zero) maker_config \<Rightarrow> 'd maker_market \<Rightarrow> 'd" where
  "seedPrice cfg mc = (let ref = SeedForMarket (Some (kc_RefPrice cfg)) (mk_MarketID mc)
     in if ref = 0 then mk_ReferencePrice mc else ref)"

definition referenceOf :: "'d ref_state \<Rightarrow> freshness \<Rightarrow> 'd reference_snapshot" where
  "referenceOf st fresh = \<lparr>rf_Price = rs_LastRef st, rf_Version = rs_LastVersion st, rf_FetchedAt = rs_LastUpdated st,
     rf_Freshness = fresh\<rparr>"

definition liveReference :: "'d maker_env \<Rightarrow> string \<Rightarrow> 'd price_entry \<Rightarrow> ('d::zero, 'g, 'd reference_snapshot) job" where
  "liveReference en marketID entry =
     bindJ (getJ (\<lambda>s. acceptEntry entry (kr_refStates s marketID))) (\<lambda>st.
     bindJ (if pe_FetchedAt entry \<noteq> 0 then retJ (pe_FetchedAt entry) else nowJ en) (\<lambda>updated.
     thenJ (putRef marketID (st\<lparr>rs_LastUpdated := updated, rs_Freshness := freshnessOf (pe_State entry)\<rparr>))
       (retJ \<lparr>rf_Price = pe_Price entry, rf_Version = pe_Version entry, rf_FetchedAt = updated,
          rf_Freshness = freshnessOf (pe_State entry)\<rparr>)))"

text \<open>The provider is connected but has no usable price.\<close>

definition staleReference :: "('d::linordered_idom) maker_config \<Rightarrow> 'd maker_env \<Rightarrow> 'd maker_market \<Rightarrow> ('d, 'g, 'd reference_snapshot) job" where
  "staleReference cfg en mc =
     (let marketID = mk_MarketID mc;
          pauseThreshold = (if 0 < rp_PauseThreshold (kc_RefPrice cfg) then rp_PauseThreshold (kc_RefPrice cfg) else minutes 10);
          fallback = (\<lambda>st. let st' = st\<lparr>rs_LastRef := seedPrice cfg mc, rs_LastVersion := 0, rs_Freshness := FreshnessStale\<rparr>
            in thenJ (putRef marketID st') (retJ (referenceOf st' FreshnessStale)))
      in bindJ (getJ (\<lambda>s. kr_refStates s marketID)) (\<lambda>existing. case existing of
           None \<Rightarrow> bindJ (nowJ en) (\<lambda>now. fallback (newRefState\<lparr>rs_LastUpdated := now\<rparr>))
         | Some st \<Rightarrow>
             if rs_LastRef st \<noteq> 0
             then bindJ (nowJ en) (\<lambda>now.
               let fresh = (if pauseThreshold \<le> now - rs_LastUpdated st then FreshnessPaused else FreshnessStale);
                   st' = st\<lparr>rs_Freshness := fresh\<rparr>
               in thenJ (putRef marketID st') (retJ (referenceOf st' fresh)))
             else fallback st))"

text \<open>No provider is connected.\<close>

definition offlineReference :: "('d::linordered_idom) maker_config \<Rightarrow> 'd maker_env \<Rightarrow> 'd maker_market \<Rightarrow> ('d, 'g, 'd reference_snapshot) job" where
  "offlineReference cfg en mc =
     (let marketID = mk_MarketID mc; ref = seedPrice cfg mc
      in bindJ (getJ (\<lambda>s. kr_refStates s marketID)) (\<lambda>existing. case existing of
           Some st \<Rightarrow>
             if rs_LastRef st \<noteq> 0 then retJ (referenceOf st (rs_Freshness st))
             else thenJ (nowJ en) (retJ \<lparr>rf_Price = ref, rf_Version = 0, rf_FetchedAt = rs_LastUpdated st, rf_Freshness = FreshnessFresh\<rparr>)
         | None \<Rightarrow> bindJ (nowJ en) (\<lambda>now.
             thenJ (putRef marketID (newRefState\<lparr>rs_LastRef := ref, rs_LastUpdated := now,
                 rs_ActiveGenerationRef := ref, rs_LastRepriceRef := ref\<rparr>))
               (retJ \<lparr>rf_Price = ref, rf_Version = 0, rf_FetchedAt = now, rf_Freshness = FreshnessFresh\<rparr>))))"

definition currentReference :: "('d::linordered_idom) maker_config \<Rightarrow> 'd maker_env \<Rightarrow> 'd maker_market \<Rightarrow> ('d, 'g, 'd reference_snapshot) job" where
  "currentReference cfg en mc =
     (if ve_hasProvider en
      then bindJ (askJ (\<lambda>n. ve_price en n (mk_MarketID mc))) (\<lambda>entry. case entry of
          Some e \<Rightarrow> if pe_Price e \<noteq> 0 \<and> \<not> pe_Price e < 0 then liveReference en (mk_MarketID mc) e else staleReference cfg en mc
        | None \<Rightarrow> staleReference cfg en mc)
      else offlineReference cfg en mc)"

text \<open>\<open>&config.MarketConfig{MarketID: marketID}\<close>.\<close>

definition bareMarket :: "string \<Rightarrow> ('d::zero) maker_market" where
  "bareMarket marketID =
     (let band = \<lparr>zb_MinBps = 0, zb_MaxBps = 0, zb_Count = 0\<rparr>; zones = \<lparr>zc_Low = band, zc_Mid = band, zc_High = band\<rparr>
      in \<lparr>mk_MarketID = marketID, mk_BaseAsset = '''', mk_QuoteAsset = '''', mk_TickSize = 0, mk_LotSize = 0,
          mk_Partition = 0, mk_LevelCount = 0, mk_MinOrderSize = 0, mk_MinBase = 0, mk_CriticalBase = 0,
          mk_MinQuote = 0, mk_CriticalQuote = 0, mk_SpreadBps = 0, mk_ReferencePrice = 0, mk_BidZones = zones,
          mk_AskZones = zones, mk_QtyPerLevel = 0, mk_MaxBidExposureUSDT = 0, mk_MaxAskExposureBase = 0,
          mk_Repricing = \<lparr>rc_SmallBps = 0, rc_LargeBps = 0, rc_MaxBatch = 0, rc_SpreadBreachBps = 0,
            rc_OrderLifetime = 0, rc_RefreshCooldown = 0, rc_RefreshConsumptionThreshold = 0\<rparr>\<rparr>)"

definition marketOrBare :: "('d::zero) maker_config \<Rightarrow> string \<Rightarrow> 'd maker_market" where
  "marketOrBare cfg marketID = (case ForMarket cfg marketID of Some mc \<Rightarrow> mc | None \<Rightarrow> bareMarket marketID)"

definition isMarketPaused :: "('d::linordered_idom) maker_config \<Rightarrow> 'd maker_env \<Rightarrow> string \<Rightarrow> ('d, 'g, bool) job" where
  "isMarketPaused cfg en marketID =
     bindJ (currentReference cfg en (marketOrBare cfg marketID)) (\<lambda>snap. retJ (rf_Freshness snap = FreshnessPaused))"

definition allowsNewLiquidity :: "('d::linordered_idom) maker_config \<Rightarrow> 'd maker_env \<Rightarrow> string \<Rightarrow> ('d, 'g, bool) job" where
  "allowsNewLiquidity cfg en marketID =
     bindJ (currentReference cfg en (marketOrBare cfg marketID)) (\<lambda>snap. retJ (rf_Freshness snap = FreshnessFresh))"

text \<open>After a refusal the code reads the reference once more, for its log line and metric.\<close>

definition refusalReason :: "('d::linordered_idom) maker_config \<Rightarrow> 'd maker_env \<Rightarrow> 'd maker_market \<Rightarrow> ('d, 'g, string) job" where
  "refusalReason cfg en mc =
     bindJ (currentReference cfg en mc) (\<lambda>snap. retJ (if rf_Freshness snap = FreshnessPaused then ''paused'' else ''stale''))"

end
