(* ===== verification/MakerDispatch.thy ===== *)
theory MakerDispatch
  imports MakerState
begin

text \<open>
  How an action of the comparison becomes commands (\<open>internal/reconciler/dispatch.go\<close>), what
  the snapshot of the matching engine confirms (\<open>confirmation.go\<close>), and the deadlines of
  orders that are pending or being cancelled (\<open>timeouts.go\<close>). The two readings of the clock
  when an order becomes pending are one.
\<close>

datatype 'd maker_error =
    NilDesiredLevel string
  | RegisterFailed string
  | PublishFailed string string
  | MissingOrderID string
  | UnknownMarket string
  | ListFailed string
  | LadderFailed "'d price_error"

section \<open>Remote calls\<close>

text \<open>A method call on a nil interface panics.\<close>

definition publishJ :: "'d maker_env \<Rightarrow> maker_command \<Rightarrow> ('d, 'g, bool) job" where
  "publishJ en c = (if ve_hasProducer en then sendJ c (\<lambda>n. ve_publish en n c) else panicJ)"

definition registerJ :: "'d maker_env \<Rightarrow> maker_command \<Rightarrow> ('d, 'g, 'd order_state option) job" where
  "registerJ en c = (if ve_hasOrderSvc en then sendJ c (\<lambda>n. ve_create en n c) else panicJ)"

definition cancelJ :: "'d maker_env \<Rightarrow> string \<Rightarrow> ('d, 'g, bool) job" where
  "cancelJ en orderID = (if ve_hasOrderSvc en then sendJ (CancelInService orderID) (\<lambda>n. ve_cancel en n orderID) else panicJ)"

definition lookupJ :: "'d maker_env \<Rightarrow> string \<Rightarrow> ('d, 'g, lookup_error + 'd order_state) job" where
  "lookupJ en coid = (if ve_hasOrderSvc en then askJ (\<lambda>n. ve_lookup en n coid) else panicJ)"

definition createdCommand :: "('d, 'f, 'g, 'x) maker_lib_scheme \<Rightarrow> 'd maker_market \<Rightarrow> string \<Rightarrow> string \<Rightarrow> string \<Rightarrow> 'd \<Rightarrow> 'd \<Rightarrow> maker_command" where
  "createdCommand L mc orderID coid s price qty =
     PublishCreated (mk_MarketID mc) (mk_Partition mc) orderID coid s (d_String L price) (d_String L qty)"

definition cancelledCommand :: "'d maker_market \<Rightarrow> string \<Rightarrow> maker_command" where
  "cancelledCommand mc orderID = PublishCancelled (mk_MarketID mc) (mk_Partition mc) orderID"

definition inFlight :: "string \<Rightarrow> time \<Rightarrow> ('d, 'g, unit) job" where
  "inFlight levelID now = modJ (\<lambda>s. s\<lparr>kr_inFlightSince := (kr_inFlightSince s)(levelID \<mapsto> now)\<rparr>)"

section \<open>Dispatch\<close>

text \<open>The reason a level may not be created, if there is one.\<close>

definition canCreateLevel :: "(string list \<Rightarrow> string list) \<Rightarrow> ('d::linordered_idom) tracker_state \<Rightarrow> 'd maker_market \<Rightarrow>
    'd maker_level \<Rightarrow> string option" where
  "canCreateLevel vis t mc level =
     (if pl_Price level = 0 \<or> pl_Price level < 0 then Some ''invalid_price''
      else if pl_Quantity level = 0 \<or> pl_Quantity level < 0 then Some ''invalid_quantity''
      else if pl_Side level \<noteq> ''BUY'' \<and> pl_Side level \<noteq> ''SELL'' then Some ''invalid_quantity''
      else if pl_MarketID level = '''' \<or> pl_MarketID level \<noteq> mk_MarketID mc then Some ''invalid_price''
      else if mk_MinOrderSize mc \<noteq> 0 \<and> pl_Quantity level < mk_MinOrderSize mc then Some ''invalid_quantity''
      else if mk_LotSize mc \<noteq> 0 \<and> pl_Quantity level < mk_LotSize mc then Some ''invalid_quantity''
      else if pl_Side level = ''BUY'' \<and> mk_MaxBidExposureUSDT mc \<noteq> 0 then
        (if mk_MaxBidExposureUSDT mc < CommittedQuote vis t (mk_MarketID mc) + pl_Price level * pl_Quantity level
         then Some ''bid_exposure'' else None)
      else if pl_Side level = ''SELL'' \<and> mk_MaxAskExposureBase mc \<noteq> 0 then
        (if mk_MaxAskExposureBase mc < CommittedBase vis t (mk_MarketID mc) + pl_Quantity level
         then Some ''ask_exposure'' else None)
      else None)"

definition creationBlocked :: "('d::linordered_idom) maker_env \<Rightarrow> 'd maker_market \<Rightarrow> 'd maker_level \<Rightarrow> ('d, 'g, bool) job" where
  "creationBlocked en mc level =
     bindJ (askJ (ve_visit en)) (\<lambda>vis. getJ (\<lambda>s. canCreateLevel vis (kr_tracker s) mc level \<noteq> None))"

text \<open>
  A new generation of a level: registered with the order service, tracked as pending, then
  published. Only the first creation of a level notes that it is in flight.
\<close>

definition submitLevel :: "('d::linordered_idom, 'f, 'g, 'x) maker_lib_scheme \<Rightarrow> 'd maker_env \<Rightarrow> 'd maker_market \<Rightarrow> bool \<Rightarrow>
    string \<Rightarrow> 'd maker_level \<Rightarrow> ('d, 'g, 'd maker_error + bool) job" where
  "submitLevel L en mc note levelID level =
     bindJ (nextGeneration levelID) (\<lambda>gen.
     let coid = ClientOrderID levelID gen in
     bindJ (registerJ en (Register (mk_MarketID mc) (pl_Side level) (d_String L (pl_Price level)) (d_String L (pl_Quantity level)) coid)) (\<lambda>registered.
     case registered of
       None \<Rightarrow> retJ (Inl (RegisterFailed levelID))
     | Some osOrder \<Rightarrow>
         bindJ (nowJ en) (\<lambda>now.
         thenJ (onTracker (SetPending now levelID (st_OrderID osOrder) coid gen level))
         (thenJ (if note then bindJ (nowJ en) (inFlight levelID) else retJ ())
         (bindJ (publishJ en (createdCommand L mc (st_OrderID osOrder) coid (pl_Side level) (pl_Price level) (pl_Quantity level))) (\<lambda>ok.
            if ok then thenJ (onTracker (SetKafkaPublished levelID True)) (retJ (Inr True))
            else retJ (Inl (PublishFailed levelID (st_OrderID osOrder)))))))))"

definition applyCreate :: "('d::linordered_idom, 'f, 'g, 'x) maker_lib_scheme \<Rightarrow> 'd maker_config \<Rightarrow> 'd maker_env \<Rightarrow> 'd maker_market \<Rightarrow>
    'd diff_entry \<Rightarrow> ('d, 'g, 'd maker_error + bool) job" where
  "applyCreate L cfg en mc e = (case de_DesiredLevel e of
     None \<Rightarrow> retJ (Inl (NilDesiredLevel (de_LevelID e)))
   | Some level \<Rightarrow>
       bindJ (allowsNewLiquidity cfg en (mk_MarketID mc)) (\<lambda>allowed.
       if \<not> allowed then thenJ (refusalReason cfg en mc) (retJ (Inr False))
       else bindJ (creationBlocked en mc level) (\<lambda>blocked.
         if blocked then retJ (Inr False) else submitLevel L en mc True (de_LevelID e) level)))"

definition applyCancel :: "'d maker_env \<Rightarrow> 'd maker_market \<Rightarrow> 'd diff_entry \<Rightarrow> ('d, 'g, 'd maker_error option) job" where
  "applyCancel en mc e =
     (if de_ExistingOID e = '''' then retJ (Some (MissingOrderID (de_LevelID e)))
      else thenJ (if ve_hasOrderSvc en then thenJ (cancelJ en (de_ExistingOID e)) (retJ ()) else retJ ())
        (bindJ (publishJ en (cancelledCommand mc (de_ExistingOID e))) (\<lambda>ok.
         if \<not> ok then retJ (Some (PublishFailed (de_LevelID e) (de_ExistingOID e)))
         else bindJ (nowJ en) (\<lambda>now. thenJ (onTracker (SetCancelling now (de_LevelID e)))
           (bindJ (nowJ en) (\<lambda>now'. thenJ (inFlight (de_LevelID e) now') (retJ None)))))))"

definition cancelled :: "'d maker_error option \<Rightarrow> 'd maker_error + bool" where
  "cancelled r = (case r of Some err \<Rightarrow> Inl err | None \<Rightarrow> Inr True)"

definition replacementFor :: "('d::linordered_idom, 'f, 'g, 'x) maker_lib_scheme \<Rightarrow> 'd maker_market \<Rightarrow> 'd \<Rightarrow> 'd \<Rightarrow> 'd \<Rightarrow> 'd option" where
  "replacementFor L mc desired remaining original =
     resolveReplacementQuantity L desired remaining original (mk_MinOrderSize mc) (mk_LotSize mc)"

definition applyEntry :: "('d::linordered_idom, 'f, 'g, 'x) maker_lib_scheme \<Rightarrow> 'd maker_config \<Rightarrow> 'd maker_env \<Rightarrow> 'd maker_market \<Rightarrow>
    'd diff_entry \<Rightarrow> ('d, 'g, 'd maker_error + bool) job" where
  "applyEntry L cfg en mc e = (case de_Action e of
     DiffCreate \<Rightarrow> applyCreate L cfg en mc e
   | DiffCancel \<Rightarrow> bindJ (applyCancel en mc e) (\<lambda>r. retJ (cancelled r))
   | DiffCorrect \<Rightarrow>
       (case de_DesiredLevel e of
          None \<Rightarrow> retJ (Inl (NilDesiredLevel (de_LevelID e)))
        | Some level \<Rightarrow>
            bindJ (getJ (\<lambda>s. Get (kr_tracker s) (de_LevelID e))) (\<lambda>existing.
            let replace = (\<lambda>l. bindJ (applyCancel en mc e) (\<lambda>r. case r of
                    Some err \<Rightarrow> retJ (Inl err)
                  | None \<Rightarrow> thenJ (onTracker (QueueCorrection (de_LevelID e) l)) (retJ (Inr True))))
            in case existing of
                 None \<Rightarrow> replace level
               | Some r \<Rightarrow>
                   (case replacementFor L mc (pl_Quantity level) (lo_RemainingQty r) (lo_OriginalQty r) of
                      None \<Rightarrow> bindJ (applyCancel en mc e) (\<lambda>r. retJ (cancelled r))
                    | Some q \<Rightarrow> replace (level\<lparr>pl_Quantity := q\<rparr>)))))"

section \<open>Confirmation\<close>

definition parseMERemainingQuantity :: "('d::linordered_idom, 'f, 'g, 'x) maker_lib_scheme \<Rightarrow> maker_order \<Rightarrow> 'd \<Rightarrow> 'd" where
  "parseMERemainingQuantity L m fallback =
     (if mq_RemainingQuantity m = '''' then fallback
      else case d_NewFromString L (mq_RemainingQuantity m) of
          None \<Rightarrow> fallback
        | Some parsed \<Rightarrow> if parsed < 0 then fallback else parsed)"

text \<open>\<open>snapOrders[o.LevelID]\<close>: the last order of the snapshot under that level.\<close>

definition lastFor :: "(maker_order \<Rightarrow> string) \<Rightarrow> string \<Rightarrow> maker_order list \<Rightarrow> maker_order option" where
  "lastFor key k ms = find (\<lambda>m. key m = k) (rev ms)"

definition confirmResting :: "('d::linordered_idom, 'f, 'g, 'x) maker_lib_scheme \<Rightarrow> maker_snapshot \<Rightarrow> 'd live_order \<Rightarrow> ('d, 'g, unit) job" where
  "confirmResting L snap r =
     (if lo_Status r \<noteq> StatusOSRegistered \<and> lo_Status r \<noteq> StatusPending then retJ ()
      else case lastFor mq_LevelID (lo_LevelID r) (mz_Orders snap) of
          None \<Rightarrow> retJ ()
        | Some m \<Rightarrow>
            whenJ (mq_ClientOrderID m = lo_ClientOrderID r \<or> mq_OrderID m = lo_OrderID r)
              (thenJ (onTracker (SetResting (lo_LevelID r) (mq_OrderID m) (lo_OriginalQty r) (parseMERemainingQuantity L m (lo_RemainingQty r))))
                (modJ (\<lambda>s. s\<lparr>kr_notFound := dropKey (lo_LevelID r) (kr_notFound s)\<rparr>))))"

definition ConfirmRestingFromSnapshot :: "('d::linordered_idom, 'f, 'g, 'x) maker_lib_scheme \<Rightarrow> 'd maker_env \<Rightarrow> string \<Rightarrow>
    maker_snapshot option \<Rightarrow> ('d, 'g, unit) job" where
  "ConfirmRestingFromSnapshot L en marketID snap = (case snap of
     None \<Rightarrow> retJ ()
   | Some sn \<Rightarrow>
       if mz_State sn \<noteq> ''LIVE'' then retJ ()
       else bindJ (allOrders en marketID) (eachJ (confirmResting L sn)))"

definition ConfirmOSRegisteredOrders :: "('d::linordered_idom, 'f, 'g, 'x) maker_lib_scheme \<Rightarrow> 'd maker_env \<Rightarrow> string \<Rightarrow> bool \<Rightarrow> ('d, 'g, unit) job" where
  "ConfirmOSRegisteredOrders L en marketID meHealthy =
     (if \<not> meHealthy \<or> \<not> ve_hasME en then retJ ()
      else bindJ (askJ (\<lambda>n. ve_snapshot en n marketID)) (\<lambda>snap. case snap of
          None \<Rightarrow> retJ ()
        | Some sn \<Rightarrow> ConfirmRestingFromSnapshot L en marketID (Some sn)))"

section \<open>Pending orders\<close>

definition notFoundThreshold :: int where
  "notFoundThreshold = 3"

text \<open>The answer of the order service for a pending order; the result is whether it timed out.\<close>

definition resolvePending :: "'d maker_env \<Rightarrow> string \<Rightarrow> 'd live_order \<Rightarrow> ('d::minus, 'g, bool) job" where
  "resolvePending en marketID r =
     (if \<not> ve_hasOrderSvc en then retJ True
      else bindJ (lookupJ en (lo_ClientOrderID r)) (\<lambda>found. case found of
          Inl ErrOrderNotFound \<Rightarrow>
            thenJ (modJ (\<lambda>s. s\<lparr>kr_notFound := (kr_notFound s)(lo_LevelID r := kr_notFound s (lo_LevelID r) + 1)\<rparr>))
              (getJ (\<lambda>s. notFoundThreshold \<le> kr_notFound s (lo_LevelID r)))
        | Inl LookupFailed \<Rightarrow> retJ True
        | Inr st \<Rightarrow>
            thenJ (modJ (\<lambda>s. s\<lparr>kr_notFound := dropKey (lo_LevelID r) (kr_notFound s)\<rparr>))
            (if st_Status st = ''OPEN'' \<or> st_Status st = ''PARTIALLY_FILLED''
             then bindJ (nowJ en) (\<lambda>now.
               thenJ (onTracker (SetOSRegistered now (lo_LevelID r) (st_OrderID st) (st_OriginalQty st) (st_RemainingQty st)))
               (thenJ (modJ (\<lambda>s. s\<lparr>kr_pendingTimeouts := (kr_pendingTimeouts s)(marketID := 0)\<rparr>)) (retJ False)))
             else if st_Status st = ''FILLED'' \<or> st_Status st = ''CANCELLED''
             then thenJ (removeTrackedOrder (lo_LevelID r)) (retJ False)
             else retJ True)))"

definition checkPending :: "('d::linordered_idom, 'f, 'g, 'x) maker_lib_scheme \<Rightarrow> 'd maker_config \<Rightarrow> 'd maker_env \<Rightarrow> 'd maker_market \<Rightarrow>
    'd live_order \<Rightarrow> bool \<Rightarrow> ('d, 'g, bool) job" where
  "checkPending L cfg en mc r timedOut =
     (if lo_Status r \<noteq> StatusPending then retJ timedOut
      else bindJ (nowJ en) (\<lambda>now.
        if now - lo_PendingSince r < kc_PendingTimeout cfg then retJ timedOut
        else bindJ (if lo_KafkaPublished r then retJ True
               else publishJ en (createdCommand L mc (lo_OrderID r) (lo_ClientOrderID r) (lo_Side r) (lo_Price r) (lo_OriginalQty r))) (\<lambda>ok.
          if \<not> ok then retJ True
          else thenJ (whenJ (\<not> lo_KafkaPublished r) (onTracker (SetKafkaPublished (lo_LevelID r) True)))
            (bindJ (resolvePending en (mk_MarketID mc) r) (\<lambda>out. retJ (timedOut \<or> out))))))"

definition CheckPendingTimeouts :: "('d::linordered_idom, 'f, 'g, 'x) maker_lib_scheme \<Rightarrow> 'd maker_config \<Rightarrow> 'd maker_env \<Rightarrow> string \<Rightarrow> ('d, 'g, int) job" where
  "CheckPendingTimeouts L cfg en marketID = (case ForMarket cfg marketID of
     None \<Rightarrow> retJ 0
   | Some mc \<Rightarrow>
       bindJ (allOrders en marketID) (\<lambda>rs.
       bindJ (foldJ (checkPending L cfg en mc) rs False) (\<lambda>timedOut.
       thenJ (whenJ timedOut (modJ (\<lambda>s. s\<lparr>kr_pendingTimeouts := (kr_pendingTimeouts s)(marketID := kr_pendingTimeouts s marketID + 1)\<rparr>)))
         (getJ (\<lambda>s. kr_pendingTimeouts s marketID)))))"

section \<open>Orders being cancelled\<close>

text \<open>The retry is counted on the order itself.\<close>

definition retryCancelOrStale :: "'d maker_config \<Rightarrow> 'd maker_env \<Rightarrow> 'd maker_market \<Rightarrow> 'd live_order \<Rightarrow> ('d, 'g, unit) job" where
  "retryCancelOrStale cfg en mc r =
     (if kc_CancelRetryLimit cfg \<le> lo_CancelRetries r then onTracker (SetStale (lo_LevelID r))
      else bindJ (publishJ en (cancelledCommand mc (lo_OrderID r))) (\<lambda>ok.
        if \<not> ok then retJ ()
        else bindJ (nowJ en) (\<lambda>now. onTracker (modifyOrder (IncrementCancelRetry now) (lo_LevelID r)))))"

text \<open>
  The replacement of a cancelled order, with the remaining quantity it leaves. The reference
  must be fresh; any refusal drops the replacement.
\<close>

definition submitReplacement :: "('d::linordered_idom, 'f, 'g, 'x) maker_lib_scheme \<Rightarrow> 'd maker_config \<Rightarrow> 'd maker_env \<Rightarrow> 'd maker_market \<Rightarrow>
    'd live_order \<Rightarrow> 'd \<Rightarrow> 'd maker_level \<Rightarrow> ('d, 'g, unit) job" where
  "submitReplacement L cfg en mc r remaining desired =
     bindJ (allowsNewLiquidity cfg en (mk_MarketID mc)) (\<lambda>allowed.
     if \<not> allowed then thenJ (refusalReason cfg en mc) (retJ ())
     else case replacementFor L mc (pl_Quantity desired) remaining (lo_OriginalQty r) of
         None \<Rightarrow> retJ ()
       | Some q \<Rightarrow>
           let desired' = desired\<lparr>pl_Quantity := q\<rparr> in
           bindJ (creationBlocked en mc desired') (\<lambda>blocked.
           if blocked then retJ ()
           else thenJ (submitLevel L en mc False (lo_LevelID r) desired') (retJ ())))"

definition handleCancellingTimeout :: "('d::linordered_idom, 'f, 'g, 'x) maker_lib_scheme \<Rightarrow> 'd maker_config \<Rightarrow> 'd maker_env \<Rightarrow> 'd maker_market \<Rightarrow>
    'd live_order \<Rightarrow> ('d, 'g, unit) job" where
  "handleCancellingTimeout L cfg en mc r =
     bindJ (lookupJ en (lo_ClientOrderID r)) (\<lambda>found.
     let confirmed = (\<lambda>known remaining.
           thenJ (removeTrackedOrder (lo_LevelID r))
             (case lo_QueuedCorrection r of
                None \<Rightarrow> retJ ()
              | Some desired \<Rightarrow>
                  if known \<and> remaining = 0 then retJ ()
                  else submitReplacement L cfg en mc r remaining desired))
     in case found of
          Inl LookupFailed \<Rightarrow> retJ ()
        | Inl ErrOrderNotFound \<Rightarrow> confirmed False (lo_RemainingQty r)
        | Inr st \<Rightarrow>
            if st_Status st = ''CANCELLED'' then confirmed True (st_RemainingQty st)
            else if st_Status st = ''FILLED'' \<or> (st_Status st = ''PARTIALLY_FILLED'' \<and> st_RemainingQty st = 0)
            then removeTrackedOrder (lo_LevelID r)
            else retryCancelOrStale cfg en mc r)"

definition checkCancelling :: "('d::linordered_idom, 'f, 'g, 'x) maker_lib_scheme \<Rightarrow> 'd maker_config \<Rightarrow> 'd maker_env \<Rightarrow> 'd maker_market \<Rightarrow>
    'd live_order \<Rightarrow> ('d, 'g, unit) job" where
  "checkCancelling L cfg en mc r =
     (if lo_Status r \<noteq> StatusCancelling then retJ ()
      else bindJ (nowJ en) (\<lambda>now.
        if now - lo_CancellingSince r < kc_CancellingTimeout cfg then retJ ()
        else handleCancellingTimeout L cfg en mc r))"

definition CheckCancellingTimeouts :: "('d::linordered_idom, 'f, 'g, 'x) maker_lib_scheme \<Rightarrow> 'd maker_config \<Rightarrow> 'd maker_env \<Rightarrow> string \<Rightarrow> ('d, 'g, unit) job" where
  "CheckCancellingTimeouts L cfg en marketID = (case ForMarket cfg marketID of
     None \<Rightarrow> retJ ()
   | Some mc \<Rightarrow> bindJ (allOrders en marketID) (eachJ (checkCancelling L cfg en mc)))"

end
