(* ===== verification/MakerSync.thy ===== *)
theory MakerSync
  imports MakerDispatch
begin

text \<open>
  How the tracker is brought in line with the two authorities
  (\<open>internal/reconciler/sync.go\<close>): the order service, which knows the orders, and the
  snapshot of the matching engine, which knows what rests in the book.
\<close>

section \<open>The order service\<close>

text \<open>An order the tracker has but the order service does not list.\<close>

definition resolveAbsent :: "('d::linordered_idom, 'f, 'g, 'x) maker_lib_scheme \<Rightarrow> 'd maker_config \<Rightarrow> 'd maker_env \<Rightarrow> 'd maker_market \<Rightarrow>
    string set \<Rightarrow> 'd live_order \<Rightarrow> ('d, 'g, unit) job" where
  "resolveAbsent L cfg en mc listed r =
     (if lo_LevelID r \<in> listed then retJ ()
      else case lo_Status r of
          StatusPending \<Rightarrow> retJ ()
        | StatusCancelling \<Rightarrow>
            thenJ (removeTrackedOrder (lo_LevelID r))
              (case lo_QueuedCorrection r of
                 None \<Rightarrow> retJ ()
               | Some desired \<Rightarrow>
                   if lo_RemainingQty r = 0 then retJ ()
                   else submitReplacement L cfg en mc r (lo_RemainingQty r) desired)
        | _ \<Rightarrow> removeTrackedOrder (lo_LevelID r))"

definition recoverGenerations :: "'d maker_env \<Rightarrow> string \<Rightarrow> ('d, 'g, unit) job" where
  "recoverGenerations en marketID = (case ve_recover en of
     None \<Rightarrow> retJ ()
   | Some recov \<Rightarrow> bindJ (askJ (\<lambda>n. recov n marketID)) (\<lambda>maxGens. case maxGens of
       None \<Rightarrow> retJ ()
     | Some gens \<Rightarrow> onTracker (fold (\<lambda>(lvl, gen). SetMaxGeneration lvl gen) gens)))"

definition SyncFromOrderService :: "('d::linordered_idom, 'f, 'g, 'x) maker_lib_scheme \<Rightarrow> 'd maker_config \<Rightarrow> 'd maker_env \<Rightarrow> string \<Rightarrow>
    ('d, 'g, 'd maker_error option) job" where
  "SyncFromOrderService L cfg en marketID = (case ForMarket cfg marketID of
     None \<Rightarrow> retJ (Some (UnknownMarket marketID))
   | Some mc \<Rightarrow>
       thenJ (recoverGenerations en marketID)
       (if \<not> ve_hasOrderSvc en then panicJ
        else bindJ (askJ (\<lambda>n. ve_list en n marketID)) (\<lambda>osOrders. case osOrders of
          None \<Rightarrow> retJ (Some (ListFailed marketID))
        | Some rs \<Rightarrow>
            bindJ (askJ (ve_visit en)) (\<lambda>vis. bindJ (nowJ en) (\<lambda>now.
            thenJ (onTracker (\<lambda>t. snd (SyncFromOrders vis now marketID rs (Some (\<lambda>lvl. ResolveZoneForMarketConfig lvl (Some mc))) t)))
            (bindJ (allOrders en marketID) (\<lambda>tracked.
             thenJ (eachJ (resolveAbsent L cfg en mc (set (map so_LevelID rs))) tracked) (retJ None))))))))"

section \<open>The matching engine\<close>

definition orphanCancelCooldown :: int where
  "orphanCancelCooldown = seconds 5"

definition inFlightGracePeriod :: int where
  "inFlightGracePeriod = seconds 45"

text \<open>An order of the book that is not the one the tracker has in its level.\<close>

definition cancelOrphan :: "'d maker_config \<Rightarrow> 'd maker_env \<Rightarrow> 'd maker_market \<Rightarrow> maker_order \<Rightarrow> ('d, 'g, unit) job" where
  "cancelOrphan cfg en mc m =
     (let cooldown = (if kc_OrphanCancelCooldown cfg \<le> 0 then orphanCancelCooldown else kc_OrphanCancelCooldown cfg)
      in bindJ (getJ (\<lambda>s. map_of (kr_orphans s) (mq_OrderID m))) (\<lambda>rec.
         bindJ (case rec of None \<Rightarrow> retJ False
                | Some (_, lastCancel) \<Rightarrow> bindJ (nowJ en) (\<lambda>now. retJ (now - lastCancel < cooldown))) (\<lambda>waiting.
         if waiting then retJ ()
         else thenJ (if ve_hasOrderSvc en then thenJ (cancelJ en (mq_OrderID m)) (retJ ()) else retJ ())
           (if \<not> ve_hasProducer en then retJ ()
            else bindJ (publishJ en (cancelledCommand mc (mq_OrderID m))) (\<lambda>ok.
              if \<not> ok then retJ ()
              else bindJ (nowJ en) (\<lambda>now. modJ (\<lambda>s. s\<lparr>kr_orphans := AList.update (mq_OrderID m) (mk_MarketID mc, now) (kr_orphans s)\<rparr>)))))))"

definition sameOrder :: "maker_order \<Rightarrow> 'd live_order \<Rightarrow> bool" where
  "sameOrder m r \<longleftrightarrow>
     lo_OrderID r \<noteq> '''' \<and> mq_OrderID m \<noteq> '''' \<and> lo_OrderID r = mq_OrderID m \<or>
     lo_ClientOrderID r \<noteq> '''' \<and> mq_ClientOrderID m \<noteq> '''' \<and> lo_ClientOrderID r = mq_ClientOrderID m"

definition promote :: "('d::linordered_idom, 'f, 'g, 'x) maker_lib_scheme \<Rightarrow> maker_order \<Rightarrow> 'd live_order \<Rightarrow> ('d, 'g, unit) job" where
  "promote L m r =
     (if lo_Status r = StatusCancelling \<or> lo_Status r = StatusStale then retJ ()
      else thenJ (onTracker (SetResting (lo_LevelID r) (mq_OrderID m) (lo_OriginalQty r) (parseMERemainingQuantity L m (lo_RemainingQty r))))
        (modJ (\<lambda>s. s\<lparr>kr_missing := dropKey (lo_LevelID r) (kr_missing s), kr_notFound := dropKey (lo_LevelID r) (kr_notFound s),
           kr_inFlightSince := (kr_inFlightSince s)(lo_LevelID r := None)\<rparr>)))"

definition syncMakerOrder :: "('d::linordered_idom, 'f, 'g, 'x) maker_lib_scheme \<Rightarrow> 'd maker_config \<Rightarrow> 'd maker_env \<Rightarrow> 'd maker_market \<Rightarrow>
    maker_order \<Rightarrow> ('d, 'g, unit) job" where
  "syncMakerOrder L cfg en mc m =
     bindJ (getJ (\<lambda>s. Get (kr_tracker s) (mq_LevelID m))) (\<lambda>tracked. case tracked of
       None \<Rightarrow> cancelOrphan cfg en mc m
     | Some r \<Rightarrow> if sameOrder m r then promote L m r else cancelOrphan cfg en mc m)"

definition pruneOrphans :: "string \<Rightarrow> maker_snapshot \<Rightarrow> ('d, 'g, unit) job" where
  "pruneOrphans marketID snap = modJ (\<lambda>s. s\<lparr>kr_orphans := filter (\<lambda>(oid, market, _).
     market \<noteq> marketID \<or> (oid \<noteq> '''' \<and> oid \<in> set (map mq_OrderID (mz_Orders snap)))) (kr_orphans s)\<rparr>)"

text \<open>
  An order missing from the book for two cycles. The order service decides: a closed order
  is dropped, an open one is cancelled and its slot stays locked until that is confirmed.
\<close>

definition handleMissingRestingOrder :: "'d maker_env \<Rightarrow> 'd maker_market \<Rightarrow> 'd live_order \<Rightarrow> ('d, 'g, unit) job" where
  "handleMissingRestingOrder en mc r =
     (let lvl = lo_LevelID r;
          forget = modJ (\<lambda>s. s\<lparr>kr_missing := dropKey lvl (kr_missing s)\<rparr>);
          lock = bindJ (nowJ en) (\<lambda>now. onTracker (SetCancelling now lvl))
      in if \<not> ve_hasOrderSvc en then thenJ lock forget
         else bindJ (lookupJ en (lo_ClientOrderID r)) (\<lambda>found. case found of
           Inl LookupFailed \<Rightarrow> retJ ()
         | Inl ErrOrderNotFound \<Rightarrow>
             thenJ (modJ (\<lambda>s. s\<lparr>kr_notFound := (kr_notFound s)(lvl := kr_notFound s lvl + 1)\<rparr>))
             (bindJ (getJ (\<lambda>s. kr_notFound s lvl)) (\<lambda>misses. whenJ (2 \<le> misses) (removeTrackedOrder lvl)))
         | Inr st \<Rightarrow>
             thenJ (modJ (\<lambda>s. s\<lparr>kr_notFound := dropKey lvl (kr_notFound s)\<rparr>))
             (if st_Status st = ''OPEN'' \<or> st_Status st = ''PARTIALLY_FILLED'' \<or> st_Status st = ''CANCELLING''
              then thenJ (thenJ (cancelJ en (lo_OrderID r)) (retJ ()))
                (thenJ (if ve_hasProducer en then thenJ (publishJ en (cancelledCommand mc (lo_OrderID r))) (retJ ()) else retJ ())
                (thenJ forget lock))
              else removeTrackedOrder lvl)))"

definition checkPresent :: "'d maker_env \<Rightarrow> 'd maker_market \<Rightarrow> maker_snapshot \<Rightarrow> time \<Rightarrow> 'd live_order \<Rightarrow> ('d, 'g, unit) job" where
  "checkPresent en mc snap now r =
     (let lvl = lo_LevelID r;
          present = (\<exists>m\<in>set (mz_Orders snap). sameOrder m r)
      in if (lo_Status r \<noteq> StatusResting \<and> lo_Status r \<noteq> StatusOSRegistered) \<or> present then retJ ()
         else bindJ (getJ (\<lambda>s. kr_inFlightSince s lvl)) (\<lambda>since.
           if (case since of Some t0 \<Rightarrow> now - t0 < inFlightGracePeriod | None \<Rightarrow> False) then retJ ()
           else thenJ (modJ (\<lambda>s. s\<lparr>kr_missing := (kr_missing s)(lvl := kr_missing s lvl + 1)\<rparr>))
             (bindJ (getJ (\<lambda>s. kr_missing s lvl)) (\<lambda>cycles.
              whenJ (2 \<le> cycles)
                (thenJ (handleMissingRestingOrder en mc r)
                  (modJ (\<lambda>s. s\<lparr>kr_missing := dropKey lvl (kr_missing s)\<rparr>)))))))"

definition syncWithMESnapshot :: "('d::linordered_idom, 'f, 'g, 'x) maker_lib_scheme \<Rightarrow> 'd maker_config \<Rightarrow> 'd maker_env \<Rightarrow> 'd maker_market \<Rightarrow>
    maker_snapshot \<Rightarrow> ('d, 'g, unit) job" where
  "syncWithMESnapshot L cfg en mc snap =
     thenJ (eachJ (syncMakerOrder L cfg en mc) (mz_Orders snap))
     (thenJ (pruneOrphans (mk_MarketID mc) snap)
     (bindJ (nowJ en) (\<lambda>now.
      bindJ (allOrders en (mk_MarketID mc)) (eachJ (checkPresent en mc snap now)))))"

end
