(* ===== verification/MakerIDs.thy ===== *)
theory MakerIDs
  imports MakerTracker Engine
begin

text \<open>
  The identifiers three services share: the level ID of a slot of the ladder and the client
  order ID made of it and a generation. The liquidity engine writes them, reads them back
  from the order service (\<open>internal/orderservice/parse.go\<close>), and the matching engine reads
  them when it publishes its snapshot (\<open>parseMMClientOrderID\<close> of \<open>Engine\<close>).
\<close>

section \<open>The reader of the liquidity engine\<close>

text \<open>The index of the last \<open>-G\<close> that leaves a non-empty level, searched downwards from \<open>i\<close>.\<close>

fun lastG :: "string \<Rightarrow> nat \<Rightarrow> nat option" where
  "lastG s i =
     (if i < 2 then None
      else if s ! (i - 1) = CHR ''-'' \<and> s ! i = CHR ''G'' then Some (i - 1)
      else lastG s (i - 1))"

declare lastG.simps [simp del]

datatype coid_error = NoGeneration string | InvalidGeneration string string

definition parseLevelFromClientOrderID :: "string \<Rightarrow> coid_error + string \<times> int" where
  "parseLevelFromClientOrderID coid = (case lastG coid (length coid - 1) of
     None \<Rightarrow> Inl (NoGeneration coid)
   | Some k \<Rightarrow>
       (case scanInt (drop (k + 2) coid) of
          None \<Rightarrow> Inl (InvalidGeneration (drop (k + 2) coid) coid)
        | Some gen \<Rightarrow> Inr (take k coid, gen)))"

text \<open>The names of the statuses of the order service, which its API numbers from 1.\<close>

definition protoStatusToString :: "int \<Rightarrow> string" where
  "protoStatusToString s =
     (if s = 1 then ''OPEN'' else if s = 2 then ''PARTIALLY_FILLED'' else if s = 3 then ''FILLED''
      else if s = 4 then ''CANCELLING'' else if s = 5 then ''CANCELLED'' else ''UNKNOWN'')"

definition parseMarketFromLevelID :: "string \<Rightarrow> string" where
  "parseMarketFromLevelID levelID =
     (let parts = splitOn CHR ''-'' levelID in
      if 4 \<le> length parts \<and> parts ! 0 = ''MM'' then parts ! 1 @ ''-'' @ parts ! 2 else '''')"

section \<open>Digits\<close>

lemma digit_char: "n < 10 \<Longrightarrow> isDigit (char_of (48 + n)) \<and> (of_char (char_of (48 + n)) :: nat) = 48 + n"
  by (simp add: isDigit_def)

lemma digit_char_int: "n < 10 \<Longrightarrow> (of_char (char_of (48 + n) :: char) :: int) = 48 + int n"
  using digit_char[of n] of_nat_of_char[of "char_of (48 + n) :: char", where 'a = int] by simp

lemma itoa_digits: "c \<in> set (itoa n) \<Longrightarrow> isDigit c"
proof (induction n rule: itoa.induct)
  case (1 n)
  show ?case
  proof (cases "n < 10")
    case True
    with "1.prems" digit_char show ?thesis by (simp add: itoa.simps[of n])
  next
    case False
    with "1.prems" have "c \<in> set (itoa (n div 10)) \<or> c = char_of (48 + n mod 10)" by (auto simp: itoa.simps[of n])
    with "1.IH" False digit_char[of "n mod 10"] show ?thesis by auto
  qed
qed

lemma itoa_not_Nil: "itoa n \<noteq> []"
  by (subst itoa.simps) simp

lemma isDigit_not: "isDigit c \<Longrightarrow> c \<noteq> CHR ''-'' \<and> c \<noteq> CHR ''G'' \<and> c \<noteq> CHR ''+'' \<and> c \<noteq> CHR '' ''
    \<and> c \<noteq> CHR 0x0A \<and> c \<noteq> CHR 0x09 \<and> c \<noteq> CHR 0x0B \<and> c \<noteq> CHR 0x0C \<and> c \<noteq> CHR 0x0D"
  by (auto simp: isDigit_def)

lemma pad0_digits: "0 \<le> i \<Longrightarrow> c \<in> set (pad0 w i) \<Longrightarrow> isDigit c"
  by (auto simp: pad0_def Let_def isDigit_def dest: itoa_digits[unfolded isDigit_def])

lemma pad0_not_Nil: "pad0 w i \<noteq> []"
  by (simp add: pad0_def Let_def itoa_not_Nil)

lemma scanDigits_append:
  "\<forall>c\<in>set xs. isDigit c \<Longrightarrow> scanDigits acc (xs @ ys) = scanDigits (scanDigits acc xs) ys"
  by (induction xs arbitrary: acc) auto

lemma scanDigits_itoa: "scanDigits 0 (itoa n) = int n"
proof (induction n rule: itoa.induct)
  case (1 n)
  show ?case
  proof (cases "n < 10")
    case True
    with digit_char[of n] digit_char_int[of n] show ?thesis by (simp add: itoa.simps[of n])
  next
    case False
    have "scanDigits 0 (itoa n) = scanDigits (scanDigits 0 (itoa (n div 10))) [char_of (48 + n mod 10)]"
      using False itoa_digits by (simp add: itoa.simps[of n] scanDigits_append del: scanDigits.simps)
    also have "\<dots> = 10 * int (n div 10) + int (n mod 10)"
      using "1.IH" False digit_char[of "n mod 10"] digit_char_int[of "n mod 10"] by simp
    also have "\<dots> = int n" by presburger
    finally show ?thesis .
  qed
qed

lemma scanDigits_zeros: "scanDigits 0 (replicate k CHR ''0'' @ xs) = scanDigits 0 xs"
  by (induction k) (simp_all add: isDigit_def)

lemma skipSpace_digits: "\<forall>c\<in>set s. isDigit c \<Longrightarrow> skipSpace s = Some s"
  by (cases s) (auto dest: isDigit_not)

lemma scanInt_pad0:
  assumes "0 \<le> i" and "inInt64 i"
  shows "scanInt (pad0 w i) = Some i"
proof -
  have d: "\<forall>c\<in>set (pad0 w i). isDigit c" using pad0_digits[OF assms(1)] by blast
  obtain c cs where p: "pad0 w i = c # cs" using pad0_not_Nil by (cases "pad0 w i") auto
  have "scanDigits 0 (pad0 w i) = i"
    using assms(1) by (simp add: pad0_def Let_def scanDigits_zeros scanDigits_itoa)
  with d p assms(2) isDigit_not[of c] show ?thesis
    by (simp add: scanInt_def scanUnsigned_def skipSpace_digits)
qed

section \<open>Splitting\<close>

lemma splitOn_not_Nil: "splitOn c s \<noteq> []"
  by (induction s) (auto split: list.splits)

lemma splitOn_plain: "c \<notin> set s \<Longrightarrow> splitOn c s = [s]"
  by (induction s) auto

lemma splitOn_append: "splitOn c (s @ c # t) = splitOn c s @ splitOn c t"
  using splitOn_not_Nil[of c] by (induction s) (auto split: list.splits)

lemma joinOn_split: "joinOn c (splitOn c s) = s"
proof (induction s)
  case (Cons x xs)
  obtain p ps where p: "splitOn c xs = p # ps" using splitOn_not_Nil[of c xs] by (cases "splitOn c xs") auto
  with Cons show ?case by (cases ps) auto
qed simp

lemma splitOn_levelID:
  assumes "0 \<le> i" and "CHR ''-'' \<notin> set label"
  shows "splitOn CHR ''-'' (levelIDOf m label i) = ''MM'' # splitOn CHR ''-'' m @ [label, pad0 2 i]"
proof -
  have p: "CHR ''-'' \<notin> set (pad0 2 i)" using pad0_digits[OF assms(1)] isDigit_not by blast
  have "levelIDOf m label i = ''MM'' @ CHR ''-'' # (m @ CHR ''-'' # (label @ CHR ''-'' # pad0 2 i))"
    by (simp add: levelIDOf_def)
  then show ?thesis by (simp only: splitOn_append splitOn_plain[OF p] splitOn_plain[OF assms(2)]) simp
qed

lemma ParseLevelID_levelIDOf:
  assumes "0 < i" and "inInt64 i" and "label = ''BID'' \<or> label = ''ASK''"
  shows "ParseLevelID (levelIDOf m label i) = Inr (m, label, i)"
proof -
  have l: "CHR ''-'' \<notin> set label" using assms(3) by auto
  note parts = splitOn_levelID[OF less_imp_le[OF assms(1)] l, of m]
  have n: "Suc 0 \<le> length (splitOn CHR ''-'' m)" using splitOn_not_Nil[of "CHR ''-''" m] by (simp add: Suc_le_eq)
  let ?p = "''MM'' # splitOn CHR ''-'' m @ [label, pad0 2 i]"
  have "?p ! (length ?p - 2) = label" "?p ! (length ?p - 1) = pad0 2 i"
    "take (length ?p - 3) (drop 1 ?p) = splitOn CHR ''-'' m"
    by (simp_all add: nth_append nth_Cons')
  then show ?thesis
    using n assms scanInt_pad0[of i 2] by (auto simp: ParseLevelID_def Let_def parts joinOn_split)
qed

section \<open>Client order IDs\<close>

lemma lastG_found:
  assumes "0 < length lvl" and "\<forall>c\<in>set ds. isDigit c" and "n \<le> length ds"
  shows "lastG (lvl @ ''-G'' @ ds) (length lvl + 1 + n) = Some (length lvl)"
  using assms(3)
proof (induction n)
  case 0
  with assms(1) show ?case by (subst lastG.simps) (simp add: nth_append)
next
  case (Suc n)
  let ?s = "lvl @ ''-G'' @ ds"
  have "?s ! (length lvl + 1 + Suc n) = ds ! n" by (simp add: nth_append)
  moreover have "ds ! n \<in> set ds" using Suc.prems by simp
  ultimately have "?s ! (length lvl + 1 + Suc n) \<noteq> CHR ''G''" using assms(2) isDigit_not by metis
  then have "lastG ?s (length lvl + 1 + Suc n) = lastG ?s (length lvl + 1 + n)"
    using assms(1) by (subst lastG.simps) simp
  with Suc show ?case by simp
qed

lemma parseLevel_ClientOrderID:
  assumes "lvl \<noteq> []" and "0 \<le> gen" and "inInt64 gen"
  shows "parseLevelFromClientOrderID (ClientOrderID lvl gen) = Inr (lvl, gen)"
proof -
  let ?ds = "pad0 3 gen"
  have "lastG (lvl @ ''-G'' @ ?ds) (length lvl + 1 + length ?ds) = Some (length lvl)"
    using lastG_found[of lvl ?ds "length ?ds"] assms(1) pad0_digits[OF assms(2)] by simp
  then show ?thesis
    using scanInt_pad0[OF assms(2,3), of 3] by (simp add: parseLevelFromClientOrderID_def ClientOrderID_def)
qed

text \<open>\<open>-G\<close> occurs in a string.\<close>

fun dashG :: "string \<Rightarrow> bool" where
  "dashG (c # d # cs) = (c = CHR ''-'' \<and> d = CHR ''G'' \<or> dashG (d # cs))"
| "dashG _ = False"

lemma splitG_plain: "\<not> dashG s \<Longrightarrow> splitG acc s = [acc @ s]"
  by (induction acc s rule: splitG.induct) auto

lemma splitG_append: "\<not> dashG s \<Longrightarrow> splitG acc (s @ CHR ''-'' # CHR ''G'' # t) = (acc @ s) # splitG [] t"
  by (induction s arbitrary: acc rule: dashG.induct) auto

lemma digits_no_dashG: "\<forall>c\<in>set s. isDigit c \<Longrightarrow> \<not> dashG s"
  by (induction s rule: dashG.induct) (auto dest: isDigit_not)

lemma digits_value_append:
  "digits_value acc xs = Some a \<Longrightarrow> digits_value acc (xs @ ys) = digits_value a ys"
  by (induction xs arbitrary: acc) (auto split: if_splits)

lemma digits_value_itoa: "digits_value 0 (itoa n) = Some n"
proof (induction n rule: itoa.induct)
  case (1 n)
  show ?case
  proof (cases "n < 10")
    case True
    with digit_char[of n] show ?thesis by (simp add: itoa.simps[of n])
  next
    case False
    with digits_value_append[OF "1.IH"[OF False], of "[char_of (48 + n mod 10)]"] digit_char[of "n mod 10"]
    show ?thesis by (simp add: itoa.simps[of n])
  qed
qed

lemma digits_value_zeros: "digits_value 0 (replicate k CHR ''0'' @ xs) = digits_value 0 xs"
  by (induction k) simp_all

lemma ParseUint64_pad0: "0 \<le> i \<Longrightarrow> i < 2 ^ 64 \<Longrightarrow> ParseUint64 (pad0 w i) = Some (nat i)"
  by (simp add: ParseUint64_def pad0_not_Nil) (simp add: pad0_def Let_def digits_value_zeros digits_value_itoa)

lemma parseMM_ClientOrderID:
  assumes "\<not> dashG lvl" and "0 \<le> gen" and "inInt64 gen"
  shows "parseMMClientOrderID (ClientOrderID lvl gen) = (lvl, nat gen)"
proof -
  have "\<forall>c\<in>set (pad0 3 gen). isDigit c" using pad0_digits[OF assms(2)] by blast
  then have "splitG [] (ClientOrderID lvl gen) = [lvl, pad0 3 gen]"
    using splitG_append[OF assms(1), of "[]" "pad0 3 gen"] digits_no_dashG splitG_plain[of "pad0 3 gen" "[]"]
    by (simp add: ClientOrderID_def)
  moreover have "gen < 2 ^ 64" using assms(3) by (simp add: inInt64_def)
  ultimately show ?thesis
    using ParseUint64_pad0[OF assms(2)] by (simp add: parseMMClientOrderID_def ClientOrderID_def)
qed

text \<open>A market ID that does not bring \<open>-G\<close> into its level IDs.\<close>

lemma dashG_Cons: "dashG (c # s) \<longleftrightarrow> dashG s \<or> (c = CHR ''-'' \<and> s \<noteq> [] \<and> hd s = CHR ''G'')"
  by (cases s) auto

lemma dashG_append: "dashG (xs @ ys) \<longleftrightarrow> dashG xs \<or> dashG ys \<or>
    (xs \<noteq> [] \<and> ys \<noteq> [] \<and> last xs = CHR ''-'' \<and> hd ys = CHR ''G'')"
  by (induction xs) (auto simp: dashG_Cons hd_append simp del: dashG.simps(1))

lemma levelID_dashG:
  assumes "\<not> dashG (CHR ''-'' # m)" and "label = ''BID'' \<or> label = ''ASK''" and "0 \<le> i"
  shows "\<not> dashG (levelIDOf m label i)"
proof -
  have d: "\<forall>c\<in>set (pad0 2 i). isDigit c" using pad0_digits[OF assms(3)] by blast
  then have "hd (pad0 2 i) \<noteq> CHR ''G''" using pad0_not_Nil[of 2 i] hd_in_set isDigit_not by metis
  then show ?thesis
    using assms digits_no_dashG[OF d]
    by (auto simp: levelIDOf_def dashG_append dashG_Cons hd_append simp del: dashG.simps(1) split: if_splits)
qed

end
