(* ===== verification/MakerRefresh.thy ===== *)
theory MakerRefresh
  imports MakerSync MakerIDs
begin

text \<open>
  Orders that are refreshed before they are gone (\<open>internal/reconciler/expiry.go\<close>), the
  moves of the ladder with the reference (\<open>reprice.go\<close>), and the reconciliation of a market
  (\<open>reconciler.go\<close>).
\<close>

section \<open>Shared pieces\<close>

text \<open>Prices of a side that are in use: of its active orders and of queued corrections.\<close>

definition takenStep :: "('d::linordered_idom, 'f, 'g, 'x) maker_lib_scheme \<Rightarrow> 'd live_order \<Rightarrow> string set \<times> string set \<Rightarrow> string set \<times> string set" where
  "takenStep L r taken =
     (let add = (\<lambda>price (bid, ask). if lo_Side r = ''BUY'' then (insert (d_String L price) bid, ask) else (bid, insert (d_String L price) ask));
          t1 = (if committed r then add (lo_Price r) taken else taken)
      in case lo_QueuedCorrection r of
           Some q \<Rightarrow> if pl_Price q \<noteq> 0 then add (pl_Price q) t1 else t1
         | None \<Rightarrow> t1)"

definition takenPrices :: "('d::linordered_idom, 'f, 'g, 'x) maker_lib_scheme \<Rightarrow> 'd live_order list \<Rightarrow> string set \<times> string set" where
  "takenPrices L rs = fold (takenStep L) rs ({}, {})"

definition takenOn :: "string \<Rightarrow> string set \<times> string set \<Rightarrow> string set" where
  "takenOn s taken = (if s = ''SELL'' then snd taken else fst taken)"

definition reserve :: "string \<Rightarrow> string \<Rightarrow> string set \<times> string set \<Rightarrow> string set \<times> string set" where
  "reserve s key taken = (if s = ''SELL'' then (fst taken, insert key (snd taken)) else (insert key (fst taken), snd taken))"

definition zonesOf :: "'d maker_market \<Rightarrow> string \<Rightarrow> zone_config" where
  "zonesOf mc s = (let z = (if s = ''SELL'' then mk_AskZones mc else mk_BidZones mc)
     in if TotalLevels z = 0 then DefaultZoneConfig else z)"

definition cancelEntry :: "diff_action \<Rightarrow> 'd live_order \<Rightarrow> 'd diff_entry" where
  "cancelEntry a r = \<lparr>de_Action = a, de_LevelID = lo_LevelID r, de_DesiredLevel = None,
     de_ExistingCOID = lo_ClientOrderID r, de_ExistingOID = lo_OrderID r\<rparr>"

definition maxBatchOf :: "'d maker_market \<Rightarrow> int" where
  "maxBatchOf mc = (if rc_MaxBatch (mk_Repricing mc) \<le> 0 then 4 else rc_MaxBatch (mk_Repricing mc))"

definition refreshedAt :: "string \<Rightarrow> time \<Rightarrow> ('d, 'g, unit) job" where
  "refreshedAt levelID now = modJ (\<lambda>s. s\<lparr>kr_lastRefresh := (kr_lastRefresh s)(levelID \<mapsto> now)\<rparr>)"

section \<open>Consumed orders\<close>

definition consumedReason :: "('d::linordered_idom, 'f, 'g, 'x) maker_lib_scheme \<Rightarrow> 'd maker_market \<Rightarrow> 'd live_order \<Rightarrow> string" where
  "consumedReason L mc r =
     (let threshold = (if rc_RefreshConsumptionThreshold (mk_Repricing mc) = 0 then k_FromFloat L (f_const L (1 / 2))
            else rc_RefreshConsumptionThreshold (mk_Repricing mc))
      in if mk_MinOrderSize mc \<noteq> 0 \<and> lo_RemainingQty r < mk_MinOrderSize mc then ''dust''
         else if 0 < lo_OriginalQty r \<and> lo_RemainingQty r \<le> lo_OriginalQty r * threshold then ''consumption''
         else '''')"

definition consumedCandidate :: "('d::linordered_idom, 'f, 'g, 'x) maker_lib_scheme \<Rightarrow> 'd maker_market \<Rightarrow> time \<Rightarrow>
    (string \<Rightarrow> time option) \<Rightarrow> 'd live_order \<Rightarrow> bool" where
  "consumedCandidate L mc now lastRefresh r \<longleftrightarrow>
     (let cooldown = (if rc_RefreshCooldown (mk_Repricing mc) \<le> 0 then seconds 5 else rc_RefreshCooldown (mk_Repricing mc))
      in lo_Status r = StatusResting \<and> consumedReason L mc r \<noteq> '''' \<and>
         (case lastRefresh (lo_LevelID r) of None \<Rightarrow> True | Some t0 \<Rightarrow> \<not> now - t0 < cooldown))"

definition cancelConsumed :: "'d maker_env \<Rightarrow> 'd maker_market \<Rightarrow> time \<Rightarrow> 'd live_order \<Rightarrow> int \<Rightarrow> ('d, 'g, int) job" where
  "cancelConsumed en mc now r count =
     bindJ (applyCancel en mc (cancelEntry DiffCancel r)) (\<lambda>err. case err of
       Some _ \<Rightarrow> retJ count
     | None \<Rightarrow> thenJ (refreshedAt (lo_LevelID r) now) (retJ (count + 1)))"

definition CheckConsumedOrders :: "('d::linordered_idom, 'f, 'g, 'x) maker_lib_scheme \<Rightarrow> 'd maker_config \<Rightarrow> 'd maker_env \<Rightarrow> string \<Rightarrow> ('d, 'g, int) job" where
  "CheckConsumedOrders L cfg en marketID = (case ForMarket cfg marketID of
     None \<Rightarrow> retJ 0
   | Some mc \<Rightarrow>
       bindJ (currentReference cfg en mc) (\<lambda>snap.
       if rf_Freshness snap \<noteq> FreshnessFresh then retJ 0
       else bindJ (allOrders en marketID) (\<lambda>rs. bindJ (nowJ en) (\<lambda>now. bindJ (getJ kr_lastRefresh) (\<lambda>lastRefresh.
         foldJ (cancelConsumed en mc now)
           (take (nat (maxBatchOf mc)) (filter (consumedCandidate L mc now lastRefresh) rs)) 0)))))"

section \<open>Expired orders\<close>

definition startOf :: "'d live_order \<Rightarrow> time" where
  "startOf r = (let c = (if lo_CreatedAt r = 0 then lo_PendingSince r else lo_CreatedAt r)
     in if c = 0 then lo_OSRegisteredSince r else c)"

definition expiredCandidate :: "'d maker_market \<Rightarrow> time \<Rightarrow> 'd live_order \<Rightarrow> bool" where
  "expiredCandidate mc now r \<longleftrightarrow>
     (let lifetime = (if rc_OrderLifetime (mk_Repricing mc) \<le> 0 then minutes 30 else rc_OrderLifetime (mk_Repricing mc))
      in lo_Status r = StatusResting \<and> startOf r \<noteq> 0 \<and> lifetime \<le> now - startOf r)"

definition zoneOfOrder :: "'d maker_market \<Rightarrow> 'd live_order \<Rightarrow> string" where
  "zoneOfOrder mc r = (if lo_Zone r = '''' then ResolveZoneForMarketConfig (lo_LevelID r) (Some mc) else lo_Zone r)"

definition bandFor :: "zone_config \<Rightarrow> string \<Rightarrow> zone_band" where
  "bandFor zones zone = (if zone = ''LOW'' then zc_Low zones else if zone = ''MID'' then zc_Mid zones
     else if zone = ''HIGH'' then zc_High zones else zc_Low zones)"

definition expireOrder :: "('d::linordered_idom, 'f, 'g, 'x) maker_lib_scheme \<Rightarrow> 'd maker_env \<Rightarrow> 'd maker_market \<Rightarrow> 'd \<Rightarrow> int \<Rightarrow> time \<Rightarrow>
    'd live_order \<Rightarrow> (string set \<times> string set) \<times> int \<Rightarrow> ('d, 'g, (string set \<times> string set) \<times> int) job" where
  "expireOrder L en mc ref refVersion now r = (\<lambda>(taken, count).
     let lvl = lo_LevelID r; zone = zoneOfOrder mc r;
         prune = thenJ (applyCancel en mc (cancelEntry DiffCancel r)) (thenJ (refreshedAt lvl now) (retJ (taken, count)))
     in if zone = '''' then prune
        else if lo_RemainingQty r = 0 then prune
        else case replacementFor L mc (lo_RemainingQty r) (lo_RemainingQty r) (lo_OriginalQty r) of
            None \<Rightarrow> prune
          | Some qty \<Rightarrow>
              bindJ (drawJ (GenerateLevelPrice L mc ref (lo_Side r) (bandFor (zonesOf mc (lo_Side r)) zone) (takenOn (lo_Side r) taken))) (\<lambda>drawn.
              case drawn of
                Inl _ \<Rightarrow> retJ (taken, count)
              | Inr newPrice \<Rightarrow>
                  let taken' = reserve (lo_Side r) (d_String L newPrice) taken in
                  bindJ (applyCancel en mc (cancelEntry DiffCorrect r)) (\<lambda>err. case err of
                    Some _ \<Rightarrow> retJ (taken', count)
                  | None \<Rightarrow>
                      thenJ (refreshedAt lvl now)
                      (thenJ (onTracker (QueueCorrection lvl \<lparr>pl_LevelID = lvl, pl_MarketID = mk_MarketID mc, pl_Side = lo_Side r,
                          pl_Price = newPrice, pl_Quantity = qty, pl_Zone = lo_Zone r, pl_RefVersion = refVersion\<rparr>))
                      (retJ (taken', count + 1))))))"

definition CheckExpiredOrders :: "('d::linordered_idom, 'f, 'g, 'x) maker_lib_scheme \<Rightarrow> 'd maker_config \<Rightarrow> 'd maker_env \<Rightarrow> string \<Rightarrow> ('d, 'g, int) job" where
  "CheckExpiredOrders L cfg en marketID = (case ForMarket cfg marketID of
     None \<Rightarrow> retJ 0
   | Some mc \<Rightarrow>
       bindJ (currentReference cfg en mc) (\<lambda>snap.
       if rf_Freshness snap \<noteq> FreshnessFresh then retJ 0
       else bindJ (allOrders en marketID) (\<lambda>rs. bindJ (nowJ en) (\<lambda>now.
         bindJ (foldJ (expireOrder L en mc (rf_Price snap) (rf_Version snap) now)
             (take (nat (maxBatchOf mc)) (filter (expiredCandidate mc now) rs)) (takenPrices L rs, 0))
           (\<lambda>(_, count). retJ count)))))"

section \<open>Moves of the reference\<close>

text \<open>\<open>strconv.Atoi\<close>: an optional sign and digits, all of the string.\<close>

definition Atoi :: "string \<Rightarrow> int option" where
  "Atoi s =
     (let parse = (\<lambda>ds. if ds \<noteq> [] \<and> list_all isDigit ds then Some (scanDigits 0 ds) else None);
          v = (case s of [] \<Rightarrow> None
               | c # cs \<Rightarrow> if c = CHR ''-'' then map_option uminus (parse cs) else if c = CHR ''+'' then parse cs else parse s)
      in case v of None \<Rightarrow> None | Some i \<Rightarrow> if inInt64 i then Some i else None)"

definition levelIndexFromID :: "string \<Rightarrow> int" where
  "levelIndexFromID levelID = (case Atoi (last (splitOn CHR ''-'' levelID)) of Some i \<Rightarrow> i | None \<Rightarrow> 999)"

definition levelBefore :: "'d live_order \<Rightarrow> 'd live_order \<Rightarrow> bool" where
  "levelBefore a b =
     (let i = levelIndexFromID (lo_LevelID a); j = levelIndexFromID (lo_LevelID b)
      in if i \<noteq> j then i < j else str_less (lo_LevelID a) (lo_LevelID b))"

text \<open>\<open>sort.SliceStable\<close>.\<close>

fun insertLevel :: "'d live_order \<Rightarrow> 'd live_order list \<Rightarrow> 'd live_order list" where
  "insertLevel x [] = [x]"
| "insertLevel x (y # ys) = (if levelBefore y x then y # insertLevel x ys else x # y # ys)"

definition sortOrdersByLevelIndex :: "'d live_order list \<Rightarrow> 'd live_order list" where
  "sortOrdersByLevelIndex rs = foldr insertLevel rs []"

text \<open>A resting order of an older version; its zone is resolved and stored if it has none.\<close>

definition staleVersion :: "int \<Rightarrow> 'd live_order \<Rightarrow> bool" where
  "staleVersion targetVersion r \<longleftrightarrow> lo_Status r = StatusResting \<and> lo_RefVersion r < targetVersion"

definition withZone :: "'d maker_market \<Rightarrow> 'd live_order \<Rightarrow> 'd live_order" where
  "withZone mc r = r\<lparr>lo_Zone := zoneOfOrder mc r\<rparr>"

definition storeZones :: "'d maker_market \<Rightarrow> int \<Rightarrow> 'd live_order list \<Rightarrow> ('d, 'g, unit) job" where
  "storeZones mc targetVersion = eachJ (\<lambda>r. whenJ (staleVersion targetVersion r)
     (onTracker (modifyOrder (\<lambda>r'. r'\<lparr>lo_Zone := zoneOfOrder mc r\<rparr>) (lo_LevelID r))))"

definition repriceOrder :: "'d maker_market \<Rightarrow> int \<Rightarrow> repricing_action \<Rightarrow> 'd live_order list \<Rightarrow> 'd live_order list" where
  "repriceOrder mc targetVersion action rs =
     (let stale = map (withZone mc) (filter (staleVersion targetVersion) rs);
          inZone = (\<lambda>z. filter (\<lambda>r. lo_Zone r = z) stale)
      in if action = ActionControlledRebase
         then sortOrdersByLevelIndex (inZone ''LOW'') @ sortOrdersByLevelIndex (inZone ''MID'') @
           sortOrdersByLevelIndex (filter (\<lambda>r. lo_Zone r \<noteq> ''LOW'' \<and> lo_Zone r \<noteq> ''MID'') stale)
         else inZone ''HIGH'' @ inZone ''MID'')"

definition clearFailure :: "string \<Rightarrow> ('d, 'g, unit) job" where
  "clearFailure lvl = modJ (\<lambda>s. s\<lparr>kr_rebaseFailures := dropKey lvl (kr_rebaseFailures s)\<rparr>)"

definition countFailure :: "string \<Rightarrow> ('d, 'g, unit) job" where
  "countFailure lvl = modJ (\<lambda>s. s\<lparr>kr_rebaseFailures := (kr_rebaseFailures s)(lvl := kr_rebaseFailures s lvl + 1)\<rparr>)"

definition repriceLevel :: "('d::linordered_idom, 'f, 'g, 'x) maker_lib_scheme \<Rightarrow> 'd maker_env \<Rightarrow> 'd maker_market \<Rightarrow> 'd \<Rightarrow> int \<Rightarrow>
    'd live_order \<Rightarrow> (string set \<times> string set) \<times> int \<Rightarrow> ('d, 'g, (string set \<times> string set) \<times> int) job" where
  "repriceLevel L en mc targetRef targetVersion r = (\<lambda>(taken, count).
     let lvl = lo_LevelID r in
     if maxBatchOf mc \<le> count then retJ (taken, count)
     else if lo_RemainingQty r = 0
     then thenJ (applyCancel en mc (cancelEntry DiffCancel r)) (retJ (taken, count + 1))
     else case replacementFor L mc (lo_RemainingQty r) (lo_RemainingQty r) (lo_OriginalQty r) of
         None \<Rightarrow> bindJ (applyCancel en mc (cancelEntry DiffCancel r)) (\<lambda>err. retJ (taken, if err = None then count + 1 else count))
       | Some qty \<Rightarrow>
           bindJ (drawJ (GenerateLevelPrice L mc targetRef (lo_Side r) (bandFor (zonesOf mc (lo_Side r)) (lo_Zone r)) (takenOn (lo_Side r) taken))) (\<lambda>drawn.
           case drawn of
             Inl _ \<Rightarrow> thenJ (countFailure lvl) (retJ (taken, count))
           | Inr newPrice \<Rightarrow>
               let taken' = reserve (lo_Side r) (d_String L newPrice) taken in
               thenJ (clearFailure lvl)
               (bindJ (applyCancel en mc (cancelEntry DiffCorrect r)) (\<lambda>err.
                if err \<noteq> None then retJ (taken', count)
                else thenJ (onTracker (QueueCorrection lvl \<lparr>pl_LevelID = lvl, pl_MarketID = mk_MarketID mc, pl_Side = lo_Side r,
                    pl_Price = newPrice, pl_Quantity = qty, pl_Zone = lo_Zone r, pl_RefVersion = targetVersion\<rparr>))
                  (retJ (taken', count + 1))))))"

text \<open>An order of an older version that this batch could not replace.\<close>

definition lagsBehind :: "repricing_action \<Rightarrow> int \<Rightarrow> 'd live_order \<Rightarrow> bool" where
  "lagsBehind action targetVer r \<longleftrightarrow>
     \<not> (action = ActionSelectiveReprice \<and> lo_Zone r = ''LOW'') \<and>
     ((lo_Status r = StatusPending \<or> lo_Status r = StatusOSRegistered) \<and> lo_RefVersion r < targetVer \<or>
      lo_Status r = StatusCancelling \<and> (case lo_QueuedCorrection r of None \<Rightarrow> True | Some q \<Rightarrow> pl_RefVersion q < targetVer) \<or>
      lo_Status r = StatusStale \<and> lo_RefVersion r < targetVer)"

definition finishRebase :: "('d::linordered_idom) maker_env \<Rightarrow> 'd maker_market \<Rightarrow> 'd \<Rightarrow> int \<Rightarrow> int \<Rightarrow> 'd live_order list \<Rightarrow> ('d, 'g, unit) job" where
  "finishRebase en mc targetRef targetVersion remaining rs =
     bindJ (getJ (\<lambda>s. kr_refStates s (mk_MarketID mc))) (\<lambda>found. case found of
       None \<Rightarrow> retJ ()
     | Some st \<Rightarrow>
         let targetVer = (if rs_RebaseTargetVer st = 0 then targetVersion else rs_RebaseTargetVer st) in
         bindJ (getJ (\<lambda>s. map (\<lambda>r. case Get (kr_tracker s) (lo_LevelID r) of Some r' \<Rightarrow> r' | None \<Rightarrow> r) rs)) (\<lambda>current.
         if remaining \<le> 0 \<and> \<not> list_ex (lagsBehind (rs_RebaseAction st) targetVer) current
         then
           let finalRef = (if rs_RebaseTargetRef st = 0 then targetRef else rs_RebaseTargetRef st);
               st1 = st\<lparr>rs_RebaseStartTime := 0, rs_RebaseActive := False, rs_LastRepriceRef := finalRef,
                  rs_ActiveGenerationRef := (if rs_RebaseAction st = ActionControlledRebase then finalRef else rs_ActiveGenerationRef st)\<rparr>
           in thenJ (putRef (mk_MarketID mc) st1) (modJ (\<lambda>s. s\<lparr>kr_rebaseFailures := (\<lambda>_. 0)\<rparr>))
         else putRef (mk_MarketID mc) (st\<lparr>rs_RebaseActive := True\<rparr>)))"

definition applyRefMovementReprice :: "('d::linordered_idom, 'f, 'g, 'x) maker_lib_scheme \<Rightarrow> 'd maker_env \<Rightarrow> 'd maker_market \<Rightarrow> 'd \<Rightarrow> int \<Rightarrow>
    repricing_action \<Rightarrow> ('d, 'g, int) job" where
  "applyRefMovementReprice L en mc targetRef targetVersion action =
     bindJ (allOrders en (mk_MarketID mc)) (\<lambda>rs.
     thenJ (storeZones mc targetVersion rs)
     (let ordered = repriceOrder mc targetVersion action rs in
      bindJ (foldJ (repriceLevel L en mc targetRef targetVersion) ordered (takenPrices L rs, 0)) (\<lambda>(_, count).
      thenJ (finishRebase en mc targetRef targetVersion (max 0 (int (length ordered) - count)) rs)
        (retJ count))))"

section \<open>Reconciliation of a market\<close>

definition anchor :: "('d::zero) \<Rightarrow> 'd ref_state \<Rightarrow> 'd ref_state" where
  "anchor ref st =
     (let establish = (\<lambda>x. if x \<noteq> 0 then x else if rs_LastRef st \<noteq> 0 then rs_LastRef st else if ref \<noteq> 0 then ref else x)
      in st\<lparr>rs_ActiveGenerationRef := establish (rs_ActiveGenerationRef st), rs_LastRepriceRef := establish (rs_LastRepriceRef st)\<rparr>)"

definition chooseAction :: "('d::linordered_idom, 'f, 'g, 'x) maker_lib_scheme \<Rightarrow> 'd maker_market \<Rightarrow> 'd ref_state \<Rightarrow> 'd \<Rightarrow> freshness \<Rightarrow> repricing_action" where
  "chooseAction L mc st ref fresh =
     (let base = ClassifyMovement L (rs_ActiveGenerationRef st) ref fresh (mk_Repricing mc)
      in if fresh \<noteq> FreshnessFresh then base
         else if base = ActionControlledRebase then ActionControlledRebase
         else
           let reprice = ClassifyMovement L (rs_LastRepriceRef st) ref fresh (mk_Repricing mc)
           in if reprice = ActionSelectiveReprice \<or> reprice = ActionControlledRebase then ActionSelectiveReprice else ActionKeep)"

text \<open>The target of a rebase follows the newest reference.\<close>

definition targetRebase :: "repricing_action \<Rightarrow> 'd \<Rightarrow> int \<Rightarrow> time \<Rightarrow> 'd ref_state \<Rightarrow> 'd ref_state" where
  "targetRebase action ref ver now st =
     (if action = ActionControlledRebase \<or> action = ActionSelectiveReprice
      then st\<lparr>rs_RebaseStartTime := (if rs_RebaseActive st then rs_RebaseStartTime st else now), rs_RebaseActive := True,
         rs_RebaseTargetRef := ref, rs_RebaseTargetVer := ver, rs_RebaseAction := action\<rparr>
      else if rs_RebaseActive st \<and> rs_RebaseTargetVer st < ver
      then st\<lparr>rs_RebaseTargetRef := ref, rs_RebaseTargetVer := ver\<rparr>
      else st)"

definition rebaseStep :: "('d::linordered_idom, 'f, 'g, 'x) maker_lib_scheme \<Rightarrow> 'd maker_env \<Rightarrow> 'd maker_market \<Rightarrow> 'd \<Rightarrow> int \<Rightarrow>
    repricing_action \<Rightarrow> 'd ref_state \<Rightarrow> ('d, 'g, int) job" where
  "rebaseStep L en mc ref ver action st =
     bindJ (nowJ en) (\<lambda>now.
     let st1 = targetRebase action ref ver now st in
     thenJ (putRef (mk_MarketID mc) st1)
       (if rs_RebaseActive st1
        then applyRefMovementReprice L en mc (rs_RebaseTargetRef st1) (rs_RebaseTargetVer st1) (rs_RebaseAction st1)
        else retJ 0))"

definition applyEntries :: "('d::linordered_idom, 'f, 'g, 'x) maker_lib_scheme \<Rightarrow> 'd maker_config \<Rightarrow> 'd maker_env \<Rightarrow> 'd maker_market \<Rightarrow>
    'd diff_entry list \<Rightarrow> int \<Rightarrow> ('d, 'g, int) job" where
  "applyEntries L cfg en mc = foldJ (\<lambda>e count. bindJ (applyEntry L cfg en mc e) (\<lambda>r. retJ (if r = Inr True then count + 1 else count)))"

text \<open>The ladder and its comparison with the tracker; a stale reference creates nothing.\<close>

definition ladderStep :: "('d::linordered_idom, 'f, 'g, 'x) maker_lib_scheme \<Rightarrow> 'd maker_config \<Rightarrow> 'd maker_env \<Rightarrow> 'd maker_market \<Rightarrow>
    'd \<Rightarrow> int \<Rightarrow> repricing_action \<Rightarrow> int \<Rightarrow> int \<Rightarrow> int \<Rightarrow> ('d, 'g, 'd maker_error + int) job" where
  "ladderStep L cfg en mc ref ver action bidCount askCount count =
     bindJ (getJ (\<lambda>s. GetActive (kr_tracker s))) (\<lambda>tracker.
     bindJ (drawJ (\<lambda>g. GenerateZonedDesired L 0 mc ref tracker (mk_BidZones mc) (mk_AskZones mc) ver bidCount askCount (Some g))) (\<lambda>drawn.
     case drawn of
       Inl err \<Rightarrow> retJ (Inl (LadderFailed err))
     | Inr desired \<Rightarrow>
         bindJ (askJ (ve_visit en)) (\<lambda>vis. bindJ (getJ (\<lambda>s. Diff vis desired (kr_tracker s) (mk_MarketID mc) mc)) (\<lambda>entries.
         bindJ (applyEntries L cfg en mc (if action = ActionHold then filter (\<lambda>e. de_Action e \<noteq> DiffCreate) entries else entries) count)
           (\<lambda>total. retJ (Inr total))))))"

definition reconcileBody :: "('d::linordered_idom, 'f, 'g, 'x) maker_lib_scheme \<Rightarrow> 'd maker_config \<Rightarrow> 'd maker_env \<Rightarrow> 'd maker_market \<Rightarrow>
    int \<Rightarrow> int \<Rightarrow> ('d, 'g, 'd maker_error + int) job" where
  "reconcileBody L cfg en mc bidCount askCount =
     bindJ (currentReference cfg en mc) (\<lambda>snap.
     bindJ (getJ (\<lambda>s. case kr_refStates s (mk_MarketID mc) of Some st \<Rightarrow> st | None \<Rightarrow> newRefState)) (\<lambda>st0.
     let ref = rf_Price snap; ver = rf_Version snap; fresh = rf_Freshness snap;
         st1 = anchor ref st0; action = chooseAction L mc st1 ref fresh
     in bindJ (if rs_LastUpdated st1 = 0 then nowJ en else retJ (rs_LastUpdated st1)) (\<lambda>updated.
        let st2 = st1\<lparr>rs_LastRef := ref, rs_LastVersion := ver, rs_Freshness := fresh, rs_LastUpdated := updated\<rparr> in
        thenJ (putRef (mk_MarketID mc) st2)
        (if action = ActionPause \<or> \<not> ve_hasME en then retJ (Inr 0)
         else bindJ (askJ (\<lambda>n. ve_snapshot en n (mk_MarketID mc))) (\<lambda>book. case book of
           None \<Rightarrow> retJ (Inr 0)
         | Some b \<Rightarrow>
             if mz_State b \<noteq> ''LIVE'' then retJ (Inr 0)
             else thenJ (syncWithMESnapshot L cfg en mc b)
               (bindJ (if fresh = FreshnessFresh then rebaseStep L en mc ref ver action st2 else retJ 0) (\<lambda>count.
                ladderStep L cfg en mc ref ver action bidCount askCount count)))))))"

definition ReconcileMarket :: "('d::linordered_idom, 'f, 'g, 'x) maker_lib_scheme \<Rightarrow> 'd maker_config \<Rightarrow> 'd maker_env \<Rightarrow> string \<Rightarrow>
    int \<Rightarrow> int \<Rightarrow> ('d, 'g, 'd maker_error + int) job" where
  "ReconcileMarket L cfg en marketID bidCount askCount =
     bindJ (getJ (\<lambda>s. kr_busy s marketID)) (\<lambda>busy.
     if busy then retJ (Inr 0)
     else
       let mark = (\<lambda>b. modJ (\<lambda>s. s\<lparr>kr_busy := (kr_busy s)(marketID := b)\<rparr>)) in
       thenJ (mark True)
       (bindJ (case ForMarket cfg marketID of
            None \<Rightarrow> retJ (Inl (UnknownMarket marketID))
          | Some mc \<Rightarrow> reconcileBody L cfg en mc bidCount askCount) (\<lambda>r.
        thenJ (mark False) (retJ r))))"

end
