(* ===== verification/MakerEngine.thy ===== *)
theory MakerEngine
  imports MakerRefresh
begin

text \<open>
  The event loop of the liquidity engine (\<open>internal/engine\<close>): trades, ticks and the states
  it moves through. Each event is one job over the engine's state; the debounce timer only
  says that a targeted reconciliation is due. Metrics, logs and the status snapshot of the
  HTTP endpoints are left out.
\<close>

section \<open>State\<close>

datatype engine_state = StateStarting | StateSyncing | StateRunning | StateDegraded | StateEnginePaused | StateStopped

record 'd maker_trade_event = "'d maker_trade" +
  te_TradeID :: string
  te_MakerOrderID :: string
  te_TakerOrderID :: string

datatype 'd loop_event = TradeReceived "'d maker_trade_event" | TargetedReconcile | ReconcileTick | WalletTick
  | PendingCheck | CancellingCheck | ResyncTick | ExpiryCheck

record ('d, 'g) maker_engine =
  ge_maker :: "('d, 'g) maker"
  ge_inventory :: "'d inventory"
  ge_state :: engine_state
  ge_METimeouts :: "string \<Rightarrow> int"
  ge_marketPaused :: "string \<Rightarrow> bool"
  ge_processedTrades :: "string set"
  ge_tradeHistory :: "string list"
  ge_dirtyMarkets :: "string list"
  ge_spreadBreach :: "string \<Rightarrow> time option"
  ge_reconcileDue :: bool

text \<open>
  Two more answers: the markets the matching engine says are live, and the balances of the
  wallet service, where there is a client for it.
\<close>

record 'd engine_env = "'d maker_env" +
  gv_health :: "nat \<Rightarrow> string set option"
  gv_wallet :: "(nat \<Rightarrow> (string \<times> 'd) list option) option"
  gv_MELivenessThreshold :: int

type_synonym ('d, 'g, 'a) engine_job = "(('d, 'g) maker_engine, 'a) jobs"

definition inMaker :: "('d, 'g, 'a) job \<Rightarrow> ('d, 'g, 'a) engine_job" where
  "inMaker m = (\<lambda>e. case m (ge_maker e) of None \<Rightarrow> None | Some (a, s) \<Rightarrow> Some (a, e\<lparr>ge_maker := s\<rparr>))"

definition askE :: "(nat \<Rightarrow> 'a) \<Rightarrow> ('d, 'g, 'a) engine_job" where
  "askE f = inMaker (askJ f)"

abbreviation makerEnv :: "'d engine_env \<Rightarrow> 'd maker_env" where
  "makerEnv \<equiv> maker_env.truncate"

definition nowE :: "'d engine_env \<Rightarrow> ('d, 'g, time) engine_job" where
  "nowE en = askE (ve_now en)"

definition setState :: "engine_state \<Rightarrow> ('d, 'g, unit) engine_job" where
  "setState st = modJ (\<lambda>e. e\<lparr>ge_state := st\<rparr>)"

definition livenessThreshold :: "'d engine_env \<Rightarrow> int" where
  "livenessThreshold en = (if gv_MELivenessThreshold en \<le> 0 then 3 else gv_MELivenessThreshold en)"

section \<open>Trades\<close>

definition maxTradeHistory :: nat where
  "maxTradeHistory = 1000"

definition rememberTrade :: "string \<Rightarrow> ('d, 'g) maker_engine \<Rightarrow> ('d, 'g) maker_engine" where
  "rememberTrade tradeID e =
     (let e1 = (if maxTradeHistory \<le> length (ge_tradeHistory e)
            then e\<lparr>ge_processedTrades := ge_processedTrades e - {hd (ge_tradeHistory e)}, ge_tradeHistory := tl (ge_tradeHistory e)\<rparr>
            else e)
      in e1\<lparr>ge_processedTrades := insert tradeID (ge_processedTrades e1), ge_tradeHistory := ge_tradeHistory e1 @ [tradeID]\<rparr>)"

text \<open>A fill of one of the engine's orders.\<close>

definition fillOrder :: "('d::linordered_idom) \<Rightarrow> 'd live_order \<Rightarrow> 'd tracker_state \<Rightarrow> 'd tracker_state" where
  "fillOrder qty r t =
     (if lo_Status r \<noteq> StatusResting \<and> lo_Status r \<noteq> StatusOSRegistered then t
      else
        let newRemaining = maxZero (lo_RemainingQty r - qty);
            t1 = modifyOrder (\<lambda>r'. r'\<lparr>lo_RemainingQty := newRemaining, lo_FilledQty := lo_OriginalQty r' - newRemaining\<rparr>) (lo_LevelID r) t
        in if newRemaining = 0 then Remove (lo_LevelID r) t1 else t1)"

definition breachBegins :: "'d engine_env \<Rightarrow> string \<Rightarrow> ('d, 'g, unit) engine_job" where
  "breachBegins en marketID =
     bindJ (getJ (\<lambda>e. ge_spreadBreach e marketID)) (\<lambda>active. case active of
       Some _ \<Rightarrow> retJ ()
     | None \<Rightarrow> bindJ (nowE en) (\<lambda>now. modJ (\<lambda>e. e\<lparr>ge_spreadBreach := (ge_spreadBreach e)(marketID \<mapsto> now)\<rparr>)))"

definition spreadThreshold :: "'d maker_market \<Rightarrow> int" where
  "spreadThreshold mc =
     (if 0 < rc_SpreadBreachBps (mk_Repricing mc) then rc_SpreadBreachBps (mk_Repricing mc)
      else if 0 < zb_MaxBps (zc_Mid (mk_BidZones mc)) then zb_MaxBps (zc_Mid (mk_BidZones mc)) * 2
      else 50)"

definition CheckSpreadBreach :: "('d::linordered_idom, 'f, 'g, 'x) maker_lib_scheme \<Rightarrow> 'd maker_config \<Rightarrow> 'd engine_env \<Rightarrow> string \<Rightarrow>
    ('d, 'g, bool) engine_job" where
  "CheckSpreadBreach L cfg en marketID = (case ForMarket cfg marketID of
     None \<Rightarrow> retJ False
   | Some mc \<Rightarrow>
       bindJ (askE (ve_visit en)) (\<lambda>vis.
       bindJ (getJ (\<lambda>e. InsideSpread vis (kr_tracker (ge_maker e)) marketID)) (\<lambda>(bestBid, bestAsk, ok).
       if \<not> ok \<or> bestBid = 0 \<or> bestAsk \<le> bestBid then thenJ (breachBegins en marketID) (retJ True)
       else
         let breached = of_int (spreadThreshold mc) < k_Div L (bestAsk - bestBid) bestBid * of_int 10000 in
         thenJ (if breached then breachBegins en marketID
                else modJ (\<lambda>e. e\<lparr>ge_spreadBreach := (ge_spreadBreach e)(marketID := None)\<rparr>))
           (retJ breached))))"

definition markDirty :: "string \<Rightarrow> ('d, 'g, unit) engine_job" where
  "markDirty marketID = modJ (\<lambda>e. e\<lparr>ge_dirtyMarkets := (if marketID \<in> set (ge_dirtyMarkets e) then ge_dirtyMarkets e
     else ge_dirtyMarkets e @ [marketID]), ge_reconcileDue := True\<rparr>)"

definition handleTrade :: "('d::linordered_idom, 'f, 'g, 'x) maker_lib_scheme \<Rightarrow> 'd maker_config \<Rightarrow> 'd engine_env \<Rightarrow>
    'd maker_trade_event \<Rightarrow> ('d, 'g, unit) engine_job" where
  "handleTrade L cfg en ev =
     bindJ (getJ (\<lambda>e. te_TradeID ev \<noteq> '''' \<and> te_TradeID ev \<in> ge_processedTrades e)) (\<lambda>seen.
     if seen then retJ ()
     else thenJ (whenJ (te_TradeID ev \<noteq> '''') (modJ (rememberTrade (te_TradeID ev))))
       (if te_MMSide ev = '''' then retJ ()
        else thenJ (modJ (\<lambda>e. e\<lparr>ge_inventory := ApplyTrade (maker_trade.truncate ev) (ge_inventory e)\<rparr>))
          (bindJ (inMaker (allOrders (makerEnv en) (te_MarketID ev))) (\<lambda>rs.
           let matched = find (\<lambda>r. lo_OrderID r = te_MakerOrderID ev \<or> lo_OrderID r = te_TakerOrderID ev) rs in
           thenJ (case matched of None \<Rightarrow> retJ () | Some r \<Rightarrow> inMaker (onTracker (fillOrder (te_Quantity ev) r)))
           (bindJ (CheckSpreadBreach L cfg en (te_MarketID ev)) (\<lambda>breached.
            whenJ (matched \<noteq> None \<or> breached) (markDirty (te_MarketID ev))))))))"

section \<open>Reconciliation\<close>

definition stateOrderStale :: "'d maker_config \<Rightarrow> 'd engine_env \<Rightarrow> string \<Rightarrow> ('d, 'g, bool) engine_job" where
  "stateOrderStale cfg en marketID =
     bindJ (getJ (\<lambda>e. LastSuccessfulSync (kr_tracker (ge_maker e)) marketID)) (\<lambda>lastSync.
     if lastSync = 0 then retJ True
     else bindJ (nowE en) (\<lambda>now. retJ (kc_MaxOrderStateStaleness cfg < now - lastSync)))"

definition inventoryStale :: "'d maker_config \<Rightarrow> 'd engine_env \<Rightarrow> ('d, 'g, bool) engine_job" where
  "inventoryStale cfg en = bindJ (nowE en) (\<lambda>now. getJ (\<lambda>e. IsStale now (kc_MaxBalanceStaleness cfg) (ge_inventory e)))"

definition effectiveQuote :: "('d::linordered_idom) maker_config \<Rightarrow> 'd engine_env \<Rightarrow> ('d, 'g, 'd) engine_job" where
  "effectiveQuote cfg en = bindJ (askE (ve_visit en)) (\<lambda>vis. getJ (\<lambda>e.
     EffectiveAvailableQuote vis (kr_tracker (ge_maker e)) (map mk_MarketID (kc_Markets cfg)) (ge_inventory e)))"

definition effectiveBase :: "('d::linordered_idom) engine_env \<Rightarrow> string \<Rightarrow> ('d, 'g, 'd) engine_job" where
  "effectiveBase en marketID = bindJ (askE (ve_visit en)) (\<lambda>vis. getJ (\<lambda>e.
     EffectiveAvailableBase vis (kr_tracker (ge_maker e)) marketID (ge_inventory e)))"

text \<open>One market of the full reconciliation; the result is whether it is degraded.\<close>

definition reconcileOne :: "('d::linordered_idom, 'f, 'g, 'x) maker_lib_scheme \<Rightarrow> 'd maker_config \<Rightarrow> 'd engine_env \<Rightarrow> 'd \<Rightarrow>
    'd maker_market \<Rightarrow> bool \<Rightarrow> ('d, 'g, bool) engine_job" where
  "reconcileOne L cfg en quote mc degraded =
     bindJ (getJ (\<lambda>e. ge_marketPaused e (mk_MarketID mc))) (\<lambda>paused.
     if paused then retJ True
     else bindJ (stateOrderStale cfg en (mk_MarketID mc)) (\<lambda>stale.
       if stale then retJ True
       else bindJ (effectiveBase en (mk_MarketID mc)) (\<lambda>base.
         let skew = ComputeSkew mc base quote in
         thenJ (inMaker (ReconcileMarket L cfg (makerEnv en) (mk_MarketID mc) (sk_BidCount skew) (sk_AskCount skew)))
           (retJ (degraded \<or> sk_BaseTier skew \<noteq> TierNormal \<or> sk_QuoteTier skew \<noteq> TierNormal)))))"

definition runReconcileAll :: "('d::linordered_idom, 'f, 'g, 'x) maker_lib_scheme \<Rightarrow> 'd maker_config \<Rightarrow> 'd engine_env \<Rightarrow> ('d, 'g, unit) engine_job" where
  "runReconcileAll L cfg en =
     bindJ (inventoryStale cfg en) (\<lambda>stale.
     if stale then retJ ()
     else bindJ (effectiveQuote cfg en) (\<lambda>quote.
       bindJ (foldJ (reconcileOne L cfg en quote) (kc_Markets cfg) False) (\<lambda>degraded.
       bindJ (getJ ge_state) (\<lambda>st.
         if degraded \<and> st = StateRunning then setState StateDegraded
         else if \<not> degraded \<and> st = StateDegraded then setState StateRunning
         else retJ ()))))"

definition runReconcileMarket :: "('d::linordered_idom, 'f, 'g, 'x) maker_lib_scheme \<Rightarrow> 'd maker_config \<Rightarrow> 'd engine_env \<Rightarrow> string \<Rightarrow>
    ('d, 'g, unit) engine_job" where
  "runReconcileMarket L cfg en marketID =
     bindJ (inventoryStale cfg en) (\<lambda>stale.
     if stale then retJ ()
     else case ForMarket cfg marketID of
         None \<Rightarrow> retJ ()
       | Some mc \<Rightarrow>
           bindJ (getJ (\<lambda>e. ge_marketPaused e marketID)) (\<lambda>paused.
           if paused then retJ ()
           else bindJ (stateOrderStale cfg en (mk_MarketID mc)) (\<lambda>unsynced.
             if unsynced then retJ ()
             else bindJ (effectiveQuote cfg en) (\<lambda>quote. bindJ (effectiveBase en (mk_MarketID mc)) (\<lambda>base.
               let skew = ComputeSkew mc base quote in
               thenJ (inMaker (CheckConsumedOrders L cfg (makerEnv en) (mk_MarketID mc)))
               (thenJ (inMaker (ReconcileMarket L cfg (makerEnv en) (mk_MarketID mc) (sk_BidCount skew) (sk_AskCount skew)))
                 (retJ ())))))))"

text \<open>The first market that cannot be synchronised ends the round.\<close>

primrec syncMarkets :: "('d::linordered_idom, 'f, 'g, 'x) maker_lib_scheme \<Rightarrow> 'd maker_config \<Rightarrow> 'd engine_env \<Rightarrow> 'd maker_market list \<Rightarrow>
    ('d, 'g, 'd maker_error option) engine_job" where
  "syncMarkets L cfg en [] = retJ None"
| "syncMarkets L cfg en (mc # mcs) =
     bindJ (inMaker (SyncFromOrderService L cfg (makerEnv en) (mk_MarketID mc))) (\<lambda>err. case err of
       Some e \<Rightarrow> retJ (Some e)
     | None \<Rightarrow> syncMarkets L cfg en mcs)"

definition syncAllMarkets :: "('d::linordered_idom, 'f, 'g, 'x) maker_lib_scheme \<Rightarrow> 'd maker_config \<Rightarrow> 'd engine_env \<Rightarrow>
    ('d, 'g, 'd maker_error option) engine_job" where
  "syncAllMarkets L cfg en = syncMarkets L cfg en (kc_Markets cfg)"

section \<open>Ticks\<close>

text \<open>The result is whether the balances could be read.\<close>

definition refreshWalletBalances :: "'d engine_env \<Rightarrow> ('d, 'g, bool) engine_job" where
  "refreshWalletBalances en = (case gv_wallet en of
     None \<Rightarrow> retJ True
   | Some wallet \<Rightarrow> bindJ (askE wallet) (\<lambda>balances. case balances of
       None \<Rightarrow> retJ False
     | Some bs \<Rightarrow> bindJ (nowE en) (\<lambda>now.
         thenJ (modJ (\<lambda>e. e\<lparr>ge_inventory := RefreshFromWallet now bs (ge_inventory e)\<rparr>)) (retJ True))))"

text \<open>\<open>marketPaused\<close> only has the configured markets as keys.\<close>

definition handleWalletRefresh :: "'d maker_config \<Rightarrow> 'd engine_env \<Rightarrow> ('d, 'g, unit) engine_job" where
  "handleWalletRefresh cfg en =
     thenJ (refreshWalletBalances en)
     (bindJ (inventoryStale cfg en) (\<lambda>stale.
      bindJ (getJ ge_state) (\<lambda>st.
      if stale then whenJ (st = StateRunning) (setState StateDegraded)
      else if st = StateDegraded
      then bindJ (getJ (\<lambda>e. list_ex (\<lambda>mc. ge_marketPaused e (mk_MarketID mc)) (kc_Markets cfg))) (\<lambda>anyPaused.
        whenJ (\<not> anyPaused) (setState StateRunning))
      else retJ ())))"

definition setLiveness :: "string \<Rightarrow> int \<Rightarrow> bool \<Rightarrow> ('d, 'g, unit) engine_job" where
  "setLiveness marketID n paused = modJ (\<lambda>e. e\<lparr>ge_METimeouts := (ge_METimeouts e)(marketID := n),
     ge_marketPaused := (ge_marketPaused e)(marketID := paused)\<rparr>)"

definition probe :: "'d engine_env \<Rightarrow> ('d, 'g, string set option) engine_job" where
  "probe en = (if ve_hasME en then askE (gv_health en) else retJ None)"

definition pendingCheckOne :: "('d::linordered_idom, 'f, 'g, 'x) maker_lib_scheme \<Rightarrow> 'd maker_config \<Rightarrow> 'd engine_env \<Rightarrow> string set option \<Rightarrow>
    'd maker_market \<Rightarrow> ('d, 'g, unit) engine_job" where
  "pendingCheckOne L cfg en health mc =
     (let m = mk_MarketID mc; live = (case health of None \<Rightarrow> False | Some hs \<Rightarrow> m \<in> hs)
      in thenJ (inMaker (CheckPendingTimeouts L cfg (makerEnv en) m))
         (thenJ (bindJ (getJ (\<lambda>e. (ge_METimeouts e m, ge_marketPaused e m))) (\<lambda>(misses, paused).
            if live then setLiveness m 0 False
            else setLiveness m (misses + 1) (paused \<or> livenessThreshold en \<le> misses + 1)))
         (bindJ (getJ (\<lambda>e. \<not> ge_marketPaused e m \<and> ge_METimeouts e m = 0)) (\<lambda>healthy.
          inMaker (ConfirmOSRegisteredOrders L (makerEnv en) m healthy)))))"

definition handlePendingCheck :: "('d::linordered_idom, 'f, 'g, 'x) maker_lib_scheme \<Rightarrow> 'd maker_config \<Rightarrow> 'd engine_env \<Rightarrow> ('d, 'g, unit) engine_job" where
  "handlePendingCheck L cfg en =
     bindJ (probe en) (\<lambda>health. eachJ (pendingCheckOne L cfg en health) (kc_Markets cfg))"

definition handleCancellingCheck :: "('d::linordered_idom, 'f, 'g, 'x) maker_lib_scheme \<Rightarrow> 'd maker_config \<Rightarrow> 'd engine_env \<Rightarrow> ('d, 'g, unit) engine_job" where
  "handleCancellingCheck L cfg en = eachJ (\<lambda>mc. inMaker (CheckCancellingTimeouts L cfg (makerEnv en) (mk_MarketID mc))) (kc_Markets cfg)"

definition expiryCheckOne :: "('d::linordered_idom, 'f, 'g, 'x) maker_lib_scheme \<Rightarrow> 'd maker_config \<Rightarrow> 'd engine_env \<Rightarrow> 'd maker_market \<Rightarrow> ('d, 'g, unit) engine_job" where
  "expiryCheckOne L cfg en mc =
     bindJ (getJ (\<lambda>e. ge_marketPaused e (mk_MarketID mc))) (\<lambda>paused.
     if paused then retJ ()
     else thenJ (inMaker (CheckConsumedOrders L cfg (makerEnv en) (mk_MarketID mc)))
       (thenJ (inMaker (CheckExpiredOrders L cfg (makerEnv en) (mk_MarketID mc)))
       (bindJ (CheckSpreadBreach L cfg en (mk_MarketID mc)) (\<lambda>breached. whenJ breached (markDirty (mk_MarketID mc))))))"

definition handleExpiryCheck :: "('d::linordered_idom, 'f, 'g, 'x) maker_lib_scheme \<Rightarrow> 'd maker_config \<Rightarrow> 'd engine_env \<Rightarrow> ('d, 'g, unit) engine_job" where
  "handleExpiryCheck L cfg en = eachJ (expiryCheckOne L cfg en) (kc_Markets cfg)"

section \<open>The event loop\<close>

text \<open>A tick acts only while the engine runs, degraded or not.\<close>

definition whileRunning :: "('d, 'g, unit) engine_job \<Rightarrow> ('d, 'g, unit) engine_job" where
  "whileRunning m = bindJ (getJ ge_state) (\<lambda>st. whenJ (st = StateRunning \<or> st = StateDegraded) m)"

definition reconcileDirty :: "('d::linordered_idom, 'f, 'g, 'x) maker_lib_scheme \<Rightarrow> 'd maker_config \<Rightarrow> 'd engine_env \<Rightarrow> ('d, 'g, unit) engine_job" where
  "reconcileDirty L cfg en =
     bindJ (askE (ve_visit en)) (\<lambda>vis. bindJ (getJ ge_dirtyMarkets) (\<lambda>dirty.
     eachJ (\<lambda>m. thenJ (modJ (\<lambda>e. e\<lparr>ge_dirtyMarkets := removeAll m (ge_dirtyMarkets e)\<rparr>)) (runReconcileMarket L cfg en m)) (vis dirty)))"

definition handleEvent :: "('d::linordered_idom, 'f, 'g, 'x) maker_lib_scheme \<Rightarrow> 'd maker_config \<Rightarrow> 'd engine_env \<Rightarrow> 'd loop_event \<Rightarrow>
    ('d, 'g, unit) engine_job" where
  "handleEvent L cfg en event = (case event of
     TradeReceived ev \<Rightarrow> handleTrade L cfg en ev
   | TargetedReconcile \<Rightarrow> thenJ (modJ (\<lambda>e. e\<lparr>ge_reconcileDue := False\<rparr>)) (whileRunning (reconcileDirty L cfg en))
   | ReconcileTick \<Rightarrow> whileRunning (thenJ (modJ (\<lambda>e. e\<lparr>ge_dirtyMarkets := []\<rparr>)) (runReconcileAll L cfg en))
   | WalletTick \<Rightarrow> handleWalletRefresh cfg en
   | PendingCheck \<Rightarrow> handlePendingCheck L cfg en
   | CancellingCheck \<Rightarrow> whileRunning (handleCancellingCheck L cfg en)
   | ResyncTick \<Rightarrow> whileRunning (thenJ (syncAllMarkets L cfg en) (retJ ()))
   | ExpiryCheck \<Rightarrow> whileRunning (handleExpiryCheck L cfg en))"

text \<open>Startup: the first synchronisation must succeed; a market that is not live starts paused.\<close>

definition startEngine :: "('d::linordered_idom, 'f, 'g, 'x) maker_lib_scheme \<Rightarrow> 'd maker_config \<Rightarrow> 'd engine_env \<Rightarrow>
    ('d, 'g, 'd maker_error option) engine_job" where
  "startEngine L cfg en =
     thenJ (setState StateStarting)
     (thenJ (refreshWalletBalances en)
     (thenJ (setState StateSyncing)
     (bindJ (syncAllMarkets L cfg en) (\<lambda>err. case err of
        Some e \<Rightarrow> retJ (Some e)
      | None \<Rightarrow>
          thenJ (if ve_hasME en
             then bindJ (askE (gv_health en)) (\<lambda>health.
               eachJ (\<lambda>mc. let m = mk_MarketID mc in
                 if (case health of None \<Rightarrow> False | Some hs \<Rightarrow> m \<in> hs) then setLiveness m 0 False
                 else setLiveness m (livenessThreshold en) True) (kc_Markets cfg))
             else retJ ())
          (thenJ (setState StateRunning)
          (thenJ (runReconcileAll L cfg en) (retJ None)))))))"

end
