(* ===== verification/MakerLadder.thy ===== *)
theory MakerLadder
  imports MakerIDs
begin

text \<open>
  What the zoned ladder guarantees: a level that has an order keeps its price, any other
  level gets a price inside its zone, on its side of the reference and different from the
  prices before it, and the zone of a level is the one its ID resolves to.
\<close>

section \<open>Prices\<close>

definition zoneBounds :: "('d::linordered_idom, 'f, 'g, 'x) maker_lib_scheme \<Rightarrow> 'd \<Rightarrow> string \<Rightarrow> zone_band \<Rightarrow> 'd \<times> 'd" where
  "zoneBounds L ref s band =
     (let near = bpsMultiplier L (zb_MinBps band); far = bpsMultiplier L (zb_MaxBps band)
      in if s = ''BUY'' then (k_Div L ref far, k_Div L ref near) else (ref * near, ref * far))"

definition inZone :: "('d::linordered_idom, 'f, 'g, 'x) maker_lib_scheme \<Rightarrow> 'd \<Rightarrow> string \<Rightarrow> zone_band \<Rightarrow> 'd \<Rightarrow> bool" where
  "inZone L ref s band p \<longleftrightarrow> fst (zoneBounds L ref s band) \<le> p \<and> p \<le> snd (zoneBounds L ref s band) \<and>
     (if s = ''BUY'' then p < ref else s = ''SELL'' \<longrightarrow> ref < p)"

lemma yields_Div: "yields (Div L x y) (\<lambda>z. z = k_Div L x y)"
  by (simp add: Div_def yields_panic yields_drawn)

lemma yields_zoneRange: "yields (zoneRange L ref s band) (\<lambda>x. x = zoneBounds L ref s band)"
  by (auto simp: zoneRange_def zoneBounds_def bpsMultiplier_def Let_def
      intro!: draw_intros yields_bind[OF yields_Div])

lemma yields_tryPrices:
  "yields (tryPrices L mc ref s taken lo hi tick n k)
     (\<lambda>p. lo \<le> p \<and> p \<le> hi \<and> (if s = ''BUY'' then p < ref else s = ''SELL'' \<longrightarrow> ref < p) \<and> d_String L p \<notin> taken)"
proof (induction k)
  case 0
  show ?case by (simp add: yields_err)
next
  case (Suc k)
  then show ?case
    unfolding tryPrices.simps(2) Let_def by (intro yields_any yields_if yields_drawn) (auto simp: not_less)
qed

lemma yields_GenerateLevelPrice:
  "yields (GenerateLevelPrice L mc ref s band taken) (\<lambda>p. inZone L ref s band p \<and> d_String L p \<notin> taken)"
  unfolding GenerateLevelPrice_def
proof (rule yields_bind[OF yields_zoneRange])
  fix x assume x: "x = zoneBounds L ref s band"
  show "yields (case x of (minPrice, maxPrice) \<Rightarrow>
      let tickSize = tickSizeOf L mc in
      bindD (Div L (maxPrice - minPrice) tickSize) (\<lambda>ticks.
        let rangeTicks = k_IntPart L (k_Floor L ticks) in
        if rangeTicks \<le> 0 then
          (let normalised = roundToTick L (k_Div L (minPrice + maxPrice) (of_int 2)) tickSize
           in if normalised < minPrice \<or> maxPrice < normalised then drawErr (OutOfZone normalised minPrice maxPrice)
              else if s = ''BUY'' \<and> \<not> normalised < ref then drawErr (NotBelowRef normalised ref)
              else if s = ''SELL'' \<and> \<not> ref < normalised then drawErr (NotAboveRef normalised ref)
              else if d_String L normalised \<in> taken then drawErr (PriceTaken normalised)
              else drawn normalised)
        else tryPrices L mc ref s taken minPrice maxPrice tickSize rangeTicks maxPriceRetries))
     (\<lambda>p. inZone L ref s band p \<and> d_String L p \<notin> taken)"
    unfolding Let_def split_beta
    by (intro yields_any yields_if yields_drawn yields_err yields_mono[OF yields_tryPrices])
      (auto simp: x inZone_def not_less)
qed

section \<open>Levels\<close>

text \<open>An order holds the price of its level.\<close>

definition holdsPrice :: "(string \<Rightarrow> 'd active_level option) \<Rightarrow> string \<Rightarrow> bool" where
  "holdsPrice tracker levelID =
     (case tracker levelID of None \<Rightarrow> False | Some a \<Rightarrow> isActivePricingStatus (al_Status a))"

text \<open>The level in a slot of its side, given the prices of the slots before it.\<close>

definition quoteOk :: "('d::linordered_idom, 'f, 'g, 'x) maker_lib_scheme \<Rightarrow> 'd maker_market \<Rightarrow> 'd \<Rightarrow> string \<Rightarrow>
    (string \<Rightarrow> 'd active_level option) \<Rightarrow> int \<Rightarrow> string \<Rightarrow> zone_band \<Rightarrow> int \<Rightarrow> string set \<Rightarrow> 'd maker_level \<Rightarrow> bool" where
  "quoteOk L mc ref s tracker ver zone band idx taken l \<longleftrightarrow>
     pl_LevelID l = levelIDOf (mk_MarketID mc) (sideLabel s) idx \<and> pl_MarketID l = mk_MarketID mc \<and>
     pl_Side l = s \<and> pl_Zone l = zone \<and>
     (case tracker (pl_LevelID l) of
        Some a \<Rightarrow>
          if isActivePricingStatus (al_Status a)
          then pl_Price l = al_Price a \<and> pl_RefVersion l = al_RefVersion a \<and> (al_Quantity a = 0 \<or> pl_Quantity l = al_Quantity a)
          else inZone L ref s band (pl_Price l) \<and> pl_RefVersion l = ver \<and> d_String L (pl_Price l) \<notin> taken
      | None \<Rightarrow> inZone L ref s band (pl_Price l) \<and> pl_RefVersion l = ver \<and> d_String L (pl_Price l) \<notin> taken)"

lemma yields_generateLevel:
  "yields (generateLevel L mc ref s base tracker ver zone band slot idx taken)
     (\<lambda>(l, taken'). quoteOk L mc ref s tracker ver zone band idx taken l \<and>
        taken' = insert (d_String L (pl_Price l)) taken)"
proof -
  let ?id = "levelIDOf (mk_MarketID mc) (sideLabel s) idx"
  let ?P = "\<lambda>(l, taken'). quoteOk L mc ref s tracker ver zone band idx taken l \<and> taken' = insert (d_String L (pl_Price l)) taken"
  have fresh: "yields (bindD (wrapErr (AtLevel ?id zone) (GenerateLevelPrice L mc ref s band taken)) (\<lambda>price.
      bindD q (\<lambda>qty. drawn (\<lparr>pl_LevelID = ?id, pl_MarketID = mk_MarketID mc, pl_Side = s, pl_Price = price,
        pl_Quantity = qty, pl_Zone = zone, pl_RefVersion = ver\<rparr>, insert (d_String L price) taken)))) ?P"
    if "\<not> holdsPrice tracker ?id" for q
    by (rule yields_bind[OF yields_wrap[OF yields_GenerateLevelPrice]], rule yields_any, rule yields_drawn)
      (use that in \<open>auto simp: quoteOk_def holdsPrice_def split: option.splits\<close>)
  show ?thesis
  proof (cases "holdsPrice tracker ?id")
    case True
    then obtain a where a: "tracker ?id = Some a" "isActivePricingStatus (al_Status a)"
      by (auto simp: holdsPrice_def split: option.splits)
    let ?q = "ResolveLevelQuantity L mc base zone slot (zb_Count band) True"
    have "yields (bindD (if al_Quantity a = 0 then ?q else drawn (al_Quantity a)) (\<lambda>lockedQty.
        drawn (\<lparr>pl_LevelID = ?id, pl_MarketID = mk_MarketID mc, pl_Side = s, pl_Price = al_Price a,
          pl_Quantity = lockedQty, pl_Zone = zone, pl_RefVersion = al_RefVersion a\<rparr>,
          insert (d_String L (al_Price a)) taken))) ?P"
      by (rule yields_bind[where Q = "\<lambda>x. al_Quantity a = 0 \<or> x = al_Quantity a"])
        (auto simp: quoteOk_def a intro!: yields_drawn simp: yields_def drawn_def)
    with a show ?thesis by (simp add: generateLevel_def Let_def)
  next
    case False
    with fresh[OF False] show ?thesis
      by (auto simp: generateLevel_def Let_def holdsPrice_def split: option.splits)
  qed
qed

text \<open>The levels of consecutive slots, with the zone and the band of each.\<close>

primrec quotes :: "('d::linordered_idom, 'f, 'g, 'x) maker_lib_scheme \<Rightarrow> 'd maker_market \<Rightarrow> 'd \<Rightarrow> string \<Rightarrow>
    (string \<Rightarrow> 'd active_level option) \<Rightarrow> int \<Rightarrow> (int \<Rightarrow> string \<times> zone_band) \<Rightarrow> int \<Rightarrow> string set \<Rightarrow> 'd maker_level list \<Rightarrow> bool" where
  "quotes L mc ref s tracker ver zb idx taken [] = True"
| "quotes L mc ref s tracker ver zb idx taken (l # ls) =
     (quoteOk L mc ref s tracker ver (fst (zb idx)) (snd (zb idx)) idx taken l \<and>
      quotes L mc ref s tracker ver zb (idx + 1) (insert (d_String L (pl_Price l)) taken) ls)"

definition priceKeys :: "('d, 'f, 'g, 'x) maker_lib_scheme \<Rightarrow> 'd maker_level list \<Rightarrow> string set" where
  "priceKeys L ls = (\<lambda>l. d_String L (pl_Price l)) ` set ls"

lemma priceKeys_simps [simp]:
  "priceKeys L [] = {}"
  "priceKeys L (l # ls) = insert (d_String L (pl_Price l)) (priceKeys L ls)"
  by (simp_all add: priceKeys_def)

lemma quotes_append:
  "quotes L mc ref s tracker ver zb idx taken (xs @ ys) \<longleftrightarrow>
   quotes L mc ref s tracker ver zb idx taken xs \<and>
   quotes L mc ref s tracker ver zb (idx + int (length xs)) (taken \<union> priceKeys L xs) ys"
  by (induction xs arbitrary: idx taken) (simp_all add: algebra_simps)

lemma quotes_cong:
  assumes "quotes L mc ref s tracker ver zb idx taken ls"
    and "\<And>i. idx \<le> i \<Longrightarrow> i < idx + int (length ls) \<Longrightarrow> zb i = zb' i"
  shows "quotes L mc ref s tracker ver zb' idx taken ls"
  using assms by (induction ls arbitrary: idx taken) auto

lemma quotes_nth:
  "quotes L mc ref s tracker ver zb idx taken ls \<Longrightarrow> i < length ls \<Longrightarrow>
   quoteOk L mc ref s tracker ver (fst (zb (idx + int i))) (snd (zb (idx + int i))) (idx + int i)
     (taken \<union> priceKeys L (take i ls)) (ls ! i)"
proof (induction ls arbitrary: idx taken i)
  case (Cons l ls)
  show ?case
  proof (cases i)
    case (Suc j)
    with Cons.prems Cons.IH[of "idx + 1" "insert (d_String L (pl_Price l)) taken" j]
    show ?thesis by (simp add: add.assoc add.commute[of 1])
  qed (use Cons.prems in simp)
qed simp

lemma yields_generateSlots:
  "yields (generateSlots L mc ref s base tracker ver zone band n slot idx taken)
     (\<lambda>(ls, taken'). length ls = n \<and> quotes L mc ref s tracker ver (\<lambda>_. (zone, band)) idx taken ls \<and>
        taken' = taken \<union> priceKeys L ls)"
proof (induction n arbitrary: slot idx taken)
  case 0
  show ?case by (simp add: yields_drawn)
next
  case (Suc n)
  show ?case
    unfolding generateSlots.simps(2) split_beta
    by (rule yields_bind[OF yields_generateLevel], rule yields_bind[OF Suc.IH], rule yields_drawn) auto
qed

text \<open>The zone of a slot and its band.\<close>

definition zoneAt :: "zone_config \<Rightarrow> int \<Rightarrow> string \<times> zone_band" where
  "zoneAt z idx =
     (if idx \<le> zb_Count (zc_Low z) then (''LOW'', zc_Low z)
      else if idx \<le> zb_Count (zc_Low z) + zb_Count (zc_Mid z) then (''MID'', zc_Mid z)
      else (''HIGH'', zc_High z))"

definition counts_ok :: "zone_config \<Rightarrow> bool" where
  "counts_ok z \<longleftrightarrow> 0 \<le> zb_Count (zc_Low z) \<and> 0 \<le> zb_Count (zc_Mid z) \<and> 0 \<le> zb_Count (zc_High z)"

lemma yields_generateSide:
  assumes z: "counts_ok z"
  shows "yields (generateSide L mc ref s z base tracker taken ver)
     (\<lambda>(ls, taken'). int (length ls) = TotalLevels z \<and> quotes L mc ref s tracker ver (zoneAt z) 1 taken ls)"
proof -
  let ?q = "\<lambda>zb. quotes L mc ref s tracker ver zb"
  have "?q (zoneAt z) 1 taken (low @ mid @ high)"
    if "?q (\<lambda>_. (''LOW'', zc_Low z)) 1 taken low" "length low = nat (zb_Count (zc_Low z))"
      "?q (\<lambda>_. (''MID'', zc_Mid z)) (1 + int (length low)) (taken \<union> priceKeys L low) mid" "length mid = nat (zb_Count (zc_Mid z))"
      "?q (\<lambda>_. (''HIGH'', zc_High z)) (1 + int (length (low @ mid))) (taken \<union> priceKeys L low \<union> priceKeys L mid) high"
    for low mid high
  proof -
    have "?q (zoneAt z) 1 taken low"
      by (rule quotes_cong[OF that(1)]) (use that(2) z in \<open>auto simp: zoneAt_def counts_ok_def\<close>)
    moreover have "?q (zoneAt z) (1 + int (length low)) (taken \<union> priceKeys L low) mid"
      by (rule quotes_cong[OF that(3)]) (use that(2,4) z in \<open>auto simp: zoneAt_def counts_ok_def\<close>)
    moreover have "?q (zoneAt z) (1 + int (length (low @ mid))) (taken \<union> priceKeys L low \<union> priceKeys L mid) high"
      by (rule quotes_cong[OF that(5)]) (use that(2,4) z in \<open>auto simp: zoneAt_def counts_ok_def\<close>)
    ultimately show ?thesis by (simp add: quotes_append algebra_simps)
  qed
  then show ?thesis
    unfolding generateSide_def Let_def split_beta
    by (intro yields_bind[OF yields_generateSlots] yields_drawn)
      (use z in \<open>auto simp: TotalLevels_def counts_ok_def split: prod.splits\<close>)
qed

section \<open>Zones\<close>

lemma AllocateZones_counts: "counts_ok z \<Longrightarrow> counts_ok (AllocateZones n z)"
  by (auto simp: AllocateZones_def counts_ok_def Let_def DefaultZoneConfig_def)

definition fullZones :: "zone_config \<Rightarrow> zone_config" where
  "fullZones z = (if TotalLevels z = 0 then DefaultZoneConfig else z)"

lemma fullZones_ok: "counts_ok z \<Longrightarrow> counts_ok (fullZones z)"
  by (simp add: fullZones_def counts_ok_def DefaultZoneConfig_def)

lemma fullZones_id: "fullZones (fullZones z) = fullZones z"
  by (simp add: fullZones_def)

lemma AllocateZones_full: "AllocateZones n (fullZones z) = AllocateZones n z"
  by (simp add: AllocateZones_def fullZones_def DefaultZoneConfig_def TotalLevels_def)

lemma AllocateZones_total:
  assumes "counts_ok z"
  shows "TotalLevels (AllocateZones n z) = min (max n 0) (TotalLevels (fullZones z))"
  using assms by (auto simp: AllocateZones_def fullZones_def counts_ok_def Let_def TotalLevels_def DefaultZoneConfig_def)

text \<open>Zones are filled from the reference outwards: a level that is allocated keeps its zone.\<close>

lemma AllocateZones_zone:
  assumes "counts_ok z" and "1 \<le> i" and "i \<le> TotalLevels (AllocateZones n z)"
  shows "fst (zoneAt (AllocateZones n z) i) = ResolveZoneForLevel i z"
  using assms unfolding AllocateZones_total[OF assms(1)]
  by (auto simp: AllocateZones_def fullZones_def counts_ok_def Let_def TotalLevels_def DefaultZoneConfig_def
      zoneAt_def ResolveZoneForLevel_def split: if_splits)

section \<open>The ladder\<close>

lemma yields_zonedDesired:
  assumes "counts_ok bz" and "counts_ok az"
  shows "yields (zonedDesired L mc ref tracker bz az ver nb na)
     (\<lambda>ls. 0 < ref \<and> (\<exists>bids asks. ls = bids @ asks \<and>
        int (length bids) = TotalLevels (AllocateZones nb bz) \<and> int (length asks) = TotalLevels (AllocateZones na az) \<and>
        quotes L mc ref ''BUY'' tracker ver (zoneAt (AllocateZones nb bz)) 1 {} bids \<and>
        quotes L mc ref ''SELL'' tracker ver (zoneAt (AllocateZones na az)) 1 {} asks))"
proof (cases "ref = 0 \<or> ref < 0")
  case True
  then show ?thesis by (simp add: zonedDesired_def yields_err)
next
  case False
  then have "0 < ref" by auto
  with False show ?thesis
    unfolding zonedDesired_def Let_def fullZones_def[symmetric] AllocateZones_full split_beta
    by (simp only: if_False)
      (rule yields_bind[OF yields_wrap[OF yields_generateSide[OF AllocateZones_counts[OF assms(1)]]]],
        rule yields_bind[OF yields_wrap[OF yields_generateSide[OF AllocateZones_counts[OF assms(2)]]]],
        rule yields_drawn, clarsimp, blast)
qed

end
