(* ===== verification/MakerDiff.thy ===== *)
theory MakerDiff
  imports MakerLadder "HOL-Library.Multiset"
begin

text \<open>
  The tracker as a finite map from level IDs to orders, whatever order its ranges take, its
  generations, and the comparison with the desired ladder: an action per level, none for a
  ladder that is in place.
\<close>

section \<open>Ranges\<close>

text \<open>A range visits every key once.\<close>

definition visits :: "(string list \<Rightarrow> string list) \<Rightarrow> bool" where
  "visits vis \<longleftrightarrow> (\<forall>ks. distinct ks \<longrightarrow> mset (vis ks) = mset ks)"

lemma visits_id: "visits (\<lambda>ks. ks)"
  by (simp add: visits_def)

lemma visits_rev: "visits rev"
  by (simp add: visits_def)

lemma range_map_mset:
  assumes "visits vis" and d: "distinct (map fst m)"
  shows "mset (range_map vis m) = mset m"
proof -
  let ?f = "\<lambda>k. map_option (Pair k) (map_of m k)"
  have "mset (List.map_filter ?f ks) = image_mset (the \<circ> ?f) (filter_mset (\<lambda>k. ?f k \<noteq> None) (mset ks))" for ks
    by (induction ks) (auto simp: List.map_filter_def)
  moreover have "mset (vis (map fst m)) = mset (map fst m)" using assms by (simp add: visits_def)
  ultimately have "mset (range_map vis m) = mset (List.map_filter ?f (map fst m))" by (simp add: range_map_def)
  also have "List.map_filter ?f (map fst m) = m"
  proof -
    have "List.map_filter (\<lambda>k. map_option (Pair k) (map_of m k)) (map fst xs) = xs" if "set xs \<subseteq> set m" for xs
      using that d by (induction xs) (auto simp: List.map_filter_simps map_of_is_SomeI)
    then show ?thesis by blast
  qed
  finally show ?thesis .
qed

lemma range_map_set: "visits vis \<Longrightarrow> distinct (map fst m) \<Longrightarrow> set (range_map vis m) = set m"
  by (metis range_map_mset mset_eq_setD)

lemma range_map_distinct: "visits vis \<Longrightarrow> distinct (map fst m) \<Longrightarrow> distinct (map fst (range_map vis m))"
  using range_map_mset[of vis m] mset_eq_imp_distinct_iff[of "map fst (range_map vis m)" "map fst m"] by simp

section \<open>The tracker as a map\<close>

definition tracker_ok :: "'d tracker_state \<Rightarrow> bool" where
  "tracker_ok t \<longleftrightarrow> distinct (map fst (tk_orders t)) \<and>
     (\<forall>(k, r)\<in>set (tk_orders t). lo_LevelID r = k \<and> lo_Generation r \<le> tk_generations t k)"

lemma tracker_okD:
  assumes "tracker_ok t" and "Get t lvl = Some r"
  shows "lo_LevelID r = lvl" and "lo_Generation r \<le> tk_generations t lvl"
  using assms by (auto simp: tracker_ok_def Get_def dest!: map_of_SomeD)

lemma tracker_ok_Get:
  assumes "distinct (map fst (tk_orders t))"
    and "\<And>lvl r. Get t lvl = Some r \<Longrightarrow> lo_LevelID r = lvl \<and> lo_Generation r \<le> tk_generations t lvl"
  shows "tracker_ok t"
  using assms by (fastforce simp: tracker_ok_def Get_def)

lemma Get_putOrder: "Get (putOrder k r t) lvl = (if lvl = k then Some r else Get t lvl)"
  by (simp add: Get_def putOrder_def AList.update_conv')

lemma Get_Remove: "Get (Remove k t) lvl = (if lvl = k then None else Get t lvl)"
  by (simp add: Get_def Remove_def AList.delete_conv')

lemma Get_modify: "Get (modifyOrder f k t) lvl = (if lvl = k then map_option f (Get t k) else Get t lvl)"
  by (auto simp: modifyOrder_def Get_putOrder split: option.splits)

lemma gen_modify: "tk_generations (modifyOrder f k t) = tk_generations t"
  by (auto simp: modifyOrder_def putOrder_def split: option.splits)

lemma gen_put: "tk_generations (putOrder k r t) = tk_generations t"
  by (simp add: putOrder_def)

lemma gen_max: "tk_generations (SetMaxGeneration k g t) lvl = (if lvl = k then max g (tk_generations t k) else tk_generations t lvl)"
  by (auto simp: SetMaxGeneration_def max_def)

lemma Get_max: "Get (SetMaxGeneration k g t) lvl = Get t lvl"
  by (simp add: SetMaxGeneration_def Get_def)

lemmas tracker_maps = Get_putOrder Get_Remove Get_modify Get_max gen_modify gen_put gen_max

lemma keys_put: "distinct (map fst (tk_orders t)) \<Longrightarrow> distinct (map fst (tk_orders (putOrder k r t)))"
  by (simp add: putOrder_def AList.distinct_update)

lemma keys_modify: "distinct (map fst (tk_orders t)) \<Longrightarrow> distinct (map fst (tk_orders (modifyOrder f k t)))"
  by (auto simp: modifyOrder_def keys_put split: option.splits)

lemma keys_Remove: "distinct (map fst (tk_orders t)) \<Longrightarrow> distinct (map fst (tk_orders (Remove k t)))"
  by (simp add: Remove_def AList.distinct_delete)

lemma keys_max: "tk_orders (SetMaxGeneration k g t) = tk_orders t"
  by (simp add: SetMaxGeneration_def)

lemmas tracker_keys = keys_put keys_modify keys_Remove keys_max

subsection \<open>Every operation keeps it\<close>

lemma ok_modify:
  assumes "tracker_ok t" and "\<And>r. lo_LevelID (f r) = lo_LevelID r \<and> lo_Generation (f r) = lo_Generation r"
  shows "tracker_ok (modifyOrder f k t)"
proof (rule tracker_ok_Get)
  show "distinct (map fst (tk_orders (modifyOrder f k t)))" using assms(1) by (simp add: tracker_ok_def keys_modify)
  fix lvl r assume "Get (modifyOrder f k t) lvl = Some r"
  then obtain r0 where "Get t lvl = Some r0" "lo_LevelID r = lo_LevelID r0" "lo_Generation r = lo_Generation r0"
    using assms(2) by (auto simp: Get_modify split: if_splits)
  with tracker_okD[OF assms(1)] show "lo_LevelID r = lvl \<and> lo_Generation r \<le> tk_generations (modifyOrder f k t) lvl"
    by (simp add: gen_modify)
qed

lemma ok_put:
  assumes "tracker_ok t" and "lo_LevelID r = k" and "lo_Generation r \<le> tk_generations t k"
  shows "tracker_ok (putOrder k r t)"
  by (rule tracker_ok_Get)
    (use assms tracker_okD[OF assms(1)] in \<open>auto simp: tracker_ok_def keys_put Get_putOrder gen_put split: if_splits\<close>)

lemma ok_gens:
  assumes "tracker_ok t" and "tk_orders t' = tk_orders t"
    and "\<And>k r. Get t k = Some r \<Longrightarrow> lo_Generation r \<le> tk_generations t' k"
  shows "tracker_ok t'"
proof (rule tracker_ok_Get)
  have G: "Get t' k = Get t k" for k using assms(2) by (simp add: Get_def)
  show "distinct (map fst (tk_orders t'))" using assms by (simp add: tracker_ok_def)
  fix lvl r assume "Get t' lvl = Some r"
  with assms(3) tracker_okD[OF assms(1)] G show "lo_LevelID r = lvl \<and> lo_Generation r \<le> tk_generations t' lvl" by simp
qed

lemma ok_max: "tracker_ok t \<Longrightarrow> tracker_ok (SetMaxGeneration k g t)"
  by (rule ok_gens) (auto simp: keys_max gen_max dest: tracker_okD(2) intro: max.coboundedI2)

lemma ok_SetPending: "tracker_ok t \<Longrightarrow> tracker_ok (SetPending now lvl oid coid gen l t)"
  unfolding SetPending_def by (rule ok_put[OF ok_max]) (simp_all add: gen_max)

lemma ok_NextGeneration: "tracker_ok t \<Longrightarrow> tracker_ok (snd (NextGeneration lvl t))"
  by (rule ok_gens) (use tracker_okD in \<open>fastforce simp: NextGeneration_def Let_def\<close>)+

lemma ok_Remove: "tracker_ok t \<Longrightarrow> tracker_ok (Remove lvl t)"
proof (rule tracker_ok_Get)
  assume ok: "tracker_ok t"
  then show "distinct (map fst (tk_orders (Remove lvl t)))" by (simp add: tracker_ok_def keys_Remove)
  fix k r assume "Get (Remove lvl t) k = Some r"
  then have "Get t k = Some r" by (simp add: Get_Remove split: if_splits)
  from tracker_okD[OF ok this] show "lo_LevelID r = k \<and> lo_Generation r \<le> tk_generations (Remove lvl t) k"
    by (simp add: Remove_def)
qed

lemma ok_RecordSync: "tracker_ok t \<Longrightarrow> tracker_ok (RecordSync now m t)"
  by (simp add: tracker_ok_def RecordSync_def)

lemma ok_NewTracker: "tracker_ok NewTracker"
  by (simp add: tracker_ok_def NewTracker_def)

lemmas tracker_modifiers = SetKafkaPublished_def SetOSRegistered_def SetResting_def SetCancelling_def
  QueueCorrection_def SetStale_def

lemma ok_modifiers:
  assumes "tracker_ok t"
  shows "tracker_ok (SetKafkaPublished lvl b t)" and "tracker_ok (SetOSRegistered now lvl oid q q' t)"
    and "tracker_ok (SetResting lvl oid q q' t)" and "tracker_ok (SetCancelling now lvl t)"
    and "tracker_ok (QueueCorrection lvl l t)" and "tracker_ok (SetStale lvl t)"
  using assms by (auto simp: tracker_modifiers fillView_def intro!: ok_modify)

lemma gen_refresh: "lo_Generation (refreshOrder now m z r e) = max (lo_Generation e) (so_Generation r)"
  by (auto simp: refreshOrder_def fillView_def Let_def max_def)

lemma level_refresh: "lo_LevelID (refreshOrder now m z r e) = lo_LevelID e"
  by (auto simp: refreshOrder_def fillView_def Let_def)

lemma ok_syncOrder:
  assumes "tracker_ok t"
  shows "tracker_ok (fst (syncOrder now m res r (t, n)))"
proof (cases "Get t (so_LevelID r)")
  case None
  have "tracker_ok (SetMaxGeneration k g (SetMaxGeneration k' g' t))" for k g k' g'
    by (rule ok_max[OF ok_max[OF assms]])
  then show ?thesis
    using None by (auto simp: syncOrder_def Let_def recoveredOrder_def gen_max intro!: ok_put)
next
  case (Some e)
  note e = tracker_okD[OF assms Some]
  show ?thesis
  proof (cases "lo_Generation e < so_Generation r")
    case True
    have "tracker_ok (t\<lparr>tk_generations := (tk_generations t)(so_LevelID r := so_Generation r)\<rparr>)"
      by (rule ok_gens[OF assms]) (use True Some tracker_okD[OF assms] in auto)
    then show ?thesis
      using Some True e by (auto simp: syncOrder_def Let_def gen_refresh level_refresh intro!: ok_put)
  next
    case False
    then show ?thesis
      using Some e assms by (auto simp: syncOrder_def Let_def gen_refresh level_refresh intro!: ok_put)
  qed
qed

lemma ok_fold_sync: "tracker_ok t \<Longrightarrow> tracker_ok (fst (fold (syncOrder now m res) rs (t, n)))"
proof (induction rs arbitrary: t n)
  case (Cons r rs)
  obtain t' n' where s: "syncOrder now m res r (t, n) = (t', n')" by force
  with ok_syncOrder[OF Cons.prems, of now m res r n] have "tracker_ok t'" by simp
  with Cons.IH s show ?case by simp
qed simp

lemma ok_SyncFromOrders: "tracker_ok t \<Longrightarrow> tracker_ok (snd (SyncFromOrders vis now m rs res t))"
  unfolding SyncFromOrders_def by (auto simp: split_beta intro!: ok_RecordSync ok_fold_sync)

section \<open>Orders of a market\<close>

lemma AllMarkets_distinct:
  assumes "visits vis" and "tracker_ok t"
  shows "distinct (map lo_LevelID (AllMarkets vis t))"
proof -
  have d: "distinct (map fst (tk_orders t))" and l: "\<forall>(k, r)\<in>set (tk_orders t). lo_LevelID r = k"
    using assms(2) by (auto simp: tracker_ok_def)
  have "map lo_LevelID (AllMarkets vis t) = map fst (range_map vis (tk_orders t))"
    unfolding AllMarkets_def map_map
    by (rule map_cong[OF refl]) (use l range_map_set[OF assms(1) d] in auto)
  with range_map_distinct[OF assms(1) d] show ?thesis by simp
qed

definition trackedIn :: "'d tracker_state \<Rightarrow> string \<Rightarrow> string \<Rightarrow> 'd live_order option" where
  "trackedIn t marketID lvl =
     (case Get t lvl of Some r \<Rightarrow> if lo_MarketID r = marketID then Some r else None | None \<Rightarrow> None)"

lemma trackedIn_level: "tracker_ok t \<Longrightarrow> trackedIn t mkt lvl = Some r \<Longrightarrow> lo_LevelID r = lvl"
  by (auto simp: trackedIn_def dest: tracker_okD(1) split: option.splits if_splits)

lemma AllOrders_mem:
  assumes "visits vis" and "tracker_ok t"
  shows "r \<in> set (AllOrders vis t mkt) \<longleftrightarrow> trackedIn t mkt (lo_LevelID r) = Some r"
proof -
  have d: "distinct (map fst (tk_orders t))" using assms(2) by (simp add: tracker_ok_def)
  have "r \<in> set (AllMarkets vis t) \<longleftrightarrow> (\<exists>k. Get t k = Some r)"
    using d range_map_set[OF assms(1) d] by (force simp: AllMarkets_def Get_def)
  also have "\<dots> \<longleftrightarrow> Get t (lo_LevelID r) = Some r" using tracker_okD(1)[OF assms(2)] by blast
  finally show ?thesis by (auto simp: AllOrders_def trackedIn_def split: option.splits)
qed

lemma map_of_fold_update:
  "map_of (fold (\<lambda>x. AList.update (key x) x) xs m) = fold (\<lambda>x f. f(key x \<mapsto> x)) xs (map_of m)"
  by (induction xs arbitrary: m) (simp_all add: AList.update_conv')

lemma fold_upd_other: "k \<notin> key ` set xs \<Longrightarrow> fold (\<lambda>x f. f(key x \<mapsto> x)) xs f k = f k"
  by (induction xs arbitrary: f) auto

lemma fold_upd_distinct:
  "distinct (map key xs) \<Longrightarrow> x \<in> set xs \<Longrightarrow> fold (\<lambda>x f. f(key x \<mapsto> x)) xs f (key x) = Some x"
  by (induction xs arbitrary: f) (auto simp: fold_upd_other)

lemma distinct_fold_update:
  "distinct (map fst m) \<Longrightarrow> distinct (map fst (fold (\<lambda>x. AList.update (key x) x) xs m))"
  by (induction xs arbitrary: m) (simp_all add: AList.distinct_update)

lemma map_of_ordersByLevel:
  assumes "distinct (map lo_LevelID rs)"
  shows "map_of (ordersByLevel rs) lvl = Some r \<longleftrightarrow> r \<in> set rs \<and> lo_LevelID r = lvl"
proof -
  have e: "map_of (ordersByLevel rs) lvl = fold (\<lambda>x f. f(lo_LevelID x \<mapsto> x)) rs Map.empty lvl"
    by (simp add: ordersByLevel_def map_of_fold_update)
  show ?thesis
  proof (cases "lvl \<in> lo_LevelID ` set rs")
    case True
    then obtain r' where r': "r' \<in> set rs" "lvl = lo_LevelID r'" by auto
    with fold_upd_distinct[OF assms r'(1), of Map.empty] e have "map_of (ordersByLevel rs) lvl = Some r'" by simp
    moreover have "r \<in> set rs \<Longrightarrow> lo_LevelID r = lvl \<Longrightarrow> r = r'" using assms r' by (auto simp: distinct_map dest: inj_onD)
    ultimately show ?thesis using r' by auto
  next
    case False
    with e fold_upd_other[OF False, of Map.empty] show ?thesis by auto
  qed
qed

lemma known_iff:
  assumes "visits vis" and "tracker_ok t"
  shows "map_of (ordersByLevel (AllOrders vis t mkt)) lvl = trackedIn t mkt lvl"
proof -
  have d: "distinct (map lo_LevelID (AllOrders vis t mkt))"
    using AllMarkets_distinct[OF assms] by (simp add: AllOrders_def distinct_map_filter)
  have "map_of (ordersByLevel (AllOrders vis t mkt)) lvl = Some r \<longleftrightarrow> trackedIn t mkt lvl = Some r" for r
    unfolding map_of_ordersByLevel[OF d] AllOrders_mem[OF assms] using trackedIn_level[OF assms(2)] by blast
  then show ?thesis by (metis not_Some_eq)
qed

lemma resting_iff:
  assumes "visits vis" and "tracker_ok t"
  shows "map_of (ordersByLevel (filter (\<lambda>r. lo_Status r = StatusResting) (AllOrders vis t mkt))) lvl = Some r \<longleftrightarrow>
    trackedIn t mkt lvl = Some r \<and> lo_Status r = StatusResting"
proof -
  have d: "distinct (map lo_LevelID (filter (\<lambda>r. lo_Status r = StatusResting) (AllOrders vis t mkt)))"
    using AllMarkets_distinct[OF assms] by (simp add: AllOrders_def distinct_map_filter)
  show ?thesis
    unfolding map_of_ordersByLevel[OF d] set_filter mem_Collect_eq AllOrders_mem[OF assms]
    using trackedIn_level[OF assms(2)] by blast
qed

section \<open>Diff\<close>

text \<open>The action a level needs, from what is wanted there and what is tracked.\<close>

definition diffAction :: "('d::linordered_idom) maker_market \<Rightarrow> 'd maker_level option \<Rightarrow> 'd live_order option \<Rightarrow> diff_action option" where
  "diffAction mc want have = (case (want, have) of
     (None, None) \<Rightarrow> None
   | (None, Some r) \<Rightarrow> if lo_Status r = StatusResting then Some DiffCancel else None
   | (Some l, None) \<Rightarrow> Some DiffCreate
   | (Some l, Some r) \<Rightarrow>
       if lo_Status r = StatusResting \<and> (lo_Price r \<noteq> pl_Price l \<or> lo_RemainingQty r < mk_MinOrderSize mc)
       then Some DiffCorrect else None)"

definition wantedAt :: "'d maker_level list \<Rightarrow> string \<Rightarrow> 'd maker_level option" where
  "wantedAt desired lvl = map_of (desiredSet desired) lvl"

definition diffEntry :: "string \<Rightarrow> diff_action \<Rightarrow> 'd maker_level option \<Rightarrow> 'd live_order option \<Rightarrow> 'd diff_entry" where
  "diffEntry lvl a want have =
     \<lparr>de_Action = a, de_LevelID = lvl, de_DesiredLevel = want,
      de_ExistingCOID = (case have of None \<Rightarrow> '''' | Some r \<Rightarrow> lo_ClientOrderID r),
      de_ExistingOID = (case have of None \<Rightarrow> '''' | Some r \<Rightarrow> lo_OrderID r)\<rparr>"

lemma map_filter_set: "e \<in> set (List.map_filter f xs) \<longleftrightarrow> (\<exists>x\<in>set xs. f x = Some e)"
  by (induction xs) (auto simp: List.map_filter_simps split: option.splits)

lemma desiredSet_distinct: "distinct (map fst (desiredSet ls))"
  by (simp add: desiredSet_def distinct_fold_update)

lemma ordersByLevel_distinct: "distinct (map fst (ordersByLevel rs))"
  by (simp add: ordersByLevel_def distinct_fold_update)

lemma diff_entries:
  assumes "visits vis" and "tracker_ok t"
  shows "e \<in> set (Diff vis desired t mkt mc) \<longleftrightarrow>
    (\<exists>lvl a. diffAction mc (wantedAt desired lvl) (trackedIn t mkt lvl) = Some a \<and>
       e = diffEntry lvl a (wantedAt desired lvl) (trackedIn t mkt lvl))"
proof -
  let ?known = "ordersByLevel (AllOrders vis t mkt)"
  let ?resting = "ordersByLevel (filter (\<lambda>r. lo_Status r = StatusResting) (AllOrders vis t mkt))"
  let ?wanted = "desiredSet desired"
  have w: "(lvl, l) \<in> set ?wanted \<longleftrightarrow> wantedAt desired lvl = Some l" for lvl l
    using desiredSet_distinct[of desired] by (simp add: wantedAt_def)
  have r: "(lvl, x) \<in> set ?resting \<longleftrightarrow> trackedIn t mkt lvl = Some x \<and> lo_Status x = StatusResting" for lvl x
    using ordersByLevel_distinct resting_iff[OF assms] by (metis map_of_eq_Some_iff)
  have "e \<in> set (Diff vis desired t mkt mc) \<longleftrightarrow>
    (\<exists>lvl l. wantedAt desired lvl = Some l \<and> diffDesired ?known mc (lvl, l) = Some e) \<or>
    (\<exists>lvl x. trackedIn t mkt lvl = Some x \<and> lo_Status x = StatusResting \<and> diffResting ?wanted (lvl, x) = Some e)"
    unfolding Diff_def Let_def set_append Un_iff map_filter_set
      range_map_set[OF assms(1) desiredSet_distinct] range_map_set[OF assms(1) ordersByLevel_distinct]
    using w r by auto
  also have "\<dots> \<longleftrightarrow> (\<exists>lvl a. diffAction mc (wantedAt desired lvl) (trackedIn t mkt lvl) = Some a \<and>
       e = diffEntry lvl a (wantedAt desired lvl) (trackedIn t mkt lvl))" (is "?A \<or> ?B \<longleftrightarrow> ?C")
  proof
    assume "?A \<or> ?B"
    then show ?C
    proof
      assume ?A
      then obtain lvl l where l: "wantedAt desired lvl = Some l" "diffDesired ?known mc (lvl, l) = Some e" by blast
      from l have "\<exists>a. diffAction mc (wantedAt desired lvl) (trackedIn t mkt lvl) = Some a \<and>
          e = diffEntry lvl a (wantedAt desired lvl) (trackedIn t mkt lvl)"
        by (auto simp: diffDesired_def diffAction_def diffEntry_def known_iff[OF assms] Let_def split: option.splits if_splits)
      then show ?C by blast
    next
      assume ?B
      then obtain lvl x where x: "trackedIn t mkt lvl = Some x" "lo_Status x = StatusResting" "diffResting ?wanted (lvl, x) = Some e"
        by blast
      then have "diffAction mc (wantedAt desired lvl) (trackedIn t mkt lvl) = Some DiffCancel \<and>
          e = diffEntry lvl DiffCancel (wantedAt desired lvl) (trackedIn t mkt lvl)"
        by (auto simp: diffResting_def diffAction_def diffEntry_def wantedAt_def split: option.splits)
      then show ?C by blast
    qed
  next
    assume ?C
    then obtain lvl a where a: "diffAction mc (wantedAt desired lvl) (trackedIn t mkt lvl) = Some a"
      "e = diffEntry lvl a (wantedAt desired lvl) (trackedIn t mkt lvl)" by blast
    show "?A \<or> ?B"
    proof (cases "wantedAt desired lvl")
      case (Some l)
      with a have "diffDesired ?known mc (lvl, l) = Some e"
        by (auto simp: diffDesired_def diffAction_def diffEntry_def known_iff[OF assms] Let_def split: option.splits if_splits)
      with Some show ?thesis by blast
    next
      case None
      with a obtain x where x: "trackedIn t mkt lvl = Some x" "lo_Status x = StatusResting" "a = DiffCancel"
        by (auto simp: diffAction_def split: option.splits if_splits)
      with None a(2) have "diffResting ?wanted (lvl, x) = Some e"
        by (simp add: diffResting_def diffEntry_def wantedAt_def)
      with x show ?thesis by blast
    qed
  qed
  finally show ?thesis .
qed

lemma diffDesired_level: "diffDesired known mc x = Some e \<Longrightarrow> de_LevelID e = fst x"
  by (auto simp: diffDesired_def Let_def split: prod.splits option.splits if_splits)

lemma diffResting_level: "diffResting wanted x = Some e \<Longrightarrow> de_LevelID e = fst x"
  by (auto simp: diffResting_def split: prod.splits option.splits)

lemma map_filter_levels:
  assumes f: "\<And>x e. f x = Some e \<Longrightarrow> de_LevelID e = fst x" and "distinct (map fst xs)"
  shows "distinct (map de_LevelID (List.map_filter f xs))"
  using assms(2)
proof (induction xs)
  case (Cons x xs)
  show ?case
  proof (cases "f x")
    case (Some e)
    have "de_LevelID e \<notin> de_LevelID ` set (List.map_filter f xs)"
    proof
      assume "de_LevelID e \<in> de_LevelID ` set (List.map_filter f xs)"
      then obtain x' e' where "x' \<in> set xs" "f x' = Some e'" "de_LevelID e' = de_LevelID e"
        by (auto simp: map_filter_set)
      with f[OF Some] f[of x' e'] have "fst x \<in> fst ` set xs" by (metis imageI)
      with Cons.prems show False by simp
    qed
    with Some Cons show ?thesis by (simp add: List.map_filter_simps)
  qed (use Cons in \<open>simp add: List.map_filter_simps\<close>)
qed (simp add: List.map_filter_simps)

lemma diff_distinct:
  assumes "visits vis"
  shows "distinct (map de_LevelID (Diff vis desired t mkt mc))"
proof -
  let ?known = "ordersByLevel (AllOrders vis t mkt)"
  let ?resting = "ordersByLevel (filter (\<lambda>r. lo_Status r = StatusResting) (AllOrders vis t mkt))"
  let ?A = "List.map_filter (diffDesired ?known mc) (range_map vis (desiredSet desired))"
  let ?B = "List.map_filter (diffResting (desiredSet desired)) (range_map vis ?resting)"
  have A: "distinct (map de_LevelID ?A)"
    by (rule map_filter_levels[OF _ range_map_distinct[OF assms desiredSet_distinct]]) (rule diffDesired_level)
  have B: "distinct (map de_LevelID ?B)"
    by (rule map_filter_levels[OF _ range_map_distinct[OF assms ordersByLevel_distinct]]) (rule diffResting_level)
  have a: "de_LevelID e \<in> fst ` set (desiredSet desired)" if "e \<in> set ?A" for e
  proof -
    from that obtain x where "x \<in> set (desiredSet desired)" "de_LevelID e = fst x"
      unfolding map_filter_set range_map_set[OF assms desiredSet_distinct] using diffDesired_level by metis
    then show ?thesis by simp
  qed
  have b: "de_LevelID e \<notin> fst ` set (desiredSet desired)" if "e \<in> set ?B" for e
  proof -
    from that obtain x where "diffResting (desiredSet desired) x = Some e" unfolding map_filter_set by blast
    then have "map_of (desiredSet desired) (de_LevelID e) = None"
      by (auto simp: diffResting_def split: option.splits prod.splits)
    then show ?thesis by (simp add: map_of_eq_None_iff)
  qed
  have "de_LevelID ` set ?A \<subseteq> fst ` set (desiredSet desired)" by (rule image_subsetI, rule a)
  moreover have "de_LevelID ` set ?B \<subseteq> - (fst ` set (desiredSet desired))" by (rule image_subsetI, simp only: Compl_iff b not_False_eq_True)
  ultimately have "de_LevelID ` set ?A \<inter> de_LevelID ` set ?B = {}" by (meson disjoint_eq_subset_Compl order_trans compl_le_swap1)
  with A B show ?thesis by (simp add: Diff_def Let_def)
qed

end
