(* ===== verification/MakerGuarantee.thy ===== *)
theory MakerGuarantee
  imports MakerEngine MakerDiff
begin

text \<open>
  What every job of the reconciler keeps. A job keeps a reflexive and transitive relation
  when its steps do; the locale carries the relation through the combinators, and the two
  interpretations are the soundness of the tracker and the freshness of client order IDs.
\<close>

section \<open>Jobs that keep a relation\<close>

definition keepsJ :: "('s \<Rightarrow> 's \<Rightarrow> bool) \<Rightarrow> ('s, 'a) jobs \<Rightarrow> bool" where
  "keepsJ R m \<longleftrightarrow> (\<forall>s a s'. m s = Some (a, s') \<longrightarrow> R s s')"

lemma keepsJD: "keepsJ R m \<Longrightarrow> m s = Some (a, s') \<Longrightarrow> R s s'"
  by (auto simp: keepsJ_def)

lemma keepsJ_mono: "keepsJ R m \<Longrightarrow> (\<And>s s'. R s s' \<Longrightarrow> R' s s') \<Longrightarrow> keepsJ R' m"
  by (auto simp: keepsJ_def)

lemma bindJ_Some: "m s = Some (a, s') \<Longrightarrow> bindJ m f s = f a s'"
  by (simp add: bindJ_def)

locale step_relation =
  fixes R :: "'s \<Rightarrow> 's \<Rightarrow> bool"
  assumes refl: "R s s"
    and trans: "R s s' \<Longrightarrow> R s' s'' \<Longrightarrow> R s s''"
begin

lemma ret: "keepsJ R (retJ a)"
  by (simp add: keepsJ_def retJ_def refl)

lemma panic: "keepsJ R panicJ"
  by (simp add: keepsJ_def panicJ_def)

lemma get: "keepsJ R (getJ f)"
  by (simp add: keepsJ_def getJ_def refl)

lemma bind: "keepsJ R m \<Longrightarrow> (\<And>a. keepsJ R (f a)) \<Longrightarrow> keepsJ R (bindJ m f)"
  unfolding keepsJ_def bindJ_def by (fastforce split: option.splits intro: trans)

lemma seq: "keepsJ R m \<Longrightarrow> keepsJ R m' \<Longrightarrow> keepsJ R (thenJ m m')"
  unfolding thenJ_def by (rule bind)

lemma each: "(\<And>x. keepsJ R (f x)) \<Longrightarrow> keepsJ R (eachJ f xs)"
  by (induction xs) (auto intro: seq ret)

lemma loop: "(\<And>x a. keepsJ R (f x a)) \<Longrightarrow> keepsJ R (foldJ f xs a)"
  by (induction xs arbitrary: a) (auto intro: bind ret)

lemma conditional: "(b \<Longrightarrow> keepsJ R m) \<Longrightarrow> keepsJ R (whenJ b m)"
  by (simp add: whenJ_def ret)

lemma branch: "(c \<Longrightarrow> keepsJ R m) \<Longrightarrow> (\<not> c \<Longrightarrow> keepsJ R m') \<Longrightarrow> keepsJ R (if c then m else m')"
  by simp

lemma case_option: "(x = None \<Longrightarrow> keepsJ R m) \<Longrightarrow> (\<And>a. x = Some a \<Longrightarrow> keepsJ R (f a)) \<Longrightarrow> keepsJ R (case x of None \<Rightarrow> m | Some a \<Rightarrow> f a)"
  by (cases x) auto

lemma case_sum: "(\<And>a. keepsJ R (f a)) \<Longrightarrow> (\<And>b. keepsJ R (g b)) \<Longrightarrow> keepsJ R (case x of Inl a \<Rightarrow> f a | Inr b \<Rightarrow> g b)"
  by (cases x) auto

lemma case_prod: "(\<And>a b. keepsJ R (f a b)) \<Longrightarrow> keepsJ R (case x of (a, b) \<Rightarrow> f a b)"
  by (cases x) auto

lemma local_def: "keepsJ R (f x) \<Longrightarrow> keepsJ R (let y = x in f y)"
  by simp

lemma modify: "(\<And>s. R s (f s)) \<Longrightarrow> keepsJ R (modJ f)"
  by (simp add: keepsJ_def modJ_def)

lemmas intros = ret panic get bind seq each loop conditional branch case_option case_sum case_prod local_def

end

section \<open>Relations of the reconciler\<close>

text \<open>
  A relation that only reads the tracker and the log of commands, and that every operation on
  the tracker and every command keep, is kept by every job.
\<close>

text \<open>A provider is connected and has no fresh price for any market while the event is handled.\<close>

definition staleProvider :: "('d, 'y) maker_env_scheme \<Rightarrow> bool" where
  "staleProvider en \<longleftrightarrow> ve_hasProvider en \<and> (\<forall>n m p. ve_price en n m = Some p \<longrightarrow> pe_State p \<noteq> StateFresh)"

lemma stale_truncate: "staleProvider (makerEnv en) \<longleftrightarrow> staleProvider en"
  by (simp add: staleProvider_def maker_env.truncate_def)

lemma stale_reference:
  assumes "staleProvider en" and "currentReference cfg en mc s = Some (snap, s')"
  shows "rf_Freshness snap \<noteq> FreshnessFresh"
  using assms
  by (auto simp: staleProvider_def currentReference_def liveReference_def staleReference_def bindJ_def thenJ_def askJ_def
      nowJ_def getJ_def retJ_def putRef_def modJ_def Let_def freshnessOf_def referenceOf_def split: option.splits if_splits price_state.splits)

lemma stale_allows:
  assumes "staleProvider en" and "allowsNewLiquidity cfg en m s = Some (b, s')"
  shows "\<not> b"
  using assms(2)
  by (auto simp: allowsNewLiquidity_def bindJ_def retJ_def split: option.splits dest: stale_reference[OF assms(1)])

definition view :: "('d, 'g) maker \<Rightarrow> 'd tracker_state \<times> maker_command list" where
  "view s = (kr_tracker s, kr_sent s)"

locale maker_relation =
  fixes Q :: "('d::linordered_idom) tracker_state \<times> maker_command list \<Rightarrow> 'd tracker_state \<times> maker_command list \<Rightarrow> bool"
    and en :: "'d engine_env"
  assumes Q_refl: "Q v v"
    and Q_trans: "Q v v' \<Longrightarrow> Q v' v'' \<Longrightarrow> Q v v''"
    and Q_edit: "(\<And>r. lo_LevelID (f r) = lo_LevelID r \<and> lo_Generation (f r) = lo_Generation r) \<Longrightarrow> Q (t, cs) (modifyOrder f lvl t, cs)"
    and Q_remove: "Q (t, cs) (Remove lvl t, cs)"
    and Q_send: "(\<And>a b c d e. c0 \<noteq> Register a b c d e) \<Longrightarrow> Q (t, cs) (t, cs @ [c0])"
    and Q_register: "\<not> staleProvider en \<Longrightarrow> Q (t, cs) (snd (NextGeneration lvl t), cs @ [Register m s p q (ClientOrderID lvl (fst (NextGeneration lvl t)))])"
    and Q_pending: "gen \<le> tk_generations t lvl \<Longrightarrow> Q (t, cs) (SetPending now lvl oid coid gen l t, cs)"
    and Q_advance: "Q (t, cs) (snd (NextGeneration lvl t), cs)"
begin

definition Rel :: "('d, 'g) maker \<Rightarrow> ('d, 'g) maker \<Rightarrow> bool" where
  "Rel s s' \<longleftrightarrow> Q (view s) (view s')"

sublocale steps: step_relation Rel
  by unfold_locales (auto simp: Rel_def intro: Q_refl Q_trans)

lemma same_view: "(\<And>s. view (f s) = view s) \<Longrightarrow> keepsJ Rel (modJ f)"
  by (rule steps.modify) (simp add: Rel_def Q_refl)

lemma ask: "keepsJ Rel (askJ f)"
  by (auto simp: keepsJ_def askJ_def Rel_def view_def Q_refl)

lemma now: "keepsJ Rel (nowJ (makerEnv en))"
  by (simp add: nowJ_def ask)

lemma edit: "(\<And>r. lo_LevelID (f r) = lo_LevelID r \<and> lo_Generation (f r) = lo_Generation r) \<Longrightarrow>
    keepsJ Rel (onTracker (modifyOrder f lvl))"
  by (auto simp: onTracker_def Rel_def view_def intro!: steps.modify Q_edit)

lemma send: "(\<And>a b c d e. c0 \<noteq> Register a b c d e) \<Longrightarrow> keepsJ Rel (sendJ c0 f)"
  unfolding sendJ_def by (rule steps.seq[OF steps.modify ask]) (simp add: Rel_def view_def Q_send)

lemma all_orders: "keepsJ Rel (allOrders (makerEnv en) m)"
  unfolding allOrders_def by (intro steps.intros ask)

lemma draw: "keepsJ Rel (drawJ m)"
  by (auto simp: keepsJ_def drawJ_def Rel_def view_def Q_refl split: option.splits)

lemma put_ref: "keepsJ Rel (putRef m st)"
  unfolding putRef_def by (rule same_view) (simp add: view_def)

lemma remove_order: "keepsJ Rel (removeTrackedOrder lvl)"
  unfolding removeTrackedOrder_def by (rule steps.modify) (simp add: Rel_def view_def Q_remove)

lemma publish: "(\<And>a b c d e. c0 \<noteq> Register a b c d e) \<Longrightarrow> keepsJ Rel (publishJ (makerEnv en) c0)"
  unfolding publishJ_def by (intro steps.intros send)

lemma cancel_service: "keepsJ Rel (cancelJ (makerEnv en) oid)"
  unfolding cancelJ_def by (intro steps.intros send) simp

lemma lookup: "keepsJ Rel (lookupJ (makerEnv en) coid)"
  unfolding lookupJ_def by (intro steps.intros ask)

lemma set_published: "keepsJ Rel (onTracker (SetKafkaPublished lvl b))"
  and set_registered: "keepsJ Rel (onTracker (SetOSRegistered n lvl oid q q'))"
  and set_resting: "keepsJ Rel (onTracker (SetResting lvl oid q q'))"
  and set_cancelling: "keepsJ Rel (onTracker (SetCancelling n lvl))"
  and set_queued: "keepsJ Rel (onTracker (QueueCorrection lvl l))"
  and set_stale: "keepsJ Rel (onTracker (SetStale lvl))"
  and count_retry: "keepsJ Rel (onTracker (modifyOrder (IncrementCancelRetry n) lvl))"
  unfolding tracker_modifiers by (rule edit, simp add: fillView_def IncrementCancelRetry_def)+

lemmas basics = ask now all_orders draw put_ref remove_order cancel_service lookup set_published set_registered
  set_resting set_cancelling set_queued set_stale count_retry

lemma reference: "keepsJ Rel (currentReference cfg (makerEnv en) mc)"
  unfolding currentReference_def liveReference_def staleReference_def offlineReference_def Let_def
  by (intro steps.intros basics)

lemma allows: "keepsJ Rel (allowsNewLiquidity cfg (makerEnv en) m)"
  unfolding allowsNewLiquidity_def by (intro steps.intros reference)

lemma refusal: "keepsJ Rel (refusalReason cfg (makerEnv en) mc)"
  unfolding refusalReason_def by (intro steps.intros reference)

lemma blocked: "keepsJ Rel (creationBlocked (makerEnv en) mc l)"
  unfolding creationBlocked_def by (intro steps.intros basics)

lemma in_flight: "keepsJ Rel (inFlight lvl n)"
  unfolding inFlight_def by (rule same_view) (simp add: view_def)

lemma gated:
  assumes "\<not> staleProvider en \<Longrightarrow> keepsJ Rel m" and "keepsJ Rel m'"
  shows "keepsJ Rel (bindJ (allowsNewLiquidity cfg (makerEnv en) mkt) (\<lambda>allowed. if \<not> allowed then m' else m))"
proof (cases "staleProvider en")
  case True
  then have "staleProvider (makerEnv en)" by (simp add: stale_truncate)
  then have "bindJ (allowsNewLiquidity cfg (makerEnv en) mkt) (\<lambda>allowed. if \<not> allowed then m' else m) =
      bindJ (allowsNewLiquidity cfg (makerEnv en) mkt) (\<lambda>_. m')"
    by (auto simp: bindJ_def fun_eq_iff split: option.splits dest: stale_allows)
  then show ?thesis by (simp add: steps.bind allows assms(2))
next
  case False
  with assms show ?thesis by (intro steps.bind allows steps.branch) simp_all
qed

lemma submit:
  assumes live: "\<not> staleProvider en"
  shows "keepsJ Rel (submitLevel L (makerEnv en) mc note lvl l)"
  unfolding keepsJ_def
proof (intro allI impI)
  fix s s' a assume run: "submitLevel L (makerEnv en) mc note lvl l s = Some (a, s')"
  let ?t = "snd (NextGeneration lvl (kr_tracker s))" and ?gen = "fst (NextGeneration lvl (kr_tracker s))"
  let ?coid = "ClientOrderID lvl ?gen"
  let ?c = "Register (mk_MarketID mc) (pl_Side l) (d_String L (pl_Price l)) (d_String L (pl_Quantity l)) ?coid"
  let ?s1 = "s\<lparr>kr_tracker := ?t, kr_sent := kr_sent s @ [?c], kr_step := kr_step s + 1\<rparr>"
  have gen: "?gen \<le> tk_generations ?t lvl" by (simp add: NextGeneration_def Let_def)
  have 1: "Rel s ?s1" using Q_register[OF live, of "kr_tracker s" "kr_sent s" lvl] by (simp add: Rel_def view_def)
  show "Rel s s'"
  proof (cases "ve_hasOrderSvc (makerEnv en)")
    case False
    with run show ?thesis
      by (simp add: submitLevel_def bindJ_def nextGeneration_def registerJ_def panicJ_def Let_def split: prod.splits)
  next
    case True
    show ?thesis
    proof (cases "ve_create (makerEnv en) (kr_step s) ?c")
      case None
      with True run 1 show ?thesis
        by (auto simp: submitLevel_def bindJ_def nextGeneration_def registerJ_def sendJ_def thenJ_def modJ_def askJ_def retJ_def
            Let_def split: prod.splits)
    next
      case (Some st)
      let ?rest = "bindJ (nowJ (makerEnv en)) (\<lambda>now.
         thenJ (onTracker (SetPending now lvl (st_OrderID st) ?coid ?gen l))
         (thenJ (if note then bindJ (nowJ (makerEnv en)) (inFlight lvl) else retJ ())
         (bindJ (publishJ (makerEnv en) (createdCommand L mc (st_OrderID st) ?coid (pl_Side l) (pl_Price l) (pl_Quantity l))) (\<lambda>ok.
            if ok then thenJ (onTracker (SetKafkaPublished lvl True)) (retJ (Inr True))
            else retJ (Inl (PublishFailed lvl (st_OrderID st)))))))"
      have next_gen: "nextGeneration lvl s = Some (?gen, s\<lparr>kr_tracker := ?t\<rparr>)"
        by (simp add: nextGeneration_def split: prod.splits)
      have registered: "registerJ (makerEnv en) ?c (s\<lparr>kr_tracker := ?t\<rparr>) = Some (Some st, ?s1)"
        using True Some by (simp add: registerJ_def sendJ_def thenJ_def bindJ_def modJ_def askJ_def)
      have rest: "?rest ?s1 = Some (a, s')"
        using run
        by (simp only: submitLevel_def bindJ_Some[where m = "nextGeneration lvl", OF next_gen] Let_def
            bindJ_Some[where m = "registerJ (makerEnv en) ?c", OF registered] option.case)
      obtain n s2 where n: "nowJ (makerEnv en) ?s1 = Some (n, s2)" "view s2 = view ?s1"
        by (simp add: nowJ_def askJ_def view_def)
      let ?s3 = "s2\<lparr>kr_tracker := SetPending n lvl (st_OrderID st) ?coid ?gen l (kr_tracker s2)\<rparr>"
      have tail: "keepsJ Rel (thenJ (if note then bindJ (nowJ (makerEnv en)) (inFlight lvl) else retJ ())
         (bindJ (publishJ (makerEnv en) (createdCommand L mc (st_OrderID st) ?coid (pl_Side l) (pl_Price l) (pl_Quantity l))) (\<lambda>ok.
            if ok then thenJ (onTracker (SetKafkaPublished lvl True)) (retJ (Inr True))
            else retJ (Inl (PublishFailed lvl (st_OrderID st))))))"
        by (intro steps.intros basics in_flight publish) (simp add: createdCommand_def)
      have "Rel ?s1 ?s3" using n(2) Q_pending[OF gen] by (simp add: Rel_def view_def)
      moreover have "Rel ?s3 s'"
        using rest n(1) keepsJD[OF tail, of ?s3 a s'] by (simp add: bindJ_def thenJ_def onTracker_def modJ_def)
      ultimately show ?thesis using 1 steps.trans by blast
    qed
  qed
qed

lemma apply_create: "keepsJ Rel (applyCreate L cfg (makerEnv en) mc e)"
  unfolding applyCreate_def by (intro gated steps.ret steps.bind steps.seq steps.case_option steps.branch refusal blocked submit)

lemma apply_cancel: "keepsJ Rel (applyCancel (makerEnv en) mc e)"
  unfolding applyCancel_def by (intro steps.intros basics publish in_flight) (simp add: cancelledCommand_def)

lemma apply_entry: "keepsJ Rel (applyEntry L cfg (makerEnv en) mc e)"
  unfolding applyEntry_def Let_def
  by (cases "de_Action e") (auto intro!: steps.intros basics apply_create apply_cancel)

lemma confirm: "keepsJ Rel (ConfirmOSRegisteredOrders L (makerEnv en) m healthy)"
  unfolding ConfirmOSRegisteredOrders_def ConfirmRestingFromSnapshot_def confirmResting_def
  by (intro steps.intros basics same_view) (simp_all add: view_def)

lemma resolve_pending: "keepsJ Rel (resolvePending (makerEnv en) m r)"
  unfolding resolvePending_def
  by (intro steps.bind steps.branch steps.case_sum steps.ret steps.seq steps.get basics same_view)
    (auto simp: view_def intro!: steps.intros same_view split: lookup_error.splits)

lemma check_pending: "keepsJ Rel (CheckPendingTimeouts L cfg (makerEnv en) m)"
  unfolding CheckPendingTimeouts_def checkPending_def
  by (intro steps.intros basics same_view resolve_pending publish) (simp_all add: view_def createdCommand_def)

lemma replacement: "keepsJ Rel (submitReplacement L cfg (makerEnv en) mc r rem l)"
  unfolding submitReplacement_def Let_def by (intro gated steps.ret steps.bind steps.seq steps.case_option steps.branch refusal blocked submit)

lemma retry: "keepsJ Rel (retryCancelOrStale cfg (makerEnv en) mc r)"
  unfolding retryCancelOrStale_def by (intro steps.intros basics publish) (simp add: cancelledCommand_def)

lemma cancelling_timeout: "keepsJ Rel (handleCancellingTimeout L cfg (makerEnv en) mc r)"
  unfolding handleCancellingTimeout_def Let_def
  by (intro steps.bind lookup steps.case_sum)
    (auto intro!: steps.intros basics replacement retry split: lookup_error.splits)

lemma check_cancelling: "keepsJ Rel (CheckCancellingTimeouts L cfg (makerEnv en) m)"
  unfolding CheckCancellingTimeouts_def checkCancelling_def by (intro steps.intros basics cancelling_timeout)

lemma cancel_orphan: "keepsJ Rel (cancelOrphan cfg (makerEnv en) mc m)"
  unfolding cancelOrphan_def Let_def
  by (intro steps.intros basics publish same_view) (simp_all add: view_def cancelledCommand_def)

lemma missing: "keepsJ Rel (handleMissingRestingOrder (makerEnv en) mc r)"
  unfolding handleMissingRestingOrder_def Let_def
  by (intro steps.branch steps.bind lookup steps.case_sum steps.seq basics same_view)
    (auto simp: view_def cancelledCommand_def intro!: steps.intros basics publish same_view split: lookup_error.splits)

lemma sync_book: "keepsJ Rel (syncWithMESnapshot L cfg (makerEnv en) mc snap)"
  unfolding syncWithMESnapshot_def syncMakerOrder_def promote_def pruneOrphans_def checkPresent_def Let_def
  by (intro steps.intros basics cancel_orphan missing same_view) (simp_all add: view_def)

lemma refreshed: "keepsJ Rel (refreshedAt lvl n)"
  unfolding refreshedAt_def by (rule same_view) (simp add: view_def)

lemma consumed: "keepsJ Rel (CheckConsumedOrders L cfg (makerEnv en) m)"
  unfolding CheckConsumedOrders_def cancelConsumed_def
  by (intro steps.intros basics reference apply_cancel refreshed)

lemma expired: "keepsJ Rel (CheckExpiredOrders L cfg (makerEnv en) m)"
  unfolding CheckExpiredOrders_def expireOrder_def Let_def
  by (intro steps.intros basics reference apply_cancel refreshed)

lemma reprice: "keepsJ Rel (applyRefMovementReprice L (makerEnv en) mc ref ver action)"
  unfolding applyRefMovementReprice_def storeZones_def repriceLevel_def finishRebase_def clearFailure_def countFailure_def Let_def
  by (intro steps.intros basics apply_cancel same_view edit) (simp_all add: view_def)

lemma entries: "keepsJ Rel (applyEntries L cfg (makerEnv en) mc es n)"
  unfolding applyEntries_def by (intro steps.intros apply_entry)

lemma reconcile: "keepsJ Rel (ReconcileMarket L cfg (makerEnv en) m b a)"
  unfolding ReconcileMarket_def reconcileBody_def rebaseStep_def ladderStep_def Let_def
  by (intro steps.intros basics reference sync_book reprice entries same_view) (simp_all add: view_def)

subsection \<open>Events of the engine\<close>

definition RelE :: "('d, 'g) maker_engine \<Rightarrow> ('d, 'g) maker_engine \<Rightarrow> bool" where
  "RelE e e' \<longleftrightarrow> Rel (ge_maker e) (ge_maker e')"

sublocale events: step_relation RelE
  by unfold_locales (auto simp: RelE_def intro: steps.refl steps.trans)

lemma in_maker: "keepsJ Rel m \<Longrightarrow> keepsJ RelE (inMaker m)"
  unfolding keepsJ_def inMaker_def RelE_def by (auto split: option.splits)

lemma outside: "(\<And>e. ge_maker (f e) = ge_maker e) \<Longrightarrow> keepsJ RelE (modJ f)"
  by (rule events.modify) (simp add: RelE_def steps.refl)

lemma ask_engine: "keepsJ RelE (askE f)"
  unfolding askE_def by (rule in_maker[OF ask])

lemma now_engine: "keepsJ RelE (nowE en)"
  unfolding nowE_def by (rule ask_engine)

lemma set_state: "keepsJ RelE (setState st)"
  unfolding setState_def by (rule outside) simp

lemma liveness: "keepsJ RelE (setLiveness m n p)"
  unfolding setLiveness_def by (rule outside) simp

lemma dirty: "keepsJ RelE (markDirty m)"
  unfolding markDirty_def by (rule outside) simp

lemma fill: "keepsJ Rel (onTracker (fillOrder q r))"
  unfolding onTracker_def
proof (rule steps.modify)
  fix s :: "('d, 'g) maker"
  have "Q (t, cs) (fillOrder q r t, cs)" for t cs
    unfolding fillOrder_def Let_def by (auto intro!: Q_refl Q_trans[OF Q_edit Q_remove] Q_edit)
  then show "Rel s (s\<lparr>kr_tracker := fillOrder q r (kr_tracker s)\<rparr>)" by (simp add: Rel_def view_def)
qed

lemma breach: "keepsJ RelE (CheckSpreadBreach L cfg en m)"
  unfolding CheckSpreadBreach_def breachBegins_def Let_def
  by (intro events.intros ask_engine now_engine outside) simp_all

lemma trade: "keepsJ RelE (handleTrade L cfg en ev)"
  unfolding handleTrade_def Let_def
  by (intro events.intros in_maker all_orders fill breach dirty outside) (auto simp: rememberTrade_def Let_def)

lemma stale_checks: "keepsJ RelE (stateOrderStale cfg en m)" "keepsJ RelE (inventoryStale cfg en)"
  "keepsJ RelE (effectiveQuote cfg en)" "keepsJ RelE (effectiveBase en m)"
  unfolding stateOrderStale_def inventoryStale_def effectiveQuote_def effectiveBase_def
  by (intro events.intros ask_engine now_engine)+

lemma reconcile_all: "keepsJ RelE (runReconcileAll L cfg en)"
  unfolding runReconcileAll_def reconcileOne_def Let_def
  by (intro events.intros stale_checks in_maker reconcile set_state)

lemma reconcile_market: "keepsJ RelE (runReconcileMarket L cfg en m)"
  unfolding runReconcileMarket_def Let_def
  by (intro events.intros stale_checks in_maker reconcile consumed)

lemma wallet_refresh: "keepsJ RelE (refreshWalletBalances en)"
  unfolding refreshWalletBalances_def by (intro events.intros ask_engine now_engine outside) simp

lemma wallet_tick: "keepsJ RelE (handleWalletRefresh cfg en)"
  unfolding handleWalletRefresh_def by (intro events.intros wallet_refresh stale_checks set_state)

lemma pending_tick: "keepsJ RelE (handlePendingCheck L cfg en)"
  unfolding handlePendingCheck_def pendingCheckOne_def probe_def Let_def
  by (intro events.intros ask_engine in_maker check_pending confirm liveness)

lemma cancelling_tick: "keepsJ RelE (handleCancellingCheck L cfg en)"
  unfolding handleCancellingCheck_def by (intro events.intros in_maker check_cancelling)

lemma expiry_tick: "keepsJ RelE (handleExpiryCheck L cfg en)"
  unfolding handleExpiryCheck_def expiryCheckOne_def by (intro events.intros in_maker consumed expired breach dirty)

lemma dirty_tick: "keepsJ RelE (reconcileDirty L cfg en)"
  unfolding reconcileDirty_def by (intro events.intros ask_engine reconcile_market outside) simp

lemma running: "keepsJ RelE m \<Longrightarrow> keepsJ RelE (whileRunning m)"
  unfolding whileRunning_def by (intro events.intros)

lemma event: "ev \<noteq> ResyncTick \<Longrightarrow> keepsJ RelE (handleEvent L cfg en ev)"
  unfolding handleEvent_def
  by (cases ev) (auto intro!: events.seq running trade dirty_tick reconcile_all wallet_tick pending_tick cancelling_tick
      expiry_tick outside)

end

text \<open>Relations that the recovery from the order service keeps as well.\<close>

locale resync_relation = maker_relation +
  assumes Q_max: "Q (t, cs) (SetMaxGeneration lvl g t, cs)"
    and Q_sync: "Q (t, cs) (snd (SyncFromOrders vis n m rs res t), cs)"
begin

lemma recover: "keepsJ Rel (recoverGenerations (makerEnv en) m)"
proof -
  have "Q (t, cs) (fold (\<lambda>(lvl, gen). SetMaxGeneration lvl gen) gens t, cs)" for gens t cs
    by (induction gens arbitrary: t) (auto intro: Q_refl Q_trans[OF Q_max])
  then show ?thesis
    unfolding recoverGenerations_def onTracker_def
    by (intro steps.intros basics steps.modify) (simp_all add: Rel_def view_def)
qed

lemma full_sync: "keepsJ Rel (SyncFromOrderService L cfg (makerEnv en) m)"
proof -
  have absent: "keepsJ Rel (resolveAbsent L cfg (makerEnv en) mc S r)" for mc S r
    unfolding resolveAbsent_def
    by (cases "lo_Status r") (auto intro!: steps.intros remove_order replacement)
  have sync: "keepsJ Rel (onTracker (\<lambda>t. snd (SyncFromOrders vis n mk rs res t)))" for vis n mk rs res
    unfolding onTracker_def by (rule steps.modify) (simp add: Rel_def view_def Q_sync)
  show ?thesis
    unfolding SyncFromOrderService_def by (intro steps.intros basics recover absent sync)
qed

lemma sync_all: "keepsJ RelE (syncAllMarkets L cfg en)"
proof -
  have "keepsJ RelE (syncMarkets L cfg en mcs)" for mcs
    by (induction mcs) (auto intro!: events.intros in_maker full_sync)
  then show ?thesis by (simp add: syncAllMarkets_def)
qed

lemma any_event: "keepsJ RelE (handleEvent L cfg en ev)"
  using event[of ev]
  by (cases "ev = ResyncTick") (auto simp: handleEvent_def intro!: running events.seq sync_all events.ret)

lemma start: "keepsJ RelE (startEngine L cfg en)"
  unfolding startEngine_def Let_def
  by (intro events.intros set_state wallet_refresh sync_all ask_engine liveness reconcile_all)

end

section \<open>The tracker stays sound\<close>

definition soundStep :: "'d tracker_state \<times> maker_command list \<Rightarrow> 'd tracker_state \<times> maker_command list \<Rightarrow> bool" where
  "soundStep v v' \<longleftrightarrow> (tracker_ok (fst v) \<longrightarrow> tracker_ok (fst v'))"

interpretation sound: resync_relation "soundStep :: ('d::linordered_idom) tracker_state \<times> maker_command list \<Rightarrow> _" en for en
  by unfold_locales
    (auto simp: soundStep_def intro: ok_modify ok_Remove ok_NextGeneration ok_SetPending ok_max ok_SyncFromOrders)

section \<open>Client order IDs are fresh\<close>

definition registered :: "maker_command list \<Rightarrow> string list" where
  "registered cs = List.map_filter (\<lambda>c. case c of Register _ _ _ _ coid \<Rightarrow> Some coid | _ \<Rightarrow> None) cs"

text \<open>\<open>b\<close> is the generation each level had before: what is registered is newer.\<close>

definition freshIDs :: "(string \<Rightarrow> int) \<Rightarrow> 'd tracker_state \<times> maker_command list \<Rightarrow> bool" where
  "freshIDs b v \<longleftrightarrow> distinct (registered (snd v)) \<and> (\<forall>lvl. 0 \<le> b lvl \<and> b lvl \<le> tk_generations (fst v) lvl) \<and>
     (\<forall>coid\<in>set (registered (snd v)). \<exists>lvl g. coid = ClientOrderID lvl g \<and> b lvl < g \<and> g \<le> tk_generations (fst v) lvl)"

definition freshStep :: "(string \<Rightarrow> int) \<Rightarrow> 'd tracker_state \<times> maker_command list \<Rightarrow> 'd tracker_state \<times> maker_command list \<Rightarrow> bool" where
  "freshStep b v v' \<longleftrightarrow> (freshIDs b v \<longrightarrow> freshIDs b v' \<and> (\<forall>lvl. tk_generations (fst v) lvl \<le> tk_generations (fst v') lvl))"

lemma ClientOrderID_inj:
  assumes "ClientOrderID lvl g = ClientOrderID lvl' g'" and "0 \<le> g" and "0 \<le> g'"
  shows "lvl = lvl' \<and> g = g'"
proof -
  let ?d = "pad0 3 g" and ?d' = "pad0 3 g'"
  have ng: "\<not> isDigit CHR ''G''" by (simp add: isDigit_def)
  have tw: "takeWhile isDigit (rev (l @ ''-G'' @ ds)) = rev ds" if "\<forall>c\<in>set ds. isDigit c" for l ds
    using takeWhile_append2[of "rev ds" isDigit "rev (l @ ''-G'')"] that ng by auto
  have "rev ?d = rev ?d'"
    using tw[of ?d lvl] tw[of ?d' lvl'] assms pad0_digits by (metis ClientOrderID_def)
  then have d: "?d = ?d'" by simp
  have "scanDigits 0 (pad0 3 i) = i" if "0 \<le> i" for i
    using that by (simp add: pad0_def Let_def scanDigits_zeros scanDigits_itoa)
  with d assms have "g = g'" by metis
  with assms(1) show ?thesis by (simp add: ClientOrderID_def)
qed

lemma registered_append: "registered (cs @ cs') = registered cs @ registered cs'"
  by (simp add: registered_def List.map_filter_def)

lemma registered_other:
  assumes "\<And>a b c d e. c0 \<noteq> Register a b c d e"
  shows "registered (cs @ [c0]) = registered cs"
proof (cases c0)
  case (Register a b c d e)
  with assms show ?thesis by blast
qed (simp_all add: registered_append, simp_all add: registered_def List.map_filter_simps)

lemma freshIDs_later:
  assumes "freshIDs b (t, cs)" and "\<And>lvl. tk_generations t lvl \<le> tk_generations t' lvl"
  shows "freshIDs b (t', cs)"
  using assms unfolding freshIDs_def by (fastforce intro: order_trans)

lemma fresh_register:
  assumes "freshIDs b (t, cs)"
  shows "freshIDs b (snd (NextGeneration lvl t), cs @ [Register m s p q (ClientOrderID lvl (fst (NextGeneration lvl t)))])"
proof -
  let ?t = "snd (NextGeneration lvl t)" and ?g = "tk_generations t lvl + 1"
  have later: "tk_generations t l \<le> tk_generations ?t l" for l by (simp add: NextGeneration_def Let_def)
  have g: "fst (NextGeneration lvl t) = ?g" "tk_generations ?t lvl = ?g" by (simp_all add: NextGeneration_def Let_def)
  from assms have nn: "0 \<le> b l" "b l \<le> tk_generations t l" for l by (simp_all add: freshIDs_def)
  have "ClientOrderID lvl ?g \<notin> set (registered cs)"
  proof
    assume "ClientOrderID lvl ?g \<in> set (registered cs)"
    with assms obtain l' g' where "ClientOrderID lvl ?g = ClientOrderID l' g'" "b l' < g'" "g' \<le> tk_generations t l'"
      by (auto simp: freshIDs_def)
    with ClientOrderID_inj[of lvl ?g l' g'] nn[of lvl] nn[of l'] show False by auto
  qed
  moreover from freshIDs_later[OF assms later] have "freshIDs b (?t, cs)" .
  moreover have "registered (cs @ [Register m s p q (ClientOrderID lvl ?g)]) = registered cs @ [ClientOrderID lvl ?g]"
    by (simp add: registered_append) (simp add: registered_def List.map_filter_simps)
  moreover have "\<exists>l g. ClientOrderID lvl ?g = ClientOrderID l g \<and> b l < g \<and> g \<le> tk_generations ?t l"
    using nn[of lvl] g(2) by (intro exI[of _ lvl] exI[of _ ?g]) simp
  ultimately show ?thesis
    unfolding freshIDs_def fst_conv snd_conv g by simp
qed

interpretation fresh: maker_relation "freshStep b :: ('d::linordered_idom) tracker_state \<times> maker_command list \<Rightarrow> _" en for b en
proof unfold_locales
  fix v v' v'' :: "'d tracker_state \<times> maker_command list"
  show "freshStep b v v" by (simp add: freshStep_def)
  show "freshStep b v v' \<Longrightarrow> freshStep b v' v'' \<Longrightarrow> freshStep b v v''" by (auto simp: freshStep_def intro: order_trans)
next
  fix f :: "'d live_order \<Rightarrow> 'd live_order" and t lvl and cs :: "maker_command list"
  show "freshStep b (t, cs) (modifyOrder f lvl t, cs)" by (auto simp: freshStep_def gen_modify intro: freshIDs_later)
next
  fix t :: "'d tracker_state" and lvl and cs :: "maker_command list"
  show "freshStep b (t, cs) (Remove lvl t, cs)" by (auto simp: freshStep_def Remove_def intro: freshIDs_later)
  show "freshStep b (t, cs) (snd (NextGeneration lvl t), cs)"
    by (auto simp: freshStep_def NextGeneration_def Let_def intro: freshIDs_later)
  fix m s p q
  show "freshStep b (t, cs) (snd (NextGeneration lvl t), cs @ [Register m s p q (ClientOrderID lvl (fst (NextGeneration lvl t)))])"
    using fresh_register[of b t cs lvl m s p q] by (auto simp: freshStep_def) (simp add: NextGeneration_def Let_def)
next
  fix t :: "'d tracker_state" and cs c0
  assume "\<And>a b c d e. c0 \<noteq> Register a b c d e"
  then have "registered (cs @ [c0]) = registered cs" by (rule registered_other)
  then show "freshStep b (t, cs) (t, cs @ [c0])" by (simp add: freshStep_def freshIDs_def)
next
  fix t :: "'d tracker_state" and lvl n oid coid gen l and cs :: "maker_command list"
  assume "gen \<le> tk_generations t lvl"
  then have "tk_generations (SetPending n lvl oid coid gen l t) = tk_generations t"
    by (auto simp: SetPending_def gen_put SetMaxGeneration_def)
  then show "freshStep b (t, cs) (SetPending n lvl oid coid gen l t, cs)" by (auto simp: freshStep_def intro: freshIDs_later)
qed

section \<open>A stale reference registers nothing\<close>

definition quietStep :: "'d engine_env \<Rightarrow> 'd tracker_state \<times> maker_command list \<Rightarrow> 'd tracker_state \<times> maker_command list \<Rightarrow> bool" where
  "quietStep en v v' \<longleftrightarrow> (staleProvider en \<longrightarrow> registered (snd v') = registered (snd v))"

interpretation quiet: resync_relation "quietStep en" "en :: ('d::linordered_idom) engine_env" for en
  by unfold_locales (auto simp: quietStep_def registered_other)

end
