(* ===== verification/MakerRun.thy ===== *)
theory MakerRun
  imports MakerGuarantee MakerLadder
begin

text \<open>
  Runs of the market maker from its construction (\<open>NewReconciler\<close>, \<open>NewEngine\<close>), what every
  run keeps, and why no event makes it panic when its services are wired.
\<close>

section \<open>Runs\<close>

definition NewReconciler :: "'g \<Rightarrow> 'd tracker_state \<Rightarrow> ('d, 'g) maker" where
  "NewReconciler rng tracker =
     \<lparr>kr_tracker = tracker, kr_rng = rng, kr_pendingTimeouts = (\<lambda>_. 0), kr_notFound = (\<lambda>_. 0), kr_missing = (\<lambda>_. 0),
      kr_inFlightSince = Map.empty, kr_busy = (\<lambda>_. False), kr_orphans = [], kr_refStates = Map.empty,
      kr_rebaseFailures = (\<lambda>_. 0), kr_lastRefresh = Map.empty, kr_step = 0, kr_sent = []\<rparr>"

definition NewMakerEngine :: "('d, 'g) maker \<Rightarrow> 'd inventory \<Rightarrow> ('d, 'g) maker_engine" where
  "NewMakerEngine recon mgr =
     \<lparr>ge_maker = recon, ge_inventory = mgr, ge_state = StateStarting, ge_METimeouts = (\<lambda>_. 0), ge_marketPaused = (\<lambda>_. False),
      ge_processedTrades = {}, ge_tradeHistory = [], ge_dirtyMarkets = [], ge_spreadBreach = Map.empty, ge_reconcileDue = False\<rparr>"

definition newMaker :: "'g \<Rightarrow> ('d, 'g) maker_engine" where
  "newMaker rng = NewMakerEngine (NewReconciler rng NewTracker) NewManager"

text \<open>
  The states the engine can be in between two events, whatever the services answered, the
  clock read and the ranges visited.
\<close>

inductive maker_run :: "('d::linordered_idom, 'f, 'g, 'x) maker_lib_scheme \<Rightarrow> 'd maker_config \<Rightarrow> ('d, 'g) maker_engine \<Rightarrow> bool"
  for L cfg where
  start: "startEngine L cfg en (newMaker rng) = Some (None, e) \<Longrightarrow> maker_run L cfg e"
| event: "maker_run L cfg e \<Longrightarrow> handleEvent L cfg en ev e = Some (u, e') \<Longrightarrow> maker_run L cfg e'"

inductive_cases maker_runE: "maker_run L cfg e"

text \<open>\<open>Run\<close>: the start, then the events in the order they are taken, until the context is done.\<close>

definition handleEvents :: "('d::linordered_idom, 'f, 'g, 'x) maker_lib_scheme \<Rightarrow> 'd maker_config \<Rightarrow>
    ('d engine_env \<times> 'd loop_event) list \<Rightarrow> ('d, 'g, unit) engine_job" where
  "handleEvents L cfg evs = eachJ (\<lambda>(en, ev). handleEvent L cfg en ev) evs"

definition runMaker :: "('d::linordered_idom, 'f, 'g, 'x) maker_lib_scheme \<Rightarrow> 'd maker_config \<Rightarrow> 'd engine_env \<Rightarrow>
    ('d engine_env \<times> 'd loop_event) list \<Rightarrow> ('d, 'g, 'd maker_error option) engine_job" where
  "runMaker L cfg en evs = bindJ (startEngine L cfg en) (\<lambda>err. case err of
     Some x \<Rightarrow> retJ (Some x)
   | None \<Rightarrow> thenJ (handleEvents L cfg evs) (thenJ (setState StateStopped) (retJ None)))"

section \<open>Remembered trades\<close>

definition dedup_ok :: "('d, 'g) maker_engine \<Rightarrow> bool" where
  "dedup_ok e \<longleftrightarrow> set (ge_tradeHistory e) = ge_processedTrades e \<and> distinct (ge_tradeHistory e) \<and>
     length (ge_tradeHistory e) \<le> maxTradeHistory"

lemma dedup_remember:
  assumes "dedup_ok e" and "tid \<notin> ge_processedTrades e"
  shows "dedup_ok (rememberTrade tid e)"
proof (cases "ge_tradeHistory e")
  case Nil
  with assms show ?thesis by (auto simp: dedup_ok_def rememberTrade_def Let_def maxTradeHistory_def)
next
  case (Cons t ts)
  with assms show ?thesis by (auto simp: dedup_ok_def rememberTrade_def Let_def)
qed

definition dedupStep :: "('d, 'g) maker_engine \<Rightarrow> ('d, 'g) maker_engine \<Rightarrow> bool" where
  "dedupStep e e' \<longleftrightarrow> (dedup_ok e \<longrightarrow> dedup_ok e')"

interpretation dedup: step_relation "dedupStep :: ('d, 'g) maker_engine \<Rightarrow> _"
  by unfold_locales (auto simp: dedupStep_def)

lemma dedup_in: "keepsJ dedupStep (inMaker m)"
  by (auto simp: keepsJ_def inMaker_def dedupStep_def dedup_ok_def split: option.splits)

lemma dedup_ask: "keepsJ dedupStep (askE f)"
  by (simp add: askE_def dedup_in)

lemma dedup_now: "keepsJ dedupStep (nowE en)"
  by (simp add: nowE_def dedup_ask)

lemma dedup_mod:
  "(\<And>e. ge_tradeHistory (f e) = ge_tradeHistory e) \<Longrightarrow> (\<And>e. ge_processedTrades (f e) = ge_processedTrades e) \<Longrightarrow>
   keepsJ dedupStep (modJ f)"
  by (rule dedup.modify) (simp add: dedupStep_def dedup_ok_def)

lemma dedup_setters:
  "keepsJ dedupStep (setState st)" "keepsJ dedupStep (setLiveness m n p)" "keepsJ dedupStep (markDirty m)"
  unfolding setState_def setLiveness_def markDirty_def by (rule dedup_mod; simp)+

lemmas dedup_basics = dedup_in dedup_ask dedup_now dedup_setters

lemma dedup_breach: "keepsJ dedupStep (CheckSpreadBreach L cfg en m)"
  unfolding CheckSpreadBreach_def breachBegins_def Let_def
  by (intro dedup.intros dedup_basics dedup_mod) simp_all

lemma dedup_trade: "keepsJ dedupStep (handleTrade L cfg en ev)"
  unfolding keepsJ_def
proof (intro allI impI)
  fix e a e' assume run: "handleTrade L cfg en ev e = Some (a, e')"
  have rest: "keepsJ dedupStep (if te_MMSide ev = '''' then retJ ()
      else thenJ (modJ (\<lambda>e. e\<lparr>ge_inventory := ApplyTrade (maker_trade.truncate ev) (ge_inventory e)\<rparr>))
        (bindJ (inMaker (allOrders (makerEnv en) (te_MarketID ev))) (\<lambda>rs.
         let matched = find (\<lambda>r. lo_OrderID r = te_MakerOrderID ev \<or> lo_OrderID r = te_TakerOrderID ev) rs in
         thenJ (case matched of None \<Rightarrow> retJ () | Some r \<Rightarrow> inMaker (onTracker (fillOrder (te_Quantity ev) r)))
         (bindJ (CheckSpreadBreach L cfg en (te_MarketID ev)) (\<lambda>breached.
          whenJ (matched \<noteq> None \<or> breached) (markDirty (te_MarketID ev)))))))"
    (is "keepsJ dedupStep ?rest") unfolding Let_def
    by (intro dedup.intros dedup_basics dedup_breach dedup_mod) simp_all
  show "dedupStep e e'"
  proof (cases "te_TradeID ev \<noteq> '''' \<and> te_TradeID ev \<in> ge_processedTrades e")
    case True
    with run show ?thesis by (simp add: handleTrade_def bindJ_def getJ_def retJ_def dedup.refl)
  next
    case False
    let ?e1 = "if te_TradeID ev \<noteq> '''' then rememberTrade (te_TradeID ev) e else e"
    from False have "dedupStep e ?e1" by (auto simp: dedupStep_def dedup_remember)
    moreover from run False have "?rest ?e1 = Some (a, e')"
      by (auto simp: handleTrade_def bindJ_def thenJ_def getJ_def whenJ_def modJ_def retJ_def split: if_splits)
    ultimately show ?thesis using keepsJD[OF rest] dedup.trans by blast
  qed
qed

lemma dedup_stale:
  "keepsJ dedupStep (stateOrderStale cfg en m)" "keepsJ dedupStep (inventoryStale cfg en)"
  "keepsJ dedupStep (effectiveQuote cfg en)" "keepsJ dedupStep (effectiveBase en m)"
  unfolding stateOrderStale_def inventoryStale_def effectiveQuote_def effectiveBase_def
  by (intro dedup.intros dedup_basics)+

lemma dedup_reconcile:
  "keepsJ dedupStep (runReconcileAll L cfg en)" "keepsJ dedupStep (runReconcileMarket L cfg en m)"
  unfolding runReconcileAll_def runReconcileMarket_def reconcileOne_def Let_def
  by (intro dedup.intros dedup_basics dedup_stale)+

lemma dedup_wallet: "keepsJ dedupStep (refreshWalletBalances en)"
  unfolding refreshWalletBalances_def by (intro dedup.intros dedup_basics dedup_mod) simp_all

lemma dedup_sync: "keepsJ dedupStep (syncAllMarkets L cfg en)"
proof -
  have "keepsJ dedupStep (syncMarkets L cfg en mcs)" for mcs
    by (induction mcs) (auto intro!: dedup.intros dedup_in)
  then show ?thesis by (simp add: syncAllMarkets_def)
qed

lemma dedup_event: "keepsJ dedupStep (handleEvent L cfg en ev)"
  unfolding handleEvent_def whileRunning_def reconcileDirty_def handleWalletRefresh_def handlePendingCheck_def
    pendingCheckOne_def probe_def handleCancellingCheck_def handleExpiryCheck_def expiryCheckOne_def Let_def
  by (cases ev) (auto intro!: dedup.intros dedup_basics dedup_trade dedup_reconcile dedup_wallet dedup_stale dedup_breach dedup_sync dedup_mod)

lemma dedup_start: "keepsJ dedupStep (startEngine L cfg en)"
  unfolding startEngine_def Let_def
  by (intro dedup.intros dedup_basics dedup_wallet dedup_sync dedup_reconcile)

section \<open>Every run is sound\<close>

definition maker_ok :: "('d, 'g) maker_engine \<Rightarrow> bool" where
  "maker_ok e \<longleftrightarrow> tracker_ok (kr_tracker (ge_maker e)) \<and> dedup_ok e"

lemma maker_ok_new: "maker_ok (newMaker rng)"
  by (simp add: maker_ok_def newMaker_def NewMakerEngine_def NewReconciler_def ok_NewTracker dedup_ok_def)

lemma sound_RelE: "sound.RelE e e' \<longleftrightarrow> (tracker_ok (kr_tracker (ge_maker e)) \<longrightarrow> tracker_ok (kr_tracker (ge_maker e')))"
  by (simp add: sound.RelE_def sound.Rel_def soundStep_def view_def)

lemma maker_ok_step:
  assumes "maker_ok e" and "handleEvent L cfg en ev e = Some (u, e')"
  shows "maker_ok e'"
  using assms keepsJD[OF sound.any_event assms(2)] keepsJD[OF dedup_event assms(2)]
  by (simp add: maker_ok_def sound_RelE dedupStep_def)

lemma maker_ok_start:
  assumes "maker_ok e" and "startEngine L cfg en e = Some (r, e')"
  shows "maker_ok e'"
  using assms keepsJD[OF sound.start assms(2)] keepsJD[OF dedup_start assms(2)]
  by (simp add: maker_ok_def sound_RelE dedupStep_def)

lemma maker_run_ok: "maker_run L cfg e \<Longrightarrow> maker_ok e"
  by (induction rule: maker_run.induct) (blast intro: maker_ok_start[OF maker_ok_new] maker_ok_step)+

end
