(* ===== verification/MakerTotal.thy ===== *)
theory MakerTotal
  imports MakerRun
begin

text \<open>
  When the services of the market maker are wired and its configuration makes sense, no event
  makes it panic: no division by zero, no draw from an empty range, no call on a nil client.
\<close>

section \<open>Jobs that return\<close>

text \<open>From a state with \<open>P\<close> the job returns, to a state with \<open>P\<close>.\<close>

definition totalJ :: "('s \<Rightarrow> bool) \<Rightarrow> ('s, 'a) jobs \<Rightarrow> bool" where
  "totalJ P m \<longleftrightarrow> (\<forall>s. P s \<longrightarrow> (case m s of None \<Rightarrow> False | Some (a, s') \<Rightarrow> P s'))"

named_theorems total_intros \<open>jobs that do not panic\<close>

lemma total_basic [total_intros]: "totalJ P (retJ a)" "totalJ P (getJ f)"
  by (simp_all add: totalJ_def retJ_def getJ_def)

lemma total_mod: "(\<And>s. P s \<Longrightarrow> P (f s)) \<Longrightarrow> totalJ P (modJ f)"
  by (simp add: totalJ_def modJ_def)

lemma total_know:
  assumes "totalJ P m" and "\<And>s a s'. P s \<Longrightarrow> m s = Some (a, s') \<Longrightarrow> Q a" and "\<And>a. Q a \<Longrightarrow> totalJ P (f a)"
  shows "totalJ P (bindJ m f)"
  unfolding totalJ_def
proof (intro allI impI)
  fix s assume P: "P s"
  with assms(1) obtain a s' where m: "m s = Some (a, s')" "P s'" unfolding totalJ_def by (fastforce split: option.splits)
  with assms(2)[OF P m(1)] assms(3) show "case bindJ m f s of None \<Rightarrow> False | Some (a, s') \<Rightarrow> P s'"
    unfolding totalJ_def bindJ_def by auto
qed

lemma total_bind [total_intros]: "totalJ P m \<Longrightarrow> (\<And>a. totalJ P (f a)) \<Longrightarrow> totalJ P (bindJ m f)"
  by (rule total_know[where Q = "\<lambda>_. True"]) simp_all

lemma total_seq [total_intros]: "totalJ P m \<Longrightarrow> totalJ P m' \<Longrightarrow> totalJ P (thenJ m m')"
  unfolding thenJ_def by (rule total_bind)

lemma total_each [total_intros]: "(\<And>x. x \<in> set xs \<Longrightarrow> totalJ P (f x)) \<Longrightarrow> totalJ P (eachJ f xs)"
  by (induction xs) (auto intro!: total_intros)

lemma total_loop [total_intros]: "(\<And>x a. x \<in> set xs \<Longrightarrow> totalJ P (f x a)) \<Longrightarrow> totalJ P (foldJ f xs a)"
  by (induction xs arbitrary: a) (auto intro!: total_intros)

lemma total_when [total_intros]: "(b \<Longrightarrow> totalJ P m) \<Longrightarrow> totalJ P (whenJ b m)"
  by (simp add: whenJ_def total_basic)

lemma total_if [total_intros]: "(c \<Longrightarrow> totalJ P m) \<Longrightarrow> (\<not> c \<Longrightarrow> totalJ P m') \<Longrightarrow> totalJ P (if c then m else m')"
  by simp

lemma total_option [total_intros]: "(x = None \<Longrightarrow> totalJ P m) \<Longrightarrow> (\<And>a. x = Some a \<Longrightarrow> totalJ P (f a)) \<Longrightarrow> totalJ P (case x of None \<Rightarrow> m | Some a \<Rightarrow> f a)"
  by (cases x) auto

lemma total_sum [total_intros]: "(\<And>a. totalJ P (f a)) \<Longrightarrow> (\<And>b. totalJ P (g b)) \<Longrightarrow> totalJ P (case x of Inl a \<Rightarrow> f a | Inr b \<Rightarrow> g b)"
  by (cases x) auto

lemma total_prod [total_intros]: "(\<And>a b. totalJ P (f a b)) \<Longrightarrow> totalJ P (case x of (a, b) \<Rightarrow> f a b)"
  by (cases x) auto

section \<open>Prices that can be drawn\<close>

text \<open>
  A quotient of numbers that are not negative is not negative. A reference can be drawn around
  when no zone has as many ticks as \<open>int64\<close> has values: \<open>Int63n(rangeTicks + 1)\<close> panics then.
\<close>

definition arith_ok :: "('d::linordered_idom, 'f, 'g, 'x) maker_lib_scheme \<Rightarrow> bool" where
  "arith_ok L \<longleftrightarrow> (\<forall>x y. 0 \<le> x \<longrightarrow> 0 < y \<longrightarrow> 0 \<le> k_Div L x y)"

definition bandsOf :: "zone_config \<Rightarrow> zone_band list" where
  "bandsOf z = [zc_Low z, zc_Mid z, zc_High z]"

definition usedBands :: "'d maker_market \<Rightarrow> zone_band list" where
  "usedBands mc = bandsOf (mk_BidZones mc) @ bandsOf (mk_AskZones mc) @ bandsOf DefaultZoneConfig"

definition ticksIn :: "('d::linordered_idom, 'f, 'g, 'x) maker_lib_scheme \<Rightarrow> 'd maker_market \<Rightarrow> 'd \<Rightarrow> string \<Rightarrow> zone_band \<Rightarrow> int" where
  "ticksIn L mc ref s b = (let (lo, hi) = zoneBounds L ref s b in k_IntPart L (k_Floor L (k_Div L (hi - lo) (tickSizeOf L mc))))"

definition drawable :: "('d::linordered_idom, 'f, 'g, 'x) maker_lib_scheme \<Rightarrow> 'd maker_config \<Rightarrow> 'd \<Rightarrow> bool" where
  "drawable L cfg ref \<longleftrightarrow> list_all (\<lambda>mc. list_all (\<lambda>b. ticksIn L mc ref ''BUY'' b < 9223372036854775807 \<and>
     ticksIn L mc ref ''SELL'' b < 9223372036854775807) (usedBands mc)) (kc_Markets cfg)"

definition market_ok :: "('d::linordered_idom, 'f, 'g, 'x) maker_lib_scheme \<Rightarrow> 'd maker_market \<Rightarrow> bool" where
  "market_ok L mc \<longleftrightarrow> tickSizeOf L mc \<noteq> 0 \<and> list_all (\<lambda>b. 0 \<le> zb_MinBps b \<and> 0 \<le> zb_MaxBps b) (usedBands mc)"

text \<open>A sane configuration, and services that are wired and answer with prices one can draw around.\<close>

definition config_ok :: "('d::linordered_idom, 'f, 'g, 'x) maker_lib_scheme \<Rightarrow> 'd maker_config \<Rightarrow> bool" where
  "config_ok L cfg \<longleftrightarrow> arith_ok L \<and> list_all (market_ok L) (kc_Markets cfg) \<and> list_all (drawable L cfg)
     ([0, rp_BTCSeed (kc_RefPrice cfg), rp_ETHSeed (kc_RefPrice cfg), rp_SOLSeed (kc_RefPrice cfg)] @
      map mk_ReferencePrice (kc_Markets cfg))"

definition services_ok :: "('d::linordered_idom, 'f, 'g, 'x) maker_lib_scheme \<Rightarrow> 'd maker_config \<Rightarrow> ('d, 'y) maker_env_scheme \<Rightarrow> bool" where
  "services_ok L cfg en \<longleftrightarrow> ve_hasOrderSvc en \<and> ve_hasProducer en \<and>
     (\<forall>n m p. ve_price en n m = Some p \<longrightarrow> drawable L cfg (pe_Price p))"

lemma services_truncate: "services_ok L cfg (makerEnv en) \<longleftrightarrow> services_ok L cfg en"
  by (simp add: services_ok_def maker_env.truncate_def)

lemma ticks_drawable:
  assumes "drawable L cfg ref" and "mc \<in> set (kc_Markets cfg)" and "b \<in> set (usedBands mc)"
  shows "ticksIn L mc ref s b < 9223372036854775807"
proof (cases "s = ''BUY''")
  case True
  with assms show ?thesis by (auto simp: drawable_def list_all_iff)
next
  case False
  then have "ticksIn L mc ref s b = ticksIn L mc ref ''SELL'' b" by (simp add: ticksIn_def zoneBounds_def)
  with assms show ?thesis by (auto simp: drawable_def list_all_iff)
qed

lemma band_divisor:
  assumes "arith_ok (L :: ('d::linordered_idom, 'f, 'g, 'x) maker_lib_scheme)" and "0 \<le> bps"
  shows "1 + k_Div L (of_int bps) (of_int 10000) \<noteq> 0"
proof -
  have "(0::'d) \<le> of_int bps" "(0::'d) < of_int 10000" using assms(2) by simp_all
  with assms(1) have "0 \<le> k_Div L (of_int bps) (of_int 10000)" unfolding arith_ok_def by blast
  then show ?thesis by (metis add_pos_nonneg less_irrefl zero_less_one)
qed

lemma runs_know: "runs m \<Longrightarrow> yields m Q \<Longrightarrow> (\<And>a. Q a \<Longrightarrow> runs (f a)) \<Longrightarrow> runs (bindD m f)"
  unfolding runs_def yields_def bindD_def by (fastforce split: option.splits sum.splits prod.splits)

lemma runs_quotient: "y \<noteq> 0 \<Longrightarrow> runs (f (k_Div L x y)) \<Longrightarrow> runs (bindD (Div L x y) f)"
  by (rule runs_know[OF runs_Div yields_Div]) simp_all

lemma runs_tryPrices: "0 < int64 (n + 1) \<Longrightarrow> runs (tryPrices L mc ref s taken lo hi tick n k)"
  by (induction k) (auto simp: Let_def intro!: runs_intros)

lemma int64_ticks: "0 < n \<Longrightarrow> n < 9223372036854775807 \<Longrightarrow> 0 < int64 (n + 1)"
  by (simp add: int64_def sint_word_ariths) (simp add: sint_sbintrunc' signed_take_bit_int_eq_self)

text \<open>The condition on one zone of a market.\<close>

definition zoneDraws :: "('d::linordered_idom, 'f, 'g, 'x) maker_lib_scheme \<Rightarrow> 'd maker_market \<Rightarrow> 'd \<Rightarrow> zone_band \<Rightarrow> bool" where
  "zoneDraws L mc ref b \<longleftrightarrow> arith_ok L \<and> tickSizeOf L mc \<noteq> 0 \<and> 0 \<le> zb_MinBps b \<and> 0 \<le> zb_MaxBps b \<and>
     (\<forall>s. ticksIn L mc ref s b < 9223372036854775807)"

lemma runs_price:
  assumes "zoneDraws L mc ref b"
  shows "runs (GenerateLevelPrice L mc ref s b taken)"
  unfolding GenerateLevelPrice_def
proof (rule runs_know[OF _ yields_zoneRange])
  show "runs (zoneRange L ref s b)"
    using assms unfolding zoneRange_def Let_def zoneDraws_def by (intro runs_intros band_divisor) simp_all
next
  fix x assume x: "x = zoneBounds L ref s b"
  have t: "k_IntPart L (k_Floor L (k_Div L (snd x - fst x) (tickSizeOf L mc))) < 9223372036854775807"
    using assms by (simp add: zoneDraws_def ticksIn_def x split_beta Let_def)
  show "runs (case x of (minPrice, maxPrice) \<Rightarrow>
      let tickSize = tickSizeOf L mc in
      bindD (Div L (maxPrice - minPrice) tickSize) (\<lambda>ticks.
        let rangeTicks = k_IntPart L (k_Floor L ticks) in
        if rangeTicks \<le> 0 then
          (let normalised = roundToTick L (k_Div L (minPrice + maxPrice) (of_int 2)) tickSize
           in if normalised < minPrice \<or> maxPrice < normalised then drawErr (OutOfZone normalised minPrice maxPrice)
              else if s = ''BUY'' \<and> \<not> normalised < ref then drawErr (NotBelowRef normalised ref)
              else if s = ''SELL'' \<and> \<not> ref < normalised then drawErr (NotAboveRef normalised ref)
              else if d_String L normalised \<in> taken then drawErr (PriceTaken normalised)
              else drawn normalised)
        else tryPrices L mc ref s taken minPrice maxPrice tickSize rangeTicks maxPriceRetries))"
    unfolding split_beta Let_def
  proof (rule runs_quotient)
    show "tickSizeOf L mc \<noteq> 0" using assms by (simp add: zoneDraws_def)
  qed (intro runs_intros runs_tryPrices int64_ticks; simp add: t not_le)
qed

lemma runs_quantity: "runs (ResolveLevelQuantity L mc base zone slot n rng)"
  unfolding ResolveLevelQuantity_def Let_def by (intro runs_intros)

lemma runs_level: "zoneDraws L mc ref b \<Longrightarrow> runs (generateLevel L mc ref s base tracker ver zone b slot idx taken)"
  unfolding generateLevel_def Let_def
  by (auto split: option.splits intro!: runs_intros runs_quantity runs_price)

lemma runs_slots: "zoneDraws L mc ref b \<Longrightarrow> runs (generateSlots L mc ref s base tracker ver zone b n slot idx taken)"
  by (induction n arbitrary: slot idx taken) (auto simp: split_beta intro!: runs_intros runs_level)

lemma runs_side:
  assumes "list_all (zoneDraws L mc ref) (bandsOf z)"
  shows "runs (generateSide L mc ref s z base tracker taken ver)"
  using assms unfolding generateSide_def Let_def split_beta bandsOf_def by (intro runs_intros runs_slots) simp_all

text \<open>Allocation changes how many levels a zone has, not its band.\<close>

lemma zoneDraws_count: "zoneDraws L mc ref (b\<lparr>zb_Count := n\<rparr>) \<longleftrightarrow> zoneDraws L mc ref b"
  by (simp add: zoneDraws_def ticksIn_def zoneBounds_def)

lemma draws_allocated:
  "list_all (zoneDraws L mc ref) (bandsOf z) \<Longrightarrow> list_all (zoneDraws L mc ref) (bandsOf DefaultZoneConfig) \<Longrightarrow>
   list_all (zoneDraws L mc ref) (bandsOf (AllocateZones n z))"
  by (simp add: AllocateZones_def Let_def bandsOf_def zoneDraws_count)

lemma market_draws:
  assumes "config_ok L cfg" and "mc \<in> set (kc_Markets cfg)" and "drawable L cfg ref"
  shows "list_all (zoneDraws L mc ref) (usedBands mc)"
  using assms ticks_drawable[OF assms(3,2)]
  by (auto simp: config_ok_def market_ok_def list_all_iff zoneDraws_def)

lemma runs_ladder:
  assumes "config_ok L cfg" and "mc \<in> set (kc_Markets cfg)" and "drawable L cfg ref"
  shows "runs (zonedDesired L mc ref tracker (mk_BidZones mc) (mk_AskZones mc) ver nb na)"
  using market_draws[OF assms] unfolding zonedDesired_def Let_def split_beta usedBands_def list_all_append
  by (intro runs_intros runs_side draws_allocated) simp_all

lemma draws_for:
  assumes "config_ok L cfg" and "mc \<in> set (kc_Markets cfg)" and "drawable L cfg ref"
  shows "zoneDraws L mc ref (bandFor (zonesOf mc s) z)"
  using market_draws[OF assms]
  by (auto simp: bandFor_def zonesOf_def usedBands_def bandsOf_def Let_def)

section \<open>The reconciler\<close>

text \<open>Every reference that is stored can be drawn around.\<close>

definition refsOk :: "('d \<Rightarrow> bool) \<Rightarrow> ('d, 'g) maker \<Rightarrow> bool" where
  "refsOk C s \<longleftrightarrow> (\<forall>m st. kr_refStates s m = Some st \<longrightarrow> C (rs_LastRef st) \<and> C (rs_RebaseTargetRef st))"

lemma refsOk_same: "kr_refStates s' = kr_refStates s \<Longrightarrow> refsOk C s \<Longrightarrow> refsOk C s'"
  by (simp add: refsOk_def)

lemma total_same: "(\<And>s. kr_refStates (f s) = kr_refStates s) \<Longrightarrow> totalJ (refsOk C) (modJ f)"
  by (rule total_mod) (blast intro: refsOk_same)

lemma total_ask [total_intros]: "totalJ (refsOk C) (askJ h)"
  by (auto simp: totalJ_def askJ_def intro: refsOk_same)

lemma total_tracker [total_intros]: "totalJ (refsOk C) (onTracker i)"
  unfolding onTracker_def by (rule total_same) simp

lemma total_draw: "runs m \<Longrightarrow> totalJ (refsOk C) (drawJ m)"
  unfolding runs_def totalJ_def drawJ_def by (fastforce split: option.splits intro: refsOk_same)

lemma total_put: "C (rs_LastRef st) \<Longrightarrow> C (rs_RebaseTargetRef st) \<Longrightarrow> totalJ (refsOk C) (putRef m st)"
  unfolding putRef_def by (rule total_mod) (simp add: refsOk_def)

text \<open>What the two places that read a stored reference know of it.\<close>

lemma total_getRef:
  assumes "\<And>x. (\<forall>st. x = Some st \<longrightarrow> C (rs_LastRef st) \<and> C (rs_RebaseTargetRef st)) \<Longrightarrow> totalJ (refsOk C) (f (g x))"
  shows "totalJ (refsOk C) (bindJ (getJ (\<lambda>s. g (kr_refStates s m))) f)"
proof (rule total_know[where Q = "\<lambda>y. \<exists>x. y = g x \<and> (\<forall>st. x = Some st \<longrightarrow> C (rs_LastRef st) \<and> C (rs_RebaseTargetRef st))"])
  show "\<exists>x. a = g x \<and> (\<forall>st. x = Some st \<longrightarrow> C (rs_LastRef st) \<and> C (rs_RebaseTargetRef st))"
    if "refsOk C s" "getJ (\<lambda>s. g (kr_refStates s m)) s = Some (a, s')" for s a s'
    using that by (auto simp: getJ_def refsOk_def)
qed (use assms in \<open>auto intro: total_basic\<close>)

abbreviation returns :: "('d::linordered_idom, 'f, 'h, 'x) maker_lib_scheme \<Rightarrow> 'd maker_config \<Rightarrow> ('d, 'g, 'a) job \<Rightarrow> bool" where
  "returns L cfg \<equiv> totalJ (refsOk (drawable L cfg))"

lemma total_plain [total_intros]:
  "totalJ (refsOk C) (nowJ en)" "totalJ (refsOk C) (allOrders en m)" "totalJ (refsOk C) (removeTrackedOrder lvl)"
  "totalJ (refsOk C) (inFlight lvl n)" "totalJ (refsOk C) (refreshedAt lvl n)" "totalJ (refsOk C) (clearFailure lvl)"
  "totalJ (refsOk C) (countFailure lvl)" "totalJ (refsOk C) (pruneOrphans m snap)" "totalJ (refsOk C) (storeZones mc v rs)"
  "totalJ (refsOk C) (recoverGenerations en m)" "totalJ (refsOk C) (creationBlocked en mc l)"
  unfolding nowJ_def allOrders_def removeTrackedOrder_def inFlight_def refreshedAt_def clearFailure_def
    countFailure_def pruneOrphans_def storeZones_def recoverGenerations_def creationBlocked_def
  by (intro total_intros total_same; simp)+

lemma total_nextGeneration [total_intros]: "totalJ (refsOk C) (nextGeneration lvl)"
  by (auto simp: totalJ_def nextGeneration_def intro: refsOk_same split: prod.splits)

lemma total_calls:
  assumes "services_ok L cfg en"
  shows "totalJ (refsOk C) (publishJ en c)" "totalJ (refsOk C) (registerJ en c)" "totalJ (refsOk C) (cancelJ en oid)"
    "totalJ (refsOk C) (lookupJ en coid)"
  using assms unfolding publishJ_def registerJ_def cancelJ_def lookupJ_def sendJ_def services_ok_def
  by (simp_all, (intro total_intros total_same; simp)+)

lemma total_submit: "services_ok L' cfg en \<Longrightarrow> totalJ (refsOk C) (submitLevel L en mc note lvl l)"
  unfolding submitLevel_def Let_def by (intro total_intros total_calls)

lemma total_cancel: "services_ok L cfg en \<Longrightarrow> totalJ (refsOk C) (applyCancel en mc e)"
  unfolding applyCancel_def by (intro total_intros total_calls)

lemma total_confirm [total_intros]: "totalJ (refsOk C) (ConfirmOSRegisteredOrders L en m h)"
  unfolding ConfirmOSRegisteredOrders_def ConfirmRestingFromSnapshot_def confirmResting_def
  by (intro total_intros total_same) simp

lemma total_pending:
  assumes "services_ok L' cfg' en"
  shows "totalJ (refsOk C) (CheckPendingTimeouts L cfg en m)"
proof -
  have "totalJ (refsOk C) (resolvePending en m' r)" for m' r
    unfolding resolvePending_def
    by (auto intro!: total_intros total_same total_calls[OF assms] split: sum.splits lookup_error.splits)
  then show ?thesis
    unfolding CheckPendingTimeouts_def checkPending_def by (intro total_intros total_same total_calls[OF assms]) simp_all
qed

lemma total_book:
  assumes "services_ok L' cfg' en"
  shows "totalJ (refsOk C) (syncWithMESnapshot L cfg en mc snap)"
proof -
  have "totalJ (refsOk C) (handleMissingRestingOrder en mc' r)" for mc' r
    unfolding handleMissingRestingOrder_def Let_def
    by (auto intro!: total_intros total_same total_calls[OF assms] split: sum.splits lookup_error.splits)
  then show ?thesis
    unfolding syncWithMESnapshot_def syncMakerOrder_def promote_def cancelOrphan_def checkPresent_def Let_def
    by (intro total_intros total_same total_calls[OF assms]) simp_all
qed

subsection \<open>The reference\<close>

text \<open>The current reference can be drawn around, and so can every one it stores.\<close>

lemma seed_drawable:
  assumes "config_ok L cfg" and "drawable L cfg (mk_ReferencePrice mc)"
  shows "drawable L cfg (seedPrice cfg mc)"
  using assms by (auto simp: seedPrice_def SeedForMarket_def config_ok_def Let_def)

lemma total_live:
  assumes "config_ok L cfg" and "drawable L cfg (pe_Price p)"
  shows "returns L cfg (liveReference en m p)"
  unfolding liveReference_def
proof (rule total_getRef)
  fix x :: "'a ref_state option"
  assume x: "\<forall>st. x = Some st \<longrightarrow> drawable L cfg (rs_LastRef st) \<and> drawable L cfg (rs_RebaseTargetRef st)"
  have "drawable L cfg 0" using assms(1) by (simp add: config_ok_def)
  with x assms(2) have "drawable L cfg (rs_LastRef (acceptEntry p x)) \<and> drawable L cfg (rs_RebaseTargetRef (acceptEntry p x))"
    by (auto simp: acceptEntry_def newRefState_def split: option.splits)
  then show "returns L cfg (bindJ (if pe_FetchedAt p \<noteq> 0 then retJ (pe_FetchedAt p) else nowJ en) (\<lambda>updated.
     thenJ (putRef m (acceptEntry p x\<lparr>rs_LastUpdated := updated, rs_Freshness := freshnessOf (pe_State p)\<rparr>))
       (retJ \<lparr>rf_Price = pe_Price p, rf_Version = pe_Version p, rf_FetchedAt = updated, rf_Freshness = freshnessOf (pe_State p)\<rparr>)))"
    by (intro total_intros total_put) simp_all
qed

lemma total_unavailable:
  assumes "config_ok L cfg" and "drawable L cfg (mk_ReferencePrice mc)"
  shows "returns L cfg (staleReference cfg en mc)" "returns L cfg (offlineReference cfg en mc)"
  using assms seed_drawable[OF assms] unfolding staleReference_def offlineReference_def Let_def
  by (intro total_getRef[where g = "\<lambda>x. x"] total_intros total_put; simp add: newRefState_def config_ok_def)+

lemma total_reference:
  assumes "config_ok L cfg" and "services_ok L cfg en" and "drawable L cfg (mk_ReferencePrice mc)"
  shows "returns L cfg (currentReference cfg en mc)"
proof -
  have "returns L cfg (case entry of
      Some e \<Rightarrow> if pe_Price e \<noteq> 0 \<and> \<not> pe_Price e < 0 then liveReference en (mk_MarketID mc) e else staleReference cfg en mc
    | None \<Rightarrow> staleReference cfg en mc)" if "entry = None \<or> drawable L cfg (pe_Price (the entry))" for entry
    using that by (intro total_intros total_unavailable total_live assms) auto
  moreover have "askJ (\<lambda>n. ve_price en n i) s = Some (entry, s') \<Longrightarrow> entry = None \<or> drawable L cfg (pe_Price (the entry))"
    for i s entry s'
    using assms(2) by (cases entry) (auto simp: askJ_def services_ok_def)
  ultimately show ?thesis
    unfolding currentReference_def
    by (intro total_if total_unavailable assms(1,3) total_know[where Q = "\<lambda>entry. entry = None \<or> drawable L cfg (pe_Price (the entry))"]
        total_ask) blast+
qed

lemma reference_price:
  assumes "config_ok L cfg" and "services_ok L cfg en" and "drawable L cfg (mk_ReferencePrice mc)"
    and "refsOk (drawable L cfg) s" and "currentReference cfg en mc s = Some (snap, s')"
  shows "drawable L cfg (rf_Price snap)"
  using assms(2,4,5) seed_drawable[OF assms(1,3)]
  by (auto simp: services_ok_def refsOk_def currentReference_def liveReference_def staleReference_def offlineReference_def bindJ_def
      thenJ_def askJ_def nowJ_def getJ_def retJ_def putRef_def modJ_def Let_def referenceOf_def split: option.splits if_splits)

lemma market_reference:
  assumes "config_ok L cfg"
  shows "mc \<in> set (kc_Markets cfg) \<Longrightarrow> drawable L cfg (mk_ReferencePrice mc)"
    and "drawable L cfg (mk_ReferencePrice (marketOrBare cfg m))"
  using assms by (auto simp: config_ok_def list_all_iff marketOrBare_def bareMarket_def ForMarket_def find_Some_iff Let_def
      split: option.splits)

lemma ForMarket_mem: "ForMarket cfg m = Some mc \<Longrightarrow> mc \<in> set (kc_Markets cfg)"
  by (auto simp: ForMarket_def find_Some_iff)

lemma total_with_reference:
  assumes "config_ok L cfg" and "services_ok L cfg en" and "mc \<in> set (kc_Markets cfg)"
    and "\<And>snap. drawable L cfg (rf_Price snap) \<Longrightarrow> returns L cfg (f snap)"
  shows "returns L cfg (bindJ (currentReference cfg en mc) f)"
  by (rule total_know[OF total_reference[OF assms(1,2) market_reference(1)[OF assms(1,3)]] _ assms(4)])
    (rule reference_price[OF assms(1,2) market_reference(1)[OF assms(1,3)]])

lemma total_allows:
  assumes "config_ok L cfg" and "services_ok L cfg en"
  shows "returns L cfg (allowsNewLiquidity cfg en m)"
  unfolding allowsNewLiquidity_def by (intro total_intros total_reference[OF assms] market_reference[OF assms(1)])

lemma total_refusal:
  assumes "config_ok L cfg" and "services_ok L cfg en" and "mc \<in> set (kc_Markets cfg)"
  shows "returns L cfg (refusalReason cfg en mc)"
  unfolding refusalReason_def by (intro total_intros total_reference[OF assms(1,2)] market_reference(1)[OF assms(1,3)])

subsection \<open>Jobs of one market\<close>

lemma total_entry:
  assumes "config_ok L cfg" and "services_ok L cfg en" and "mc \<in> set (kc_Markets cfg)"
  shows "returns L cfg (applyEntry L cfg en mc e)"
  unfolding applyEntry_def applyCreate_def Let_def
  by (cases "de_Action e") (auto intro!: total_intros total_allows[OF assms(1,2)] total_refusal[OF assms] total_submit[OF assms(2)]
      total_cancel[OF assms(2)])

lemma total_replacement:
  assumes "config_ok L cfg" and "services_ok L cfg en" and "mc \<in> set (kc_Markets cfg)"
  shows "returns L cfg (submitReplacement L cfg en mc r rem l)"
  unfolding submitReplacement_def Let_def
  by (intro total_intros total_allows[OF assms(1,2)] total_refusal[OF assms] total_submit[OF assms(2)])

lemma total_cancelling:
  assumes "config_ok L cfg" and "services_ok L cfg en"
  shows "returns L cfg (CheckCancellingTimeouts L cfg en m)"
proof -
  have "returns L cfg (handleCancellingTimeout L cfg en mc r)" if "mc \<in> set (kc_Markets cfg)" for mc r
    unfolding handleCancellingTimeout_def retryCancelOrStale_def Let_def
    by (rule total_bind)
      (auto intro!: total_intros total_calls[OF assms(2)] total_replacement[OF assms that] split: sum.splits lookup_error.splits)
  then show ?thesis unfolding CheckCancellingTimeouts_def checkCancelling_def by (intro total_intros) (auto dest: ForMarket_mem)
qed

lemma total_resync:
  assumes "config_ok L cfg" and "services_ok L cfg en"
  shows "returns L cfg (SyncFromOrderService L cfg en m)"
proof -
  have "returns L cfg (resolveAbsent L cfg en mc S r)" if "mc \<in> set (kc_Markets cfg)" for mc S r
    unfolding resolveAbsent_def
    by (cases "lo_Status r") (auto intro!: total_intros total_replacement[OF assms that] split: option.splits)
  with assms(2) show ?thesis unfolding SyncFromOrderService_def services_ok_def
    by (auto intro!: total_intros dest: ForMarket_mem split: option.splits)
qed

lemma total_consumed:
  assumes "config_ok L cfg" and "services_ok L cfg en"
  shows "returns L cfg (CheckConsumedOrders L cfg en m)"
  unfolding CheckConsumedOrders_def cancelConsumed_def
  by (intro total_intros total_with_reference[OF assms] total_cancel[OF assms(2)]) (auto dest: ForMarket_mem)

lemma total_price:
  assumes "config_ok L cfg" and "mc \<in> set (kc_Markets cfg)" and "drawable L cfg ref"
  shows "returns L cfg (drawJ (GenerateLevelPrice L mc ref s (bandFor (zonesOf mc s) z) taken))"
  using assms by (intro total_draw runs_price draws_for)

lemma total_expired:
  assumes "config_ok L cfg" and "services_ok L cfg en"
  shows "returns L cfg (CheckExpiredOrders L cfg en m)"
proof -
  have "returns L cfg (expireOrder L en mc ref v n r x)" if "mc \<in> set (kc_Markets cfg)" "drawable L cfg ref" for mc ref v n r x
    unfolding expireOrder_def Let_def by (intro total_intros total_cancel[OF assms(2)] total_price[OF assms(1) that])
  then show ?thesis
    unfolding CheckExpiredOrders_def by (intro total_intros total_with_reference[OF assms]) (auto dest: ForMarket_mem)
qed

lemma total_finish:
  assumes "config_ok L cfg"
  shows "returns L cfg (finishRebase en mc ref v n rs)"
  unfolding finishRebase_def Let_def
  by (rule total_getRef[where g = "\<lambda>x. x"]) (auto intro!: total_intros total_put total_same split: option.splits)

lemma total_reprice:
  assumes "config_ok L cfg" and "services_ok L cfg en" and "mc \<in> set (kc_Markets cfg)" and "drawable L cfg ref"
  shows "returns L cfg (applyRefMovementReprice L en mc ref v a)"
  unfolding applyRefMovementReprice_def repriceLevel_def Let_def
  by (intro total_intros total_finish[OF assms(1)] total_cancel[OF assms(2)] total_price[OF assms(1,3,4)])

lemma total_rebase:
  assumes "config_ok L cfg" and "services_ok L cfg en" and "mc \<in> set (kc_Markets cfg)" and "drawable L cfg ref"
    and "drawable L cfg (rs_LastRef st)" and "drawable L cfg (rs_RebaseTargetRef st)"
  shows "returns L cfg (rebaseStep L en mc ref ver action st)"
  unfolding rebaseStep_def Let_def
  using assms(4-) by (intro total_intros total_put total_reprice[OF assms(1-3)]) (simp_all add: targetRebase_def)

lemma total_ladder:
  assumes "config_ok L cfg" and "services_ok L cfg en" and "mc \<in> set (kc_Markets cfg)" and "drawable L cfg ref"
  shows "returns L cfg (ladderStep L cfg en mc ref ver action nb na n)"
  unfolding ladderStep_def applyEntries_def GenerateZonedDesired_def option.case
  by (intro total_intros total_entry[OF assms(1-3)] total_draw[OF runs_ladder[OF assms(1,3,4)]])

lemma total_body:
  assumes "config_ok L cfg" and "services_ok L cfg en" and "mc \<in> set (kc_Markets cfg)"
  shows "returns L cfg (reconcileBody L cfg en mc nb na)"
  unfolding reconcileBody_def Let_def
  by (rule total_with_reference[OF assms],
      rule total_getRef[where g = "\<lambda>x. case x of Some st \<Rightarrow> st | None \<Rightarrow> newRefState"],
      intro total_intros total_put total_book[OF assms(2)] total_rebase[OF assms] total_ladder[OF assms])
    (use assms(1) in \<open>auto simp: anchor_def newRefState_def config_ok_def Let_def split: option.splits\<close>)

lemma total_reconcile:
  assumes "config_ok L cfg" and "services_ok L cfg en"
  shows "returns L cfg (ReconcileMarket L cfg en m nb na)"
  unfolding ReconcileMarket_def Let_def
  by (intro total_intros total_same total_body[OF assms]) (auto dest: ForMarket_mem)

section \<open>The engine\<close>

definition refsOkE :: "('d \<Rightarrow> bool) \<Rightarrow> ('d, 'g) maker_engine \<Rightarrow> bool" where
  "refsOkE C e \<longleftrightarrow> refsOk C (ge_maker e)"

lemma total_in [total_intros]: "totalJ (refsOk C) m \<Longrightarrow> totalJ (refsOkE C) (inMaker m)"
  unfolding totalJ_def inMaker_def refsOkE_def by (auto split: option.splits)

lemma total_outside: "(\<And>e. ge_maker (f e) = ge_maker e) \<Longrightarrow> totalJ (refsOkE C) (modJ f)"
  by (rule total_mod) (simp add: refsOkE_def)

lemma total_engine [total_intros]:
  "totalJ (refsOkE C) (askE f)" "totalJ (refsOkE C) (nowE en)" "totalJ (refsOkE C) (setState st)"
  "totalJ (refsOkE C) (setLiveness mk n p)" "totalJ (refsOkE C) (markDirty mk)" "totalJ (refsOkE C) (stateOrderStale cfg en mk)"
  "totalJ (refsOkE C) (inventoryStale cfg en)" "totalJ (refsOkE C) (effectiveQuote cfg en)" "totalJ (refsOkE C) (effectiveBase en mk)"
  "totalJ (refsOkE C) (refreshWalletBalances en)" "totalJ (refsOkE C) (probe en)" "totalJ (refsOkE C) (CheckSpreadBreach L cfg en mk)"
  unfolding nowE_def setState_def setLiveness_def markDirty_def askE_def stateOrderStale_def inventoryStale_def effectiveQuote_def
    effectiveBase_def refreshWalletBalances_def probe_def CheckSpreadBreach_def breachBegins_def Let_def
  by (intro total_intros total_outside; simp)+

lemma total_round:
  assumes "config_ok L cfg" and "services_ok L cfg en"
  shows "totalJ (refsOkE (drawable L cfg)) (runReconcileAll L cfg en)"
    "totalJ (refsOkE (drawable L cfg)) (runReconcileMarket L cfg en mk)"
  unfolding runReconcileAll_def runReconcileMarket_def reconcileOne_def Let_def
  using assms by (intro total_intros total_reconcile total_consumed; simp add: services_truncate)+

lemma total_syncAll:
  assumes "config_ok L cfg" and "services_ok L cfg en"
  shows "totalJ (refsOkE (drawable L cfg)) (syncAllMarkets L cfg en)"
proof -
  have "totalJ (refsOkE (drawable L cfg)) (syncMarkets L cfg en mcs)" for mcs
    using assms by (induction mcs) (auto intro!: total_intros total_resync simp: services_truncate)
  then show ?thesis by (simp add: syncAllMarkets_def)
qed

lemma total_trade [total_intros]: "totalJ (refsOkE C) (handleTrade L cfg en ev)"
  unfolding handleTrade_def rememberTrade_def Let_def by (intro total_intros total_outside) simp_all

lemma total_event:
  assumes "config_ok L cfg" and "services_ok L cfg en"
  shows "totalJ (refsOkE (drawable L cfg)) (handleEvent L cfg en ev)"
proof (cases ev)
  case PendingCheck
  with assms show ?thesis
    unfolding handleEvent_def loop_event.case handlePendingCheck_def pendingCheckOne_def Let_def
    by (auto intro!: total_intros total_pending simp: services_truncate)
next
  case ExpiryCheck
  with assms show ?thesis
    unfolding handleEvent_def loop_event.case whileRunning_def handleExpiryCheck_def expiryCheckOne_def
    by (auto intro!: total_intros total_consumed total_expired simp: services_truncate)
qed (use assms in \<open>auto simp: handleEvent_def whileRunning_def reconcileDirty_def handleWalletRefresh_def
      handleCancellingCheck_def services_truncate intro!: total_intros total_outside total_round total_syncAll total_cancelling\<close>)

lemma total_start:
  assumes "config_ok L cfg" and "services_ok L cfg en"
  shows "totalJ (refsOkE (drawable L cfg)) (startEngine L cfg en)"
  unfolding startEngine_def Let_def
  by (intro total_intros total_syncAll[OF assms] total_round[OF assms])

end
