(* ===== verification/MakerSample.thy ===== *)
theory MakerSample
  imports MakerTotal
begin

text \<open>
  An instance of the outside code on the rationals, a market with one level on each side, and
  an environment, for the witnesses of the properties of the market maker.
\<close>

definition rat_string :: "rat \<Rightarrow> string" where
  "rat_string x = (case quotient_of x of (n, d) \<Rightarrow>
     (if n < 0 then ''-'' else '''') @ itoa (nat \<bar>n\<bar>) @ (if d = 1 then '''' else ''/'' @ itoa (nat d)))"

definition rat_mod :: "rat \<Rightarrow> rat \<Rightarrow> rat" where
  "rat_mod x m = x - of_int \<lfloor>x / m\<rfloor> * m"

definition rat_mlib :: "(rat, rat, nat) maker_lib" where
  "rat_mlib = \<lparr>d_String = rat_string, d_NewFromString = (\<lambda>s. map_option of_nat (ParseUint64 s)), d_Mod = rat_mod,
     u_String = (\<lambda>u. itoa (nat (uint u))), u_Parse = (\<lambda>s. map_option of_nat (ParseUint64 s)),
     u_NewSHA1_DNS = (\<lambda>s. word_of_int (int (length s))),
     t_FormatNano = (\<lambda>t. itoa (nat t)), t_ParseNano = (\<lambda>s. map_option int (ParseUint64 s)),
     k_Div = (/), k_Floor = (\<lambda>x. of_int \<lfloor>x\<rfloor>), k_Round = (\<lambda>x n. of_int (round (x * 10 ^ nat n)) / 10 ^ nat n),
     k_IntPart = (\<lambda>x. int64 \<lfloor>x\<rfloor>), k_FromFloat = id, k_Literal = id, k_Float64 = id,
     f_const = id, f_ofInt = of_int, f_add = (+), f_sub = (-), f_mul = (*), f_div = (/), f_neg = uminus, f_less = (<),
     r_Int63n = (\<lambda>g n. (int g mod n, g + 1)), r_Float64 = (\<lambda>g. (1 / 2, g + 1)), r_New = nat\<rparr>"

definition sampleZones :: zone_config where
  "sampleZones = \<lparr>zc_Low = \<lparr>zb_MinBps = 100, zb_MaxBps = 500, zb_Count = 1\<rparr>,
     zc_Mid = \<lparr>zb_MinBps = 500, zb_MaxBps = 600, zb_Count = 0\<rparr>, zc_High = \<lparr>zb_MinBps = 600, zb_MaxBps = 700, zb_Count = 0\<rparr>\<rparr>"

definition sampleMarket :: "rat maker_market" where
  "sampleMarket = (bareMarket ''SOL-USDT'')\<lparr>mk_TickSize := 1, mk_LotSize := 1, mk_LevelCount := 1, mk_MinOrderSize := 1,
     mk_BidZones := sampleZones, mk_AskZones := sampleZones, mk_QtyPerLevel := 10, mk_ReferencePrice := 100\<rparr>"

definition sampleConfig :: "rat maker_config" where
  "sampleConfig = \<lparr>kc_Markets = [sampleMarket], kc_MaxBalanceStaleness = 10, kc_MaxOrderStateStaleness = 10,
     kc_PendingTimeout = 10, kc_CancellingTimeout = 10, kc_CancelRetryLimit = 3, kc_OrphanCancelCooldown = 5,
     kc_RefPrice = \<lparr>rp_PauseThreshold = 0, rp_BTCSeed = 0, rp_ETHSeed = 0, rp_SOLSeed = 100\<rparr>\<rparr>"

text \<open>Services that are wired: registration succeeds, the book is live and empty, the price is fresh or not.\<close>

definition sampleEnv :: "price_state \<Rightarrow> rat engine_env" where
  "sampleEnv st = \<lparr>ve_now = (\<lambda>_. 5), ve_visit = (\<lambda>_ ks. ks), ve_hasProvider = True,
     ve_price = (\<lambda>_ _. Some \<lparr>pe_Price = 100, pe_Version = 1, pe_FetchedAt = 4, pe_State = st\<rparr>),
     ve_hasOrderSvc = True,
     ve_create = (\<lambda>_ c. Some \<lparr>st_OrderID = ''o'', st_Status = ''OPEN'', st_RemainingQty = 1, st_OriginalQty = 1\<rparr>),
     ve_cancel = (\<lambda>_ _. True), ve_lookup = (\<lambda>_ _. Inl ErrOrderNotFound), ve_list = (\<lambda>_ _. Some []), ve_recover = None,
     ve_hasProducer = True, ve_publish = (\<lambda>_ _. True), ve_hasME = True,
     ve_snapshot = (\<lambda>_ _. Some \<lparr>mz_State = ''LIVE'', mz_Orders = []\<rparr>),
     gv_health = (\<lambda>_. Some {''SOL-USDT''}),
     gv_wallet = Some (\<lambda>_. Some [(''SOL'', 1000), (''USDT'', 100000)]), gv_MELivenessThreshold = 3\<rparr>"

end
