(* ===== verification/MakerClaims.thy ===== *)
theory MakerClaims
  imports MakerSample
begin

text \<open>
  The properties of what the market maker computes: its ladder, the comparison with its orders,
  the IDs and quantities of what it sends.
\<close>

section \<open>The ladder\<close>

text \<open>The levels of one side, slot by slot, in the zones their IDs resolve to.\<close>

definition sideSound :: "('d::linordered_idom, 'f, 'g, 'x) maker_lib_scheme \<Rightarrow> 'd maker_market \<Rightarrow> 'd \<Rightarrow> string \<Rightarrow>
    (string \<Rightarrow> 'd active_level option) \<Rightarrow> int \<Rightarrow> zone_config \<Rightarrow> int \<Rightarrow> 'd maker_level list \<Rightarrow> bool" where
  "sideSound L mc ref s tracker ver z n ls \<longleftrightarrow>
     int (length ls) = min (max n 0) (TotalLevels (fullZones z)) \<and>
     (\<forall>i<length ls. quoteOk L mc ref s tracker ver (ResolveZoneForLevel (int i + 1) z)
        (bandFor (fullZones z) (ResolveZoneForLevel (int i + 1) z)) (int i + 1) (priceKeys L (take i ls)) (ls ! i))"

lemma quoteOk_band:
  assumes "zb_MinBps b = zb_MinBps b'" and "zb_MaxBps b = zb_MaxBps b'"
  shows "quoteOk L mc ref s tracker ver zone b idx taken l \<longleftrightarrow> quoteOk L mc ref s tracker ver zone b' idx taken l"
proof -
  have "inZone L ref s b = inZone L ref s b'" using assms by (simp add: fun_eq_iff inZone_def zoneBounds_def bpsMultiplier_def)
  then show ?thesis by (cases "tracker (pl_LevelID l)") (simp_all add: quoteOk_def)
qed

lemma zoneAt_bandFor: "snd (zoneAt z i) = bandFor z (fst (zoneAt z i))"
  by (simp add: zoneAt_def bandFor_def)

lemma allocated_bps:
  "zb_MinBps (bandFor (AllocateZones n z) zone) = zb_MinBps (bandFor (fullZones z) zone)"
  "zb_MaxBps (bandFor (AllocateZones n z) zone) = zb_MaxBps (bandFor (fullZones z) zone)"
  by (simp_all add: AllocateZones_def fullZones_def bandFor_def Let_def)

lemma allocated_band:
  assumes "counts_ok z" and "1 \<le> i" and "i \<le> TotalLevels (AllocateZones n z)"
  shows "zb_MinBps (snd (zoneAt (AllocateZones n z) i)) = zb_MinBps (bandFor (fullZones z) (ResolveZoneForLevel i z))"
    "zb_MaxBps (snd (zoneAt (AllocateZones n z) i)) = zb_MaxBps (bandFor (fullZones z) (ResolveZoneForLevel i z))"
  unfolding zoneAt_bandFor AllocateZones_zone[OF assms] allocated_bps by simp_all

lemma quotes_side:
  assumes z: "counts_ok z" and len: "int (length ls) = TotalLevels (AllocateZones n z)"
    and q: "quotes L mc ref s tracker ver (zoneAt (AllocateZones n z)) 1 {} ls"
  shows "sideSound L mc ref s tracker ver z n ls"
  unfolding sideSound_def
proof (intro conjI allI impI)
  show "int (length ls) = min (max n 0) (TotalLevels (fullZones z))"
    using len AllocateZones_total[OF z] by simp
next
  fix i assume i: "i < length ls"
  then have r: "1 \<le> int i + 1" "int i + 1 \<le> TotalLevels (AllocateZones n z)" using len by linarith+
  from quotes_nth[OF q i] have "quoteOk L mc ref s tracker ver (fst (zoneAt (AllocateZones n z) (int i + 1)))
      (snd (zoneAt (AllocateZones n z) (int i + 1))) (int i + 1) (priceKeys L (take i ls)) (ls ! i)"
    by (simp add: add.commute)
  then show "quoteOk L mc ref s tracker ver (ResolveZoneForLevel (int i + 1) z)
      (bandFor (fullZones z) (ResolveZoneForLevel (int i + 1) z)) (int i + 1) (priceKeys L (take i ls)) (ls ! i)"
    unfolding AllocateZones_zone[OF z r] quoteOk_band[OF allocated_band[OF z r]] .
qed

lemma ladder_sides:
  assumes "counts_ok bz" and "counts_ok az"
    and "GenerateZonedDesired L now mc ref tracker bz az ver nb na rng = Some (Inr ls, g)"
  shows "0 < ref \<and> (\<exists>bids asks. ls = bids @ asks \<and>
    sideSound L mc ref ''BUY'' tracker ver bz nb bids \<and> sideSound L mc ref ''SELL'' tracker ver az na asks)"
proof -
  from assms(3) obtain g0 where "zonedDesired L mc ref tracker bz az ver nb na g0 = Some (Inr ls, g)"
    by (auto simp: GenerateZonedDesired_def)
  from yieldsD[OF yields_zonedDesired[OF assms(1,2)] this] obtain bids asks where "0 < ref" "ls = bids @ asks"
    and len: "int (length bids) = TotalLevels (AllocateZones nb bz)" "int (length asks) = TotalLevels (AllocateZones na az)"
    and q: "quotes L mc ref ''BUY'' tracker ver (zoneAt (AllocateZones nb bz)) 1 {} bids"
      "quotes L mc ref ''SELL'' tracker ver (zoneAt (AllocateZones na az)) 1 {} asks" by blast
  with quotes_side[OF assms(1) len(1) q(1)] quotes_side[OF assms(2) len(2) q(2)] show ?thesis by blast
qed

lemma first_attempt:
  "tryPrices L mc ref s taken lo hi tick n maxPriceRetries =
   bindD (Int63n L (int64 (n + 1))) (\<lambda>offset.
     let p = roundToTick L (lo + tick * of_int offset) tick; again = tryPrices L mc ref s taken lo hi tick n 19
     in if p < lo \<or> hi < p then again else if s = ''BUY'' \<and> \<not> p < ref then again
        else if s = ''SELL'' \<and> \<not> ref < p then again else if d_String L p \<notin> taken then drawn p else again)"
proof -
  have e: "maxPriceRetries = Suc 19" by (simp add: maxPriceRetries_def)
  show ?thesis unfolding e tryPrices.simps(2) Let_def ..
qed

lemma floor_rat: "\<lfloor>(numeral a :: rat) / numeral b\<rfloor> = numeral a div numeral b"
  using floor_divide_of_int_eq[of "numeral a" "numeral b", where ?'a = rat] by simp

lemma int64_small: "- 9223372036854775808 \<le> i \<Longrightarrow> i < 9223372036854775808 \<Longrightarrow> int64 i = i"
  by (simp add: int64_def sint_sbintrunc' signed_take_bit_int_eq_self)

lemmas sample_draws = floor_rat int64_small bindD_def drawn_def Div_def Int63n_def Float64_def Let_def rat_mlib_def

lemma sample_bid: "GenerateLevelPrice rat_mlib sampleMarket 100 ''BUY'' \<lparr>zb_MinBps = 100, zb_MaxBps = 500, zb_Count = 1\<rparr> {} 1 = Some (Inr 96, 2)"
  unfolding GenerateLevelPrice_def first_attempt
  by (simp add: sample_draws zoneRange_def tickSizeOf_def sampleMarket_def bareMarket_def roundToTick_def)

lemma sample_ask: "GenerateLevelPrice rat_mlib sampleMarket 100 ''SELL'' \<lparr>zb_MinBps = 100, zb_MaxBps = 500, zb_Count = 1\<rparr> {} 3 = Some (Inr 104, 4)"
  unfolding GenerateLevelPrice_def first_attempt
  by (simp add: sample_draws zoneRange_def tickSizeOf_def sampleMarket_def bareMarket_def roundToTick_def)

text \<open>The first ladder of the sample market.\<close>

definition sampleLevel :: "string \<Rightarrow> string \<Rightarrow> rat \<Rightarrow> rat maker_level" where
  "sampleLevel label s p = \<lparr>pl_LevelID = levelIDOf ''SOL-USDT'' label 1, pl_MarketID = ''SOL-USDT'', pl_Side = s,
     pl_Price = p, pl_Quantity = 5, pl_Zone = ''LOW'', pl_RefVersion = 1\<rparr>"

lemma sample_quantity: "ResolveLevelQuantity rat_mlib sampleMarket 10 ''LOW'' 0 1 True g = Some (Inr 5, g + 1)"
  by (simp add: sample_draws ResolveLevelQuantity_def slotScale_def roundToLot_def sampleMarket_def bareMarket_def)

lemma sample_level:
  assumes "GenerateLevelPrice rat_mlib sampleMarket 100 s \<lparr>zb_MinBps = 100, zb_MaxBps = 500, zb_Count = 1\<rparr> {} g = Some (Inr p, g')"
    and "tr (levelIDOf ''SOL-USDT'' (sideLabel s) 1) = None"
  shows "generateSide rat_mlib sampleMarket 100 s (AllocateZones 1 sampleZones) 10 tr {} 1 g =
    Some (Inr ([sampleLevel (sideLabel s) s p], {rat_string p}), g' + 1)"
proof -
  have z: "AllocateZones 1 sampleZones = sampleZones"
    by (simp add: AllocateZones_def sampleZones_def TotalLevels_def)
  have m: "mk_MarketID sampleMarket = ''SOL-USDT''" by (simp add: sampleMarket_def bareMarket_def Let_def)
  have q: "ResolveLevelQuantity rat_mlib sampleMarket 10 ''LOW'' 0 1 True = (\<lambda>g. Some (Inr 5, g + 1))"
    by (rule ext) (rule sample_quantity)
  have d: "d_String rat_mlib = rat_string" by (simp add: rat_mlib_def)
  have slots: "generateSlots rat_mlib sampleMarket 100 s 10 tr 1 ''LOW'' \<lparr>zb_MinBps = 100, zb_MaxBps = 500, zb_Count = 1\<rparr> (Suc 0) 0 1 {} g =
      Some (Inr ([sampleLevel (sideLabel s) s p], {rat_string p}), g' + 1)"
    using assms by (simp add: generateLevel_def bindD_def drawn_def wrapErr_def Let_def q m d sampleLevel_def)
  show ?thesis
    unfolding z unfolding generateSide_def Let_def sampleZones_def
    by (simp add: bindD_def drawn_def slots del: generateSlots.simps(2))
qed

lemma sample_ladder:
  "GenerateZonedDesired rat_mlib 0 sampleMarket 100 (\<lambda>_. None) sampleZones sampleZones 1 1 1 (Some 1) =
    Some (Inr [sampleLevel ''BID'' ''BUY'' 96, sampleLevel ''ASK'' ''SELL'' 104], 5)"
proof -
  have "resolveQtyPerLevel rat_mlib sampleMarket = 10"
    by (simp add: resolveQtyPerLevel_def roundToLot_def sampleMarket_def bareMarket_def rat_mlib_def)
  moreover have "TotalLevels sampleZones \<noteq> 0" by (simp add: TotalLevels_def sampleZones_def)
  ultimately show ?thesis
    using sample_level[OF sample_bid, where tr = "\<lambda>_. None"] sample_level[OF sample_ask, where tr = "\<lambda>_. None"]
    by (simp add: GenerateZonedDesired_def zonedDesired_def Let_def bindD_def drawn_def wrapErr_def sideLabel_def)
qed

text \<open>A bid that rests at 105 after the reference fell to 100 keeps its price, above the new ask.\<close>

definition lockedBid :: "string \<Rightarrow> rat active_level option" where
  "lockedBid lvl = (if lvl = levelIDOf ''SOL-USDT'' ''BID'' 1
     then Some \<lparr>al_Status = ''RESTING'', al_Price = 105, al_Quantity = 5, al_RefVersion = 1\<rparr> else None)"

lemma locked_side:
  "generateSide rat_mlib sampleMarket 100 ''BUY'' (AllocateZones 1 sampleZones) 10 lockedBid {} 1 g =
    Some (Inr ([sampleLevel ''BID'' ''BUY'' 105], {rat_string 105}), g)"
proof -
  have z: "AllocateZones 1 sampleZones = sampleZones"
    by (simp add: AllocateZones_def sampleZones_def TotalLevels_def)
  have m: "mk_MarketID sampleMarket = ''SOL-USDT''" by (simp add: sampleMarket_def bareMarket_def Let_def)
  have d: "d_String rat_mlib = rat_string" by (simp add: rat_mlib_def)
  have slots: "generateSlots rat_mlib sampleMarket 100 ''BUY'' 10 lockedBid 1 ''LOW'' \<lparr>zb_MinBps = 100, zb_MaxBps = 500, zb_Count = 1\<rparr> (Suc 0) 0 1 {} g =
      Some (Inr ([sampleLevel ''BID'' ''BUY'' 105], {rat_string 105}), g)"
    by (simp add: generateLevel_def bindD_def drawn_def Let_def m d sampleLevel_def lockedBid_def sideLabel_def isActivePricingStatus_def)
  show ?thesis
    unfolding z unfolding generateSide_def Let_def sampleZones_def
    by (simp add: bindD_def drawn_def slots del: generateSlots.simps(2))
qed

lemma ladder_can_cross:
  "GenerateZonedDesired rat_mlib 0 sampleMarket 100 lockedBid sampleZones sampleZones 1 1 1 (Some 3) =
    Some (Inr [sampleLevel ''BID'' ''BUY'' 105, sampleLevel ''ASK'' ''SELL'' 104], 5)"
proof -
  have "resolveQtyPerLevel rat_mlib sampleMarket = 10"
    by (simp add: resolveQtyPerLevel_def roundToLot_def sampleMarket_def bareMarket_def rat_mlib_def)
  moreover have "TotalLevels sampleZones \<noteq> 0" by (simp add: TotalLevels_def sampleZones_def)
  moreover have "lockedBid (levelIDOf ''SOL-USDT'' ''ASK'' 1) = None" by (simp add: lockedBid_def levelIDOf_def)
  ultimately show ?thesis
    using locked_side sample_level[OF sample_ask, where tr = lockedBid]
    by (simp add: GenerateZonedDesired_def zonedDesired_def Let_def bindD_def drawn_def wrapErr_def sideLabel_def)
qed

lemma sample_counts: "counts_ok sampleZones"
  by (simp add: counts_ok_def sampleZones_def)

text \<open>
  C35. A ladder has a positive reference, the levels the allocation of each side asks for, and on
  each side: the slot with number i is the level whose ID ends in i, in the zone its ID resolves
  to; if the tracker holds an order that is pending, registered or resting there, its price,
  version and quantity are kept; otherwise the price lies inside the zone, strictly on its side
  of the reference, carries the current version, and prints differently from every earlier
  price of the side.
\<close>

theorem ladder_sound:
  assumes "counts_ok bz" and "counts_ok az"
    and "GenerateZonedDesired L now mc ref tracker bz az ver nb na rng = Some (Inr ls, g)"
  shows "0 < ref \<and> (\<exists>bids asks. ls = bids @ asks \<and>
    sideSound L mc ref ''BUY'' tracker ver bz nb bids \<and> sideSound L mc ref ''SELL'' tracker ver az na asks)"
  using assms by (rule ladder_sides)

theorem ladder_sound_witness:
  "0 < (100 :: rat) \<and> (\<exists>bids asks. [sampleLevel ''BID'' ''BUY'' 96, sampleLevel ''ASK'' ''SELL'' 104] = bids @ asks \<and>
    sideSound rat_mlib sampleMarket 100 ''BUY'' (\<lambda>_. None) 1 sampleZones 1 bids \<and>
    sideSound rat_mlib sampleMarket 100 ''SELL'' (\<lambda>_. None) 1 sampleZones 1 asks)"
  by (rule ladder_sound[OF sample_counts sample_counts sample_ladder])

section \<open>The comparison with the orders\<close>

text \<open>
  C36. Diff agrees with the level-wise specification, whatever the order its maps are visited in:
  at most one entry for each level, and an entry exactly where the specification has an action
  for what is wanted and tracked at that level in the market, with the level and the order IDs.
\<close>

theorem Diff_exact:
  assumes "visits vis" and "tracker_ok t"
  shows "distinct (map de_LevelID (Diff vis desired t mkt mc)) \<and>
    (\<forall>e. e \<in> set (Diff vis desired t mkt mc) \<longleftrightarrow>
      (\<exists>lvl a. diffAction mc (wantedAt desired lvl) (trackedIn t mkt lvl) = Some a \<and>
         e = diffEntry lvl a (wantedAt desired lvl) (trackedIn t mkt lvl)))"
  using diff_distinct[OF assms(1)] diff_entries[OF assms] by blast

theorem Diff_exact_witness:
  "distinct (map de_LevelID (Diff rev [sampleLevel ''BID'' ''BUY'' 96] NewTracker ''SOL-USDT'' sampleMarket)) \<and>
    (\<forall>e. e \<in> set (Diff rev [sampleLevel ''BID'' ''BUY'' 96] NewTracker ''SOL-USDT'' sampleMarket) \<longleftrightarrow>
      (\<exists>lvl a. diffAction sampleMarket (wantedAt [sampleLevel ''BID'' ''BUY'' 96] lvl) (trackedIn (NewTracker :: rat tracker_state) ''SOL-USDT'' lvl) = Some a \<and>
         e = diffEntry lvl a (wantedAt [sampleLevel ''BID'' ''BUY'' 96] lvl) (trackedIn (NewTracker :: rat tracker_state) ''SOL-USDT'' lvl)))"
  by (rule Diff_exact[OF visits_rev ok_NewTracker])

text \<open>A level of the ladder whose order rests has the price of the order.\<close>

lemma wantedAt_mem: "wantedAt ls lvl = Some l \<Longrightarrow> l \<in> set ls \<and> pl_LevelID l = lvl"
proof -
  have "map_of (fold (\<lambda>l. AList.update (pl_LevelID l) l) ls m) lvl = Some l \<Longrightarrow>
      (l \<in> set ls \<and> pl_LevelID l = lvl) \<or> map_of m lvl = Some l" for m
  proof (induction ls arbitrary: m)
    case (Cons x ls)
    from Cons.IH[of "AList.update (pl_LevelID x) x m"] Cons.prems show ?case
      by (auto simp: AList.update_conv' split: if_splits)
  qed simp
  from this[of "[]"] show "wantedAt ls lvl = Some l \<Longrightarrow> l \<in> set ls \<and> pl_LevelID l = lvl"
    by (auto simp: wantedAt_def desiredSet_def)
qed

lemma wantedAt_none: "wantedAt ls lvl = None \<longleftrightarrow> lvl \<notin> pl_LevelID ` set ls"
proof -
  have "map_of (fold (\<lambda>l. AList.update (pl_LevelID l) l) ls m) lvl = None \<longleftrightarrow> lvl \<notin> pl_LevelID ` set ls \<and> map_of m lvl = None" for m
    by (induction ls arbitrary: m) (auto simp: AList.update_conv')
  from this[of "[]"] show ?thesis by (simp add: wantedAt_def desiredSet_def)
qed

lemma side_locks:
  assumes "sideSound L mc ref s tracker ver z n ls" and "l \<in> set ls" and "tracker (pl_LevelID l) = Some a"
    and "isActivePricingStatus (al_Status a)"
  shows "pl_Price l = al_Price a"
proof -
  from assms(2) obtain i where "i < length ls" "ls ! i = l" by (metis in_set_conv_nth)
  with assms show ?thesis by (auto simp: sideSound_def quoteOk_def)
qed

lemma ladder_locks:
  assumes "counts_ok bz" and "counts_ok az"
    and "GenerateZonedDesired L now mc ref (GetActive t) bz az ver nb na rng = Some (Inr ls, g)"
    and "wantedAt ls lvl = Some l" and "Get t lvl = Some r" and "lo_Status r = StatusResting"
  shows "pl_Price l = lo_Price r"
proof -
  note l = wantedAt_mem[OF assms(4)]
  with assms(5) have a: "GetActive t (pl_LevelID l) = Some \<lparr>al_Status = status_string (lo_Status r), al_Price = lo_Price r,
      al_Quantity = lo_OriginalQty r, al_RefVersion = lo_RefVersion r\<rparr>" by (simp add: GetActive_def)
  have "isActivePricingStatus (status_string (lo_Status r))" using assms(6) by (simp add: isActivePricingStatus_def)
  with side_locks[where tracker = "GetActive t", OF _ _ a] ladder_sides[OF assms(1-3)] l show ?thesis by auto
qed

lemma diff_at:
  assumes "visits vis" and "tracker_ok t"
  shows "(\<exists>e\<in>set (Diff vis desired t mkt mc). de_LevelID e = lvl \<and> de_Action e = a) \<longleftrightarrow>
    diffAction mc (wantedAt desired lvl) (trackedIn t mkt lvl) = Some a" (is "?L \<longleftrightarrow> ?R")
proof
  assume ?L
  then obtain e where e: "e \<in> set (Diff vis desired t mkt mc)" "de_LevelID e = lvl" "de_Action e = a" by blast
  from e(1) obtain lvl' a' where "diffAction mc (wantedAt desired lvl') (trackedIn t mkt lvl') = Some a'"
    "e = diffEntry lvl' a' (wantedAt desired lvl') (trackedIn t mkt lvl')"
    unfolding diff_entries[OF assms] by blast
  with e(2,3) show ?R by (simp add: diffEntry_def)
next
  assume ?R
  then have "diffEntry lvl a (wantedAt desired lvl) (trackedIn t mkt lvl) \<in> set (Diff vis desired t mkt mc)"
    unfolding diff_entries[OF assms] by blast
  moreover have "de_LevelID (diffEntry lvl a (wantedAt desired lvl) (trackedIn t mkt lvl)) = lvl"
    "de_Action (diffEntry lvl a (wantedAt desired lvl) (trackedIn t mkt lvl)) = a"
    by (simp_all add: diffEntry_def)
  ultimately show ?L by blast
qed

text \<open>
  C37. The comparison of a ladder with the very tracker it was generated from changes only what
  is needed: it creates exactly the levels of the ladder without an order, corrects exactly the
  resting orders of the ladder that are nearly used up, and cancels exactly the resting orders
  outside the ladder. No price makes it cancel or replace an order.
\<close>

theorem reconcile_changes_exact:
  assumes "visits vis" and "tracker_ok t" and "counts_ok bz" and "counts_ok az"
    and "GenerateZonedDesired L now mc ref (GetActive t) bz az ver nb na rng = Some (Inr ls, g)"
  shows "((\<exists>e\<in>set (Diff vis ls t mkt mc). de_LevelID e = lvl \<and> de_Action e = DiffCreate) \<longleftrightarrow>
      lvl \<in> pl_LevelID ` set ls \<and> trackedIn t mkt lvl = None) \<and>
    ((\<exists>e\<in>set (Diff vis ls t mkt mc). de_LevelID e = lvl \<and> de_Action e = DiffCorrect) \<longleftrightarrow>
      lvl \<in> pl_LevelID ` set ls \<and>
      (\<exists>r. trackedIn t mkt lvl = Some r \<and> lo_Status r = StatusResting \<and> lo_RemainingQty r < mk_MinOrderSize mc)) \<and>
    ((\<exists>e\<in>set (Diff vis ls t mkt mc). de_LevelID e = lvl \<and> de_Action e = DiffCancel) \<longleftrightarrow>
      lvl \<notin> pl_LevelID ` set ls \<and> (\<exists>r. trackedIn t mkt lvl = Some r \<and> lo_Status r = StatusResting))"
proof -
  have get: "trackedIn t mkt lvl = Some r \<Longrightarrow> Get t lvl = Some r" for r
    by (auto simp: trackedIn_def split: option.splits if_splits)
  have locked: "lo_Price r = pl_Price l" if "wantedAt ls lvl = Some l" "trackedIn t mkt lvl = Some r" "lo_Status r = StatusResting" for l r
    using ladder_locks[OF assms(3-5) that(1) get[OF that(2)] that(3)] by simp
  show ?thesis
  proof (cases "wantedAt ls lvl")
    case None
    then have out: "lvl \<notin> pl_LevelID ` set ls" by (simp add: wantedAt_none)
    show ?thesis
      unfolding diff_at[OF assms(1,2)]
      by (cases "trackedIn t mkt lvl") (simp_all add: diffAction_def None out)
  next
    case (Some l)
    then have in_ladder: "lvl \<in> pl_LevelID ` set ls" using wantedAt_none[of ls lvl] by simp
    show ?thesis
    proof (cases "trackedIn t mkt lvl")
      case None
      then show ?thesis unfolding diff_at[OF assms(1,2)] by (simp add: diffAction_def Some in_ladder)
    next
      case tracked: (Some r)
      show ?thesis
        using locked[OF Some tracked]
        unfolding diff_at[OF assms(1,2)] by (simp add: diffAction_def Some tracked in_ladder)
    qed
  qed
qed

lemma new_inactive: "GetActive NewTracker = (\<lambda>_. None)"
  by (simp add: fun_eq_iff GetActive_def Get_def NewTracker_def)

lemma sample_fresh_ladder:
  "GenerateZonedDesired rat_mlib 0 sampleMarket 100 (GetActive NewTracker) sampleZones sampleZones 1 1 1 (Some 1) =
    Some (Inr [sampleLevel ''BID'' ''BUY'' 96, sampleLevel ''ASK'' ''SELL'' 104], 5)"
  unfolding new_inactive by (rule sample_ladder)

theorem reconcile_changes_exact_witness:
  "((\<exists>e\<in>set (Diff rev [sampleLevel ''BID'' ''BUY'' 96, sampleLevel ''ASK'' ''SELL'' 104] NewTracker ''SOL-USDT'' sampleMarket).
      de_LevelID e = levelIDOf ''SOL-USDT'' ''BID'' 1 \<and> de_Action e = DiffCreate) \<longleftrightarrow>
      levelIDOf ''SOL-USDT'' ''BID'' 1 \<in> pl_LevelID ` set [sampleLevel ''BID'' ''BUY'' 96, sampleLevel ''ASK'' ''SELL'' 104] \<and> trackedIn (NewTracker :: rat tracker_state) ''SOL-USDT'' (levelIDOf ''SOL-USDT'' ''BID'' 1) = None) \<and>
    ((\<exists>e\<in>set (Diff rev [sampleLevel ''BID'' ''BUY'' 96, sampleLevel ''ASK'' ''SELL'' 104] NewTracker ''SOL-USDT'' sampleMarket).
      de_LevelID e = levelIDOf ''SOL-USDT'' ''BID'' 1 \<and> de_Action e = DiffCorrect) \<longleftrightarrow>
      levelIDOf ''SOL-USDT'' ''BID'' 1 \<in> pl_LevelID ` set [sampleLevel ''BID'' ''BUY'' 96, sampleLevel ''ASK'' ''SELL'' 104] \<and>
      (\<exists>r. trackedIn (NewTracker :: rat tracker_state) ''SOL-USDT'' (levelIDOf ''SOL-USDT'' ''BID'' 1) = Some r \<and> lo_Status r = StatusResting \<and>
        lo_RemainingQty r < mk_MinOrderSize sampleMarket)) \<and>
    ((\<exists>e\<in>set (Diff rev [sampleLevel ''BID'' ''BUY'' 96, sampleLevel ''ASK'' ''SELL'' 104] NewTracker ''SOL-USDT'' sampleMarket).
      de_LevelID e = levelIDOf ''SOL-USDT'' ''BID'' 1 \<and> de_Action e = DiffCancel) \<longleftrightarrow>
      levelIDOf ''SOL-USDT'' ''BID'' 1 \<notin> pl_LevelID ` set [sampleLevel ''BID'' ''BUY'' 96, sampleLevel ''ASK'' ''SELL'' 104] \<and>
      (\<exists>r. trackedIn (NewTracker :: rat tracker_state) ''SOL-USDT'' (levelIDOf ''SOL-USDT'' ''BID'' 1) = Some r \<and> lo_Status r = StatusResting))"
  by (rule reconcile_changes_exact[OF visits_rev ok_NewTracker sample_counts sample_counts sample_fresh_ladder])

section \<open>Identifiers and quantities\<close>

text \<open>
  C39. The client order ID of a level and a generation is read back exactly, by the liquidity
  engine and by the matching engine, for every level of a market whose ID brings no dash
  followed by a G into it.
\<close>

theorem client_order_id_roundtrip:
  assumes "\<not> dashG (CHR ''-'' # m)" and "label = ''BID'' \<or> label = ''ASK''" and "0 < i" and "inInt64 i"
    and "0 \<le> gen" and "inInt64 gen"
  shows "parseLevelFromClientOrderID (ClientOrderID (levelIDOf m label i) gen) = Inr (levelIDOf m label i, gen) \<and>
    parseMMClientOrderID (ClientOrderID (levelIDOf m label i) gen) = (levelIDOf m label i, nat gen) \<and>
    ParseLevelID (levelIDOf m label i) = Inr (m, label, i)"
proof -
  have "levelIDOf m label i \<noteq> []" by (simp add: levelIDOf_def)
  moreover have "\<not> dashG (levelIDOf m label i)" using levelID_dashG[OF assms(1,2)] assms(3) by simp
  ultimately show ?thesis
    using parseLevel_ClientOrderID[OF _ assms(5,6)] parseMM_ClientOrderID[OF _ assms(5,6)] ParseLevelID_levelIDOf[OF assms(3,4,2)]
    by blast
qed

theorem client_order_id_roundtrip_witness:
  "parseLevelFromClientOrderID (ClientOrderID (levelIDOf ''BTC-USDT'' ''ASK'' 12) 1003) = Inr (levelIDOf ''BTC-USDT'' ''ASK'' 12, 1003) \<and>
    parseMMClientOrderID (ClientOrderID (levelIDOf ''BTC-USDT'' ''ASK'' 12) 1003) = (levelIDOf ''BTC-USDT'' ''ASK'' 12, nat 1003) \<and>
    ParseLevelID (levelIDOf ''BTC-USDT'' ''ASK'' 12) = Inr (''BTC-USDT'', ''ASK'', 12)"
  by (rule client_order_id_roundtrip) (simp_all add: inInt64_def)

text \<open>
  C40. A replacement is never larger than what remains of the order, than the order was, or than
  the level wants; it is a positive multiple of the lot and not below the minimum, and there is
  none when nothing remains.
\<close>

theorem replacement_bounds:
  assumes "\<And>x m. 0 \<le> x \<Longrightarrow> 0 < m \<Longrightarrow> 0 \<le> d_Mod L x m \<and> d_Mod L x m < m \<and> (\<exists>k::int. x - d_Mod L x m = of_int k * m)"
    and "0 \<le> desired" and "0 < lot"
    and "resolveReplacementQuantity L desired remaining original minSize lot = Some q"
  shows "0 < q \<and> q \<le> remaining \<and> (0 < original \<longrightarrow> q \<le> original) \<and> (desired \<noteq> 0 \<longrightarrow> q \<le> desired) \<and>
    (minSize \<noteq> 0 \<longrightarrow> minSize \<le> q) \<and> lot \<le> q \<and> (\<exists>k::int. q = of_int k * lot)"
proof -
  let ?rem = "if 0 < original \<and> original < remaining then original else remaining"
  let ?qty = "if desired = 0 \<or> ?rem < desired then ?rem else desired"
  from assms(4) have pos: "0 < remaining"
    and q: "q = (if d_Mod L ?qty lot \<noteq> 0 then ?qty - d_Mod L ?qty lot else ?qty)"
    and min: "\<not> (minSize \<noteq> 0 \<and> q < minSize)" "\<not> q < lot"
    using assms(3) by (auto simp: resolveReplacementQuantity_def Let_def split: if_splits)
  have "0 \<le> ?qty" using pos assms(2) by auto
  from assms(1)[OF this assms(3)] have "q \<le> ?qty" "\<exists>k::int. q = of_int k * lot" unfolding q by auto
  moreover have "?qty \<le> remaining" "0 < original \<longrightarrow> ?qty \<le> original" "desired \<noteq> 0 \<longrightarrow> ?qty \<le> desired" by auto
  ultimately show ?thesis using min assms(3) by (auto simp: not_less)
qed

lemma rat_mod_ok:
  assumes "0 < (m :: rat)"
  shows "0 \<le> rat_mod x m \<and> rat_mod x m < m \<and> (\<exists>k::int. x - rat_mod x m = of_int k * m)"
proof -
  have "of_int \<lfloor>x / m\<rfloor> * m \<le> x" using assms by (simp add: pos_le_divide_eq[symmetric])
  moreover have "x / m < of_int \<lfloor>x / m\<rfloor> + 1" by linarith
  then have "x < (of_int \<lfloor>x / m\<rfloor> + 1) * m" using assms by (simp only: pos_divide_less_eq)
  ultimately show ?thesis by (auto simp: rat_mod_def algebra_simps)
qed

theorem replacement_bounds_witness:
  "resolveReplacementQuantity rat_mlib 10 7 10 1 2 = Some (6::rat) \<and> 0 < (6::rat) \<and> (6::rat) \<le> 7 \<and> (6::rat) \<le> 10 \<and>
    (1::rat) \<le> 6 \<and> (2::rat) \<le> 6 \<and> (\<exists>k::int. (6::rat) = of_int k * 2)"
proof -
  have mod: "0 \<le> d_Mod rat_mlib x m \<and> d_Mod rat_mlib x m < m \<and> (\<exists>k::int. x - d_Mod rat_mlib x m = of_int k * m)" if "0 < m" for x m
    using rat_mod_ok[OF that] by (simp add: rat_mlib_def)
  have six: "resolveReplacementQuantity rat_mlib 10 7 10 1 2 = Some (6::rat)"
    by (simp add: resolveReplacementQuantity_def rat_mlib_def rat_mod_def floor_rat)
  have "0 < (6::rat) \<and> (6::rat) \<le> 7 \<and> (0 < (10::rat) \<longrightarrow> (6::rat) \<le> 10) \<and> ((10::rat) \<noteq> 0 \<longrightarrow> (6::rat) \<le> 10) \<and>
      ((1::rat) \<noteq> 0 \<longrightarrow> (1::rat) \<le> 6) \<and> (2::rat) \<le> 6 \<and> (\<exists>k::int. (6::rat) = of_int k * 2)"
    by (rule replacement_bounds[where L = rat_mlib, OF mod _ _ six]) simp_all
  with six show ?thesis by simp
qed

end
