(* ===== verification/MakerPromises.thy ===== *)
theory MakerPromises
  imports MakerClaims
begin

text \<open>
  The promises of whole runs of the market maker: the soundness of the tracker and of the
  remembered trades, the uniqueness of client order IDs, no registration while the reference is
  not fresh, the absence of panics, and what a fill does after the book was read.
\<close>

section \<open>Sequences of events\<close>

context step_relation
begin

lemma each_member: "(\<And>x. x \<in> set xs \<Longrightarrow> keepsJ R (f x)) \<Longrightarrow> keepsJ R (eachJ f xs)"
  by (induction xs) (auto intro: seq ret)

end

lemma handled:
  assumes "step_relation R" and "\<And>en ev. (en, ev) \<in> set evs \<Longrightarrow> keepsJ R (handleEvent L cfg en ev)"
    and "handleEvents L cfg evs e = Some (u, e')"
  shows "R e e'"
proof -
  have "keepsJ R (handleEvents L cfg evs)"
    unfolding handleEvents_def by (rule step_relation.each_member[OF assms(1)]) (use assms(2) in auto)
  with assms(3) show ?thesis by (simp add: keepsJ_def)
qed

text \<open>A configuration without markets, and a trade that is not one of the market maker's.\<close>

definition bareConfig :: "rat maker_config" where
  "bareConfig = sampleConfig\<lparr>kc_Markets := []\<rparr>"

definition sampleTrade :: "string \<Rightarrow> string \<Rightarrow> rat maker_trade_event" where
  "sampleTrade tid side = \<lparr>te_MarketID = ''SOL-USDT'', te_MMSide = side, te_Price = 96, te_Quantity = 6, te_TradeID = tid,
     te_MakerOrderID = ''o'', te_TakerOrderID = ''p''\<rparr>"

lemmas job_eval = bindJ_def thenJ_def retJ_def getJ_def modJ_def whenJ_def inMaker_def askJ_def askE_def nowE_def nowJ_def

lemma sample_run: "\<exists>e. maker_run rat_mlib bareConfig (e :: (rat, nat) maker_engine) \<and> ge_processedTrades e = {''t1''}"
proof -
  let ?en = "(sampleEnv StateFresh)\<lparr>gv_wallet := None\<rparr>"
  obtain e :: "(rat, nat) maker_engine" where e: "startEngine rat_mlib bareConfig ?en (newMaker 1) = Some (None, e)"
      "ge_processedTrades e = {}" "ge_tradeHistory e = []"
    by (simp add: startEngine_def setState_def refreshWalletBalances_def syncAllMarkets_def runReconcileAll_def job_eval
        bareConfig_def sampleConfig_def sampleEnv_def newMaker_def NewMakerEngine_def Let_def
        inventoryStale_def IsStale_def NewManager_def)
  from e(2,3) obtain e' where e': "handleEvent rat_mlib bareConfig ?en (TradeReceived (sampleTrade ''t1'' '''')) e = Some ((), e')"
      "ge_processedTrades e' = {''t1''}"
    by (simp add: handleEvent_def handleTrade_def sampleTrade_def rememberTrade_def job_eval maxTradeHistory_def)
  show ?thesis using maker_run.event[OF maker_run.start[OF e(1)] e'(1)] e'(2) by blast
qed

text \<open>
  C31. Whatever the services answer, the clock reads, the order maps are visited in and the
  events bring, after every event each level of the tracker has at most one order, filed under
  its own level with a generation that was handed out, and the remembered trades are the last
  ones, each once and never more than the bound.
\<close>

theorem maker_always_sound:
  assumes "maker_run L cfg e"
  shows "tracker_ok (kr_tracker (ge_maker e)) \<and> set (ge_tradeHistory e) = ge_processedTrades e \<and>
    distinct (ge_tradeHistory e) \<and> length (ge_tradeHistory e) \<le> maxTradeHistory"
  using maker_run_ok[OF assms] by (simp add: maker_ok_def dedup_ok_def)

theorem maker_always_sound_witness:
  "\<exists>e :: (rat, nat) maker_engine. ge_processedTrades e = {''t1''} \<and> tracker_ok (kr_tracker (ge_maker e)) \<and>
    set (ge_tradeHistory e) = ge_processedTrades e \<and> distinct (ge_tradeHistory e) \<and> length (ge_tradeHistory e) \<le> maxTradeHistory"
proof -
  obtain e :: "(rat, nat) maker_engine" where "maker_run rat_mlib bareConfig e" and seen: "ge_processedTrades e = {''t1''}"
    using sample_run by blast
  from maker_always_sound[OF this(1)] seen show ?thesis by (intro exI[of _ e]) simp
qed

section \<open>Liveness\<close>

lemmas sample_eval = usedBands_def bandsOf_def ticksIn_def zoneBounds_def bpsMultiplier_def rat_mlib_def sampleConfig_def sampleMarket_def
  sampleZones_def bareMarket_def DefaultZoneConfig_def tickSizeOf_def Let_def floor_rat int64_small

lemma sample_drawable: "drawable rat_mlib sampleConfig 0" "drawable rat_mlib sampleConfig 100"
  by (simp_all add: drawable_def sample_eval)

lemma sample_config_ok: "config_ok rat_mlib sampleConfig"
proof -
  have "arith_ok rat_mlib" by (simp add: arith_ok_def rat_mlib_def)
  moreover have "market_ok rat_mlib sampleMarket" by (simp add: market_ok_def sample_eval)
  moreover have "kc_Markets sampleConfig = [sampleMarket]" "mk_ReferencePrice sampleMarket = 100"
    "kc_RefPrice sampleConfig = \<lparr>rp_PauseThreshold = 0, rp_BTCSeed = 0, rp_ETHSeed = 0, rp_SOLSeed = 100\<rparr>"
    by (simp_all add: sampleConfig_def sampleMarket_def)
  ultimately show ?thesis by (simp add: config_ok_def sample_drawable)
qed

lemma sample_services_ok: "services_ok rat_mlib sampleConfig (sampleEnv st)"
proof -
  have "ve_price (sampleEnv st) n m = Some p \<Longrightarrow> pe_Price p = 100" for n m p by (auto simp: sampleEnv_def)
  then show ?thesis by (auto simp: services_ok_def sample_drawable) (simp_all add: sampleEnv_def)
qed

lemma refs_new: "refsOkE C (newMaker rng)"
  by (simp add: refsOkE_def refsOk_def newMaker_def NewMakerEngine_def NewReconciler_def)

lemma total_events:
  assumes "config_ok L cfg" and "\<And>en ev. (en, ev) \<in> set evs \<Longrightarrow> services_ok L cfg en"
  shows "totalJ (refsOkE (drawable L cfg)) (handleEvents L cfg evs)"
  using assms(2) unfolding handleEvents_def
  by (induction evs) (auto intro!: total_intros total_event[OF assms(1)])

lemma totalJD: "totalJ P m \<Longrightarrow> P s \<Longrightarrow> \<exists>a s'. m s = Some (a, s') \<and> P s'"
  by (force simp: totalJ_def split: option.splits)

text \<open>
  C34. With a sane configuration and services that are wired and answer with prices one can draw
  around, the engine starts without a panic and handles every sequence of events without one,
  whatever else the services answer, and when its context ends it has stopped.
\<close>

theorem maker_never_panics:
  assumes "config_ok L cfg" and "services_ok L cfg en" and "\<forall>(en', ev)\<in>set evs. services_ok L cfg en'"
  shows "\<exists>r e. runMaker L cfg en evs (newMaker rng) = Some (r, e) \<and> (r = None \<longrightarrow> ge_state e = StateStopped)"
proof -
  obtain r e where start: "startEngine L cfg en (newMaker rng) = Some (r, e)" "refsOkE (drawable L cfg) e"
    using totalJD[OF total_start[OF assms(1,2)] refs_new] by blast
  obtain u e' where "handleEvents L cfg evs e = Some (u, e')"
    using totalJD[OF total_events[OF assms(1)] start(2)] assms(3) by blast
  with start(1) show ?thesis by (cases r) (simp_all add: runMaker_def setState_def job_eval)
qed

theorem maker_never_panics_witness:
  "\<exists>r e. runMaker rat_mlib sampleConfig (sampleEnv StateFresh)
      [(sampleEnv StateStale, ResyncTick), (sampleEnv StateFresh, TradeReceived (sampleTrade ''t1'' ''BUY''))] (newMaker 1) = Some (r, e) \<and>
    (r = None \<longrightarrow> ge_state e = StateStopped)"
  by (rule maker_never_panics[OF sample_config_ok sample_services_ok]) (simp add: sample_services_ok)

section \<open>Client order IDs\<close>

text \<open>
  C32. Between two resynchronisations no client order ID is registered twice, over all levels and
  markets: each is the ID of a level and a generation above the counter the level started with
  and not above the one it ends with.
\<close>

theorem client_order_ids_unique:
  assumes "handleEvents L cfg evs e = Some (u, e')" and "\<forall>(en, ev)\<in>set evs. ev \<noteq> ResyncTick"
    and "registered (kr_sent (ge_maker e)) = []" and "\<forall>lvl. 0 \<le> tk_generations (kr_tracker (ge_maker e)) lvl"
  shows "distinct (registered (kr_sent (ge_maker e'))) \<and>
    (\<forall>coid\<in>set (registered (kr_sent (ge_maker e'))). \<exists>lvl g. coid = ClientOrderID lvl g \<and>
      tk_generations (kr_tracker (ge_maker e)) lvl < g \<and> g \<le> tk_generations (kr_tracker (ge_maker e')) lvl)"
proof -
  let ?b = "tk_generations (kr_tracker (ge_maker e))"
  have "maker_relation.RelE (freshStep ?b) e e'"
    by (rule handled[OF fresh.events.step_relation_axioms _ assms(1)]) (use assms(2) in \<open>auto intro: fresh.event\<close>)
  moreover have "freshIDs ?b (view (ge_maker e))" using assms(3,4) by (simp add: freshIDs_def view_def)
  ultimately have "freshIDs ?b (view (ge_maker e'))" by (simp add: fresh.RelE_def fresh.Rel_def freshStep_def)
  then show ?thesis by (simp add: freshIDs_def view_def)
qed

text \<open>
  A resynchronisation can lower the counter: an order of the service that is newer than the
  tracked one, but older than the counter, sets the counter back, so that a generation handed
  out before is handed out again.
\<close>

lemma upgrade_sets_counter:
  assumes "Get t (so_LevelID r) = Some old" and "lo_Generation old < so_Generation r"
  shows "tk_generations (fst (syncOrder now m res r (t, n))) (so_LevelID r) = so_Generation r"
  using assms by (auto simp: syncOrder_def Let_def putOrder_def)

definition sampleEvents :: "price_state \<Rightarrow> (rat engine_env \<times> rat loop_event) list" where
  "sampleEvents st = [(sampleEnv st, WalletTick), (sampleEnv st, TargetedReconcile), (sampleEnv st, ReconcileTick)]"

definition sampleRunning :: "(rat, nat) maker_engine" where
  "sampleRunning = (newMaker 1)\<lparr>ge_state := StateRunning, ge_maker := NewReconciler 1 (RecordSync 5 ''SOL-USDT'' NewTracker)\<rparr>"

lemma sample_returns: "\<exists>u e'. handleEvents rat_mlib sampleConfig (sampleEvents st) sampleRunning = Some (u, e')"
proof -
  have refs: "refsOkE (drawable rat_mlib sampleConfig) sampleRunning"
    by (simp add: sampleRunning_def refsOkE_def refsOk_def NewReconciler_def)
  have "totalJ (refsOkE (drawable rat_mlib sampleConfig)) (handleEvents rat_mlib sampleConfig (sampleEvents st))"
    by (rule total_events[OF sample_config_ok]) (auto simp: sampleEvents_def sample_services_ok)
  from totalJD[OF this refs] show ?thesis by auto
qed

lemma sample_start: "registered (kr_sent (ge_maker sampleRunning)) = []" "tk_generations (kr_tracker (ge_maker sampleRunning)) lvl = 0"
  by (simp_all add: sampleRunning_def NewReconciler_def NewTracker_def RecordSync_def registered_def map_filter_simps)

theorem client_order_ids_unique_witness:
  "\<exists>u e'. handleEvents rat_mlib sampleConfig (sampleEvents StateFresh) sampleRunning = Some (u, e') \<and>
    distinct (registered (kr_sent (ge_maker e')))"
proof -
  obtain u e' where run: "handleEvents rat_mlib sampleConfig (sampleEvents StateFresh) sampleRunning = Some (u, e')"
    using sample_returns by blast
  with client_order_ids_unique[OF run] show ?thesis by (simp add: sampleEvents_def sample_start)
qed

section \<open>A reference that is not fresh\<close>

text \<open>
  C33. While the provider has no fresh price, no event registers an order: whatever the trades,
  ticks and resynchronisations are and whatever the other services answer, the list of
  registered client order IDs stays as it was.
\<close>

theorem stale_reference_registers_nothing:
  assumes "handleEvents L cfg evs e = Some (u, e')" and "\<forall>(en, ev)\<in>set evs. staleProvider en"
  shows "registered (kr_sent (ge_maker e')) = registered (kr_sent (ge_maker e))"
proof -
  let ?R = "\<lambda>e e' :: ('a, 'b) maker_engine. registered (kr_sent (ge_maker e')) = registered (kr_sent (ge_maker e))"
  have "step_relation ?R" by unfold_locales simp_all
  moreover have "keepsJ ?R (handleEvent L cfg en ev)" if "(en, ev) \<in> set evs" for en ev
    using assms(2) that
    by (intro keepsJ_mono[OF quiet.any_event[of en]]) (auto simp: quiet.RelE_def quiet.Rel_def quietStep_def view_def)
  ultimately show ?thesis by (rule handled[OF _ _ assms(1)])
qed

theorem stale_reference_registers_nothing_witness:
  "\<exists>u e'. handleEvents rat_mlib sampleConfig (sampleEvents StateStale) sampleRunning = Some (u, e') \<and>
    registered (kr_sent (ge_maker e')) = registered (kr_sent (ge_maker sampleRunning))"
proof -
  obtain u e' where run: "handleEvents rat_mlib sampleConfig (sampleEvents StateStale) sampleRunning = Some (u, e')"
    using sample_returns by blast
  have "staleProvider (sampleEnv StateStale)" by (auto simp: staleProvider_def sampleEnv_def)
  with stale_reference_registers_nothing[OF run] run show ?thesis by (simp add: sampleEvents_def)
qed

section \<open>A fill that the book already shows\<close>

definition sameTracker :: "('d, 'g) maker_engine \<Rightarrow> ('d, 'g) maker_engine \<Rightarrow> bool" where
  "sameTracker e e' \<longleftrightarrow> kr_tracker (ge_maker e') = kr_tracker (ge_maker e)"

interpretation untouched: step_relation "sameTracker :: ('d, 'g) maker_engine \<Rightarrow> _"
  by unfold_locales (simp_all add: sameTracker_def)

lemma untouched_mod: "(\<And>e. ge_maker (f e) = ge_maker e) \<Longrightarrow> keepsJ sameTracker (modJ f)"
  by (rule untouched.modify) (simp add: sameTracker_def)

lemma untouched_ask: "keepsJ sameTracker (askE f)"
  by (auto simp: keepsJ_def sameTracker_def askE_def inMaker_def askJ_def)

lemma breach_untouched: "keepsJ sameTracker (CheckSpreadBreach L cfg en m)" "keepsJ sameTracker (whenJ b (markDirty m))"
  unfolding CheckSpreadBreach_def breachBegins_def markDirty_def nowE_def Let_def
  by (intro untouched.intros untouched_ask untouched_mod; simp)+

lemma Get_SetResting:
  "Get (SetResting lvl oid q q' t) lvl' =
    (if lvl' = lvl then map_option (\<lambda>r. (fillView oid q q' r)\<lparr>lo_Status := StatusResting\<rparr>) (Get t lvl) else Get t lvl')"
  by (auto simp: SetResting_def modifyOrder_def putOrder_def Get_def AList.update_conv' split: option.splits)

text \<open>The order a fill is booked on, when only one has that ID.\<close>

lemma matched_order:
  assumes "visits vis" and "tracker_ok t" and "Get t lvl = Some r" and "lo_MarketID r = mkt" and "P r"
    and "\<And>lvl' r'. Get t lvl' = Some r' \<Longrightarrow> P r' \<Longrightarrow> lvl' = lvl"
  shows "find P (AllOrders vis t mkt) = Some r"
proof -
  have mem: "x \<in> set (AllOrders vis t mkt) \<longleftrightarrow> trackedIn t mkt (lo_LevelID x) = Some x" for x
    by (rule AllOrders_mem[OF assms(1,2)])
  have "lo_LevelID r = lvl" using tracker_okD(1)[OF assms(2,3)] .
  then have "r \<in> set (AllOrders vis t mkt)" using assms(3,4) by (simp add: mem trackedIn_def)
  then obtain x where x: "find P (AllOrders vis t mkt) = Some x" using assms(5)
    by (cases "find P (AllOrders vis t mkt)") (auto simp: find_None_iff)
  then have "x \<in> set (AllOrders vis t mkt)" "P x" by (auto simp: find_Some_iff)
  then have "Get t (lo_LevelID x) = Some x" by (auto simp: mem trackedIn_def split: option.splits if_splits)
  with assms(3,6) \<open>P x\<close> x show ?thesis by fastforce
qed

lemma fillOrder_at:
  assumes "Get t lvl = Some r" and "lo_LevelID r = lvl" and "lo_Status r = StatusResting"
  shows "Get (fillOrder q r t) lvl = (if lo_RemainingQty r \<le> q then None
    else Some (r\<lparr>lo_RemainingQty := lo_RemainingQty r - q, lo_FilledQty := lo_OriginalQty r - (lo_RemainingQty r - q)\<rparr>))"
  using assms by (simp add: fillOrder_def maxZero_def Let_def Get_def Remove_def modifyOrder_def putOrder_def AList.update_conv' AList.delete_conv')

text \<open>What a new trade does to the tracker when it matches one resting order.\<close>

lemma trade_fills:
  assumes "handleTrade L cfg en ev e = Some (u, e')" and "te_TradeID ev \<notin> ge_processedTrades e" and "te_MMSide ev \<noteq> ''''"
    and "\<And>vis. visits vis \<Longrightarrow> find (\<lambda>r. lo_OrderID r = te_MakerOrderID ev \<or> lo_OrderID r = te_TakerOrderID ev)
      (AllOrders vis (kr_tracker (ge_maker e)) (te_MarketID ev)) = Some r"
    and "\<And>n. visits (ve_visit en n)"
  shows "kr_tracker (ge_maker e') = fillOrder (te_Quantity ev) r (kr_tracker (ge_maker e))"
proof -
  let ?after = "\<lambda>b. bindJ (CheckSpreadBreach L cfg en (te_MarketID ev)) (\<lambda>breached. whenJ (b \<or> breached) (markDirty (te_MarketID ev)))"
  have after: "keepsJ sameTracker (?after b)" for b
    by (intro untouched.bind breach_untouched)
  obtain e0 where maker0: "ge_maker e0 = ge_maker e"
    and "thenJ (modJ (\<lambda>e. e\<lparr>ge_inventory := ApplyTrade (maker_trade.truncate ev) (ge_inventory e)\<rparr>))
      (bindJ (inMaker (allOrders (makerEnv en) (te_MarketID ev))) (\<lambda>rs.
       let matched = find (\<lambda>r. lo_OrderID r = te_MakerOrderID ev \<or> lo_OrderID r = te_TakerOrderID ev) rs in
       thenJ (case matched of None \<Rightarrow> retJ () | Some r \<Rightarrow> inMaker (onTracker (fillOrder (te_Quantity ev) r)))
       (bindJ (CheckSpreadBreach L cfg en (te_MarketID ev)) (\<lambda>breached.
        whenJ (matched \<noteq> None \<or> breached) (markDirty (te_MarketID ev)))))) e0 = Some (u, e')"
  proof
    let ?e0 = "if te_TradeID ev \<noteq> '''' then rememberTrade (te_TradeID ev) e else e"
    show "ge_maker ?e0 = ge_maker e" by (simp add: rememberTrade_def Let_def)
  qed (use assms(1-3) in \<open>auto simp: handleTrade_def thenJ_def bindJ_def getJ_def whenJ_def modJ_def retJ_def\<close>)
  moreover have "inMaker (allOrders (makerEnv en) (te_MarketID ev)) (e0\<lparr>ge_inventory := i\<rparr>) =
      Some (AllOrders (ve_visit en (kr_step (ge_maker e))) (kr_tracker (ge_maker e)) (te_MarketID ev),
        e0\<lparr>ge_inventory := i, ge_maker := (ge_maker e)\<lparr>kr_step := kr_step (ge_maker e) + 1\<rparr>\<rparr>)" for i
    using maker0 by (simp add: inMaker_def allOrders_def askJ_def getJ_def bindJ_def maker_env.truncate_def)
  ultimately have "?after True (e0\<lparr>ge_inventory := ApplyTrade (maker_trade.truncate ev) (ge_inventory e0),
      ge_maker := (ge_maker e)\<lparr>kr_step := kr_step (ge_maker e) + 1, kr_tracker := fillOrder (te_Quantity ev) r (kr_tracker (ge_maker e))\<rparr>\<rparr>) =
      Some (u, e')"
    using assms(4)[OF assms(5)]
    by (auto simp: thenJ_def bindJ_def modJ_def inMaker_def onTracker_def Let_def split: option.splits)
  from keepsJD[OF after this] show ?thesis by (simp add: sameTracker_def)
qed

text \<open>A registered or resting order that the book of the matching engine shows with \<open>rest\<close> left.\<close>

lemma promote_runs:
  assumes "lo_Status r \<noteq> StatusCancelling" and "lo_Status r \<noteq> StatusStale" and "inMaker (promote L m r) e = Some (u, e')"
  shows "kr_tracker (ge_maker e') = SetResting (lo_LevelID r) (mq_OrderID m) (lo_OriginalQty r)
      (parseMERemainingQuantity L m (lo_RemainingQty r)) (kr_tracker (ge_maker e))"
    and "ge_processedTrades e' = ge_processedTrades e"
  using assms by (auto simp: promote_def onTracker_def job_eval)

text \<open>
  C38. A fill is taken off the order whether or not the remaining quantity was read from the
  matching engine's book after the trade: when the book shows an order with \<open>rest\<close> left and a
  trade event of that order comes afterwards, the tracker is left with \<open>rest\<close> less the traded
  quantity, and with no order at all when the trade was as large as what still rests.
\<close>

theorem fill_counted_twice:
  assumes "tracker_ok (kr_tracker (ge_maker e))" and "\<And>n. visits (ve_visit en n)"
    and "Get (kr_tracker (ge_maker e)) lvl = Some r" and "lo_MarketID r = te_MarketID ev"
    and "lo_Status r \<noteq> StatusCancelling" and "lo_Status r \<noteq> StatusStale"
    and "mq_OrderID m = te_MakerOrderID ev" and "parseMERemainingQuantity L m (lo_RemainingQty r) = rest"
    and "\<And>lvl' r'. Get (kr_tracker (ge_maker e)) lvl' = Some r' \<Longrightarrow>
      lo_OrderID r' = te_MakerOrderID ev \<or> lo_OrderID r' = te_TakerOrderID ev \<Longrightarrow> lvl' = lvl"
    and "te_TradeID ev \<notin> ge_processedTrades e" and "te_MMSide ev \<noteq> ''''"
    and "inMaker (promote L m r) e = Some (u, e1)" and "handleTrade L cfg en ev e1 = Some (u', e2)"
  shows "map_option lo_RemainingQty (Get (kr_tracker (ge_maker e1)) lvl) = Some rest \<and>
    map_option lo_RemainingQty (Get (kr_tracker (ge_maker e2)) lvl) =
      (if rest \<le> te_Quantity ev then None else Some (rest - te_Quantity ev))"
proof -
  have lvl: "lo_LevelID r = lvl" using tracker_okD(1)[OF assms(1,3)] .
  let ?t = "SetResting lvl (mq_OrderID m) (lo_OriginalQty r) rest (kr_tracker (ge_maker e))"
  let ?r = "(fillView (mq_OrderID m) (lo_OriginalQty r) rest r)\<lparr>lo_Status := StatusResting\<rparr>"
  let ?P = "\<lambda>r. lo_OrderID r = te_MakerOrderID ev \<or> lo_OrderID r = te_TakerOrderID ev"
  note e1 = promote_runs[OF assms(5,6,12), unfolded lvl assms(8)]
  have get: "Get ?t lvl = Some ?r" using assms(3) by (simp add: Get_SetResting)
  have ok: "tracker_ok ?t" using ok_modifiers(3)[OF assms(1)] .
  have "find ?P (AllOrders vis ?t (te_MarketID ev)) = Some ?r" if "visits vis" for vis
  proof (rule matched_order[OF that ok get])
    show "lo_MarketID ?r = te_MarketID ev" "?P ?r" using assms(4,7) by (simp_all add: fillView_def)
    show "lvl' = lvl" if "Get ?t lvl' = Some r'" "?P r'" for lvl' r'
      using that assms(9) by (auto simp: Get_SetResting split: if_splits)
  qed
  with trade_fills[OF assms(13) _ assms(11) _ assms(2)] assms(10)
  have "kr_tracker (ge_maker e2) = fillOrder (te_Quantity ev) ?r ?t" by (simp add: e1)
  moreover have "lo_LevelID ?r = lvl" using lvl by (simp add: fillView_def)
  ultimately show ?thesis using fillOrder_at[OF get] get by (auto simp: e1 fillView_def)
qed

text \<open>An order of ten of which the book still shows four, after a trade of six.\<close>

definition sampleOrder :: "rat live_order" where
  "sampleOrder = \<lparr>lo_LevelID = levelIDOf ''SOL-USDT'' ''BID'' 1, lo_Generation = 1,
     lo_ClientOrderID = ClientOrderID (levelIDOf ''SOL-USDT'' ''BID'' 1) 1, lo_OrderID = ''o'', lo_MarketID = ''SOL-USDT'',
     lo_Side = ''BUY'', lo_Price = 96, lo_OriginalQty = 10, lo_RemainingQty = 10, lo_FilledQty = 0, lo_Status = StatusOSRegistered,
     lo_KafkaPublished = True, lo_PendingSince = 2, lo_OSRegisteredSince = 3, lo_CancellingSince = 0, lo_CancelRetries = 0,
     lo_QueuedCorrection = None, lo_Zone = ''LOW'', lo_RefVersion = 1, lo_CreatedAt = 2\<rparr>"

definition sampleTracking :: "(rat, nat) maker_engine" where
  "sampleTracking = sampleRunning\<lparr>ge_maker := NewReconciler 1 \<lparr>tk_orders = [(levelIDOf ''SOL-USDT'' ''BID'' 1, sampleOrder)],
     tk_generations = (\<lambda>_. 1), tk_lastSync = (\<lambda>_. 4)\<rparr>\<rparr>"

definition sampleBookOrder :: maker_order where
  "sampleBookOrder = \<lparr>mq_OrderID = ''o'', mq_ClientOrderID = ''MM-SOL-USDT-BID-01-G001'', mq_LevelID = ''MM-SOL-USDT-BID-01'',
     mq_RemainingQuantity = ''4''\<rparr>"

lemma sample_tracker: "kr_tracker (ge_maker sampleTracking) = \<lparr>tk_orders = [(levelIDOf ''SOL-USDT'' ''BID'' 1, sampleOrder)],
    tk_generations = (\<lambda>_. 1), tk_lastSync = (\<lambda>_. 4)\<rparr>"
  by (simp add: sampleTracking_def NewReconciler_def)

lemma sample_tracking:
  "tracker_ok (kr_tracker (ge_maker sampleTracking))"
  "Get (kr_tracker (ge_maker sampleTracking)) lvl = (if lvl = levelIDOf ''SOL-USDT'' ''BID'' 1 then Some sampleOrder else None)"
  unfolding sample_tracker by (simp_all add: tracker_ok_def Get_def) (simp add: sampleOrder_def)

lemma sample_unseen: "ge_processedTrades sampleTracking = {}"
  by (simp add: sampleTracking_def sampleRunning_def newMaker_def NewMakerEngine_def)

lemma sample_status: "lo_Status sampleOrder = StatusOSRegistered"
  by (simp add: sampleOrder_def)

lemma sample_remaining: "parseMERemainingQuantity rat_mlib sampleBookOrder 10 = 4"
proof -
  have "ParseUint64 ''4'' = Some 4" by (simp add: ParseUint64_def isDigit_def)
  then show ?thesis by (simp add: parseMERemainingQuantity_def sampleBookOrder_def rat_mlib_def)
qed

theorem fill_counted_twice_witness:
  "\<exists>e1 e2. inMaker (promote rat_mlib sampleBookOrder sampleOrder) sampleTracking = Some ((), e1) \<and>
    handleTrade rat_mlib sampleConfig (sampleEnv StateFresh) (sampleTrade ''t1'' ''BUY'') e1 = Some ((), e2) \<and>
    map_option lo_RemainingQty (Get (kr_tracker (ge_maker e1)) (levelIDOf ''SOL-USDT'' ''BID'' 1)) = Some 4 \<and>
    Get (kr_tracker (ge_maker e2)) (levelIDOf ''SOL-USDT'' ''BID'' 1) = None"
proof -
  let ?ev = "sampleTrade ''t1'' ''BUY''" and ?en = "sampleEnv StateFresh" and ?lvl = "levelIDOf ''SOL-USDT'' ''BID'' 1"
  obtain e1 where e1: "inMaker (promote rat_mlib sampleBookOrder sampleOrder) sampleTracking = Some ((), e1)"
    using sample_status by (auto simp: promote_def onTracker_def job_eval)
  obtain e2 where e2: "handleTrade rat_mlib sampleConfig ?en ?ev e1 = Some ((), e2)"
    using totalJD[OF total_trade[where C = "\<lambda>_. True" and L = rat_mlib and cfg = sampleConfig and en = ?en and ev = ?ev], of e1]
    by (auto simp: refsOkE_def refsOk_def)
  have "map_option lo_RemainingQty (Get (kr_tracker (ge_maker e1)) ?lvl) = Some 4 \<and>
      map_option lo_RemainingQty (Get (kr_tracker (ge_maker e2)) ?lvl) =
        (if 4 \<le> te_Quantity ?ev then None else Some (4 - te_Quantity ?ev))"
  proof (rule fill_counted_twice[OF sample_tracking(1) _ _ _ _ _ _ _ _ _ _ e1 e2])
    show "visits (ve_visit ?en n)" for n by (simp add: sampleEnv_def visits_id)
  qed (use sample_remaining in \<open>auto simp: sample_tracking(2) sample_unseen sampleTrade_def sampleOrder_def sampleBookOrder_def split: if_splits\<close>)
  then show ?thesis using e1 e2 by (auto simp: sampleTrade_def)
qed

end
