(* ===== verification/Spec2Isabelle.thy ===== *)
theory Spec2Isabelle
  imports EngineFindings Command CheckpointProps WalletProps OrderClaims MakerPromises
begin

text \<open>
  TradeDrift, a spot exchange built from Go microservices: a model of the services that hold
  orders, money and liquidity, and the theorems that make them correct. The paths below are
  under \<open>src/\<close>.

  \<^bold>\<open>The program.\<close> A user's order enters the order service (\<open>services/order\<close>), which reserves the
  funds in the wallet service (\<open>services/wallet\<close>), stores the order with an outbox event in one
  transaction and publishes the event to Kafka. The matching engine (\<open>services/matching-engine\<close>)
  consumes the commands of a market, keeps its book in memory and emits fills. The settlement
  service (\<open>services/settlement\<close>) turns each fill into a transfer between the two wallets and
  retries what fails. The order service consumes the settled trades. The liquidity engine
  (\<open>services/liquidity-engine\<close>) quotes both sides of every market around an external reference
  price, registers its orders with the order service and sends them to the matching engine, and
  follows the trade events.

  \<^bold>\<open>Which theory models what.\<close> Each group has its definitions first, in the order of the code, and
  its lemmas in the theories that follow.

  \<^item> \<open>Prelude\<close>, \<open>Extern\<close>, \<open>Postgres\<close>, \<open>Interleave\<close>, \<open>Steady\<close>: what the components share. Lists,
    maps, strings and machine integers of Go; the outside code as records of functions
    (\<open>shopspring/decimal\<close>, \<open>google/uuid\<close>, time formatting, SHA-256, JSON); a transaction of \<open>pgx\<close> with
    its statements, its faults and its commit; processes between whose actions others may act,
    and the locale \<open>guarantee\<close> of the steps such a process keeps.

  \<^item> \<open>OrderBook\<close>, \<open>Matcher\<close>, \<open>Snapshot\<close> (\<open>internal/orderbook\<close>, \<open>internal/matching\<close>): sides, price levels,
    the order index, insertion, cancellation, the depth view, the matching loop, serialisation and
    restoration. \<open>BookInvariant\<close> states the representation invariant and the price-time list a
    book stands for, \<open>BookOps\<close> and \<open>BookView\<close> prove every operation against them, \<open>MatchSpec\<close> is the
    sweep of such a list, \<open>MatchRefinement\<close> shows that the loop implements the sweep and returns,
    and \<open>MatchProps\<close> and \<open>SnapshotProps\<close> hold the properties.

  \<^item> \<open>EventRing\<close>, \<open>Engine\<close>, \<open>EventLoop\<close>, \<open>Command\<close>, \<open>Checkpoint\<close> (\<open>internal/market\<close>,
    \<open>internal/kafka/command.go\<close>, \<open>internal/checkpoint\<close>): the deduplication window, the modes of a
    market, one event with each of its branches, the two loops of \<open>Run\<close>, the intake of commands,
    and the coordinator that decides which offset may be committed. \<open>EngineProps\<close>,
    \<open>EngineFindings\<close> and \<open>CheckpointProps\<close> hold the properties.

  \<^item> \<open>WalletStore\<close>, \<open>WalletService\<close>, \<open>WalletSettle\<close>, \<open>WalletCalls\<close> (\<open>services/wallet/internal\<close>): the
    repositories statement by statement, the operations with their error mapping, the settlement of a trade, the gRPC handler. \<open>WalletSpec\<close> and \<open>WalletStep\<close> are the abstract wallets,
    \<open>WalletOps\<close>, \<open>WalletRefine\<close> and \<open>WalletSettleRefine\<close> the refinement, \<open>WalletLedger\<close> the accounts of the
    ledger, \<open>WalletProps\<close> the properties, \<open>WalletSample\<close> the instance of the witnesses.

  \<^item> \<open>SettlementService\<close> (\<open>services/settlement/internal\<close>): the pipeline of a trade, the recovery
    worker, the consumer and its offset. \<open>SettlementSpec\<close> is its specification and the contract with
    the wallet, \<open>SettlementProps\<close>, \<open>SettlementRetry\<close> and \<open>SettlementClaims\<close> the proofs.

  \<^item> \<open>OrderStore\<close>, \<open>OrderService\<close>, \<open>OrderJobs\<close> (\<open>services/order/internal\<close>): the tables, the operations,
    the outbox publisher, the release worker and the two consumers. \<open>OrderSpec\<close> gives the steps an
    order may take, \<open>OrderRefine\<close>, \<open>OrderProcess\<close> and \<open>OrderOutbox\<close> show that every transaction takes
    only them, \<open>OrderClaims\<close> holds the properties.

  \<^item> \<open>MakerConfig\<close>, \<open>MakerPricing\<close>, \<open>MakerTracker\<close>, \<open>MakerIDs\<close>, \<open>MakerInventory\<close>, \<open>MakerState\<close>,
    \<open>MakerDispatch\<close>, \<open>MakerSync\<close>, \<open>MakerRefresh\<close>, \<open>MakerEngine\<close> and the first part of \<open>MakerRun\<close>
    (\<open>services/liquidity-engine/internal\<close>: \<open>config\<close>, \<open>pricing\<close>, \<open>order\<close>, \<open>orderservice/parse.go\<close>,
    \<open>inventory\<close>, \<open>reconciler\<close>, \<open>engine\<close>): the ladder and its random prices, the tracker of the engine's
    own orders, the comparison of the two, the commands that follow, the synchronisation with the
    order service and with the matching engine's book, the timeouts, the expiry, the repricing
    after a move of the reference, and the event loop. \<open>MakerLadder\<close> and \<open>MakerDiff\<close> prove the pure
    parts, \<open>MakerGuarantee\<close> what every job keeps, \<open>MakerRun\<close> the runs, \<open>MakerTotal\<close> that no job
    panics; \<open>MakerClaims\<close> and \<open>MakerPromises\<close> hold the properties, \<open>MakerSample\<close> the instance of the
    witnesses.

  \<^bold>\<open>How the code is modelled.\<close> A struct is a record, an enumeration a datatype, an error a value of
  a sum or option type with one constructor for each error of the code; \<open>int\<close> and \<open>int64\<close> values are
  integers with the wrap-around written out where a value can reach it, and words where the code
  works on bits. A decimal is a value of an ordered ring, and its division, rounding and printing are
  parameters. A Go map that is ranged over is an association list with a parameter for the order of the visit; the
  theorems hold for every order. A function that may panic returns an option, and None is the
  panic. Statements on a database are functions on its tables; whether a statement, a commit or an
  acknowledgement fails is decided by an environment indexed by the step, so every theorem
  covers every pattern of faults. Where other processes may act between two actions, the
  environment gives what they did, and the theorems assume of it only the steps of the
  specification. The answers of the services the liquidity engine calls, its clock and its random
  numbers come the same way from an environment, for every step anew.

  \<^bold>\<open>What the theorems show.\<close> Matching returns, implements the price-time sweep, never leaves a crossed
  book and replays to the same book; a snapshot round-trips exactly when the orders of its book are
  admissible and its queues in timestamp order, and a refused one leaves the book alone; the event
  loop answers each command exactly once without a panic, and a command redelivered at its offset, or
  within 50000 steps at any other, changes nothing; a blocked market stays blocked; no offset is committed before all earlier ones are completed, and without
  faults each is committed. Wallets never go negative and their totals are explained by the
  ledger; a reservation, a release, a deposit and a settlement are all or nothing and happen at most
  once under any faults and any interleaving. The recovery calls the wallet for a trade at most five times,
  and once more for every run in which its own database fails; an order
  moves only through its life cycle; an event leaves the outbox only after Kafka has it. The
  liquidity engine keeps its tracker well-formed in every run, registers no client order ID twice
  between two resynchronisations and nothing at all while its reference is not fresh; its ladder is
  inside its zones and on its side of the reference; it changes only the levels that need it; and with
  a sane configuration no sequence of events makes it panic. Other properties show where the
  code does something its comments do not say: a trade lost by a consumer that goes on, a
  trade that can never be settled because its order's funds were released first, a
  reservation released under a live order, a fill counted twice. Lemmas that are not properties show further ones
  (a live book whose snapshot cannot be restored, a deposit that swallows a trade, a ladder that crosses, a
  generation counter that is set back).

  \<^bold>\<open>Interfaces.\<close> \<open>dedup_window\<close> is what the event loop needs of its window of event IDs, interpreted on
  the ring; \<open>settler\<close> is what the settlement service needs of a wallet, interpreted on the modelled
  wallet; \<open>guarantee\<close> is the contract of a process among others, interpreted on the order service's
  rows and on its outbox; \<open>step_relation\<close> and its extensions \<open>maker_relation\<close> and \<open>resync_relation\<close> say which
  relations every job of the liquidity engine keeps, interpreted on the soundness of the
  tracker, the freshness of client order IDs, the refusal of new orders and the remembered trades.

  \<^bold>\<open>Bounds and fuel.\<close> The matching loop is a partial function into an option type, and \<open>Match_terminates\<close>
  shows that it returns. A price is drawn at most twenty times, as in the code; twenty is a
  constant of the code and not fuel. The committer of the checkpoints collects the run of completed
  offsets with the number of completed entries plus one as fuel, and \<open>collect_fuel\<close> shows that this is
  enough. The event loops take a list of events, and the properties hold for lists of any
  length. Every other loop follows a list or a number that gets smaller.

  \<^bold>\<open>What is not modelled.\<close> Goroutines, channels, mutexes, timers, metrics, logs and HTTP endpoints:
  the modelled loops are single goroutines and receive what the others send as events. The gRPC, Kafka and JSON
  layers carry values that reach the model as arguments. Of the matching engine, the replay after a restart
  (\<open>internal/recovery\<close>), the event publisher and its retention, the lease, the projection and the
  market manager; of the liquidity engine, the clients, the drift report and the loading of the configuration; and the gateway,
  the accounts, the administration, the read models of trades, markets and portfolios, the
  notifications, the payments and the simulated taker: they display or forward what the modelled
  services decide, or rest on libraries and services that are not part of the repository.
\<close>

end
